(* ===== verification/Prelude.thy ===== *)
theory Prelude
  imports Complex_Main
begin

section \<open>Prelude: Python values, errors, transactions and tables\<close>

text \<open>
  What every component of the model shares.
  \<^item> Identifiers (\<open>uuid\<close>) are natural numbers and points in time are integers
    (microseconds since the epoch). A Python \<open>float\<close> is an exact rational:
    the rounding of IEEE arithmetic is not modelled, the explicit calls of
    \<open>round(x, n)\<close> are (half to even, as Python does).
  \<^item> A raised exception is a value of \<open>exn\<close>; a fallible computation returns
    \<open>exn + 'a\<close> and one that also changes state returns the sum together with
    the new state (\<open>outcome\<close>), because a Python function that raises keeps the
    changes it made before.
  \<^item> \<open>in_session\<close> is the transaction of \<open>database.py\<close>: commit on success,
    roll back on an exception.
  \<^item> A table is the list of its rows in insertion order; the query operations
    of SQLAlchemy that the code uses are functions on such lists.
\<close>

type_synonym uuid = nat
type_synonym timestamp = int

named_theorems table_simps \<open>equations of the table operations\<close>
named_theorems session_simps \<open>equations of the transaction wrapper\<close>

subsection \<open>Exceptions\<close>

text \<open>
  The application errors of \<open>middleware/error_handler.py\<close> carry the constant part
  of their message, \<open>NotFoundError\<close> the resource and its id. The others are the
  Python, SQLAlchemy, FastAPI and database errors that some path of the code raises.
\<close>

datatype exn =
    AppException string nat string
  | NotFoundError string uuid
  | ConflictError string
  | ForbiddenError string
  | UnauthorizedError string
  | RateLimitError int
  | RateLimitExceeded int
  | MultipleResultsFound
  | NoResultFound
  | IntegrityError string
  | DBAPIError
  | ValueError string
  | AttributeError string
  | TypeError string
  | KeyError string
  | ImportError string
  | ZeroDivisionError
  | NotImplementedError
  | SoftTimeLimitExceeded
  | MaxRetriesExceededError
  | Retry exn
  | ExternalError string
  | RequestValidationError "string list"
  | HTTPException nat string

type_synonym ('s, 'a) outcome = "(exn + 'a) \<times> 's"

fun is_ok :: "exn + 'a \<Rightarrow> bool" where
  "is_ok (Inl _) = False"
| "is_ok (Inr _) = True"

lemma is_ok_iff: "is_ok r \<longleftrightarrow> (\<exists>x. r = Inr x)"
  by (cases r) auto

text \<open>\<open>get_db_session\<close> and \<open>get_standalone_session\<close>: the state of a
  failed handler is dropped.\<close>

definition in_session :: "('s \<Rightarrow> ('s, 'a) outcome) \<Rightarrow> 's \<Rightarrow> ('s, 'a) outcome" where
  "in_session h s =
     (case h s of (Inr x, s') \<Rightarrow> (Inr x, s') | (Inl e, s') \<Rightarrow> (Inl e, s))"

lemma in_session_ok [session_simps]: "h s = (Inr x, s') \<Longrightarrow> in_session h s = (Inr x, s')"
  by (simp add: in_session_def)

lemma in_session_err [session_simps]: "h s = (Inl e, s') \<Longrightarrow> in_session h s = (Inl e, s)"
  by (simp add: in_session_def)

lemma in_session_result: "fst (in_session h s) = fst (h s)"
  by (cases "h s") (auto simp: in_session_def split: sum.splits)

lemma in_session_rollback: "fst (h s) = Inl e \<Longrightarrow> in_session h s = (Inl e, s)"
  by (cases "h s") (auto simp: in_session_def)

lemma in_session_okD: "in_session h s = (Inr x, s') \<Longrightarrow> h s = (Inr x, s')"
  by (cases "h s") (auto simp: in_session_def split: sum.splits)

subsection \<open>Decimal text\<close>

text \<open>\<open>str(n)\<close> of a natural number; the text of an id is that of its number.\<close>

definition digit_char :: "nat \<Rightarrow> char" where
  "digit_char n = char_of (48 + n mod 10)"

fun nat_str :: "nat \<Rightarrow> string" where
  "nat_str n = (if n < 10 then [digit_char n] else nat_str (n div 10) @ [digit_char (n mod 10)])"

declare nat_str.simps [simp del]

definition int_str :: "int \<Rightarrow> string" where
  "int_str k = (if k < 0 then CHR ''-'' # nat_str (nat (- k)) else nat_str (nat k))"

lemma nat_str_digits: "c \<in> set (nat_str n) \<Longrightarrow> c \<noteq> CHR ''/''"
proof (induction n rule: nat_str.induct)
  case (1 n)
  have d: "digit_char k \<noteq> CHR ''/''" for k
  proof
    assume "digit_char k = CHR ''/''"
    then have "of_char (digit_char k) = (of_char CHR ''/'' :: nat)" by simp
    then show False by (simp add: digit_char_def)
  qed
  from 1 show ?case by (subst (asm) (2) nat_str.simps) (auto simp: d d [symmetric] split: if_splits)
qed

lemma digit_char_inj: "digit_char m = digit_char n \<Longrightarrow> m mod 10 = n mod 10"
proof -
  assume "digit_char m = digit_char n"
  then have "of_char (digit_char m) = (of_char (digit_char n) :: nat)" by simp
  then show ?thesis by (simp add: digit_char_def)
qed

lemma nat_str_nonempty [simp]: "nat_str n \<noteq> []"
  by (subst nat_str.simps) simp

lemma nat_str_inj: "nat_str m = nat_str n \<Longrightarrow> m = n"
proof (induction m arbitrary: n rule: nat_str.induct)
  case (1 m)
  show ?case
  proof (cases "m < 10 \<or> n < 10")
    case True
    with 1(2) have "m < 10 \<and> n < 10 \<and> digit_char m = digit_char n"
      by (subst (asm) nat_str.simps, subst (asm) (2) nat_str.simps) (auto simp: nat_str_nonempty [symmetric] split: if_splits)
    then show ?thesis using digit_char_inj [of m n] by simp
  next
    case False
    with 1(2) have "nat_str (m div 10) = nat_str (n div 10)" "digit_char (m mod 10) = digit_char (n mod 10)"
      by (subst (asm) nat_str.simps, subst (asm) (2) nat_str.simps, simp)+
    then have "m div 10 = n div 10" "m mod 10 = n mod 10"
      using 1(1) False digit_char_inj [of "m mod 10" "n mod 10"] by auto
    then show ?thesis by (metis div_mult_mod_eq)
  qed
qed

subsection \<open>Tables\<close>

definition select_where :: "('a \<Rightarrow> bool) \<Rightarrow> 'a list \<Rightarrow> 'a list" where
  "select_where P t = filter P t"

definition update_where :: "('a \<Rightarrow> bool) \<Rightarrow> ('a \<Rightarrow> 'a) \<Rightarrow> 'a list \<Rightarrow> 'a list" where
  "update_where P f t = map (\<lambda>x. if P x then f x else x) t"

definition row_count :: "('a \<Rightarrow> bool) \<Rightarrow> 'a list \<Rightarrow> nat" where
  "row_count P t = length (filter P t)"

definition delete_where :: "('a \<Rightarrow> bool) \<Rightarrow> 'a list \<Rightarrow> 'a list" where
  "delete_where P t = filter (\<lambda>x. \<not> P x) t"

definition insert_row :: "'a \<Rightarrow> 'a list \<Rightarrow> 'a list" where
  "insert_row x t = t @ [x]"

fun scalar_one_or_none :: "'a list \<Rightarrow> exn + 'a option" where
  "scalar_one_or_none [] = Inr None"
| "scalar_one_or_none [x] = Inr (Some x)"
| "scalar_one_or_none (x # y # xs) = Inl MultipleResultsFound"

fun scalar_one :: "'a list \<Rightarrow> exn + 'a" where
  "scalar_one [] = Inl NoResultFound"
| "scalar_one [x] = Inr x"
| "scalar_one (x # y # xs) = Inl MultipleResultsFound"

text \<open>\<open>ORDER BY k DESC\<close> and \<open>ORDER BY k ASC\<close>: stable sorts. PostgreSQL
  leaves the order of ties open; the model keeps insertion order.\<close>

definition order_by_desc :: "('a \<Rightarrow> int) \<Rightarrow> 'a list \<Rightarrow> 'a list" where
  "order_by_desc k t = sort_key (\<lambda>x. - k x) t"

definition order_by_asc :: "('a \<Rightarrow> 'k::linorder) \<Rightarrow> 'a list \<Rightarrow> 'a list" where
  "order_by_asc k t = sort_key k t"

text \<open>\<open>OFFSET (page - 1) * size LIMIT size\<close>; PostgreSQL refuses a negative
  offset or limit.\<close>

definition offset_limit :: "int \<Rightarrow> int \<Rightarrow> 'a list \<Rightarrow> exn + 'a list" where
  "offset_limit page psize t =
     (if (page - 1) * psize < 0 \<or> psize < 0 then Inl DBAPIError
      else Inr (take (nat psize) (drop (nat ((page - 1) * psize)) t)))"

lemma update_where_Nil [table_simps]: "update_where P f [] = []"
  by (simp add: update_where_def)

lemma update_where_Cons [table_simps]:
  "update_where P f (x # xs) = (if P x then f x else x) # update_where P f xs"
  by (simp add: update_where_def)

lemma length_update_where [simp]: "length (update_where P f t) = length t"
  by (simp add: update_where_def)

lemma set_update_where:
  "set (update_where P f t) = f ` {x \<in> set t. P x} \<union> {x \<in> set t. \<not> P x}"
  by (auto simp: update_where_def)

lemma update_where_none: "(\<And>x. x \<in> set t \<Longrightarrow> \<not> P x) \<Longrightarrow> update_where P f t = t"
  by (induction t) (auto simp: update_where_def)

lemma map_update_where:
  "(\<And>x. P x \<Longrightarrow> k (f x) = k x) \<Longrightarrow> map k (update_where P f t) = map k t"
  by (auto simp: update_where_def)

lemma filter_update_where:
  "(\<And>x. P x \<Longrightarrow> Q (f x) = Q x) \<Longrightarrow>
   filter Q (update_where P f t) = update_where P f (filter Q t)"
  by (induction t) (auto simp: update_where_def)

lemma filter_update_where_disjoint:
  "(\<And>x. P x \<Longrightarrow> \<not> Q x \<and> \<not> Q (f x)) \<Longrightarrow> filter Q (update_where P f t) = filter Q t"
  by (induction t) (auto simp: update_where_def)

lemma scalar_one_or_none_iff [simp]:
  "scalar_one_or_none t = Inr None \<longleftrightarrow> t = []"
  "scalar_one_or_none t = Inr (Some x) \<longleftrightarrow> t = [x]"
  by (cases t rule: scalar_one_or_none.cases; auto)+

lemma scalar_one_iff [simp]: "scalar_one t = Inr x \<longleftrightarrow> t = [x]"
  by (cases t rule: scalar_one.cases) auto

lemma scalar_one_or_none_cases:
  "scalar_one_or_none t = Inr None \<or> (\<exists>x. scalar_one_or_none t = Inr (Some x))
   \<or> scalar_one_or_none t = Inl MultipleResultsFound"
  by (cases t rule: scalar_one_or_none.cases) auto

text \<open>A key that is unique in the table selects at most one row.\<close>

lemma filter_key_unique:
  "distinct (map k t) \<Longrightarrow> x \<in> set t \<Longrightarrow> P x \<Longrightarrow>
   filter (\<lambda>y. k y = k x \<and> P y) t = [x]"
proof (induction t)
  case Nil
  then show ?case by simp
next
  case (Cons a t)
  show ?case
  proof (cases "a = x")
    case True
    with Cons.prems have "k x \<notin> k ` set t" by auto
    then have "\<forall>y \<in> set t. k y \<noteq> k x" by (metis imageI)
    then have "filter (\<lambda>y. k y = k x \<and> P y) t = []" by (simp add: filter_empty_conv)
    with True Cons.prems show ?thesis by simp
  next
    case False
    with Cons.prems have "k a \<noteq> k x" by force
    with False Cons show ?thesis by simp
  qed
qed

lemma filter_singletonD: "filter P t = [x] \<Longrightarrow> x \<in> set t \<and> P x"
  by (auto simp: filter_eq_Cons_iff)

lemma filter_key_unique1:
  "distinct (map k t) \<Longrightarrow> x \<in> set t \<Longrightarrow> filter (\<lambda>y. k y = k x) t = [x]"
  using filter_key_unique [of k t x "\<lambda>_. True"] by simp

lemma filter_unique_le1:
  "distinct (map k t) \<Longrightarrow> filter (\<lambda>y. k y = i \<and> P y) t = [] \<or>
   (\<exists>x. filter (\<lambda>y. k y = i \<and> P y) t = [x] \<and> x \<in> set t \<and> k x = i \<and> P x)"
proof (cases "\<exists>x \<in> set t. k x = i \<and> P x")
  case True
  then obtain x where "x \<in> set t" "k x = i" "P x" by blast
  moreover assume "distinct (map k t)"
  ultimately show ?thesis using filter_key_unique [of k t x P] by auto
next
  case False
  then show ?thesis by (auto simp: filter_empty_conv)
qed

lemma set_order_by_desc [simp]: "set (order_by_desc k t) = set t"
  by (simp add: order_by_desc_def)

lemma length_order_by_desc [simp]: "length (order_by_desc k t) = length t"
  by (simp add: order_by_desc_def)

lemma set_order_by_asc [simp]: "set (order_by_asc k t) = set t"
  by (simp add: order_by_asc_def)

lemma order_by_desc_sorted: "sorted_wrt (\<lambda>x y. k x \<ge> k y) (order_by_desc k t)"
proof -
  have "sorted (map (\<lambda>x. - k x) (order_by_desc k t))"
    by (simp add: order_by_desc_def)
  then show ?thesis by (simp add: sorted_wrt_map)
qed

end
