(* ===== verification/Models.thy ===== *)
theory Models
  imports Prelude
begin

section \<open>Data model (\<open>src/models/\<close>)\<close>

text \<open>
  One record per SQLAlchemy model. The class hierarchy of \<open>models/base.py\<close> is
  record extension: \<open>BaseModel\<close> (primary key, timestamps, soft delete) is extended
  by the models that carry an \<open>organization_id\<close>, and those by their columns.
  Relationships are foreign keys. JSONB columns hold values of \<open>json\<close>. The
  database is the record of its tables.
\<close>

subsection \<open>JSON values\<close>

datatype json =
    JNull
  | JBool bool
  | JNum rat
  | JStr string
  | JArr "json list"
  | JObj "(string \<times> json) list"

text \<open>\<open>d.get(k)\<close> on a JSON object, and Python's truth value.\<close>

fun json_get :: "json \<Rightarrow> string \<Rightarrow> json option" where
  "json_get (JObj kvs) k = map_of kvs k"
| "json_get _ _ = None"

fun json_truthy :: "json \<Rightarrow> bool" where
  "json_truthy JNull = False"
| "json_truthy (JBool b) = b"
| "json_truthy (JNum q) = (q \<noteq> 0)"
| "json_truthy (JStr s) = (s \<noteq> [])"
| "json_truthy (JArr xs) = (xs \<noteq> [])"
| "json_truthy (JObj kvs) = (kvs \<noteq> [])"

definition dict_get_default :: "json \<Rightarrow> string \<Rightarrow> json \<Rightarrow> json" where
  "dict_get_default j k d = (case json_get j k of None \<Rightarrow> d | Some v \<Rightarrow> v)"

text \<open>\<open>isinstance(value, (int, float))\<close> admits booleans.\<close>

fun number_of :: "json \<Rightarrow> rat option" where
  "number_of (JNum q) = Some q"
| "number_of (JBool b) = Some (if b then 1 else 0)"
| "number_of _ = None"

definition empty_obj :: json where
  "empty_obj = JObj []"

subsection \<open>Base model\<close>

record base_model =
  ident :: uuid
  created_at :: timestamp
  updated_at :: timestamp
  deleted_at :: "timestamp option"

definition is_deleted :: "'a base_model_scheme \<Rightarrow> bool" where
  "is_deleted x \<longleftrightarrow> deleted_at x \<noteq> None"

definition soft_delete :: "timestamp \<Rightarrow> 'a base_model_scheme \<Rightarrow> 'a base_model_scheme" where
  "soft_delete now x = x\<lparr>deleted_at := Some now\<rparr>"

definition restore :: "'a base_model_scheme \<Rightarrow> 'a base_model_scheme" where
  "restore x = x\<lparr>deleted_at := None\<rparr>"

record org_model = base_model +
  organization_id :: uuid

text \<open>\<open>deleted_at IS NULL\<close>, the condition nearly every query carries.\<close>

abbreviation active :: "'a base_model_scheme \<Rightarrow> bool" where
  "active x \<equiv> deleted_at x = None"

lemma soft_delete_sel [simp]:
  "ident (soft_delete now x) = ident x"
  "created_at (soft_delete now x) = created_at x"
  "deleted_at (soft_delete now x) = Some now"
  by (simp_all add: soft_delete_def)

lemma soft_delete_org [simp]: "organization_id (soft_delete now x) = organization_id x"
  by (cases x) (simp add: soft_delete_def)

lemma restore_soft_delete: "active x \<Longrightarrow> restore (soft_delete now x) = x"
  by (simp add: restore_def soft_delete_def)

subsection \<open>Organizations, users and API keys\<close>

datatype plan_tier = FREE | PRO | ENTERPRISE

record organization = base_model +
  org_name :: string
  slug :: string
  plan_tier :: plan_tier
  rate_limit_per_minute :: int
  max_concurrent_evaluations :: int
  org_settings :: json

text \<open>The roles of the \<open>users\<close> table; \<open>security.py\<close> has an enumeration of
  its own (theory Security).\<close>

datatype user_role = UR_ADMIN | UR_JUDGE | UR_VIEWER

record user = org_model +
  email :: string
  hashed_password :: string
  full_name :: string
  user_role :: user_role
  is_active :: bool
  last_login_at :: "timestamp option"
  failed_login_attempts :: int

definition MAX_FAILED_ATTEMPTS :: int where
  "MAX_FAILED_ATTEMPTS = 5"

definition is_locked :: "user \<Rightarrow> bool" where
  "is_locked u \<longleftrightarrow> failed_login_attempts u \<ge> MAX_FAILED_ATTEMPTS"

record api_key = org_model +
  key_name :: string
  key_hash :: string
  key_prefix :: string
  key_user_id :: uuid
  scopes :: "string list"
  expires_at :: "timestamp option"
  last_used_at :: "timestamp option"
  is_revoked :: bool

definition key_is_valid :: "timestamp \<Rightarrow> api_key \<Rightarrow> bool" where
  "key_is_valid now k =
     (if is_revoked k then False
      else case expires_at k of
             Some e \<Rightarrow> if e < now then False else True
           | None \<Rightarrow> True)"

subsection \<open>Submissions and evaluation runs\<close>

datatype submission_status = DRAFT | SUBMITTED | UNDER_REVIEW | EVALUATED | ARCHIVED

record submission = org_model +
  submitted_by_id :: "uuid option"
  startup_name :: string
  sub_description :: "string option"
  website_url :: "string option"
  pitch_deck_url :: "string option"
  sub_status :: submission_status
  sub_metadata :: json
  raw_content :: json

record evaluation_config = org_model +
  config_version :: int
  config_name :: string
  config_description :: "string option"
  config_created_by_id :: "uuid option"
  pipeline_config :: json
  config_webhook_url :: "string option"
  is_template :: bool

datatype run_status = PENDING | RUNNING | COMPLETED | FAILED | CANCELLED

record evaluation_run = org_model +
  version :: int
  submission_id :: uuid
  config_id :: "uuid option"
  triggered_by_id :: "uuid option"
  run_status :: run_status
  started_at :: "timestamp option"
  completed_at :: "timestamp option"
  total_workers :: int
  completed_workers :: int
  failed_workers :: int
  overall_score :: "rat option"
  run_error_message :: "string option"
  run_celery_task_id :: "string option"
  config_snapshot :: json
  run_metadata :: json

text \<open>\<open>RunStatus\<close> members that end a run, as \<open>is_terminal\<close> lists them.\<close>

definition is_terminal :: "evaluation_run \<Rightarrow> bool" where
  "is_terminal r \<longleftrightarrow> run_status r \<in> {COMPLETED, FAILED, CANCELLED}"

subsection \<open>What the workers write\<close>

datatype worker_status = W_PENDING | W_RUNNING | W_COMPLETED | W_FAILED

record worker_result = org_model +
  wr_run_id :: uuid
  worker_type :: string
  worker_id :: "string option"
  wr_celery_task_id :: "string option"
  wr_status :: worker_status
  processing_time_ms :: int
  output_data :: json
  wr_error_message :: "string option"

record claim = org_model +
  claim_run_id :: uuid
  claim_submission_id :: uuid
  claim_text :: string
  category :: string
  source_reference :: "string option"
  confidence_score :: rat
  verification_status :: string
  claim_evidence :: json
  claim_metadata :: json

record contradiction = org_model +
  con_run_id :: uuid
  claim_a_id :: uuid
  claim_b_id :: uuid
  contradiction_type :: string
  severity :: rat
  explanation :: string
  con_evidence :: json

record score = org_model +
  score_run_id :: uuid
  dimension :: string
  score_value :: rat
  weight :: rat
  rationale :: "string option"
  breakdown :: json

text \<open>The check constraints and the partial unique index of the table.\<close>

definition ck_scores_range :: "score \<Rightarrow> bool" where
  "ck_scores_range s \<longleftrightarrow>
     0 \<le> score_value s \<and> score_value s \<le> 1 \<and> 0 \<le> weight s \<and> weight s \<le> 1"

definition uq_scores_run_dimension :: "score list \<Rightarrow> bool" where
  "uq_scores_run_dimension t \<longleftrightarrow>
     distinct (map (\<lambda>s. (score_run_id s, dimension s)) (filter (\<lambda>s. active s) t))"

subsection \<open>Datasets, metrics and the audit log\<close>

datatype dataset_status = DS_UPLOADING | DS_VALIDATING | DS_READY | DS_FAILED | DS_ARCHIVED

record dataset = org_model +
  ds_name :: string
  ds_description :: "string option"
  ds_created_by_id :: "uuid option"
  storage_path :: string
  sample_count :: int
  schema_version :: string
  checksum :: string
  size_bytes :: int
  ds_status :: dataset_status
  ds_metadata :: json

datatype metric_type = ACCURACY | F1 | BLEU | ROUGE | TOXICITY | LATENCY | COHERENCE
  | RELEVANCE | CUSTOM

record metric = base_model +
  metric_name :: string
  display_name :: string
  metric_description :: "string option"
  metric_org_id :: "uuid option"
  metric_type :: metric_type
  computation_config :: json
  higher_is_better :: bool
  min_value :: rat
  max_value :: rat
  is_builtin :: bool

datatype audit_action = A_CREATE | A_READ | A_UPDATE | A_DELETE | A_LOGIN | A_LOGOUT
  | A_LOGIN_FAILED | A_SUBMISSION_CREATED | A_SUBMISSION_UPDATED | A_EVALUATION_STARTED
  | A_EVALUATION_COMPLETED | A_EVALUATION_FAILED | A_EVALUATION_CANCELLED
  | A_CLAIM_EXTRACTED | A_CONTRADICTION_DETECTED | A_SCORE_RECORDED | A_SETTINGS_CHANGED

text \<open>
  The attribute access \<open>AuditAction.X\<close> by name: the code names members that the
  enumeration does not have, and Python raises \<open>AttributeError\<close> when it
  evaluates them.
\<close>

definition audit_members :: "(string \<times> audit_action) list" where
  "audit_members =
    [(''CREATE'', A_CREATE), (''READ'', A_READ), (''UPDATE'', A_UPDATE),
     (''DELETE'', A_DELETE), (''LOGIN'', A_LOGIN), (''LOGOUT'', A_LOGOUT),
     (''LOGIN_FAILED'', A_LOGIN_FAILED), (''SUBMISSION_CREATED'', A_SUBMISSION_CREATED),
     (''SUBMISSION_UPDATED'', A_SUBMISSION_UPDATED),
     (''EVALUATION_STARTED'', A_EVALUATION_STARTED),
     (''EVALUATION_COMPLETED'', A_EVALUATION_COMPLETED),
     (''EVALUATION_FAILED'', A_EVALUATION_FAILED),
     (''EVALUATION_CANCELLED'', A_EVALUATION_CANCELLED),
     (''CLAIM_EXTRACTED'', A_CLAIM_EXTRACTED),
     (''CONTRADICTION_DETECTED'', A_CONTRADICTION_DETECTED),
     (''SCORE_RECORDED'', A_SCORE_RECORDED), (''SETTINGS_CHANGED'', A_SETTINGS_CHANGED)]"

definition audit_action_attr :: "string \<Rightarrow> exn + audit_action" where
  "audit_action_attr n =
     (case map_of audit_members n of
        Some a \<Rightarrow> Inr a
      | None \<Rightarrow> Inl (AttributeError n))"

record audit_log =
  al_timestamp :: timestamp
  al_organization_id :: "uuid option"
  al_user_id :: "uuid option"
  al_action :: audit_action
  resource_type :: string
  resource_id :: "uuid option"
  ip_address :: "string option"
  user_agent :: "string option"
  request_id :: "string option"
  changes :: "json option"
  al_status :: string
  detail :: "string option"

subsection \<open>The database\<close>

record db =
  organizations :: "organization list"
  users :: "user list"
  api_keys :: "api_key list"
  submissions :: "submission list"
  configs :: "evaluation_config list"
  runs :: "evaluation_run list"
  worker_results :: "worker_result list"
  claims :: "claim list"
  contradictions :: "contradiction list"
  scores :: "score list"
  datasets :: "dataset list"
  metrics :: "metric list"
  audit_logs :: "audit_log list"

definition empty_db :: db where
  "empty_db = \<lparr>organizations = [], users = [], api_keys = [], submissions = [],
     configs = [], runs = [], worker_results = [], claims = [], contradictions = [],
     scores = [], datasets = [], metrics = [], audit_logs = []\<rparr>"

end
