(* ===== verification/Repository.thy ===== *)
theory Repository
  imports Models
begin

section \<open>The generic repository (\<open>repositories/base_repository.py\<close>)\<close>

text \<open>
  \<open>BaseRepository\<close> once for every model: the operations are polymorphic in the
  record extension of \<open>org_model\<close>, as the Python class is generic in its model. A
  write returns the new table; \<open>deleted_at IS NULL\<close> filters every query unless
  \<open>include_deleted\<close> is set. \<open>updated_at\<close> has an \<open>onupdate\<close> hook, so each
  UPDATE also stamps it.
\<close>

definition touch :: "timestamp \<Rightarrow> 'a base_model_scheme \<Rightarrow> 'a base_model_scheme" where
  "touch now x = x\<lparr>updated_at := now\<rparr>"

text \<open>Flushing a changed object writes an UPDATE; an unchanged object writes nothing.\<close>

definition orm_flush :: "timestamp \<Rightarrow> 'a base_model_scheme \<Rightarrow> 'a base_model_scheme
    \<Rightarrow> 'a base_model_scheme" where
  "orm_flush now old new = (if new = old then old else touch now new)"

definition base_query :: "bool \<Rightarrow> 'a base_model_scheme \<Rightarrow> bool" where
  "base_query include_deleted x \<longleftrightarrow> include_deleted \<or> active x"

definition get_by_id :: "bool \<Rightarrow> uuid \<Rightarrow> 'a base_model_scheme list
    \<Rightarrow> exn + 'a base_model_scheme option" where
  "get_by_id include_deleted i t =
     scalar_one_or_none (select_where (\<lambda>x. base_query include_deleted x \<and> ident x = i) t)"

definition get_by_id_and_org :: "bool \<Rightarrow> uuid \<Rightarrow> uuid \<Rightarrow> 'a org_model_scheme list
    \<Rightarrow> exn + 'a org_model_scheme option" where
  "get_by_id_and_org include_deleted i org t =
     scalar_one_or_none (select_where
       (\<lambda>x. base_query include_deleted x \<and> ident x = i \<and> organization_id x = org) t)"

text \<open>\<open>list_by_org\<close>: the order defaults to \<open>created_at DESC\<close>, so the sort is an
  argument; the extra filters are predicates.\<close>

definition list_conditions :: "uuid \<Rightarrow> bool \<Rightarrow> ('a org_model_scheme \<Rightarrow> bool) list
    \<Rightarrow> 'a org_model_scheme \<Rightarrow> bool" where
  "list_conditions org include_deleted extra x \<longleftrightarrow>
     organization_id x = org \<and> (include_deleted \<or> active x) \<and> list_all (\<lambda>f. f x) extra"

definition list_by_org :: "uuid \<Rightarrow> int \<Rightarrow> int
    \<Rightarrow> ('a org_model_scheme list \<Rightarrow> 'a org_model_scheme list)
    \<Rightarrow> bool \<Rightarrow> ('a org_model_scheme \<Rightarrow> bool) list \<Rightarrow> 'a org_model_scheme list
    \<Rightarrow> exn + ('a org_model_scheme list \<times> nat)" where
  "list_by_org org page page_size sort_by include_deleted extra t =
     (let rows = select_where (list_conditions org include_deleted extra) t;
          total = length rows
      in case offset_limit page page_size (sort_by rows) of
           Inl e \<Rightarrow> Inl e
         | Inr items \<Rightarrow> Inr (items, total))"

definition entity_conditions :: "uuid \<Rightarrow> uuid option \<Rightarrow> 'a org_model_scheme \<Rightarrow> bool" where
  "entity_conditions i org x \<longleftrightarrow>
     ident x = i \<and> active x \<and> (case org of None \<Rightarrow> True | Some org \<Rightarrow> organization_id x = org)"

definition entity_exists :: "uuid \<Rightarrow> uuid option \<Rightarrow> 'a org_model_scheme list \<Rightarrow> bool" where
  "entity_exists i org t \<longleftrightarrow> row_count (entity_conditions i org) t > 0"

definition repo_create :: "'a \<Rightarrow> 'a list \<Rightarrow> 'a list" where
  "repo_create x t = insert_row x t"

definition repo_create_many :: "'a list \<Rightarrow> 'a list \<Rightarrow> 'a list" where
  "repo_create_many xs t = t @ xs"

definition repo_soft_delete :: "timestamp \<Rightarrow> uuid \<Rightarrow> uuid option \<Rightarrow> 'a org_model_scheme list
    \<Rightarrow> bool \<times> 'a org_model_scheme list" where
  "repo_soft_delete now i org t =
     (row_count (entity_conditions i org) t > 0,
      update_where (entity_conditions i org)
        (\<lambda>x. touch now (x\<lparr>deleted_at := Some now\<rparr>)) t)"

definition hard_delete_expired :: "timestamp \<Rightarrow> 'a base_model_scheme list
    \<Rightarrow> nat \<times> 'a base_model_scheme list" where
  "hard_delete_expired cutoff t =
     (let expired = (\<lambda>x. case deleted_at x of None \<Rightarrow> False | Some d \<Rightarrow> d < cutoff)
      in (row_count expired t, delete_where expired t))"

subsection \<open>Selectors through the hooks\<close>

lemma touch_base [simp]:
  "ident (touch now x) = ident x" "deleted_at (touch now x) = deleted_at x"
  "created_at (touch now x) = created_at x" "updated_at (touch now x) = now"
  by (simp_all add: touch_def)

lemma touch_org [simp]: "organization_id (touch now x) = organization_id x"
  by (cases x) (simp add: touch_def)

lemma orm_flush_base [simp]:
  "ident (orm_flush now old new) = ident new"
  "deleted_at (orm_flush now old new) = deleted_at new"
  by (auto simp: orm_flush_def)

lemma orm_flush_org [simp]: "organization_id (orm_flush now old new) = organization_id new"
  by (auto simp: orm_flush_def)

lemma deleted_update_org [simp]:
  "organization_id (x\<lparr>deleted_at := d\<rparr>) = organization_id x"
  by (cases x) simp

lemma orm_flush_soft_delete: "active x \<Longrightarrow>
   orm_flush now x (soft_delete now x) = touch now (x\<lparr>deleted_at := Some now\<rparr>)"
  by (auto simp: orm_flush_def soft_delete_def dest: arg_cong [of _ _ deleted_at])

subsection \<open>What a lookup returns\<close>

text \<open>Primary keys are unique; this is the invariant of a table.\<close>

definition unique_ids :: "'a base_model_scheme list \<Rightarrow> bool" where
  "unique_ids t \<longleftrightarrow> distinct (map ident t)"

lemma unique_idsD:
  "unique_ids t \<Longrightarrow> x \<in> set t \<Longrightarrow> y \<in> set t \<Longrightarrow> ident x = ident y \<Longrightarrow> x = y"
  by (auto simp: unique_ids_def distinct_map dest: inj_onD)

lemma unique_ids_update_where:
  "(\<And>x. P x \<Longrightarrow> ident (f x) = ident x) \<Longrightarrow> unique_ids (update_where P f t) = unique_ids t"
  by (simp add: unique_ids_def map_update_where)

lemma unique_ids_replace:
  "ident y = i \<Longrightarrow> unique_ids (update_where (\<lambda>x. ident x = i) (\<lambda>_. y) t) = unique_ids t"
  by (rule unique_ids_update_where) simp

lemma unique_ids_insert:
  "unique_ids (insert_row x t) \<longleftrightarrow> unique_ids t \<and> ident x \<notin> ident ` set t"
  by (auto simp: unique_ids_def insert_row_def)

lemma unique_ids_filter: "unique_ids t \<Longrightarrow> unique_ids (filter P t)"
  by (simp add: unique_ids_def distinct_map_filter)

text \<open>The shape shared by every lookup by primary key.\<close>

definition lookup_where :: "('a base_model_scheme \<Rightarrow> bool) \<Rightarrow> uuid \<Rightarrow> 'a base_model_scheme list
    \<Rightarrow> exn + 'a base_model_scheme option" where
  "lookup_where P i t = scalar_one_or_none (select_where (\<lambda>x. ident x = i \<and> P x) t)"

lemma lookup_where_Some:
  "unique_ids t \<Longrightarrow>
   lookup_where P i t = Inr (Some x) \<longleftrightarrow> x \<in> set t \<and> ident x = i \<and> P x"
  using filter_key_unique [of ident t x P]
  by (auto simp: lookup_where_def select_where_def unique_ids_def dest: filter_singletonD)

lemma lookup_where_None:
  "lookup_where P i t = Inr None \<longleftrightarrow> (\<forall>x \<in> set t. ident x = i \<longrightarrow> \<not> P x)"
  by (auto simp: lookup_where_def select_where_def filter_empty_conv)

lemma lookup_where_total:
  "unique_ids t \<Longrightarrow> lookup_where P i t \<noteq> Inl e"
  using filter_unique_le1 [of ident t i P]
  by (auto simp: lookup_where_def select_where_def unique_ids_def)

lemma get_by_id_lookup: "get_by_id b i t = lookup_where (base_query b) i t"
  by (simp add: get_by_id_def lookup_where_def conj_commute)

lemma get_by_id_and_org_lookup:
  "get_by_id_and_org b i org t =
   lookup_where (\<lambda>x. base_query b x \<and> organization_id x = org) i t"
  by (auto simp: get_by_id_and_org_def lookup_where_def select_where_def
      intro!: arg_cong [of _ _ scalar_one_or_none] filter_cong)

lemma entity_exists_iff: "entity_exists i org t \<longleftrightarrow> (\<exists>x \<in> set t. entity_conditions i org x)"
  by (auto simp: entity_exists_def row_count_def filter_empty_conv)

lemma list_by_org_scoped:
  assumes "list_by_org org page page_size sort_by del extra t = Inr (items, n)"
    and "\<And>xs. set (sort_by xs) \<subseteq> set xs" and "x \<in> set items"
  shows "x \<in> set t" and "organization_id x = org" and "del \<or> active x"
proof -
  from assms(1,3) have "x \<in> set (sort_by (filter (list_conditions org del extra) t))"
    by (auto simp: list_by_org_def offset_limit_def Let_def select_where_def
        split: if_splits dest: in_set_takeD in_set_dropD)
  with assms(2) have "x \<in> set (filter (list_conditions org del extra) t)" by blast
  then show "x \<in> set t" "organization_id x = org" "del \<or> active x"
    by (auto simp: list_conditions_def)
qed

lemma repo_soft_delete_frame:
  "repo_soft_delete now i org t = (b, t') \<Longrightarrow> x \<in> set t \<Longrightarrow> ident x \<noteq> i \<Longrightarrow> x \<in> set t'"
  by (auto simp: repo_soft_delete_def set_update_where entity_conditions_def)

lemma repo_soft_delete_unique:
  "repo_soft_delete now i org t = (b, t') \<Longrightarrow> unique_ids t' = unique_ids t"
  by (auto simp: repo_soft_delete_def unique_ids_update_where)

end
