(* ===== verification/AuditTrail.thy ===== *)
theory AuditTrail
  imports Repository
begin

section \<open>Audit log (\<open>services/audit_service.py\<close>, \<open>repositories/audit_log_repository.py\<close>)\<close>

text \<open>
  What a request or a task knows of its surroundings is the record \<open>env\<close>: the clock,
  the client address, the correlation id and whether the audit INSERT succeeds. Writing
  an audit entry is append only and never raises: a failed INSERT is logged and dropped (that
  PostgreSQL then refuses the rest of the transaction is the subject of theory \<open>RowRules\<close>).
\<close>

record env =
  now :: timestamp
  client_ip :: "string option"
  correlation_id :: string
  audit_ok :: bool

definition create_audit_log :: "env \<Rightarrow> audit_action \<Rightarrow> string \<Rightarrow> uuid option \<Rightarrow> uuid option
    \<Rightarrow> uuid option \<Rightarrow> json option \<Rightarrow> string \<Rightarrow> string option \<Rightarrow> db \<Rightarrow> db" where
  "create_audit_log env action rtype rid org user chg st dtl db =
     (if audit_ok env
      then db\<lparr>audit_logs := insert_row
             \<lparr>al_timestamp = now env, al_organization_id = org, al_user_id = user,
              al_action = action, resource_type = rtype, resource_id = rid,
              ip_address = client_ip env, user_agent = None,
              request_id = Some (correlation_id env), changes = chg,
              al_status = st, detail = dtl\<rparr> (audit_logs db)\<rparr>
      else db)"

text \<open>\<open>AuditLogRepository.create\<close>, which the workers use: the same row without
  correlation id unless one is passed.\<close>

definition audit_repo_create :: "env \<Rightarrow> audit_action \<Rightarrow> string \<Rightarrow> uuid option \<Rightarrow> uuid option
    \<Rightarrow> uuid option \<Rightarrow> string option \<Rightarrow> string option \<Rightarrow> string option \<Rightarrow> json option
    \<Rightarrow> string \<Rightarrow> string option \<Rightarrow> db \<Rightarrow> db" where
  "audit_repo_create env action rtype rid org user ip agent req chg st dtl db =
     (if audit_ok env
      then db\<lparr>audit_logs := insert_row
             \<lparr>al_timestamp = now env, al_organization_id = org, al_user_id = user,
              al_action = action, resource_type = rtype, resource_id = rid,
              ip_address = ip, user_agent = agent, request_id = req, changes = chg,
              al_status = st, detail = dtl\<rparr> (audit_logs db)\<rparr>
      else db)"

definition audit_list_by_org :: "uuid \<Rightarrow> int \<Rightarrow> int \<Rightarrow> audit_action option
    \<Rightarrow> timestamp option \<Rightarrow> timestamp option \<Rightarrow> db \<Rightarrow> exn + (audit_log list \<times> nat)" where
  "audit_list_by_org org page page_size action_filter start_time end_time db =
     (let rows = select_where (\<lambda>l. al_organization_id l = Some org
            \<and> (case action_filter of None \<Rightarrow> True | Some a \<Rightarrow> al_action l = a)
            \<and> (case start_time of None \<Rightarrow> True | Some s \<Rightarrow> al_timestamp l \<ge> s)
            \<and> (case end_time of None \<Rightarrow> True | Some e \<Rightarrow> al_timestamp l \<le> e)) (audit_logs db)
      in case offset_limit page page_size (order_by_desc al_timestamp rows) of
           Inl e \<Rightarrow> Inl e
         | Inr items \<Rightarrow> Inr (items, length rows))"

definition audit_list_by_resource :: "string \<Rightarrow> uuid \<Rightarrow> db \<Rightarrow> audit_log list" where
  "audit_list_by_resource rtype rid db =
     order_by_asc al_timestamp
       (select_where (\<lambda>l. resource_type l = rtype \<and> resource_id l = Some rid) (audit_logs db))"

text \<open>An audit entry changes no other table; the lemmas below let the simplifier look
  through it.\<close>

named_theorems audit_simps \<open>tables seen through an audit write\<close>

lemma audit_frame [audit_simps, simp]:
  "organizations (create_audit_log env a t i o' u c s d db) = organizations db"
  "users (create_audit_log env a t i o' u c s d db) = users db"
  "api_keys (create_audit_log env a t i o' u c s d db) = api_keys db"
  "submissions (create_audit_log env a t i o' u c s d db) = submissions db"
  "configs (create_audit_log env a t i o' u c s d db) = configs db"
  "runs (create_audit_log env a t i o' u c s d db) = runs db"
  "worker_results (create_audit_log env a t i o' u c s d db) = worker_results db"
  "claims (create_audit_log env a t i o' u c s d db) = claims db"
  "contradictions (create_audit_log env a t i o' u c s d db) = contradictions db"
  "scores (create_audit_log env a t i o' u c s d db) = scores db"
  "datasets (create_audit_log env a t i o' u c s d db) = datasets db"
  "metrics (create_audit_log env a t i o' u c s d db) = metrics db"
  by (simp_all add: create_audit_log_def)

lemma audit_repo_frame [audit_simps, simp]:
  "organizations (audit_repo_create env a t i o' u p g r c s d db) = organizations db"
  "users (audit_repo_create env a t i o' u p g r c s d db) = users db"
  "submissions (audit_repo_create env a t i o' u p g r c s d db) = submissions db"
  "runs (audit_repo_create env a t i o' u p g r c s d db) = runs db"
  "worker_results (audit_repo_create env a t i o' u p g r c s d db) = worker_results db"
  "claims (audit_repo_create env a t i o' u p g r c s d db) = claims db"
  "contradictions (audit_repo_create env a t i o' u p g r c s d db) = contradictions db"
  "scores (audit_repo_create env a t i o' u p g r c s d db) = scores db"
  by (simp_all add: audit_repo_create_def)

lemma audit_append:
  "\<exists>new. audit_logs (create_audit_log env a t i o' u c s d db) = audit_logs db @ new"
  by (simp add: create_audit_log_def insert_row_def)

end
