(* ===== verification/Samples.thy ===== *)
theory Samples
  imports AuditTrail
begin

section \<open>Sample rows for the witnesses\<close>

text \<open>
  A small database with one organization, one user, one submission and one run, at which
  the witnesses of the properties are evaluated. Nothing here models code.
\<close>

definition sample_env :: env where
  "sample_env = \<lparr>now = 1000, client_ip = None, correlation_id = [], audit_ok = True\<rparr>"

definition sample_org :: "int \<Rightarrow> organization" where
  "sample_org limit = \<lparr>ident = 1, created_at = 0, updated_at = 0, deleted_at = None,
     org_name = ''acme'', slug = ''acme'', plan_tier = FREE, rate_limit_per_minute = 100,
     max_concurrent_evaluations = limit, org_settings = empty_obj\<rparr>"

definition sample_user :: "user_role \<Rightarrow> int \<Rightarrow> user" where
  "sample_user role attempts = \<lparr>ident = 2, created_at = 0, updated_at = 0, deleted_at = None,
     organization_id = 1, email = ''a@b.c'', hashed_password = ''hash'', full_name = ''Ann'',
     user_role = role, is_active = True, last_login_at = None,
     failed_login_attempts = attempts\<rparr>"

definition sample_submission :: "submission_status \<Rightarrow> submission" where
  "sample_submission st = \<lparr>ident = 3, created_at = 0, updated_at = 0, deleted_at = None,
     organization_id = 1, submitted_by_id = Some 2, startup_name = ''acme'',
     sub_description = None, website_url = None, pitch_deck_url = None, sub_status = st,
     sub_metadata = empty_obj, raw_content = empty_obj\<rparr>"

definition sample_run :: "run_status \<Rightarrow> evaluation_run" where
  "sample_run st = \<lparr>ident = 4, created_at = 0, updated_at = 0, deleted_at = None,
     organization_id = 1, version = 1, submission_id = 3, config_id = None,
     triggered_by_id = Some 2, run_status = st, started_at = None, completed_at = None,
     total_workers = 0, completed_workers = 0, failed_workers = 0, overall_score = None,
     run_error_message = None, run_celery_task_id = None, config_snapshot = empty_obj,
     run_metadata = empty_obj\<rparr>"

definition sample_config :: evaluation_config where
  "sample_config = \<lparr>ident = 5, created_at = 0, updated_at = 0, deleted_at = None,
     organization_id = 1, config_version = 1, config_name = ''default'',
     config_description = None, config_created_by_id = Some 2, pipeline_config = empty_obj,
     config_webhook_url = None, is_template = False\<rparr>"

definition sample_db :: "submission_status \<Rightarrow> run_status \<Rightarrow> db" where
  "sample_db sst rst = empty_db\<lparr>organizations := [sample_org 2], users := [sample_user UR_ADMIN 0],
     submissions := [sample_submission sst], configs := [sample_config],
     runs := [sample_run rst]\<rparr>"

lemma sample_db_sel [simp]:
  "organizations (sample_db sst rst) = [sample_org 2]"
  "users (sample_db sst rst) = [sample_user UR_ADMIN 0]"
  "submissions (sample_db sst rst) = [sample_submission sst]"
  "configs (sample_db sst rst) = [sample_config]"
  "runs (sample_db sst rst) = [sample_run rst]"
  "worker_results (sample_db sst rst) = []" "claims (sample_db sst rst) = []"
  "contradictions (sample_db sst rst) = []" "scores (sample_db sst rst) = []"
  "datasets (sample_db sst rst) = []" "audit_logs (sample_db sst rst) = []"
  by (simp_all add: sample_db_def empty_db_def)

lemma sample_unique [simp]:
  "unique_ids [x]" "unique_ids []"
  by (simp_all add: unique_ids_def)

lemmas sample_defs = sample_env_def sample_org_def sample_user_def sample_submission_def
  sample_run_def sample_config_def

end
