(* ===== verification/ScopedResource.thy ===== *)
theory ScopedResource
  imports Samples
begin

section \<open>The contract of an organization-scoped, soft-deleted resource\<close>

text \<open>
  Submissions, evaluation configs, evaluation runs and datasets are all fetched by
  \<open>(id, organization)\<close> among the rows that are not deleted, with \<open>NotFoundError\<close>
  otherwise; submissions and configs are deleted by a soft delete behind that lookup. The
  locales state these two contracts once; the services interpret them on their own
  functions.
\<close>

text \<open>The lookup every service spells out: \<open>select ... where id, organization_id,
  deleted_at IS NULL\<close>, \<open>scalar_one_or_none\<close>, \<open>NotFoundError\<close>.\<close>

definition fetch_scoped :: "string \<Rightarrow> uuid \<Rightarrow> uuid \<Rightarrow> 'a org_model_scheme list
    \<Rightarrow> exn + 'a org_model_scheme" where
  "fetch_scoped res i org t =
     (case lookup_where (\<lambda>x. organization_id x = org \<and> active x) i t of
        Inl e \<Rightarrow> Inl e
      | Inr None \<Rightarrow> Inl (NotFoundError res i)
      | Inr (Some x) \<Rightarrow> Inr x)"

lemma fetch_scoped_Inr:
  "unique_ids t \<Longrightarrow> fetch_scoped res i org t = Inr x \<longleftrightarrow>
     x \<in> set t \<and> ident x = i \<and> organization_id x = org \<and> active x"
  by (auto simp: fetch_scoped_def lookup_where_Some split: sum.splits option.splits)
    (auto simp: lookup_where_None dest: unique_idsD
      lookup_where_total [of t "\<lambda>x. organization_id x = org \<and> active x" i])

lemma fetch_scoped_Inl:
  "unique_ids t \<Longrightarrow> fetch_scoped res i org t = Inl e \<longleftrightarrow>
     e = NotFoundError res i \<and>
     (\<forall>x \<in> set t. ident x = i \<longrightarrow> organization_id x = org \<longrightarrow> \<not> active x)"
  using lookup_where_total [of t "\<lambda>x. organization_id x = org \<and> active x" i]
  by (auto simp: fetch_scoped_def lookup_where_None lookup_where_Some
      split: sum.splits option.splits)

lemma fetch_scoped_update_other:
  assumes "\<And>x. ident x = j \<Longrightarrow> ident (f x) = j" and "i \<noteq> j"
  shows "fetch_scoped res i org (update_where (\<lambda>x. ident x = j) f t) = fetch_scoped res i org t"
proof -
  have "filter (\<lambda>x. ident x = i \<and> organization_id x = org \<and> active x)
          (update_where (\<lambda>x. ident x = j) f t)
      = filter (\<lambda>x. ident x = i \<and> organization_id x = org \<and> active x) t"
    using assms by (intro filter_update_where_disjoint) auto
  then show ?thesis by (simp add: fetch_scoped_def lookup_where_def select_where_def)
qed

lemma fetch_scoped_soft_deleted:
  assumes "\<And>x. ident x = i \<Longrightarrow> ident (f x) = i \<and> \<not> active (f x)"
  shows "fetch_scoped res i org (update_where (\<lambda>x. ident x = i) f t) = Inl (NotFoundError res i)"
proof -
  have "filter (\<lambda>x. ident x = i \<and> organization_id x = org \<and> active x)
          (update_where (\<lambda>x. ident x = i) f t) = []"
    using assms by (auto simp: filter_empty_conv update_where_def)
  then show ?thesis by (simp add: fetch_scoped_def lookup_where_def select_where_def)
qed

subsection \<open>Interfaces\<close>

locale scoped_lookup =
  fixes rows :: "'d \<Rightarrow> 'a org_model_scheme list"
    and res :: string
    and get :: "uuid \<Rightarrow> uuid \<Rightarrow> 'd \<Rightarrow> exn + 'a org_model_scheme"
  assumes get_fetch: "get i org d = fetch_scoped res i org (rows d)"
begin

lemma get_returns:
  "unique_ids (rows d) \<Longrightarrow> get i org d = Inr x \<longleftrightarrow>
     x \<in> set (rows d) \<and> ident x = i \<and> organization_id x = org \<and> active x"
  by (simp add: get_fetch fetch_scoped_Inr)

lemma get_raises:
  "unique_ids (rows d) \<Longrightarrow> get i org d = Inl e \<Longrightarrow> e = NotFoundError res i"
  by (simp add: get_fetch fetch_scoped_Inl)

lemma tenant_isolation:
  assumes "unique_ids (rows d)" "get i org d = Inr x" "org' \<noteq> org"
  shows "get i org' d = Inl (NotFoundError res i)"
proof (cases "get i org' d")
  case (Inl e)
  with assms(1) show ?thesis using get_raises by blast
next
  case (Inr y)
  with assms(1) have y: "y \<in> set (rows d)" "ident y = i" "organization_id y = org'"
    by (simp_all add: get_returns)
  from assms(1,2) have x: "x \<in> set (rows d)" "ident x = i" "organization_id x = org"
    by (simp_all add: get_returns)
  from assms(1) x(1) y(1) x(2) y(2) have "x = y"
    by (metis unique_idsD)
  with x y assms(3) show ?thesis by simp
qed

end

locale scoped_resource = scoped_lookup rows res get
  for rows :: "'d \<Rightarrow> 'a org_model_scheme list"
    and res :: string
    and get :: "uuid \<Rightarrow> uuid \<Rightarrow> 'd \<Rightarrow> exn + 'a org_model_scheme" +
  fixes del :: "env \<Rightarrow> uuid \<Rightarrow> uuid \<Rightarrow> uuid \<Rightarrow> 'd \<Rightarrow> ('d, unit) outcome"
  assumes del_err: "get i org d = Inl e \<Longrightarrow> del env i org user d = (Inl e, d)"
    and del_ok: "get i org d = Inr x \<Longrightarrow> fst (del env i org user d) = Inr ()"
    and del_rows: "get i org d = Inr x \<Longrightarrow>
      rows (snd (del env i org user d)) =
      update_where (\<lambda>y. ident y = i) (\<lambda>y. orm_flush (now env) y (soft_delete (now env) y)) (rows d)"
begin

lemma del_success:
  "fst (del env i org user d) = Inr () \<Longrightarrow> \<exists>x. get i org d = Inr x"
  by (cases "get i org d") (auto simp: del_err)

lemma del_unique:
  assumes "unique_ids (rows d)"
  shows "unique_ids (rows (snd (del env i org user d)))"
  using assms
  by (cases "get i org d") (auto simp: del_err del_rows unique_ids_update_where)

lemma get_after_delete:
  assumes "fst (del env i org user d) = Inr ()"
  shows "get i org' (snd (del env i org user d)) = Inl (NotFoundError res i)"
proof -
  from assms obtain x where "get i org d = Inr x" using del_success by blast
  then show ?thesis
    by (simp add: get_fetch del_rows fetch_scoped_soft_deleted)
qed

lemma get_other_after_delete:
  assumes "j \<noteq> i"
  shows "get j org' (snd (del env i org user d)) = get j org' d"
proof (cases "get i org d")
  case (Inl e)
  then show ?thesis by (simp add: del_err)
next
  case (Inr x)
  with assms show ?thesis
    by (simp add: get_fetch del_rows fetch_scoped_update_other)
qed

lemma delete_twice:
  assumes "fst (del env i org user d) = Inr ()"
  shows "del env' i org' user' (snd (del env i org user d)) =
    (Inl (NotFoundError res i), snd (del env i org user d))"
  using get_after_delete [OF assms] by (rule del_err)

lemma delete_other_org:
  assumes "unique_ids (rows d)" "get i org d = Inr x" "org' \<noteq> org"
  shows "del env i org' user d = (Inl (NotFoundError res i), d)"
  using tenant_isolation [OF assms] by (rule del_err)

end

end
