(* ===== verification/SubmissionService.thy ===== *)
theory SubmissionService
  imports ScopedResource
begin

section \<open>Submission service (\<open>services/submission_service.py\<close>)\<close>

text \<open>
  CRUD for submissions and the trigger of an evaluation run. Ids that the database
  default \<open>uuid7\<close> generates are arguments; Celery's \<open>delay\<close> is a parameter that
  returns the task id or raises.
\<close>

subsection \<open>CRUD\<close>

definition create_submission :: "env \<Rightarrow> uuid \<Rightarrow> uuid \<Rightarrow> uuid \<Rightarrow> string \<Rightarrow> string option
    \<Rightarrow> string option \<Rightarrow> string option \<Rightarrow> json option \<Rightarrow> db \<Rightarrow> (db, submission) outcome" where
  "create_submission env new_id org_id user_id nm desc site deck meta db =
     (let s = \<lparr>ident = new_id, created_at = now env, updated_at = now env,
               deleted_at = None, organization_id = org_id,
               submitted_by_id = Some user_id, startup_name = nm, sub_description = desc,
               website_url = site, pitch_deck_url = deck, sub_status = DRAFT,
               sub_metadata = (case meta of
                    Some m \<Rightarrow> if json_truthy m then m else empty_obj
                  | None \<Rightarrow> empty_obj),
               raw_content = empty_obj\<rparr>;
          db1 = db\<lparr>submissions := insert_row s (submissions db)\<rparr>
      in (Inr s, create_audit_log env A_CREATE ''submission'' (Some new_id) (Some org_id)
                   (Some user_id) None ''success'' None db1))"

definition get_submission :: "uuid \<Rightarrow> uuid \<Rightarrow> db \<Rightarrow> exn + submission" where
  "get_submission sid org_id db =
     (case scalar_one_or_none (select_where
             (\<lambda>s. ident s = sid \<and> organization_id s = org_id \<and> active s) (submissions db)) of
        Inl e \<Rightarrow> Inl e
      | Inr None \<Rightarrow> Inl (NotFoundError ''Submission'' sid)
      | Inr (Some s) \<Rightarrow> Inr s)"

definition list_submissions :: "uuid \<Rightarrow> submission_status option \<Rightarrow> int \<Rightarrow> int \<Rightarrow> db
    \<Rightarrow> exn + (submission list \<times> nat)" where
  "list_submissions org_id status_filter page page_size db =
     (let rows = select_where (\<lambda>s. organization_id s = org_id \<and> active s
            \<and> (case status_filter of None \<Rightarrow> True | Some st \<Rightarrow> sub_status s = st)) (submissions db)
      in case offset_limit page page_size (order_by_desc created_at rows) of
           Inl e \<Rightarrow> Inl e
         | Inr items \<Rightarrow> Inr (items, length rows))"

text \<open>
  The \<open>updates\<close> dictionary has the fields of the schema \<open>SubmissionUpdate\<close>; a
  \<open>None\<close> value is skipped. \<open>metadata\<close> passes the \<open>hasattr\<close> test because every
  declarative class has a class attribute of that name, but the column is the attribute
  \<open>metadata_\<close>: the assignment does not reach the row.
\<close>

datatype submission_update =
    Set_startup_name "string option"
  | Set_description "string option"
  | Set_website_url "string option"
  | Set_pitch_deck_url "string option"
  | Set_status "submission_status option"
  | Set_metadata "json option"

fun set_submission_attr :: "submission_update \<Rightarrow> submission \<Rightarrow> submission" where
  "set_submission_attr (Set_startup_name (Some v)) s = s\<lparr>startup_name := v\<rparr>"
| "set_submission_attr (Set_description (Some v)) s = s\<lparr>sub_description := Some v\<rparr>"
| "set_submission_attr (Set_website_url (Some v)) s = s\<lparr>website_url := Some v\<rparr>"
| "set_submission_attr (Set_pitch_deck_url (Some v)) s = s\<lparr>pitch_deck_url := Some v\<rparr>"
| "set_submission_attr (Set_status (Some v)) s = s\<lparr>sub_status := v\<rparr>"
| "set_submission_attr (Set_metadata (Some v)) s = s"
| "set_submission_attr _ s = s"

definition update_submission :: "env \<Rightarrow> uuid \<Rightarrow> uuid \<Rightarrow> uuid \<Rightarrow> submission_update list \<Rightarrow> db
    \<Rightarrow> (db, submission) outcome" where
  "update_submission env sid org_id user_id updates db =
     (case get_submission sid org_id db of
        Inl e \<Rightarrow> (Inl e, db)
      | Inr s \<Rightarrow>
          let s' = orm_flush (now env) s (fold set_submission_attr updates s);
              db1 = db\<lparr>submissions := update_where (\<lambda>x. ident x = sid) (\<lambda>_. s') (submissions db)\<rparr>
          in (Inr s', create_audit_log env A_UPDATE ''submission'' (Some sid) (Some org_id)
                        (Some user_id) None ''success'' None db1))"

definition delete_submission :: "env \<Rightarrow> uuid \<Rightarrow> uuid \<Rightarrow> uuid \<Rightarrow> db \<Rightarrow> (db, unit) outcome" where
  "delete_submission env sid org_id user_id db =
     (case get_submission sid org_id db of
        Inl e \<Rightarrow> (Inl e, db)
      | Inr s \<Rightarrow>
          let db1 = db\<lparr>submissions := update_where (\<lambda>x. ident x = sid)
                (\<lambda>x. orm_flush (now env) x (soft_delete (now env) x)) (submissions db)\<rparr>
          in (Inr (), create_audit_log env A_DELETE ''submission'' (Some sid) (Some org_id)
                        (Some user_id) None ''success'' None db1))"

subsection \<open>Triggering an evaluation\<close>

definition is_active_run :: "uuid \<Rightarrow> evaluation_run \<Rightarrow> bool" where
  "is_active_run org_id r \<longleftrightarrow>
     organization_id r = org_id \<and> run_status r \<in> {PENDING, RUNNING}"

definition active_count :: "uuid \<Rightarrow> db \<Rightarrow> nat" where
  "active_count org_id db = row_count (is_active_run org_id) (runs db)"

text \<open>The config lookup of \<open>trigger_evaluation\<close>: the snapshot to freeze.\<close>

definition trigger_config :: "uuid option \<Rightarrow> uuid \<Rightarrow> db \<Rightarrow> exn + json" where
  "trigger_config config db_org db =
     (case config of
        None \<Rightarrow> Inr empty_obj
      | Some cid \<Rightarrow>
          (case scalar_one_or_none (select_where
                  (\<lambda>c. ident c = cid \<and> organization_id c = db_org \<and> active c) (configs db)) of
             Inl e \<Rightarrow> Inl e
           | Inr None \<Rightarrow> Inl (NotFoundError ''Evaluation config'' cid)
           | Inr (Some c) \<Rightarrow> Inr (pipeline_config c)))"

definition next_status :: "submission_status \<Rightarrow> submission_status" where
  "next_status st =
     (let st1 = (if st = DRAFT then SUBMITTED else st)
      in if st1 \<in> {SUBMITTED, EVALUATED} then UNDER_REVIEW else st1)"

definition new_run :: "env \<Rightarrow> uuid \<Rightarrow> uuid \<Rightarrow> uuid option \<Rightarrow> uuid \<Rightarrow> uuid \<Rightarrow> json \<Rightarrow> json option
    \<Rightarrow> evaluation_run" where
  "new_run env rid sid config org_id user_id snapshot meta =
     \<lparr>ident = rid, created_at = now env, updated_at = now env, deleted_at = None,
      organization_id = org_id, version = 1, submission_id = sid, config_id = config,
      triggered_by_id = Some user_id, run_status = PENDING, started_at = None,
      completed_at = None, total_workers = 0, completed_workers = 0, failed_workers = 0,
      overall_score = None, run_error_message = None, run_celery_task_id = None,
      config_snapshot = snapshot,
      run_metadata = (case meta of Some m \<Rightarrow> if json_truthy m then m else empty_obj
                                 | None \<Rightarrow> empty_obj)\<rparr>"

definition trigger_evaluation :: "env \<Rightarrow> (uuid \<Rightarrow> exn + string) \<Rightarrow> uuid \<Rightarrow> uuid \<Rightarrow> uuid \<Rightarrow> uuid
    \<Rightarrow> uuid option \<Rightarrow> json option \<Rightarrow> db \<Rightarrow> (db, evaluation_run) outcome" where
  "trigger_evaluation env delay rid sid org_id user_id config meta db =
     (case get_submission sid org_id db of
        Inl e \<Rightarrow> (Inl e, db)
      | Inr sub \<Rightarrow>
        if sub_status sub = ARCHIVED
        then (Inl (ConflictError ''Cannot evaluate an archived submission''), db)
        else case trigger_config config org_id db of
          Inl e \<Rightarrow> (Inl e, db)
        | Inr snapshot \<Rightarrow>
          (case scalar_one (select_where (\<lambda>o'. ident o' = org_id) (organizations db)) of
             Inl e \<Rightarrow> (Inl e, db)
           | Inr org \<Rightarrow>
             if int (active_count org_id db) \<ge> max_concurrent_evaluations org
             then (Inl (ConflictError ''Maximum concurrent evaluations reached''), db)
             else
               let sub' = orm_flush (now env) sub (sub\<lparr>sub_status := next_status (sub_status sub)\<rparr>);
                   run = new_run env rid sid config org_id user_id snapshot meta;
                   db1 = db\<lparr>submissions := update_where (\<lambda>x. ident x = sid) (\<lambda>_. sub')
                              (submissions db),
                            runs := insert_row run (runs db)\<rparr>
               in case delay rid of
                    Inl e \<Rightarrow> (Inl e, db1)
                  | Inr task_id \<Rightarrow>
                      let run' = touch (now env) (run\<lparr>run_celery_task_id := Some task_id\<rparr>);
                          db2 = db1\<lparr>runs := update_where (\<lambda>r. ident r = rid) (\<lambda>_. run') (runs db1)\<rparr>
                      in (Inr run', create_audit_log env A_EVALUATION_STARTED ''evaluation_run''
                            (Some rid) (Some org_id) (Some user_id) None ''success'' None db2)))"

subsection \<open>The service keeps the contract of a scoped resource\<close>

lemma get_submission_fetch:
  "get_submission i org d = fetch_scoped ''Submission'' i org (submissions d)"
  by (simp add: get_submission_def fetch_scoped_def lookup_where_def)

interpretation sub: scoped_resource submissions "''Submission''" get_submission delete_submission
  by unfold_locales
    (auto simp: get_submission_fetch delete_submission_def Let_def split: sum.splits)

subsection \<open>Updates\<close>

lemma set_submission_attr_base [simp]:
  "ident (set_submission_attr u s) = ident s"
  "organization_id (set_submission_attr u s) = organization_id s"
  "deleted_at (set_submission_attr u s) = deleted_at s"
  "sub_metadata (set_submission_attr u s) = sub_metadata s"
  by (induction u s rule: set_submission_attr.induct) auto

lemma fold_submission_attr_base [simp]:
  "ident (fold set_submission_attr us s) = ident s"
  "organization_id (fold set_submission_attr us s) = organization_id s"
  "deleted_at (fold set_submission_attr us s) = deleted_at s"
  "sub_metadata (fold set_submission_attr us s) = sub_metadata s"
  by (induction us arbitrary: s) auto

lemma touch_submission [simp]:
  "sub_metadata (touch t (s::submission)) = sub_metadata s"
  "sub_status (touch t s) = sub_status s"
  by (simp_all add: touch_def)

lemma orm_flush_submission [simp]:
  "sub_metadata (orm_flush t s (s'::submission)) = sub_metadata s'"
  "sub_status (orm_flush t s s') = sub_status s'"
  by (auto simp: orm_flush_def)

subsection \<open>The concurrency limit\<close>

lemma next_status_review: "st \<noteq> ARCHIVED \<Longrightarrow> next_status st = UNDER_REVIEW"
  by (cases st) (auto simp: next_status_def)

lemma new_run_sel [simp]:
  "ident (new_run env rid sid c org u sn m) = rid"
  "organization_id (new_run env rid sid c org u sn m) = org"
  "run_status (new_run env rid sid c org u sn m) = PENDING"
  by (simp_all add: new_run_def)

lemma touch_run [simp]:
  "run_status (touch t (r::evaluation_run)) = run_status r" "version (touch t r) = version r"
  "config_snapshot (touch t r) = config_snapshot r" "submission_id (touch t r) = submission_id r"
  "run_celery_task_id (touch t r) = run_celery_task_id r"
  by (simp_all add: touch_def)

text \<open>What a successful trigger went through, in one elimination rule.\<close>

lemma trigger_evaluationE:
  assumes "trigger_evaluation env delay rid sid org_id user_id config meta db = (Inr run, db')"
  obtains sub snapshot org task_id where
    "get_submission sid org_id db = Inr sub" "sub_status sub \<noteq> ARCHIVED"
    "trigger_config config org_id db = Inr snapshot"
    "filter (\<lambda>o'. ident o' = org_id) (organizations db) = [org]"
    "int (active_count org_id db) < max_concurrent_evaluations org"
    "delay rid = Inr task_id"
    "run = touch (now env) ((new_run env rid sid config org_id user_id snapshot meta)
             \<lparr>run_celery_task_id := Some task_id\<rparr>)"
    "runs db' = update_where (\<lambda>r. ident r = rid) (\<lambda>_. run)
       (insert_row (new_run env rid sid config org_id user_id snapshot meta) (runs db))"
    "submissions db' = update_where (\<lambda>x. ident x = sid)
       (\<lambda>_. orm_flush (now env) sub (sub\<lparr>sub_status := next_status (sub_status sub)\<rparr>))
       (submissions db)"
    "organizations db' = organizations db"
  using assms
  by (auto simp: trigger_evaluation_def Let_def select_where_def
      split: sum.splits if_splits)

lemma update_where_fresh:
  "i \<notin> ident ` set t \<Longrightarrow> update_where (\<lambda>r. ident r = i) f (insert_row x t) =
   (if ident x = i then t @ [f x] else t @ [x])"
  by (auto simp: update_where_def insert_row_def intro!: map_idI)

lemma trigger_active_count:
  assumes "trigger_evaluation env delay rid sid org_id user_id config meta db = (Inr run, db')"
    and "rid \<notin> ident ` set (runs db)"
  shows "active_count org_id db' = Suc (active_count org_id db)"
    and "org' \<noteq> org_id \<Longrightarrow> active_count org' db' = active_count org' db"
  using assms
  by (auto elim!: trigger_evaluationE
      simp: active_count_def row_count_def is_active_run_def update_where_fresh)

lemma trigger_marks_under_review:
  assumes "trigger_evaluation env delay rid sid org_id user_id config meta db = (Inr run, db')"
    and "unique_ids (submissions db)"
  shows "\<exists>s. get_submission sid org_id db' = Inr s \<and> sub_status s = UNDER_REVIEW"
  using assms(1)
proof (rule trigger_evaluationE)
  fix sub :: submission and snapshot and org :: organization and task_id
  let ?s = "orm_flush (now env) sub (sub\<lparr>sub_status := next_status (sub_status sub)\<rparr>)"
  assume g: "get_submission sid org_id db = Inr sub" and na: "sub_status sub \<noteq> ARCHIVED"
    and subs: "submissions db' = update_where (\<lambda>x. ident x = sid) (\<lambda>_. ?s) (submissions db)"
  from g assms(2) have s: "sub \<in> set (submissions db)" "ident sub = sid"
      "organization_id sub = org_id" "active sub"
    by (simp_all add: sub.get_returns)
  have "unique_ids (submissions db')"
    using assms(2) s by (simp add: subs unique_ids_replace)
  moreover have "?s \<in> set (submissions db')"
    using s by (auto simp: subs set_update_where)
  ultimately have "get_submission sid org_id db' = Inr ?s"
    using s by (simp add: sub.get_returns)
  with na show ?thesis by (auto simp: next_status_review)
qed

subsection \<open>Properties\<close>

text \<open>Deleting a submission makes it invisible to every later lookup, in every
  organization; lookups of other submissions are unaffected, and a second delete reports
  \<open>NotFoundError\<close> and changes nothing.
\<close>

theorem deleted_submission_is_gone:
  assumes "fst (delete_submission env i org user db) = Inr ()"
  shows "get_submission i org' (snd (delete_submission env i org user db)) =
      Inl (NotFoundError ''Submission'' i)
    \<and> (j \<noteq> i \<longrightarrow> get_submission j org' (snd (delete_submission env i org user db)) =
         get_submission j org' db)
    \<and> delete_submission env' i org user' (snd (delete_submission env i org user db)) =
        (Inl (NotFoundError ''Submission'' i), snd (delete_submission env i org user db))"
  using sub.get_after_delete [OF assms] sub.get_other_after_delete sub.delete_twice [OF assms]
  by blast

theorem deleted_submission_is_gone_witness:
  "get_submission 3 7 (snd (delete_submission sample_env 3 1 2 (sample_db DRAFT PENDING))) =
     Inl (NotFoundError ''Submission'' 3)"
proof -
  have "fst (delete_submission sample_env 3 1 2 (sample_db DRAFT PENDING)) = Inr ()"
    by (simp add: delete_submission_def get_submission_def select_where_def
        sample_submission_def Let_def)
  from deleted_submission_is_gone [OF this, of 7 0 sample_env 2] show ?thesis by blast
qed

text \<open>A submission is visible, and can be deleted, only through its own organization:
  through any other the lookup raises \<open>NotFoundError\<close> and the delete leaves the
  database as it was.
\<close>

theorem submission_tenant_isolation:
  assumes "unique_ids (submissions db)" "get_submission i org db = Inr s" "org' \<noteq> org"
  shows "get_submission i org' db = Inl (NotFoundError ''Submission'' i)
    \<and> delete_submission env i org' user db = (Inl (NotFoundError ''Submission'' i), db)"
  using sub.tenant_isolation [OF assms] sub.delete_other_org [OF assms] by blast

theorem submission_tenant_isolation_witness:
  "delete_submission sample_env 3 9 2 (sample_db DRAFT PENDING) =
     (Inl (NotFoundError ''Submission'' 3), sample_db DRAFT PENDING)"
proof -
  have "get_submission 3 1 (sample_db DRAFT PENDING) = Inr (sample_submission DRAFT)"
    by (simp add: get_submission_def select_where_def sample_submission_def)
  from submission_tenant_isolation [OF _ this, of 9 sample_env 2] show ?thesis by simp
qed

text \<open>C4: a successful trigger starts from fewer runs in PENDING or RUNNING than the
  organization's limit and adds exactly one, so the limit is never exceeded; the other
  organizations' counts stay. The new run is PENDING with version 1, and the submission is
  left UNDER_REVIEW.
\<close>

theorem trigger_respects_concurrency_limit:
  assumes "trigger_evaluation env delay rid sid org_id user_id config meta db = (Inr run, db')"
    and "rid \<notin> ident ` set (runs db)" and "unique_ids (submissions db)"
  shows "(\<exists>org \<in> set (organizations db). ident org = org_id
        \<and> int (active_count org_id db') \<le> max_concurrent_evaluations org)
    \<and> active_count org_id db' = Suc (active_count org_id db)
    \<and> (org' \<noteq> org_id \<longrightarrow> active_count org' db' = active_count org' db)
    \<and> run \<in> set (runs db') \<and> run_status run = PENDING \<and> version run = 1
    \<and> (\<exists>s. get_submission sid org_id db' = Inr s \<and> sub_status s = UNDER_REVIEW)"
proof -
  have "\<exists>org \<in> set (organizations db). ident org = org_id
      \<and> int (active_count org_id db') \<le> max_concurrent_evaluations org"
    using trigger_active_count(1) [OF assms(1,2)] assms(1)
    by (elim trigger_evaluationE) (force dest: filter_singletonD)
  moreover from assms(1,2) have "run \<in> set (runs db') \<and> run_status run = PENDING \<and> version run = 1"
    by (elim trigger_evaluationE) (auto simp: update_where_fresh new_run_def)
  ultimately show ?thesis
    using trigger_active_count [OF assms(1,2)] trigger_marks_under_review [OF assms(1,3)] by blast
qed

theorem trigger_respects_concurrency_limit_witness:
  "int (active_count 1 (snd (trigger_evaluation sample_env (\<lambda>_. Inr ''task'') 10 3 1 2 None None
      (sample_db EVALUATED RUNNING)))) \<le> 2"
proof -
  let ?t = "trigger_evaluation sample_env (\<lambda>_. Inr ''task'') 10 3 1 2 None None
      (sample_db EVALUATED RUNNING)"
  have eq: "?t = (Inr (projr (fst ?t)), snd ?t)"
    by (simp add: trigger_evaluation_def get_submission_def trigger_config_def active_count_def
        row_count_def is_active_run_def select_where_def sample_defs Let_def)
  have fresh: "10 \<notin> ident ` set (runs (sample_db EVALUATED RUNNING))"
    by (simp add: sample_run_def)
  from trigger_respects_concurrency_limit [OF eq fresh, of 1] show ?thesis
    by (auto simp: sample_org_def)
qed

text \<open>
  Every failure of a trigger up to the dispatch (unknown submission or config, archived
  submission, limit reached) leaves the database untouched, and an archived submission is
  always refused.
\<close>

theorem trigger_errors_change_nothing:
  assumes "trigger_evaluation env (\<lambda>r. Inr (delay r)) rid sid org_id user_id config meta db = (Inl e, db')"
  shows "db' = db
    \<and> (\<forall>s. get_submission sid org_id db = Inr s \<and> sub_status s = ARCHIVED
          \<longrightarrow> e = ConflictError ''Cannot evaluate an archived submission'')"
  using assms
  by (auto simp: trigger_evaluation_def Let_def split: sum.splits if_splits)

theorem trigger_errors_change_nothing_witness:
  "trigger_evaluation sample_env (\<lambda>r. Inr ''task'') 10 3 1 2 None None (sample_db ARCHIVED PENDING) =
     (Inl (ConflictError ''Cannot evaluate an archived submission''), sample_db ARCHIVED PENDING)"
proof -
  let ?t = "trigger_evaluation sample_env (\<lambda>r. Inr ((\<lambda>_. ''task'') r)) 10 3 1 2 None None
      (sample_db ARCHIVED PENDING)"
  have s: "get_submission 3 1 (sample_db ARCHIVED PENDING) = Inr (sample_submission ARCHIVED)"
    by (simp add: get_submission_def select_where_def sample_submission_def)
  then obtain e where e: "?t = (Inl e, snd ?t)"
    by (simp add: trigger_evaluation_def sample_submission_def)
  from trigger_errors_change_nothing [OF e] s e show ?thesis
    by (simp add: sample_submission_def)
qed

text \<open>
  An update keeps the identity, the organization and the deletion mark of a submission
  whatever fields it names, and it never changes the stored metadata: a new value for
  \<open>metadata\<close> is lost.
\<close>

theorem update_submission_frame:
  assumes "update_submission env i org user us db = (Inr s', db')"
  shows "\<exists>s. get_submission i org db = Inr s \<and> ident s' = i \<and> organization_id s' = org
    \<and> active s' \<and> sub_metadata s' = sub_metadata s
    \<and> map sub_metadata (submissions db') =
        map (\<lambda>x. if ident x = i then sub_metadata s else sub_metadata x) (submissions db)"
  using assms
  by (auto simp: update_submission_def Let_def get_submission_fetch fetch_scoped_def
      lookup_where_def select_where_def update_where_def
      split: sum.splits option.splits dest!: filter_singletonD)

theorem update_submission_frame_witness:
  "\<exists>s'. fst (update_submission sample_env 3 1 2 [Set_metadata (Some (JBool True))]
       (sample_db DRAFT PENDING)) = Inr s' \<and> sub_metadata s' = empty_obj"
proof -
  let ?u = "update_submission sample_env 3 1 2 [Set_metadata (Some (JBool True))]
      (sample_db DRAFT PENDING)"
  have s: "get_submission 3 1 (sample_db DRAFT PENDING) = Inr (sample_submission DRAFT)"
    by (simp add: get_submission_def select_where_def sample_submission_def)
  then have eq: "?u = (Inr (projr (fst ?u)), snd ?u)"
    by (simp add: update_submission_def Let_def)
  from update_submission_frame [OF eq] s have "sub_metadata (projr (fst ?u)) = empty_obj"
    by (auto simp: sample_submission_def)
  moreover from eq have "fst ?u = Inr (projr (fst ?u))" by (metis fst_conv)
  ultimately show ?thesis by blast
qed

end
