(* ===== verification/Cache.thy ===== *)
theory Cache
  imports Models
begin

section \<open>Caching (\<open>cache.py\<close>, \<open>services/cache_service.py\<close>)\<close>

text \<open>
  Redis is a store of JSON values with an expiry time (in seconds) and a flag that says
  whether it answers; a command on an unreachable server raises, and both cache modules
  turn that into a miss or into nothing written (fail open). Serialisation to JSON text
  and back is the identity on JSON values.
\<close>

record redis =
  reachable :: bool
  entries :: "string \<rightharpoonup> json \<times> rat"

definition redis_get :: "rat \<Rightarrow> string \<Rightarrow> redis \<Rightarrow> exn + json option" where
  "redis_get t k r =
     (if \<not> reachable r then Inl (ExternalError ''redis'')
      else Inr (case entries r k of
                  None \<Rightarrow> None
                | Some (v, ex) \<Rightarrow> if t < ex then Some v else None))"

definition redis_set :: "rat \<Rightarrow> string \<Rightarrow> json \<Rightarrow> int \<Rightarrow> redis \<Rightarrow> (redis, unit) outcome" where
  "redis_set t k v ttl r =
     (if \<not> reachable r \<or> ttl \<le> 0 then (Inl (ExternalError ''redis''), r)
      else (Inr (), r\<lparr>entries := (entries r)(k \<mapsto> (v, t + of_int ttl))\<rparr>))"

definition redis_delete :: "string \<Rightarrow> redis \<Rightarrow> (redis, unit) outcome" where
  "redis_delete k r =
     (if \<not> reachable r then (Inl (ExternalError ''redis''), r)
      else (Inr (), r\<lparr>entries := (entries r)(k := None)\<rparr>))"

subsection \<open>\<open>services/cache_service.py\<close>\<close>

definition PREFIX :: string where
  "PREFIX = ''eval-engine''"

definition cache_key :: "string \<Rightarrow> string \<Rightarrow> string" where
  "cache_key ns k = PREFIX @ '':'' @ ns @ '':'' @ k"

definition cache_get :: "rat \<Rightarrow> string \<Rightarrow> string \<Rightarrow> redis \<Rightarrow> json option" where
  "cache_get t ns k r =
     (case redis_get t (cache_key ns k) r of
        Inl e \<Rightarrow> None
      | Inr None \<Rightarrow> None
      | Inr (Some raw) \<Rightarrow> Some raw)"

text \<open>\<open>ex=ttl or settings.redis_cache_ttl\<close>: both \<open>None\<close> and 0 fall back to the
  default of 300 seconds.\<close>

definition redis_cache_ttl :: int where
  "redis_cache_ttl = 300"

definition cache_set :: "rat \<Rightarrow> string \<Rightarrow> string \<Rightarrow> json \<Rightarrow> int option \<Rightarrow> redis \<Rightarrow> redis" where
  "cache_set t ns k v ttl r =
     snd (redis_set t (cache_key ns k) v
       (case ttl of None \<Rightarrow> redis_cache_ttl | Some n \<Rightarrow> if n = 0 then redis_cache_ttl else n) r)"

definition cache_delete :: "string \<Rightarrow> string \<Rightarrow> redis \<Rightarrow> redis" where
  "cache_delete ns k r = snd (redis_delete (cache_key ns k) r)"

text \<open>\<open>SCAN\<close> with a glob pattern; the glob matcher is Redis's own, a parameter. The
  count is of the keys deleted.\<close>

definition cache_invalidate_pattern :: "(string \<Rightarrow> string \<Rightarrow> bool) \<Rightarrow> string list \<Rightarrow> string
    \<Rightarrow> string \<Rightarrow> redis \<Rightarrow> nat \<times> redis" where
  "cache_invalidate_pattern glob keys ns pat r =
     (if \<not> reachable r then (0, r)
      else let hits = filter (\<lambda>k. entries r k \<noteq> None \<and> glob (cache_key ns pat) k) (remdups keys)
           in (length hits, fold (\<lambda>k r'. snd (redis_delete k r')) hits r))"

subsection \<open>\<open>cache.py\<close>: the cache manager\<close>

record cache_manager = redis +
  has_redis :: bool
  is_connected :: bool

definition new_manager :: "redis \<Rightarrow> cache_manager" where
  "new_manager r = redis.extend r \<lparr>has_redis = False, is_connected = False\<rparr>"

text \<open>\<open>connect\<close>: the client object is kept even when the first ping fails, and a
  manager that has one does not try again.\<close>

definition connect :: "cache_manager \<Rightarrow> cache_manager" where
  "connect m =
     (if has_redis m then m
      else if reachable m then m\<lparr>has_redis := True, is_connected := True\<rparr>
      else m\<lparr>has_redis := True, is_connected := False\<rparr>)"

definition disconnect :: "cache_manager \<Rightarrow> cache_manager" where
  "disconnect m = (if has_redis m then m\<lparr>is_connected := False\<rparr> else m)"

definition is_healthy :: "cache_manager \<Rightarrow> bool" where
  "is_healthy m = is_connected m"

definition mgr_get :: "rat \<Rightarrow> string \<Rightarrow> cache_manager \<Rightarrow> json option" where
  "mgr_get t k m =
     (if \<not> is_connected m \<or> \<not> has_redis m then None
      else case redis_get t k (redis.truncate m) of
             Inl e \<Rightarrow> None
           | Inr None \<Rightarrow> None
           | Inr (Some v) \<Rightarrow> Some v)"

definition payload :: "rat \<Rightarrow> int \<Rightarrow> json \<Rightarrow> json" where
  "payload t ttl v = JObj [(''val'', v), (''ts'', JNum t), (''ttl'', JNum (of_int ttl))]"

definition mgr_set :: "rat \<Rightarrow> string \<Rightarrow> json \<Rightarrow> int \<Rightarrow> cache_manager \<Rightarrow> cache_manager" where
  "mgr_set t k v ttl m =
     (if \<not> is_connected m \<or> \<not> has_redis m then m
      else if \<not> reachable m \<or> ttl \<le> 0 then m
      else m\<lparr>entries := (entries m)(k \<mapsto> (payload t ttl v, t + of_int ttl))\<rparr>)"

definition delete_pattern :: "(string \<Rightarrow> string \<Rightarrow> bool) \<Rightarrow> string \<Rightarrow> cache_manager
    \<Rightarrow> cache_manager" where
  "delete_pattern glob pat m =
     (if \<not> is_connected m \<or> \<not> has_redis m then m
      else if \<not> reachable m then m
      else m\<lparr>entries := (\<lambda>k. if glob pat k then None else entries m k)\<rparr>)"

text \<open>
  \<open>_should_recompute\<close>. The logarithm of a random number is a parameter:
  \<open>math.log\<close> raises at 0, which \<open>random()\<close> may return.
\<close>

definition should_recompute :: "rat \<Rightarrow> (exn + rat) \<Rightarrow> rat \<Rightarrow> rat \<Rightarrow> rat \<Rightarrow> exn + bool" where
  "should_recompute t ln_random ts ttl beta =
     (case ln_random of
        Inl e \<Rightarrow> Inl e
      | Inr l \<Rightarrow> let expiry = ts + ttl in Inr (t - expiry \<ge> - (beta * ttl * l)))"

fun json_num :: "json \<Rightarrow> exn + rat" where
  "json_num (JNum q) = Inr q"
| "json_num _ = Inl (TypeError ''number'')"

text \<open>
  The wrapper that \<open>@cached\<close> builds. The wrapped coroutine acts on its own state
  \<open>'s\<close>; the result says what the caller gets, the coroutine's state and the cache.
\<close>

definition cached_entry_fresh :: "rat \<Rightarrow> (exn + rat) \<Rightarrow> int \<Rightarrow> rat \<Rightarrow> json \<Rightarrow> exn + bool" where
  "cached_entry_fresh t ln_random ttl beta data =
     (case json_num (case json_get data ''ts'' of None \<Rightarrow> JNum 0 | Some j \<Rightarrow> j) of
        Inl e \<Rightarrow> Inl e
      | Inr ts \<Rightarrow>
        (case json_num (case json_get data ''ttl'' of None \<Rightarrow> JNum (of_int ttl) | Some j \<Rightarrow> j) of
           Inl e \<Rightarrow> Inl e
         | Inr stored_ttl \<Rightarrow>
           (case should_recompute t ln_random ts stored_ttl beta of
              Inl e \<Rightarrow> Inl e
            | Inr b \<Rightarrow> Inr (\<not> b))))"

definition cached_call :: "rat \<Rightarrow> (exn + rat) \<Rightarrow> int \<Rightarrow> rat \<Rightarrow> string
    \<Rightarrow> ('s \<Rightarrow> ('s, json) outcome) \<Rightarrow> 's \<times> cache_manager \<Rightarrow> ('s \<times> cache_manager, json) outcome" where
  "cached_call t ln_random ttl beta key func sm =
     (let (s, m) = sm;
          compute = (case func s of
                       (Inl e, s') \<Rightarrow> (Inl e, (s', m))
                     | (Inr v, s') \<Rightarrow> (Inr v, (s', mgr_set t key v ttl m)))
      in if is_healthy m
         then case mgr_get t key m of
                None \<Rightarrow> compute
              | Some data \<Rightarrow>
                  (case cached_entry_fresh t ln_random ttl beta data of
                     Inl e \<Rightarrow> (Inl e, (s, m))
                   | Inr True \<Rightarrow> (case json_get data ''val'' of
                                    None \<Rightarrow> (Inl (KeyError ''val''), (s, m))
                                  | Some v \<Rightarrow> (Inr v, (s, m)))
                   | Inr False \<Rightarrow> compute)
         else compute)"

text \<open>\<open>init_cache_warming\<close> writes one key.\<close>

definition init_cache_warming :: "rat \<Rightarrow> cache_manager \<Rightarrow> cache_manager" where
  "init_cache_warming t m =
     mgr_set t ''configs:system_taxonomy''
       (JObj [(''v'', JStr ''1.0''), (''labels'', JArr [])]) 86400 m"

subsection \<open>The contract of a fail-open cache\<close>

text \<open>\<open>usable\<close> says that the cache answers, \<open>wrap\<close> what is stored for a value.\<close>

locale fail_open_cache =
  fixes usable :: "'c \<Rightarrow> bool"
    and lookup :: "rat \<Rightarrow> string \<Rightarrow> 'c \<Rightarrow> json option"
    and store :: "rat \<Rightarrow> string \<Rightarrow> json \<Rightarrow> int \<Rightarrow> 'c \<Rightarrow> 'c"
    and wrap :: "rat \<Rightarrow> int \<Rightarrow> json \<Rightarrow> json"
  assumes store_usable: "usable (store t k v ttl c) = usable c"
    and lookup_store: "usable c \<Longrightarrow> 0 < ttl \<Longrightarrow> lookup t' k' (store t k v ttl c) =
      (if k' = k then if t' < t + of_int ttl then Some (wrap t ttl v) else None
       else lookup t' k' c)"
    and lookup_unusable: "\<not> usable c \<Longrightarrow> lookup t k c = None"
    and store_unusable: "\<not> usable c \<Longrightarrow> store t k v ttl c = c"
begin

lemma hit_within_ttl:
  "usable c \<Longrightarrow> 0 < ttl \<Longrightarrow> t' < t + of_int ttl \<Longrightarrow>
   lookup t' k (store t k v ttl c) = Some (wrap t ttl v)"
  by (simp add: lookup_store)

lemma miss_after_ttl:
  "0 < ttl \<Longrightarrow> t + of_int ttl \<le> t' \<Longrightarrow> lookup t' k (store t k v ttl c) = None"
  by (cases "usable c") (auto simp: lookup_store store_unusable lookup_unusable)

lemma last_store_wins:
  "usable c \<Longrightarrow> 0 < ttl \<Longrightarrow> 0 < ttl' \<Longrightarrow>
   lookup t'' k (store t' k v' ttl' (store t k v ttl c)) = lookup t'' k (store t' k v' ttl' c)"
  by (simp add: lookup_store store_usable)

end

lemma cache_key_inj: "cache_key ns k = cache_key ns k' \<longleftrightarrow> k = k'"
  by (simp add: cache_key_def)

interpretation svc: fail_open_cache reachable "\<lambda>t. cache_get t ns"
    "\<lambda>t k v ttl. cache_set t ns k v (Some ttl)" "\<lambda>t ttl v. v" for ns
  by unfold_locales
    (auto simp: cache_get_def cache_set_def redis_get_def redis_set_def cache_key_inj
      split: option.splits)

definition mgr_usable :: "cache_manager \<Rightarrow> bool" where
  "mgr_usable m \<longleftrightarrow> is_connected m \<and> has_redis m \<and> reachable m"

interpretation mgr: fail_open_cache mgr_usable mgr_get mgr_set payload
  by unfold_locales
    (auto simp: mgr_usable_def mgr_get_def mgr_set_def redis_get_def redis.truncate_def
      split: option.splits)

subsection \<open>The decorator\<close>

lemma should_recompute_late:
  "0 \<le> ttl \<Longrightarrow> 0 \<le> beta \<Longrightarrow> l \<le> 0 \<Longrightarrow> t < ts + ttl \<Longrightarrow>
   should_recompute t (Inr l) ts ttl beta = Inr False"
proof -
  assume a: "0 \<le> ttl" "0 \<le> beta" "l \<le> 0" "t < ts + ttl"
  then have "beta * ttl * l \<le> 0" by (simp add: mult_nonneg_nonpos)
  with a show ?thesis by (simp add: should_recompute_def Let_def)
qed

lemma payload_get [simp]:
  "json_get (payload t ttl v) ''val'' = Some v"
  "json_get (payload t ttl v) ''ts'' = Some (JNum t)"
  "json_get (payload t ttl v) ''ttl'' = Some (JNum (of_int ttl))"
  by (simp_all add: payload_def)

lemma cached_entry_fresh_payload:
  assumes "0 \<le> ttl" "0 \<le> beta" "l \<le> 0" "t' < t + of_int ttl"
  shows "cached_entry_fresh t' (Inr l) ttl0 beta (payload t ttl v) = Inr True"
  using should_recompute_late [of "of_int ttl" beta l t' t] assms
  by (simp add: cached_entry_fresh_def)

lemma cached_call_down:
  "\<not> is_connected m \<Longrightarrow> cached_call t lr ttl beta key func (s, m) =
     (fst (func s), (snd (func s), m))"
  by (cases "func s")
    (auto simp: cached_call_def is_healthy_def mgr_set_def Let_def split: sum.splits)

subsection \<open>Properties\<close>

text \<open>A cached value is served until it expires and never recomputed early. Whatever the
  random number drawn, a call within the time to live of the last store returns the stored
  value without running the function or touching the cache, so the probabilistic early
  recomputation the module documents never happens.
\<close>

theorem cached_value_never_recomputed_early:
  assumes "mgr_usable m" "0 < ttl" "0 \<le> beta" "l \<le> 0" "t' < t + of_int ttl"
  shows "cached_call t' (Inr l) ttl0 beta key func (s, mgr_set t key v ttl m) =
    (Inr v, (s, mgr_set t key v ttl m))"
proof -
  have g: "mgr_get t' key (mgr_set t key v ttl m) = Some (payload t ttl v)"
    by (rule mgr.hit_within_ttl [OF assms(1,2,5)])
  have h: "is_healthy (mgr_set t key v ttl m)"
    using assms(1) by (simp add: is_healthy_def mgr_usable_def mgr_set_def)
  have f: "cached_entry_fresh t' (Inr l) ttl0 beta (payload t ttl v) = Inr True"
    by (rule cached_entry_fresh_payload) (use assms in simp_all)
  show ?thesis by (simp add: cached_call_def g h f Let_def)
qed

text \<open>
  The cache fails open. Without a connection the decorated function behaves like the
  bare one, result, errors and effects; with an unreachable server the connected manager
  reads nothing and keeps its state, so the function runs and its result is returned.
\<close>

theorem cache_fails_open:
  assumes "\<not> is_connected m \<or> \<not> has_redis m \<or> \<not> reachable m"
  shows "cached_call t lr ttl beta key func (s, m) = (fst (func s), (snd (func s), m))
    \<and> mgr_get t key m = None \<and> mgr_set t key v ttl m = m \<and> delete_pattern glob pat m = m"
proof -
  have g: "mgr_get t key m = None" for t key
    by (rule mgr.lookup_unusable) (use assms in \<open>auto simp: mgr_usable_def\<close>)
  have st: "mgr_set t key v ttl m = m" for t key v ttl
    by (rule mgr.store_unusable) (use assms in \<open>auto simp: mgr_usable_def\<close>)
  have "delete_pattern glob pat m = m" using assms by (auto simp: delete_pattern_def)
  moreover have "cached_call t lr ttl beta key func (s, m) = (fst (func s), (snd (func s), m))"
    by (cases "func s") (auto simp: cached_call_def Let_def g st split: sum.splits)
  ultimately show ?thesis using g st by blast
qed

subsection \<open>Witnesses\<close>

theorem cached_value_never_recomputed_early_witness:
  "fst (cached_call 299 (Inr (- 20)) 300 1 ''k'' (\<lambda>s. (Inl DBAPIError, s))
     ((), mgr_set 0 ''k'' JNull 300 \<lparr>reachable = True, entries = Map.empty, has_redis = True,
        is_connected = True\<rparr>)) = Inr JNull"
  by (subst cached_value_never_recomputed_early) (simp_all add: mgr_usable_def)

theorem cache_fails_open_witness:
  "cached_call 0 (Inl ZeroDivisionError) 300 1 ''k'' (\<lambda>s. (Inr JNull, Suc s))
     (5, \<lparr>reachable = False, entries = Map.empty, has_redis = True, is_connected = True\<rparr>) =
   (Inr JNull, (6, \<lparr>reachable = False, entries = Map.empty, has_redis = True, is_connected = True\<rparr>))"
  using cache_fails_open [of "\<lparr>reachable = False, entries = Map.empty, has_redis = True,
      is_connected = True\<rparr>" 0 "Inl ZeroDivisionError" 300 1 "''k''" "\<lambda>s. (Inr JNull, Suc s)" 5]
  by simp

end
