(* ===== verification/EvaluationService.thy ===== *)
theory EvaluationService
  imports SubmissionService Cache
begin

section \<open>Evaluation service (\<open>services/evaluation_service.py\<close>)\<close>

text \<open>
  CRUD for pipeline configurations and the reads and the cancellation of runs. Config
  writes also drop a cache key, so their state is the database and Redis.
\<close>

type_synonym svc_state = "db \<times> redis"

subsection \<open>Pipeline configurations\<close>

definition create_evaluation_config :: "env \<Rightarrow> uuid \<Rightarrow> uuid \<Rightarrow> uuid \<Rightarrow> string \<Rightarrow> string option
    \<Rightarrow> json option \<Rightarrow> string option \<Rightarrow> bool \<Rightarrow> db \<Rightarrow> (db, evaluation_config) outcome" where
  "create_evaluation_config env new_id org_id user_id nm desc pipe hook tmpl db =
     (let c = \<lparr>ident = new_id, created_at = now env, updated_at = now env,
               deleted_at = None, organization_id = org_id, config_version = 1,
               config_name = nm, config_description = desc,
               config_created_by_id = Some user_id,
               pipeline_config = (case pipe of
                    Some p \<Rightarrow> if json_truthy p then p else empty_obj
                  | None \<Rightarrow> empty_obj),
               config_webhook_url = hook, is_template = tmpl\<rparr>;
          db1 = db\<lparr>configs := insert_row c (configs db)\<rparr>
      in (Inr c, create_audit_log env A_CREATE ''evaluation_config'' (Some new_id)
                   (Some org_id) (Some user_id) None ''success'' None db1))"

definition get_evaluation_config :: "uuid \<Rightarrow> uuid \<Rightarrow> db \<Rightarrow> exn + evaluation_config" where
  "get_evaluation_config cid org_id db =
     (case scalar_one_or_none (select_where
             (\<lambda>c. ident c = cid \<and> organization_id c = org_id \<and> active c) (configs db)) of
        Inl e \<Rightarrow> Inl e
      | Inr None \<Rightarrow> Inl (NotFoundError ''Evaluation config'' cid)
      | Inr (Some c) \<Rightarrow> Inr c)"

definition list_evaluation_configs :: "uuid \<Rightarrow> int \<Rightarrow> int \<Rightarrow> db
    \<Rightarrow> exn + (evaluation_config list \<times> nat)" where
  "list_evaluation_configs org_id page page_size db =
     (let rows = select_where (\<lambda>c. organization_id c = org_id \<and> active c) (configs db)
      in case offset_limit page page_size (order_by_desc created_at rows) of
           Inl e \<Rightarrow> Inl e
         | Inr items \<Rightarrow> Inr (items, length rows))"

datatype config_update =
    Set_name "string option"
  | Set_config_description "string option"
  | Set_pipeline_config "json option"
  | Set_webhook_url "string option"
  | Set_is_template "bool option"

fun set_config_attr :: "config_update \<Rightarrow> evaluation_config \<Rightarrow> evaluation_config" where
  "set_config_attr (Set_name (Some v)) c = c\<lparr>config_name := v\<rparr>"
| "set_config_attr (Set_config_description (Some v)) c = c\<lparr>config_description := Some v\<rparr>"
| "set_config_attr (Set_pipeline_config (Some v)) c = c\<lparr>pipeline_config := v\<rparr>"
| "set_config_attr (Set_webhook_url (Some v)) c = c\<lparr>config_webhook_url := Some v\<rparr>"
| "set_config_attr (Set_is_template (Some v)) c = c\<lparr>is_template := v\<rparr>"
| "set_config_attr _ c = c"

definition config_brief :: "evaluation_config \<Rightarrow> json" where
  "config_brief c = JObj [(''name'', JStr (config_name c)),
                          (''version'', JNum (of_int (config_version c)))]"

definition update_evaluation_config :: "env \<Rightarrow> uuid \<Rightarrow> uuid \<Rightarrow> uuid \<Rightarrow> config_update list
    \<Rightarrow> svc_state \<Rightarrow> (svc_state, evaluation_config) outcome" where
  "update_evaluation_config env cid org_id user_id updates st =
     (case get_evaluation_config cid org_id (fst st) of
        Inl e \<Rightarrow> (Inl e, st)
      | Inr c \<Rightarrow>
          let c1 = fold set_config_attr updates c;
              c2 = touch (now env) (c1\<lparr>config_version := config_version c1 + 1\<rparr>);
              db1 = (fst st)\<lparr>configs := update_where (\<lambda>x. ident x = cid) (\<lambda>_. c2)
                                         (configs (fst st))\<rparr>;
              r1 = cache_delete ''eval_config'' (nat_str cid) (snd st);
              db2 = create_audit_log env A_UPDATE ''evaluation_config'' (Some cid)
                      (Some org_id) (Some user_id)
                      (Some (JObj [(''before'', config_brief c), (''after'', config_brief c2)]))
                      ''success'' None db1
          in (Inr c2, (db2, r1)))"

definition delete_evaluation_config :: "env \<Rightarrow> uuid \<Rightarrow> uuid \<Rightarrow> uuid \<Rightarrow> svc_state
    \<Rightarrow> (svc_state, unit) outcome" where
  "delete_evaluation_config env cid org_id user_id st =
     (case get_evaluation_config cid org_id (fst st) of
        Inl e \<Rightarrow> (Inl e, st)
      | Inr c \<Rightarrow>
          let db1 = (fst st)\<lparr>configs := update_where (\<lambda>x. ident x = cid)
                (\<lambda>x. orm_flush (now env) x (soft_delete (now env) x)) (configs (fst st))\<rparr>;
              r1 = cache_delete ''eval_config'' (nat_str cid) (snd st)
          in (Inr (), (create_audit_log env A_DELETE ''evaluation_config'' (Some cid)
                         (Some org_id) (Some user_id) None ''success'' None db1, r1)))"

subsection \<open>Runs\<close>

definition get_evaluation_run :: "uuid \<Rightarrow> uuid \<Rightarrow> db \<Rightarrow> exn + evaluation_run" where
  "get_evaluation_run rid org_id db =
     (case scalar_one_or_none (select_where
             (\<lambda>r. ident r = rid \<and> organization_id r = org_id \<and> active r) (runs db)) of
        Inl e \<Rightarrow> Inl e
      | Inr None \<Rightarrow> Inl (NotFoundError ''Evaluation run'' rid)
      | Inr (Some r) \<Rightarrow> Inr r)"

definition list_evaluation_runs :: "uuid \<Rightarrow> uuid option \<Rightarrow> uuid option \<Rightarrow> run_status option
    \<Rightarrow> int \<Rightarrow> int \<Rightarrow> db \<Rightarrow> exn + (evaluation_run list \<times> nat)" where
  "list_evaluation_runs org_id sid cid status_filter page page_size db =
     (let rows = select_where (\<lambda>r. organization_id r = org_id \<and> active r
            \<and> (case sid of None \<Rightarrow> True | Some s \<Rightarrow> submission_id r = s)
            \<and> (case cid of None \<Rightarrow> True | Some c \<Rightarrow> config_id r = Some c)
            \<and> (case status_filter of None \<Rightarrow> True | Some st \<Rightarrow> run_status r = st)) (runs db)
      in case offset_limit page page_size (order_by_desc created_at rows) of
           Inl e \<Rightarrow> Inl e
         | Inr items \<Rightarrow> Inr (items, length rows))"

text \<open>
  Cancelling writes the status through the ORM object: the version is neither checked nor
  incremented. \<open>revoke\<close> is Celery's control call, which may raise.
\<close>

definition cancel_evaluation_run :: "env \<Rightarrow> (string \<Rightarrow> exn + unit) \<Rightarrow> uuid \<Rightarrow> uuid \<Rightarrow> uuid \<Rightarrow> db
    \<Rightarrow> (db, evaluation_run) outcome" where
  "cancel_evaluation_run env revoke rid org_id user_id db =
     (case get_evaluation_run rid org_id db of
        Inl e \<Rightarrow> (Inl e, db)
      | Inr r \<Rightarrow>
        if is_terminal r then (Inl (ConflictError ''Cannot cancel run in terminal state''), db)
        else case (case run_celery_task_id r of
                     None \<Rightarrow> Inr () | Some tid \<Rightarrow> if tid = [] then Inr () else revoke tid) of
               Inl e \<Rightarrow> (Inl e, db)
             | Inr _ \<Rightarrow>
                 let r' = touch (now env) (r\<lparr>run_status := CANCELLED,
                                              completed_at := Some (now env)\<rparr>);
                     db1 = db\<lparr>runs := update_where (\<lambda>x. ident x = rid) (\<lambda>_. r') (runs db)\<rparr>
                 in (Inr r', create_audit_log env A_EVALUATION_CANCELLED ''evaluation_run''
                       (Some rid) (Some org_id) (Some user_id) None ''success'' None db1))"

subsection \<open>Interpretations\<close>

lemma get_config_fetch:
  "get_evaluation_config i org d = fetch_scoped ''Evaluation config'' i org (configs d)"
  by (simp add: get_evaluation_config_def fetch_scoped_def lookup_where_def)

lemma get_run_fetch:
  "get_evaluation_run i org d = fetch_scoped ''Evaluation run'' i org (runs d)"
  by (simp add: get_evaluation_run_def fetch_scoped_def lookup_where_def)

interpretation cfg: scoped_resource "\<lambda>st. configs (fst st)" "''Evaluation config''"
    "\<lambda>i org st. get_evaluation_config i org (fst st)" delete_evaluation_config
  by unfold_locales
    (auto simp: get_config_fetch delete_evaluation_config_def Let_def split: sum.splits)

interpretation run: scoped_lookup runs "''Evaluation run''" get_evaluation_run
  by unfold_locales (simp add: get_run_fetch)

lemma set_config_attr_base [simp]:
  "ident (set_config_attr u c) = ident c"
  "organization_id (set_config_attr u c) = organization_id c"
  "deleted_at (set_config_attr u c) = deleted_at c"
  "config_version (set_config_attr u c) = config_version c"
  by (induction u c rule: set_config_attr.induct) auto

lemma fold_config_attr_base [simp]:
  "ident (fold set_config_attr us c) = ident c"
  "organization_id (fold set_config_attr us c) = organization_id c"
  "deleted_at (fold set_config_attr us c) = deleted_at c"
  "config_version (fold set_config_attr us c) = config_version c"
  by (induction us arbitrary: c) auto

lemma cancel_evaluation_runE:
  assumes "cancel_evaluation_run env revoke rid org_id user_id db = (Inr r', db')"
  obtains r where "get_evaluation_run rid org_id db = Inr r" "\<not> is_terminal r"
    "r' = touch (now env) (r\<lparr>run_status := CANCELLED, completed_at := Some (now env)\<rparr>)"
    "runs db' = update_where (\<lambda>x. ident x = rid) (\<lambda>_. r') (runs db)"
  using assms
  by (auto simp: cancel_evaluation_run_def Let_def split: sum.splits if_splits)

lemma cancel_evaluation_run_err:
  "fst (cancel_evaluation_run env revoke rid org_id user_id db) = Inl e \<Longrightarrow>
   snd (cancel_evaluation_run env revoke rid org_id user_id db) = db"
  by (auto simp: cancel_evaluation_run_def Let_def split: sum.splits if_splits)

end
