(* ===== verification/DatasetService.thy ===== *)
theory DatasetService
  imports ScopedResource
begin

section \<open>Datasets (\<open>services/dataset_service.py\<close>, \<open>services/storage_service.py\<close>, \<open>api/v1/datasets.py\<close>)\<close>

text \<open>
  A dataset is created with a presigned upload URL, confirmed after the upload and soft
  deleted. The object store is a parameter: \<open>presign\<close> gives a URL for a key,
  \<open>download\<close> the bytes under a key, each or an exception; \<open>sha256\<close> is the hash
  function. The endpoints build a response schema from the row inside the session.
\<close>

subsection \<open>Storage keys and integrity\<close>

definition generate_dataset_key :: "uuid \<Rightarrow> uuid \<Rightarrow> string" where
  "generate_dataset_key org did = ''datasets/'' @ nat_str org @ ''/'' @ nat_str did @ ''/data.json''"

definition generate_export_key :: "uuid \<Rightarrow> uuid \<Rightarrow> string \<Rightarrow> string" where
  "generate_export_key org rid fmt = ''exports/'' @ nat_str org @ ''/'' @ nat_str rid @ ''/results.'' @ fmt"

definition get_dataset_upload_url :: "(string \<Rightarrow> exn + string) \<Rightarrow> uuid \<Rightarrow> uuid \<Rightarrow> exn + (string \<times> string)" where
  "get_dataset_upload_url presign org did =
     (let key = generate_dataset_key org did
      in case presign key of Inl e \<Rightarrow> Inl e | Inr url \<Rightarrow> Inr (url, key))"

definition verify_dataset_integrity :: "(string \<Rightarrow> exn + string) \<Rightarrow> (string \<Rightarrow> string) \<Rightarrow> string
    \<Rightarrow> string \<Rightarrow> bool" where
  "verify_dataset_integrity download sha256 path expected =
     (case download path of Inl _ \<Rightarrow> False | Inr data \<Rightarrow> sha256 data = expected)"

definition export_content_type :: "string \<Rightarrow> string" where
  "export_content_type fmt =
     (case map_of [(''json'', ''application/json''), (''csv'', ''text/csv''),
                   (''parquet'', ''application/octet-stream'')] fmt of
        Some c \<Rightarrow> c | None \<Rightarrow> ''application/octet-stream'')"

text \<open>\<open>upload_export_data\<close>, with the store as a map from keys to content type and bytes.\<close>

definition upload_export_data :: "(string \<Rightarrow> string) \<Rightarrow> uuid \<Rightarrow> uuid \<Rightarrow> string \<Rightarrow> string
    \<Rightarrow> (string \<rightharpoonup> string \<times> string) \<Rightarrow> string \<times> (string \<rightharpoonup> string \<times> string)" where
  "upload_export_data sha256 org rid data fmt store =
     (sha256 data, store(generate_export_key org rid fmt \<mapsto> (export_content_type fmt, data)))"

definition delete_dataset_files :: "uuid \<Rightarrow> uuid \<Rightarrow> (string \<rightharpoonup> string \<times> string)
    \<Rightarrow> (string \<rightharpoonup> string \<times> string)" where
  "delete_dataset_files org did store =
     (let key = generate_dataset_key org did
      in if store key \<noteq> None then store(key := None) else store)"

subsection \<open>The service\<close>

definition new_dataset :: "env \<Rightarrow> uuid \<Rightarrow> uuid \<Rightarrow> uuid \<Rightarrow> string \<Rightarrow> string option \<Rightarrow> string \<Rightarrow> int
    \<Rightarrow> json option \<Rightarrow> dataset" where
  "new_dataset env did org_id user_id nm desc path size_b meta =
     \<lparr>ident = did, created_at = now env, updated_at = now env, deleted_at = None,
      organization_id = org_id, ds_name = nm, ds_description = desc,
      ds_created_by_id = Some user_id, storage_path = path, sample_count = 0,
      schema_version = ''1.0'', checksum = ''pending'', size_bytes = size_b,
      ds_status = DS_UPLOADING,
      ds_metadata = (case meta of Some m \<Rightarrow> if json_truthy m then m else empty_obj
                                | None \<Rightarrow> empty_obj)\<rparr>"

definition initiate_dataset_upload :: "(string \<Rightarrow> exn + string) \<Rightarrow> env \<Rightarrow> uuid \<Rightarrow> uuid \<Rightarrow> uuid
    \<Rightarrow> string \<Rightarrow> string option \<Rightarrow> int \<Rightarrow> json option \<Rightarrow> db \<Rightarrow> (db, dataset \<times> string) outcome" where
  "initiate_dataset_upload presign env did org_id user_id nm desc size_b meta db =
     (case get_dataset_upload_url presign org_id did of
        Inl e \<Rightarrow> (Inl e, db)
      | Inr (url, path) \<Rightarrow>
          let d = new_dataset env did org_id user_id nm desc path size_b meta;
              db1 = db\<lparr>datasets := insert_row d (datasets db)\<rparr>
          in (Inr (d, url), create_audit_log env A_CREATE ''dataset'' (Some did) (Some org_id)
                              (Some user_id) None ''success'' None db1))"

definition get_dataset :: "uuid \<Rightarrow> uuid \<Rightarrow> db \<Rightarrow> exn + dataset" where
  "get_dataset did org_id db =
     (case scalar_one_or_none (select_where
             (\<lambda>d. ident d = did \<and> organization_id d = org_id \<and> active d) (datasets db)) of
        Inl e \<Rightarrow> Inl e
      | Inr None \<Rightarrow> Inl (NotFoundError ''Dataset'' did)
      | Inr (Some d) \<Rightarrow> Inr d)"

text \<open>A flush of the object of row \<open>d\<close>, changed to \<open>d'\<close>.\<close>

definition flush_dataset :: "env \<Rightarrow> dataset \<Rightarrow> dataset \<Rightarrow> db \<Rightarrow> db" where
  "flush_dataset env d d' db =
     db\<lparr>datasets := update_where (\<lambda>x. ident x = ident d) (\<lambda>_. orm_flush (now env) d d') (datasets db)\<rparr>"

definition confirm_dataset_upload :: "(string \<Rightarrow> exn + string) \<Rightarrow> (string \<Rightarrow> string) \<Rightarrow> env \<Rightarrow> uuid
    \<Rightarrow> uuid \<Rightarrow> string \<Rightarrow> int \<Rightarrow> db \<Rightarrow> (db, dataset) outcome" where
  "confirm_dataset_upload download sha256 env did org_id chk samples db =
     (case scalar_one_or_none (select_where
             (\<lambda>d. ident d = did \<and> organization_id d = org_id \<and> active d) (datasets db)) of
        Inl e \<Rightarrow> (Inl e, db)
      | Inr None \<Rightarrow> (Inl (NotFoundError ''Dataset'' did), db)
      | Inr (Some d) \<Rightarrow>
        if ds_status d \<noteq> DS_UPLOADING
        then (Inl (ConflictError ''Dataset is not in the uploading state''), db)
        else let d1 = touch (now env) (d\<lparr>ds_status := DS_VALIDATING\<rparr>);
                 db1 = flush_dataset env d d1 db
             in if \<not> verify_dataset_integrity download sha256 (storage_path d1) chk
                then (Inl (ConflictError ''Checksum verification failed''),
                      flush_dataset env d1 (d1\<lparr>ds_status := DS_FAILED\<rparr>) db1)
                else let d2 = touch (now env) (d1\<lparr>checksum := chk, sample_count := samples,
                                                   ds_status := DS_READY\<rparr>);
                         db2 = flush_dataset env d1 d2 db1
                     in case audit_action_attr ''DATASET_UPLOADED'' of
                          Inl e \<Rightarrow> (Inl e, db2)
                        | Inr a \<Rightarrow> (Inr d2, create_audit_log env a ''dataset'' (Some did)
                                     (Some org_id) None None ''success'' None db2))"

definition list_datasets :: "uuid \<Rightarrow> dataset_status option \<Rightarrow> int \<Rightarrow> int \<Rightarrow> db
    \<Rightarrow> exn + (dataset list \<times> nat)" where
  "list_datasets org_id status_filter page page_size db =
     (let rows = select_where (\<lambda>d. organization_id d = org_id \<and> active d
            \<and> (case status_filter of None \<Rightarrow> True | Some st \<Rightarrow> ds_status d = st)) (datasets db)
      in case offset_limit page page_size (order_by_desc created_at rows) of
           Inl e \<Rightarrow> Inl e
         | Inr items \<Rightarrow> Inr (items, length rows))"

definition delete_dataset :: "env \<Rightarrow> uuid \<Rightarrow> uuid \<Rightarrow> uuid \<Rightarrow> db \<Rightarrow> (db, unit) outcome" where
  "delete_dataset env did org_id user_id db =
     (case get_dataset did org_id db of
        Inl e \<Rightarrow> (Inl e, db)
      | Inr d \<Rightarrow>
          let db1 = flush_dataset env d (soft_delete (now env) d) db
          in case audit_action_attr ''DATASET_DELETED'' of
               Inl e \<Rightarrow> (Inl e, db1)
             | Inr a \<Rightarrow> (Inr (), create_audit_log env a ''dataset'' (Some did) (Some org_id)
                          (Some user_id) None ''success'' None db1))"

subsection \<open>The endpoints\<close>

text \<open>
  A response schema reads each field from the row object. A field the class does not have is
  missing; \<open>metadata\<close> is an attribute of every declarative class and holds the table
  registry, not a dictionary. Either makes the validation fail.
\<close>

datatype orm_attr = Column | Table_registry

definition dataset_columns :: "string list" where
  "dataset_columns = [''id'', ''created_at'', ''updated_at'', ''deleted_at'', ''name'',
     ''description'', ''organization_id'', ''created_by_id'', ''storage_path'',
     ''sample_count'', ''schema_version'', ''checksum'', ''size_bytes'', ''status'',
     ''metadata_'']"

definition dataset_attr :: "string \<Rightarrow> orm_attr option" where
  "dataset_attr f =
     (if f \<in> set dataset_columns then Some Column
      else if f = ''metadata'' then Some Table_registry else None)"

definition dataset_create_response_fields :: "string list" where
  "dataset_create_response_fields = [''created_at'', ''updated_at'', ''id'', ''name'', ''status'',
     ''upload_url'', ''upload_expires_in'']"

definition dataset_response_fields :: "string list" where
  "dataset_response_fields = [''created_at'', ''updated_at'', ''id'', ''name'', ''description'',
     ''organization_id'', ''created_by_id'', ''sample_count'', ''schema_version'', ''checksum'',
     ''size_bytes'', ''status'', ''metadata'']"

definition model_validate :: "string \<Rightarrow> string list \<Rightarrow> dataset \<Rightarrow> exn + dataset" where
  "model_validate schema flds d =
     (if list_all (\<lambda>f. dataset_attr f = Some Column) flds then Inr d else Inl (ValueError schema))"

definition create_dataset_endpoint :: "(string \<Rightarrow> exn + string) \<Rightarrow> env \<Rightarrow> uuid \<Rightarrow> uuid \<Rightarrow> uuid
    \<Rightarrow> string \<Rightarrow> string option \<Rightarrow> int \<Rightarrow> json option \<Rightarrow> db \<Rightarrow> (db, dataset \<times> string) outcome" where
  "create_dataset_endpoint presign env did org_id user_id nm desc size_b meta =
     in_session (\<lambda>db.
       case initiate_dataset_upload presign env did org_id user_id nm desc size_b meta db of
         (Inl e, d) \<Rightarrow> (Inl e, d)
       | (Inr (ds, url), d) \<Rightarrow>
           (case model_validate ''DatasetCreateResponse'' dataset_create_response_fields ds of
              Inl e \<Rightarrow> (Inl e, d)
            | Inr r \<Rightarrow> (Inr (r, url), d)))"

definition confirm_upload_endpoint :: "(string \<Rightarrow> exn + string) \<Rightarrow> (string \<Rightarrow> string) \<Rightarrow> env \<Rightarrow> uuid
    \<Rightarrow> uuid \<Rightarrow> string \<Rightarrow> int \<Rightarrow> db \<Rightarrow> (db, dataset) outcome" where
  "confirm_upload_endpoint download sha256 env did org_id chk samples =
     in_session (\<lambda>db.
       case confirm_dataset_upload download sha256 env did org_id chk samples db of
         (Inl e, d) \<Rightarrow> (Inl e, d)
       | (Inr ds, d) \<Rightarrow> (model_validate ''DatasetResponse'' dataset_response_fields ds, d))"

definition get_dataset_endpoint :: "uuid \<Rightarrow> uuid \<Rightarrow> db \<Rightarrow> exn + dataset" where
  "get_dataset_endpoint did org_id db =
     (case get_dataset did org_id db of
        Inl e \<Rightarrow> Inl e
      | Inr ds \<Rightarrow> model_validate ''DatasetResponse'' dataset_response_fields ds)"

fun validate_all :: "dataset list \<Rightarrow> exn + dataset list" where
  "validate_all [] = Inr []"
| "validate_all (d # ds) =
     (case model_validate ''DatasetResponse'' dataset_response_fields d of
        Inl e \<Rightarrow> Inl e
      | Inr r \<Rightarrow> (case validate_all ds of Inl e \<Rightarrow> Inl e | Inr rs \<Rightarrow> Inr (r # rs)))"

definition list_datasets_endpoint :: "uuid \<Rightarrow> dataset_status option \<Rightarrow> int \<Rightarrow> int \<Rightarrow> db
    \<Rightarrow> exn + (dataset list \<times> nat)" where
  "list_datasets_endpoint org_id status_filter page page_size db =
     (case list_datasets org_id status_filter page page_size db of
        Inl e \<Rightarrow> Inl e
      | Inr (items, tot) \<Rightarrow> (case validate_all items of Inl e \<Rightarrow> Inl e | Inr rs \<Rightarrow> Inr (rs, tot)))"

definition delete_dataset_endpoint :: "env \<Rightarrow> uuid \<Rightarrow> uuid \<Rightarrow> uuid \<Rightarrow> db \<Rightarrow> (db, unit) outcome" where
  "delete_dataset_endpoint env did org_id user_id = in_session (delete_dataset env did org_id user_id)"

subsection \<open>Lookups\<close>

lemma get_dataset_fetch: "get_dataset i org d = fetch_scoped ''Dataset'' i org (datasets d)"
  by (simp add: get_dataset_def fetch_scoped_def lookup_where_def)

interpretation ds: scoped_lookup datasets "''Dataset''" get_dataset
  by unfold_locales (rule get_dataset_fetch)

lemma dataset_lookup:
  "scalar_one_or_none (select_where
      (\<lambda>d. ident d = i \<and> organization_id d = org \<and> active d) (datasets db)) = Inr (Some d)
   \<longleftrightarrow> get_dataset i org db = Inr d"
  by (auto simp: get_dataset_def split: sum.splits option.splits)

lemma audit_unknown_dataset [simp]:
  "audit_action_attr ''DATASET_UPLOADED'' = Inl (AttributeError ''DATASET_UPLOADED'')"
  "audit_action_attr ''DATASET_DELETED'' = Inl (AttributeError ''DATASET_DELETED'')"
  by (simp_all add: audit_action_attr_def audit_members_def)

lemma create_response_fails [simp]:
  "model_validate ''DatasetCreateResponse'' dataset_create_response_fields d =
     Inl (ValueError ''DatasetCreateResponse'')"
  by (simp add: model_validate_def dataset_create_response_fields_def dataset_attr_def
      dataset_columns_def)

lemma dataset_response_fails [simp]:
  "model_validate ''DatasetResponse'' dataset_response_fields d = Inl (ValueError ''DatasetResponse'')"
  by (simp add: model_validate_def dataset_response_fields_def dataset_attr_def dataset_columns_def)

lemma dataset_of_orm_flush [simp]:
  "ds_status (orm_flush t d (d'::dataset)) = ds_status d'"
  "checksum (orm_flush t d d') = checksum d'" "sample_count (orm_flush t d d') = sample_count d'"
  "ds_status (touch t d) = ds_status d" "storage_path (touch t d) = storage_path d"
  "checksum (touch t d) = checksum d" "sample_count (touch t d) = sample_count d"
  by (auto simp: orm_flush_def touch_def)

lemma datasets_flush [simp]:
  "datasets (flush_dataset env d d' db) =
     update_where (\<lambda>x. ident x = ident d) (\<lambda>_. orm_flush (now env) d d') (datasets db)"
  by (simp add: flush_dataset_def)

subsection \<open>Storage keys\<close>

lemma split_at_slash:
  assumes "xs @ CHR ''/'' # ys = xs' @ CHR ''/'' # ys'" "CHR ''/'' \<notin> set xs" "CHR ''/'' \<notin> set xs'"
  shows "xs = xs' \<and> ys = ys'"
  using assms
proof (induction xs arbitrary: xs')
  case Nil
  then show ?case by (cases xs') auto
next
  case (Cons x xs)
  then show ?case by (cases xs') auto
qed

lemma no_slash [simp]: "CHR ''/'' \<notin> set (nat_str n)"
  using nat_str_digits by blast

lemma two_id_key:
  assumes "nat_str a @ CHR ''/'' # nat_str b @ CHR ''/'' # r = nat_str a' @ CHR ''/'' # nat_str b' @ CHR ''/'' # r'"
  shows "a = a' \<and> b = b' \<and> r = r'"
  using assms by (auto dest!: split_at_slash nat_str_inj)

subsection \<open>Confirmation, branch by branch\<close>

lemma confirm_not_uploading:
  assumes "get_dataset i org db = Inr d" "ds_status d \<noteq> DS_UPLOADING"
  shows "confirm_dataset_upload download sha256 env i org chk n db =
    (Inl (ConflictError ''Dataset is not in the uploading state''), db)"
  using assms by (simp add: confirm_dataset_upload_def assms(1) [folded dataset_lookup])

lemma flush_twice:
  assumes "ident d = i" "ident d1 = i"
  shows "update_where (\<lambda>x. ident x = i) (\<lambda>_. y) (update_where (\<lambda>x. ident x = i) (\<lambda>_. orm_flush t d d1) z)
    = update_where (\<lambda>x. ident x = i) (\<lambda>_. y) z"
  using assms by (auto simp: update_where_def)

lemma confirm_uploading:
  assumes "get_dataset i org db = Inr d" "ds_status d = DS_UPLOADING" "unique_ids (datasets db)"
  shows "\<exists>d' db'. confirm_dataset_upload download sha256 env i org chk n db =
      (Inl (if verify_dataset_integrity download sha256 (storage_path d) chk
            then AttributeError ''DATASET_UPLOADED'' else ConflictError ''Checksum verification failed''), db')
    \<and> datasets db' = update_where (\<lambda>x. ident x = i) (\<lambda>_. d') (datasets db)
    \<and> (if verify_dataset_integrity download sha256 (storage_path d) chk
       then ds_status d' = DS_READY \<and> checksum d' = chk \<and> sample_count d' = n
       else ds_status d' = DS_FAILED \<and> checksum d' = checksum d)"
proof -
  from assms(1,3) have [simp]: "ident d = i" by (simp add: ds.get_returns)
  show ?thesis
    using assms(2)
    by (auto simp: confirm_dataset_upload_def assms(1) [folded dataset_lookup] Let_def flush_twice)
qed

lemma dataset_session_confirm:
  "\<exists>e. confirm_upload_endpoint download sha256 env i org chk n db = (Inl e, db)"
  by (auto simp: confirm_upload_endpoint_def in_session_def split: prod.splits sum.splits)

subsection \<open>Properties\<close>

text \<open>No dataset request ever takes effect. Creating a dataset builds a response that needs an
  upload URL the row does not have, confirming and deleting one name members that
  \<open>AuditAction\<close> lacks; every such request ends in an error and is rolled back. Reading
  one fails too, because the response takes the table registry for the metadata.
\<close>

theorem dataset_requests_never_succeed:
  "(\<exists>e. create_dataset_endpoint presign env i org u nm desc sz meta db = (Inl e, db))
   \<and> (\<exists>e. confirm_upload_endpoint download sha256 env i org chk n db = (Inl e, db))
   \<and> (\<exists>e. delete_dataset_endpoint env i org u db = (Inl e, db))
   \<and> (\<exists>e. get_dataset_endpoint i org db = Inl e)"
proof (intro conjI)
  show "\<exists>e. create_dataset_endpoint presign env i org u nm desc sz meta db = (Inl e, db)"
    by (auto simp: create_dataset_endpoint_def in_session_def split: prod.splits sum.splits)
  show "\<exists>e. confirm_upload_endpoint download sha256 env i org chk n db = (Inl e, db)"
    by (rule dataset_session_confirm)
  show "\<exists>e. delete_dataset_endpoint env i org u db = (Inl e, db)"
    by (auto simp: delete_dataset_endpoint_def delete_dataset_def in_session_def Let_def
        split: prod.splits sum.splits)
  show "\<exists>e. get_dataset_endpoint i org db = Inl e"
    by (auto simp: get_dataset_endpoint_def split: sum.splits)
qed

text \<open>
  What confirming an uploading dataset does inside its transaction: a matching checksum makes
  the row READY with checksum and sample count, any other outcome of the download makes it
  FAILED; no other row changes. Both end in an error, so the session drops either status and
  the dataset stays UPLOADING.
\<close>

theorem confirm_outcomes:
  assumes "unique_ids (datasets db)" "get_dataset i org db = Inr d" "ds_status d = DS_UPLOADING"
    and "matches = (\<exists>bytes. download (storage_path d) = Inr bytes \<and> sha256 bytes = chk)"
  shows "(\<exists>d' db'. confirm_dataset_upload download sha256 env i org chk n db =
        (Inl (if matches then AttributeError ''DATASET_UPLOADED''
              else ConflictError ''Checksum verification failed''), db')
      \<and> datasets db' = update_where (\<lambda>x. ident x = i) (\<lambda>_. d') (datasets db)
      \<and> (if matches then ds_status d' = DS_READY \<and> checksum d' = chk \<and> sample_count d' = n
         else ds_status d' = DS_FAILED \<and> checksum d' = checksum d))
    \<and> get_dataset i org (snd (confirm_upload_endpoint download sha256 env i org chk n db)) = Inr d"
proof -
  obtain e where e: "confirm_upload_endpoint download sha256 env i org chk n db = (Inl e, db)"
    using dataset_session_confirm by blast
  have m: "matches = verify_dataset_integrity download sha256 (storage_path d) chk"
    unfolding assms(4) by (simp add: verify_dataset_integrity_def split: sum.splits)
  show ?thesis unfolding m e snd_conv
    by (intro conjI confirm_uploading [OF assms(2,3,1)] assms(2))
qed

definition sample_dataset :: dataset where
  "sample_dataset = new_dataset sample_env 8 1 2 ''set'' None ''datasets/1/8/data.json'' 5 None"

theorem confirm_outcomes_witness:
  "let db = empty_db\<lparr>datasets := [sample_dataset]\<rparr>
   in fst (confirm_dataset_upload (\<lambda>_. Inr ''data'') (\<lambda>b. b) sample_env 8 1 ''other'' 7 db) =
        Inl (ConflictError ''Checksum verification failed'')
    \<and> get_dataset 8 1 (snd (confirm_upload_endpoint (\<lambda>_. Inr ''data'') (\<lambda>b. b) sample_env 8 1
          ''other'' 7 db)) = Inr sample_dataset"
proof -
  let ?db = "empty_db\<lparr>datasets := [sample_dataset]\<rparr>"
  have d: "get_dataset 8 1 ?db = Inr sample_dataset"
    by (simp add: get_dataset_def select_where_def sample_dataset_def new_dataset_def)
  have u: "unique_ids (datasets ?db)" "ds_status sample_dataset = DS_UPLOADING"
    by (simp_all add: sample_dataset_def new_dataset_def)
  from confirm_outcomes [OF u(1) d u(2), of False "\<lambda>_. Inr ''data''" "\<lambda>b. b" "''other''" sample_env 7]
  show ?thesis by (auto simp: Let_def)
qed

text \<open>
  Storage keys never collide: two datasets share a key only if they are the same dataset of
  the same organization, exports likewise, and no export is stored under a dataset's key.
\<close>

theorem storage_keys_isolated:
  "(generate_dataset_key org did = generate_dataset_key org' did' \<longleftrightarrow> org = org' \<and> did = did')
   \<and> (generate_export_key org rid fmt = generate_export_key org' rid' fmt'
       \<longleftrightarrow> org = org' \<and> rid = rid' \<and> fmt = fmt')
   \<and> generate_dataset_key org did \<noteq> generate_export_key org' rid fmt"
  by (auto simp: generate_dataset_key_def generate_export_key_def dest!: two_id_key split_at_slash nat_str_inj)

end
