(* ===== verification/PyNum.thy ===== *)
theory PyNum
  imports Prelude
begin

section \<open>Rounding, counting and averages\<close>

text \<open>
  \<open>round(x, n)\<close> of Python rounds half to even; here it acts on the exact rational.
  \<open>group_count\<close> is \<open>SELECT k, count(*) ... GROUP BY k\<close>, read into a dictionary.
\<close>

definition round_half_even :: "rat \<Rightarrow> int" where
  "round_half_even x =
     (let f = \<lfloor>x\<rfloor>; d = x - of_int f
      in if d < 1/2 then f else if d > 1/2 then f + 1 else if even f then f else f + 1)"

definition py_round :: "nat \<Rightarrow> rat \<Rightarrow> rat" where
  "py_round n x = of_int (round_half_even (x * 10 ^ n)) / 10 ^ n"

definition group_count :: "('a \<Rightarrow> 'k) \<Rightarrow> 'a list \<Rightarrow> ('k \<times> nat) list" where
  "group_count k t = map (\<lambda>x. (x, row_count (\<lambda>y. k y = x) t)) (remdups (map k t))"

definition count_of :: "('k \<times> nat) list \<Rightarrow> 'k \<Rightarrow> nat" where
  "count_of d x = (case map_of d x of None \<Rightarrow> 0 | Some n \<Rightarrow> n)"

definition clamp01 :: "rat \<Rightarrow> rat" where
  "clamp01 x = max 0 (min 1 x)"

text \<open>\<open>int(x)\<close> of a float truncates towards zero.\<close>

definition py_int :: "rat \<Rightarrow> int" where
  "py_int x = (if x < 0 then - \<lfloor>- x\<rfloor> else \<lfloor>x\<rfloor>)"

subsection \<open>Facts\<close>

lemma round_half_even_bounds:
  "\<lfloor>x\<rfloor> \<le> round_half_even x" "round_half_even x \<le> \<lfloor>x\<rfloor> + 1"
  by (simp_all add: round_half_even_def Let_def)

lemma round_half_even_of_int [simp]: "round_half_even (of_int k) = k"
  by (simp add: round_half_even_def)

lemma round_half_even_0 [simp]: "round_half_even 0 = 0"
  using round_half_even_of_int [of 0] by simp

lemma round_half_even_mono: "x \<le> y \<Longrightarrow> round_half_even x \<le> round_half_even y"
proof -
  assume le: "x \<le> y"
  show ?thesis
  proof (cases "\<lfloor>x\<rfloor> = \<lfloor>y\<rfloor>")
    case True
    with le show ?thesis by (auto simp: round_half_even_def Let_def)
  next
    case False
    with le have "\<lfloor>x\<rfloor> + 1 \<le> \<lfloor>y\<rfloor>" by (meson floor_mono order_le_less zless_imp_add1_zle)
    then show ?thesis
      using round_half_even_bounds(2) [of x] round_half_even_bounds(1) [of y] by linarith
  qed
qed

lemma round_half_even_near: "\<bar>of_int (round_half_even x) - x\<bar> \<le> 1/2"
proof -
  have "of_int \<lfloor>x\<rfloor> \<le> x" "x < of_int \<lfloor>x\<rfloor> + 1" using floor_correct [of x] by simp_all
  then show ?thesis
    by (auto simp: round_half_even_def Let_def)
qed

lemma py_round_mono: "x \<le> y \<Longrightarrow> py_round n x \<le> py_round n y"
  unfolding py_round_def
  by (intro divide_right_mono) (simp_all add: round_half_even_mono)

lemma py_round_of_int [simp]: "py_round n (of_int k) = of_int k"
proof -
  have "(of_int k * 10 ^ n :: rat) = of_int (k * 10 ^ n)" by simp
  then show ?thesis
    unfolding py_round_def by (simp only: round_half_even_of_int) simp
qed

lemma py_round_0 [simp]: "py_round n 0 = 0"
  by (simp add: py_round_def)

lemma py_round_1 [simp]: "py_round n 1 = 1"
  using py_round_of_int [of n 1] by simp

lemma py_round_ge0: "0 \<le> x \<Longrightarrow> 0 \<le> py_round n x"
  using py_round_mono [of 0 x n] by simp

lemma py_round_le1: "x \<le> 1 \<Longrightarrow> py_round n x \<le> 1"
  using py_round_mono [of x 1 n] by simp

lemma py_round_near: "\<bar>py_round n x - x\<bar> \<le> 1 / (2 * 10 ^ n)"
proof -
  have "\<bar>of_int (round_half_even (x * 10 ^ n)) - x * 10 ^ n\<bar> / 10 ^ n \<le> (1/2) / (10 ^ n :: rat)"
    by (intro divide_right_mono round_half_even_near) simp
  moreover have "py_round n x - x = (of_int (round_half_even (x * 10 ^ n)) - x * 10 ^ n) / 10 ^ n"
    by (simp add: py_round_def field_simps)
  ultimately show ?thesis by (simp add: abs_divide)
qed

lemma clamp01_range [simp]: "0 \<le> clamp01 x" "clamp01 x \<le> 1"
  by (simp_all add: clamp01_def)

lemma clamp01_id: "0 \<le> x \<Longrightarrow> x \<le> 1 \<Longrightarrow> clamp01 x = x"
  by (simp add: clamp01_def)

lemma row_count_map: "row_count P (map f t) = row_count (\<lambda>x. P (f x)) t"
  by (simp add: row_count_def filter_map o_def)

lemma map_of_map_pair: "map_of (map (\<lambda>x. (x, f x)) xs) k = (if k \<in> set xs then Some (f k) else None)"
  by (induction xs) auto

lemma count_of_group [simp]: "count_of (group_count k t) x = row_count (\<lambda>y. k y = x) t"
  by (auto simp: count_of_def group_count_def map_of_map_pair row_count_def filter_empty_conv
      split: option.splits)

lemma row_count_partition:
  "row_count P t + row_count (\<lambda>x. \<not> P x) t = length t"
  by (simp add: row_count_def sum_length_filter_compl)

text \<open>A weighted mean of numbers between 0 and 1 lies between 0 and 1.\<close>

lemma weighted_sum_bounds:
  fixes v w :: "'a \<Rightarrow> rat"
  assumes "\<And>x. x \<in> set t \<Longrightarrow> 0 \<le> v x \<and> v x \<le> 1 \<and> 0 \<le> w x"
  shows "0 \<le> sum_list (map (\<lambda>x. v x * w x) t)"
    and "sum_list (map (\<lambda>x. v x * w x) t) \<le> sum_list (map w t)"
proof -
  show "0 \<le> sum_list (map (\<lambda>x. v x * w x) t)"
    using assms by (intro sum_list_nonneg) auto
  show "sum_list (map (\<lambda>x. v x * w x) t) \<le> sum_list (map w t)"
    using assms by (intro sum_list_mono) (auto intro: mult_left_le_one_le)
qed

lemma mean_bounds:
  fixes v :: "'a \<Rightarrow> rat"
  assumes "\<And>x. x \<in> set t \<Longrightarrow> 0 \<le> v x \<and> v x \<le> 1"
  shows "0 \<le> sum_list (map v t) / of_nat (length t)"
    and "sum_list (map v t) / of_nat (length t) \<le> 1"
proof -
  have "0 \<le> sum_list (map v t)" using assms by (intro sum_list_nonneg) auto
  then show "0 \<le> sum_list (map v t) / of_nat (length t)" by simp
  have "sum_list (map v t) \<le> sum_list (map (\<lambda>_. 1) t)"
    using assms by (intro sum_list_mono) auto
  then have "sum_list (map v t) \<le> of_nat (length t)" by (simp add: sum_list_triv)
  then show "sum_list (map v t) / of_nat (length t) \<le> 1"
    by (cases "length t = 0") (simp_all add: divide_le_eq_1)
qed

end
