(* ===== verification/Runs.thy ===== *)
theory Runs
  imports EvaluationService
begin

section \<open>Runs under optimistic locking (\<open>repositories/evaluation_run_repository.py\<close>)\<close>

text \<open>
  The repository's conditional UPDATE, the status transition built on it, and the reads.
  The keyword arguments are a list of column assignments.
\<close>

datatype run_value =
    V_status run_status
  | V_started_at timestamp
  | V_completed_at timestamp
  | V_total_workers int
  | V_completed_workers int
  | V_failed_workers int
  | V_overall_score rat
  | V_error_message string

fun set_run_value :: "run_value \<Rightarrow> evaluation_run \<Rightarrow> evaluation_run" where
  "set_run_value (V_status v) r = r\<lparr>run_status := v\<rparr>"
| "set_run_value (V_started_at v) r = r\<lparr>started_at := Some v\<rparr>"
| "set_run_value (V_completed_at v) r = r\<lparr>completed_at := Some v\<rparr>"
| "set_run_value (V_total_workers v) r = r\<lparr>total_workers := v\<rparr>"
| "set_run_value (V_completed_workers v) r = r\<lparr>completed_workers := v\<rparr>"
| "set_run_value (V_failed_workers v) r = r\<lparr>failed_workers := v\<rparr>"
| "set_run_value (V_overall_score v) r = r\<lparr>overall_score := Some v\<rparr>"
| "set_run_value (V_error_message v) r = r\<lparr>run_error_message := Some v\<rparr>"

definition lock_match :: "uuid \<Rightarrow> int \<Rightarrow> evaluation_run \<Rightarrow> bool" where
  "lock_match rid expected r \<longleftrightarrow> ident r = rid \<and> version r = expected \<and> active r"

definition locked_row :: "env \<Rightarrow> int \<Rightarrow> run_value list \<Rightarrow> evaluation_run \<Rightarrow> evaluation_run" where
  "locked_row env expected vals r =
     fold set_run_value vals (r\<lparr>version := expected + 1, updated_at := now env\<rparr>)"

definition update_with_optimistic_lock :: "env \<Rightarrow> uuid \<Rightarrow> int \<Rightarrow> run_value list \<Rightarrow> db
    \<Rightarrow> (db, evaluation_run) outcome" where
  "update_with_optimistic_lock env rid expected vals db =
     (let rows = map (locked_row env expected vals)
                   (select_where (lock_match rid expected) (runs db));
          db1 = db\<lparr>runs := update_where (lock_match rid expected)
                             (locked_row env expected vals) (runs db)\<rparr>
      in case scalar_one_or_none rows of
           Inl e \<Rightarrow> (Inl e, db1)
         | Inr (Some r) \<Rightarrow> (Inr r, db1)
         | Inr None \<Rightarrow>
             if \<not> entity_exists rid None (runs db1)
             then (Inl (NotFoundError ''Evaluation run'' rid), db1)
             else (Inl (ConflictError ''Concurrent modification detected''), db1))"

definition transition_values :: "env \<Rightarrow> run_status \<Rightarrow> run_value list \<Rightarrow> run_value list" where
  "transition_values env new_status extra =
     V_status new_status # extra @
     (if new_status = RUNNING then [V_started_at (now env)]
      else if new_status \<in> {COMPLETED, FAILED, CANCELLED} then [V_completed_at (now env)]
      else [])"

definition transition_status :: "env \<Rightarrow> uuid \<Rightarrow> int \<Rightarrow> run_status \<Rightarrow> run_value list \<Rightarrow> db
    \<Rightarrow> (db, evaluation_run) outcome" where
  "transition_status env rid expected new_status extra db =
     update_with_optimistic_lock env rid expected (transition_values env new_status extra) db"

definition list_active_by_org :: "uuid \<Rightarrow> db \<Rightarrow> evaluation_run list" where
  "list_active_by_org org_id db =
     order_by_desc created_at (select_where
       (\<lambda>r. organization_id r = org_id \<and> run_status r \<in> {PENDING, RUNNING} \<and> active r) (runs db))"

definition count_active_by_org :: "uuid \<Rightarrow> db \<Rightarrow> nat" where
  "count_active_by_org org_id db =
     row_count (\<lambda>r. organization_id r = org_id \<and> run_status r \<in> {PENDING, RUNNING} \<and> active r)
       (runs db)"

definition get_runs_for_submission :: "uuid \<Rightarrow> uuid \<Rightarrow> int \<Rightarrow> int \<Rightarrow> db
    \<Rightarrow> exn + (evaluation_run list \<times> nat)" where
  "get_runs_for_submission sid org_id page page_size db =
     list_by_org org_id page page_size (order_by_desc created_at) False
       [\<lambda>r. submission_id r = sid] (runs db)"

text \<open>\<open>ORDER BY completed_at DESC LIMIT 1\<close>: PostgreSQL sorts NULL first in
  descending order.\<close>

definition get_latest_completed_run :: "uuid \<Rightarrow> uuid \<Rightarrow> db \<Rightarrow> evaluation_run option" where
  "get_latest_completed_run sid org_id db =
     (let rows = select_where (\<lambda>r. submission_id r = sid \<and> organization_id r = org_id
                    \<and> run_status r = COMPLETED \<and> active r) (runs db)
      in case filter (\<lambda>r. completed_at r = None) rows
              @ order_by_desc (\<lambda>r. case completed_at r of None \<Rightarrow> 0 | Some t \<Rightarrow> t)
                  (filter (\<lambda>r. completed_at r \<noteq> None) rows) of
           [] \<Rightarrow> None
         | r # _ \<Rightarrow> Some r)"

text \<open>\<open>progress_pct\<close> of the model class, in percent with two decimals, is in theory
  Progress.\<close>

subsection \<open>The interface of a versioned row\<close>

text \<open>
  A store with one row, read with its version, and a compare-and-swap on the version. The
  client's lemmas: of two writers that read the same version one fails, and the version
  counts the successful writes, so no update is lost among writers that use the swap.
\<close>

text \<open>A sequence of attempts to swap, each with the version its writer read some time
  before: how many succeed, and the final state.\<close>

fun attempts :: "(int \<Rightarrow> 'u \<Rightarrow> 'd \<Rightarrow> ('d, 'r) outcome) \<Rightarrow> (int \<times> 'u) list \<Rightarrow> 'd \<Rightarrow> nat \<times> 'd" where
  "attempts cas [] d = (0, d)"
| "attempts cas ((v, u) # as) d =
     (case cas v u d of
        (Inr _, d') \<Rightarrow> (let (n, d'') = attempts cas as d' in (Suc n, d''))
      | (Inl _, d') \<Rightarrow> attempts cas as d')"

locale versioned_row =
  fixes inv :: "'d \<Rightarrow> bool"
    and row :: "'d \<Rightarrow> 'r option"
    and ver :: "'r \<Rightarrow> int"
    and cas :: "int \<Rightarrow> 'u \<Rightarrow> 'd \<Rightarrow> ('d, 'r) outcome"
  assumes cas_hit: "inv d \<Longrightarrow> row d = Some r \<Longrightarrow> ver r = v \<Longrightarrow>
      \<exists>r' d'. cas v u d = (Inr r', d') \<and> row d' = Some r' \<and> ver r' = v + 1 \<and> inv d'"
    and cas_miss: "inv d \<Longrightarrow> (\<And>r. row d = Some r \<Longrightarrow> ver r \<noteq> v) \<Longrightarrow>
      \<exists>e. cas v u d = (Inl e, d)"
begin

lemma cas_cases:
  assumes "inv d"
  obtains (hit) r r' d' where "row d = Some r" "ver r = v" "cas v u d = (Inr r', d')"
      "row d' = Some r'" "ver r' = v + 1" "inv d'"
    | (miss) e where "cas v u d = (Inl e, d)"
  using cas_hit [OF assms] cas_miss [OF assms] by (metis option.exhaust)

lemma second_writer_fails:
  assumes "inv d" "cas v u d = (Inr r, d')"
  shows "\<exists>e. cas v u' d' = (Inl e, d')"
proof -
  from assms(1) have "row d' = Some r \<and> ver r = v + 1 \<and> inv d'"
    using assms(2) by (cases rule: cas_cases [where v = v and u = u]) auto
  then show ?thesis using cas_miss [of d' v u'] by auto
qed

lemma version_counts_writes:
  "inv d \<Longrightarrow> row d = Some r \<Longrightarrow> attempts cas as d = (n, d') \<Longrightarrow>
   inv d' \<and> (\<exists>r'. row d' = Some r' \<and> ver r' = ver r + int n \<and> (n = 0 \<longrightarrow> d' = d))"
proof (induction as arbitrary: d r n)
  case Nil
  then show ?case by simp
next
  case (Cons a as)
  obtain v u where a: "a = (v, u)" by (cases a)
  from \<open>inv d\<close> show ?case
  proof (cases rule: cas_cases [where v = v and u = u])
    case (hit r0 r1 d1)
    then obtain m where m: "attempts cas as d1 = (m, d')" "n = Suc m"
      using Cons.prems(3) a by (auto split: prod.splits)
    with Cons.IH [OF \<open>inv d1\<close> \<open>row d1 = Some r1\<close> m(1)] hit Cons.prems(2) show ?thesis
      by auto
  next
    case (miss e)
    with Cons a show ?thesis by auto
  qed
qed

end

subsection \<open>The repository implements it\<close>

definition run_row :: "uuid \<Rightarrow> db \<Rightarrow> evaluation_run option" where
  "run_row rid db = find (\<lambda>r. ident r = rid \<and> active r) (runs db)"

lemma set_run_value_base [simp]:
  "ident (set_run_value v r) = ident r" "deleted_at (set_run_value v r) = deleted_at r"
  "version (set_run_value v r) = version r"
  "organization_id (set_run_value v r) = organization_id r"
  "submission_id (set_run_value v r) = submission_id r"
  "config_snapshot (set_run_value v r) = config_snapshot r"
  by (cases v; simp)+

lemma fold_run_value_base [simp]:
  "ident (fold set_run_value vs r) = ident r"
  "deleted_at (fold set_run_value vs r) = deleted_at r"
  "version (fold set_run_value vs r) = version r"
  "organization_id (fold set_run_value vs r) = organization_id r"
  "submission_id (fold set_run_value vs r) = submission_id r"
  "config_snapshot (fold set_run_value vs r) = config_snapshot r"
  by (induction vs arbitrary: r) auto

lemma locked_row_base [simp]:
  "ident (locked_row env e vs r) = ident r" "deleted_at (locked_row env e vs r) = deleted_at r"
  "version (locked_row env e vs r) = e + 1"
  "organization_id (locked_row env e vs r) = organization_id r"
  "submission_id (locked_row env e vs r) = submission_id r"
  "config_snapshot (locked_row env e vs r) = config_snapshot r"
  by (simp_all add: locked_row_def)

lemma run_row_Some:
  "unique_ids (runs db) \<Longrightarrow> run_row rid db = Some r \<longleftrightarrow>
     r \<in> set (runs db) \<and> ident r = rid \<and> active r"
  unfolding run_row_def
  by (auto simp: find_Some_iff in_set_conv_nth unique_ids_def distinct_conv_nth)

lemma run_row_None:
  "run_row rid db = None \<longleftrightarrow> (\<forall>r \<in> set (runs db). ident r = rid \<longrightarrow> \<not> active r)"
  by (auto simp: run_row_def find_None_iff)

lemma lock_miss:
  assumes "unique_ids (runs db)" "\<And>r. run_row rid db = Some r \<Longrightarrow> version r \<noteq> v"
  shows "filter (lock_match rid v) (runs db) = []"
    and "update_where (lock_match rid v) f (runs db) = runs db"
proof -
  have no: "\<not> lock_match rid v x" if "x \<in> set (runs db)" for x
    using assms(2) [of x] that assms(1)
    by (cases "deleted_at x") (auto simp: lock_match_def run_row_Some)
  then show "filter (lock_match rid v) (runs db) = []"
    by (auto simp: filter_empty_conv)
  show "update_where (lock_match rid v) f (runs db) = runs db"
    by (rule update_where_none) (rule no)
qed

lemma lock_hit:
  assumes "unique_ids (runs db)" "run_row rid db = Some r" "version r = v"
  shows "filter (lock_match rid v) (runs db) = [r]"
proof -
  from assms have r: "r \<in> set (runs db)" "ident r = rid" "active r" "version r = v"
    by (simp_all add: run_row_Some)
  with assms(1) have "filter (\<lambda>y. ident y = ident r \<and> version y = v \<and> active y) (runs db) = [r]"
    by (intro filter_key_unique) (simp_all add: unique_ids_def)
  with r show ?thesis by (simp add: lock_match_def [abs_def])
qed

lemma update_lock_hit:
  assumes "unique_ids (runs db)" "run_row rid db = Some r" "version r = v"
  shows "update_with_optimistic_lock env rid v vals db =
     (Inr (locked_row env v vals r),
      db\<lparr>runs := update_where (lock_match rid v) (locked_row env v vals) (runs db)\<rparr>)"
  using lock_hit [OF assms]
  by (simp add: update_with_optimistic_lock_def select_where_def Let_def)

lemma run_row_after_hit:
  assumes "unique_ids (runs db)" "run_row rid db = Some r" "version r = v"
    and "db' = db\<lparr>runs := update_where (lock_match rid v) (locked_row env v vals) (runs db)\<rparr>"
  shows "unique_ids (runs db')" "run_row rid db' = Some (locked_row env v vals r)"
proof -
  show u: "unique_ids (runs db')"
    using assms(1,4) by (simp add: unique_ids_update_where)
  from assms have "r \<in> set (runs db)" "lock_match rid v r"
    by (simp_all add: run_row_Some lock_match_def)
  then have "locked_row env v vals r \<in> set (runs db')"
    using assms(4) by (auto simp: set_update_where)
  with u assms(1,2) show "run_row rid db' = Some (locked_row env v vals r)"
    by (simp add: run_row_Some)
qed

lemma update_lock_miss:
  assumes "unique_ids (runs db)" "\<And>r. run_row rid db = Some r \<Longrightarrow> version r \<noteq> v"
  shows "update_with_optimistic_lock env rid v vals db =
    (Inl (if run_row rid db = None then NotFoundError ''Evaluation run'' rid
          else ConflictError ''Concurrent modification detected''), db)"
proof -
  have "entity_exists rid None (runs db) \<longleftrightarrow> run_row rid db \<noteq> None"
    by (auto simp: entity_exists_iff entity_conditions_def run_row_None)
  then show ?thesis
    using lock_miss [OF assms]
    by (auto simp: update_with_optimistic_lock_def select_where_def Let_def)
qed

interpretation lock: versioned_row "\<lambda>db. unique_ids (runs db)" "run_row rid" version
    "\<lambda>v (env, vals) db. update_with_optimistic_lock env rid v vals db" for rid
proof (unfold_locales, goal_cases)
  case (1 d r v u)
  then show ?case
    using run_row_after_hit [OF 1(1-3) refl]
    by (cases u) (auto simp: update_lock_hit)
next
  case (2 d v u)
  then show ?case by (cases u) (simp add: update_lock_miss)
qed

end
