(* ===== verification/RunLifecycle.thy ===== *)
theory RunLifecycle
  imports Runs
begin

section \<open>Concurrent writers of one run\<close>

text \<open>
  \<open>_prepare_run\<close>, \<open>_fail_run\<close> and \<open>_finalize\<close> all follow one
  protocol: read the run, stop if it is terminal, later write it with the version that was
  read. Several of them may be between their read and their write at a time. The step
  relation below has one rule for the read and one for the write of an actor; a write runs
  in a session of its own, so a failed one leaves no trace.
\<close>

record sys =
  sdb :: db
  snap :: "nat \<rightharpoonup> evaluation_run"

inductive locked_step :: "uuid \<Rightarrow> sys \<Rightarrow> sys \<Rightarrow> bool" for rid where
  read_run: "run_row rid (sdb s) = Some r \<Longrightarrow> \<not> is_terminal r \<Longrightarrow>
     locked_step rid s (s\<lparr>snap := (snap s)(a \<mapsto> r)\<rparr>)"
| write_run: "snap s a = Some r \<Longrightarrow>
     in_session (transition_status env rid (version r) st extra) (sdb s) = (res, db') \<Longrightarrow>
     locked_step rid s (s\<lparr>sdb := db', snap := (snap s)(a := None)\<rparr>)"

inductive_cases locked_stepE: "locked_step rid s t"

text \<open>What the actors know: their copy is of a run that was not terminal, and it is the
  current row if the version has not moved.\<close>

definition snap_inv :: "uuid \<Rightarrow> sys \<Rightarrow> bool" where
  "snap_inv rid s \<longleftrightarrow> unique_ids (runs (sdb s)) \<and>
     (\<forall>a r0. snap s a = Some r0 \<longrightarrow> \<not> is_terminal r0 \<and>
        (\<exists>r. run_row rid (sdb s) = Some r \<and> version r0 \<le> version r \<and>
             (version r0 = version r \<longrightarrow> r = r0)))"

lemma transition_lock:
  "transition_status env rid v st extra =
   (\<lambda>db. update_with_optimistic_lock env rid v (transition_values env st extra) db)"
  by (simp add: transition_status_def fun_eq_iff)

text \<open>A write either misses and changes nothing, or finds the version it expects.\<close>

lemma transition_cases:
  assumes "unique_ids (runs db)" "in_session (transition_status env rid v st extra) db = (res, db')"
  obtains (miss) "db' = db" "\<exists>e. res = Inl e"
    | (hit) r where "run_row rid db = Some r" "version r = v"
        "run_row rid db' = Some (locked_row env v (transition_values env st extra) r)"
        "res = Inr (locked_row env v (transition_values env st extra) r)"
        "unique_ids (runs db')"
proof (cases "\<exists>r. run_row rid db = Some r \<and> version r = v")
  case True
  then obtain r where r: "run_row rid db = Some r" "version r = v" by blast
  have "transition_status env rid v st extra db =
     (Inr (locked_row env v (transition_values env st extra) r),
      db\<lparr>runs := update_where (lock_match rid v)
            (locked_row env v (transition_values env st extra)) (runs db)\<rparr>)"
    unfolding transition_status_def by (rule update_lock_hit [OF assms(1) r])
  with assms(2) have eq: "res = Inr (locked_row env v (transition_values env st extra) r)"
    "db' = db\<lparr>runs := update_where (lock_match rid v)
            (locked_row env v (transition_values env st extra)) (runs db)\<rparr>"
    by (simp_all add: in_session_def)
  with run_row_after_hit [OF assms(1) r eq(2)] r show ?thesis by (intro hit) auto
next
  case False
  then have "transition_status env rid v st extra db =
      (Inl (if run_row rid db = None then NotFoundError ''Evaluation run'' rid
            else ConflictError ''Concurrent modification detected''), db)"
    unfolding transition_status_def by (intro update_lock_miss [OF assms(1)]) blast
  with assms(2) show ?thesis by (intro miss) (auto simp: in_session_def)
qed

lemma snap_inv_read:
  assumes "snap_inv rid s" "run_row rid (sdb s) = Some r" "\<not> is_terminal r"
  shows "snap_inv rid (s\<lparr>snap := (snap s)(a \<mapsto> r)\<rparr>)"
  using assms by (auto simp: snap_inv_def)

lemma snap_inv_write:
  assumes inv: "snap_inv rid s"
    and w: "in_session (transition_status env rid v st extra) (sdb s) = (res, db')"
  shows "snap_inv rid (s\<lparr>sdb := db', snap := (snap s)(a := None)\<rparr>)"
proof -
  from inv have u: "unique_ids (runs (sdb s))" by (simp add: snap_inv_def)
  from u w show ?thesis
  proof (cases rule: transition_cases)
    case miss
    with inv show ?thesis by (auto simp: snap_inv_def)
  next
    case (hit r)
    with inv show ?thesis by (fastforce simp: snap_inv_def)
  qed
qed

lemma locked_step_inv: "locked_step rid s t \<Longrightarrow> snap_inv rid s \<Longrightarrow> snap_inv rid t"
  by (induction rule: locked_step.induct) (auto intro: snap_inv_read snap_inv_write)

lemma locked_step_version:
  assumes "locked_step rid s t" "snap_inv rid s" "run_row rid (sdb s) = Some r"
  shows "\<exists>r'. run_row rid (sdb t) = Some r' \<and>
     (r' = r \<or> version r' = version r + 1 \<and> \<not> is_terminal r)"
  using assms(1)
proof (cases rule: locked_step.cases)
  case (read_run r0 a)
  with assms(3) show ?thesis by simp
next
  case (write_run a r0 env st extra res db')
  from assms(2) have u: "unique_ids (runs (sdb s))" by (simp add: snap_inv_def)
  from u write_run(3) show ?thesis
  proof (cases rule: transition_cases)
    case miss
    with write_run(1) assms(3) show ?thesis by simp
  next
    case (hit r1)
    with assms(3) have "r1 = r" by simp
    moreover have "r = r0 \<and> \<not> is_terminal r0"
      using assms(2,3) write_run(2) hit \<open>r1 = r\<close> by (force simp: snap_inv_def)
    ultimately show ?thesis using hit write_run(1) by simp
  qed
qed

lemma locked_steps_inv: "(locked_step rid)\<^sup>*\<^sup>* s t \<Longrightarrow> snap_inv rid s \<Longrightarrow> snap_inv rid t"
  by (induction rule: rtranclp_induct) (auto intro: locked_step_inv)

subsection \<open>Properties\<close>



text \<open>C10: no update is lost among the users of the optimistic lock. For any sequence of
  attempts with versions read at any time before, the version of the run grows by exactly
  the number of attempts that succeed, and an attempt with a stale version reports a
  conflict and changes nothing.
\<close>

theorem optimistic_lock_no_lost_update:
  assumes "unique_ids (runs db)" "run_row rid db = Some r"
    and "attempts (\<lambda>v (env, vals). update_with_optimistic_lock env rid v vals) as db = (n, db')"
  shows "(\<exists>r'. run_row rid db' = Some r' \<and> version r' = version r + int n)
    \<and> (v \<noteq> version r \<longrightarrow> update_with_optimistic_lock env rid v vals db =
          (Inl (ConflictError ''Concurrent modification detected''), db))"
proof -
  have "attempts (\<lambda>v (env, vals) db. update_with_optimistic_lock env rid v vals db) as db = (n, db')"
    using assms(3) by simp
  from lock.version_counts_writes [OF assms(1,2) this]
  have "\<exists>r'. run_row rid db' = Some r' \<and> version r' = version r + int n" by blast
  moreover have "update_with_optimistic_lock env rid v vals db =
      (Inl (ConflictError ''Concurrent modification detected''), db)" if "v \<noteq> version r"
    using update_lock_miss [OF assms(1), of rid v env vals] assms(2) that by simp
  ultimately show ?thesis by blast
qed

theorem optimistic_lock_no_lost_update_witness:
  "\<exists>r'. run_row 4 (snd (attempts (\<lambda>v (env, vals). update_with_optimistic_lock env 4 v vals)
       [(1, (sample_env, [])), (1, (sample_env, []))] (sample_db DRAFT RUNNING))) = Some r'
     \<and> version r' = 2"
proof -
  let ?as = "[(1, (sample_env, [])), (1::int, (sample_env, []::run_value list))]"
  let ?c = "\<lambda>v (env, vals). update_with_optimistic_lock env 4 v vals"
  have row: "run_row 4 (sample_db DRAFT RUNNING) = Some (sample_run RUNNING)"
    by (simp add: run_row_def sample_run_def)
  have n: "fst (attempts ?c ?as (sample_db DRAFT RUNNING)) = 1"
    by (simp add: update_with_optimistic_lock_def select_where_def lock_match_def sample_defs
        update_where_def entity_exists_def row_count_def entity_conditions_def locked_row_def)
  obtain db' where a: "attempts ?c ?as (sample_db DRAFT RUNNING) = (1, db')"
    using n by (metis prod.collapse)
  from optimistic_lock_no_lost_update [OF _ row a] a show ?thesis
    by (simp add: sample_run_def)
qed

text \<open>A cancellation is not protected by the lock. It keeps the version, so a finalizer
  that read the running run before the cancellation still succeeds after it, and the run
  ends COMPLETED although the client was told it is CANCELLED.
\<close>

theorem cancel_can_be_overwritten:
  assumes "unique_ids (runs db)" "get_evaluation_run rid org db = Inr r" "\<not> is_terminal r"
    and "cancel_evaluation_run env revoke rid org user db = (Inr rc, db1)"
  shows "run_status rc = CANCELLED \<and> version rc = version r
    \<and> (\<exists>rf db2. transition_status env' rid (version r) COMPLETED extra db1 = (Inr rf, db2)
         \<and> run_row rid db2 = Some rf)"
proof -
  from assms(1,2) have r: "r \<in> set (runs db)" "ident r = rid" "active r"
    by (simp_all add: run.get_returns)
  let ?rc = "touch (now env) (r\<lparr>run_status := CANCELLED, completed_at := Some (now env)\<rparr>)"
  from assms(2,4) have rc: "rc = ?rc"
    "runs db1 = update_where (\<lambda>x. ident x = rid) (\<lambda>_. ?rc) (runs db)"
    by (auto elim: cancel_evaluation_runE)
  have u: "unique_ids (runs db1)" using r assms(1) by (simp add: rc unique_ids_replace)
  have "?rc \<in> set (runs db1)" using r by (auto simp: rc set_update_where)
  with u r have row: "run_row rid db1 = Some ?rc" by (simp add: run_row_Some)
  have "version ?rc = version r" by simp
  from update_lock_hit [OF u row this] run_row_after_hit [OF u row this refl] rc(1)
  show ?thesis by (auto simp: transition_status_def)
qed

theorem cancel_can_be_overwritten_witness:
  "\<exists>rf db2. transition_status sample_env 4 1 COMPLETED []
      (snd (cancel_evaluation_run sample_env (\<lambda>_. Inr ()) 4 1 2 (sample_db DRAFT RUNNING))) =
      (Inr rf, db2)"
proof -
  let ?c = "cancel_evaluation_run sample_env (\<lambda>_. Inr ()) 4 1 2 (sample_db DRAFT RUNNING)"
  have g: "get_evaluation_run 4 1 (sample_db DRAFT RUNNING) = Inr (sample_run RUNNING)"
    by (simp add: get_evaluation_run_def select_where_def sample_run_def)
  have t: "\<not> is_terminal (sample_run RUNNING)" by (simp add: is_terminal_def sample_run_def)
  from g t have c: "?c = (Inr (projr (fst ?c)), snd ?c)"
    by (simp add: cancel_evaluation_run_def sample_run_def Let_def)
  from cancel_can_be_overwritten [OF _ g t c, of sample_env "[]"] show ?thesis
    by (auto simp: sample_run_def)
qed

end
