(* ===== verification/Scoring.thy ===== *)
theory Scoring
  imports PyNum RunLifecycle
begin

section \<open>Scores, contradictions, claims and worker results (\<open>repositories/\<close>)\<close>

text \<open>
  The repositories the pipeline writes its findings through. Scores are immutable: the
  repository only creates them, and the table has a partial unique index on run and
  dimension and range checks on value and weight, which \<open>insert_scores\<close> enforces as the
  database does.
\<close>

subsection \<open>Scores\<close>

definition find_by_run_and_dimension :: "uuid \<Rightarrow> string \<Rightarrow> uuid \<Rightarrow> score list
    \<Rightarrow> exn + score option" where
  "find_by_run_and_dimension rid dmn org t =
     scalar_one_or_none (select_where
       (\<lambda>s. score_run_id s = rid \<and> dimension s = dmn \<and> organization_id s = org \<and> active s) t)"

text \<open>One INSERT: the check constraints, then the unique index among active rows.\<close>

definition insert_score :: "score \<Rightarrow> score list \<Rightarrow> exn + score list" where
  "insert_score s t =
     (if \<not> ck_scores_range s then Inl (IntegrityError ''ck_scores_range'')
      else if active s \<and> (\<exists>x \<in> set t. active x \<and> score_run_id x = score_run_id s
                              \<and> dimension x = dimension s)
      then Inl (IntegrityError ''uq_scores_run_dimension_active'')
      else Inr (insert_row s t))"

fun insert_scores :: "score list \<Rightarrow> score list \<Rightarrow> exn + score list" where
  "insert_scores [] t = Inr t"
| "insert_scores (s # ss) t =
     (case insert_score s t of Inl e \<Rightarrow> Inl e | Inr t' \<Rightarrow> insert_scores ss t')"

definition create_score :: "score \<Rightarrow> score list \<Rightarrow> (score list, score) outcome" where
  "create_score s t =
     (case find_by_run_and_dimension (score_run_id s) (dimension s) (organization_id s) t of
        Inl e \<Rightarrow> (Inl e, t)
      | Inr (Some _) \<Rightarrow> (Inl (ConflictError ''Score for dimension already exists''), t)
      | Inr None \<Rightarrow>
        (case insert_score s t of Inl e \<Rightarrow> (Inl e, t) | Inr t' \<Rightarrow> (Inr s, t')))"

definition bulk_create_scores :: "score list \<Rightarrow> score list \<Rightarrow> (score list, score list) outcome" where
  "bulk_create_scores ss t =
     (if \<not> distinct (map dimension ss)
      then (Inl (ConflictError ''Duplicate dimensions in score batch''), t)
      else case insert_scores ss t of Inl e \<Rightarrow> (Inl e, t) | Inr t' \<Rightarrow> (Inr ss, t'))"

definition soft_delete_score :: "score list \<Rightarrow> (score list, bool) outcome" where
  "soft_delete_score t = (Inl (ConflictError ''Scores are immutable and cannot be deleted''), t)"

definition run_rows :: "uuid \<Rightarrow> uuid \<Rightarrow> score \<Rightarrow> bool" where
  "run_rows rid org s \<longleftrightarrow> score_run_id s = rid \<and> organization_id s = org \<and> active s"

definition by_weight_desc :: "score list \<Rightarrow> score list" where
  "by_weight_desc t = sort_key (\<lambda>s. - weight s) t"

definition get_scores_for_run :: "uuid \<Rightarrow> uuid \<Rightarrow> score list \<Rightarrow> score list" where
  "get_scores_for_run rid org t = by_weight_desc (select_where (run_rows rid org) t)"

text \<open>\<open>SUM\<close> of no rows is NULL.\<close>

definition compute_weighted_average :: "uuid \<Rightarrow> uuid \<Rightarrow> score list \<Rightarrow> rat option" where
  "compute_weighted_average rid org t =
     (let rows = select_where (run_rows rid org) t;
          weighted_sum = sum_list (map (\<lambda>s. score_value s * weight s) rows);
          total_weight = sum_list (map weight rows)
      in if rows = [] \<or> total_weight = 0 then None
         else Some (py_round 4 (weighted_sum / total_weight)))"

definition get_dimension_averages_across_org :: "uuid \<Rightarrow> score list \<Rightarrow> (string \<times> rat) list" where
  "get_dimension_averages_across_org org t =
     (let rows = select_where (\<lambda>s. organization_id s = org \<and> active s) t
      in map (\<lambda>d. let g = filter (\<lambda>s. dimension s = d) rows
                  in (d, py_round 4 (sum_list (map score_value g) / of_nat (length g))))
           (remdups (map dimension rows)))"

subsection \<open>Contradictions\<close>

definition severity_bucket :: "contradiction \<Rightarrow> string" where
  "severity_bucket c =
     (if severity c > 8/10 then ''critical''
      else if severity c > 6/10 then ''high''
      else if severity c > 4/10 then ''medium''
      else ''low'')"

definition con_rows :: "uuid \<Rightarrow> uuid \<Rightarrow> contradiction \<Rightarrow> bool" where
  "con_rows rid org c \<longleftrightarrow> con_run_id c = rid \<and> organization_id c = org \<and> active c"

definition count_by_severity_bucket :: "uuid \<Rightarrow> uuid \<Rightarrow> contradiction list
    \<Rightarrow> (string \<times> nat) list" where
  "count_by_severity_bucket rid org t =
     group_count severity_bucket (select_where (con_rows rid org) t)"

text \<open>The two claims are joined in; a foreign key makes them exist.\<close>

definition get_with_claims :: "uuid \<Rightarrow> uuid \<Rightarrow> contradiction list \<Rightarrow> exn + contradiction option" where
  "get_with_claims cid org t =
     scalar_one_or_none (select_where
       (\<lambda>c. ident c = cid \<and> organization_id c = org \<and> active c) t)"

definition get_by_run_with_claims :: "uuid \<Rightarrow> uuid \<Rightarrow> contradiction list \<Rightarrow> contradiction list" where
  "get_by_run_with_claims rid org t =
     sort_key (\<lambda>c. - severity c) (select_where (con_rows rid org) t)"

subsection \<open>Claims\<close>

definition claim_rows :: "uuid \<Rightarrow> uuid \<Rightarrow> claim \<Rightarrow> bool" where
  "claim_rows rid org c \<longleftrightarrow> claim_run_id c = rid \<and> organization_id c = org \<and> active c"

definition bulk_create :: "claim list \<Rightarrow> claim list \<Rightarrow> claim list" where
  "bulk_create cs t = repo_create_many cs t"

definition claims_get_by_run :: "uuid \<Rightarrow> uuid \<Rightarrow> int \<Rightarrow> int \<Rightarrow> string option \<Rightarrow> claim list
    \<Rightarrow> exn + (claim list \<times> nat)" where
  "claims_get_by_run rid org page page_size cat t =
     list_by_org org page page_size (sort_key (\<lambda>c. - confidence_score c)) False
       ((\<lambda>c. claim_run_id c = rid) #
        (case cat of None \<Rightarrow> []
         | Some k \<Rightarrow> if k = [] then [] else [\<lambda>c. category c = k])) t"

definition count_by_category :: "uuid \<Rightarrow> uuid \<Rightarrow> claim list \<Rightarrow> (string \<times> nat) list" where
  "count_by_category rid org t = group_count category (select_where (claim_rows rid org) t)"

definition count_by_verification_status :: "uuid \<Rightarrow> uuid \<Rightarrow> claim list \<Rightarrow> (string \<times> nat) list" where
  "count_by_verification_status rid org t =
     group_count verification_status (select_where (claim_rows rid org) t)"

definition get_high_confidence_claims :: "uuid \<Rightarrow> uuid \<Rightarrow> rat \<Rightarrow> claim list \<Rightarrow> claim list" where
  "get_high_confidence_claims rid org threshold t =
     sort_key (\<lambda>c. - confidence_score c)
       (select_where (\<lambda>c. claim_rows rid org c \<and> confidence_score c \<ge> threshold) t)"

subsection \<open>Worker results\<close>

fun worker_status_value :: "worker_status \<Rightarrow> string" where
  "worker_status_value W_PENDING = ''pending''"
| "worker_status_value W_RUNNING = ''running''"
| "worker_status_value W_COMPLETED = ''completed''"
| "worker_status_value W_FAILED = ''failed''"

definition results_get_by_run :: "uuid \<Rightarrow> uuid \<Rightarrow> worker_result list \<Rightarrow> worker_result list" where
  "results_get_by_run rid org t =
     order_by_asc created_at
       (select_where (\<lambda>w. wr_run_id w = rid \<and> organization_id w = org \<and> active w) t)"

definition count_by_status :: "uuid \<Rightarrow> worker_result list \<Rightarrow> (string \<times> nat) list" where
  "count_by_status rid t =
     group_count (\<lambda>w. worker_status_value (wr_status w))
       (select_where (\<lambda>w. wr_run_id w = rid \<and> active w) t)"

definition all_workers_completed :: "uuid \<Rightarrow> worker_result list \<Rightarrow> bool" where
  "all_workers_completed rid t \<longleftrightarrow>
     row_count (\<lambda>w. wr_run_id w = rid \<and> wr_status w \<in> {W_PENDING, W_RUNNING} \<and> active w) t = 0"

definition get_avg_processing_time :: "uuid \<Rightarrow> worker_result list \<Rightarrow> rat" where
  "get_avg_processing_time rid t =
     (let rows = select_where (\<lambda>w. wr_run_id w = rid \<and> wr_status w = W_COMPLETED \<and> active w) t
      in if rows = [] then 0
         else of_int (sum_list (map processing_time_ms rows)) / of_nat (length rows))"

subsection \<open>Library\<close>

definition scores_ok :: "score list \<Rightarrow> bool" where
  "scores_ok t \<longleftrightarrow> (\<forall>s \<in> set t. ck_scores_range s) \<and> uq_scores_run_dimension t"

lemma insert_score_ok:
  assumes "scores_ok t" "insert_score s t = Inr t'"
  shows "scores_ok t'" and "t' = t @ [s]"
proof -
  have c: "ck_scores_range s" and t': "t' = t @ [s]"
    and n: "active s \<longrightarrow> (\<forall>x \<in> set t. active x \<and> score_run_id x = score_run_id s \<longrightarrow>
      dimension x \<noteq> dimension s)"
    using assms(2) by (auto simp: insert_score_def insert_row_def split: if_splits)
  show "t' = t @ [s]" by (rule t')
  show "scores_ok t'"
    using assms(1) c n by (auto simp: scores_ok_def uq_scores_run_dimension_def t')
qed

lemma insert_scores_ok:
  "scores_ok t \<Longrightarrow> insert_scores ss t = Inr t' \<Longrightarrow> scores_ok t' \<and> t' = t @ ss"
proof (induction ss arbitrary: t)
  case (Cons s ss)
  from Cons.prems(2) obtain t1 where t1: "insert_score s t = Inr t1" "insert_scores ss t1 = Inr t'"
    by (auto split: sum.splits)
  note a = insert_score_ok [OF Cons.prems(1) t1(1)]
  from Cons.IH [OF a(1) t1(2)] have "scores_ok t'" "t' = t1 @ ss" by blast+
  with a(2) show ?case by simp
qed simp

text \<open>A second batch for the same run and dimension is refused by the index.\<close>

lemma insert_scores_conflict:
  assumes "x \<in> set t" "active x" "s \<in> set ss" "active s" "score_run_id s = score_run_id x"
    "dimension s = dimension x"
  shows "\<exists>e. insert_scores ss t = Inl e"
  using assms(1,3)
proof (induction ss arbitrary: t)
  case (Cons a ss)
  show ?case
  proof (cases "insert_score a t")
    case (Inr t1)
    then have t1: "t1 = t @ [a]" by (auto simp: insert_score_def insert_row_def split: if_splits)
    show ?thesis
    proof (cases "a = s")
      case True
      have "\<exists>y \<in> set t. active y \<and> score_run_id y = score_run_id s \<and> dimension y = dimension s"
        using Cons.prems(1) assms by (intro bexI [of _ x]) simp_all
      with Inr True assms(4) show ?thesis by (auto simp: insert_score_def split: if_splits)
    next
      case False
      with Cons.prems have "s \<in> set ss" "x \<in> set t1" by (auto simp: t1)
      from Cons.IH [OF this(2,1)] Inr show ?thesis by simp
    qed
  qed simp
qed simp

lemma weighted_average_range:
  assumes "\<forall>s \<in> set t. ck_scores_range s" "compute_weighted_average rid org t = Some a"
  shows "0 \<le> a" and "a \<le> 1"
proof -
  let ?rows = "filter (run_rows rid org) t"
  let ?s = "sum_list (map (\<lambda>s. score_value s * weight s) ?rows)"
  let ?w = "sum_list (map weight ?rows)"
  have b: "0 \<le> score_value x \<and> score_value x \<le> 1 \<and> 0 \<le> weight x" if "x \<in> set ?rows" for x
    using assms(1) that by (auto simp: ck_scores_range_def)
  from b have bounds: "0 \<le> ?s" "?s \<le> ?w"
    by (rule weighted_sum_bounds; blast)+
  have a: "a = py_round 4 (?s / ?w)" and w: "?w \<noteq> 0"
    using assms(2) by (auto simp: compute_weighted_average_def select_where_def Let_def
        split: if_splits)
  from bounds w have "0 < ?w" by linarith
  with bounds have "0 \<le> ?s / ?w" "?s / ?w \<le> 1" by (simp_all add: divide_le_eq_1)
  then show "0 \<le> a" "a \<le> 1" by (simp_all only: a py_round_ge0 py_round_le1)
qed

subsection \<open>Properties\<close>

text \<open>The weighted average of a run. With the range checks of the table it is a number in
  the unit interval, rounded to four digits, computed from the active scores of that run
  and organization alone (rows of others do not change it); it is missing exactly when the
  run has no scores or their weights sum to zero.
\<close>

theorem weighted_average_correct:
  assumes "\<forall>s \<in> set t. ck_scores_range s"
  shows "(compute_weighted_average rid org t = None \<longleftrightarrow>
      (\<forall>s \<in> set t. run_rows rid org s \<longrightarrow> weight s = 0))
    \<and> (\<forall>a. compute_weighted_average rid org t = Some a \<longrightarrow> 0 \<le> a \<and> a \<le> 1)
    \<and> compute_weighted_average rid org (filter (run_rows rid org) t) =
        compute_weighted_average rid org t"
proof (intro conjI allI impI)
  let ?rows = "filter (run_rows rid org) t"
  have "sum_list (map weight ?rows) = 0 \<longleftrightarrow> (\<forall>s \<in> set ?rows. weight s = 0)"
    using assms by (subst sum_list_nonneg_eq_0_iff) (auto simp: ck_scores_range_def)
  then show "compute_weighted_average rid org t = None \<longleftrightarrow>
      (\<forall>s \<in> set t. run_rows rid org s \<longrightarrow> weight s = 0)"
    by (auto simp: compute_weighted_average_def select_where_def Let_def filter_empty_conv)
  fix a assume a: "compute_weighted_average rid org t = Some a"
  show "0 \<le> a" "a \<le> 1" by (rule weighted_average_range [OF assms a])+
next
  show "compute_weighted_average rid org (filter (run_rows rid org) t) =
      compute_weighted_average rid org t"
    by (simp add: compute_weighted_average_def select_where_def)
qed

text \<open>Scores are written once. A successful \<open>create_score\<close> appends its row and keeps the
  table's checks; the same run and dimension is then refused as a conflict without any
  change, also in a batch, and no score can be soft-deleted through the repository.
\<close>

theorem scores_written_once:
  assumes "scores_ok t" "active s" "create_score s t = (r, t')" "is_ok r"
  shows "t' = t @ [s] \<and> scores_ok t'
    \<and> (\<forall>s'. score_run_id s' = score_run_id s \<and> dimension s' = dimension s
         \<and> organization_id s' = organization_id s \<longrightarrow>
         create_score s' t' = (Inl (ConflictError ''Score for dimension already exists''), t'))
    \<and> (\<forall>ss. s \<in> set ss \<longrightarrow> (\<exists>e. bulk_create_scores ss t' = (Inl e, t')))
    \<and> (\<exists>e. soft_delete_score t' = (Inl e, t'))"
proof -
  have f: "find_by_run_and_dimension (score_run_id s) (dimension s) (organization_id s) t = Inr None"
    and i: "insert_score s t = Inr t'"
    using assms(3,4) by (auto simp: create_score_def split: sum.splits option.splits)
  note ok = insert_score_ok [OF assms(1) i]
  from f ok(2) assms(2)
  have "find_by_run_and_dimension (score_run_id s) (dimension s) (organization_id s) t' = Inr (Some s)"
    by (simp add: find_by_run_and_dimension_def select_where_def)
  then have c: "create_score s' t' =
      (Inl (ConflictError ''Score for dimension already exists''), t')"
    if "score_run_id s' = score_run_id s" "dimension s' = dimension s"
      "organization_id s' = organization_id s" for s'
    using that by (simp add: create_score_def)
  have b: "\<exists>e. bulk_create_scores ss t' = (Inl e, t')" if "s \<in> set ss" for ss
  proof -
    have "\<exists>e. insert_scores ss t' = Inl e"
      by (rule insert_scores_conflict [where x = s and s = s]) (use ok(2) assms(2) that in auto)
    then show ?thesis by (auto simp: bulk_create_scores_def)
  qed
  show ?thesis using ok c b by (simp add: soft_delete_score_def)
qed

text \<open>
  Severity buckets partition the contradictions of a run: every bucket count is the
  number of rows in its interval and the four counts add up to all active rows of the run
  in the organization.
\<close>

theorem severity_buckets_partition:
  "count_of (count_by_severity_bucket rid org t) ''critical''
   + count_of (count_by_severity_bucket rid org t) ''high''
   + count_of (count_by_severity_bucket rid org t) ''medium''
   + count_of (count_by_severity_bucket rid org t) ''low'' = row_count (con_rows rid org) t
   \<and> count_of (count_by_severity_bucket rid org t) ''medium'' =
       row_count (\<lambda>c. con_rows rid org c \<and> 4/10 < severity c \<and> severity c \<le> 6/10) t"
proof
  have "row_count (\<lambda>c. severity_bucket c = ''critical'') ts
      + row_count (\<lambda>c. severity_bucket c = ''high'') ts
      + row_count (\<lambda>c. severity_bucket c = ''medium'') ts
      + row_count (\<lambda>c. severity_bucket c = ''low'') ts = length ts" for ts
    by (induction ts) (auto simp: row_count_def severity_bucket_def)
  then show "count_of (count_by_severity_bucket rid org t) ''critical''
   + count_of (count_by_severity_bucket rid org t) ''high''
   + count_of (count_by_severity_bucket rid org t) ''medium''
   + count_of (count_by_severity_bucket rid org t) ''low'' = row_count (con_rows rid org) t"
    unfolding count_by_severity_bucket_def count_of_group select_where_def
      row_count_def [of "con_rows rid org"] .
  show "count_of (count_by_severity_bucket rid org t) ''medium'' =
       row_count (\<lambda>c. con_rows rid org c \<and> 4/10 < severity c \<and> severity c \<le> 6/10) t"
    by (auto simp: count_by_severity_bucket_def select_where_def row_count_def
        severity_bucket_def intro!: arg_cong [of _ _ length] filter_cong)
qed

subsection \<open>Witnesses\<close>

definition sample_score :: "string \<Rightarrow> rat \<Rightarrow> rat \<Rightarrow> score" where
  "sample_score d v w = \<lparr>ident = 20, created_at = 0, updated_at = 0, deleted_at = None,
     organization_id = 1, score_run_id = 4, dimension = d, score_value = v, weight = w,
     rationale = None, breakdown = empty_obj\<rparr>"

theorem weighted_average_correct_witness:
  "\<exists>a. compute_weighted_average 4 1 [sample_score ''team'' (3/4) (1/5), sample_score ''overall'' (1/2) (1/10)]
     = Some a \<and> 0 \<le> a \<and> a \<le> 1"
proof -
  let ?t = "[sample_score ''team'' (3/4) (1/5), sample_score ''overall'' (1/2) (1/10)]"
  have "\<forall>s \<in> set ?t. ck_scores_range s" by (simp add: ck_scores_range_def sample_score_def)
  from weighted_average_correct [OF this, of 4 1]
  have n: "compute_weighted_average 4 1 ?t = None \<longleftrightarrow>
      (\<forall>s \<in> set ?t. run_rows 4 1 s \<longrightarrow> weight s = 0)"
    and b: "\<forall>a. compute_weighted_average 4 1 ?t = Some a \<longrightarrow> 0 \<le> a \<and> a \<le> 1"
    by (rule conjunct1, rule conjunct1 [OF conjunct2])
  have "\<not> (\<forall>s \<in> set ?t. run_rows 4 1 s \<longrightarrow> weight s = 0)"
    by (simp add: run_rows_def sample_score_def)
  with n b show ?thesis by (cases "compute_weighted_average 4 1 ?t") auto
qed

theorem scores_written_once_witness:
  "create_score (sample_score ''team'' (1/2) (1/5)) [sample_score ''team'' (3/4) (1/5)] =
     (Inl (ConflictError ''Score for dimension already exists''), [sample_score ''team'' (3/4) (1/5)])"
proof -
  let ?s = "sample_score ''team'' (3/4) (1/5)"
  have "create_score ?s [] = (Inr ?s, [?s])"
    by (simp add: create_score_def find_by_run_and_dimension_def select_where_def insert_score_def
        ck_scores_range_def sample_score_def insert_row_def)
  moreover have "scores_ok []" by (simp add: scores_ok_def uq_scores_run_dimension_def)
  moreover have "active ?s" by (simp add: sample_score_def)
  ultimately show ?thesis
    using scores_written_once [of "[]" ?s "Inr ?s" "[?s]"] by (simp add: sample_score_def)
qed

end
