(* ===== verification/PyString.thy ===== *)
theory PyString
  imports Prelude
begin

section \<open>Python strings\<close>

text \<open>
  The string operations the services use, on characters with code points below 256
  (Latin-1), which is what \<open>char\<close> holds. The classes are those of \<open>str.isspace\<close>,
  \<open>str.isalnum\<close> and of the escapes \<open>\s\<close> and \<open>\w\<close> of the module \<open>re\<close>
  on \<open>str\<close> patterns.
\<close>

definition char_code :: "char \<Rightarrow> nat" where
  "char_code c = of_char c"

definition is_space_code :: "nat \<Rightarrow> bool" where
  "is_space_code n \<longleftrightarrow> 9 \<le> n \<and> n \<le> 13 \<or> 28 \<le> n \<and> n \<le> 32 \<or> n = 133 \<or> n = 160"

definition is_upper_code :: "nat \<Rightarrow> bool" where
  "is_upper_code n \<longleftrightarrow> 65 \<le> n \<and> n \<le> 90 \<or> 192 \<le> n \<and> n \<le> 222 \<and> n \<noteq> 215"

definition is_alnum_code :: "nat \<Rightarrow> bool" where
  "is_alnum_code n \<longleftrightarrow> 48 \<le> n \<and> n \<le> 57 \<or> 65 \<le> n \<and> n \<le> 90 \<or> 97 \<le> n \<and> n \<le> 122
     \<or> n \<in> {170, 178, 179, 181, 185, 186, 188, 189, 190}
     \<or> 192 \<le> n \<and> n \<le> 255 \<and> n \<noteq> 215 \<and> n \<noteq> 247"

definition is_space :: "char \<Rightarrow> bool" where
  "is_space c = is_space_code (char_code c)"

definition is_word :: "char \<Rightarrow> bool" where
  "is_word c \<longleftrightarrow> is_alnum_code (char_code c) \<or> char_code c = 95"

definition is_upper :: "char \<Rightarrow> bool" where
  "is_upper c = is_upper_code (char_code c)"

definition is_digit :: "char \<Rightarrow> bool" where
  "is_digit c \<longleftrightarrow> 48 \<le> char_code c \<and> char_code c \<le> 57"

definition is_lower_ascii :: "char \<Rightarrow> bool" where
  "is_lower_ascii c \<longleftrightarrow> 97 \<le> char_code c \<and> char_code c \<le> 122"

definition lower_char :: "char \<Rightarrow> char" where
  "lower_char c = (if is_upper c then char_of (char_code c + 32) else c)"

definition str_lower :: "string \<Rightarrow> string" where
  "str_lower s = map lower_char s"

text \<open>\<open>str.upper\<close>: the sharp s becomes two letters, and the capitals of micro sign and y with
  diaeresis lie outside the modelled characters, so both stay.\<close>

definition upper_char :: "char \<Rightarrow> string" where
  "upper_char c =
     (if char_code c = 223 then ''SS''
      else if is_lower_ascii c \<or> 224 \<le> char_code c \<and> char_code c \<le> 254 \<and> char_code c \<noteq> 247
      then [char_of (char_code c - 32)] else [c])"

definition str_upper :: "string \<Rightarrow> string" where
  "str_upper s = concat (map upper_char s)"

definition str_strip :: "string \<Rightarrow> string" where
  "str_strip s = rev (dropWhile is_space (rev (dropWhile is_space s)))"

text \<open>\<open>s.split(sep)\<close> for a separator of one character: never empty.\<close>

fun split_on :: "char \<Rightarrow> string \<Rightarrow> string list" where
  "split_on d [] = [[]]"
| "split_on d (c # s) =
     (if c = d then [] # split_on d s
      else case split_on d s of [] \<Rightarrow> [[c]] | w # ws \<Rightarrow> (c # w) # ws)"

fun join_with :: "string \<Rightarrow> string list \<Rightarrow> string" where
  "join_with sep [] = []"
| "join_with sep [s] = s"
| "join_with sep (s # t # ts) = s @ sep @ join_with sep (t # ts)"

definition starts_with :: "string \<Rightarrow> string \<Rightarrow> bool" where
  "starts_with p s \<longleftrightarrow> take (length p) s = p"

text \<open>\<open>needle in haystack\<close>.\<close>

fun str_contains :: "string \<Rightarrow> string \<Rightarrow> bool" where
  "str_contains p [] = (p = [])"
| "str_contains p (c # s) = (starts_with p (c # s) \<or> str_contains p s)"

text \<open>\<open>len(s.split())\<close>.\<close>

fun count_words :: "bool \<Rightarrow> string \<Rightarrow> nat" where
  "count_words in_word [] = 0"
| "count_words in_word (c # s) =
     (if is_space c then count_words False s
      else (if in_word then 0 else 1) + count_words True s)"

subsection \<open>Facts\<close>

lemma char_code_less [simp]: "char_code c < 256"
  by (simp add: char_code_def)

lemma char_code_char_of [simp]: "n < 256 \<Longrightarrow> char_code (char_of n) = n"
  by (simp add: char_code_def)

lemma char_code_inj: "char_code c = char_code d \<longleftrightarrow> c = d"
  by (simp add: char_code_def)

lemma upper_code_less: "is_upper c \<Longrightarrow> char_code c + 32 < 256"
  by (auto simp: is_upper_def is_upper_code_def)

lemma lower_char_code:
  "char_code (lower_char c) = (if is_upper c then char_code c + 32 else char_code c)"
  using upper_code_less [of c] by (simp add: lower_char_def)

lemma lower_char_not_upper [simp]: "\<not> is_upper (lower_char c)"
  by (auto simp: is_upper_def is_upper_code_def lower_char_code split: if_splits)

lemma lower_char_idem [simp]: "lower_char (lower_char c) = lower_char c"
  by (simp add: lower_char_def [of "lower_char c"])

lemma str_lower_idem [simp]: "str_lower (str_lower s) = str_lower s"
  by (simp add: str_lower_def)

lemma set_str_strip: "set (str_strip s) \<subseteq> set s"
  unfolding str_strip_def by (metis set_dropWhileD set_rev subsetI)

lemma length_str_strip: "length (str_strip s) \<le> length s"
  by (simp add: str_strip_def)
    (metis length_dropWhile_le length_rev order_trans)

lemma split_on_not_Nil [simp]: "split_on d s \<noteq> []"
  by (induction s) (auto split: list.splits)

lemma split_on_free: "w \<in> set (split_on d s) \<Longrightarrow> d \<notin> set w"
  by (induction s arbitrary: w) (auto split: list.splits if_splits)

lemma join_Cons: "ws \<noteq> [] \<Longrightarrow> join_with sep (w # ws) = w @ sep @ join_with sep ws"
  by (cases ws) auto

text \<open>Splitting and joining at the same character is the identity.\<close>

lemma join_split_on: "join_with [d] (split_on d s) = s"
proof (induction s)
  case (Cons c s)
  obtain w ws where sp: "split_on d s = w # ws"
    by (cases "split_on d s") auto
  show ?case
  proof (cases "c = d")
    case True
    with Cons sp show ?thesis by (simp add: join_Cons)
  next
    case False
    with Cons sp show ?thesis by (cases ws) auto
  qed
qed simp

lemma split_on_no_sep: "d \<notin> set s \<Longrightarrow> split_on d s = [s]"
  by (induction s) auto

text \<open>Searching a text that is cut at a character the needle does not have.\<close>

lemma starts_with_sep:
  assumes "c \<notin> set p" shows "starts_with p (a @ c # b) \<longleftrightarrow> starts_with p a"
proof (cases "length p \<le> length a")
  case False
  have "take (length p) (a @ c # b) \<noteq> p"
  proof
    assume eq: "take (length p) (a @ c # b) = p"
    have "c \<in> set (take (length p) (a @ c # b))" using False by (cases "length p - length a") auto
    with eq assms show False by simp
  qed
  moreover have "take (length p) a \<noteq> p" using False by (auto dest: arg_cong [of _ _ length])
  ultimately show ?thesis by (simp add: starts_with_def)
qed (simp add: starts_with_def)

lemma contains_sep:
  assumes "c \<notin> set p" shows "str_contains p (a @ c # b) \<longleftrightarrow> str_contains p a \<or> str_contains p b"
proof (induction a)
  case Nil
  have "str_contains [] b" by (cases b) (simp_all add: starts_with_def)
  moreover have "starts_with p (c # b) \<longleftrightarrow> p = []"
    using starts_with_sep [OF assms, of "[]" b] by (auto simp: starts_with_def)
  ultimately show ?case by auto
next
  case (Cons x a)
  with starts_with_sep [OF assms, of "x # a" b] show ?case by simp
qed

lemma contains_prefix: "str_contains (p @ q) s \<Longrightarrow> str_contains p s"
proof (induction s)
  case (Cons x s)
  have "starts_with p t" if "starts_with (p @ q) t" for t
  proof -
    from that have "take (length p) (take (length (p @ q)) t) = take (length p) (p @ q)"
      by (simp add: starts_with_def)
    then show ?thesis by (simp add: starts_with_def min_def split: if_splits)
  qed
  with Cons show ?case by auto
qed simp

lemma contains_set: "str_contains p s \<Longrightarrow> set p \<subseteq> set s"
proof (induction s)
  case (Cons x s)
  have "set p \<subseteq> set t" if "starts_with p t" for t
    using that by (metis set_take_subset starts_with_def)
  with Cons show ?case by fastforce
qed simp

lemma nat_str_is_digit: "c \<in> set (nat_str n) \<Longrightarrow> is_digit c"
proof (induction n rule: nat_str.induct)
  case (1 n)
  have d: "is_digit (digit_char k)" for k
    using mod_less_divisor [of 10 k] by (simp add: is_digit_def digit_char_def char_code_def)
  from 1 show ?case by (subst (asm) (2) nat_str.simps) (auto simp: d split: if_splits)
qed

lemma lower_nat_str: "str_lower (nat_str n) = nat_str n"
proof -
  have "lower_char c = c" if "is_digit c" for c
    using that by (auto simp: lower_char_def is_upper_def is_upper_code_def is_digit_def)
  then show ?thesis unfolding str_lower_def by (simp add: map_idI nat_str_is_digit)
qed

lemma count_words_cut: "is_space c \<Longrightarrow> count_words b (xs @ c # ys) = count_words b xs + count_words False ys"
  by (induction b xs rule: count_words.induct) auto

lemma count_words_word: "\<forall>c \<in> set w. \<not> is_space c \<Longrightarrow> count_words b w = (if w = [] \<or> b then 0 else 1)"
  by (induction b w rule: count_words.induct) auto

lemma nat_str_no_space: "c \<in> set (nat_str n) \<Longrightarrow> \<not> is_space c"
  using nat_str_is_digit [of c n] by (auto simp: is_digit_def is_space_def is_space_code_def)

end
