(* ===== verification/Security.thy ===== *)
theory Security
  imports PyString Cache Samples
begin

section \<open>Authentication primitives (\<open>security.py\<close>) and request dependencies (\<open>api/deps.py\<close>)\<close>

text \<open>
  Roles and their hierarchy, the two kinds of tokens, API keys and the token blacklist.
  The JWT codec, bcrypt and SHA-256 are third-party code and parameters of the
  definitions: \<open>encode\<close> and \<open>decode\<close> of a token, \<open>verify\<close> and \<open>hash_pw\<close>
  of a password, \<open>sha256\<close> of a key. A claim set is the record \<open>jwt_claims\<close>; times in
  it are seconds, as in a JWT.
\<close>

subsection \<open>Roles\<close>

datatype role = ADMIN | MEMBER | VIEWER

text \<open>
  The program has two role enumerations, \<open>security.Role\<close> and \<open>models.user.UserRole\<close>.
  Both are \<open>(str, Enum)\<close>, whose members hash and compare as the strings of their values, so
  that is what a dictionary lookup goes by.
\<close>

datatype any_role = SecRole role | ModelRole user_role

fun role_value :: "any_role \<Rightarrow> string" where
  "role_value (SecRole ADMIN) = ''admin''"
| "role_value (SecRole MEMBER) = ''member''"
| "role_value (SecRole VIEWER) = ''viewer''"
| "role_value (ModelRole UR_ADMIN) = ''admin''"
| "role_value (ModelRole UR_JUDGE) = ''judge''"
| "role_value (ModelRole UR_VIEWER) = ''viewer''"

definition same_key :: "any_role \<Rightarrow> any_role \<Rightarrow> bool" where
  "same_key a b \<longleftrightarrow> role_value a = role_value b"

definition ROLE_HIERARCHY :: "(any_role \<times> int) list" where
  "ROLE_HIERARCHY = [(SecRole VIEWER, 1), (SecRole MEMBER, 2), (SecRole ADMIN, 3)]"

text \<open>\<open>models/user.py\<close> has a hierarchy of its own, which nothing reads.\<close>

definition USER_ROLE_HIERARCHY :: "(any_role \<times> int) list" where
  "USER_ROLE_HIERARCHY = [(ModelRole UR_VIEWER, 1), (ModelRole UR_JUDGE, 2),
     (ModelRole UR_ADMIN, 3)]"

definition dict_get :: "(any_role \<times> int) list \<Rightarrow> any_role \<Rightarrow> int \<Rightarrow> int" where
  "dict_get d k dflt = (case find (\<lambda>(k', _). same_key k' k) d of
                          None \<Rightarrow> dflt | Some (_, n) \<Rightarrow> n)"

definition has_permission :: "any_role \<Rightarrow> any_role \<Rightarrow> bool" where
  "has_permission have_role required_role \<longleftrightarrow>
     dict_get ROLE_HIERARCHY have_role 0 \<ge> dict_get ROLE_HIERARCHY required_role 0"

subsection \<open>Tokens\<close>

datatype token_type = ACCESS | REFRESH

fun token_type_value :: "token_type \<Rightarrow> string" where
  "token_type_value ACCESS = ''access''"
| "token_type_value REFRESH = ''refresh''"

record jwt_claims =
  jti :: "uuid option"
  sub :: "uuid option"
  org_claim :: "uuid option"
  role_claim :: "string option"
  type_claim :: "string option"
  exp_claim :: "int option"
  iat_claim :: "int option"

record auth_settings =
  jwt_access_token_expire_minutes :: int
  jwt_refresh_token_expire_days :: int
  is_development :: bool

definition default_settings :: auth_settings where
  "default_settings = \<lparr>jwt_access_token_expire_minutes = 30, jwt_refresh_token_expire_days = 7,
     is_development = True\<rparr>"

text \<open>Microseconds to the whole seconds of a JWT date.\<close>

definition seconds :: "timestamp \<Rightarrow> int" where
  "seconds t = t div 1000000"

definition minutes :: "int \<Rightarrow> timestamp" where
  "minutes n = n * 60 * 1000000"

definition days :: "int \<Rightarrow> timestamp" where
  "days n = n * 86400 * 1000000"

definition create_access_token :: "(jwt_claims \<Rightarrow> 'tok) \<Rightarrow> auth_settings \<Rightarrow> uuid \<Rightarrow> timestamp
    \<Rightarrow> uuid \<Rightarrow> uuid \<Rightarrow> any_role \<Rightarrow> timestamp option \<Rightarrow> 'tok" where
  "create_access_token encode st new_jti t user_id org_id role expires_delta =
     (let expire = t + (case expires_delta of
                          Some d \<Rightarrow> if d \<noteq> 0 then d else minutes (jwt_access_token_expire_minutes st)
                        | None \<Rightarrow> minutes (jwt_access_token_expire_minutes st))
      in encode \<lparr>jti = Some new_jti, sub = Some user_id, org_claim = Some org_id,
           role_claim = Some (role_value role), type_claim = Some (token_type_value ACCESS),
           exp_claim = Some (seconds expire), iat_claim = Some (seconds t)\<rparr>)"

definition create_refresh_token :: "(jwt_claims \<Rightarrow> 'tok) \<Rightarrow> auth_settings \<Rightarrow> timestamp
    \<Rightarrow> uuid \<Rightarrow> uuid \<Rightarrow> 'tok" where
  "create_refresh_token encode st t user_id org_id =
     (let expire = t + days (jwt_refresh_token_expire_days st)
      in encode \<lparr>jti = None, sub = Some user_id, org_claim = Some org_id,
           role_claim = None, type_claim = Some (token_type_value REFRESH),
           exp_claim = Some (seconds expire), iat_claim = Some (seconds t)\<rparr>)"

text \<open>What \<open>jose\<close> documents: a token made with the secret decodes to its claims
  until it expires, and is refused afterwards.\<close>

definition jwt_codec :: "(jwt_claims \<Rightarrow> 'tok) \<Rightarrow> (timestamp \<Rightarrow> 'tok \<Rightarrow> exn + jwt_claims) \<Rightarrow> bool" where
  "jwt_codec encode decode \<longleftrightarrow>
     (\<forall>t c. (case exp_claim c of
               None \<Rightarrow> decode t (encode c) = Inr c
             | Some x \<Rightarrow> if x < seconds t then \<not> is_ok (decode t (encode c))
                         else decode t (encode c) = Inr c))"

text \<open>A concrete codec, for the witnesses: the token is its claim set.\<close>

definition plain_decode :: "timestamp \<Rightarrow> jwt_claims \<Rightarrow> exn + jwt_claims" where
  "plain_decode t c =
     (case exp_claim c of
        None \<Rightarrow> Inr c
      | Some x \<Rightarrow> if x < seconds t then Inl (ExternalError ''expired'') else Inr c)"

lemma plain_codec: "jwt_codec (\<lambda>c. c) plain_decode"
  by (auto simp: jwt_codec_def plain_decode_def split: option.splits)

subsection \<open>API keys\<close>

text \<open>\<open>generate_api_key\<close>: the random hexadecimal text is an argument.\<close>

definition generate_api_key :: "(string \<Rightarrow> string) \<Rightarrow> string \<Rightarrow> string \<times> string \<times> string" where
  "generate_api_key sha256 token_hex =
     (let raw = ''ev_'' @ token_hex in (raw, sha256 raw, take 11 raw))"

definition hash_api_key :: "(string \<Rightarrow> string) \<Rightarrow> string \<Rightarrow> string" where
  "hash_api_key sha256 raw_key = sha256 raw_key"

subsection \<open>Blacklist\<close>

definition blacklist_key :: "uuid \<Rightarrow> string" where
  "blacklist_key j = ''blacklist:'' @ nat_str j"

text \<open>The remaining life in whole seconds, at least one.\<close>

definition blacklist_token :: "(timestamp \<Rightarrow> 'tok \<Rightarrow> exn + jwt_claims) \<Rightarrow> timestamp \<Rightarrow> 'tok
    \<Rightarrow> cache_manager \<Rightarrow> cache_manager" where
  "blacklist_token decode t tok m =
     (case decode t tok of
        Inl e \<Rightarrow> m
      | Inr c \<Rightarrow>
        (case (jti c, exp_claim c) of
           (Some j, Some x) \<Rightarrow>
             if x = 0 then m
             else mgr_set (of_int t / 1000000) (blacklist_key j) (JStr ''1'')
                    (max 1 \<lfloor>of_int x - (of_int t / 1000000 :: rat)\<rfloor>) m
         | _ \<Rightarrow> m))"

definition is_token_blacklisted :: "timestamp \<Rightarrow> uuid \<Rightarrow> cache_manager \<Rightarrow> bool" where
  "is_token_blacklisted t j m =
     (if \<not> is_healthy m then False
      else mgr_get (of_int t / 1000000) (blacklist_key j) m \<noteq> None)"

subsection \<open>Pagination and the client address\<close>

text \<open>\<open>get_pagination\<close> clamps what the client sends.\<close>

definition get_pagination :: "int \<Rightarrow> int \<Rightarrow> int \<times> int" where
  "get_pagination page page_size = (max 1 page, min 100 (max 1 page_size))"

definition pagination_offset :: "int \<times> int \<Rightarrow> int" where
  "pagination_offset p = (fst p - 1) * snd p"

definition get_client_ip :: "string option \<Rightarrow> string option \<Rightarrow> string" where
  "get_client_ip forwarded client_host =
     (case forwarded of
        Some f \<Rightarrow> if f \<noteq> [] then str_strip (hd (split_on (CHR '','') f))
                  else (case client_host of Some h \<Rightarrow> h | None \<Rightarrow> ''unknown'')
      | None \<Rightarrow> (case client_host of Some h \<Rightarrow> h | None \<Rightarrow> ''unknown''))"

text \<open>\<open>require_role\<close>: the check runs after the authentication.\<close>

definition require_role :: "role \<Rightarrow> user \<Rightarrow> exn + user" where
  "require_role required u =
     (if \<not> has_permission (ModelRole (user_role u)) (SecRole required)
      then Inl (ForbiddenError ''This action requires role or higher'') else Inr u)"

subsection \<open>Properties\<close>

lemma dict_get_hierarchy:
  "dict_get ROLE_HIERARCHY (SecRole r) 0 = (case r of ADMIN \<Rightarrow> 3 | MEMBER \<Rightarrow> 2 | VIEWER \<Rightarrow> 1)"
  "dict_get ROLE_HIERARCHY (ModelRole u) 0 =
     (case u of UR_ADMIN \<Rightarrow> 3 | UR_JUDGE \<Rightarrow> 0 | UR_VIEWER \<Rightarrow> 1)"
  by (cases r, simp_all add: dict_get_def ROLE_HIERARCHY_def same_key_def)
    (cases u, simp_all add: dict_get_def ROLE_HIERARCHY_def same_key_def)

text \<open>
  The permission check against the roles stored in the database. Administrators pass
  every check and viewers the viewer check, as the hierarchy says, but a judge, the role
  the data model places above a viewer, passes none: the hierarchy of
  \<open>security.py\<close> does not know the role and ranks it 0.
\<close>

theorem judge_has_no_permission:
  "(is_ok (require_role r u) \<longleftrightarrow>
     user_role u = UR_ADMIN \<or> (user_role u = UR_VIEWER \<and> r = VIEWER))
   \<and> dict_get USER_ROLE_HIERARCHY (ModelRole UR_JUDGE) 0 >
     dict_get USER_ROLE_HIERARCHY (ModelRole UR_VIEWER) 0"
proof
  show "is_ok (require_role r u) \<longleftrightarrow>
     user_role u = UR_ADMIN \<or> (user_role u = UR_VIEWER \<and> r = VIEWER)"
    by (cases "user_role u"; cases r; simp add: require_role_def has_permission_def dict_get_hierarchy)
  show "dict_get USER_ROLE_HIERARCHY (ModelRole UR_JUDGE) 0 >
     dict_get USER_ROLE_HIERARCHY (ModelRole UR_VIEWER) 0"
    by (simp add: dict_get_def USER_ROLE_HIERARCHY_def same_key_def)
qed

lemma decode_access:
  assumes "jwt_codec encode decode" "exp_claim c = Some x" "seconds t \<le> x"
  shows "decode t (encode c) = Inr c"
proof -
  have "case exp_claim c of None \<Rightarrow> decode t (encode c) = Inr c
      | Some x \<Rightarrow> if x < seconds t then \<not> is_ok (decode t (encode c))
                  else decode t (encode c) = Inr c"
    using assms(1) unfolding jwt_codec_def by blast
  with assms(2,3) show ?thesis by simp
qed

text \<open>A blacklist entry outlives its token, up to the last second.\<close>

lemma blacklist_entry_lasts:
  fixes t t' x :: int
  assumes "t' + 1000000 \<le> x * 1000000"
  shows "(of_int t' / 1000000 :: rat) <
    of_int t / 1000000 + of_int (max 1 \<lfloor>of_int x - (of_int t / 1000000 :: rat)\<rfloor>)"
proof -
  let ?f = "\<lfloor>of_int x - (of_int t / 1000000 :: rat)\<rfloor>"
  have "(of_int (t' + 1000000) :: rat) \<le> of_int (x * 1000000)"
    using assms by (simp only: of_int_le_iff)
  then have "(of_int t' / 1000000 :: rat) + 1 \<le> of_int x" by simp
  also have "(of_int x :: rat) < of_int t / 1000000 + (of_int ?f + 1)"
    using floor_correct [of "of_int x - (of_int t / 1000000 :: rat)"] by linarith
  finally have "(of_int t' / 1000000 :: rat) < of_int t / 1000000 + of_int ?f" by simp
  also have "(of_int ?f :: rat) \<le> of_int (max 1 ?f)" by simp
  finally show ?thesis by simp
qed

text \<open>
  Revocation of tokens. An access token that is blacklisted while the cache
  answers stays blacklisted until one second before it expires; a refresh token carries
  no \<open>jti\<close>, so blacklisting it writes nothing.
\<close>

theorem blacklist_covers_access_tokens_only:
  assumes "jwt_codec encode decode" "mgr_usable m"
    and "seconds t \<le> x" "0 < x" "t' + 1000000 \<le> x * 1000000"
  shows "is_token_blacklisted t' j (blacklist_token decode t
      (encode \<lparr>jti = Some j, sub = Some u, org_claim = Some org, role_claim = Some r,
         type_claim = Some ''access'', exp_claim = Some x, iat_claim = Some i\<rparr>) m)
   \<and> (0 \<le> jwt_refresh_token_expire_days st \<longrightarrow>
      blacklist_token decode t (create_refresh_token encode st t u org) m = m)"
proof (intro conjI impI)
  let ?c = "\<lparr>jti = Some j, sub = Some u, org_claim = Some org, role_claim = Some r,
     type_claim = Some ''access'', exp_claim = Some x, iat_claim = Some i\<rparr>"
  have d: "decode t (encode ?c) = Inr ?c"
    by (rule decode_access [OF assms(1) _ assms(3)]) simp
  let ?n = "max 1 \<lfloor>of_int x - (of_int t / 1000000 :: rat)\<rfloor>"
  have "mgr_get (of_int t' / 1000000) (blacklist_key j)
      (mgr_set (of_int t / 1000000) (blacklist_key j) (JStr ''1'') ?n m) =
      Some (payload (of_int t / 1000000) ?n (JStr ''1''))"
    by (rule mgr.hit_within_ttl [OF assms(2) _ blacklist_entry_lasts [OF assms(5)]]) simp
  moreover have "is_healthy (mgr_set (of_int t / 1000000) (blacklist_key j) (JStr ''1'') ?n m)"
    using assms(2) by (simp add: is_healthy_def mgr_usable_def mgr_set_def)
  ultimately show "is_token_blacklisted t' j (blacklist_token decode t (encode ?c) m)"
    using assms(4) by (simp add: is_token_blacklisted_def blacklist_token_def d)
next
  let ?x = "seconds (t + days (jwt_refresh_token_expire_days st))"
  let ?c = "\<lparr>jti = None, sub = Some u, org_claim = Some org, role_claim = None,
     type_claim = Some (token_type_value REFRESH), exp_claim = Some ?x,
     iat_claim = Some (seconds t)\<rparr>"
  assume "0 \<le> jwt_refresh_token_expire_days st"
  then have "seconds t \<le> ?x"
    unfolding seconds_def days_def by (intro zdiv_mono1) simp_all
  then have "decode t (encode ?c) = Inr ?c"
    by (intro decode_access [OF assms(1)]) simp_all
  then show "blacklist_token decode t (create_refresh_token encode st t u org) m = m"
    by (simp add: blacklist_token_def create_refresh_token_def)
qed

text \<open>
  Whatever page and size a client asks for, the clamped values give a valid
  \<open>OFFSET\<close> and \<open>LIMIT\<close>: the page of a listing never fails and holds at most
  100 rows.
\<close>

theorem pagination_is_safe:
  "case get_pagination page page_size of (p, n) \<Rightarrow>
     1 \<le> p \<and> 1 \<le> n \<and> n \<le> 100 \<and> pagination_offset (p, n) = (p - 1) * n
     \<and> (\<exists>xs. offset_limit p n t = Inr xs \<and> length xs \<le> 100 \<and> set xs \<subseteq> set t)"
proof -
  define p where "p = max 1 page"
  define n where "n = min 100 (max 1 page_size)"
  have b: "1 \<le> p" "1 \<le> n" "n \<le> 100" by (simp_all add: p_def n_def)
  then have "\<not> (p - 1) * n < 0" by (simp add: not_less)
  then have "offset_limit p n t = Inr (take (nat n) (drop (nat ((p - 1) * n)) t))"
    using b by (simp only: offset_limit_def) simp
  moreover have "set (take (nat n) (drop k t)) \<subseteq> set t" for k
    by (meson in_set_dropD in_set_takeD subsetI)
  ultimately show ?thesis
    using b by (simp add: get_pagination_def pagination_offset_def flip: p_def n_def)
qed

subsection \<open>Witnesses\<close>

definition sample_manager :: cache_manager where
  "sample_manager = \<lparr>reachable = True, entries = Map.empty, has_redis = True, is_connected = True\<rparr>"

theorem blacklist_covers_access_tokens_only_witness:
  "is_token_blacklisted 5000000 7 (blacklist_token plain_decode 1000000
      \<lparr>jti = Some 7, sub = Some 2, org_claim = Some 1, role_claim = Some ''admin'',
         type_claim = Some ''access'', exp_claim = Some 60, iat_claim = Some 1\<rparr> sample_manager)"
  using blacklist_covers_access_tokens_only [OF plain_codec, of sample_manager 1000000 60 5000000
      7 2 1 "''admin''" 1 default_settings]
  by (simp add: mgr_usable_def sample_manager_def seconds_def)

end
