(* ===== verification/Paging.thy ===== *)
theory Paging
  imports Security
begin

section \<open>Pages (\<open>utils/pagination.py\<close>, \<open>schemas/common.py\<close>)\<close>

text \<open>
  The envelope of every paginated response and the two functions that build it, one from the
  rows a query returned and one from a list in memory. The locale \<open>paged_listing\<close> is what a
  client relies on when it walks through the pages; the endpoints of theory \<open>Api\<close>
  interpret it.
\<close>

record 'a paginated_response =
  pg_items :: "'a list"
  pg_total :: int
  pg_page :: int
  pg_page_size :: int
  total_pages :: int
  has_next :: bool
  has_prev :: bool

text \<open>\<open>math.ceil(total / page_size) if total > 0 else 0\<close>.\<close>

definition page_count :: "int \<Rightarrow> int \<Rightarrow> exn + int" where
  "page_count tot n =
     (if tot > 0 then if n = 0 then Inl ZeroDivisionError
                      else Inr \<lceil>(of_int tot :: rat) / of_int n\<rceil>
      else Inr 0)"

definition build_paginated_response :: "'a list \<Rightarrow> int \<Rightarrow> int \<times> int
    \<Rightarrow> exn + 'a paginated_response" where
  "build_paginated_response items tot params =
     (case page_count tot (snd params) of
        Inl e \<Rightarrow> Inl e
      | Inr tp \<Rightarrow> Inr \<lparr>pg_items = items, pg_total = tot, pg_page = fst params,
          pg_page_size = snd params, total_pages = tp, has_next = fst params < tp,
          has_prev = fst params > 1\<rparr>)"

text \<open>\<open>xs[a:b]\<close> counts a negative bound from the end and clips both to the list.\<close>

definition slice_bound :: "int \<Rightarrow> int \<Rightarrow> int" where
  "slice_bound len i = (if i < 0 then max 0 (i + len) else min i len)"

definition py_slice :: "int \<Rightarrow> int \<Rightarrow> 'a list \<Rightarrow> 'a list" where
  "py_slice a b xs =
     (let len = int (length xs); i = slice_bound len a; j = slice_bound len b
      in take (nat (j - i)) (drop (nat i) xs))"

definition paginate_list :: "'a list \<Rightarrow> int \<Rightarrow> int \<Rightarrow> exn + 'a paginated_response" where
  "paginate_list items page page_size =
     (let tot = int (length items)
      in case page_count tot page_size of
           Inl e \<Rightarrow> Inl e
         | Inr tp \<Rightarrow>
             let start = (page - 1) * page_size; stop = start + page_size
             in Inr \<lparr>pg_items = py_slice start stop items, pg_total = tot, pg_page = page,
                  pg_page_size = page_size, total_pages = tp, has_next = page < tp,
                  has_prev = page > 1\<rparr>)"

subsection \<open>Arithmetic of pages\<close>

lemma page_count_Inr: "0 < n \<Longrightarrow> 0 \<le> tot \<Longrightarrow> page_count tot n = Inr \<lceil>(of_int tot :: rat) / of_int n\<rceil>"
  by (simp add: page_count_def)

lemma less_page_count: "0 < n \<Longrightarrow> p < \<lceil>(of_int tot :: rat) / of_int n\<rceil> \<longleftrightarrow> p * n < tot"
proof -
  assume n: "0 < n"
  have "p < \<lceil>(of_int tot :: rat) / of_int n\<rceil> \<longleftrightarrow> (of_int p :: rat) < of_int tot / of_int n"
    by (simp add: less_ceiling_iff)
  also have "\<dots> \<longleftrightarrow> (of_int p :: rat) * of_int n < of_int tot"
    using n by (simp add: pos_less_divide_eq)
  also have "\<dots> \<longleftrightarrow> p * n < tot"
    by (simp only: of_int_mult [symmetric] of_int_less_iff)
  finally show ?thesis .
qed

lemma py_slice_nonneg:
  "0 \<le> a \<Longrightarrow> 0 \<le> n \<Longrightarrow> py_slice a (a + n) xs = take (nat n) (drop (nat a) xs)"
proof -
  assume a: "0 \<le> a" "0 \<le> n"
  show ?thesis
  proof (cases "a \<le> int (length xs)")
    case True
    with a have i: "slice_bound (int (length xs)) a = a" by (simp add: slice_bound_def)
    have "take (nat (min (a + n) (int (length xs)) - a)) (drop (nat a) xs) =
        take (nat n) (drop (nat a) xs)"
    proof (cases "a + n \<le> int (length xs)")
      case False
      with a True have "nat (min (a + n) (int (length xs)) - a) = length (drop (nat a) xs)"
        "length (drop (nat a) xs) \<le> nat n" by auto
      then show ?thesis by simp
    qed (simp add: a)
    with a i show ?thesis by (simp add: py_slice_def slice_bound_def)
  next
    case False
    with a show ?thesis by (simp add: py_slice_def slice_bound_def)
  qed
qed

text \<open>The pages of size \<open>k\<close>, put together.\<close>

lemma concat_pages:
  "concat (map (\<lambda>i. take k (drop (i * k) xs)) [0..<m]) = take (m * k) xs"
proof (induction m)
  case (Suc m)
  have "take (Suc m * k) xs = take (m * k) xs @ take k (drop (m * k) xs)"
    by (simp only: take_add [symmetric]) (simp add: add.commute)
  with Suc show ?case by simp
qed simp

lemma concat_pages_int:
  assumes "0 < n" "int (length xs) \<le> m * n" "0 \<le> m"
  shows "concat (map (\<lambda>p. take (nat n) (drop (nat ((p - 1) * n)) xs)) [1..m]) = xs"
proof -
  have "[1..m] = map (\<lambda>i. int i + 1) [0..<nat m]"
  proof (rule nth_equalityI)
    fix i assume "i < length [1..m]"
    then show "[1..m] ! i = map (\<lambda>i. int i + 1) [0..<nat m] ! i"
      by (simp add: nth_upto)
  qed simp
  then have "map (\<lambda>p. take (nat n) (drop (nat ((p - 1) * n)) xs)) [1..m] =
      map (\<lambda>i. take (nat n) (drop (i * nat n) xs)) [0..<nat m]"
    using assms(1) by (simp add: comp_def nat_mult_distrib)
  moreover have "length xs \<le> nat m * nat n"
    using assms by (metis nat_int nat_mono nat_mult_distrib)
  ultimately show ?thesis by (simp add: concat_pages)
qed

subsection \<open>The contract of a paginated listing\<close>

fun items_of :: "exn + 'a paginated_response \<Rightarrow> 'a list" where
  "items_of (Inl e) = []"
| "items_of (Inr r) = pg_items r"

text \<open>A client that reads the first page and then all pages it announces.\<close>

definition all_pages :: "(int \<Rightarrow> int \<Rightarrow> exn + 'a paginated_response) \<Rightarrow> int \<Rightarrow> 'a list" where
  "all_pages page_of n = (case page_of 1 n of
     Inl e \<Rightarrow> []
   | Inr r \<Rightarrow> concat (map (\<lambda>p. items_of (page_of p n)) [1..total_pages r]))"

locale paged_listing =
  fixes page_of :: "int \<Rightarrow> int \<Rightarrow> exn + 'a paginated_response"
    and rows :: "'a list"
  assumes page_of: "1 \<le> p \<Longrightarrow> 1 \<le> n \<Longrightarrow> page_of p n = build_paginated_response
      (take (nat n) (drop (nat ((p - 1) * n)) rows)) (int (length rows)) (p, n)"
begin

lemma page_fields:
  assumes "1 \<le> p" "1 \<le> n"
  shows "\<exists>r. page_of p n = Inr r \<and> pg_items r = take (nat n) (drop (nat ((p - 1) * n)) rows)
    \<and> pg_total r = int (length rows) \<and> total_pages r = \<lceil>(of_int (int (length rows)) :: rat) / of_int n\<rceil>
    \<and> (has_next r \<longleftrightarrow> p * n < int (length rows)) \<and> (has_prev r \<longleftrightarrow> p > 1)"
proof -
  have "0 < n" using assms(2) by simp
  then show ?thesis
    using page_of [OF assms] less_page_count [of n p "int (length rows)"]
    by (simp add: build_paginated_response_def page_count_Inr)
qed

lemma page_is_full:
  assumes "1 \<le> p" "1 \<le> n" "page_of p n = Inr r"
  shows "int (length (pg_items r)) = max 0 (min n (int (length rows) - (p - 1) * n))"
    and "has_next r \<Longrightarrow> int (length (pg_items r)) = n"
proof -
  from page_fields [OF assms(1,2)] assms(3)
  have i: "pg_items r = take (nat n) (drop (nat ((p - 1) * n)) rows)"
    and h: "has_next r \<longleftrightarrow> p * n < int (length rows)" by auto
  have nn: "0 \<le> (p - 1) * n" using assms(1,2) by simp
  then show l: "int (length (pg_items r)) = max 0 (min n (int (length rows) - (p - 1) * n))"
    using assms(2) i by auto
  assume "has_next r"
  with h have "n < int (length rows) - (p - 1) * n" by (simp add: algebra_simps)
  with l assms(2) show "int (length (pg_items r)) = n" by simp
qed

lemma pages_cover:
  assumes "1 \<le> n" "page_of 1 n = Inr r"
  shows "concat (map (\<lambda>p. items_of (page_of p n)) [1..total_pages r]) = rows"
proof -
  let ?m = "total_pages r"
  have n: "0 < n" using assms(1) by simp
  from page_fields [of 1 n] assms
  have m: "?m = \<lceil>(of_int (int (length rows)) :: rat) / of_int n\<rceil>" by auto
  have "\<not> ?m < \<lceil>(of_int (int (length rows)) :: rat) / of_int n\<rceil>" using m by simp
  then have "int (length rows) \<le> ?m * n"
    using less_page_count [OF n, of ?m "int (length rows)"] by linarith
  moreover have "0 \<le> ?m"
    using n m by (simp add: zero_le_ceiling less_le_trans [of "- 1" 0])
  ultimately have "concat (map (\<lambda>p. take (nat n) (drop (nat ((p - 1) * n)) rows)) [1..?m]) = rows"
    by (rule concat_pages_int [OF n])
  moreover have "map (\<lambda>p. items_of (page_of p n)) [1..?m] =
      map (\<lambda>p. take (nat n) (drop (nat ((p - 1) * n)) rows)) [1..?m]"
  proof (rule map_cong [OF refl])
    fix p assume "p \<in> set [1..?m]"
    then have "1 \<le> p" by simp
    from page_fields [OF this assms(1)]
    show "items_of (page_of p n) = take (nat n) (drop (nat ((p - 1) * n)) rows)" by auto
  qed
  ultimately show ?thesis by (simp only:)
qed

lemma all_pages_rows: "1 \<le> n \<Longrightarrow> all_pages page_of n = rows"
  using page_fields [of 1 n] pages_cover [of n] by (auto simp: all_pages_def)

lemma pages_agree_with_list:
  "1 \<le> p \<Longrightarrow> 1 \<le> n \<Longrightarrow> page_of p n = paginate_list rows p n"
  by (simp add: page_of build_paginated_response_def paginate_list_def Let_def py_slice_nonneg
      split: sum.splits)

end

lemma paginate_list_page: "1 \<le> p \<Longrightarrow> 1 \<le> n \<Longrightarrow> paginate_list xs p n = build_paginated_response
    (take (nat n) (drop (nat ((p - 1) * n)) xs)) (int (length xs)) (p, n)"
  by (simp add: build_paginated_response_def paginate_list_def Let_def py_slice_nonneg
      split: sum.splits)

interpretation mem: paged_listing "paginate_list xs" xs for xs
  by unfold_locales (rule paginate_list_page)

text \<open>What a query with OFFSET and LIMIT gives for clamped parameters.\<close>

lemma offset_limit_page:
  "1 \<le> p \<Longrightarrow> 1 \<le> n \<Longrightarrow>
   offset_limit p n t = Inr (take (nat n) (drop (nat ((p - 1) * n)) t))"
proof -
  assume "1 \<le> p" "1 \<le> n"
  then have "0 \<le> (p - 1) * n" by simp
  then show ?thesis using \<open>1 \<le> n\<close> by (simp only: offset_limit_def) simp
qed

text \<open>
  \<open>get_pagination\<close> repairs any page number and any size the client sends; without it a
  size of zero would divide by zero and a page of zero would read from the end of a list.
\<close>

lemma get_pagination_valid:
  "get_pagination page page_size = (p, n) \<Longrightarrow> 1 \<le> p \<and> 1 \<le> n \<and> n \<le> 100"
  by (auto simp: get_pagination_def)

end
