(* ===== verification/Csv.thy ===== *)
theory Csv
  imports PyString
begin

section \<open>Writing CSV\<close>

text \<open>
  \<open>csv.writer\<close> in the default dialect, which the exports use: fields are separated by
  commas, a field with a comma, a quote or a line break is quoted and its quotes are doubled,
  every row ends with CR LF, and a row of one empty field is written as two quotes. The reader
  states what a file means to a program that reads it; the round trip below makes the
  writing unambiguous.
\<close>

definition csv_special :: "char \<Rightarrow> bool" where
  "csv_special c \<longleftrightarrow> c \<in> {CHR '','', CHR 0x22, CHR 0x0D, CHR 0x0A}"

fun csv_escape :: "string \<Rightarrow> string" where
  "csv_escape [] = []"
| "csv_escape (c # cs) =
     (if c = CHR 0x22 then CHR 0x22 # CHR 0x22 # csv_escape cs else c # csv_escape cs)"

definition csv_quote :: "string \<Rightarrow> string" where
  "csv_quote s = CHR 0x22 # csv_escape s @ [CHR 0x22]"

definition csv_field :: "string \<Rightarrow> string" where
  "csv_field s = (if list_ex csv_special s then csv_quote s else s)"

definition csv_row :: "string list \<Rightarrow> string" where
  "csv_row fs = (if fs = [[]] then csv_quote [] else join_with '','' (map csv_field fs))
     @ [CHR 0x0D, CHR 0x0A]"

definition csv_rows :: "string list list \<Rightarrow> string" where
  "csv_rows rs = concat (map csv_row rs)"

subsection \<open>Reading\<close>

datatype csv_state = Field_start | Plain | Quoted | Quote_seen

fun csv_read :: "csv_state \<Rightarrow> string \<Rightarrow> string list \<Rightarrow> string \<Rightarrow> string list list" where
  "csv_read st f row [] = (if st = Field_start \<and> row = [] then [] else [row @ [f]])"
| "csv_read Quoted f row (c # cs) =
     (if c = CHR 0x22 then csv_read Quote_seen f row cs else csv_read Quoted (f @ [c]) row cs)"
| "csv_read st f row (c # cs) =
     (if c = CHR 0x22 \<and> st = Field_start then csv_read Quoted f row cs
      else if c = CHR 0x22 \<and> st = Quote_seen then csv_read Quoted (f @ [c]) row cs
      else if c = CHR '','' then csv_read Field_start [] (row @ [f]) cs
      else if c = CHR 0x0A then
        (if st = Field_start \<and> row = [] then [] else row @ [f]) # csv_read Field_start [] [] cs
      else if c = CHR 0x0D then csv_read st f row cs
      else csv_read Plain (f @ [c]) row cs)"

definition csv_parse :: "string \<Rightarrow> string list list" where
  "csv_parse s = csv_read Field_start [] [] s"

subsection \<open>The round trip\<close>

lemma read_escaped: "csv_read Quoted f row (csv_escape s @ cs) = csv_read Quoted (f @ s) row cs"
  by (induction s arbitrary: f) simp_all

lemma read_plain: "\<not> list_ex csv_special s \<Longrightarrow> csv_read Plain f row (s @ cs) = csv_read Plain (f @ s) row cs"
  by (induction s arbitrary: f) (simp_all add: csv_special_def)

text \<open>After a field the reader is at its end, in a state that is not the start of a field
  unless the field was empty.\<close>

lemma read_field:
  "\<exists>st. st \<noteq> Quoted \<and> (st = Field_start \<longrightarrow> s = []) \<and>
     (\<forall>c cs. c \<noteq> CHR 0x22 \<longrightarrow>
        csv_read Field_start [] row (csv_field s @ c # cs) = csv_read st s row (c # cs))"
proof (cases "list_ex csv_special s")
  case True
  then have "csv_read Field_start [] row (csv_field s @ c # cs) = csv_read Quote_seen s row (c # cs)"
    for c cs
    by (simp add: csv_field_def csv_quote_def read_escaped)
  then show ?thesis by (intro exI [of _ Quote_seen]) simp
next
  case False
  show ?thesis
  proof (cases s)
    case Nil
    then show ?thesis by (intro exI [of _ Field_start]) (simp add: csv_field_def)
  next
    case (Cons a as)
    with False have "csv_read Field_start [] row (csv_field s @ c # cs) = csv_read Plain s row (c # cs)"
      for c cs
      using read_plain [of as "[a]" row "c # cs"] by (simp add: csv_field_def csv_special_def)
    with Cons show ?thesis by (intro exI [of _ Plain]) simp
  qed
qed

lemma read_field_comma:
  "csv_read Field_start [] row (csv_field s @ CHR '','' # cs) = csv_read Field_start [] (row @ [s]) cs"
proof -
  from read_field [of s row] obtain st where st: "st \<noteq> Quoted"
    "csv_read Field_start [] row (csv_field s @ CHR '','' # cs) = csv_read st s row (CHR '','' # cs)"
    by auto
  from st(1) show ?thesis unfolding st(2) by (cases st) simp_all
qed

lemma read_field_end:
  "row \<noteq> [] \<or> s \<noteq> [] \<Longrightarrow> csv_read Field_start [] row (csv_field s @ CHR 0x0D # CHR 0x0A # cs) =
     (row @ [s]) # csv_read Field_start [] [] cs"
proof -
  assume ne: "row \<noteq> [] \<or> s \<noteq> []"
  from read_field [of s row] obtain st where st: "st \<noteq> Quoted" "st = Field_start \<longrightarrow> s = []"
    "csv_read Field_start [] row (csv_field s @ CHR 0x0D # CHR 0x0A # cs) =
       csv_read st s row (CHR 0x0D # CHR 0x0A # cs)"
    by auto
  from st(1,2) ne show ?thesis unfolding st(3) by (cases st) simp_all
qed

lemma read_fields:
  "fs \<noteq> [] \<Longrightarrow> row @ fs \<noteq> [[]] \<Longrightarrow>
   csv_read Field_start [] row (join_with '','' (map csv_field fs) @ CHR 0x0D # CHR 0x0A # cs) =
     (row @ fs) # csv_read Field_start [] [] cs"
proof (induction fs arbitrary: row)
  case (Cons f fs)
  show ?case
  proof (cases fs)
    case Nil
    with Cons.prems show ?thesis by (simp add: read_field_end)
  next
    case (Cons g gs)
    then have "join_with '','' (map csv_field (f # fs)) =
        csv_field f @ CHR '','' # join_with '','' (map csv_field fs)" by simp
    with Cons Cons.IH [of "row @ [f]"] show ?thesis by (simp add: read_field_comma)
  qed
qed simp

lemma read_row: "csv_read Field_start [] [] (csv_row fs @ cs) = fs # csv_read Field_start [] [] cs"
proof -
  consider "fs = []" | "fs = [[]]" | "fs \<noteq> []" "fs \<noteq> [[]]" by blast
  then show ?thesis
  proof cases
    case 3
    then show ?thesis using read_fields [of fs "[]" cs] by (simp add: csv_row_def)
  qed (simp_all add: csv_row_def csv_quote_def)
qed

lemma csv_roundtrip: "csv_parse (csv_rows rs) = rs"
  unfolding csv_parse_def csv_rows_def
  by (induction rs) (simp_all add: read_row)

lemma csv_rows_inj: "csv_rows rs = csv_rows rs' \<Longrightarrow> rs = rs'"
  by (metis csv_roundtrip)

end
