(* ===== verification/Results.thy ===== *)
theory Results
  imports EvaluationService DatasetService Scoring Paging Csv
begin

section \<open>Results of a run (\<open>services/result_service.py\<close>, \<open>api/v1/results.py\<close>)\<close>

text \<open>
  What a client reads of a finished or running evaluation, and its export to the object store.
  The state of an export is the store, a map from keys to content type and text. Parameters:
  \<open>collation\<close> (the order the database gives to names), \<open>dumps\<close> and \<open>dumps_indent\<close>
  (orjson), \<open>str_float\<close> (the text of a float), \<open>s3_put\<close> and \<open>presign\<close> (the S3
  client, which may raise). Text is written for its UTF-8 bytes.
\<close>

subsection \<open>The service\<close>

definition verify_run :: "db \<Rightarrow> uuid \<Rightarrow> uuid \<Rightarrow> exn + evaluation_run" where
  "verify_run db rid org =
     (case scalar_one_or_none (select_where
             (\<lambda>r. ident r = rid \<and> organization_id r = org \<and> active r) (runs db)) of
        Inl e \<Rightarrow> Inl e
      | Inr None \<Rightarrow> Inl (NotFoundError ''Evaluation run'' rid)
      | Inr (Some r) \<Rightarrow> Inr r)"

definition progress_pct :: "evaluation_run \<Rightarrow> rat" where
  "progress_pct r =
     (if total_workers r = 0 then 0
      else py_round 2 (of_int (completed_workers r) / of_int (total_workers r) * 100))"

text \<open>The queries behind the listings.\<close>

definition listed_workers :: "uuid \<Rightarrow> db \<Rightarrow> worker_result list" where
  "listed_workers rid db = order_by_asc created_at
     (select_where (\<lambda>w. wr_run_id w = rid \<and> active w) (worker_results db))"

definition listed_claims :: "uuid \<Rightarrow> uuid \<Rightarrow> string option \<Rightarrow> db \<Rightarrow> claim list" where
  "listed_claims rid org cat db = select_where (\<lambda>c. claim_run_id c = rid \<and> organization_id c = org
     \<and> active c \<and> (case cat of None \<Rightarrow> True | Some k \<Rightarrow> k = [] \<or> category c = k)) (claims db)"

definition listed_contradictions :: "uuid \<Rightarrow> uuid \<Rightarrow> db \<Rightarrow> contradiction list" where
  "listed_contradictions rid org db = sort_key (\<lambda>c. - severity c)
     (select_where (\<lambda>c. con_run_id c = rid \<and> organization_id c = org \<and> active c) (contradictions db))"

definition listed_scores :: "(string \<Rightarrow> nat) \<Rightarrow> uuid \<Rightarrow> uuid \<Rightarrow> db \<Rightarrow> score list" where
  "listed_scores collation rid org db = order_by_asc (\<lambda>s. collation (dimension s))
     (select_where (\<lambda>s. score_run_id s = rid \<and> organization_id s = org \<and> active s) (scores db))"

definition get_worker_results_for_run :: "uuid \<Rightarrow> uuid \<Rightarrow> db \<Rightarrow> exn + worker_result list" where
  "get_worker_results_for_run rid org db =
     (case verify_run db rid org of Inl e \<Rightarrow> Inl e | Inr _ \<Rightarrow> Inr (listed_workers rid db))"

definition get_claims_for_run :: "uuid \<Rightarrow> uuid \<Rightarrow> string option \<Rightarrow> int \<Rightarrow> int \<Rightarrow> db
    \<Rightarrow> exn + (claim list \<times> nat)" where
  "get_claims_for_run rid org cat page page_size db =
     (case verify_run db rid org of
        Inl e \<Rightarrow> Inl e
      | Inr _ \<Rightarrow>
          let rows = listed_claims rid org cat db
          in case offset_limit page page_size (order_by_asc created_at rows) of
               Inl e \<Rightarrow> Inl e
             | Inr items \<Rightarrow> Inr (items, length rows))"

definition get_contradictions_for_run :: "uuid \<Rightarrow> uuid \<Rightarrow> db \<Rightarrow> exn + contradiction list" where
  "get_contradictions_for_run rid org db =
     (case verify_run db rid org of Inl e \<Rightarrow> Inl e | Inr _ \<Rightarrow> Inr (listed_contradictions rid org db))"

definition service_scores_for_run :: "(string \<Rightarrow> nat) \<Rightarrow> uuid \<Rightarrow> uuid \<Rightarrow> db
    \<Rightarrow> exn + score list" where
  "service_scores_for_run collation rid org db =
     (case verify_run db rid org of Inl e \<Rightarrow> Inl e | Inr _ \<Rightarrow> Inr (listed_scores collation rid org db))"

record run_summary =
  sm_run_id :: uuid
  sm_status :: run_status
  sm_overall_score :: "rat option"
  sm_total_workers :: int
  sm_completed_workers :: int
  sm_failed_workers :: int
  sm_total_claims :: nat
  sm_total_contradictions :: nat
  sm_scores :: "score list"
  sm_progress_pct :: rat

definition get_results_summary :: "(string \<Rightarrow> nat) \<Rightarrow> uuid \<Rightarrow> uuid \<Rightarrow> db \<Rightarrow> exn + run_summary" where
  "get_results_summary collation rid org db =
     (case verify_run db rid org of
        Inl e \<Rightarrow> Inl e
      | Inr r \<Rightarrow>
          let claim_count = row_count (\<lambda>c. claim_run_id c = rid \<and> active c) (claims db);
              contradiction_count = row_count (\<lambda>c. con_run_id c = rid \<and> active c) (contradictions db)
          in case service_scores_for_run collation rid org db of
               Inl e \<Rightarrow> Inl e
             | Inr ss \<Rightarrow> Inr \<lparr>sm_run_id = rid, sm_status = run_status r,
                 sm_overall_score = overall_score r, sm_total_workers = total_workers r,
                 sm_completed_workers = completed_workers r, sm_failed_workers = failed_workers r,
                 sm_total_claims = claim_count, sm_total_contradictions = contradiction_count,
                 sm_scores = ss, sm_progress_pct = progress_pct r\<rparr>)"

subsection \<open>The export\<close>

fun run_status_value :: "run_status \<Rightarrow> string" where
  "run_status_value PENDING = ''pending''"
| "run_status_value RUNNING = ''running''"
| "run_status_value COMPLETED = ''completed''"
| "run_status_value FAILED = ''failed''"
| "run_status_value CANCELLED = ''cancelled''"

definition json_opt :: "string option \<Rightarrow> json" where
  "json_opt s = (case s of None \<Rightarrow> JNull | Some x \<Rightarrow> JStr x)"

definition worker_export :: "worker_result \<Rightarrow> json" where
  "worker_export w = JObj [(''worker_type'', JStr (worker_type w)),
     (''status'', JStr (worker_status_value (wr_status w))),
     (''processing_time_ms'', JNum (of_int (processing_time_ms w))),
     (''output_data'', output_data w), (''error_message'', json_opt (wr_error_message w))]"

definition claim_export :: "claim \<Rightarrow> json" where
  "claim_export c = JObj [(''claim_text'', JStr (claim_text c)), (''category'', JStr (category c)),
     (''confidence_score'', JNum (confidence_score c)),
     (''verification_status'', JStr (verification_status c)),
     (''source_reference'', json_opt (source_reference c))]"

definition contradiction_export :: "contradiction \<Rightarrow> json" where
  "contradiction_export c = JObj [(''contradiction_type'', JStr (contradiction_type c)),
     (''severity'', JNum (severity c)), (''explanation'', JStr (explanation c))]"

definition score_export :: "score \<Rightarrow> json" where
  "score_export s = JObj [(''dimension'', JStr (dimension s)), (''value'', JNum (score_value s)),
     (''weight'', JNum (weight s)), (''rationale'', json_opt (rationale s))]"

definition export_payload :: "uuid \<Rightarrow> evaluation_run \<Rightarrow> worker_result list \<Rightarrow> claim list
    \<Rightarrow> contradiction list \<Rightarrow> score list \<Rightarrow> json" where
  "export_payload rid r ws cs cts ss = JObj [
     (''run_id'', JStr (nat_str rid)), (''status'', JStr (run_status_value (run_status r))),
     (''overall_score'', case overall_score r of None \<Rightarrow> JNull | Some x \<Rightarrow> JNum x),
     (''workers'', JArr (map worker_export ws)), (''claims'', JArr (map claim_export cs)),
     (''contradictions'', JArr (map contradiction_export cts)),
     (''scores'', JArr (map score_export ss))]"

definition csv_header :: "string list" where
  "csv_header = [''dimension'', ''value'', ''weight'', ''rationale'']"

definition score_row :: "(rat \<Rightarrow> string) \<Rightarrow> score \<Rightarrow> string list" where
  "score_row str_float s = [dimension s, str_float (score_value s), str_float (weight s),
     (case rationale s of None \<Rightarrow> [] | Some x \<Rightarrow> x)]"

definition export_data :: "(json \<Rightarrow> string) \<Rightarrow> (json \<Rightarrow> string) \<Rightarrow> (rat \<Rightarrow> string) \<Rightarrow> string
    \<Rightarrow> json \<Rightarrow> score list \<Rightarrow> string" where
  "export_data dumps_indent dumps str_float fmt body ss =
     (if fmt = ''json'' then dumps_indent body
      else if fmt = ''csv'' then csv_rows (csv_header # map (score_row str_float) ss)
      else dumps body)"

definition get_export_download_url :: "(string \<Rightarrow> exn + string) \<Rightarrow> uuid \<Rightarrow> uuid \<Rightarrow> string
    \<Rightarrow> exn + string" where
  "get_export_download_url presign org rid fmt = presign (generate_export_key org rid fmt)"

text \<open>What the code outside the repository does in an export.\<close>

record export_env =
  ee_collation :: "string \<Rightarrow> nat"
  ee_dumps_indent :: "json \<Rightarrow> string"
  ee_dumps :: "json \<Rightarrow> string"
  ee_str_float :: "rat \<Rightarrow> string"
  ee_sha256 :: "string \<Rightarrow> string"
  ee_s3_put :: "string \<Rightarrow> exn + unit"
  ee_presign :: "string \<Rightarrow> exn + string"

type_synonym store = "string \<rightharpoonup> string \<times> string"

definition export_text :: "export_env \<Rightarrow> uuid \<Rightarrow> uuid \<Rightarrow> string \<Rightarrow> db \<Rightarrow> exn + string" where
  "export_text x rid org fmt db =
     (case verify_run db rid org of Inl e \<Rightarrow> Inl e
      | Inr r \<Rightarrow> (case get_worker_results_for_run rid org db of Inl e \<Rightarrow> Inl e
      | Inr ws \<Rightarrow> (case get_claims_for_run rid org None 1 10000 db of Inl e \<Rightarrow> Inl e
      | Inr (cs, _) \<Rightarrow> (case get_contradictions_for_run rid org db of Inl e \<Rightarrow> Inl e
      | Inr cts \<Rightarrow> (case service_scores_for_run (ee_collation x) rid org db of Inl e \<Rightarrow> Inl e
      | Inr ss \<Rightarrow> Inr (export_data (ee_dumps_indent x) (ee_dumps x) (ee_str_float x) fmt
                        (export_payload rid r ws cs cts ss) ss))))))"

definition export_results :: "export_env \<Rightarrow> uuid \<Rightarrow> uuid \<Rightarrow> string \<Rightarrow> db \<Rightarrow> store
    \<Rightarrow> (store, string) outcome" where
  "export_results x rid org fmt db store =
     (case export_text x rid org fmt db of
        Inl e \<Rightarrow> (Inl e, store)
      | Inr data \<Rightarrow>
        (case ee_s3_put x (generate_export_key org rid fmt) of
           Inl e \<Rightarrow> (Inl e, store)
         | Inr _ \<Rightarrow>
             let store1 = snd (upload_export_data (ee_sha256 x) org rid data fmt store)
             in (get_export_download_url (ee_presign x) org rid fmt, store1)))"

subsection \<open>The endpoints\<close>

text \<open>
  A response schema reads its fields from the attributes of the row; here every field is
  a column of its model. The user is the one the authentication returned.
\<close>

definition schema_response :: "string \<Rightarrow> string list \<Rightarrow> string list \<Rightarrow> 'a \<Rightarrow> exn + 'a" where
  "schema_response schema flds attrs x =
     (if list_all (\<lambda>f. f \<in> set attrs) flds then Inr x else Inl (ValueError schema))"

fun schema_responses :: "string \<Rightarrow> string list \<Rightarrow> string list \<Rightarrow> 'a list \<Rightarrow> exn + 'a list" where
  "schema_responses schema flds attrs [] = Inr []"
| "schema_responses schema flds attrs (x # xs) =
     (case schema_response schema flds attrs x of
        Inl e \<Rightarrow> Inl e
      | Inr r \<Rightarrow> (case schema_responses schema flds attrs xs of Inl e \<Rightarrow> Inl e | Inr rs \<Rightarrow> Inr (r # rs)))"

definition base_columns :: "string list" where
  "base_columns = [''id'', ''created_at'', ''updated_at'', ''deleted_at'']"

definition worker_result_columns :: "string list" where
  "worker_result_columns = base_columns @ [''evaluation_run_id'', ''organization_id'',
     ''worker_type'', ''worker_id'', ''celery_task_id'', ''status'', ''processing_time_ms'',
     ''output_data'', ''error_message'']"

definition worker_result_response_fields :: "string list" where
  "worker_result_response_fields = [''created_at'', ''updated_at'', ''id'', ''evaluation_run_id'',
     ''worker_type'', ''status'', ''processing_time_ms'', ''output_data'', ''error_message'']"

definition claim_columns :: "string list" where
  "claim_columns = base_columns @ [''evaluation_run_id'', ''submission_id'', ''organization_id'',
     ''claim_text'', ''category'', ''source_reference'', ''confidence_score'',
     ''verification_status'', ''evidence'', ''claim_metadata'']"

definition claim_response_fields :: "string list" where
  "claim_response_fields = [''created_at'', ''updated_at'', ''id'', ''evaluation_run_id'',
     ''claim_text'', ''category'', ''source_reference'', ''confidence_score'',
     ''verification_status'', ''evidence'']"

definition contradiction_columns :: "string list" where
  "contradiction_columns = base_columns @ [''evaluation_run_id'', ''organization_id'',
     ''claim_a_id'', ''claim_b_id'', ''contradiction_type'', ''severity'', ''explanation'',
     ''evidence'']"

definition contradiction_response_fields :: "string list" where
  "contradiction_response_fields = [''created_at'', ''updated_at'', ''id'', ''evaluation_run_id'',
     ''claim_a_id'', ''claim_b_id'', ''contradiction_type'', ''severity'', ''explanation'']"

definition score_columns :: "string list" where
  "score_columns = base_columns @ [''evaluation_run_id'', ''organization_id'', ''dimension'',
     ''value'', ''weight'', ''rationale'', ''breakdown'']"

definition score_response_fields :: "string list" where
  "score_response_fields = [''created_at'', ''updated_at'', ''id'', ''evaluation_run_id'',
     ''dimension'', ''value'', ''weight'', ''rationale'', ''breakdown'']"

definition list_worker_results :: "user \<Rightarrow> uuid \<Rightarrow> db \<Rightarrow> exn + worker_result list" where
  "list_worker_results u rid db =
     (case get_worker_results_for_run rid (organization_id u) db of
        Inl e \<Rightarrow> Inl e
      | Inr ws \<Rightarrow> schema_responses ''WorkerResultResponse'' worker_result_response_fields
                    worker_result_columns ws)"

definition list_claims :: "user \<Rightarrow> uuid \<Rightarrow> int \<times> int \<Rightarrow> string option \<Rightarrow> db
    \<Rightarrow> exn + claim paginated_response" where
  "list_claims u rid pagination cat db =
     (case get_claims_for_run rid (organization_id u) cat (fst pagination) (snd pagination) db of
        Inl e \<Rightarrow> Inl e
      | Inr (cs, tot) \<Rightarrow>
        (case schema_responses ''ClaimResponse'' claim_response_fields claim_columns cs of
           Inl e \<Rightarrow> Inl e
         | Inr items \<Rightarrow> build_paginated_response items (int tot) pagination))"

definition list_contradictions :: "user \<Rightarrow> uuid \<Rightarrow> db \<Rightarrow> exn + contradiction list" where
  "list_contradictions u rid db =
     (case get_contradictions_for_run rid (organization_id u) db of
        Inl e \<Rightarrow> Inl e
      | Inr cs \<Rightarrow> schema_responses ''ContradictionResponse'' contradiction_response_fields
                    contradiction_columns cs)"

definition list_scores :: "(string \<Rightarrow> nat) \<Rightarrow> user \<Rightarrow> uuid \<Rightarrow> db \<Rightarrow> exn + score list" where
  "list_scores collation u rid db =
     (case service_scores_for_run collation rid (organization_id u) db of
        Inl e \<Rightarrow> Inl e
      | Inr ss \<Rightarrow> schema_responses ''ScoreResponse'' score_response_fields score_columns ss)"

definition get_summary :: "(string \<Rightarrow> nat) \<Rightarrow> user \<Rightarrow> uuid \<Rightarrow> db \<Rightarrow> exn + run_summary" where
  "get_summary collation u rid db =
     (case get_results_summary collation rid (organization_id u) db of
        Inl e \<Rightarrow> Inl e
      | Inr sm \<Rightarrow>
        (case schema_responses ''ScoreResponse'' score_response_fields score_columns (sm_scores sm) of
           Inl e \<Rightarrow> Inl e
         | Inr ss \<Rightarrow> Inr (sm\<lparr>sm_scores := ss\<rparr>)))"

record export_response =
  ex_export_id :: string
  ex_status :: string
  ex_download_url :: string

definition export_endpoint :: "export_env \<Rightarrow> user \<Rightarrow> uuid \<Rightarrow> string \<Rightarrow> db \<Rightarrow> store
    \<Rightarrow> (store, export_response) outcome" where
  "export_endpoint x u rid fmt db store =
     (case export_results x rid (organization_id u) fmt db store of
        (Inl e, s) \<Rightarrow> (Inl e, s)
      | (Inr url, s) \<Rightarrow> (Inr \<lparr>ex_export_id = nat_str rid, ex_status = ''completed'',
                                ex_download_url = url\<rparr>, s))"

subsection \<open>Lookups and responses\<close>

lemma verify_fetch: "verify_run db rid org = fetch_scoped ''Evaluation run'' rid org (runs db)"
  by (simp add: verify_run_def fetch_scoped_def lookup_where_def)

interpretation res: scoped_lookup runs "''Evaluation run''" "\<lambda>rid org db. verify_run db rid org"
  by unfold_locales (rule verify_fetch)

lemma schema_responses_ok:
  "list_all (\<lambda>f. f \<in> set attrs) flds \<Longrightarrow> schema_responses sc flds attrs xs = Inr xs"
  by (induction xs) (simp_all add: schema_response_def)

lemma result_responses [simp]:
  "schema_responses sc worker_result_response_fields worker_result_columns ws = Inr ws"
  "schema_responses sc claim_response_fields claim_columns cs = Inr cs"
  "schema_responses sc contradiction_response_fields contradiction_columns cts = Inr cts"
  "schema_responses sc score_response_fields score_columns ss = Inr ss"
  by (rule schema_responses_ok, simp add: base_columns_def worker_result_response_fields_def
      worker_result_columns_def claim_response_fields_def claim_columns_def
      contradiction_response_fields_def contradiction_columns_def score_response_fields_def
      score_columns_def)+

lemmas result_endpoints = list_worker_results_def list_claims_def list_contradictions_def
  list_scores_def get_summary_def export_endpoint_def export_results_def export_text_def
  get_worker_results_for_run_def get_claims_for_run_def get_contradictions_for_run_def
  service_scores_for_run_def get_results_summary_def

text \<open>The pages of the claims listing.\<close>

lemma claims_paged:
  assumes "verify_run db rid (organization_id u) = Inr r"
  shows "paged_listing (\<lambda>p n. list_claims u rid (p, n) cat db)
    (order_by_asc created_at (listed_claims rid (organization_id u) cat db))"
  by unfold_locales (simp add: result_endpoints assms Let_def offset_limit_page order_by_asc_def)

lemma progress_pct_range:
  assumes "0 \<le> completed_workers r" "completed_workers r \<le> total_workers r"
  shows "0 \<le> progress_pct r" and "progress_pct r \<le> 100"
proof -
  have "of_int (completed_workers r) / of_int (total_workers r) * 100 \<le> (100 :: rat)"
    if "total_workers r \<noteq> 0"
    using that assms by (simp add: field_simps)
  then have "total_workers r \<noteq> 0 \<Longrightarrow>
      py_round 2 (of_int (completed_workers r) / of_int (total_workers r) * 100) \<le> py_round 2 (of_int 100)"
    by (intro py_round_mono) simp
  then show "progress_pct r \<le> 100" unfolding progress_pct_def py_round_of_int by simp
  show "0 \<le> progress_pct r"
    using assms by (simp add: progress_pct_def py_round_ge0)
qed

text \<open>The first page of ten thousand claims.\<close>

lemma first_claims: "offset_limit 1 10000 t = Inr (take 10000 t)"
  by (simp add: offset_limit_def)

subsection \<open>Properties\<close>

text \<open>C24: The results of a run can be read and exported only by its own organization: for a user of
  any other organization each of the six endpoints reports that the run does not exist, and
  nothing is written to the store.\<close>

theorem results_owner_only:
  assumes "unique_ids (runs db)" "r \<in> set (runs db)" "organization_id u \<noteq> organization_id r"
  shows "list_worker_results u (ident r) db = Inl (NotFoundError ''Evaluation run'' (ident r))
    \<and> list_claims u (ident r) pg cat db = Inl (NotFoundError ''Evaluation run'' (ident r))
    \<and> list_contradictions u (ident r) db = Inl (NotFoundError ''Evaluation run'' (ident r))
    \<and> list_scores collation u (ident r) db = Inl (NotFoundError ''Evaluation run'' (ident r))
    \<and> get_summary collation u (ident r) db = Inl (NotFoundError ''Evaluation run'' (ident r))
    \<and> export_endpoint x u (ident r) fmt db store =
        (Inl (NotFoundError ''Evaluation run'' (ident r)), store)"
proof -
  have "verify_run db (ident r) (organization_id u) = Inl (NotFoundError ''Evaluation run'' (ident r))"
    using assms by (auto simp: verify_fetch fetch_scoped_Inl dest: unique_idsD)
  then show ?thesis by (simp add: result_endpoints)
qed

text \<open>C33: An export writes exactly one object, under the key of the organization, the run and the format.
  As CSV the file reads back as the header and one row per score of the run, whatever text
  the rationales contain; as JSON it holds all workers, contradictions and scores and the
  first ten thousand claims.\<close>

theorem export_roundtrip:
  assumes "verify_run db rid (organization_id u) = Inr r"
    and "\<And>fmt. ee_s3_put x (generate_export_key (organization_id u) rid fmt) = Inr ()"
    and "\<And>fmt. ee_presign x (generate_export_key (organization_id u) rid fmt) = Inr url"
  shows "(\<exists>text. export_endpoint x u rid ''csv'' db store =
      (Inr \<lparr>ex_export_id = nat_str rid, ex_status = ''completed'', ex_download_url = url\<rparr>,
       store(generate_export_key (organization_id u) rid ''csv'' \<mapsto> (''text/csv'', text)))
      \<and> csv_parse text = csv_header # map (score_row (ee_str_float x))
          (listed_scores (ee_collation x) rid (organization_id u) db))
    \<and> export_endpoint x u rid ''json'' db store =
      (Inr \<lparr>ex_export_id = nat_str rid, ex_status = ''completed'', ex_download_url = url\<rparr>,
       store(generate_export_key (organization_id u) rid ''json'' \<mapsto> (''application/json'',
         ee_dumps_indent x (export_payload rid r (listed_workers rid db)
           (take 10000 (order_by_asc created_at (listed_claims rid (organization_id u) None db)))
           (listed_contradictions rid (organization_id u) db)
           (listed_scores (ee_collation x) rid (organization_id u) db)))))"
  using assms
  by (auto simp: result_endpoints first_claims Let_def export_data_def upload_export_data_def
      export_content_type_def get_export_download_url_def csv_roundtrip)

text \<open>The summary of a run agrees with its listings when the stored findings carry the
  organization of their run: the same number of claims and contradictions, the same scores,
  and a progress between 0 and 100 as long as no worker is counted twice.\<close>

theorem summary_agrees_with_listings:
  assumes v: "verify_run db rid (organization_id u) = Inr r"
    and c: "\<And>c. c \<in> set (claims db) \<Longrightarrow> claim_run_id c = rid \<Longrightarrow> organization_id c = organization_id u"
    and k: "\<And>c. c \<in> set (contradictions db) \<Longrightarrow> con_run_id c = rid \<Longrightarrow>
      organization_id c = organization_id u"
    and w: "0 \<le> completed_workers r" "completed_workers r \<le> total_workers r"
    and n: "1 \<le> n"
  shows "\<exists>sm pg cs. get_summary collation u rid db = Inr sm
    \<and> list_claims u rid (1, n) None db = Inr pg \<and> pg_total pg = int (sm_total_claims sm)
    \<and> list_contradictions u rid db = Inr cs \<and> length cs = sm_total_contradictions sm
    \<and> list_scores collation u rid db = Inr (sm_scores sm)
    \<and> 0 \<le> sm_progress_pct sm \<and> sm_progress_pct sm \<le> 100"
proof -
  have "filter (\<lambda>c. claim_run_id c = rid \<and> active c) (claims db) = listed_claims rid (organization_id u) None db"
    unfolding listed_claims_def select_where_def by (rule filter_cong) (auto dest: c)
  then have nc: "row_count (\<lambda>c. claim_run_id c = rid \<and> active c) (claims db) =
      length (listed_claims rid (organization_id u) None db)"
    by (simp add: row_count_def)
  have "filter (\<lambda>c. con_run_id c = rid \<and> active c) (contradictions db) =
      filter (\<lambda>c. con_run_id c = rid \<and> organization_id c = organization_id u \<and> active c) (contradictions db)"
    by (rule filter_cong) (auto dest: k)
  then have nk: "row_count (\<lambda>c. con_run_id c = rid \<and> active c) (contradictions db) =
      length (listed_contradictions rid (organization_id u) db)"
    by (simp add: row_count_def listed_contradictions_def select_where_def)
  from paged_listing.page_fields [OF claims_paged [OF v], of 1 n None] n
  obtain pg where pg: "list_claims u rid (1, n) None db = Inr pg"
    "pg_total pg = int (length (listed_claims rid (organization_id u) None db))"
    by (auto simp: order_by_asc_def)
  obtain sm where sm: "get_summary collation u rid db = Inr sm"
    "sm_total_claims sm = row_count (\<lambda>c. claim_run_id c = rid \<and> active c) (claims db)"
    "sm_total_contradictions sm = row_count (\<lambda>c. con_run_id c = rid \<and> active c) (contradictions db)"
    "sm_scores sm = listed_scores collation rid (organization_id u) db" "sm_progress_pct sm = progress_pct r"
    using v by (auto simp: result_endpoints Let_def)
  have lists: "list_contradictions u rid db = Inr (listed_contradictions rid (organization_id u) db)"
    "list_scores collation u rid db = Inr (listed_scores collation rid (organization_id u) db)"
    using v by (simp_all add: result_endpoints)
  from pg(2) have "pg_total pg = int (sm_total_claims sm)" using nc sm(2) by simp
  moreover have "length (listed_contradictions rid (organization_id u) db) = sm_total_contradictions sm"
    using nk sm(3) by simp
  ultimately show ?thesis
    using sm(1,4,5) pg(1) lists progress_pct_range [OF w] by auto
qed

subsection \<open>Witnesses\<close>

definition sample_export_env :: export_env where
  "sample_export_env = \<lparr>ee_collation = length, ee_dumps_indent = (\<lambda>_. ''{}''), ee_dumps = (\<lambda>_. ''{}''),
     ee_str_float = (\<lambda>q. if q = 0 then ''0.0'' else ''1.0''), ee_sha256 = (\<lambda>s. s),
     ee_s3_put = (\<lambda>_. Inr ()), ee_presign = (\<lambda>k. Inr (''https://s3'' ))\<rparr>"

definition results_db :: db where
  "results_db = (sample_db UNDER_REVIEW RUNNING)\<lparr>scores :=
     [(sample_score ''team'' 1 1)\<lparr>organization_id := 1, score_run_id := 4, rationale := Some ''a,b''\<rparr>]\<rparr>"

lemma results_db_run [simp]: "verify_run results_db 4 1 = Inr (sample_run RUNNING)"
    "verify_run results_db 4 (Suc 0) = Inr (sample_run RUNNING)"
  by (simp_all add: verify_run_def results_db_def select_where_def sample_run_def)

lemma results_db_sel [simp]: "runs results_db = [sample_run RUNNING]" "claims results_db = []"
    "contradictions results_db = []"
  by (simp_all add: results_db_def)

lemma sample_user_org [simp]: "organization_id (sample_user role n) = 1"
  by (simp add: sample_user_def)

theorem results_owner_only_witness:
  "get_summary length ((sample_user UR_ADMIN 0)\<lparr>organization_id := 9\<rparr>) 4 results_db =
     Inl (NotFoundError ''Evaluation run'' 4)"
proof -
  have "ident (sample_run RUNNING) = 4" "organization_id (sample_run RUNNING) = 1"
    by (simp_all add: sample_run_def)
  then show ?thesis
    using results_owner_only [of results_db "sample_run RUNNING"
        "(sample_user UR_ADMIN 0)\<lparr>organization_id := 9\<rparr>" undefined None length sample_export_env
        "[]" Map.empty] by simp
qed

theorem export_roundtrip_witness:
  "\<exists>text. snd (export_endpoint sample_export_env (sample_user UR_ADMIN 0) 4 ''csv'' results_db Map.empty) =
      [generate_export_key 1 4 ''csv'' \<mapsto> (''text/csv'', text)]
    \<and> csv_parse text = [csv_header, [''team'', ''1.0'', ''1.0'', ''a,b'']]"
proof -
  have "listed_scores length 4 1 results_db = scores results_db"
    by (simp add: listed_scores_def results_db_def select_where_def order_by_asc_def sample_score_def)
  then have "map (score_row (ee_str_float sample_export_env))
      (listed_scores (ee_collation sample_export_env) 4 1 results_db) = [[''team'', ''1.0'', ''1.0'', ''a,b'']]"
    by (simp add: sample_export_env_def score_row_def results_db_def sample_score_def)
  moreover have "ee_s3_put sample_export_env k = Inr ()" "ee_presign sample_export_env k = Inr ''https://s3''" for k
    by (simp_all add: sample_export_env_def)
  ultimately show ?thesis
    using export_roundtrip [of results_db 4 "sample_user UR_ADMIN 0" "sample_run RUNNING"
        sample_export_env "''https://s3''" Map.empty] by auto
qed

theorem summary_agrees_with_listings_witness:
  "\<exists>sm. get_summary length (sample_user UR_ADMIN 0) 4 results_db = Inr sm \<and> sm_progress_pct sm \<le> 100"
proof -
  have "completed_workers (sample_run RUNNING) = 0" "total_workers (sample_run RUNNING) = 0"
    by (simp_all add: sample_run_def)
  then show ?thesis
    using summary_agrees_with_listings [of results_db 4 "sample_user UR_ADMIN 0" "sample_run RUNNING" 20 length]
    by auto
qed

end
