(* ===== verification/MetricService.thy ===== *)
theory MetricService
  imports ScopedResource
begin

section \<open>Metrics (\<open>services/metric_service.py\<close>)\<close>

text \<open>
  Built-in metrics are seeded when a process of the application starts (\<open>main.py\<close>), custom
  metrics belong to an organization. The session does not flush by itself, so the lookups of
  the seeding loop see the table as it was before the loop.
\<close>

subsection \<open>Seeding\<close>

record metric_def =
  def_name :: string
  def_display :: string
  def_description :: string
  def_type :: metric_type
  def_higher :: bool
  def_min :: rat
  def_max :: rat

definition BUILTIN_METRICS :: "metric_def list" where
  "BUILTIN_METRICS =
    [\<lparr>def_name = ''accuracy_exact_match'', def_display = ''Exact Match Accuracy'',
      def_description = ''Proportion of outputs that exactly match the expected output'',
      def_type = ACCURACY, def_higher = True, def_min = 0, def_max = 1\<rparr>,
     \<lparr>def_name = ''f1_token'', def_display = ''Token-level F1 Score'',
      def_description = ''Harmonic mean of precision and recall at the token level'',
      def_type = F1, def_higher = True, def_min = 0, def_max = 1\<rparr>,
     \<lparr>def_name = ''bleu_4'', def_display = ''BLEU-4 Score'',
      def_description = ''BiLingual Evaluation Understudy with 4-gram precision'',
      def_type = BLEU, def_higher = True, def_min = 0, def_max = 1\<rparr>,
     \<lparr>def_name = ''rouge_l'', def_display = ''ROUGE-L Score'',
      def_description = ''Longest common subsequence based recall metric'',
      def_type = ROUGE, def_higher = True, def_min = 0, def_max = 1\<rparr>,
     \<lparr>def_name = ''toxicity_score'', def_display = ''Toxicity Score'',
      def_description = ''Probability that the output contains toxic content (lower is better)'',
      def_type = TOXICITY, def_higher = False, def_min = 0, def_max = 1\<rparr>,
     \<lparr>def_name = ''response_latency'', def_display = ''Response Latency (ms)'',
      def_description = ''Time taken for the model to generate a response'',
      def_type = LATENCY, def_higher = False, def_min = 0, def_max = 60000\<rparr>,
     \<lparr>def_name = ''coherence_score'', def_display = ''Coherence Score'',
      def_description = ''Semantic coherence and logical consistency of the output'',
      def_type = COHERENCE, def_higher = True, def_min = 0, def_max = 1\<rparr>,
     \<lparr>def_name = ''relevance_score'', def_display = ''Relevance Score'',
      def_description = ''How relevant the output is to the input prompt'',
      def_type = RELEVANCE, def_higher = True, def_min = 0, def_max = 1\<rparr>]"

definition builtin_metric :: "env \<Rightarrow> uuid \<Rightarrow> metric_def \<Rightarrow> metric" where
  "builtin_metric env i m =
     \<lparr>ident = i, created_at = now env, updated_at = now env, deleted_at = None,
      metric_name = def_name m, display_name = def_display m,
      metric_description = Some (def_description m), metric_org_id = None,
      metric_type = def_type m, computation_config = empty_obj,
      higher_is_better = def_higher m, min_value = def_min m, max_value = def_max m,
      is_builtin = True\<rparr>"

definition is_seeded :: "string \<Rightarrow> metric \<Rightarrow> bool" where
  "is_seeded nm x \<longleftrightarrow> metric_name x = nm \<and> is_builtin x \<and> active x"

text \<open>The loop: the rows it adds. Each new row gets a fresh id.\<close>

fun seed_loop :: "env \<Rightarrow> (string \<Rightarrow> uuid) \<Rightarrow> metric list \<Rightarrow> metric_def list \<Rightarrow> exn + metric list" where
  "seed_loop env ids t [] = Inr []"
| "seed_loop env ids t (m # ms) =
     (case scalar_one_or_none (select_where (is_seeded (def_name m)) t) of
        Inl e \<Rightarrow> Inl e
      | Inr (Some _) \<Rightarrow> seed_loop env ids t ms
      | Inr None \<Rightarrow>
          (case seed_loop env ids t ms of
             Inl e \<Rightarrow> Inl e
           | Inr added \<Rightarrow> Inr (builtin_metric env (ids (def_name m)) m # added)))"

definition seed_builtin_metrics :: "env \<Rightarrow> (string \<Rightarrow> uuid) \<Rightarrow> db \<Rightarrow> (db, nat) outcome" where
  "seed_builtin_metrics env ids db =
     (case seed_loop env ids (metrics db) BUILTIN_METRICS of
        Inl e \<Rightarrow> (Inl e, db)
      | Inr added \<Rightarrow>
          (Inr (length added), if added \<noteq> [] then db\<lparr>metrics := metrics db @ added\<rparr> else db))"

subsection \<open>Custom metrics\<close>

definition same_metric :: "uuid \<Rightarrow> string \<Rightarrow> metric \<Rightarrow> bool" where
  "same_metric org nm x \<longleftrightarrow> metric_name x = nm \<and> metric_org_id x = Some org \<and> active x"

definition custom_metric :: "env \<Rightarrow> uuid \<Rightarrow> uuid \<Rightarrow> string \<Rightarrow> string \<Rightarrow> string option \<Rightarrow> metric_type
    \<Rightarrow> json option \<Rightarrow> bool \<Rightarrow> rat \<Rightarrow> rat \<Rightarrow> metric" where
  "custom_metric env i org nm disp desc ty cfg hib lo hi =
     \<lparr>ident = i, created_at = now env, updated_at = now env, deleted_at = None,
      metric_name = nm, display_name = disp, metric_description = desc, metric_org_id = Some org,
      metric_type = ty,
      computation_config = (case cfg of Some c \<Rightarrow> if json_truthy c then c else empty_obj
                                      | None \<Rightarrow> empty_obj),
      higher_is_better = hib, min_value = lo, max_value = hi, is_builtin = False\<rparr>"

definition create_custom_metric :: "env \<Rightarrow> uuid \<Rightarrow> uuid \<Rightarrow> uuid \<Rightarrow> string \<Rightarrow> string \<Rightarrow> string option
    \<Rightarrow> metric_type \<Rightarrow> json option \<Rightarrow> bool \<Rightarrow> rat \<Rightarrow> rat \<Rightarrow> db \<Rightarrow> (db, metric) outcome" where
  "create_custom_metric env i org user_id nm disp desc ty cfg hib lo hi db =
     (case scalar_one_or_none (select_where (same_metric org nm) (metrics db)) of
        Inl e \<Rightarrow> (Inl e, db)
      | Inr (Some _) \<Rightarrow> (Inl (ConflictError ''Metric already exists in this organization''), db)
      | Inr None \<Rightarrow>
          let m = custom_metric env i org nm disp desc ty cfg hib lo hi;
              db1 = db\<lparr>metrics := insert_row m (metrics db)\<rparr>
          in (Inr m, create_audit_log env A_CREATE ''metric'' (Some i) (Some org) (Some user_id)
                       None ''success'' None db1))"

definition metric_visible :: "uuid \<Rightarrow> metric \<Rightarrow> bool" where
  "metric_visible org x \<longleftrightarrow> (metric_org_id x = Some org \<or> is_builtin x) \<and> active x"

text \<open>\<open>ORDER BY is_builtin DESC, name\<close>: \<open>collation\<close> ranks names as the database does.\<close>

definition list_metrics :: "(string \<Rightarrow> nat) \<Rightarrow> uuid \<Rightarrow> int \<Rightarrow> int \<Rightarrow> db \<Rightarrow> exn + (metric list \<times> nat)" where
  "list_metrics collation org page page_size db =
     (let rows = select_where (metric_visible org) (metrics db)
      in case offset_limit page page_size
                (order_by_asc (\<lambda>m. \<not> is_builtin m) (order_by_asc (\<lambda>m. collation (metric_name m)) rows)) of
           Inl e \<Rightarrow> Inl e
         | Inr items \<Rightarrow> Inr (items, length rows))"

definition get_metric :: "uuid \<Rightarrow> uuid \<Rightarrow> db \<Rightarrow> exn + metric" where
  "get_metric mid org db =
     (case scalar_one_or_none (select_where (\<lambda>x. ident x = mid \<and> metric_visible org x) (metrics db)) of
        Inl e \<Rightarrow> Inl e
      | Inr None \<Rightarrow> Inl (NotFoundError ''Metric'' mid)
      | Inr (Some x) \<Rightarrow> Inr x)"

subsection \<open>Seeding\<close>

text \<open>The invariant: one active built-in row per name, one active row per organization and name.\<close>

definition builtin_unique :: "metric list \<Rightarrow> bool" where
  "builtin_unique t \<longleftrightarrow> distinct (map metric_name (filter (\<lambda>x. is_builtin x \<and> active x) t))"

definition custom_unique :: "metric list \<Rightarrow> bool" where
  "custom_unique t \<longleftrightarrow>
     distinct (map (\<lambda>x. (metric_org_id x, metric_name x)) (filter (\<lambda>x. metric_org_id x \<noteq> None \<and> active x) t))"

lemma builtin_metric_sel [simp]:
  "metric_name (builtin_metric env i m) = def_name m" "is_builtin (builtin_metric env i m)"
  "active (builtin_metric env i m)" "metric_org_id (builtin_metric env i m) = None"
  by (simp_all add: builtin_metric_def)

lemma builtin_names_distinct: "distinct (map def_name BUILTIN_METRICS)"
  by (simp add: BUILTIN_METRICS_def)

lemma seeded_lookup:
  assumes "builtin_unique t"
  shows "(scalar_one_or_none (select_where (is_seeded nm) t) = Inr None \<and> (\<forall>x \<in> set t. \<not> is_seeded nm x))
    \<or> (\<exists>x. scalar_one_or_none (select_where (is_seeded nm) t) = Inr (Some x) \<and> x \<in> set t \<and> is_seeded nm x)"
proof -
  let ?b = "filter (\<lambda>x. is_builtin x \<and> active x) t"
  have f: "filter (is_seeded nm) t = filter (\<lambda>x. metric_name x = nm \<and> True) ?b"
    by (auto simp: is_seeded_def intro: filter_cong)
  from assms have "distinct (map metric_name ?b)" by (simp add: builtin_unique_def)
  from filter_unique_le1 [OF this, of nm "\<lambda>_. True"] show ?thesis
    unfolding select_where_def f [symmetric]
    by (auto simp: filter_empty_conv is_seeded_def)
qed

lemma seed_loop_result:
  assumes "builtin_unique t"
  shows "seed_loop env ids t ms =
    Inr (map (\<lambda>m. builtin_metric env (ids (def_name m)) m)
          (filter (\<lambda>m. \<forall>x \<in> set t. \<not> is_seeded (def_name m) x) ms))"
proof (induction ms)
  case (Cons m ms)
  from seeded_lookup [OF assms, of "def_name m"] Cons.IH show ?case by auto
qed simp

lemma seed_loop_duplicate:
  assumes "m \<in> set ms" "scalar_one_or_none (select_where (is_seeded (def_name m)) t) = Inl e"
  shows "\<exists>e'. seed_loop env ids t ms = Inl e'"
  using assms by (induction ms) (auto split: sum.splits option.splits)

lemma builtin_unique_seeded:
  assumes "builtin_unique t" "distinct (map def_name ms)"
  shows "builtin_unique (t @ map (\<lambda>m. builtin_metric env (ids (def_name m)) m)
          (filter (\<lambda>m. \<forall>x \<in> set t. \<not> is_seeded (def_name m) x) ms))"
  using assms by (auto simp: builtin_unique_def comp_def distinct_map_filter is_seeded_def)

lemma seeded_once:
  assumes "builtin_unique t" "x \<in> set t" "is_seeded nm x"
  shows "filter (is_seeded nm) t = [x]"
proof -
  from seeded_lookup [OF assms(1), of nm] assms(2,3)
  obtain y where y: "filter (is_seeded nm) t = [y]" by (auto simp: select_where_def)
  from assms(2,3) have "x \<in> set (filter (is_seeded nm) t)" by simp
  then have "x = y" unfolding y by simp
  with y show ?thesis by simp
qed

lemma scalar_one_or_none_two:
  "x \<in> set t \<Longrightarrow> y \<in> set u \<Longrightarrow> scalar_one_or_none (t @ u) = Inl MultipleResultsFound"
  by (cases "t @ u" rule: scalar_one_or_none.cases) (auto simp: append_eq_Cons_conv)

lemma seed_loop_error: "seed_loop env ids t ms = Inl e \<Longrightarrow> e = MultipleResultsFound"
proof (induction ms)
  case (Cons m ms)
  then show ?case
    using scalar_one_or_none_cases [of "select_where (is_seeded (def_name m)) t"]
    by (auto split: sum.splits option.splits)
qed simp

definition missing :: "metric list \<Rightarrow> metric_def list" where
  "missing t = filter (\<lambda>m. \<forall>x \<in> set t. \<not> is_seeded (def_name m) x) BUILTIN_METRICS"

definition seed_rows :: "env \<Rightarrow> (string \<Rightarrow> uuid) \<Rightarrow> metric list \<Rightarrow> metric list" where
  "seed_rows env ids t = map (\<lambda>m. builtin_metric env (ids (def_name m)) m) (missing t)"

lemma seed_result:
  assumes "builtin_unique (metrics db)"
  shows "seed_builtin_metrics env ids db =
    (Inr (length (missing (metrics db))), db\<lparr>metrics := metrics db @ seed_rows env ids (metrics db)\<rparr>)"
  using seed_loop_result [OF assms, of env ids BUILTIN_METRICS]
  by (auto simp: seed_builtin_metrics_def missing_def seed_rows_def)

lemma seeded_unique:
  "builtin_unique t \<Longrightarrow> builtin_unique (t @ seed_rows env ids t)"
  unfolding seed_rows_def missing_def
  by (rule builtin_unique_seeded [OF _ builtin_names_distinct])

lemma seeded_complete:
  assumes "m \<in> set BUILTIN_METRICS"
  shows "\<exists>x \<in> set (t @ seed_rows env ids t). is_seeded (def_name m) x"
proof (cases "m \<in> set (missing t)")
  case True
  have "is_seeded (def_name m) (builtin_metric env (ids (def_name m)) m)"
    by (simp add: is_seeded_def)
  with True show ?thesis by (auto simp: seed_rows_def)
next
  case False
  with assms show ?thesis by (auto simp: missing_def)
qed

lemma seeded_not_missing: "missing (t @ seed_rows env ids t) = []"
  unfolding missing_def filter_empty_conv using seeded_complete by blast

lemma seed_rows_builtin: "filter (\<lambda>x. \<not> is_builtin x) (seed_rows env ids t) = []"
  by (auto simp: seed_rows_def filter_empty_conv)

subsection \<open>Lookups\<close>

lemma get_metric_lookup:
  "get_metric i org db = Inr x \<longleftrightarrow> lookup_where (metric_visible org) i (metrics db) = Inr (Some x)"
  by (auto simp: get_metric_def lookup_where_def split: sum.splits option.splits)

lemma get_metric_returns:
  "unique_ids (metrics db) \<Longrightarrow>
   get_metric i org db = Inr x \<longleftrightarrow> x \<in> set (metrics db) \<and> ident x = i \<and> metric_visible org x"
  by (simp add: get_metric_lookup lookup_where_Some)

lemma custom_lookup:
  assumes "custom_unique t"
  shows "(scalar_one_or_none (select_where (same_metric org nm) t) = Inr None
      \<and> (\<forall>x \<in> set t. \<not> same_metric org nm x))
    \<or> (\<exists>x. scalar_one_or_none (select_where (same_metric org nm) t) = Inr (Some x)
      \<and> x \<in> set t \<and> same_metric org nm x)"
proof -
  let ?k = "\<lambda>x. (metric_org_id x, metric_name x)"
  let ?b = "filter (\<lambda>x. metric_org_id x \<noteq> None \<and> active x) t"
  have f: "filter (same_metric org nm) t = filter (\<lambda>x. ?k x = (Some org, nm) \<and> True) ?b"
    by (auto simp: same_metric_def intro: filter_cong)
  from assms have "distinct (map ?k ?b)" by (simp add: custom_unique_def)
  from filter_unique_le1 [OF this, of "(Some org, nm)" "\<lambda>_. True"] show ?thesis
    unfolding select_where_def f [symmetric]
    by (auto simp: filter_empty_conv same_metric_def)
qed

lemma custom_metric_sel [simp]:
  "metric_name (custom_metric env i org nm a b c d e f g) = nm"
  "metric_org_id (custom_metric env i org nm a b c d e f g) = Some org"
  "active (custom_metric env i org nm a b c d e f g)"
  "\<not> is_builtin (custom_metric env i org nm a b c d e f g)"
  by (simp_all add: custom_metric_def)

lemma custom_unique_insert:
  assumes "custom_unique t" "\<forall>x \<in> set t. \<not> same_metric org nm x"
    "metric_org_id m = Some org" "metric_name m = nm"
  shows "custom_unique (insert_row m t)"
  using assms by (auto simp: custom_unique_def insert_row_def same_metric_def)

lemma create_metric_new:
  assumes "scalar_one_or_none (select_where (same_metric org nm) (metrics db)) = Inr None"
    and "create_custom_metric env i org u nm disp desc ty cfg hib lo hi db = (r, db')"
  shows "r = Inr (custom_metric env i org nm disp desc ty cfg hib lo hi)"
    and "metrics db' = insert_row (custom_metric env i org nm disp desc ty cfg hib lo hi) (metrics db)"
  using assms(2) unfolding create_custom_metric_def assms(1) by (auto simp: Let_def)

lemma create_metric_conflict:
  assumes "scalar_one_or_none (select_where (same_metric org nm) (metrics db)) = Inr (Some x)"
  shows "create_custom_metric env i org u nm disp desc ty cfg hib lo hi db =
    (Inl (ConflictError ''Metric already exists in this organization''), db)"
  unfolding create_custom_metric_def assms by simp

subsection \<open>Properties\<close>

text \<open>Seeding is idempotent. From a table with at most one active built-in row per name it
  returns the number of missing metrics and adds exactly those; afterwards each of the eight
  has exactly one active row, custom metrics are untouched, and every later seeding adds
  nothing.
\<close>

theorem seeding_is_idempotent:
  assumes "builtin_unique (metrics db)" "m \<in> set BUILTIN_METRICS"
  shows "\<exists>n db'. seed_builtin_metrics env ids db = (Inr n, db')
    \<and> length (metrics db') = length (metrics db) + n
    \<and> builtin_unique (metrics db')
    \<and> length (filter (is_seeded (def_name m)) (metrics db')) = 1
    \<and> filter (\<lambda>x. \<not> is_builtin x) (metrics db') = filter (\<lambda>x. \<not> is_builtin x) (metrics db)
    \<and> seed_builtin_metrics env' ids' db' = (Inr 0, db')"
proof -
  let ?db = "db\<lparr>metrics := metrics db @ seed_rows env ids (metrics db)\<rparr>"
  have u: "builtin_unique (metrics ?db)" using seeded_unique [OF assms(1)] by simp
  obtain x where "x \<in> set (metrics ?db)" "is_seeded (def_name m) x"
    using seeded_complete [OF assms(2), of "metrics db" env ids] by auto
  from seeded_once [OF u this] have "length (filter (is_seeded (def_name m)) (metrics ?db)) = 1" by simp
  moreover have "seed_builtin_metrics env' ids' ?db = (Inr 0, ?db)"
    using seed_result [OF u, of env' ids']
    by (simp add: seeded_not_missing seed_rows_def [of env' ids'])
  ultimately show ?thesis
    using seed_result [OF assms(1), of env ids] u
    by (simp add: seed_rows_builtin) (simp add: seed_rows_def)
qed

theorem seeding_is_idempotent_witness:
  "\<exists>n db'. seed_builtin_metrics sample_env (\<lambda>_. 1) empty_db = (Inr n, db')
    \<and> length (metrics db') = length (metrics empty_db) + n \<and> builtin_unique (metrics db')
    \<and> length (filter (is_seeded ''f1_token'') (metrics db')) = 1
    \<and> filter (\<lambda>x. \<not> is_builtin x) (metrics db') = filter (\<lambda>x. \<not> is_builtin x) (metrics empty_db)
    \<and> seed_builtin_metrics sample_env (\<lambda>_. 2) db' = (Inr 0, db')"
proof -
  let ?m = "BUILTIN_METRICS ! 1"
  have u: "builtin_unique (metrics empty_db)" by (simp add: empty_db_def builtin_unique_def)
  have m: "?m \<in> set BUILTIN_METRICS" "def_name ?m = ''f1_token''"
    by (simp_all add: BUILTIN_METRICS_def)
  from seeding_is_idempotent [OF u m(1), of sample_env "\<lambda>_. 1" sample_env "\<lambda>_. 2"] show ?thesis
    unfolding m(2) .
qed

text \<open>
  Two processes that start together can both see a built-in metric missing and both add it,
  for nothing in the table forbids the second row; from then on every seeding fails with
  \<open>MultipleResultsFound\<close> and adds nothing.
\<close>

theorem concurrent_seeding_breaks:
  assumes "builtin_unique (metrics db)" "m \<in> set BUILTIN_METRICS"
    "\<forall>x \<in> set (metrics db). \<not> is_seeded (def_name m) x"
    "seed_builtin_metrics env1 ids1 db = (Inr n1, db\<lparr>metrics := metrics db @ rows1\<rparr>)"
    "seed_builtin_metrics env2 ids2 db = (Inr n2, db\<lparr>metrics := metrics db @ rows2\<rparr>)"
    "metrics db' = metrics db @ rows1 @ rows2"
  shows "\<not> builtin_unique (metrics db')
    \<and> seed_builtin_metrics env ids db' = (Inl MultipleResultsFound, db')"
proof -
  have rows: "rows1 = seed_rows env1 ids1 (metrics db)" "rows2 = seed_rows env2 ids2 (metrics db)"
    using assms(4,5) [unfolded seed_result [OF assms(1)], THEN arg_cong [of _ _ "\<lambda>r. metrics (snd r)"]]
    by simp_all
  have "m \<in> set (missing (metrics db))" using assms(2,3) by (simp add: missing_def)
  then have two: "builtin_metric env1 (ids1 (def_name m)) m \<in> set (filter (is_seeded (def_name m)) rows1)"
    "builtin_metric env2 (ids2 (def_name m)) m \<in> set (filter (is_seeded (def_name m)) rows2)"
    by (auto simp: rows seed_rows_def is_seeded_def)
  have dup: "scalar_one_or_none (select_where (is_seeded (def_name m)) (metrics db')) = Inl MultipleResultsFound"
    using scalar_one_or_none_two [OF two] assms(3)
    by (simp add: assms(6) select_where_def)
  with seeded_lookup [of "metrics db'" "def_name m"] have "\<not> builtin_unique (metrics db')" by auto
  moreover obtain e where "seed_loop env ids (metrics db') BUILTIN_METRICS = Inl e"
    using seed_loop_duplicate [OF assms(2) dup] by blast
  with seed_loop_error [OF this] have "seed_builtin_metrics env ids db' = (Inl MultipleResultsFound, db')"
    by (simp add: seed_builtin_metrics_def)
  ultimately show ?thesis ..
qed

theorem concurrent_seeding_breaks_witness:
  "fst (seed_builtin_metrics sample_env (\<lambda>_. 3)
     (empty_db\<lparr>metrics := seed_rows sample_env (\<lambda>_. 1) [] @ seed_rows sample_env (\<lambda>_. 2) []\<rparr>)) =
   Inl MultipleResultsFound"
proof -
  let ?m = "BUILTIN_METRICS ! 1"
  let ?r = "\<lambda>i. seed_rows sample_env (\<lambda>_. i) []"
  let ?db' = "empty_db\<lparr>metrics := ?r 1 @ ?r 2\<rparr>"
  have e: "metrics empty_db = []" by (simp add: empty_db_def)
  have u: "builtin_unique (metrics empty_db)" by (simp add: e builtin_unique_def)
  have m: "?m \<in> set BUILTIN_METRICS" by (simp add: BUILTIN_METRICS_def)
  have none: "\<forall>x \<in> set (metrics empty_db). \<not> is_seeded (def_name ?m) x" by (simp add: e)
  have s: "seed_builtin_metrics sample_env (\<lambda>_. i) empty_db =
      (Inr (length (missing [])), empty_db\<lparr>metrics := metrics empty_db @ ?r i\<rparr>)" for i
    using seed_result [OF u, of sample_env "\<lambda>_. i"] by (simp add: e)
  have d: "metrics ?db' = metrics empty_db @ ?r 1 @ ?r 2" by (simp add: e)
  from concurrent_seeding_breaks [OF u m none s s d, of sample_env "\<lambda>_. 3"] show ?thesis by simp
qed

text \<open>
  Custom metrics. Creating one succeeds exactly when the organization has no active metric
  of that name, keeps names unique per organization, and makes the metric visible to its own
  organization and to no other; a refused creation changes nothing.
\<close>

theorem custom_metric_names:
  assumes "custom_unique (metrics db)" "unique_ids (metrics db)" "i \<notin> ident ` set (metrics db)"
    "create_custom_metric env i org u nm disp desc ty cfg hib lo hi db = (r, db')"
  shows "(is_ok r \<longleftrightarrow> (\<forall>x \<in> set (metrics db). \<not> same_metric org nm x))
    \<and> (\<not> is_ok r \<longrightarrow> db' = db)
    \<and> custom_unique (metrics db')
    \<and> (is_ok r \<longrightarrow> get_metric i org db' = Inr (projr r))
    \<and> (org' \<noteq> org \<longrightarrow> get_metric i org' db' = Inl (NotFoundError ''Metric'' i))"
proof -
  let ?m = "custom_metric env i org nm disp desc ty cfg hib lo hi"
  have i: "ident ?m = i" by (simp add: custom_metric_def)
  have hidden: "get_metric i org' d = Inl (NotFoundError ''Metric'' i)"
    if "\<forall>x \<in> set (metrics d). ident x = i \<longrightarrow> \<not> metric_visible org' x" for d
    using that by (simp add: get_metric_def select_where_def filter_empty_conv [THEN iffD2])
  consider "\<forall>x \<in> set (metrics db). \<not> same_metric org nm x" "r = Inr ?m"
      "metrics db' = insert_row ?m (metrics db)"
    | "\<exists>x \<in> set (metrics db). same_metric org nm x" "\<not> is_ok r" "db' = db"
    using custom_lookup [OF assms(1), of org nm]
  proof (elim disjE conjE exE)
    assume n: "scalar_one_or_none (select_where (same_metric org nm) (metrics db)) = Inr None"
      "\<forall>x \<in> set (metrics db). \<not> same_metric org nm x"
    show ?thesis by (rule that(1) [OF n(2) create_metric_new [OF n(1) assms(4)]])
  next
    fix x assume c: "scalar_one_or_none (select_where (same_metric org nm) (metrics db)) = Inr (Some x)"
      "x \<in> set (metrics db)" "same_metric org nm x"
    from c(2,3) assms(4) show ?thesis
      unfolding create_metric_conflict [OF c(1)] by (intro that(2)) auto
  qed
  then show ?thesis
  proof cases
    case 1
    have "unique_ids (metrics db')" using assms(2,3) by (simp add: 1(3) unique_ids_insert i)
    from get_metric_returns [OF this, of i org ?m] have "get_metric i org db' = Inr ?m"
      by (simp add: 1(3) i insert_row_def metric_visible_def)
    moreover have "custom_unique (metrics db')"
      unfolding 1(3) by (rule custom_unique_insert [OF assms(1) 1(1)]) simp_all
    moreover have "org' \<noteq> org \<Longrightarrow> get_metric i org' db' = Inl (NotFoundError ''Metric'' i)"
      using assms(3) by (intro hidden) (auto simp: 1(3) insert_row_def metric_visible_def i)
    ultimately show ?thesis using 1 by simp
  next
    case 2
    have "get_metric i org' db = Inl (NotFoundError ''Metric'' i)"
      using assms(3) by (intro hidden) auto
    with 2 assms(1) show ?thesis by auto
  qed
qed

theorem custom_metric_names_witness:
  "get_metric 5 2 (snd (create_custom_metric sample_env 5 1 2 ''m'' ''M'' None CUSTOM None True 0 1 empty_db)) =
     Inl (NotFoundError ''Metric'' 5)"
proof -
  let ?c = "create_custom_metric sample_env 5 1 2 ''m'' ''M'' None CUSTOM None True 0 1 empty_db"
  have "custom_unique (metrics empty_db)" "unique_ids (metrics empty_db)" "5 \<notin> ident ` set (metrics empty_db)"
    by (simp_all add: empty_db_def custom_unique_def)
  from custom_metric_names [OF this prod.collapse [symmetric, of ?c],
      THEN conjunct2, THEN conjunct2, THEN conjunct2, THEN conjunct2, of 2]
  show ?thesis by (rule mp) simp
qed

end
