(* ===== verification/AuthService.thy ===== *)
theory AuthService
  imports Security ScopedResource
begin

section \<open>Authentication service (\<open>services/auth_service.py\<close>, \<open>api/v1/auth.py\<close>)\<close>

text \<open>
  Registration, login, token refresh and API keys as functions on the database, and
  \<open>get_current_user\<close> of \<open>api/deps.py\<close>, which authenticates a request with them.
  A request runs in a session (\<open>in_session\<close>): what a handler wrote before it raised is
  rolled back. \<open>hash_pw\<close>, \<open>verify\<close>, \<open>sha256\<close>, \<open>encode\<close> and \<open>decode\<close> are
  the third-party parameters of theory Security.
\<close>

subsection \<open>Slugs\<close>

text \<open>\<open>re.sub(r"[\s_]+", "-", s)\<close>: each maximal run becomes one hyphen.\<close>

definition is_sep :: "char \<Rightarrow> bool" where
  "is_sep c \<longleftrightarrow> is_space c \<or> c = CHR ''_''"

fun hyphenate :: "bool \<Rightarrow> string \<Rightarrow> string" where
  "hyphenate in_run [] = []"
| "hyphenate in_run (c # s) =
     (if is_sep c then (if in_run then hyphenate True s else CHR ''-'' # hyphenate True s)
      else c # hyphenate False s)"

definition slugify :: "string \<Rightarrow> string" where
  "slugify nm =
     (let s1 = str_strip (str_lower nm);
          s2 = filter (\<lambda>c. is_word c \<or> is_space c \<or> c = CHR ''-'') s1
      in take 63 (hyphenate False s2))"

subsection \<open>Registration\<close>

definition register_user :: "(string \<Rightarrow> string) \<Rightarrow> env \<Rightarrow> uuid \<Rightarrow> uuid \<Rightarrow> string \<Rightarrow> string
    \<Rightarrow> string \<Rightarrow> string \<Rightarrow> db \<Rightarrow> (db, user \<times> organization) outcome" where
  "register_user hash_pw env org_id user_id eml password fullname orgname db =
     (case scalar_one_or_none (select_where (\<lambda>u. email u = eml) (users db)) of
        Inl e \<Rightarrow> (Inl e, db)
      | Inr (Some _) \<Rightarrow> (Inl (ConflictError ''User with email already exists''), db)
      | Inr None \<Rightarrow>
        (case scalar_one_or_none
                (select_where (\<lambda>o'. slug o' = slugify orgname) (organizations db)) of
           Inl e \<Rightarrow> (Inl e, db)
         | Inr (Some _) \<Rightarrow> (Inl (ConflictError ''Organization already exists''), db)
         | Inr None \<Rightarrow>
           (let org' = \<lparr>ident = org_id, created_at = now env, updated_at = now env,
                  deleted_at = None, org_name = orgname, slug = slugify orgname,
                  plan_tier = FREE, rate_limit_per_minute = 100,
                  max_concurrent_evaluations = 10, org_settings = empty_obj\<rparr>;
                u = \<lparr>ident = user_id, created_at = now env, updated_at = now env,
                  deleted_at = None, organization_id = org_id, email = eml,
                  hashed_password = hash_pw password, full_name = fullname,
                  user_role = UR_ADMIN, is_active = True, last_login_at = None,
                  failed_login_attempts = 0\<rparr>;
                db1 = db\<lparr>organizations := insert_row org' (organizations db),
                         users := insert_row u (users db)\<rparr>
            in (Inr (u, org'),
                create_audit_log env A_CREATE ''user'' (Some user_id) (Some org_id)
                  (Some user_id) None ''success'' None db1))))"

text \<open>\<open>UserResponse.model_validate(user)\<close> reads every field of the schema from the
  attributes of the ORM object; a field without default must be there.\<close>

definition user_attributes :: "string list" where
  "user_attributes = [''id'', ''created_at'', ''updated_at'', ''deleted_at'', ''is_deleted'',
     ''email'', ''hashed_password'', ''full_name'', ''role'', ''organization_id'',
     ''is_active'', ''last_login_at'', ''failed_login_attempts'', ''organization'',
     ''api_keys'', ''is_locked'', ''MAX_FAILED_ATTEMPTS'']"

definition user_response_fields :: "string list" where
  "user_response_fields = [''created_at'', ''updated_at'', ''id'', ''email'', ''full_name'',
     ''role'', ''organization_id'', ''is_active'', ''mfa_enabled'', ''last_login_at'']"

definition user_response :: "user \<Rightarrow> exn + user" where
  "user_response u =
     (if list_all (\<lambda>f. f \<in> set user_attributes) user_response_fields \<and>
         role_value (ModelRole (user_role u)) \<in> {''admin'', ''member'', ''viewer''}
      then Inr u else Inl (ValueError ''UserResponse''))"

definition register_endpoint :: "(string \<Rightarrow> string) \<Rightarrow> env \<Rightarrow> uuid \<Rightarrow> uuid \<Rightarrow> string \<Rightarrow> string
    \<Rightarrow> string \<Rightarrow> string \<Rightarrow> db \<Rightarrow> (db, user) outcome" where
  "register_endpoint hash_pw env org_id user_id eml password fullname orgname =
     in_session (\<lambda>db. case register_user hash_pw env org_id user_id eml password fullname orgname db of
                        (Inl e, d) \<Rightarrow> (Inl e, d)
                      | (Inr (u, _), d) \<Rightarrow> (user_response u, d))"

definition get_me :: "user \<Rightarrow> exn + user" where
  "get_me u = user_response u"

subsection \<open>Login\<close>

definition set_user :: "env \<Rightarrow> user \<Rightarrow> user \<Rightarrow> db \<Rightarrow> db" where
  "set_user env u u' db =
     db\<lparr>users := update_where (\<lambda>x. ident x = ident u) (\<lambda>x. orm_flush (now env) x u') (users db)\<rparr>"

definition authenticate_user :: "(string \<Rightarrow> string \<Rightarrow> bool) \<Rightarrow> (jwt_claims \<Rightarrow> 'tok)
    \<Rightarrow> auth_settings \<Rightarrow> env \<Rightarrow> uuid \<Rightarrow> string \<Rightarrow> string \<Rightarrow> db
    \<Rightarrow> (db, 'tok \<times> 'tok \<times> user) outcome" where
  "authenticate_user verify encode st env new_jti eml password db =
     (case scalar_one_or_none (select_where (\<lambda>u. email u = eml \<and> active u) (users db)) of
        Inl e \<Rightarrow> (Inl e, db)
      | Inr None \<Rightarrow>
          (Inl (UnauthorizedError ''Invalid email or password''),
           create_audit_log env A_LOGIN_FAILED ''user'' None None None None ''failure''
             (Some ''No user with email'') db)
      | Inr (Some u) \<Rightarrow>
          if \<not> is_active u then (Inl (UnauthorizedError ''Account is deactivated''), db)
          else if is_locked u then (Inl (UnauthorizedError ''Account is locked''), db)
          else if \<not> verify password (hashed_password u) then
            (Inl (UnauthorizedError ''Invalid email or password''),
             create_audit_log env A_LOGIN_FAILED ''user'' (Some (ident u))
               (Some (organization_id u)) (Some (ident u)) None ''failure'' None
               (set_user env u (u\<lparr>failed_login_attempts := failed_login_attempts u + 1\<rparr>) db))
          else
            (let u' = u\<lparr>failed_login_attempts := 0, last_login_at := Some (now env)\<rparr>;
                 access = create_access_token encode st new_jti (now env) (ident u)
                   (organization_id u) (ModelRole (user_role u)) None;
                 refresh = create_refresh_token encode st (now env) (ident u) (organization_id u)
             in (Inr (access, refresh, u'),
                 create_audit_log env A_LOGIN ''user'' (Some (ident u))
                   (Some (organization_id u)) (Some (ident u)) None ''success'' None
                   (set_user env u u' db))))"

text \<open>The endpoint, and a sequence of attempts.\<close>

definition login :: "(string \<Rightarrow> string \<Rightarrow> bool) \<Rightarrow> (jwt_claims \<Rightarrow> 'tok) \<Rightarrow> auth_settings \<Rightarrow> env
    \<Rightarrow> uuid \<Rightarrow> string \<Rightarrow> string \<Rightarrow> db \<Rightarrow> (db, 'tok \<times> 'tok \<times> user) outcome" where
  "login verify encode st env new_jti eml password =
     in_session (authenticate_user verify encode st env new_jti eml password)"

fun login_attempts :: "(string \<Rightarrow> string \<Rightarrow> bool) \<Rightarrow> (jwt_claims \<Rightarrow> 'tok) \<Rightarrow> auth_settings \<Rightarrow> env
    \<Rightarrow> uuid \<Rightarrow> string \<Rightarrow> string list \<Rightarrow> db \<Rightarrow> db" where
  "login_attempts verify encode st env new_jti eml [] db = db"
| "login_attempts verify encode st env new_jti eml (p # ps) db =
     login_attempts verify encode st env new_jti eml ps
       (snd (login verify encode st env new_jti eml p db))"

subsection \<open>Token refresh\<close>

definition active_user_query :: "uuid \<Rightarrow> db \<Rightarrow> exn + user option" where
  "active_user_query uid db =
     scalar_one_or_none (select_where (\<lambda>u. ident u = uid \<and> is_active u \<and> active u) (users db))"

definition refresh_access_token :: "(jwt_claims \<Rightarrow> 'tok) \<Rightarrow> (timestamp \<Rightarrow> 'tok \<Rightarrow> exn + jwt_claims)
    \<Rightarrow> auth_settings \<Rightarrow> env \<Rightarrow> uuid \<Rightarrow> 'tok \<Rightarrow> db \<Rightarrow> (db, 'tok \<times> 'tok) outcome" where
  "refresh_access_token encode decode st env new_jti tok db =
     (case decode (now env) tok of
        Inl _ \<Rightarrow> (Inl (UnauthorizedError ''Invalid or expired refresh token''), db)
      | Inr c \<Rightarrow>
        if type_claim c \<noteq> Some (token_type_value REFRESH)
        then (Inl (UnauthorizedError ''Invalid token type''), db)
        else case sub c of
          None \<Rightarrow> (Inl (KeyError ''sub''), db)
        | Some uid \<Rightarrow>
          (case active_user_query uid db of
             Inl e \<Rightarrow> (Inl e, db)
           | Inr None \<Rightarrow> (Inl (UnauthorizedError ''User not found or deactivated''), db)
           | Inr (Some u) \<Rightarrow>
             (let access = create_access_token encode st new_jti (now env) (ident u)
                    (organization_id u) (ModelRole (user_role u)) None;
                  new_refresh = create_refresh_token encode st (now env) (ident u)
                    (organization_id u)
              in case audit_action_attr ''TOKEN_REFRESH'' of
                   Inl e \<Rightarrow> (Inl e, db)
                 | Inr a \<Rightarrow>
                     (Inr (access, new_refresh),
                      create_audit_log env a ''user'' (Some (ident u))
                        (Some (organization_id u)) (Some (ident u)) None ''success'' None db))))"

subsection \<open>API keys\<close>

definition authenticate_api_key :: "(string \<Rightarrow> string) \<Rightarrow> env \<Rightarrow> string \<Rightarrow> db
    \<Rightarrow> (db, user \<times> api_key) outcome" where
  "authenticate_api_key sha256 env raw_key db =
     (case scalar_one_or_none (select_where
             (\<lambda>k. key_hash k = hash_api_key sha256 raw_key \<and> \<not> is_revoked k \<and> active k)
             (api_keys db)) of
        Inl e \<Rightarrow> (Inl e, db)
      | Inr None \<Rightarrow> (Inl (UnauthorizedError ''Invalid or expired API key''), db)
      | Inr (Some k) \<Rightarrow>
        if \<not> key_is_valid (now env) k
        then (Inl (UnauthorizedError ''Invalid or expired API key''), db)
        else
          (let k' = k\<lparr>last_used_at := Some (now env)\<rparr>;
               db1 = db\<lparr>api_keys := update_where (\<lambda>x. ident x = ident k)
                 (\<lambda>x. orm_flush (now env) x k') (api_keys db)\<rparr>
           in case scalar_one_or_none (select_where
                     (\<lambda>u. ident u = key_user_id k \<and> is_active u) (users db1)) of
                Inl e \<Rightarrow> (Inl e, db1)
              | Inr None \<Rightarrow>
                  (Inl (UnauthorizedError ''API key owner not found or deactivated''), db1)
              | Inr (Some u) \<Rightarrow> (Inr (u, k'), db1)))"

definition create_api_key_for_user :: "(string \<Rightarrow> string) \<Rightarrow> env \<Rightarrow> uuid \<Rightarrow> string \<Rightarrow> uuid
    \<Rightarrow> uuid \<Rightarrow> string \<Rightarrow> string list \<Rightarrow> int option \<Rightarrow> db \<Rightarrow> (db, api_key \<times> string) outcome" where
  "create_api_key_for_user sha256 env new_id token_hex user_id org_id nm scps expires_in_days db =
     (let (raw_key, key_hash, key_prefix) = generate_api_key sha256 token_hex;
          expiry = (case expires_in_days of
                      None \<Rightarrow> None
                    | Some n \<Rightarrow> if n = 0 then None else Some (now env + days n));
          k = \<lparr>ident = new_id, created_at = now env, updated_at = now env, deleted_at = None,
               organization_id = org_id, key_name = nm, key_hash = key_hash,
               key_prefix = key_prefix, key_user_id = user_id, scopes = scps,
               expires_at = expiry, last_used_at = None, is_revoked = False\<rparr>;
          db1 = db\<lparr>api_keys := insert_row k (api_keys db)\<rparr>
      in case audit_action_attr ''API_KEY_CREATED'' of
           Inl e \<Rightarrow> (Inl e, db1)
         | Inr a \<Rightarrow>
             (Inr (k, raw_key),
              create_audit_log env a ''api_key'' (Some new_id) (Some org_id) (Some user_id)
                None ''success'' None db1))"

definition revoke_api_key :: "env \<Rightarrow> uuid \<Rightarrow> uuid \<Rightarrow> uuid \<Rightarrow> db \<Rightarrow> (db, unit) outcome" where
  "revoke_api_key env key_id org_id user_id db =
     (case fetch_scoped ''API key'' key_id org_id (api_keys db) of
        Inl e \<Rightarrow> (Inl e, db)
      | Inr k \<Rightarrow>
        (let db1 = db\<lparr>api_keys := update_where (\<lambda>x. ident x = key_id)
               (\<lambda>x. orm_flush (now env) x (x\<lparr>is_revoked := True\<rparr>)) (api_keys db)\<rparr>
         in case audit_action_attr ''API_KEY_REVOKED'' of
              Inl e \<Rightarrow> (Inl e, db1)
            | Inr a \<Rightarrow>
                (Inr (), create_audit_log env a ''api_key'' (Some key_id) (Some org_id)
                   (Some user_id) None ''success'' None db1)))"

subsection \<open>Authenticating a request\<close>

text \<open>\<open>bearer\<close> is the credential of the \<open>Authorization\<close> header and
  \<open>x_api_key\<close> the other header; \<open>empty_tok\<close> is the empty token. The first user is
  the oldest one, in development only.\<close>

definition get_current_user :: "(string \<Rightarrow> string) \<Rightarrow> (timestamp \<Rightarrow> 'tok \<Rightarrow> exn + jwt_claims)
    \<Rightarrow> auth_settings \<Rightarrow> env \<Rightarrow> 'tok option \<Rightarrow> string option \<Rightarrow> db \<Rightarrow> (db, user) outcome" where
  "get_current_user sha256 decode st env bearer x_api_key db =
     (case bearer of
        Some tok \<Rightarrow>
          (case decode (now env) tok of
             Inl _ \<Rightarrow> (Inl (UnauthorizedError ''Invalid or expired access token''), db)
           | Inr c \<Rightarrow>
             if type_claim c \<noteq> Some (token_type_value ACCESS)
             then (Inl (UnauthorizedError ''Invalid token type''), db)
             else case (sub c, org_claim c) of
               (None, _) \<Rightarrow> (Inl (KeyError ''sub''), db)
             | (Some _, None) \<Rightarrow> (Inl (KeyError ''org''), db)
             | (Some uid, Some _) \<Rightarrow>
               (case active_user_query uid db of
                  Inl e \<Rightarrow> (Inl e, db)
                | Inr None \<Rightarrow> (Inl (UnauthorizedError ''User not found or deactivated''), db)
                | Inr (Some u) \<Rightarrow> (Inr u, db)))
      | None \<Rightarrow>
        (case x_api_key of
           Some (ch # key) \<Rightarrow>
             (case authenticate_api_key sha256 env (ch # key) db of
                (Inl e, d) \<Rightarrow> (Inl e, d)
              | (Inr (u, _), d) \<Rightarrow> (Inr u, d))
         | _ \<Rightarrow>
           if is_development st
           then case take 1 (order_by_asc created_at
                      (select_where (\<lambda>u. is_active u \<and> active u) (users db))) of
                  [] \<Rightarrow> (Inl (UnauthorizedError ''Development bypass failed''), db)
                | u # _ \<Rightarrow> (Inr u, db)
           else (Inl (UnauthorizedError ''Authentication required''), db)))"

subsection \<open>Library\<close>

lemma set_hyphenate: "c \<in> set (hyphenate b s) \<Longrightarrow> c = CHR ''-'' \<or> (c \<in> set s \<and> \<not> is_sep c)"
  by (induction b s rule: hyphenate.induct) (auto split: if_splits)

lemma audit_unknown [simp]:
  "audit_action_attr ''TOKEN_REFRESH'' = Inl (AttributeError ''TOKEN_REFRESH'')"
  "audit_action_attr ''API_KEY_CREATED'' = Inl (AttributeError ''API_KEY_CREATED'')"
  "audit_action_attr ''API_KEY_REVOKED'' = Inl (AttributeError ''API_KEY_REVOKED'')"
  by (simp_all add: audit_action_attr_def audit_members_def)

lemma user_response_fails: "user_response u = Inl (ValueError ''UserResponse'')"
  by (simp add: user_response_def user_response_fields_def user_attributes_def)

lemma active_user_query_Some:
  assumes "unique_ids (users db)"
  shows "active_user_query uid db = Inr (Some u) \<longleftrightarrow>
    u \<in> set (users db) \<and> ident u = uid \<and> is_active u \<and> active u"
  using lookup_where_Some [OF assms, of "\<lambda>u. is_active u \<and> active u" uid u]
  by (simp add: active_user_query_def lookup_where_def)

text \<open>The login of a user found by the query.\<close>

lemma authenticate_user_found:
  assumes "filter (\<lambda>u. email u = eml \<and> active u) (users db) = [u]"
    and "is_active u" "\<not> is_locked u"
  shows "\<not> verify password (hashed_password u) \<Longrightarrow>
      fst (authenticate_user verify encode st env j eml password db) =
      Inl (UnauthorizedError ''Invalid email or password'')"
    "verify password (hashed_password u) \<Longrightarrow>
      fst (authenticate_user verify encode st env j eml password db) =
      Inr (create_access_token encode st j (now env) (ident u) (organization_id u)
             (ModelRole (user_role u)) None,
           create_refresh_token encode st (now env) (ident u) (organization_id u),
           u\<lparr>failed_login_attempts := 0, last_login_at := Some (now env)\<rparr>)"
  using assms by (simp_all add: authenticate_user_def select_where_def Let_def)

lemma login_ok:
  assumes "filter (\<lambda>u. email u = eml \<and> active u) (users db) = [u]"
    and "is_active u" "\<not> is_locked u" "verify password (hashed_password u)"
  shows "is_ok (fst (login verify encode st env j eml password db))"
  unfolding login_def in_session_result
  by (subst authenticate_user_found(2) [where u = u]) (use assms in simp_all)

lemma orm_flush_user [simp]:
  "is_active (orm_flush n x (u::user)) = is_active u"
  "email (orm_flush n x u) = email u" "user_role (orm_flush n x u) = user_role u"
  "last_login_at (orm_flush n x u) = last_login_at u"
  "failed_login_attempts (orm_flush n x u) = failed_login_attempts u"
  by (auto simp: orm_flush_def touch_def)

lemma set_user_member:
  "unique_ids (users db) \<Longrightarrow> u \<in> set (users db) \<Longrightarrow>
   orm_flush (now env) u u' \<in> set (users (set_user env u u' db))"
  by (force simp: set_user_def set_update_where)

lemma set_user_unique:
  "ident u' = ident u \<Longrightarrow> unique_ids (users (set_user env u u' db)) = unique_ids (users db)"
  by (simp add: set_user_def) (rule unique_ids_update_where, simp)

subsection \<open>Properties\<close>

text \<open>C5: the account lockout never engages. Any number of failed logins leaves the database,
  and with it the counter of failed attempts, exactly as it was, because the increment is
  rolled back with the request that raises: the right password is accepted afterwards.
\<close>

theorem failed_logins_never_lock:
  assumes "filter (\<lambda>u. email u = eml \<and> active u) (users db) = [u]"
    and "is_active u" "\<not> is_locked u"
    and "\<forall>p \<in> set wrong. \<not> verify p (hashed_password u)"
    and "verify right (hashed_password u)"
  shows "login_attempts verify encode st env j eml wrong db = db
    \<and> is_ok (fst (login verify encode st env j eml right
               (login_attempts verify encode st env j eml wrong db)))"
proof -
  have "login_attempts verify encode st env j eml wrong db = db"
    using assms(4)
  proof (induction wrong)
    case (Cons p ps)
    then have "fst (authenticate_user verify encode st env j eml p db) =
        Inl (UnauthorizedError ''Invalid email or password'')"
      by (intro authenticate_user_found(1) [OF assms(1-3)]) simp
    then have "login verify encode st env j eml p db =
        (Inl (UnauthorizedError ''Invalid email or password''), db)"
      unfolding login_def by (rule in_session_rollback)
    with Cons show ?case by simp
  qed simp
  moreover have "is_ok (fst (login verify encode st env j eml right db))"
    using assms(1-3,5) by (rule login_ok)
  ultimately show ?thesis by simp
qed

text \<open>C16: a login gives a working session and no more. On success the password matched an
  active, unlocked user; the access token authenticates exactly that user in the new
  database until it expires, whatever other credential is sent, and the refresh token is
  refused as an access token.
\<close>

theorem login_grants_access:
  assumes codec: "jwt_codec encode decode" and uniq: "unique_ids (users db)"
    and ok: "login verify encode st env j eml password db = (Inr (access, refresh, u'), db')"
    and time: "seconds (now env') \<le> seconds (now env + minutes (jwt_access_token_expire_minutes st))"
      "seconds (now env') \<le> seconds (now env + days (jwt_refresh_token_expire_days st))"
  shows "\<exists>u. u \<in> set (users db) \<and> active u \<and> is_active u \<and> \<not> is_locked u
    \<and> email u = eml \<and> verify password (hashed_password u)
    \<and> (\<exists>cu. get_current_user sha256 decode st env' (Some access) key db' = (Inr cu, db')
         \<and> ident cu = ident u \<and> organization_id cu = organization_id u
         \<and> user_role cu = user_role u \<and> failed_login_attempts cu = 0)
    \<and> get_current_user sha256 decode st env' (Some refresh) key db' =
        (Inl (UnauthorizedError ''Invalid token type''), db')"
proof -
  from ok have a: "authenticate_user verify encode st env j eml password db =
      (Inr (access, refresh, u'), db')"
    unfolding login_def by (rule in_session_okD)
  obtain u where f: "filter (\<lambda>u. email u = eml \<and> active u) (users db) = [u]"
    and u: "is_active u" "\<not> is_locked u" "verify password (hashed_password u)"
    using a by (auto simp: authenticate_user_def select_where_def Let_def
        split: sum.splits option.splits if_splits)
  from filter_singletonD [OF f] have m: "u \<in> set (users db)" "email u = eml" "active u" by auto
  let ?u' = "u\<lparr>failed_login_attempts := 0, last_login_at := Some (now env)\<rparr>"
  let ?acc = "create_access_token encode st j (now env) (ident u) (organization_id u)
    (ModelRole (user_role u)) None"
  let ?ref = "create_refresh_token encode st (now env) (ident u) (organization_id u)"
  have eqs: "access = ?acc" "refresh = ?ref"
    "users db' = users (set_user env u ?u' db)"
    using a f u by (auto simp: authenticate_user_def select_where_def Let_def)
  let ?cu = "orm_flush (now env) u ?u'"
  have "unique_ids (users db')" by (simp add: eqs set_user_unique uniq)
  moreover have "?cu \<in> set (users db')"
    unfolding eqs(3) by (rule set_user_member [OF uniq m(1)])
  ultimately have q: "active_user_query (ident u) db' = Inr (Some ?cu)"
    using m(3) u(1) by (simp add: active_user_query_Some)
  let ?c = "\<lparr>jti = Some j, sub = Some (ident u), org_claim = Some (organization_id u),
     role_claim = Some (role_value (ModelRole (user_role u))),
     type_claim = Some (token_type_value ACCESS),
     exp_claim = Some (seconds (now env + minutes (jwt_access_token_expire_minutes st))),
     iat_claim = Some (seconds (now env))\<rparr>"
  have "decode (now env') (encode ?c) = Inr ?c"
    by (rule decode_access [OF codec _ time(1)]) simp
  then have "get_current_user sha256 decode st env' (Some access) key db' = (Inr ?cu, db')"
    using q by (simp add: get_current_user_def eqs create_access_token_def)
  moreover have "get_current_user sha256 decode st env' (Some refresh) key db' =
      (Inl (UnauthorizedError ''Invalid token type''), db')"
  proof -
    let ?r = "\<lparr>jti = None, sub = Some (ident u), org_claim = Some (organization_id u),
       role_claim = None, type_claim = Some (token_type_value REFRESH),
       exp_claim = Some (seconds (now env + days (jwt_refresh_token_expire_days st))),
       iat_claim = Some (seconds (now env))\<rparr>"
    have "decode (now env') (encode ?r) = Inr ?r"
      by (rule decode_access [OF codec _ time(2)]) simp
    then show ?thesis
      by (simp add: get_current_user_def eqs create_refresh_token_def)
  qed
  moreover have "ident ?cu = ident u \<and> organization_id ?cu = organization_id u
      \<and> user_role ?cu = user_role u \<and> failed_login_attempts ?cu = 0"
    by simp
  ultimately show ?thesis using m u by blast
qed

text \<open>Refreshing a token, creating an API key and revoking one never take effect. Each names a
  member that \<open>AuditAction\<close> does not have, so every request ends in an error and its
  writes are rolled back: a key stays usable after every attempt to revoke it.
\<close>

theorem key_requests_never_commit:
  "(\<exists>e. in_session (refresh_access_token encode decode st env j tok) db = (Inl e, db))
   \<and> in_session (create_api_key_for_user sha256 env kid hx uid org nm scps ttl) db =
       (Inl (AttributeError ''API_KEY_CREATED''), db)
   \<and> (\<exists>e. in_session (revoke_api_key env kid org uid) db = (Inl e, db))"
proof (intro conjI)
  have "\<exists>e. fst (refresh_access_token encode decode st env j tok db) = Inl e"
    by (auto simp: refresh_access_token_def Let_def split: sum.splits option.splits)
  then show "\<exists>e. in_session (refresh_access_token encode decode st env j tok) db = (Inl e, db)"
    by (auto intro: in_session_rollback)
  show "in_session (create_api_key_for_user sha256 env kid hx uid org nm scps ttl) db =
      (Inl (AttributeError ''API_KEY_CREATED''), db)"
    by (rule in_session_rollback) (simp add: create_api_key_for_user_def generate_api_key_def Let_def)
  have "\<exists>e. fst (revoke_api_key env kid org uid db) = Inl e"
    by (auto simp: revoke_api_key_def Let_def split: sum.splits)
  then show "\<exists>e. in_session (revoke_api_key env kid org uid) db = (Inl e, db)"
    by (auto intro: in_session_rollback)
qed


text \<open>
  Who an API key authenticates. A request with a key alone succeeds exactly when one
  unrevoked, unexpired key row has the hash of the key and its owner is active; whether
  the owner was deleted is not looked at, so the key of a deleted user keeps working while
  a token of that user is refused.
\<close>

theorem api_key_ignores_deleted_owner:
  assumes "unique_ids (users db)"
    and "distinct (map key_hash (api_keys db))" "ch # raw = key"
  shows "(\<exists>k d. authenticate_api_key sha256 env key db = (Inr (u, k), d)) \<longleftrightarrow>
      u \<in> set (users db) \<and> is_active u \<and>
      (\<exists>k \<in> set (api_keys db). key_hash k = sha256 key \<and> active k \<and>
         key_is_valid (now env) k \<and> key_user_id k = ident u)"
    (is "?L \<longleftrightarrow> ?R")
proof
  let ?K = "\<lambda>k. key_hash k = sha256 key \<and> \<not> is_revoked k \<and> active k"
  {
    assume ?L
    then obtain k where k: "filter ?K (api_keys db) = [k]" "key_is_valid (now env) k"
      and u: "filter (\<lambda>u. ident u = key_user_id k \<and> is_active u) (users db) = [u]"
      by (auto simp: authenticate_api_key_def select_where_def hash_api_key_def Let_def
          split: sum.splits option.splits if_splits)
    from filter_singletonD [OF k(1)] filter_singletonD [OF u] k(2) show ?R by auto
  }
  {
    assume ?R
    then obtain k where k: "k \<in> set (api_keys db)" "key_hash k = sha256 key" "active k"
        "key_is_valid (now env) k" "key_user_id k = ident u"
      and u: "u \<in> set (users db)" "is_active u" by blast
    from k(4) have "\<not> is_revoked k" by (auto simp: key_is_valid_def)
    with k filter_key_unique [OF assms(2) k(1), of "\<lambda>k. \<not> is_revoked k \<and> active k"]
    have f: "filter ?K (api_keys db) = [k]" by simp
    have g: "filter (\<lambda>x. ident x = ident u \<and> is_active x) (users db) = [u]"
      using filter_key_unique [of ident "users db" u is_active] assms(1) u
      by (simp add: unique_ids_def)
    show ?L
      using f g k(4,5)
      by (simp add: authenticate_api_key_def select_where_def hash_api_key_def Let_def)
  }
qed

text \<open>
  Registration. It is refused with a conflict when the address or the slug is taken, and
  otherwise adds one organization on the free plan and its administrator; but the endpoint
  that calls it always ends in an error, because the response schema asks for a field that
  users do not have, and so registers nobody.
\<close>

theorem register_service_and_endpoint:
  shows "(register_user hash_pw env oid uid eml pw fn nm db = (Inr (u, org'), db') \<longrightarrow>
      (\<forall>x \<in> set (users db). email x \<noteq> eml) \<and>
      (\<forall>x \<in> set (organizations db). slug x \<noteq> slugify nm) \<and>
      users db' = users db @ [u] \<and> organizations db' = organizations db @ [org'] \<and>
      user_role u = UR_ADMIN \<and> organization_id u = ident org' \<and> plan_tier org' = FREE \<and>
      hashed_password u = hash_pw pw)
    \<and> (\<exists>e. register_endpoint hash_pw env oid uid eml pw fn nm db = (Inl e, db))"
proof (intro conjI impI)
  assume r: "register_user hash_pw env oid uid eml pw fn nm db = (Inr (u, org'), db')"
  then have f: "filter (\<lambda>u. email u = eml) (users db) = []"
    "filter (\<lambda>o'. slug o' = slugify nm) (organizations db) = []"
    by (auto simp: register_user_def select_where_def Let_def
        split: sum.splits option.splits)
  then show "\<forall>x \<in> set (users db). email x \<noteq> eml"
    "\<forall>x \<in> set (organizations db). slug x \<noteq> slugify nm"
    by (simp_all add: filter_empty_conv)
  from r f show "users db' = users db @ [u]" "organizations db' = organizations db @ [org']"
    "user_role u = UR_ADMIN" "organization_id u = ident org'" "plan_tier org' = FREE"
    "hashed_password u = hash_pw pw"
    by (auto simp: register_user_def select_where_def Let_def insert_row_def)
next
  obtain r d where r: "register_user hash_pw env oid uid eml pw fn nm db = (r, d)" by fastforce
  show "\<exists>e. register_endpoint hash_pw env oid uid eml pw fn nm db = (Inl e, db)"
    unfolding register_endpoint_def
    by (cases r) (auto simp: r user_response_fails intro!: exI in_session_rollback)
qed

text \<open>
  A slug is short and contains only hyphens and lower-case word characters, without
  spaces or underscores. It may still be empty or start with a hyphen, which the slug
  validator refuses.
\<close>

theorem slugify_shape:
  "length (slugify nm) \<le> 63
   \<and> (\<forall>c \<in> set (slugify nm). c = CHR ''-'' \<or> (is_word c \<and> c \<noteq> CHR ''_'' \<and> \<not> is_upper c))
   \<and> slugify ''- Acme_ Labs!'' = ''--acme-labs'' \<and> slugify ''!'' = []"
proof (intro conjI ballI)
  show "length (slugify nm) \<le> 63" by (simp add: slugify_def Let_def)
  fix c assume "c \<in> set (slugify nm)"
  then have "c \<in> set (hyphenate False (filter (\<lambda>c. is_word c \<or> is_space c \<or> c = CHR ''-'')
      (str_strip (str_lower nm))))"
    by (auto simp: slugify_def Let_def dest: in_set_takeD)
  then have "c = CHR ''-'' \<or> (c \<in> set (str_strip (str_lower nm)) \<and> is_word c \<and> \<not> is_sep c)"
    by (auto dest!: set_hyphenate simp: is_sep_def)
  then show "c = CHR ''-'' \<or> (is_word c \<and> c \<noteq> CHR ''_'' \<and> \<not> is_upper c)"
    using set_str_strip [of "str_lower nm"] by (auto simp: is_sep_def str_lower_def)
next
  show "slugify ''- Acme_ Labs!'' = ''--acme-labs''" "slugify ''!'' = []"
    by code_simp+
qed

subsection \<open>Witnesses\<close>

definition auth_db :: db where
  "auth_db = sample_db DRAFT PENDING"

definition sample_verify :: "string \<Rightarrow> string \<Rightarrow> bool" where
  "sample_verify p h \<longleftrightarrow> p = h"

lemma auth_db_user:
  "filter (\<lambda>u. email u = ''a@b.c'' \<and> active u) (users auth_db) = [sample_user UR_ADMIN 0]"
  by (simp add: auth_db_def sample_user_def)

theorem failed_logins_never_lock_witness:
  "login_attempts sample_verify (\<lambda>c. c) default_settings sample_env 9 ''a@b.c''
     [''x'', ''y'', ''z'', ''x'', ''y'', ''z''] auth_db = auth_db
   \<and> is_ok (fst (login sample_verify (\<lambda>c. c) default_settings sample_env 9 ''a@b.c'' ''hash''
       (login_attempts sample_verify (\<lambda>c. c) default_settings sample_env 9 ''a@b.c''
          [''x'', ''y'', ''z'', ''x'', ''y'', ''z''] auth_db)))"
  by (rule failed_logins_never_lock [OF auth_db_user])
    (simp_all add: sample_user_def sample_verify_def is_locked_def MAX_FAILED_ATTEMPTS_def)

theorem login_grants_access_witness:
  "\<exists>access refresh u' db'. login sample_verify (\<lambda>c. c) default_settings sample_env 9
       ''a@b.c'' ''hash'' auth_db = (Inr (access, refresh, u'), db')
     \<and> (\<exists>cu. get_current_user (\<lambda>k. k) plain_decode default_settings sample_env (Some access)
          None db' = (Inr cu, db'))"
proof -
  let ?l = "login sample_verify (\<lambda>c. c) default_settings sample_env 9 ''a@b.c'' ''hash'' auth_db"
  have "is_ok (fst ?l)"
    by (rule login_ok [OF auth_db_user])
      (simp_all add: sample_user_def sample_verify_def is_locked_def MAX_FAILED_ATTEMPTS_def)
  then obtain a r u d where l: "?l = (Inr (a, r, u), d)"
    by (cases ?l) (auto simp: is_ok_iff)
  have "unique_ids (users auth_db)" by (simp add: auth_db_def)
  from login_grants_access [OF plain_codec this l, of sample_env "\<lambda>k. k" None]
  obtain cu where "get_current_user (\<lambda>k. k) plain_decode default_settings sample_env (Some a)
      None d = (Inr cu, d)"
    by (auto simp: sample_env_def default_settings_def seconds_def minutes_def days_def)
  with l show ?thesis by blast
qed

definition sample_key :: api_key where
  "sample_key = \<lparr>ident = 6, created_at = 0, updated_at = 0, deleted_at = None,
     organization_id = 1, key_name = ''ci'', key_hash = ''ev_1'', key_prefix = ''ev_1'',
     key_user_id = 2, scopes = [], expires_at = None, last_used_at = None, is_revoked = False\<rparr>"

theorem api_key_ignores_deleted_owner_witness:
  "\<exists>k d. authenticate_api_key (\<lambda>k. k) sample_env ''ev_1''
     (auth_db\<lparr>api_keys := [sample_key], users := [soft_delete 10 (sample_user UR_ADMIN 0)]\<rparr>) =
     (Inr (soft_delete 10 (sample_user UR_ADMIN 0), k), d)"
proof -
  let ?db = "auth_db\<lparr>api_keys := [sample_key], users := [soft_delete 10 (sample_user UR_ADMIN 0)]\<rparr>"
  let ?u = "soft_delete 10 (sample_user UR_ADMIN 0)"
  have "unique_ids (users ?db)" "distinct (map key_hash (api_keys ?db))" by simp_all
  from api_key_ignores_deleted_owner [OF this, of "CHR ''e''" "''v_1''" "''ev_1''" "\<lambda>k. k"
      sample_env ?u]
  show ?thesis
    by (simp add: sample_key_def sample_user_def soft_delete_def key_is_valid_def)
qed

theorem register_service_and_endpoint_witness:
  "\<exists>u o' d. register_user (\<lambda>p. p) sample_env 11 12 ''n@b.c'' ''pw'' ''Nn'' ''New Org'' auth_db =
     (Inr (u, o'), d) \<and> users d = users auth_db @ [u] \<and> user_role u = UR_ADMIN"
proof -
  let ?t = "register_user (\<lambda>p. p) sample_env 11 12 ''n@b.c'' ''pw'' ''Nn'' ''New Org'' auth_db"
  have "slugify ''New Org'' = ''new-org''" by code_simp
  then have "?t = (Inr (fst (projr (fst ?t)), snd (projr (fst ?t))), snd ?t)"
    by (simp add: register_user_def select_where_def auth_db_def sample_user_def sample_org_def
        Let_def)
  then show ?thesis
    using register_service_and_endpoint [of "\<lambda>p. p" sample_env 11 12 "''n@b.c''" "''pw''"
        "''Nn''" "''New Org''" auth_db "fst (projr (fst ?t))" "snd (projr (fst ?t))" "snd ?t"]
    by blast
qed

theorem slugify_shape_witness:
  "length (slugify ''New_Org 2!'') \<le> 63 \<and> CHR ''_'' \<notin> set (slugify ''New_Org 2!'')"
  using slugify_shape [of "''New_Org 2!''"] by force

end
