(* ===== verification/Api.thy ===== *)
theory Api
  imports Results MetricService AuthService
begin

section \<open>The endpoints of submissions, evaluations and metrics (\<open>api/v1/\<close>)\<close>

text \<open>
  An endpoint authenticates the user (the argument \<open>u\<close>, see \<open>get_current_user\<close> in theory
  \<open>Security\<close>), checks the role it requires, validates the body, calls the service inside the
  session of the request and builds the response schema from the row. Reads need no role. A
  session rolls back the database but not Redis.
\<close>

definition guarded :: "role \<Rightarrow> user \<Rightarrow> ('s \<Rightarrow> ('s, 'a) outcome) \<Rightarrow> 's \<Rightarrow> ('s, 'a) outcome" where
  "guarded required u h s = (case require_role required u of Inl e \<Rightarrow> (Inl e, s) | Inr _ \<Rightarrow> h s)"

definition validated :: "string list \<Rightarrow> ('s \<Rightarrow> ('s, 'a) outcome) \<Rightarrow> 's \<Rightarrow> ('s, 'a) outcome" where
  "validated errors h s = (if errors \<noteq> [] then (Inl (RequestValidationError errors), s) else h s)"

definition respond :: "('a \<Rightarrow> exn + 'b) \<Rightarrow> ('s, 'a) outcome \<Rightarrow> ('s, 'b) outcome" where
  "respond f out = (case out of (Inl e, s) \<Rightarrow> (Inl e, s) | (Inr x, s) \<Rightarrow> (f x, s))"

definition svc_session :: "(svc_state \<Rightarrow> (svc_state, 'a) outcome) \<Rightarrow> svc_state \<Rightarrow> (svc_state, 'a) outcome" where
  "svc_session h st = (case h st of
     (Inr x, st') \<Rightarrow> (Inr x, st')
   | (Inl e, st') \<Rightarrow> (Inl e, (fst st, snd st')))"

definition too_long :: "nat \<Rightarrow> string option \<Rightarrow> bool" where
  "too_long n s = (case s of None \<Rightarrow> False | Some x \<Rightarrow> length x > n)"

subsection \<open>Submissions\<close>

record submission_create =
  sc_startup_name :: string
  sc_description :: "string option"
  sc_website_url :: "string option"
  sc_pitch_deck_url :: "string option"
  sc_metadata :: json

definition submission_create_errors :: "submission_create \<Rightarrow> string list" where
  "submission_create_errors b =
     (if sc_startup_name b = [] \<or> length (sc_startup_name b) > 255 then [''startup_name''] else [])
     @ (if too_long 2048 (sc_website_url b) then [''website_url''] else [])
     @ (if too_long 2048 (sc_pitch_deck_url b) then [''pitch_deck_url''] else [])"

definition submission_columns :: "string list" where
  "submission_columns = base_columns @ [''organization_id'', ''submitted_by_id'', ''startup_name'',
     ''description'', ''website_url'', ''pitch_deck_url'', ''status'', ''metadata_'', ''raw_content'']"

definition submission_response_fields :: "string list" where
  "submission_response_fields = [''created_at'', ''updated_at'', ''id'', ''organization_id'',
     ''submitted_by_id'', ''startup_name'', ''description'', ''website_url'', ''pitch_deck_url'',
     ''status'', ''metadata_'']"

definition submission_response :: "submission \<Rightarrow> exn + submission" where
  "submission_response s =
     schema_response ''SubmissionResponse'' submission_response_fields submission_columns s"

fun submission_status_value :: "submission_status \<Rightarrow> string" where
  "submission_status_value DRAFT = ''draft''"
| "submission_status_value SUBMITTED = ''submitted''"
| "submission_status_value UNDER_REVIEW = ''under_review''"
| "submission_status_value EVALUATED = ''evaluated''"
| "submission_status_value ARCHIVED = ''archived''"

text \<open>\<open>SubmissionStatus(text)\<close>; the endpoint drops a text that is no status.\<close>

definition parse_submission_status :: "string option \<Rightarrow> submission_status option" where
  "parse_submission_status s = (case s of None \<Rightarrow> None
   | Some x \<Rightarrow> if x = [] then None
               else find (\<lambda>st. submission_status_value st = x) [DRAFT, SUBMITTED, UNDER_REVIEW, EVALUATED, ARCHIVED])"

definition create_submission_endpoint :: "env \<Rightarrow> uuid \<Rightarrow> user \<Rightarrow> submission_create \<Rightarrow> db
    \<Rightarrow> (db, submission) outcome" where
  "create_submission_endpoint env sid u b =
     in_session (guarded MEMBER u (validated (submission_create_errors b) (\<lambda>db.
       respond submission_response (create_submission env sid (organization_id u) (ident u)
         (sc_startup_name b) (sc_description b) (sc_website_url b) (sc_pitch_deck_url b)
         (Some (sc_metadata b)) db))))"

definition list_submissions_endpoint :: "user \<Rightarrow> int \<times> int \<Rightarrow> string option \<Rightarrow> db
    \<Rightarrow> exn + submission paginated_response" where
  "list_submissions_endpoint u pagination status_filter db =
     (case list_submissions (organization_id u) (parse_submission_status status_filter)
             (fst pagination) (snd pagination) db of
        Inl e \<Rightarrow> Inl e
      | Inr (xs, tot) \<Rightarrow>
        (case schema_responses ''SubmissionResponse'' submission_response_fields submission_columns xs of
           Inl e \<Rightarrow> Inl e | Inr items \<Rightarrow> build_paginated_response items (int tot) pagination))"

definition get_submission_endpoint :: "user \<Rightarrow> uuid \<Rightarrow> db \<Rightarrow> exn + submission" where
  "get_submission_endpoint u sid db =
     (case get_submission sid (organization_id u) db of Inl e \<Rightarrow> Inl e | Inr s \<Rightarrow> submission_response s)"

definition update_submission_endpoint :: "env \<Rightarrow> user \<Rightarrow> uuid \<Rightarrow> submission_update list \<Rightarrow> db
    \<Rightarrow> (db, submission) outcome" where
  "update_submission_endpoint env u sid updates =
     in_session (guarded MEMBER u (\<lambda>db. respond submission_response
       (update_submission env sid (organization_id u) (ident u) updates db)))"

definition delete_submission_endpoint :: "env \<Rightarrow> user \<Rightarrow> uuid \<Rightarrow> db \<Rightarrow> (db, string) outcome" where
  "delete_submission_endpoint env u sid =
     in_session (guarded MEMBER u (\<lambda>db. respond (\<lambda>_. Inr ''Submission deleted successfully'')
       (delete_submission env sid (organization_id u) (ident u) db)))"

definition evaluation_run_attributes :: "string list" where
  "evaluation_run_attributes = base_columns @ [''version'', ''submission_id'', ''config_id'',
     ''organization_id'', ''triggered_by_id'', ''status'', ''started_at'', ''completed_at'',
     ''total_workers'', ''completed_workers'', ''failed_workers'', ''overall_score'',
     ''error_message'', ''celery_task_id'', ''config_snapshot'', ''run_metadata'', ''progress_pct'',
     ''is_terminal'']"

definition evaluation_run_response_fields :: "string list" where
  "evaluation_run_response_fields = [''created_at'', ''updated_at'', ''id'', ''submission_id'',
     ''config_id'', ''organization_id'', ''triggered_by_id'', ''status'', ''started_at'',
     ''completed_at'', ''total_workers'', ''completed_workers'', ''failed_workers'',
     ''overall_score'', ''error_message'', ''celery_task_id'', ''config_snapshot'',
     ''run_metadata'', ''progress_pct'']"

definition run_response :: "evaluation_run \<Rightarrow> exn + evaluation_run" where
  "run_response r =
     schema_response ''EvaluationRunResponse'' evaluation_run_response_fields evaluation_run_attributes r"

definition trigger_evaluation_endpoint :: "env \<Rightarrow> (uuid \<Rightarrow> exn + string) \<Rightarrow> uuid \<Rightarrow> user \<Rightarrow> uuid
    \<Rightarrow> uuid option \<Rightarrow> json \<Rightarrow> db \<Rightarrow> (db, evaluation_run) outcome" where
  "trigger_evaluation_endpoint env delay rid u sid cid meta =
     in_session (guarded MEMBER u (\<lambda>db. respond run_response
       (trigger_evaluation env delay rid sid (organization_id u) (ident u) cid (Some meta) db)))"

subsection \<open>Pipeline configurations\<close>

record config_create =
  cc_name :: string
  cc_description :: "string option"
  cc_pipeline_config :: json
  cc_webhook_url :: "string option"
  cc_is_template :: bool

definition config_create_errors :: "config_create \<Rightarrow> string list" where
  "config_create_errors b =
     (if cc_name b = [] \<or> length (cc_name b) > 255 then [''name''] else [])
     @ (if too_long 2048 (cc_webhook_url b) then [''webhook_url''] else [])"

definition config_columns :: "string list" where
  "config_columns = base_columns @ [''version'', ''name'', ''description'', ''organization_id'',
     ''created_by_id'', ''pipeline_config'', ''webhook_url'', ''is_template'']"

definition config_response_fields :: "string list" where
  "config_response_fields = [''created_at'', ''updated_at'', ''id'', ''name'', ''description'',
     ''organization_id'', ''created_by_id'', ''pipeline_config'', ''webhook_url'', ''is_template'',
     ''version'']"

definition config_response :: "evaluation_config \<Rightarrow> exn + evaluation_config" where
  "config_response c =
     schema_response ''EvaluationConfigResponse'' config_response_fields config_columns c"

definition create_config_endpoint :: "env \<Rightarrow> uuid \<Rightarrow> user \<Rightarrow> config_create \<Rightarrow> db
    \<Rightarrow> (db, evaluation_config) outcome" where
  "create_config_endpoint env cid u b =
     in_session (guarded MEMBER u (validated (config_create_errors b) (\<lambda>db.
       respond config_response (create_evaluation_config env cid (organization_id u) (ident u)
         (cc_name b) (cc_description b) (Some (cc_pipeline_config b)) (cc_webhook_url b)
         (cc_is_template b) db))))"

definition list_configs_endpoint :: "user \<Rightarrow> int \<times> int \<Rightarrow> db
    \<Rightarrow> exn + evaluation_config paginated_response" where
  "list_configs_endpoint u pagination db =
     (case list_evaluation_configs (organization_id u) (fst pagination) (snd pagination) db of
        Inl e \<Rightarrow> Inl e
      | Inr (xs, tot) \<Rightarrow>
        (case schema_responses ''EvaluationConfigResponse'' config_response_fields config_columns xs of
           Inl e \<Rightarrow> Inl e | Inr items \<Rightarrow> build_paginated_response items (int tot) pagination))"

definition get_config_endpoint :: "user \<Rightarrow> uuid \<Rightarrow> db \<Rightarrow> exn + evaluation_config" where
  "get_config_endpoint u cid db =
     (case get_evaluation_config cid (organization_id u) db of Inl e \<Rightarrow> Inl e | Inr c \<Rightarrow> config_response c)"

definition update_config_endpoint :: "env \<Rightarrow> user \<Rightarrow> uuid \<Rightarrow> config_update list \<Rightarrow> svc_state
    \<Rightarrow> (svc_state, evaluation_config) outcome" where
  "update_config_endpoint env u cid updates =
     svc_session (guarded MEMBER u (\<lambda>st. respond config_response
       (update_evaluation_config env cid (organization_id u) (ident u) updates st)))"

definition delete_config_endpoint :: "env \<Rightarrow> user \<Rightarrow> uuid \<Rightarrow> svc_state \<Rightarrow> (svc_state, string) outcome" where
  "delete_config_endpoint env u cid =
     svc_session (guarded ADMIN u (\<lambda>st. respond (\<lambda>_. Inr ''Configuration deleted successfully'')
       (delete_evaluation_config env cid (organization_id u) (ident u) st)))"

subsection \<open>Runs\<close>

definition parse_run_status :: "string option \<Rightarrow> run_status option" where
  "parse_run_status s = (case s of None \<Rightarrow> None
   | Some x \<Rightarrow> if x = [] then None
               else find (\<lambda>st. run_status_value st = x) [PENDING, RUNNING, COMPLETED, FAILED, CANCELLED])"

definition list_runs_endpoint :: "user \<Rightarrow> int \<times> int \<Rightarrow> uuid option \<Rightarrow> uuid option \<Rightarrow> string option \<Rightarrow> db
    \<Rightarrow> exn + evaluation_run paginated_response" where
  "list_runs_endpoint u pagination sid cid status_filter db =
     (case list_evaluation_runs (organization_id u) sid cid (parse_run_status status_filter)
             (fst pagination) (snd pagination) db of
        Inl e \<Rightarrow> Inl e
      | Inr (xs, tot) \<Rightarrow>
        (case schema_responses ''EvaluationRunResponse'' evaluation_run_response_fields
                evaluation_run_attributes xs of
           Inl e \<Rightarrow> Inl e | Inr items \<Rightarrow> build_paginated_response items (int tot) pagination))"

definition get_run_endpoint :: "user \<Rightarrow> uuid \<Rightarrow> db \<Rightarrow> exn + evaluation_run" where
  "get_run_endpoint u rid db =
     (case get_evaluation_run rid (organization_id u) db of Inl e \<Rightarrow> Inl e | Inr r \<Rightarrow> run_response r)"

definition cancel_run_endpoint :: "env \<Rightarrow> (string \<Rightarrow> exn + unit) \<Rightarrow> user \<Rightarrow> uuid \<Rightarrow> db
    \<Rightarrow> (db, evaluation_run) outcome" where
  "cancel_run_endpoint env revoke u rid =
     in_session (guarded MEMBER u (\<lambda>db. respond run_response
       (cancel_evaluation_run env revoke rid (organization_id u) (ident u) db)))"

subsection \<open>Metrics\<close>

record metric_create =
  mc_name :: string
  mc_display_name :: string
  mc_description :: "string option"
  mc_metric_type :: metric_type
  mc_computation_config :: json
  mc_higher_is_better :: bool
  mc_min_value :: rat
  mc_max_value :: rat

definition metric_create_errors :: "metric_create \<Rightarrow> string list" where
  "metric_create_errors b =
     (if mc_name b = [] \<or> length (mc_name b) > 255 then [''name''] else [])
     @ (if mc_display_name b = [] \<or> length (mc_display_name b) > 255 then [''display_name''] else [])"

definition metric_columns :: "string list" where
  "metric_columns = base_columns @ [''name'', ''display_name'', ''description'', ''organization_id'',
     ''metric_type'', ''computation_config'', ''higher_is_better'', ''min_value'', ''max_value'',
     ''is_builtin'']"

definition metric_response_fields :: "string list" where
  "metric_response_fields = [''created_at'', ''updated_at'', ''id'', ''name'', ''display_name'',
     ''description'', ''organization_id'', ''metric_type'', ''computation_config'',
     ''higher_is_better'', ''min_value'', ''max_value'', ''is_builtin'']"

definition metric_response :: "metric \<Rightarrow> exn + metric" where
  "metric_response m = schema_response ''MetricResponse'' metric_response_fields metric_columns m"

definition list_metrics_endpoint :: "(string \<Rightarrow> nat) \<Rightarrow> user \<Rightarrow> int \<times> int \<Rightarrow> db
    \<Rightarrow> exn + metric paginated_response" where
  "list_metrics_endpoint collation u pagination db =
     (case list_metrics collation (organization_id u) (fst pagination) (snd pagination) db of
        Inl e \<Rightarrow> Inl e
      | Inr (xs, tot) \<Rightarrow>
        (case schema_responses ''MetricResponse'' metric_response_fields metric_columns xs of
           Inl e \<Rightarrow> Inl e | Inr items \<Rightarrow> build_paginated_response items (int tot) pagination))"

definition get_metric_endpoint :: "user \<Rightarrow> uuid \<Rightarrow> db \<Rightarrow> exn + metric" where
  "get_metric_endpoint u mid db =
     (case get_metric mid (organization_id u) db of Inl e \<Rightarrow> Inl e | Inr m \<Rightarrow> metric_response m)"

definition create_metric_endpoint :: "env \<Rightarrow> uuid \<Rightarrow> user \<Rightarrow> metric_create \<Rightarrow> db
    \<Rightarrow> (db, metric) outcome" where
  "create_metric_endpoint env mid u b =
     in_session (guarded MEMBER u (validated (metric_create_errors b) (\<lambda>db.
       respond metric_response (create_custom_metric env mid (organization_id u) (ident u)
         (mc_name b) (mc_display_name b) (mc_description b) (mc_metric_type b)
         (Some (mc_computation_config b)) (mc_higher_is_better b) (mc_min_value b) (mc_max_value b) db))))"

subsection \<open>Responses\<close>

lemma schema_fields_present:
  "list_all (\<lambda>f. f \<in> set submission_columns) submission_response_fields"
  "list_all (\<lambda>f. f \<in> set evaluation_run_attributes) evaluation_run_response_fields"
  "list_all (\<lambda>f. f \<in> set config_columns) config_response_fields"
  "list_all (\<lambda>f. f \<in> set metric_columns) metric_response_fields"
  by (simp_all only: submission_response_fields_def submission_columns_def
      evaluation_run_response_fields_def evaluation_run_attributes_def config_response_fields_def
      config_columns_def metric_response_fields_def metric_columns_def base_columns_def
      list.pred_inject set_append list.set Un_iff insert_iff simp_thms)

lemma api_responses [simp]:
  "submission_response x = Inr x" "run_response r = Inr r" "config_response c = Inr c"
  "metric_response m = Inr m"
  by (simp_all add: submission_response_def run_response_def config_response_def metric_response_def
      schema_response_def schema_fields_present)

lemma api_listings [simp]:
  "schema_responses sc submission_response_fields submission_columns xs = Inr xs"
  "schema_responses sc evaluation_run_response_fields evaluation_run_attributes rs = Inr rs"
  "schema_responses sc config_response_fields config_columns cs = Inr cs"
  "schema_responses sc metric_response_fields metric_columns ms = Inr ms"
  by (simp_all add: schema_responses_ok schema_fields_present)

lemma respond_Inr [simp]: "respond Inr out = out"
  by (auto simp: respond_def split: prod.splits sum.splits)

lemma respond_responses [simp]:
  "respond submission_response o1 = o1" "respond run_response o2 = o2"
  "respond config_response o3 = o3" "respond metric_response o4 = o4"
  by (auto simp: respond_def split: prod.splits sum.splits)

text \<open>Who may pass a role check: \<open>require_role\<close> compares names and values of two enumerations.\<close>

definition forbidden :: exn where
  "forbidden = ForbiddenError ''This action requires role or higher''"

lemma require_role_cases:
  "require_role rq u = (if user_role u = UR_ADMIN \<or> (user_role u = UR_VIEWER \<and> rq = VIEWER)
     then Inr u else Inl forbidden)"
  by (cases "user_role u"; cases rq;
      simp add: require_role_def has_permission_def dict_get_hierarchy forbidden_def)

lemma not_admin_forbidden:
  "user_role u \<noteq> UR_ADMIN \<Longrightarrow> rq \<in> {MEMBER, ADMIN} \<Longrightarrow> require_role rq u = Inl forbidden"
  by (auto simp: require_role_cases)

lemma guarded_forbidden:
  "user_role u \<noteq> UR_ADMIN \<Longrightarrow> rq \<in> {MEMBER, ADMIN} \<Longrightarrow> in_session (guarded rq u h) s = (Inl forbidden, s)"
  by (simp add: in_session_def guarded_def not_admin_forbidden)

lemma guarded_forbidden_svc:
  "user_role u \<noteq> UR_ADMIN \<Longrightarrow> rq \<in> {MEMBER, ADMIN} \<Longrightarrow> svc_session (guarded rq u h) st = (Inl forbidden, st)"
  by (simp add: svc_session_def guarded_def not_admin_forbidden)

lemma guarded_admin: "user_role u = UR_ADMIN \<Longrightarrow> guarded rq u h s = h s"
  by (simp add: guarded_def require_role_cases)

lemma session_guarded_admin:
  "user_role u = UR_ADMIN \<Longrightarrow> in_session (guarded rq u h) s = in_session h s"
  by (simp add: in_session_def guarded_admin)

subsection \<open>Listings\<close>

lemma submissions_paged: "paged_listing (\<lambda>p n. list_submissions_endpoint u (p, n) st db)
    (order_by_desc created_at (filter (\<lambda>s. organization_id s = organization_id u \<and> active s
       \<and> (case parse_submission_status st of None \<Rightarrow> True | Some x \<Rightarrow> sub_status s = x)) (submissions db)))"
  by unfold_locales
    (simp add: list_submissions_endpoint_def list_submissions_def offset_limit_page select_where_def Let_def)

lemma configs_paged: "paged_listing (\<lambda>p n. list_configs_endpoint u (p, n) db)
    (order_by_desc created_at (filter (\<lambda>c. organization_id c = organization_id u \<and> active c) (configs db)))"
  by unfold_locales
    (simp add: list_configs_endpoint_def list_evaluation_configs_def offset_limit_page select_where_def Let_def)

lemma runs_paged: "paged_listing (\<lambda>p n. list_runs_endpoint u (p, n) sid cid st db)
    (order_by_desc created_at (filter (\<lambda>r. organization_id r = organization_id u \<and> active r
       \<and> (case sid of None \<Rightarrow> True | Some s \<Rightarrow> submission_id r = s)
       \<and> (case cid of None \<Rightarrow> True | Some c \<Rightarrow> config_id r = Some c)
       \<and> (case parse_run_status st of None \<Rightarrow> True | Some x \<Rightarrow> run_status r = x)) (runs db)))"
  by unfold_locales
    (simp add: list_runs_endpoint_def list_evaluation_runs_def offset_limit_page select_where_def Let_def)

lemma metrics_paged: "paged_listing (\<lambda>p n. list_metrics_endpoint collation u (p, n) db)
    (order_by_asc (\<lambda>m. \<not> is_builtin m) (order_by_asc (\<lambda>m. collation (metric_name m))
      (filter (metric_visible (organization_id u)) (metrics db))))"
  by unfold_locales
    (simp add: list_metrics_endpoint_def list_metrics_def offset_limit_page select_where_def Let_def
      order_by_asc_def)

subsection \<open>Properties\<close>

text \<open>C23: Only administrators change anything: for a judge or a viewer all nine mutating endpoints
  answer that the action is forbidden and leave database and cache as they were, although the
  data model ranks judges above viewers, while for an administrator the check is transparent; the
  reading endpoints answer every role alike.\<close>

theorem mutations_admin_only:
  assumes "user_role u \<noteq> UR_ADMIN" "user_role a = UR_ADMIN"
  shows "create_submission_endpoint env i u b db = (Inl forbidden, db)
    \<and> update_submission_endpoint env u i us db = (Inl forbidden, db)
    \<and> delete_submission_endpoint env u i db = (Inl forbidden, db)
    \<and> trigger_evaluation_endpoint env delay i u sid cid meta db = (Inl forbidden, db)
    \<and> create_config_endpoint env i u cb db = (Inl forbidden, db)
    \<and> update_config_endpoint env u i cus st = (Inl forbidden, st)
    \<and> delete_config_endpoint env u i st = (Inl forbidden, st)
    \<and> cancel_run_endpoint env revoke u i db = (Inl forbidden, db)
    \<and> create_metric_endpoint env i u mb db = (Inl forbidden, db)
    \<and> trigger_evaluation_endpoint env delay i a sid cid meta db =
        in_session (trigger_evaluation env delay i sid (organization_id a) (ident a) cid (Some meta)) db
    \<and> cancel_run_endpoint env revoke a i db =
        in_session (cancel_evaluation_run env revoke i (organization_id a) (ident a)) db
    \<and> dict_get USER_ROLE_HIERARCHY (ModelRole UR_JUDGE) 0 >
        dict_get USER_ROLE_HIERARCHY (ModelRole UR_VIEWER) 0
    \<and> get_submission_endpoint (u\<lparr>user_role := ro\<rparr>) i db = get_submission_endpoint u i db
    \<and> get_run_endpoint (u\<lparr>user_role := ro\<rparr>) i db = get_run_endpoint u i db
    \<and> get_config_endpoint (u\<lparr>user_role := ro\<rparr>) i db = get_config_endpoint u i db
    \<and> get_metric_endpoint (u\<lparr>user_role := ro\<rparr>) i db = get_metric_endpoint u i db"
  by (simp add: guarded_forbidden [OF assms(1)] guarded_forbidden_svc [OF assms(1)]
      session_guarded_admin [OF assms(2)]
      create_submission_endpoint_def update_submission_endpoint_def delete_submission_endpoint_def
      trigger_evaluation_endpoint_def create_config_endpoint_def update_config_endpoint_def
      delete_config_endpoint_def cancel_run_endpoint_def create_metric_endpoint_def
      get_submission_endpoint_def get_run_endpoint_def get_config_endpoint_def get_metric_endpoint_def
      dict_get_def USER_ROLE_HIERARCHY_def same_key_def)



subsection \<open>Witnesses\<close>

definition sample_body :: submission_create where
  "sample_body = \<lparr>sc_startup_name = ''acme'', sc_description = None, sc_website_url = None,
     sc_pitch_deck_url = None, sc_metadata = empty_obj\<rparr>"

theorem mutations_admin_only_witness:
  "create_submission_endpoint sample_env 7 (sample_user UR_JUDGE 0) sample_body (sample_db DRAFT PENDING) =
     (Inl forbidden, sample_db DRAFT PENDING)"
proof -
  have "user_role (sample_user UR_JUDGE 0) \<noteq> UR_ADMIN" "user_role (sample_user UR_ADMIN 0) = UR_ADMIN"
    by (simp_all add: sample_user_def)
  then show ?thesis
    using mutations_admin_only [of "sample_user UR_JUDGE 0" "sample_user UR_ADMIN 0"] by blast
qed



end
