(* ===== verification/PyRegex.thy ===== *)
theory PyRegex
  imports PyString
begin

section \<open>Regular expressions (the module \<open>re\<close>)\<close>

text \<open>
  The constructs the program's patterns use, and \<open>re.match\<close> as a backtracking matcher: the rests of
  the text after a match at its start, in the order in which Python tries them (a greedy star
  first consumes as much as it can). The matcher is proved to accept the language of the pattern.
\<close>

datatype regex = Class "char \<Rightarrow> bool" | Cat regex regex | Star regex | Opt regex | Dollar

text \<open>\<open>$\<close> matches at the end and before a newline at the end.\<close>

definition at_end :: "string \<Rightarrow> bool" where
  "at_end s \<longleftrightarrow> s = [] \<or> s = [CHR 0x0A]"

function (sequential) match_rests :: "regex \<Rightarrow> string \<Rightarrow> string list" where
  "match_rests (Class P) s = (case s of [] \<Rightarrow> [] | c # s' \<Rightarrow> if P c then [s'] else [])"
| "match_rests (Cat a b) s = concat (map (match_rests b) (match_rests a s))"
| "match_rests (Star a) s =
     concat (map (match_rests (Star a)) (filter (\<lambda>t. length t < length s) (match_rests a s))) @ [s]"
| "match_rests (Opt a) s = match_rests a s @ [s]"
| "match_rests Dollar s = (if at_end s then [s] else [])"
  by pat_completeness auto
termination by (relation "measures [\<lambda>(r, s). size r, \<lambda>(r, s). length s]") auto

declare match_rests.simps(3) [simp del]

definition re_match :: "regex \<Rightarrow> string \<Rightarrow> bool" where
  "re_match r s \<longleftrightarrow> match_rests r s \<noteq> []"

definition Plus :: "regex \<Rightarrow> regex" where
  "Plus a = Cat a (Star a)"

definition Lit :: "char \<Rightarrow> regex" where
  "Lit c = Class (\<lambda>d. d = c)"

text \<open>The meaning of a pattern: it takes \<open>u\<close> off a text that goes on with \<open>t\<close>.\<close>

inductive takes :: "regex \<Rightarrow> string \<Rightarrow> string \<Rightarrow> bool" where
  takes_class: "P c \<Longrightarrow> takes (Class P) [c] t"
| takes_cat: "takes a u (v @ t) \<Longrightarrow> takes b v t \<Longrightarrow> takes (Cat a b) (u @ v) t"
| takes_star_end: "takes (Star a) [] t"
| takes_star_step: "takes a u (v @ t) \<Longrightarrow> u \<noteq> [] \<Longrightarrow> takes (Star a) v t \<Longrightarrow> takes (Star a) (u @ v) t"
| takes_opt_none: "takes (Opt a) [] t"
| takes_opt_some: "takes a u t \<Longrightarrow> takes (Opt a) u t"
| takes_dollar: "at_end t \<Longrightarrow> takes Dollar [] t"

inductive_simps takes_class_iff: "takes (Class P) u t"
inductive_simps takes_cat_rule: "takes (Cat a b) u t"
inductive_simps takes_opt_iff: "takes (Opt a) u t"
inductive_simps takes_dollar_iff: "takes Dollar u t"

lemma match_rests_sound: "t \<in> set (match_rests r s) \<Longrightarrow> \<exists>u. s = u @ t \<and> takes r u t"
proof (induction r s arbitrary: t rule: match_rests.induct)
  case (1 P s)
  then obtain c where "s = c # t" "P c" by (auto split: list.splits if_splits)
  then show ?case using takes_class [of P c t] by (intro exI [of _ "[c]"]) simp
next
  case (2 a b s)
  then obtain m where m: "m \<in> set (match_rests a s)" "t \<in> set (match_rests b m)" by auto
  obtain u where u: "s = u @ m" "takes a u m" using "2.IH"(1) m(1) by blast
  obtain v where v: "m = v @ t" "takes b v t" using "2.IH"(2) m by blast
  show ?case using u v takes_cat [of a u v t b] by auto
next
  case (3 a s)
  show ?case
  proof (cases "t = s")
    case True
    then show ?thesis using takes_star_end by auto
  next
    case False
    then obtain m where m: "m \<in> set (match_rests a s)" "length m < length s" "t \<in> set (match_rests (Star a) m)"
      using "3.prems" by (auto simp: match_rests.simps(3) [of a s])
    obtain u where u: "s = u @ m" "takes a u m" using "3.IH"(1) m(1) by blast
    obtain v where v: "m = v @ t" "takes (Star a) v t" using "3.IH"(2) m by auto
    have "u \<noteq> []" using u m(2) by auto
    then show ?thesis using u v takes_star_step [of a u v t] by auto
  qed
next
  case (4 a s)
  then show ?case using takes_opt_none takes_opt_some by fastforce
next
  case (5 s)
  then show ?case using takes_dollar by (auto split: if_splits)
qed

lemma match_rests_complete: "takes r u t \<Longrightarrow> t \<in> set (match_rests r (u @ t))"
proof (induction rule: takes.induct)
  case (takes_class P c t)
  then show ?case by simp
next
  case (takes_cat a u v t b)
  have "v @ t \<in> set (match_rests a ((u @ v) @ t))" using takes_cat.IH(1) by simp
  then show ?case using takes_cat.IH(2) by (simp only: match_rests.simps set_concat set_map) blast
next
  case (takes_star_end a t)
  show ?case by (subst match_rests.simps(3)) simp
next
  case (takes_star_step a u v t)
  have m: "v @ t \<in> set (filter (\<lambda>w. length w < length (u @ v @ t)) (match_rests a (u @ v @ t)))"
    using takes_star_step by simp
  show ?case using m takes_star_step.IH(2) unfolding append_assoc
    by (subst match_rests.simps(3)) (simp only: set_append set_concat set_map, blast)
qed simp_all

lemma match_rests_iff: "t \<in> set (match_rests r s) \<longleftrightarrow> (\<exists>u. s = u @ t \<and> takes r u t)"
proof
  show "t \<in> set (match_rests r s) \<Longrightarrow> \<exists>u. s = u @ t \<and> takes r u t" by (rule match_rests_sound)
next
  assume "\<exists>u. s = u @ t \<and> takes r u t"
  then obtain u where "s = u @ t" "takes r u t" by (elim exE conjE)
  then show "t \<in> set (match_rests r s)" using match_rests_complete by simp
qed

text \<open>\<open>re.match\<close> finds a match exactly when the pattern takes some beginning of the text.\<close>

lemma re_match_iff: "re_match r s \<longleftrightarrow> (\<exists>u t. s = u @ t \<and> takes r u t)"
proof -
  have "xs \<noteq> [] \<longleftrightarrow> (\<exists>t. t \<in> set xs)" for xs :: "string list" by (cases xs) auto
  then show ?thesis unfolding re_match_def by (simp only: match_rests_iff) (rule ex_comm)
qed

subsection \<open>Classes\<close>

declare takes_class_iff [simp] takes_dollar_iff [simp]

lemma takes_cat_iff: "takes (Cat a b) u t \<longleftrightarrow> (\<exists>x y. u = x @ y \<and> takes a x (y @ t) \<and> takes b y t)"
  by (auto simp: takes_cat_rule)

lemma takes_star_class [simp]: "takes (Star (Class P)) u t \<longleftrightarrow> list_all P u"
proof
  have "takes r u t \<Longrightarrow> r = Star (Class P) \<Longrightarrow> list_all P u" for r
    by (induction rule: takes.induct) auto
  then show "takes (Star (Class P)) u t \<Longrightarrow> list_all P u" by blast
next
  show "list_all P u \<Longrightarrow> takes (Star (Class P)) u t"
  proof (induction u)
    case (Cons c u)
    then show ?case using takes_star_step [of "Class P" "[c]" u t] by simp
  qed (rule takes_star_end)
qed

lemma takes_plus_class [simp]: "takes (Plus (Class P)) u t \<longleftrightarrow> u \<noteq> [] \<and> list_all P u"
proof -
  have "takes (Plus (Class P)) u t \<longleftrightarrow> (\<exists>c y. u = c # y \<and> P c \<and> list_all P y)"
    unfolding Plus_def takes_cat_iff takes_class_iff takes_star_class by (metis append_Cons append_Nil)
  then show ?thesis by (cases u) auto
qed

lemma takes_lit [simp]: "takes (Lit c) u t \<longleftrightarrow> u = [c]"
  by (auto simp: Lit_def)

end
