(* ===== verification/RateLimit.thy ===== *)
theory RateLimit
  imports PyString Prelude
begin

section \<open>Rate limiting (\<open>rate_limit.py\<close>, \<open>middleware/rate_limiter.py\<close>)\<close>

text \<open>
  Both limiters keep a sorted set of time stamps in Redis. Its members are the texts of the
  stamps, so the model is the list of distinct stamps (microseconds). The expiry of the key
  is longer than the window and never removes a stamp that counts, so it is left out.
\<close>

type_synonym zset = "int list"

definition zremrangebyscore :: "int \<Rightarrow> int \<Rightarrow> zset \<Rightarrow> zset" where
  "zremrangebyscore lo hi z = filter (\<lambda>x. \<not> (lo \<le> x \<and> x \<le> hi)) z"

definition zadd :: "int \<Rightarrow> zset \<Rightarrow> zset" where
  "zadd x z = (if x \<in> set z then z else insort x z)"

definition zcard :: "zset \<Rightarrow> int" where
  "zcard z = int (length z)"

definition window_us :: "int \<Rightarrow> int" where
  "window_us seconds = seconds * 1000000"

subsection \<open>\<open>check_rate_limit\<close>\<close>

text \<open>\<open>redis_ok\<close>: whether the cache manager is connected and its server answers; otherwise
  the request is let through.\<close>

definition check_rate_limit :: "bool \<Rightarrow> int \<Rightarrow> int \<Rightarrow> timestamp \<Rightarrow> zset \<Rightarrow> (zset, unit) outcome" where
  "check_rate_limit redis_ok limit window_seconds now z =
     (if \<not> redis_ok then (Inr (), z)
      else let clear_before = now - window_us window_seconds;
               z1 = zadd now (zremrangebyscore 0 clear_before z);
               current_requests = zcard z1
           in if current_requests > limit
              then (case z1 of
                      [] \<Rightarrow> (Inl (RateLimitExceeded window_seconds), z1)
                    | oldest # _ \<Rightarrow>
                        (Inl (RateLimitExceeded
                           (max 1 ((oldest + window_us window_seconds - now) div 1000000))), z1))
              else (Inr (), z1))"

subsection \<open>The middleware\<close>

definition EXEMPT_PATHS :: "string list" where
  "EXEMPT_PATHS = [''/api/v1/health'', ''/api/v1/health/live'', ''/api/v1/health/ready'',
     ''/api/v1/health/deps'', ''/metrics'']"

definition get_rate_key :: "string option \<Rightarrow> string option \<Rightarrow> string" where
  "get_rate_key org_id client_host =
     (case org_id of
        Some k \<Rightarrow> if k \<noteq> [] then ''org:'' @ k
                  else ''ip:'' @ (case client_host of Some h \<Rightarrow> h | None \<Rightarrow> ''unknown'')
      | None \<Rightarrow> ''ip:'' @ (case client_host of Some h \<Rightarrow> h | None \<Rightarrow> ''unknown''))"

record rate_headers =
  rl_limit :: int
  rl_remaining :: int
  rl_reset :: int

datatype rate_response = Passed "rate_headers option" | TooManyRequests rate_headers int

definition dispatch_rate_limit :: "string \<Rightarrow> int \<Rightarrow> int \<Rightarrow> timestamp \<Rightarrow> zset \<Rightarrow> rate_response \<times> zset" where
  "dispatch_rate_limit path limit window now z =
     (if path \<in> set EXEMPT_PATHS then (Passed None, z)
      else let z1 = zremrangebyscore 0 (now - window_us window) z;
               current_count = zcard z1;
               z2 = zadd now z1;
               headers = \<lparr>rl_limit = limit, rl_remaining = max 0 (limit - current_count - 1),
                 rl_reset = (now + window_us window) div 1000000\<rparr>
           in if current_count \<ge> limit then (TooManyRequests headers window, z2)
              else (Passed (Some headers), z2))"

subsection \<open>The contract of a sliding log\<close>

text \<open>\<open>step\<close> says whether a request at a time is admitted, and the new log.\<close>

fun admissions :: "(int \<Rightarrow> zset \<Rightarrow> bool \<times> zset) \<Rightarrow> int list \<Rightarrow> zset \<Rightarrow> bool list \<times> zset" where
  "admissions step [] z = ([], z)"
| "admissions step (t # ts) z =
     (case step t z of (b, z1) \<Rightarrow> (case admissions step ts z1 of (bs, z2) \<Rightarrow> (b # bs, z2)))"

lemma admissions_append:
  "admissions step (ts @ us) z =
     (case admissions step ts z of (bs, z1) \<Rightarrow>
       (case admissions step us z1 of (cs, z2) \<Rightarrow> (bs @ cs, z2)))"
  by (induction ts arbitrary: z) (auto split: prod.splits)

lemma length_admissions: "length (fst (admissions step ts z)) = length ts"
  by (induction ts arbitrary: z) (simp_all add: case_prod_beta)

text \<open>The requests that count at the time of request \<open>i\<close>: all, admitted or not, of the
  window before it.\<close>

definition in_window :: "int \<Rightarrow> int list \<Rightarrow> nat \<Rightarrow> nat set" where
  "in_window w ts i = {j. j \<le> i \<and> ts ! i - w < ts ! j}"

locale sliding_log =
  fixes step :: "int \<Rightarrow> zset \<Rightarrow> bool \<times> zset"
    and w :: int
    and limit :: int
  assumes window_pos: "0 < w"
    and step_log: "0 < t \<Longrightarrow> distinct z \<Longrightarrow> (\<And>x. x \<in> set z \<Longrightarrow> 0 < x \<and> x < t) \<Longrightarrow>
      distinct (snd (step t z)) \<and> set (snd (step t z)) = insert t {x \<in> set z. t - w < x}"
    and step_admits: "0 < t \<Longrightarrow> distinct z \<Longrightarrow> (\<And>x. x \<in> set z \<Longrightarrow> 0 < x \<and> x < t) \<Longrightarrow>
      fst (step t z) \<longleftrightarrow> int (length (snd (step t z))) \<le> limit"
begin

lemma log_contents:
  assumes "sorted_wrt (<) ts" "\<forall>t \<in> set ts. 0 < t" "ts \<noteq> []"
  shows "distinct (snd (admissions step ts []))
    \<and> set (snd (admissions step ts [])) = {x \<in> set ts. last ts - w < x}"
  using assms
proof (induction ts rule: rev_induct)
  case (snoc t ts)
  show ?case
  proof (cases "ts = []")
    case True
    have t: "0 < t" using snoc.prems(2) by simp
    have "distinct (snd (step t [])) \<and> set (snd (step t [])) = insert t {x \<in> set []. t - w < x}"
      by (rule step_log [OF t]) simp_all
    then show ?thesis using True window_pos by (simp add: case_prod_beta, auto)
  next
    case False
    let ?z = "snd (admissions step ts [])"
    from snoc False have ih: "distinct ?z" "set ?z = {x \<in> set ts. last ts - w < x}"
      by (auto simp: sorted_wrt_append)
    have z: "\<And>x. x \<in> set ?z \<Longrightarrow> 0 < x \<and> x < t"
      using ih(2) snoc.prems by (auto simp: sorted_wrt_append)
    have t: "0 < t" using snoc.prems(2) by simp
    from step_log [OF t ih(1) z] have s: "distinct (snd (step t ?z))"
      "set (snd (step t ?z)) = insert t {x \<in> set ?z. t - w < x}" by simp_all
    have "last ts < t" using snoc.prems(1) False by (simp add: sorted_wrt_append)
    then have "set (snd (step t ?z)) = {x \<in> set (ts @ [t]). t - w < x}"
      unfolding s(2) ih(2) using window_pos by auto
    with s(1) show ?thesis by (simp add: admissions_append case_prod_beta)
  qed
qed simp

text \<open>A request is admitted exactly when at most \<open>limit\<close> requests fell in its window.\<close>

lemma admitted_iff:
  assumes "sorted_wrt (<) ts" "\<forall>t \<in> set ts. 0 < t" "i < length ts"
  shows "fst (admissions step ts []) ! i \<longleftrightarrow> int (card (in_window w ts i)) \<le> limit"
proof -
  let ?us = "take (Suc i) ts"
  have us: "?us = take i ts @ [ts ! i]" using assms(3) by (simp add: take_Suc_conv_app_nth)
  have sorted: "sorted_wrt (<) ?us" using assms(1) by (simp add: sorted_wrt_take)
  have pos: "\<forall>t \<in> set ?us. 0 < t" using assms(2) by (auto dest: in_set_takeD)
  have split: "admissions step ts [] = admissions step (?us @ drop (Suc i) ts) []" by simp
  let ?z = "snd (admissions step (take i ts) [])"
  have ii: "fst (admissions step ts []) ! i = fst (step (ts ! i) ?z)"
    unfolding split us using length_admissions [of step "take i ts" "[]"] assms(3)
    by (simp add: admissions_append nth_append case_prod_beta)
  have log: "snd (admissions step ?us []) = snd (step (ts ! i) ?z)"
    unfolding us by (simp add: admissions_append case_prod_beta)
  have z: "distinct ?z \<and> (\<forall>x \<in> set ?z. 0 < x \<and> x < ts ! i)"
  proof (cases "take i ts = []")
    case False
    have st: "sorted_wrt (<) (take i ts)" using assms(1) by (simp add: sorted_wrt_take)
    have pt: "\<forall>t \<in> set (take i ts). 0 < t" using assms(2) by (auto dest: in_set_takeD)
    from log_contents [OF st pt False] have "distinct ?z" "set ?z \<subseteq> set (take i ts)" by auto
    moreover have "\<forall>x \<in> set (take i ts). x < ts ! i"
      using sorted unfolding us by (simp add: sorted_wrt_append)
    ultimately show ?thesis using pt by blast
  next
    case True
    then show ?thesis by (simp only: True) simp
  qed
  have "0 < ts ! i" using assms(2,3) by simp
  with z step_admits [of "ts ! i" ?z] have adm: "fst (step (ts ! i) ?z) \<longleftrightarrow>
      int (length (snd (admissions step ?us []))) \<le> limit"
    unfolding log by blast
  have ne: "?us \<noteq> []" using us by simp
  from log_contents [OF sorted pos ne] have d: "distinct (snd (admissions step ?us []))"
    "set (snd (admissions step ?us [])) = {x \<in> set ?us. ts ! i - w < x}"
    by (auto simp: us)
  have dts: "distinct ts"
    using assms(1) by (simp add: strict_sorted_iff)
  have "{x \<in> set ?us. ts ! i - w < x} = (\<lambda>j. ts ! j) ` in_window w ts i"
    using assms(3) by (force simp: in_window_def in_set_conv_nth less_Suc_eq_le)
  moreover have "inj_on (\<lambda>j. ts ! j) (in_window w ts i)"
    using dts assms(3) by (auto simp: inj_on_def in_window_def nth_eq_iff_index_eq)
  ultimately have "length (snd (admissions step ?us [])) = card (in_window w ts i)"
    using d by (metis card_image distinct_card)
  with ii adm show ?thesis by simp
qed

lemma finite_window [simp]: "finite (in_window w ts i)"
  by (rule finite_subset [of _ "{..i}"]) (auto simp: in_window_def)

text \<open>In no window are more than \<open>limit\<close> requests admitted.\<close>

lemma admitted_bound:
  assumes "sorted_wrt (<) ts" "\<forall>t \<in> set ts. 0 < t" "0 \<le> limit"
  shows "int (card {i. i < length ts \<and> fst (admissions step ts []) ! i
      \<and> x - w < ts ! i \<and> ts ! i \<le> x}) \<le> limit" (is "int (card ?A) \<le> _")
proof (cases "?A = {}")
  case False
  have fin: "finite ?A" by (rule finite_subset [of _ "{..<length ts}"]) auto
  define m where "m = Max ?A"
  have m: "m \<in> ?A" unfolding m_def by (rule Max_in [OF fin False])
  have "?A \<subseteq> in_window w ts m"
  proof
    fix i assume i: "i \<in> ?A"
    then have "i \<le> m" unfolding m_def by (rule Max_ge [OF fin])
    with i m show "i \<in> in_window w ts m" by (simp add: in_window_def)
  qed
  then have "card ?A \<le> card (in_window w ts m)" by (rule card_mono [OF finite_window])
  moreover have "int (card (in_window w ts m)) \<le> limit"
    using admitted_iff [OF assms(1,2), of m] m by simp
  ultimately show ?thesis by linarith
next
  case True
  then show ?thesis unfolding True using assms(3) by simp
qed

text \<open>Requests that come too often are all refused after the first \<open>limit\<close>.\<close>

lemma hammering_starves:
  assumes "0 < d" "limit * d < w" "0 \<le> limit" "i < n"
  shows "fst (admissions step (map (\<lambda>k. (int k + 1) * d) [0..<n]) []) ! i \<longleftrightarrow> int i < limit"
proof -
  let ?ts = "map (\<lambda>k. (int k + 1) * d) [0..<n]"
  have s: "sorted_wrt (<) ?ts"
    using assms(1) by (simp add: sorted_wrt_iff_nth_less)
  have p: "\<forall>t \<in> set ?ts. 0 < t" using assms(1) by auto
  have nth: "?ts ! j = (int j + 1) * d" if "j \<le> i" for j using that assms(4) by simp
  have "?ts ! i - w < ?ts ! j \<longleftrightarrow> (int i - int j) * d < w" if "j \<le> i" for j
    unfolding nth [OF that] nth [OF order_refl] by (simp add: algebra_simps)
  then have w: "in_window w ?ts i = {j. j \<le> i \<and> (int i - int j) * d < w}"
    unfolding in_window_def by blast
  have "int (card (in_window w ?ts i)) \<le> limit \<longleftrightarrow> int i < limit"
  proof
    assume a: "int i < limit"
    have "card (in_window w ?ts i) \<le> card {..i}"
      by (rule card_mono) (auto simp: in_window_def)
    with a show "int (card (in_window w ?ts i)) \<le> limit" by simp
  next
    assume a: "int (card (in_window w ?ts i)) \<le> limit"
    show "int i < limit"
    proof (rule ccontr)
      assume "\<not> int i < limit"
      then have le: "nat limit \<le> i" using assms(3) by linarith
      have "{i - nat limit..i} \<subseteq> in_window w ?ts i"
      proof
        fix j assume j: "j \<in> {i - nat limit..i}"
        then have "int i - int j \<le> limit" using le assms(3) by auto
        then have "(int i - int j) * d \<le> limit * d" using assms(1) by (intro mult_right_mono) auto
        with assms(2) j show "j \<in> in_window w ?ts i" unfolding w by simp
      qed
      then have "card {i - nat limit..i} \<le> card (in_window w ?ts i)"
        by (rule card_mono [OF finite_window])
      with a le assms(3) show False by simp
    qed
  qed
  then show ?thesis
    using admitted_iff [OF s p, of i] assms(4) by simp
qed

end

subsection \<open>Both limiters are sliding logs\<close>

lemma set_zadd [simp]: "set (zadd x z) = insert x (set z)"
  by (auto simp: zadd_def set_insort_key)

lemma distinct_zadd [simp]: "distinct (zadd x z) \<longleftrightarrow> distinct z"
  by (simp add: zadd_def distinct_insort)

lemma length_zadd: "x \<notin> set z \<Longrightarrow> length (zadd x z) = Suc (length z)"
  by (simp add: zadd_def)

lemma clean_log:
  assumes "0 < t" "distinct z" "\<And>x. x \<in> set z \<Longrightarrow> 0 < x \<and> x < t"
  shows "distinct (zremrangebyscore 0 (t - w) z)
    \<and> set (zremrangebyscore 0 (t - w) z) = {x \<in> set z. t - w < x}
    \<and> t \<notin> set (zremrangebyscore 0 (t - w) z)"
proof -
  have "\<not> (0 \<le> x \<and> x \<le> t - w) \<longleftrightarrow> t - w < x" if "x \<in> set z" for x
    using assms(3) [OF that] by linarith
  then show ?thesis using assms(2,3) by (auto simp: zremrangebyscore_def)
qed

definition check_step :: "int \<Rightarrow> int \<Rightarrow> int \<Rightarrow> zset \<Rightarrow> bool \<times> zset" where
  "check_step limit window t z =
     (case check_rate_limit True limit window t z of (r, z') \<Rightarrow> (case r of Inr _ \<Rightarrow> True | Inl _ \<Rightarrow> False, z'))"

definition middleware_step :: "string \<Rightarrow> int \<Rightarrow> int \<Rightarrow> int \<Rightarrow> zset \<Rightarrow> bool \<times> zset" where
  "middleware_step path limit window t z =
     (case dispatch_rate_limit path limit window t z of
        (r, z') \<Rightarrow> (case r of Passed _ \<Rightarrow> True | TooManyRequests _ _ \<Rightarrow> False, z'))"

lemma check_step_unfold:
  "check_step limit window t z =
     (let z1 = zadd t (zremrangebyscore 0 (t - window_us window) z)
      in (int (length z1) \<le> limit, z1))"
  by (auto simp: check_step_def check_rate_limit_def Let_def zcard_def split: list.splits)

lemma middleware_step_unfold:
  assumes "path \<notin> set EXEMPT_PATHS"
  shows "middleware_step path limit window t z =
     (let z1 = zremrangebyscore 0 (t - window_us window) z
      in (int (length z1) < limit, zadd t z1))"
  using assms by (auto simp: middleware_step_def dispatch_rate_limit_def Let_def zcard_def)

lemma check_sliding_log:
  assumes "0 < window"
  shows "sliding_log (check_step limit window) (window_us window) limit"
proof
  show "0 < window_us window" using assms by (simp add: window_us_def)
next
  fix t :: int and z :: zset
  assume a: "0 < t" "distinct z" "\<And>x. x \<in> set z \<Longrightarrow> 0 < x \<and> x < t"
  then show "distinct (snd (check_step limit window t z))
      \<and> set (snd (check_step limit window t z)) = insert t {x \<in> set z. t - window_us window < x}"
    using clean_log [OF a, of "window_us window"] by (simp add: check_step_unfold Let_def)
  show "fst (check_step limit window t z) \<longleftrightarrow> int (length (snd (check_step limit window t z))) \<le> limit"
    by (simp add: check_step_unfold Let_def)
qed

lemma middleware_sliding_log:
  assumes "0 < window" "path \<notin> set EXEMPT_PATHS"
  shows "sliding_log (middleware_step path limit window) (window_us window) limit"
proof
  show "0 < window_us window" using assms(1) by (simp add: window_us_def)
next
  fix t :: int and z :: zset
  assume a: "0 < t" "distinct z" "\<And>x. x \<in> set z \<Longrightarrow> 0 < x \<and> x < t"
  note c = clean_log [OF a, of "window_us window"]
  show "distinct (snd (middleware_step path limit window t z))
      \<and> set (snd (middleware_step path limit window t z)) = insert t {x \<in> set z. t - window_us window < x}"
    using c by (simp add: middleware_step_unfold [OF assms(2)] Let_def)
  show "fst (middleware_step path limit window t z)
      \<longleftrightarrow> int (length (snd (middleware_step path limit window t z))) \<le> limit"
  proof -
    have "length (zadd t (zremrangebyscore 0 (t - window_us window) z))
        = Suc (length (zremrangebyscore 0 (t - window_us window) z))"
      by (rule length_zadd) (rule c [THEN conjunct2, THEN conjunct2])
    then show ?thesis by (auto simp: middleware_step_unfold [OF assms(2)] Let_def)
  qed
qed

text \<open>The window the settings give is 60 seconds (\<open>config.py\<close>); each caller has its own limit.\<close>

interpretation check60: sliding_log "check_step limit 60" "window_us 60" limit for limit
  by (rule check_sliding_log) simp

interpretation login60: sliding_log "middleware_step ''/api/v1/auth/login'' limit 60" "window_us 60" limit
  for limit
  by (rule middleware_sliding_log) (simp_all add: EXEMPT_PATHS_def)

subsection \<open>Properties\<close>

text \<open>C22: the middleware is exact: a request is admitted if and only if at most \<open>limit\<close> requests,
  itself included and refused ones counted, arrived in the window before it; hence in no
  interval as long as the window are more than \<open>limit\<close> requests admitted, the boundary of
  two windows included.
\<close>

theorem rate_limit_window_bound:
  assumes "sorted_wrt (<) ts" "\<forall>t \<in> set ts. 0 < t" "0 < window" "0 \<le> limit"
    "path \<notin> set EXEMPT_PATHS"
  shows "(\<forall>i < length ts. fst (admissions (middleware_step path limit window) ts []) ! i
        \<longleftrightarrow> int (card (in_window (window_us window) ts i)) \<le> limit)
    \<and> (\<forall>x. int (card {i. i < length ts \<and> fst (admissions (middleware_step path limit window) ts []) ! i
        \<and> x - window_us window < ts ! i \<and> ts ! i \<le> x}) \<le> limit)"
  using sliding_log.admitted_iff [OF middleware_sliding_log [OF assms(3,5)] assms(1,2)]
    sliding_log.admitted_bound [OF middleware_sliding_log [OF assms(3,5)] assms(1,2,4)]
  by blast

theorem rate_limit_window_bound_witness:
  "int (card {i. i < length [1, 1000001, 1000002 :: int]
      \<and> fst (admissions (middleware_step ''/api/v1/auth/login'' 2 60) [1, 1000001, 1000002] []) ! i
      \<and> 1000002 - window_us 60 < [1, 1000001, 1000002] ! i \<and> [1, 1000001, 1000002] ! i \<le> (1000002 :: int)}) \<le> 2
   \<and> fst (admissions (middleware_step ''/api/v1/auth/login'' 2 60) [1, 1000001, 1000002] [])
       = [True, True, False]"
proof
  let ?ts = "[1, 1000001, 1000002] :: int list"
  have "sorted_wrt (<) ?ts" "\<forall>t \<in> set ?ts. 0 < t" "(0::int) < 60" "(0::int) \<le> 2"
    "''/api/v1/auth/login'' \<notin> set EXEMPT_PATHS" by (simp_all add: EXEMPT_PATHS_def)
  from rate_limit_window_bound [OF this, THEN conjunct2]
  show "int (card {i. i < length ?ts
      \<and> fst (admissions (middleware_step ''/api/v1/auth/login'' 2 60) ?ts []) ! i
      \<and> 1000002 - window_us 60 < ?ts ! i \<and> ?ts ! i \<le> 1000002}) \<le> 2" by blast
  show "fst (admissions (middleware_step ''/api/v1/auth/login'' 2 60) ?ts []) = [True, True, False]"
    by code_simp
qed

text \<open>
  The limiter counts the requests it refuses: a client that sends a request every \<open>d\<close>
  microseconds, with more than \<open>limit\<close> of them to a window, has its first \<open>limit\<close> requests
  admitted and every later one refused, however long it goes on.
\<close>

theorem rate_limit_counts_refused:
  assumes "0 < d" "limit * d < window_us window" "0 \<le> limit" "i < n" "0 < window"
    "path \<notin> set EXEMPT_PATHS"
  shows "fst (admissions (middleware_step path limit window) (map (\<lambda>k. (int k + 1) * d) [0..<n]) []) ! i
      \<longleftrightarrow> int i < limit"
  by (rule sliding_log.hammering_starves [OF middleware_sliding_log [OF assms(5,6)] assms(1-4)])

theorem rate_limit_counts_refused_witness:
  "\<not> fst (admissions (middleware_step ''/api/v1/auth/login'' 2 60)
      (map (\<lambda>k. (int k + 1) * 20000000) [0..<1000]) []) ! 999"
proof -
  have "(0::int) < 20000000" "2 * 20000000 < window_us 60" "(0::int) \<le> 2" "999 < (1000::nat)"
    "(0::int) < 60" "''/api/v1/auth/login'' \<notin> set EXEMPT_PATHS"
    by (simp_all add: EXEMPT_PATHS_def window_us_def)
  from rate_limit_counts_refused [OF this] show ?thesis by (simp del: upt_Suc)
qed

text \<open>The two limiters, which count before and after they add the request, admit the same
  requests of every sequence.
\<close>

theorem limiters_agree:
  assumes "sorted_wrt (<) ts" "\<forall>t \<in> set ts. 0 < t" "0 < window" "path \<notin> set EXEMPT_PATHS"
  shows "fst (admissions (check_step limit window) ts [])
       = fst (admissions (middleware_step path limit window) ts [])"
  by (rule nth_equalityI)
    (simp_all add: length_admissions sliding_log.admitted_iff [OF check_sliding_log [OF assms(3)] assms(1,2)]
       sliding_log.admitted_iff [OF middleware_sliding_log [OF assms(3,4)] assms(1,2)])

theorem limiters_agree_witness:
  "fst (admissions (check_step 1 60) [5, 10, 60000011] [])
     = fst (admissions (middleware_step ''/'' 1 60) [5, 10, 60000011] [])
   \<and> fst (admissions (check_step 1 60) [5, 10, 60000011] []) = [True, False, True]"
proof
  show "fst (admissions (check_step 1 60) [5, 10, 60000011] [])
     = fst (admissions (middleware_step ''/'' 1 60) [5, 10, 60000011] [])"
    by (rule limiters_agree) (simp_all add: EXEMPT_PATHS_def)
  show "fst (admissions (check_step 1 60) [5, 10, 60000011] []) = [True, False, True]" by code_simp
qed

end
