(* ===== verification/HttpStack.thy ===== *)
theory HttpStack
  imports RateLimit Models
begin

section \<open>Error responses and the middleware stack (\<open>middleware/\<close>, \<open>main.py\<close>)\<close>

text \<open>
  A request passes the middlewares of \<open>create_app\<close>, each a function on applications. An
  application maps a request and the state of the server to a response or a raised exception.
  The state holds what the middlewares keep: the correlation id of the context, the identity
  the authentication leaves in \<open>request.state\<close>, the audit log entries, the HTTP metrics
  and the rate limit sets in Redis. How Starlette puts the parts together is a parameter
  (\<open>starlette_build\<close>).
\<close>

record request =
  req_method :: string
  path :: string
  x_request_id :: "string option"
  client_host :: "string option"
  user_agent_header :: "string option"

record response =
  status :: nat
  error :: string
  message :: string
  body_request_id :: string
  resp_headers :: "(string \<times> string) list"

record audit_event =
  ae_method :: string
  ae_path :: string
  ae_status :: "nat option"
  ae_client_ip :: string
  ae_request_id :: string
  ae_identity :: "(string \<times> string) option"

record http_state =
  correlation :: string
  identity :: "(string \<times> string) option"
  audit_events :: "audit_event list"
  in_progress :: "string \<Rightarrow> int"
  requests_total :: "(string \<times> string \<times> nat) list"
  limiter_up :: bool
  zsets :: "string \<Rightarrow> zset"

type_synonym app = "request \<Rightarrow> http_state \<Rightarrow> (http_state, response) outcome"
type_synonym middleware = "app \<Rightarrow> app"

subsection \<open>Exception handlers (\<open>error_handler.py\<close>)\<close>

text \<open>The application errors: status, code, message. The detail of a rate limit error is left out.\<close>

fun app_exception_fields :: "exn \<Rightarrow> (nat \<times> string \<times> string) option" where
  "app_exception_fields (AppException msg st code) = Some (st, code, msg)"
| "app_exception_fields (NotFoundError res i) =
     Some (404, ''not_found'', res @ '' with id '' @ [CHR 0x27] @ nat_str i @ [CHR 0x27] @ '' not found'')"
| "app_exception_fields (ConflictError msg) = Some (409, ''conflict'', msg)"
| "app_exception_fields (ForbiddenError msg) = Some (403, ''forbidden'', msg)"
| "app_exception_fields (UnauthorizedError msg) = Some (401, ''unauthorized'', msg)"
| "app_exception_fields (RateLimitError n) =
     Some (429, ''rate_limit_exceeded'', ''Rate limit exceeded. Retry after '' @ int_str n @ ''s'')"
| "app_exception_fields _ = None"

definition json_response :: "nat \<Rightarrow> string \<Rightarrow> string \<Rightarrow> string \<Rightarrow> response" where
  "json_response st code msg rid =
     \<lparr>status = st, error = code, message = msg, body_request_id = rid, resp_headers = []\<rparr>"

text \<open>The handlers for \<open>AppException\<close>, \<open>RequestValidationError\<close> and \<open>HTTPException\<close>; no other
  exception has a handler of its own.\<close>

definition handle_exception :: "exn \<Rightarrow> http_state \<Rightarrow> response option" where
  "handle_exception e s =
     (case app_exception_fields e of
        Some (st, code, msg) \<Rightarrow> Some (json_response st code msg (correlation s))
      | None \<Rightarrow>
        (case e of
           RequestValidationError errs \<Rightarrow>
             Some (json_response 422 ''validation_error'' ''Request validation failed'' (correlation s))
         | HTTPException st d \<Rightarrow> Some (json_response st ''http_error'' d (correlation s))
         | _ \<Rightarrow> None))"

definition unhandled_exception_handler :: "exn \<Rightarrow> http_state \<Rightarrow> response" where
  "unhandled_exception_handler e s =
     json_response 500 ''internal_error'' ''An unexpected error occurred. Please contact support.''
       (correlation s)"

subsection \<open>Metrics middleware\<close>

definition EXCLUDED_PREFIXES :: "string list" where
  "EXCLUDED_PREFIXES = [''/health'', ''/metrics'', ''/docs'', ''/redoc'', ''/openapi.json'']"

definition is_hex :: "char \<Rightarrow> bool" where
  "is_hex c \<longleftrightarrow> is_digit c \<or> (char_code c \<ge> 97 \<and> char_code c \<le> 102) \<or> (char_code c \<ge> 65 \<and> char_code c \<le> 70)"

text \<open>\<open>[0-9a-fA-F]{n}\<close>, then the dashes between the groups: what is left of the text, or no match.\<close>

fun take_hex :: "nat \<Rightarrow> string \<Rightarrow> string option" where
  "take_hex 0 s = Some s"
| "take_hex (Suc n) [] = None"
| "take_hex (Suc n) (c # s) = (if is_hex c then take_hex n s else None)"

fun take_groups :: "nat list \<Rightarrow> string \<Rightarrow> string option" where
  "take_groups [] s = Some s"
| "take_groups [n] s = take_hex n s"
| "take_groups (n # m # ns) s =
     (case take_hex n s of
        Some (c # r) \<Rightarrow> if c = CHR ''-'' then take_groups (m # ns) r else None
      | _ \<Rightarrow> None)"

definition match_uuid :: "string \<Rightarrow> string option" where
  "match_uuid s = take_groups [8, 4, 4, 4, 12] s"

lemma take_hex_length: "take_hex n s = Some r \<Longrightarrow> length s = n + length r"
  by (induction n s rule: take_hex.induct) (auto split: if_splits)

lemma take_groups_length: "take_groups ns s = Some r \<Longrightarrow> length s \<ge> sum_list ns + length r"
  by (induction ns s rule: take_groups.induct)
    (fastforce split: option.splits list.splits if_splits dest: take_hex_length)+

lemma match_uuid_shorter: "match_uuid s = Some r \<Longrightarrow> length r < length s"
  using take_groups_length [of "[8, 4, 4, 4, 12]" s r] by (simp add: match_uuid_def)

function sub_uuid :: "string \<Rightarrow> string" where
  "sub_uuid [] = []"
| "sub_uuid (c # s) =
     (case match_uuid (c # s) of Some r \<Rightarrow> '':id'' @ sub_uuid r | None \<Rightarrow> c # sub_uuid s)"
  by pat_completeness auto
termination by (relation "measure length") (auto dest: match_uuid_shorter)

text \<open>\<open>/\d+(?=/|$)\<close>; the end anchor also matches before a last line feed.\<close>

definition segment_end :: "string \<Rightarrow> bool" where
  "segment_end r \<longleftrightarrow> r = [] \<or> hd r = CHR ''/'' \<or> r = [CHR 0x0A]"

function sub_numeric :: "string \<Rightarrow> string" where
  "sub_numeric [] = []"
| "sub_numeric (c # s) =
     (if c = CHR ''/'' \<and> takeWhile is_digit s \<noteq> [] \<and> segment_end (dropWhile is_digit s)
      then ''/:id'' @ sub_numeric (dropWhile is_digit s) else c # sub_numeric s)"
  by pat_completeness auto
termination
  by (relation "measure length") (auto simp: le_imp_less_Suc length_dropWhile_le)

definition normalize_path :: "string \<Rightarrow> string" where
  "normalize_path p = sub_numeric (sub_uuid p)"

definition metrics_middleware :: middleware where
  "metrics_middleware app req s =
     (if list_ex (\<lambda>p. starts_with p (path req)) EXCLUDED_PREFIXES then app req s
      else let s1 = s\<lparr>in_progress := (in_progress s)(req_method req := in_progress s (req_method req) + 1)\<rparr>
           in case app req s1 of
                (r, s2) \<Rightarrow>
                  (r, s2\<lparr>requests_total := requests_total s2 @ [(req_method req, normalize_path (path req),
                             case r of Inl e \<Rightarrow> 500 | Inr resp \<Rightarrow> status resp)],
                         in_progress := (in_progress s2)(req_method req := in_progress s2 (req_method req) - 1)\<rparr>))"

subsection \<open>Correlation middleware\<close>

text \<open>\<open>new_id\<close> is the generated id. The context variable is reset to its old value on the way out.\<close>

definition correlation_middleware :: "string \<Rightarrow> middleware" where
  "correlation_middleware new_id app req s =
     (let rid = (case x_request_id req of Some h \<Rightarrow> h | None \<Rightarrow> new_id)
      in case app req (s\<lparr>correlation := rid\<rparr>) of
           (Inr resp, s1) \<Rightarrow>
             (Inr (resp\<lparr>resp_headers := (''X-Request-ID'', rid) # resp_headers resp\<rparr>),
              s1\<lparr>correlation := correlation s\<rparr>)
         | (Inl e, s1) \<Rightarrow> (Inl e, s1\<lparr>correlation := correlation s\<rparr>))"

subsection \<open>Rate limiter middleware\<close>

record limiter_settings =
  ls_limit :: int
  ls_window :: int

definition client_of :: "request \<Rightarrow> string" where
  "client_of req = (case client_host req of Some h \<Rightarrow> h | None \<Rightarrow> ''unknown'')"

text \<open>The decision is \<open>dispatch_rate_limit\<close> of theory \<open>RateLimit\<close>; an unreachable Redis
  makes the pipeline raise.\<close>

definition rate_header_list :: "rate_headers \<Rightarrow> (string \<times> string) list" where
  "rate_header_list h = [(''X-RateLimit-Limit'', int_str (rl_limit h)),
     (''X-RateLimit-Remaining'', int_str (rl_remaining h)),
     (''X-RateLimit-Reset'', int_str (rl_reset h))]"

definition refusal_message :: "int \<Rightarrow> int \<Rightarrow> string" where
  "refusal_message limit window =
     ''Rate limit of '' @ int_str limit @ '' requests per '' @ int_str window @ ''s exceeded''"

definition rate_middleware :: "limiter_settings \<Rightarrow> timestamp \<Rightarrow> middleware" where
  "rate_middleware cfg t app req s =
     (if path req \<in> set EXEMPT_PATHS then app req s
      else if \<not> limiter_up s then (Inl (ExternalError ''redis''), s)
      else let key = get_rate_key (map_option snd (identity s)) (client_host req)
           in case dispatch_rate_limit (path req) (ls_limit cfg) (ls_window cfg) t (zsets s key) of
                (TooManyRequests h w, z) \<Rightarrow>
                  (Inr \<lparr>status = 429, error = ''rate_limit_exceeded'', message = refusal_message (ls_limit cfg) w,
                        body_request_id = [],
                        resp_headers = rate_header_list h @ [(''Retry-After'', int_str w)]\<rparr>,
                   s\<lparr>zsets := (zsets s)(key := z)\<rparr>)
              | (Passed hs, z) \<Rightarrow>
                  (case app req (s\<lparr>zsets := (zsets s)(key := z)\<rparr>) of
                     (Inl e, s1) \<Rightarrow> (Inl e, s1)
                   | (Inr resp, s1) \<Rightarrow>
                       (Inr (resp\<lparr>resp_headers := (case hs of None \<Rightarrow> [] | Some h \<Rightarrow> rate_header_list h)
                                     @ resp_headers resp\<rparr>), s1)))"

subsection \<open>Audit middleware\<close>

definition AUDITABLE_METHODS :: "string list" where
  "AUDITABLE_METHODS = [''POST'', ''PUT'', ''PATCH'', ''DELETE'']"

definition audit_middleware :: middleware where
  "audit_middleware app req s =
     (if req_method req \<notin> set AUDITABLE_METHODS then app req s
      else let correlation_id = correlation s
           in case app req s of
                (r, s1) \<Rightarrow> (r, s1\<lparr>audit_events := audit_events s1 @
                  [\<lparr>ae_method = req_method req, ae_path = path req,
                    ae_status = (case r of Inl e \<Rightarrow> None | Inr resp \<Rightarrow> Some (status resp)),
                    ae_client_ip = client_of req, ae_request_id = correlation_id,
                    ae_identity = (case r of Inl e \<Rightarrow> None | Inr resp \<Rightarrow> identity s1)\<rparr>]\<rparr>))"

subsection \<open>The application\<close>

text \<open>
  \<open>create_app\<close> adds CORS (a third-party middleware, the parameter \<open>cors\<close>), metrics,
  correlation, rate limiter and audit, in this order. What Starlette documents: a middleware
  added later wraps those added before, the handlers of particular exceptions sit inside
  all middlewares, the handler of \<open>Exception\<close> outside.
\<close>

definition middleware_stack :: "middleware \<Rightarrow> string \<Rightarrow> limiter_settings \<Rightarrow> timestamp \<Rightarrow> middleware list" where
  "middleware_stack cors new_id cfg t =
     [cors, metrics_middleware, correlation_middleware new_id, rate_middleware cfg t, audit_middleware]"

definition with_handlers :: "(exn \<Rightarrow> http_state \<Rightarrow> response option) \<Rightarrow> middleware" where
  "with_handlers h app req s =
     (case app req s of
        (Inl e, s1) \<Rightarrow> (case h e s1 of Some resp \<Rightarrow> (Inr resp, s1) | None \<Rightarrow> (Inl e, s1))
      | (Inr resp, s1) \<Rightarrow> (Inr resp, s1))"

type_synonym builder = "middleware list \<Rightarrow> (exn \<Rightarrow> http_state \<Rightarrow> response option)
  \<Rightarrow> (exn \<Rightarrow> http_state \<Rightarrow> response) \<Rightarrow> app \<Rightarrow> app"

definition starlette_build :: "builder \<Rightarrow> bool" where
  "starlette_build build \<longleftrightarrow>
     (\<forall>h h500 router. build [] h h500 router =
        with_handlers (\<lambda>e s. Some (h500 e s)) (with_handlers h router)) \<and>
     (\<forall>ms m h h500 router. build (ms @ [m]) h h500 router =
        with_handlers (\<lambda>e s. Some (h500 e s)) (m (foldl (\<lambda>a f. f a) (with_handlers h router) ms)))"

definition create_app :: "builder \<Rightarrow> middleware \<Rightarrow> string \<Rightarrow> limiter_settings \<Rightarrow> timestamp \<Rightarrow> app \<Rightarrow> app" where
  "create_app build cors new_id cfg t router =
     build (middleware_stack cors new_id cfg t) handle_exception unhandled_exception_handler router"

subsection \<open>Layers that balance their books\<close>

text \<open>
  An application is balanced when a request leaves the gauge of running requests, the context
  variable and the audit log as it found them, whether it answers or raises. A layer is a
  middleware that keeps applications balanced; all but the audit middleware are layers.
\<close>

definition balanced :: "app \<Rightarrow> bool" where
  "balanced a \<longleftrightarrow> (\<forall>req s. in_progress (snd (a req s)) = in_progress s \<and>
     correlation (snd (a req s)) = correlation s \<and> audit_events (snd (a req s)) = audit_events s)"

lemma balancedD:
  "balanced a \<Longrightarrow> in_progress (snd (a req s)) = in_progress s"
  "balanced a \<Longrightarrow> correlation (snd (a req s)) = correlation s"
  "balanced a \<Longrightarrow> audit_events (snd (a req s)) = audit_events s"
  by (simp_all add: balanced_def)

lemma balanced_run:
  "balanced a \<Longrightarrow> a req s = (r, s') \<Longrightarrow>
   in_progress s' = in_progress s \<and> correlation s' = correlation s \<and> audit_events s' = audit_events s"
  using balancedD [of a req s] by simp

locale layer =
  fixes m :: middleware
  assumes keeps_balance: "balanced a \<Longrightarrow> balanced (m a)"
begin

lemma books_unchanged:
  "balanced a \<Longrightarrow> m a req s = (r, s') \<Longrightarrow>
   in_progress s' = in_progress s \<and> correlation s' = correlation s \<and> audit_events s' = audit_events s"
  by (rule balanced_run [OF keeps_balance])

lemma keeps_balance_over: "balanced (f a) \<Longrightarrow> balanced (m (f a))"
  by (rule keeps_balance)

end

text \<open>The state each layer leaves, through the state of the application inside.\<close>

lemma snd_metrics: "snd (metrics_middleware a req s) =
   (if list_ex (\<lambda>p. starts_with p (path req)) EXCLUDED_PREFIXES then snd (a req s)
    else let out = a req (s\<lparr>in_progress := (in_progress s)(req_method req := in_progress s (req_method req) + 1)\<rparr>);
             s2 = snd out
         in s2\<lparr>requests_total := requests_total s2 @ [(req_method req, normalize_path (path req),
                  case fst out of Inl e \<Rightarrow> 500 | Inr resp \<Rightarrow> status resp)],
               in_progress := (in_progress s2)(req_method req := in_progress s2 (req_method req) - 1)\<rparr>)"
  by (simp add: metrics_middleware_def Let_def case_prod_beta)

lemma snd_correlation: "snd (correlation_middleware i a req s) =
   (snd (a req (s\<lparr>correlation := (case x_request_id req of Some h \<Rightarrow> h | None \<Rightarrow> i)\<rparr>)))
     \<lparr>correlation := correlation s\<rparr>"
  by (simp add: correlation_middleware_def Let_def split: prod.splits sum.splits)

lemma snd_handlers: "snd (with_handlers h a req s) = snd (a req s)"
  by (simp add: with_handlers_def split: prod.splits sum.splits option.splits)

definition limiter_key :: "request \<Rightarrow> http_state \<Rightarrow> string" where
  "limiter_key req s = get_rate_key (map_option snd (identity s)) (client_host req)"

definition limiter_decision :: "limiter_settings \<Rightarrow> timestamp \<Rightarrow> request \<Rightarrow> http_state
    \<Rightarrow> rate_response \<times> zset" where
  "limiter_decision cfg t req s =
     dispatch_rate_limit (path req) (ls_limit cfg) (ls_window cfg) t (zsets s (limiter_key req s))"

definition counted_state :: "limiter_settings \<Rightarrow> timestamp \<Rightarrow> request \<Rightarrow> http_state \<Rightarrow> http_state" where
  "counted_state cfg t req s =
     s\<lparr>zsets := (zsets s)(limiter_key req s := snd (limiter_decision cfg t req s))\<rparr>"

lemma counted_state_sel [simp]:
  "in_progress (counted_state cfg t req s) = in_progress s"
  "correlation (counted_state cfg t req s) = correlation s"
  "audit_events (counted_state cfg t req s) = audit_events s"
  "requests_total (counted_state cfg t req s) = requests_total s"
  "identity (counted_state cfg t req s) = identity s"
  by (simp_all add: counted_state_def)

lemma rate_exempt: "path req \<in> set EXEMPT_PATHS \<Longrightarrow> rate_middleware cfg t a req s = a req s"
  by (simp add: rate_middleware_def)

lemma rate_down: "path req \<notin> set EXEMPT_PATHS \<Longrightarrow> \<not> limiter_up s \<Longrightarrow>
   rate_middleware cfg t a req s = (Inl (ExternalError ''redis''), s)"
  by (simp add: rate_middleware_def)

lemma rate_refused:
  "path req \<notin> set EXEMPT_PATHS \<Longrightarrow> limiter_up s \<Longrightarrow>
   fst (limiter_decision cfg t req s) = TooManyRequests h w \<Longrightarrow>
   rate_middleware cfg t a req s =
     (Inr \<lparr>status = 429, error = ''rate_limit_exceeded'', message = refusal_message (ls_limit cfg) w,
       body_request_id = [], resp_headers = rate_header_list h @ [(''Retry-After'', int_str w)]\<rparr>,
      counted_state cfg t req s)"
  by (cases "limiter_decision cfg t req s")
    (simp add: rate_middleware_def limiter_decision_def limiter_key_def counted_state_def Let_def)

lemma rate_admitted:
  "path req \<notin> set EXEMPT_PATHS \<Longrightarrow> limiter_up s \<Longrightarrow>
   fst (limiter_decision cfg t req s) = Passed hs \<Longrightarrow>
   rate_middleware cfg t a req s =
     (case a req (counted_state cfg t req s) of
        (Inl e, s1) \<Rightarrow> (Inl e, s1)
      | (Inr resp, s1) \<Rightarrow>
          (Inr (resp\<lparr>resp_headers := (case hs of None \<Rightarrow> [] | Some h \<Rightarrow> rate_header_list h)
                        @ resp_headers resp\<rparr>), s1))"
  by (cases "limiter_decision cfg t req s")
    (simp add: rate_middleware_def limiter_decision_def limiter_key_def counted_state_def Let_def)

lemma snd_rate: "snd (rate_middleware cfg t a req s) =
   (if path req \<in> set EXEMPT_PATHS then snd (a req s)
    else if \<not> limiter_up s then s
    else case fst (limiter_decision cfg t req s) of
           TooManyRequests h w \<Rightarrow> counted_state cfg t req s
         | Passed hs \<Rightarrow> snd (a req (counted_state cfg t req s)))"
  by (cases "fst (limiter_decision cfg t req s)")
    (auto simp: rate_exempt rate_down rate_refused rate_admitted split: prod.splits sum.splits)

interpretation met: layer metrics_middleware
  by unfold_locales (auto simp: balanced_def snd_metrics Let_def)

interpretation cor: layer "correlation_middleware i" for i
  by unfold_locales (simp add: balanced_def snd_correlation)

interpretation rat: layer "rate_middleware cfg t" for cfg t
  by unfold_locales (simp add: balanced_def snd_rate split: rate_response.splits)

interpretation han: layer "with_handlers h" for h
  by unfold_locales (simp add: balanced_def snd_handlers)

lemma snd_audit: "snd (audit_middleware a req s) =
   (if req_method req \<notin> set AUDITABLE_METHODS then snd (a req s)
    else (snd (a req s))\<lparr>audit_events := audit_events (snd (a req s)) @
       [\<lparr>ae_method = req_method req, ae_path = path req,
         ae_status = (case fst (a req s) of Inl e \<Rightarrow> None | Inr resp \<Rightarrow> Some (status resp)),
         ae_client_ip = client_of req, ae_request_id = correlation s,
         ae_identity = (case fst (a req s) of Inl e \<Rightarrow> None | Inr resp \<Rightarrow> identity (snd (a req s)))\<rparr>]\<rparr>)"
  by (simp add: audit_middleware_def case_prod_beta)

lemma fst_audit: "fst (audit_middleware a req s) = fst (a req s)"
  by (simp add: audit_middleware_def case_prod_beta)

lemma audit_books: "balanced a \<Longrightarrow> in_progress (snd (audit_middleware a req s)) = in_progress s"
  "balanced a \<Longrightarrow> correlation (snd (audit_middleware a req s)) = correlation s"
  by (simp_all add: snd_audit balancedD)

lemma audit_entry:
  assumes "balanced a"
  shows "\<exists>es. audit_events (snd (audit_middleware a req s)) = audit_events s @ es \<and>
    map (\<lambda>e. (ae_method e, ae_path e, ae_request_id e)) es =
      (if req_method req \<in> set AUDITABLE_METHODS then [(req_method req, path req, correlation s)] else [])"
proof (cases "req_method req \<in> set AUDITABLE_METHODS")
  case True
  let ?e = "\<lparr>ae_method = req_method req, ae_path = path req,
      ae_status = (case fst (a req s) of Inl e \<Rightarrow> None | Inr resp \<Rightarrow> Some (status resp)),
      ae_client_ip = client_of req, ae_request_id = correlation s,
      ae_identity = (case fst (a req s) of Inl e \<Rightarrow> None | Inr resp \<Rightarrow> identity (snd (a req s)))\<rparr>"
  from True have "audit_events (snd (audit_middleware a req s)) = audit_events s @ [?e]"
    by (simp add: snd_audit balancedD [OF assms])
  with True show ?thesis by (intro exI [of _ "[?e]"]) simp
qed (simp add: snd_audit balancedD [OF assms])

subsection \<open>The stack\<close>

definition inner_app :: "middleware \<Rightarrow> string \<Rightarrow> app \<Rightarrow> app" where
  "inner_app cors new_id router =
     correlation_middleware new_id (metrics_middleware (cors (with_handlers handle_exception router)))"

lemma create_app_eq:
  "starlette_build build \<Longrightarrow> create_app build cors new_id cfg t router =
     with_handlers (\<lambda>e s. Some (unhandled_exception_handler e s))
       (audit_middleware (rate_middleware cfg t (inner_app cors new_id router)))"
proof -
  assume "starlette_build build"
  then have "build ([cors, metrics_middleware, correlation_middleware new_id, rate_middleware cfg t]
        @ [audit_middleware]) handle_exception unhandled_exception_handler router =
      with_handlers (\<lambda>e s. Some (unhandled_exception_handler e s))
        (audit_middleware (foldl (\<lambda>a f. f a) (with_handlers handle_exception router)
          [cors, metrics_middleware, correlation_middleware new_id, rate_middleware cfg t]))"
    unfolding starlette_build_def by blast
  then show ?thesis by (simp add: create_app_def middleware_stack_def inner_app_def)
qed

lemma catch_all:
  "fst (with_handlers (\<lambda>e s. Some (g e s)) a req s) =
     Inr (case fst (a req s) of Inl e \<Rightarrow> g e (snd (a req s)) | Inr resp \<Rightarrow> resp)"
  by (simp add: with_handlers_def split: prod.splits sum.splits)

lemma inner_balanced: "layer cors \<Longrightarrow> balanced router \<Longrightarrow> balanced (inner_app cors new_id router)"
  unfolding inner_app_def
  by (intro cor.keeps_balance met.keeps_balance layer.keeps_balance [of cors] han.keeps_balance)

definition header_names :: "response \<Rightarrow> string list" where
  "header_names resp = map fst (resp_headers resp)"

lemma rate_header_names: "map fst (rate_header_list h) =
   [''X-RateLimit-Limit'', ''X-RateLimit-Remaining'', ''X-RateLimit-Reset'']"
  by (simp add: rate_header_list_def)

lemma no_request_id: "''X-Request-ID'' \<notin> fst ` set (rate_header_list h)"
  by (simp add: rate_header_list_def)

subsection \<open>Properties\<close>

text \<open>C30: Every request is answered and accounted for: whatever the endpoint does, the gauge of running
  requests and the correlation context are as before, and the audit log gains exactly one entry for a
  mutating request and none for others. The audit middleware runs outside the correlation
  middleware, so the entry never carries the id of the request.\<close>

theorem requests_are_accounted:
  assumes "starlette_build build" "layer cors" "balanced router" "correlation s = []"
  shows "\<exists>resp s' es. create_app build cors new_id cfg t router req s = (Inr resp, s')
    \<and> in_progress s' = in_progress s \<and> correlation s' = []
    \<and> audit_events s' = audit_events s @ es
    \<and> map (\<lambda>e. (ae_method e, ae_path e, ae_request_id e)) es =
       (if req_method req \<in> set AUDITABLE_METHODS then [(req_method req, path req, [])] else [])"
proof -
  let ?a = "rate_middleware cfg t (inner_app cors new_id router)"
  let ?top = "with_handlers (\<lambda>e s. Some (unhandled_exception_handler e s)) (audit_middleware ?a)"
  have b: "balanced ?a" by (intro rat.keeps_balance inner_balanced assms)
  obtain resp where "fst (?top req s) = Inr resp" using catch_all by metis
  moreover have "snd (?top req s) = snd (audit_middleware ?a req s)" by (rule snd_handlers)
  ultimately have "create_app build cors new_id cfg t router req s = (Inr resp, snd (audit_middleware ?a req s))"
    unfolding create_app_eq [OF assms(1)] by (metis prod.collapse)
  then show ?thesis
    using audit_books [OF b, of req s] audit_entry [OF b, of req s] assms(4) by auto
qed

text \<open>The CORS middleware adds headers to the answer of a request that is no preflight.\<close>

definition cors_adds_headers :: "middleware \<Rightarrow> bool" where
  "cors_adds_headers cors \<longleftrightarrow> (\<forall>app req s. req_method req \<noteq> ''OPTIONS'' \<longrightarrow>
     (\<exists>hs. cors app req s = (case app req s of
        (Inl e, s1) \<Rightarrow> (Inl e, s1)
      | (Inr resp, s1) \<Rightarrow> (Inr (resp\<lparr>resp_headers := resp_headers resp @ hs\<rparr>), s1))))"

definition correlation_of :: "string \<Rightarrow> request \<Rightarrow> string" where
  "correlation_of new_id req = (case x_request_id req of Some h \<Rightarrow> h | None \<Rightarrow> new_id)"

text \<open>The state in which the endpoint runs.\<close>

definition endpoint_state :: "string \<Rightarrow> request \<Rightarrow> http_state \<Rightarrow> http_state" where
  "endpoint_state new_id req s = s\<lparr>correlation := correlation_of new_id req,
     in_progress := (in_progress s)(req_method req := in_progress s (req_method req) + 1)\<rparr>"

lemma cors_result:
  assumes "cors_adds_headers cors" "req_method req \<noteq> ''OPTIONS''" "app req s = (r, s1)"
  obtains hs where "cors app req s = (map_sum id (\<lambda>resp. resp\<lparr>resp_headers := resp_headers resp @ hs\<rparr>) r, s1)"
proof -
  from assms(1,2) obtain hs where "cors app req s = (case app req s of
      (Inl e, s1) \<Rightarrow> (Inl e, s1)
    | (Inr resp, s1) \<Rightarrow> (Inr (resp\<lparr>resp_headers := resp_headers resp @ hs\<rparr>), s1))"
    unfolding cors_adds_headers_def by blast
  then show ?thesis using assms(3) by (intro that [of hs]) (cases r; simp)
qed

lemma inner_result:
  assumes cors: "cors_adds_headers cors" "req_method req \<noteq> ''OPTIONS''"
    and "\<not> list_ex (\<lambda>p. starts_with p (path req)) EXCLUDED_PREFIXES"
    and h: "with_handlers handle_exception router req (endpoint_state new_id req s) = (r, s1)"
  obtains hs where "fst (inner_app cors new_id router req s) =
      map_sum id (\<lambda>resp. resp\<lparr>resp_headers := (''X-Request-ID'', correlation_of new_id req) # resp_headers resp @ hs\<rparr>) r"
    "requests_total (snd (inner_app cors new_id router req s)) = requests_total s1 @
       [(req_method req, normalize_path (path req), case r of Inl e \<Rightarrow> 500 | Inr resp \<Rightarrow> status resp)]"
    "correlation (snd (inner_app cors new_id router req s)) = correlation s"
proof -
  from cors_result [where app = "with_handlers handle_exception router", OF cors h]
  obtain hs where c:
    "cors (with_handlers handle_exception router) req (endpoint_state new_id req s) =
      (map_sum id (\<lambda>resp. resp\<lparr>resp_headers := resp_headers resp @ hs\<rparr>) r, s1)" .
  have st: "(s\<lparr>correlation := correlation_of new_id req\<rparr>)\<lparr>in_progress :=
      (in_progress s)(req_method req := in_progress s (req_method req) + 1)\<rparr> = endpoint_state new_id req s"
    by (simp add: endpoint_state_def)
  show ?thesis
    using assms(3) c
    by (intro that [of hs]; cases r)
      (simp_all add: inner_app_def correlation_middleware_def metrics_middleware_def Let_def st
        flip: correlation_of_def)
qed

lemma serve_admitted:
  assumes "starlette_build build" "path req \<notin> set EXEMPT_PATHS" "limiter_up s"
    and "fst (limiter_decision cfg t req s) = Passed (Some h)"
  shows "\<exists>s'. create_app build cors new_id cfg t router req s =
      (Inr (case fst (inner_app cors new_id router req (counted_state cfg t req s)) of
         Inl e \<Rightarrow> unhandled_exception_handler e (snd (inner_app cors new_id router req (counted_state cfg t req s)))
       | Inr resp \<Rightarrow> resp\<lparr>resp_headers := rate_header_list h @ resp_headers resp\<rparr>), s')
    \<and> requests_total s' = requests_total (snd (inner_app cors new_id router req (counted_state cfg t req s)))"
proof -
  let ?in = "inner_app cors new_id router req (counted_state cfg t req s)"
  let ?a = "rate_middleware cfg t (inner_app cors new_id router)"
  have r: "?a req s = (map_sum id (\<lambda>resp. resp\<lparr>resp_headers := rate_header_list h @ resp_headers resp\<rparr>) (fst ?in), snd ?in)"
    unfolding rate_admitted [OF assms(2-4)] by (cases ?in; cases "fst ?in") simp_all
  have t: "requests_total (snd (audit_middleware ?a req s)) = requests_total (snd ?in)"
    "correlation (snd (audit_middleware ?a req s)) = correlation (snd ?in)"
    by (simp_all add: snd_audit r)
  have "create_app build cors new_id cfg t router req s =
      (Inr (case fst (?a req s) of Inl e \<Rightarrow> unhandled_exception_handler e (snd (audit_middleware ?a req s))
        | Inr resp \<Rightarrow> resp), snd (audit_middleware ?a req s))"
    unfolding create_app_eq [OF assms(1)]
    by (rule prod_eqI) (simp_all add: catch_all fst_audit snd_handlers)
  then show ?thesis
    using t by (cases "fst ?in") (simp_all add: r unhandled_exception_handler_def)
qed


lemma serve_rejected:
  assumes "starlette_build build" and a: "rate_middleware cfg t (inner_app cors new_id router) req s = (r, s1)"
  shows "\<exists>s'. create_app build cors new_id cfg t router req s =
      (Inr (case r of Inl e \<Rightarrow> unhandled_exception_handler e s1 | Inr resp \<Rightarrow> resp), s')
    \<and> requests_total s' = requests_total s1"
proof -
  let ?a = "rate_middleware cfg t (inner_app cors new_id router)"
  have "requests_total (snd (audit_middleware ?a req s)) = requests_total s1"
    "correlation (snd (audit_middleware ?a req s)) = correlation s1"
    by (simp_all add: snd_audit a)
  moreover have "create_app build cors new_id cfg t router req s =
      (Inr (case fst (?a req s) of Inl e \<Rightarrow> unhandled_exception_handler e (snd (audit_middleware ?a req s))
        | Inr resp \<Rightarrow> resp), snd (audit_middleware ?a req s))"
    unfolding create_app_eq [OF assms(1)]
    by (rule prod_eqI) (simp_all add: catch_all fst_audit snd_handlers)
  ultimately show ?thesis by (cases r) (simp_all add: a unhandled_exception_handler_def)
qed

text \<open>The rate limiter runs outside metrics and correlation and before the authentication: a refused
  request is answered with 429 but neither counted nor given a correlation id, requests are counted
  per client address and never per organization, and without Redis every request that is not exempt
  is answered with an internal error instead of being let through.\<close>

theorem refused_requests_are_invisible:
  assumes "starlette_build build" "path req \<notin> set EXEMPT_PATHS" "identity s = None" "correlation s = []"
    and dec: "fst (limiter_decision cfg t req s) = TooManyRequests h w"
  shows "\<exists>resp s1 s2. create_app build cors new_id cfg t router req (s\<lparr>limiter_up := True\<rparr>) = (Inr resp, s1)
    \<and> status resp = 429 \<and> ''X-Request-ID'' \<notin> set (header_names resp) \<and> requests_total s1 = requests_total s
    \<and> limiter_key req s = ''ip:'' @ client_of req
    \<and> create_app build cors new_id cfg t router req (s\<lparr>limiter_up := False\<rparr>) =
        (Inr (json_response 500 ''internal_error''
           ''An unexpected error occurred. Please contact support.'' []), s2)
    \<and> requests_total s2 = requests_total s"
proof -
  have dec': "fst (limiter_decision cfg t req (s\<lparr>limiter_up := True\<rparr>)) = TooManyRequests h w"
    using dec by (simp add: limiter_decision_def limiter_key_def)
  obtain resp s1 where 1: "create_app build cors new_id cfg t router req (s\<lparr>limiter_up := True\<rparr>) = (Inr resp, s1)"
    "status resp = 429" "''X-Request-ID'' \<notin> set (header_names resp)" "requests_total s1 = requests_total s"
    using serve_rejected [OF assms(1) rate_refused [OF assms(2) _ dec'], of cors new_id router]
    by (auto simp: header_names_def no_request_id)
  have down: "rate_middleware cfg t (inner_app cors new_id router) req (s\<lparr>limiter_up := False\<rparr>) =
      (Inl (ExternalError ''redis''), s\<lparr>limiter_up := False\<rparr>)"
    by (rule rate_down) (simp_all add: assms(2))
  obtain s2 where "create_app build cors new_id cfg t router req (s\<lparr>limiter_up := False\<rparr>) =
        (Inr (json_response 500 ''internal_error''
           ''An unexpected error occurred. Please contact support.'' []), s2)"
      "requests_total s2 = requests_total s"
    using serve_rejected [OF assms(1) down]
    by (auto simp: unhandled_exception_handler_def assms(4))
  with 1 assms(3) show ?thesis by (auto simp: limiter_key_def get_rate_key_def client_of_def)
qed

subsection \<open>Path labels\<close>

lemma slash_not_hex [simp]: "\<not> is_hex (CHR ''/'')" "\<not> is_digit (CHR ''/'')"
  by (simp_all add: is_hex_def is_digit_def char_code_def)

lemma take_hex_slash: "take_hex n (x @ CHR ''/'' # s) = map_option (\<lambda>r. r @ CHR ''/'' # s) (take_hex n x)"
  by (induction n x rule: take_hex.induct) simp_all

lemma take_groups_slash:
  "ns \<noteq> [] \<Longrightarrow> take_groups ns (x @ CHR ''/'' # s) = map_option (\<lambda>r. r @ CHR ''/'' # s) (take_groups ns x)"
proof (induction ns x rule: take_groups.induct)
  case (3 n m ns x)
  show ?case
  proof (cases "take_hex n x")
    case (Some r)
    with 3 show ?thesis by (cases r) (auto simp: take_hex_slash)
  qed (simp add: take_hex_slash)
qed (simp_all add: take_hex_slash)

lemma match_uuid_slash: "match_uuid (x @ CHR ''/'' # s) = map_option (\<lambda>r. r @ CHR ''/'' # s) (match_uuid x)"
  unfolding match_uuid_def by (rule take_groups_slash) simp

lemma match_uuid_Nil [simp]: "match_uuid [] = None"
  by (simp add: match_uuid_def numeral_eq_Suc)

lemma sub_uuid_slash: "sub_uuid (x @ CHR ''/'' # s) = sub_uuid x @ CHR ''/'' # sub_uuid s"
proof (induction x rule: sub_uuid.induct)
  case 1
  have "match_uuid (CHR ''/'' # s) = None" using match_uuid_slash [of "[]" s] by simp
  then show ?case by simp
next
  case (2 c x)
  show ?case
  proof (cases "match_uuid (c # x)")
    case None
    with 2 match_uuid_slash [of "c # x" s] show ?thesis by simp
  next
    case (Some r)
    with 2 match_uuid_slash [of "c # x" s] show ?thesis by simp
  qed
qed

lemma take_hex_set: "take_hex n s = Some r \<Longrightarrow> set r \<subseteq> set s"
  by (induction n s rule: take_hex.induct) (auto split: if_splits)

lemma take_groups_set: "take_groups ns s = Some r \<Longrightarrow> set r \<subseteq> set s"
proof (induction ns s rule: take_groups.induct)
  case (3 n m ns s)
  then obtain q where "take_hex n s = Some (CHR ''-'' # q)" "take_groups (m # ns) q = Some r"
    by (auto split: option.splits list.splits if_splits)
  with 3 have "set r \<subseteq> set q" by auto
  moreover have "set q \<subseteq> set s" using take_hex_set [OF \<open>take_hex n s = _\<close>] by simp
  ultimately show ?case by blast
qed (auto dest: take_hex_set)

lemma match_uuid_set: "match_uuid s = Some r \<Longrightarrow> set r \<subseteq> set s"
  unfolding match_uuid_def by (rule take_groups_set)

lemma set_sub_uuid: "set (sub_uuid g) \<subseteq> set g \<union> set '':id''"
proof (induction g rule: sub_uuid.induct)
  case (2 c s)
  show ?case
  proof (cases "match_uuid (c # s)")
    case (Some r)
    with 2(2) [OF Some] match_uuid_set [OF Some] show ?thesis by auto
  qed (use 2(1) in auto)
qed simp

lemma sub_numeric_through: "CHR ''/'' \<notin> set g \<Longrightarrow> sub_numeric (g @ s) = g @ sub_numeric s"
  by (induction g) auto

text \<open>The reference: each segment of a path has its own label.\<close>

definition segment_label :: "string \<Rightarrow> string" where
  "segment_label g = (let g' = sub_uuid g in if g' \<noteq> [] \<and> list_all is_digit g' then '':id'' else g')"

lemma label_uuid: "match_uuid u = Some [] \<Longrightarrow> segment_label u = '':id''"
  by (cases u) (simp_all add: segment_label_def is_digit_def char_code_def)

lemma sub_uuid_digits: "list_all is_digit d \<Longrightarrow> sub_uuid d = d"
proof (induction d)
  case (Cons c d)
  have "take_groups [8, 4, 4, 4, 12] s = None" if "list_all is_digit s" for s
  proof -
    have "take_hex n s = Some r \<Longrightarrow> list_all is_digit r" for n r
      using that by (induction n s rule: take_hex.induct) (auto split: if_splits)
    then have "take_hex 8 s \<noteq> Some (CHR ''-'' # r)" for r
      by (fastforce simp: is_digit_def char_code_def)
    then show ?thesis by (auto split: option.splits list.splits)
  qed
  with Cons have "match_uuid (c # d) = None" by (simp add: match_uuid_def)
  with Cons show ?case by simp
qed simp

lemma label_digits: "list_all is_digit d \<Longrightarrow> d \<noteq> [] \<Longrightarrow> segment_label d = '':id''"
  by (simp add: segment_label_def sub_uuid_digits)

definition path_of :: "string list \<Rightarrow> string" where
  "path_of segs = concat (map (\<lambda>g. CHR ''/'' # g) segs)"

lemma path_of_cases: "path_of segs = [] \<or> hd (path_of segs) = CHR ''/''"
  by (cases segs) (simp_all add: path_of_def)

lemma sub_uuid_path: "sub_uuid (path_of segs) = path_of (map sub_uuid segs)"
proof (induction segs)
  case (Cons g segs)
  have head: "sub_uuid (CHR ''/'' # x) = CHR ''/'' # sub_uuid x" for x
    using sub_uuid_slash [of "[]" x] by simp
  show ?case
  proof (cases segs)
    case (Cons h hs)
    then show ?thesis
      using Cons.IH sub_uuid_slash [of g "h @ path_of hs"] head by (simp add: path_of_def del: sub_uuid.simps)
  qed (simp add: path_of_def head del: sub_uuid.simps)
qed (simp add: path_of_def)

lemma sub_numeric_segment:
  assumes "CHR ''/'' \<notin> set g" "CHR 0x0A \<notin> set g" "r = [] \<or> hd r = CHR ''/''"
  shows "sub_numeric (CHR ''/'' # g @ r) =
    CHR ''/'' # (if g \<noteq> [] \<and> list_all is_digit g then '':id'' else g) @ sub_numeric r"
proof (cases "list_all is_digit g")
  case True
  then have tw: "takeWhile is_digit (g @ r) = g" "dropWhile is_digit (g @ r) = r"
    using assms(3) by (cases r; simp add: list_all_iff takeWhile_append2 dropWhile_append2)+
  then show ?thesis
    using True assms by (cases "g = []") (auto simp: segment_end_def sub_numeric_through)
next
  case False
  then obtain c d where "dropWhile is_digit g = c # d" "\<not> is_digit c"
    by (metis dropWhile_eq_Nil_conv hd_dropWhile list.exhaust list.sel(1) list_all_iff)
  moreover from this(1) have "c \<in> set g" by (metis list.set_intros(1) set_dropWhileD)
  ultimately have "\<not> segment_end (dropWhile is_digit (g @ r))"
    using assms(1,2) False by (auto simp: segment_end_def dropWhile_append list_all_iff)
  with False assms(1) show ?thesis by (simp add: sub_numeric_through)
qed

lemma sub_numeric_path:
  "(\<And>g. g \<in> set segs \<Longrightarrow> CHR ''/'' \<notin> set g \<and> CHR 0x0A \<notin> set g) \<Longrightarrow>
   sub_numeric (path_of segs) =
     path_of (map (\<lambda>g. if g \<noteq> [] \<and> list_all is_digit g then '':id'' else g) segs)"
proof (induction segs)
  case (Cons g segs)
  have "sub_numeric (CHR ''/'' # g @ path_of segs) =
      CHR ''/'' # (if g \<noteq> [] \<and> list_all is_digit g then '':id'' else g) @ sub_numeric (path_of segs)"
    by (rule sub_numeric_segment) (use Cons.prems path_of_cases [of segs] in auto)
  with Cons show ?case by (simp add: path_of_def del: sub_numeric.simps)
qed (simp add: path_of_def)

text \<open>The metric label of a path is computed segment by segment: a UUID and a number become the
  placeholder, wherever they stand, and a segment without either is kept, so that requests which
  differ only in ids share one label.\<close>

theorem path_labels_per_segment:
  assumes "\<And>g. g \<in> set segs \<Longrightarrow> CHR ''/'' \<notin> set g \<and> CHR 0x0A \<notin> set g"
    and "match_uuid u = Some []" "list_all is_digit d" "d \<noteq> []"
  shows "normalize_path (path_of segs) = path_of (map segment_label segs)
    \<and> segment_label u = '':id'' \<and> segment_label d = '':id''"
proof -
  have "CHR ''/'' \<notin> set (sub_uuid g) \<and> CHR 0x0A \<notin> set (sub_uuid g)" if "g \<in> set segs" for g
    using assms(1) [OF that] set_sub_uuid [of g] by auto
  then have "sub_numeric (path_of (map sub_uuid segs)) =
      path_of (map (\<lambda>g. if g \<noteq> [] \<and> list_all is_digit g then '':id'' else g) (map sub_uuid segs))"
    by (intro sub_numeric_path) auto
  moreover have "(\<lambda>g. if g \<noteq> [] \<and> list_all is_digit g then '':id'' else g) \<circ> sub_uuid = segment_label"
    by (simp add: fun_eq_iff segment_label_def Let_def)
  ultimately have "normalize_path (path_of segs) = path_of (map segment_label segs)"
    by (simp add: normalize_path_def sub_uuid_path)
  then show ?thesis using assms(2-4) by (simp add: label_uuid label_digits)
qed

subsection \<open>Witnesses\<close>

definition plain_build :: builder where
  "plain_build ms h h500 router =
     with_handlers (\<lambda>e s. Some (h500 e s)) (foldl (\<lambda>a f. f a) (with_handlers h router) ms)"

lemma plain_builder: "starlette_build plain_build"
  by (simp add: starlette_build_def plain_build_def)

definition sample_request :: "string \<Rightarrow> request" where
  "sample_request m = \<lparr>req_method = m, path = ''/x'', x_request_id = Some ''abc'', client_host = Some ''1.2.3.4'',
     user_agent_header = None\<rparr>"

definition fresh_http :: "(string \<Rightarrow> zset) \<Rightarrow> http_state" where
  "fresh_http z = \<lparr>correlation = [], identity = None, audit_events = [], in_progress = (\<lambda>_. 0),
     requests_total = [], limiter_up = True, zsets = z\<rparr>"

lemma sample_request_paths:
  "path (sample_request m) \<notin> set EXEMPT_PATHS"
  "\<not> list_ex (\<lambda>p. starts_with p (path (sample_request m))) EXCLUDED_PREFIXES"
  by (simp_all add: sample_request_def EXEMPT_PATHS_def EXCLUDED_PREFIXES_def starts_with_def)

lemma sample_label: "normalize_path ''/x'' = ''/x''"
  by code_simp

theorem requests_are_accounted_witness:
  "\<exists>resp s'. create_app plain_build (\<lambda>a. a) ''id'' \<lparr>ls_limit = 5, ls_window = 60\<rparr> 100
     (\<lambda>r s. (Inl DBAPIError, s)) (sample_request ''POST'') (fresh_http (\<lambda>_. [])) = (Inr resp, s')
     \<and> map (\<lambda>e. (ae_method e, ae_path e, ae_request_id e)) (audit_events s') = [(''POST'', ''/x'', [])]"
proof -
  have "layer (\<lambda>a. a)" by unfold_locales
  moreover have "balanced (\<lambda>r s. (Inl DBAPIError, s))" by (simp add: balanced_def)
  ultimately show ?thesis
    using requests_are_accounted [OF plain_builder, of "\<lambda>a. a" "\<lambda>r s. (Inl DBAPIError, s)" "fresh_http (\<lambda>_. [])"
        "''id''" "\<lparr>ls_limit = 5, ls_window = 60\<rparr>" 100 "sample_request ''POST''"]
    by (auto simp: fresh_http_def sample_request_def AUDITABLE_METHODS_def)
qed


theorem refused_requests_are_invisible_witness:
  "\<exists>resp s'. create_app plain_build (\<lambda>a. a) ''id'' \<lparr>ls_limit = 0, ls_window = 60\<rparr> 100
     (\<lambda>r s. (Inl DBAPIError, s)) (sample_request ''GET'') (fresh_http (\<lambda>_. [])) = (Inr resp, s')
     \<and> status resp = 429 \<and> requests_total s' = []"
proof -
  have "\<exists>h w. fst (limiter_decision \<lparr>ls_limit = 0, ls_window = 60\<rparr> 100 (sample_request ''GET'')
      (fresh_http (\<lambda>_. []))) = TooManyRequests h w"
    using sample_request_paths(1)
    by (simp add: limiter_decision_def dispatch_rate_limit_def fresh_http_def Let_def zremrangebyscore_def
        zcard_def)
  then obtain h w where d: "fst (limiter_decision \<lparr>ls_limit = 0, ls_window = 60\<rparr> 100 (sample_request ''GET'')
      (fresh_http (\<lambda>_. []))) = TooManyRequests h w" by blast
  have "identity (fresh_http z) = None" "correlation (fresh_http z) = []"
    "(fresh_http z)\<lparr>limiter_up := True\<rparr> = fresh_http z" "requests_total (fresh_http z) = []" for z
    by (simp_all add: fresh_http_def)
  then show ?thesis
    using refused_requests_are_invisible [OF plain_builder sample_request_paths(1) _ _ d,
        of "\<lambda>a. a" "''id''" "\<lambda>r s. (Inl DBAPIError, s)"] by fastforce
qed

definition sample_uuid :: string where
  "sample_uuid = ''01234567-89ab-cdef-0123-456789abcdef''"

theorem path_labels_per_segment_witness:
  "normalize_path (path_of [''runs'', sample_uuid, ''42'']) = ''/runs/:id/:id''"
proof -
  have "match_uuid sample_uuid = Some []" "list_all is_digit ''42''" "segment_label ''runs'' = ''runs''"
    "CHR ''/'' \<notin> set sample_uuid" "CHR 0x0A \<notin> set sample_uuid"
    by code_simp+
  moreover from this have "CHR ''/'' \<notin> set g \<and> CHR 0x0A \<notin> set g"
    if "g \<in> set [''runs'', sample_uuid, ''42'']" for g
    using that by auto
  ultimately show ?thesis
    using path_labels_per_segment [of "[''runs'', sample_uuid, ''42'']" sample_uuid "''42''"]
    by (simp add: path_of_def)
qed

end
