(* ===== verification/Validators.thy ===== *)
theory Validators
  imports PyRegex HttpStack Paging
begin

section \<open>Validators (\<open>utils/validators.py\<close>)\<close>

text \<open>
  The checks of identifiers, slugs, scopes, free text and webhook addresses. The patterns are
  those of the source as terms of theory \<open>PyRegex\<close>; \<open>uuid.UUID\<close>, \<open>int(s, 16)\<close> and
  \<open>urllib.parse.urlparse\<close> are written out as far as the validators use them.
\<close>

subsection \<open>Identifiers\<close>

text \<open>\<open>s.replace(old, "")\<close> and \<open>s.strip(chars)\<close>.\<close>

function remove_all :: "string \<Rightarrow> string \<Rightarrow> string" where
  "remove_all old [] = []"
| "remove_all old (c # s) =
     (if old \<noteq> [] \<and> starts_with old (c # s) then remove_all old (drop (length old) (c # s))
      else c # remove_all old s)"
  by pat_completeness auto
termination by (relation "measure (\<lambda>(old, s). length s)") auto

definition strip_chars :: "string \<Rightarrow> string \<Rightarrow> string" where
  "strip_chars cs s = (let p = (\<lambda>c. c \<in> set cs) in rev (dropWhile p (rev (dropWhile p s))))"

text \<open>The texts \<open>int(s, 16)\<close> accepts: spaces around it, a sign, a prefix, single underscores between
  the digits.\<close>

fun hex_tail :: "string \<Rightarrow> bool" where
  "hex_tail [] = True"
| "hex_tail (c # s) =
     (if c = CHR ''_'' then (case s of [] \<Rightarrow> False | d # s' \<Rightarrow> is_hex d \<and> hex_tail s') else is_hex c \<and> hex_tail s)"

definition hex_number :: "string \<Rightarrow> bool" where
  "hex_number s = (case s of [] \<Rightarrow> False | c # s' \<Rightarrow> is_hex c \<and> hex_tail s')"

definition int16_ok :: "string \<Rightarrow> bool" where
  "int16_ok s =
     (let t = str_strip s;
          u = (case t of c # t' \<Rightarrow> if c = CHR ''+'' \<or> c = CHR ''-'' then t' else t | [] \<Rightarrow> t)
      in if starts_with ''0x'' u \<or> starts_with ''0X'' u
         then hex_number (case drop 2 u of c # v \<Rightarrow> if c = CHR ''_'' then v else c # v | [] \<Rightarrow> [])
         else hex_number u)"

text \<open>\<open>UUID(value)\<close>: the number of 32 hexadecimal characters is always in range.\<close>

definition is_valid_uuid :: "string \<Rightarrow> bool" where
  "is_valid_uuid v =
     (let h = remove_all ''-'' (strip_chars ''{}'' (remove_all ''uuid:'' (remove_all ''urn:'' v)))
      in length h = 32 \<and> int16_ok h)"

lemma remove_all_absent: "old \<noteq> [] \<Longrightarrow> hd old \<notin> set s \<Longrightarrow> remove_all old s = s"
  by (induction old s rule: remove_all.induct) (auto simp: starts_with_def neq_Nil_conv)

lemma remove_dash: "remove_all ''-'' s = filter (\<lambda>c. c \<noteq> CHR ''-'') s"
  by (induction s) (auto simp: starts_with_def)

lemma dropWhile_none: "(\<And>c. c \<in> set s \<Longrightarrow> \<not> P c) \<Longrightarrow> dropWhile P s = s"
  by (cases s) auto

lemma strip_absent: "set cs \<inter> set s = {} \<Longrightarrow> strip_chars cs s = s"
proof -
  assume "set cs \<inter> set s = {}"
  then have "dropWhile (\<lambda>c. c \<in> set cs) s = s" "dropWhile (\<lambda>c. c \<in> set cs) (rev s) = rev s"
    by (auto intro!: dropWhile_none)
  then show ?thesis by (simp add: strip_chars_def Let_def)
qed

lemma take_hex_split: "take_hex n s = Some r \<Longrightarrow> \<exists>u. s = u @ r \<and> length u = n \<and> list_all is_hex u"
proof (induction n s rule: take_hex.induct)
  case (3 n c s)
  then obtain u where "s = u @ r" "length u = n" "list_all is_hex u" "is_hex c"
    by (auto split: if_splits)
  then show ?case by (intro exI [of _ "c # u"]) simp
qed simp_all

lemma take_groups_split: "take_groups ns s = Some r \<Longrightarrow> ns \<noteq> [] \<Longrightarrow>
   \<exists>us. s = join_with ''-'' us @ r \<and> map length us = ns \<and> list_all (list_all is_hex) us"
proof (induction ns s rule: take_groups.induct)
  case (2 n s)
  then obtain u where "s = u @ r" "length u = n" "list_all is_hex u" using take_hex_split by force
  then show ?case by (intro exI [of _ "[u]"]) simp
next
  case (3 n m ns s)
  then obtain c t where ct: "take_hex n s = Some (c # t)" "c = CHR ''-''" "take_groups (m # ns) t = Some r"
    by (auto split: option.splits list.splits if_splits)
  obtain u where u: "s = u @ c # t" "length u = n" "list_all is_hex u" using take_hex_split [OF ct(1)] by blast
  obtain us where us: "t = join_with ''-'' us @ r" "map length us = m # ns" "list_all (list_all is_hex) us"
    using "3.IH" [OF ct(1) _ ct(2)] ct(3) by auto
  have "us \<noteq> []" using us(2) by auto
  then have "join_with ''-'' (u # us) = u @ ''-'' @ join_with ''-'' us" by (cases us) auto
  then show ?case using u us ct(2) by (intro exI [of _ "u # us"]) simp
qed simp

lemma hex_facts:
  assumes "is_hex c"
  shows "c \<noteq> CHR ''u''" "c \<noteq> CHR ''-''" "c \<noteq> CHR ''{''" "c \<noteq> CHR ''}''" "\<not> is_space c" "c \<noteq> CHR ''+''"
    "c \<noteq> CHR ''x''" "c \<noteq> CHR ''X''" "c \<noteq> CHR ''_''"
  using assms by (auto simp: is_hex_def is_digit_def is_space_def is_space_code_def char_code_def)

lemma join_dash_hex: "list_all (list_all is_hex) us \<Longrightarrow>
   set (join_with ''-'' us) \<subseteq> insert (CHR ''-'') {c. is_hex c}
   \<and> filter (\<lambda>c. c \<noteq> CHR ''-'') (join_with ''-'' us) = concat us"
  by (induction "''-''" us rule: join_with.induct) (auto simp: list_all_iff hex_facts filter_id_conv)

lemma hex_tail_all: "list_all is_hex s \<Longrightarrow> hex_tail s"
  by (induction s rule: hex_tail.induct) (auto dest: hex_facts(9))

lemma strip_no_space: "list_all (\<lambda>c. \<not> is_space c) s \<Longrightarrow> str_strip s = s"
proof -
  assume a: "list_all (\<lambda>c. \<not> is_space c) s"
  then have "dropWhile is_space s = s" "dropWhile is_space (rev s) = rev s"
    by (auto intro!: dropWhile_none simp: list_all_iff)
  then show ?thesis by (simp add: str_strip_def)
qed

lemma int16_hex: "list_all is_hex s \<Longrightarrow> s \<noteq> [] \<Longrightarrow> int16_ok s"
proof -
  assume a: "list_all is_hex s" "s \<noteq> []"
  then obtain c s' where s: "s = c # s'" "is_hex c" "list_all is_hex s'" by (cases s) auto
  have "str_strip s = s" using a by (intro strip_no_space) (auto simp: list_all_iff hex_facts)
  moreover have "\<not> starts_with ''0x'' s" "\<not> starts_with ''0X'' s"
    using a by (cases s; cases "tl s"; auto simp: starts_with_def hex_facts)+
  ultimately show ?thesis using s by (simp add: int16_ok_def Let_def hex_facts hex_number_def hex_tail_all)
qed

text \<open>
  Every identifier in the usual form of five groups of hexadecimal digits, in either case, is a
  valid UUID; so are texts that are none, such as a number with the prefix 0x and 30 digits.
\<close>

theorem canonical_uuid_valid:
  assumes "match_uuid v = Some []"
  shows "is_valid_uuid v \<and> is_valid_uuid (''0x'' @ replicate 30 (CHR ''0''))
    \<and> match_uuid (''0x'' @ replicate 30 (CHR ''0'')) = None"
proof -
  have "\<exists>us. v = join_with ''-'' us \<and> map length us = [8, 4, 4, 4, 12] \<and> list_all (list_all is_hex) us"
    using take_groups_split [OF assms [unfolded match_uuid_def]] by simp
  then obtain us where us: "v = join_with ''-'' us" "map length us = [8, 4, 4, 4, 12]" "list_all (list_all is_hex) us"
    by (elim exE conjE)
  note j = join_dash_hex [OF us(3)]
  have sub: "c = CHR ''-'' \<or> is_hex c" if "c \<in> set v" for c using j us(1) that by auto
  have not_hex: "\<not> is_hex (CHR ''u'')" "\<not> is_hex (CHR ''{'')" "\<not> is_hex (CHR ''}'')"
    by (simp_all add: is_hex_def is_digit_def char_code_def)
  have "CHR ''u'' \<notin> set v" "set ''{}'' \<inter> set v = {}" using sub not_hex by auto
  then have "remove_all ''-'' (strip_chars ''{}'' (remove_all ''uuid:'' (remove_all ''urn:'' v))) = concat us"
    using j us(1) by (simp add: remove_all_absent strip_absent remove_dash)
  moreover have "length (concat us) = 32" using us(2) by (simp add: length_concat)
  moreover have "list_all is_hex (concat us)" using us(3) by (auto simp: list_all_iff)
  moreover have "is_valid_uuid v" if "remove_all ''-'' (strip_chars ''{}'' (remove_all ''uuid:'' (remove_all ''urn:'' v))) = h"
    "length h = 32" "list_all is_hex h" for h
    using that int16_hex [of h] by (cases h) (simp_all add: is_valid_uuid_def Let_def)
  ultimately have "is_valid_uuid v" by blast
  moreover have "is_valid_uuid (''0x'' @ replicate 30 (CHR ''0''))
    \<and> match_uuid (''0x'' @ replicate 30 (CHR ''0'')) = None" by code_simp
  ultimately show ?thesis by blast
qed

theorem canonical_uuid_valid_witness:
  "is_valid_uuid ''01890a5d-AC96-774b-bcce-b302099a8057''"
proof -
  have "match_uuid ''01890a5d-AC96-774b-bcce-b302099a8057'' = Some []" by code_simp
  then show ?thesis using canonical_uuid_valid by blast
qed

subsection \<open>Slugs and scopes\<close>

definition slug_char :: "char \<Rightarrow> bool" where
  "slug_char c \<longleftrightarrow> is_lower_ascii c \<or> is_digit c"

text \<open>\<open>^[a-z0-9]([a-z0-9-]*[a-z0-9])?$\<close>\<close>

definition slug_pattern :: regex where
  "slug_pattern = Cat (Class slug_char)
     (Cat (Opt (Cat (Star (Class (\<lambda>c. slug_char c \<or> c = CHR ''-''))) (Class slug_char))) Dollar)"

definition is_valid_slug :: "string \<Rightarrow> bool" where
  "is_valid_slug v =
     (if v = [] \<or> length v > 63 then False
      else if \<not> re_match slug_pattern v then False
      else if str_contains ''--'' v then False else True)"

definition scope_char :: "char \<Rightarrow> bool" where
  "scope_char c \<longleftrightarrow> is_lower_ascii c \<or> c = CHR ''_''"

text \<open>\<open>^[a-z_]+:[a-z_]+$\<close>\<close>

definition scope_pattern :: regex where
  "scope_pattern =
     Cat (Plus (Class scope_char)) (Cat (Lit (CHR '':'')) (Cat (Plus (Class scope_char)) Dollar))"

definition is_valid_scope :: "string \<Rightarrow> bool" where
  "is_valid_scope s \<longleftrightarrow> re_match scope_pattern s"

text \<open>The rules as the documentation states them.\<close>

definition slug_rules :: "string \<Rightarrow> bool" where
  "slug_rules v \<longleftrightarrow> 1 \<le> length v \<and> length v \<le> 63 \<and> list_all (\<lambda>c. slug_char c \<or> c = CHR ''-'') v
     \<and> hd v \<noteq> CHR ''-'' \<and> last v \<noteq> CHR ''-'' \<and> \<not> str_contains ''--'' v"

lemma slug_words: "takes slug_pattern u t \<longleftrightarrow>
   (u \<noteq> [] \<and> list_all (\<lambda>c. slug_char c \<or> c = CHR ''-'') u \<and> slug_char (hd u) \<and> slug_char (last u) \<and> at_end t)"
proof
  assume "takes slug_pattern u t"
  then obtain c v where u: "u = c # v" "slug_char c" "at_end t"
      "v = [] \<or> (\<exists>w d. v = w @ [d] \<and> list_all (\<lambda>c. slug_char c \<or> c = CHR ''-'') w \<and> slug_char d)"
    unfolding slug_pattern_def by (auto simp: takes_cat_iff takes_opt_iff)
  then show "u \<noteq> [] \<and> list_all (\<lambda>c. slug_char c \<or> c = CHR ''-'') u \<and> slug_char (hd u) \<and> slug_char (last u) \<and> at_end t"
    by auto
next
  assume a: "u \<noteq> [] \<and> list_all (\<lambda>c. slug_char c \<or> c = CHR ''-'') u \<and> slug_char (hd u) \<and> slug_char (last u) \<and> at_end t"
  then obtain c v where u: "u = c # v" "slug_char c" by (cases u) auto
  have "v = [] \<or> (\<exists>w d. v = w @ [d] \<and> list_all (\<lambda>c. slug_char c \<or> c = CHR ''-'') w \<and> slug_char d)"
    using a u by (cases v rule: rev_cases) auto
  then have "takes (Opt (Cat (Star (Class (\<lambda>c. slug_char c \<or> c = CHR ''-''))) (Class slug_char))) v t'" for t'
  proof
    assume "\<exists>w d. v = w @ [d] \<and> list_all (\<lambda>c. slug_char c \<or> c = CHR ''-'') w \<and> slug_char d"
    then show ?thesis by (auto intro!: takes_opt_some takes_cat)
  qed (simp add: takes_opt_none)
  then have "takes (Cat (Opt (Cat (Star (Class (\<lambda>c. slug_char c \<or> c = CHR ''-''))) (Class slug_char))) Dollar) (v @ []) t"
    using a by (intro takes_cat takes_dollar) auto
  then have "takes slug_pattern ([c] @ v) t"
    unfolding slug_pattern_def using u(2) by (intro takes_cat takes_class) simp_all
  then show "takes slug_pattern u t" using u(1) by simp
qed

lemma scope_words: "takes scope_pattern u t \<longleftrightarrow>
   (\<exists>a b. u = a @ '':'' @ b \<and> a \<noteq> [] \<and> b \<noteq> [] \<and> list_all scope_char (a @ b) \<and> at_end t)"
proof
  show "takes scope_pattern u t \<Longrightarrow> \<exists>a b. u = a @ '':'' @ b \<and> a \<noteq> [] \<and> b \<noteq> []
      \<and> list_all scope_char (a @ b) \<and> at_end t"
    unfolding scope_pattern_def takes_cat_iff by auto
next
  assume "\<exists>a b. u = a @ '':'' @ b \<and> a \<noteq> [] \<and> b \<noteq> [] \<and> list_all scope_char (a @ b) \<and> at_end t"
  then obtain a b where u: "u = a @ '':'' @ b @ []" "a \<noteq> []" "b \<noteq> []" "list_all scope_char (a @ b)" "at_end t"
    by auto
  show "takes scope_pattern u t"
    unfolding scope_pattern_def u(1) using u(2-5) by (intro takes_cat takes_dollar) auto
qed

lemma newline_not_slug: "\<not> slug_char (CHR 0x0A)" "\<not> slug_char (CHR ''-'')" "\<not> scope_char (CHR 0x0A)"
  "\<not> scope_char (CHR '':'')"
  by (simp_all add: slug_char_def scope_char_def is_lower_ascii_def is_digit_def char_code_def)

lemma contains_newline: "str_contains ''--'' (v @ [CHR 0x0A]) = str_contains ''--'' v"
proof (induction v)
  case (Cons c v)
  have "starts_with ''--'' (c # v @ [CHR 0x0A]) = starts_with ''--'' (c # v)"
    by (cases v) (auto simp: starts_with_def)
  then show ?case using Cons by simp
qed (simp add: starts_with_def)

lemma slug_match: "re_match slug_pattern v \<longleftrightarrow>
   (\<exists>u. (v = u \<or> v = u @ [CHR 0x0A]) \<and> u \<noteq> [] \<and> list_all (\<lambda>c. slug_char c \<or> c = CHR ''-'') u
      \<and> slug_char (hd u) \<and> slug_char (last u))"
  unfolding re_match_iff slug_words at_end_def by auto

lemma scope_match: "is_valid_scope s = (\<exists>a b. (s = a @ '':'' @ b \<or> s = a @ '':'' @ b @ [CHR 0x0A])
    \<and> a \<noteq> [] \<and> b \<noteq> [] \<and> list_all scope_char (a @ b))" (is "_ = ?R")
proof
  assume "is_valid_scope s"
  then obtain u t a b where "s = u @ t" "u = a @ '':'' @ b" "a \<noteq> []" "b \<noteq> []" "list_all scope_char (a @ b)"
      "t = [] \<or> t = [CHR 0x0A]"
    unfolding is_valid_scope_def re_match_iff scope_words at_end_def by blast
  then show ?R by (intro exI [of _ a] exI [of _ b]) auto
next
  assume ?R
  then obtain a b t where s: "s = (a @ '':'' @ b) @ t" "a \<noteq> []" "b \<noteq> []" "list_all scope_char (a @ b)" "at_end t"
    unfolding at_end_def by (elim exE conjE disjE) (metis append_Nil2, metis append_assoc)
  then show "is_valid_scope s"
    unfolding is_valid_scope_def re_match_iff scope_words by blast
qed

text \<open>
  A slug passes exactly when it obeys the documented rules, or is such a slug of at most 62
  characters followed by a newline: the end of the pattern also matches before a last newline.
  A scope passes exactly when it is two non-empty words of lower case letters and underscores
  with a colon between them, again up to a newline at the end.
\<close>

theorem slugs_and_scopes:
  "is_valid_slug v = (slug_rules v \<or> (\<exists>u. v = u @ [CHR 0x0A] \<and> slug_rules u \<and> length u \<le> 62))
   \<and> is_valid_scope s = (\<exists>a b. (s = a @ '':'' @ b \<or> s = a @ '':'' @ b @ [CHR 0x0A])
        \<and> a \<noteq> [] \<and> b \<noteq> [] \<and> list_all scope_char (a @ b))"
proof -
  have ends: "list_all (\<lambda>c. slug_char c \<or> c = CHR ''-'') u \<Longrightarrow> u \<noteq> [] \<Longrightarrow>
      slug_char (hd u) \<and> slug_char (last u) \<longleftrightarrow> hd u \<noteq> CHR ''-'' \<and> last u \<noteq> CHR ''-''" for u
    using newline_not_slug(2) hd_in_set [of u] last_in_set [of u] unfolding list_all_iff by metis
  have rules: "slug_rules u \<longleftrightarrow> u \<noteq> [] \<and> length u \<le> 63 \<and> list_all (\<lambda>c. slug_char c \<or> c = CHR ''-'') u
      \<and> slug_char (hd u) \<and> slug_char (last u) \<and> \<not> str_contains ''--'' u" for u
    unfolding slug_rules_def using ends [of u] by (cases u) auto
  have "is_valid_slug v = (slug_rules v \<or> (\<exists>u. v = u @ [CHR 0x0A] \<and> slug_rules u \<and> length u \<le> 62))"
    unfolding is_valid_slug_def slug_match rules by (auto simp: contains_newline)
  moreover note scope_match [of s]
  ultimately show ?thesis by blast
qed

subsection \<open>Free text\<close>

text \<open>\<open>re.sub(r"\s+", " ", value)\<close>: every run of white space becomes one space.\<close>

fun sub_spaces :: "bool \<Rightarrow> string \<Rightarrow> string" where
  "sub_spaces in_run [] = []"
| "sub_spaces in_run (c # s) =
     (if is_space c then (if in_run then sub_spaces True s else CHR '' '' # sub_spaces True s)
      else c # sub_spaces False s)"

text \<open>\<open>value[:max_length]\<close>, which for a negative length drops characters from the end.\<close>

definition sanitize_string :: "int \<Rightarrow> string \<Rightarrow> string" where
  "sanitize_string max_length v =
     (let w = filter (\<lambda>c. c \<noteq> CHR 0x00) (sub_spaces False (str_strip v))
      in py_slice 0 (if max_length < 0 then int (length w) + max_length else max_length) w)"

text \<open>The words of a text: its runs of characters that are no white space.\<close>

function text_words :: "string \<Rightarrow> string list" where
  "text_words [] = []"
| "text_words (c # s) =
     (if is_space c then text_words s
      else (c # takeWhile (\<lambda>d. \<not> is_space d) s) # text_words (dropWhile (\<lambda>d. \<not> is_space d) s))"
  by pat_completeness auto
termination by (relation "measure length") (auto simp: le_imp_less_Suc length_dropWhile_le)

lemma sub_word: "list_all (\<lambda>c. \<not> is_space c) w \<Longrightarrow> w \<noteq> [] \<Longrightarrow> sub_spaces b (w @ r) = w @ sub_spaces False r"
  by (induction w arbitrary: b) (auto, metis append_Nil list.pred_inject(2))

lemma words_nonempty: "\<not> is_space c \<Longrightarrow> c \<in> set s \<Longrightarrow> text_words s \<noteq> []"
  by (induction s rule: text_words.induct) auto

lemma sub_words: "s = [] \<or> \<not> is_space (last s) \<Longrightarrow> sub_spaces True s = join_with '' '' (text_words s)"
proof (induction s rule: text_words.induct)
  case (2 c s)
  show ?case
  proof (cases "is_space c")
    case True
    then have "s \<noteq> [] \<and> \<not> is_space (last s)" using "2.prems" by (auto split: if_splits)
    then show ?thesis using True "2.IH"(1) by simp
  next
    case False
    let ?w = "c # takeWhile (\<lambda>d. \<not> is_space d) s" and ?r = "dropWhile (\<lambda>d. \<not> is_space d) s"
    have w: "list_all (\<lambda>c. \<not> is_space c) ?w" using False by (auto simp: list_all_iff dest: set_takeWhileD)
    have split: "c # s = ?w @ ?r" by simp
    have sub: "sub_spaces True (c # s) = ?w @ sub_spaces False ?r"
      by (subst split, rule sub_word [OF w]) simp
    show ?thesis
    proof (cases ?r)
      case Nil
      then show ?thesis using False sub by (simp del: dropWhile_eq_Nil_conv takeWhile_eq_all_conv)
    next
      case (Cons d r)
      then have d: "is_space d" by (metis dropWhile_eq_Cons_conv)
      have "last (c # s) = last ?r" using Cons split by (metis last_append list.discI)
      then have l: "\<not> is_space (last ?r)" using "2.prems" by simp
      then have r: "text_words ?r \<noteq> []" using Cons words_nonempty [of "last ?r" ?r] by simp
      have "sub_spaces True ?r = join_with '' '' (text_words ?r)" using "2.IH"(2) [OF False] l by blast
      then have "sub_spaces False ?r = '' '' @ join_with '' '' (text_words ?r)" using Cons d by simp
      then show ?thesis using False sub r by (cases "text_words ?r") simp_all
    qed
  qed
qed simp

lemma words_drop_leading: "text_words (dropWhile is_space s) = text_words s"
  by (induction s) auto

lemma words_drop_trailing: "list_all is_space sp \<Longrightarrow> text_words (s @ sp) = text_words s"
proof (induction s rule: text_words.induct)
  case 1
  then show ?case by (induction sp) auto
next
  case (2 c s)
  have "takeWhile (\<lambda>d. \<not> is_space d) (s @ sp) = takeWhile (\<lambda>d. \<not> is_space d) s
     \<and> text_words (dropWhile (\<lambda>d. \<not> is_space d) (s @ sp)) = text_words (dropWhile (\<lambda>d. \<not> is_space d) s)"
    if "\<not> is_space c"
  proof (cases "\<forall>d \<in> set s. \<not> is_space d")
    case True
    have "takeWhile (\<lambda>d. \<not> is_space d) sp = []" "dropWhile (\<lambda>d. \<not> is_space d) sp = sp"
      using "2.prems" by (cases sp; simp)+
    moreover have "text_words sp = []" using "2.prems" by (induction sp) auto
    moreover have "takeWhile (\<lambda>d. \<not> is_space d) s = s" "dropWhile (\<lambda>d. \<not> is_space d) s = []"
      using True by simp_all
    ultimately show ?thesis using True by (simp del: dropWhile_eq_Nil_conv takeWhile_eq_all_conv)
  next
    case False
    then show ?thesis using "2.IH"(2) [OF that "2.prems"] by (auto simp: takeWhile_append1 dropWhile_append1)
  qed
  then show ?case using 2 by auto
qed

lemma words_strip: "text_words (str_strip s) = text_words s"
proof -
  let ?t = "dropWhile is_space s"
  have "?t = rev (dropWhile is_space (rev ?t)) @ rev (takeWhile is_space (rev ?t))"
    by (metis rev_append rev_rev_ident takeWhile_dropWhile_id)
  moreover have "list_all is_space (rev (takeWhile is_space (rev ?t)))"
    by (auto simp: list_all_iff dest: set_takeWhileD)
  ultimately have "text_words ?t = text_words (str_strip s)"
    unfolding str_strip_def using words_drop_trailing by metis
  then show ?thesis by (simp add: words_drop_leading)
qed

lemma strip_ends: "str_strip s = [] \<or> \<not> is_space (hd (str_strip s)) \<and> \<not> is_space (last (str_strip s))"
proof (cases "str_strip s = []")
  case False
  let ?t = "dropWhile is_space s"
  have s: "str_strip s = rev (dropWhile is_space (rev ?t))" by (simp add: str_strip_def)
  then have "dropWhile is_space (rev ?t) \<noteq> []" using False by simp
  then have l: "\<not> is_space (last (str_strip s))" unfolding s by (simp add: last_rev hd_dropWhile)
  have "?t = rev (dropWhile is_space (rev ?t)) @ rev (takeWhile is_space (rev ?t))"
    by (metis rev_append rev_rev_ident takeWhile_dropWhile_id)
  then have "hd ?t = hd (str_strip s)" using False unfolding s by (metis hd_append)
  moreover have "?t \<noteq> []" using False unfolding s by (metis dropWhile.simps(1) rev.simps(1))
  ultimately have "\<not> is_space (hd (str_strip s))" by (metis hd_dropWhile)
  then show ?thesis using l by blast
qed simp

lemma sub_strip: "sub_spaces False (str_strip s) = join_with '' '' (text_words s)"
proof (cases "str_strip s")
  case Nil
  then show ?thesis using words_strip [of s] by simp
next
  case (Cons c t)
  then have "\<not> is_space c" using strip_ends [of s] by simp
  then have "sub_spaces False (str_strip s) = sub_spaces True (str_strip s)" using Cons by simp
  then show ?thesis using sub_words [of "str_strip s"] strip_ends [of s] words_strip [of s] by auto
qed

lemma set_sub_spaces: "set (sub_spaces b s) \<subseteq> insert (CHR '' '') (set s)"
  by (induction b s rule: sub_spaces.induct) auto

text \<open>
  On text without NUL characters \<open>sanitize_string\<close> returns the words of the text with one space
  between them, cut to the given length; in general its result has no NUL, no white space but the
  plain space, and at most the given length. NULs are removed last, so those between spaces leave
  two spaces next to each other and one at the beginning.
\<close>

theorem sanitize_string_words:
  assumes "CHR 0x00 \<notin> set v" and "0 \<le> n"
  shows "sanitize_string n v = take (nat n) (join_with '' '' (text_words v))
    \<and> CHR 0x00 \<notin> set (sanitize_string n w) \<and> length (sanitize_string n w) \<le> nat n
    \<and> list_all (\<lambda>c. is_space c \<longrightarrow> c = CHR '' '') (sanitize_string n w)
    \<and> sanitize_string 255 [CHR 0x00, CHR '' '', CHR ''a'', CHR '' '', CHR 0x00, CHR '' '', CHR ''b''] = '' a  b''"
proof -
  have cut: "sanitize_string n x = take (nat n) (filter (\<lambda>c. c \<noteq> CHR 0x00) (sub_spaces False (str_strip x)))" for x
  proof -
    let ?f = "filter (\<lambda>c. c \<noteq> CHR 0x00) (sub_spaces False (str_strip x))"
    have "py_slice 0 n ?f = take (nat n) ?f" using assms(2) by (simp add: py_slice_def slice_bound_def Let_def min_def)
    then show ?thesis using assms(2) by (simp add: sanitize_string_def Let_def)
  qed
  have "CHR 0x00 \<notin> set (sub_spaces False (str_strip v))"
    using assms(1) set_sub_spaces [of False "str_strip v"] set_str_strip [of v] by auto
  then have "filter (\<lambda>c. c \<noteq> CHR 0x00) (sub_spaces False (str_strip v)) = sub_spaces False (str_strip v)"
    by (auto simp: filter_id_conv)
  then have 1: "sanitize_string n v = take (nat n) (join_with '' '' (text_words v))"
    using cut [of v] by (simp add: sub_strip)
  have plain: "c \<in> set (sub_spaces b s) \<Longrightarrow> is_space c \<Longrightarrow> c = CHR '' ''" for b s c
    by (induction b s rule: sub_spaces.induct) (auto split: if_splits)
  have 2: "CHR 0x00 \<notin> set (sanitize_string n w)" "length (sanitize_string n w) \<le> nat n"
    unfolding cut using set_take_subset by (fastforce, simp)
  have 3: "list_all (\<lambda>c. is_space c \<longrightarrow> c = CHR '' '') (sanitize_string n w)"
    unfolding cut list_all_iff by (auto dest!: in_set_takeD dest: plain)
  have 4: "sanitize_string 255 [CHR 0x00, CHR '' '', CHR ''a'', CHR '' '', CHR 0x00, CHR '' '', CHR ''b''] = '' a  b''"
    by code_simp
  show ?thesis using 1 2 3 4 by blast
qed

theorem sanitize_string_words_witness:
  "sanitize_string 7 ''  Acme   Labs Inc'' = ''Acme La''"
proof -
  have "CHR 0x00 \<notin> set ''  Acme   Labs Inc''" "text_words ''  Acme   Labs Inc'' = [''Acme'', ''Labs'', ''Inc'']"
    by code_simp+
  then show ?thesis using sanitize_string_words [of "''  Acme   Labs Inc''" 7] by simp
qed

subsection \<open>Webhook addresses\<close>

text \<open>
  \<open>urlparse\<close>: leading control characters and spaces go, tabs and newlines go everywhere, then
  the scheme and the network location. A bracket without its counterpart raises \<open>ValueError\<close>; what
  stands in a pair of brackets is checked by the module \<open>ipaddress\<close>, a parameter.
\<close>

definition scheme_char :: "char \<Rightarrow> bool" where
  "scheme_char c \<longleftrightarrow> is_lower_ascii c \<or> is_digit c \<or> (65 \<le> char_code c \<and> char_code c \<le> 90) \<or> c \<in> set ''+-.''"

definition url_clean :: "string \<Rightarrow> string" where
  "url_clean url = filter (\<lambda>c. c \<notin> {CHR 0x09, CHR 0x0A, CHR 0x0D}) (dropWhile (\<lambda>c. char_code c \<le> 32) url)"

definition url_scheme :: "string \<Rightarrow> string \<times> string" where
  "url_scheme url =
     (let s = takeWhile (\<lambda>c. c \<noteq> CHR '':'') url
      in if s \<noteq> [] \<and> length s < length url \<and> scheme_char (hd s) \<and> \<not> is_digit (hd s) \<and> hd s \<notin> set ''+-.''
            \<and> list_all scheme_char s
         then (str_lower s, drop (length s + 1) url) else ([], url))"

definition url_netloc :: "string \<Rightarrow> string" where
  "url_netloc rest = (if starts_with ''//'' rest then takeWhile (\<lambda>c. c \<notin> set ''/?#'') (drop 2 rest) else [])"

definition urlparse :: "(string \<Rightarrow> bool) \<Rightarrow> string \<Rightarrow> exn + (string \<times> string)" where
  "urlparse bracket_ok url =
     (let (scheme, rest) = url_scheme (url_clean url); netloc = url_netloc rest
      in if (CHR ''['' \<in> set netloc) \<noteq> (CHR '']'' \<in> set netloc) then Inl (ValueError ''Invalid IPv6 URL'')
         else if CHR ''['' \<in> set netloc \<and> \<not> bracket_ok netloc then Inl (ValueError ''Invalid IPv6 URL'')
         else Inr (scheme, netloc))"

text \<open>\<open>partition\<close>, the last part of \<open>rpartition\<close>, and the property \<open>hostname\<close>.\<close>

definition before :: "char \<Rightarrow> string \<Rightarrow> string" where
  "before d s = takeWhile (\<lambda>c. c \<noteq> d) s"

definition after_last :: "char \<Rightarrow> string \<Rightarrow> string" where
  "after_last d s = (if d \<in> set s then rev (takeWhile (\<lambda>c. c \<noteq> d) (rev s)) else s)"

definition url_hostname :: "string \<Rightarrow> string option" where
  "url_hostname netloc =
     (let info = after_last (CHR ''@'') netloc;
          h = (if CHR ''['' \<in> set info then before (CHR '']'') (drop (length (before (CHR ''['') info) + 1) info)
               else before (CHR '':'') info)
      in if h = [] then None
         else Some (str_lower (before (CHR ''%'') h) @ drop (length (before (CHR ''%'') h)) h))"

definition blocked_prefixes :: "string list" where
  "blocked_prefixes = [''10.'', ''172.16.'', ''172.17.'', ''172.18.'', ''172.19.'', ''172.20.'', ''172.21.'',
     ''172.22.'', ''172.23.'', ''172.24.'', ''172.25.'', ''172.26.'', ''172.27.'', ''172.28.'', ''172.29.'',
     ''172.30.'', ''172.31.'', ''192.168.'', ''169.254.'']"

definition validate_webhook_url :: "(string \<Rightarrow> bool) \<Rightarrow> string \<Rightarrow> bool" where
  "validate_webhook_url bracket_ok url =
     (case urlparse bracket_ok url of
        Inl e \<Rightarrow> False
      | Inr (scheme, netloc) \<Rightarrow>
          if scheme = [] \<or> netloc = [] then False
          else if scheme \<noteq> ''https'' \<and> url_hostname netloc \<notin> {Some ''localhost'', Some ''127.0.0.1''} then False
          else let hostname = (case url_hostname netloc of None \<Rightarrow> [] | Some h \<Rightarrow> h)
               in if list_ex (\<lambda>p. starts_with p hostname) blocked_prefixes then False else True)"

text \<open>Host names of lower case letters, digits, dots and hyphens.\<close>

definition plain_host :: "string \<Rightarrow> bool" where
  "plain_host h \<longleftrightarrow> h \<noteq> [] \<and> list_all (\<lambda>c. slug_char c \<or> c \<in> set ''.-'') h"

definition plain_path :: "string \<Rightarrow> bool" where
  "plain_path p \<longleftrightarrow> p = [] \<or> hd p \<in> set ''/?#''"

lemma plain_char:
  assumes "slug_char c \<or> c \<in> set ''.-''"
  shows "c \<notin> set ''/?#@:%[]''" "c \<notin> {CHR 0x09, CHR 0x0A, CHR 0x0D}" "lower_char c = c"
proof -
  have code: "char_code c \<in> {45, 46} \<union> {48..57} \<union> {97..122}"
    using assms by (auto simp: slug_char_def is_lower_ascii_def is_digit_def char_code_def)
  then show "lower_char c = c" by (auto simp: lower_char_def is_upper_def is_upper_code_def)
  show "c \<notin> set ''/?#@:%[]''" "c \<notin> {CHR 0x09, CHR 0x0A, CHR 0x0D}" using code by (auto simp: char_code_def)
qed

lemma plain_facts:
  assumes "plain_host h"
  shows "c \<in> set h \<Longrightarrow> c \<notin> set ''/?#@:%[]''" "c \<in> set h \<Longrightarrow> c \<notin> {CHR 0x09, CHR 0x0A, CHR 0x0D}" "str_lower h = h"
  using assms plain_char unfolding plain_host_def list_all_iff str_lower_def by (auto simp: map_idI)

lemma plain_hostname: "plain_host h \<Longrightarrow> url_hostname h = Some h"
proof -
  assume a: "plain_host h"
  have no: "CHR ''@'' \<notin> set h" "CHR ''['' \<notin> set h" "CHR '':'' \<notin> set h" "CHR ''%'' \<notin> set h"
    using plain_facts(1) [OF a] by auto
  have "before d h = h" if "d \<notin> set h" for d using that by (auto simp: before_def takeWhile_eq_all_conv)
  then show ?thesis
    using no a plain_facts(3) [OF a] by (simp add: url_hostname_def after_last_def Let_def plain_host_def)
qed

lemma takeWhile_host: "plain_host h \<Longrightarrow> plain_path p \<Longrightarrow>
   takeWhile (\<lambda>c. c \<notin> set ''/?#'') (h @ filter Q p) = h" if "\<And>c. c \<in> set ''/?#'' \<Longrightarrow> Q c"
proof -
  assume a: "plain_host h" and p: "plain_path p"
  have "takeWhile (\<lambda>c. c \<notin> set ''/?#'') (h @ filter Q p) = h @ takeWhile (\<lambda>c. c \<notin> set ''/?#'') (filter Q p)"
    using plain_facts(1) [OF a] by (intro takeWhile_append2) auto
  moreover have "takeWhile (\<lambda>c. c \<notin> set ''/?#'') (filter Q p) = []"
    using p that by (cases p) (auto simp: plain_path_def)
  ultimately show ?thesis by simp
qed

lemma urlparse_plain:
  assumes "plain_host h" and "plain_path p" and "sch = ''http'' \<or> sch = ''https''"
  shows "urlparse bracket_ok (sch @ ''://'' @ h @ p) = Inr (sch, h)"
proof -
  let ?Q = "\<lambda>c. c \<notin> {CHR 0x09, CHR 0x0A, CHR 0x0D}"
  have h: "filter ?Q h = h" using plain_facts(2) [OF assms(1)] by (auto simp: filter_id_conv)
  have clean: "url_clean (sch @ ''://'' @ h @ p) = sch @ ''://'' @ h @ filter ?Q p"
  proof -
    have "dropWhile (\<lambda>c. char_code c \<le> 32) (sch @ ''://'' @ h @ p) = sch @ ''://'' @ h @ p"
      using assms(3) by (auto simp: char_code_def)
    moreover have "filter ?Q sch = sch" "filter ?Q ''://'' = ''://''" using assms(3) by auto
    ultimately show ?thesis unfolding url_clean_def by (simp only: filter_append append_assoc [symmetric] h)
  qed
  have low: "str_lower ''http'' = ''http''" "str_lower ''https'' = ''https''" by code_simp+
  have sc: "list_all scheme_char ''http''" "list_all scheme_char ''https''"
    "scheme_char (CHR ''h'')" "\<not> is_digit (CHR ''h'')" by code_simp+
  have scheme: "url_scheme (sch @ ''://'' @ r) = (sch, ''//'' @ r)" for r
  proof -
    have "takeWhile (\<lambda>c. c \<noteq> CHR '':'') (sch @ ''://'' @ r) = sch" using assms(3) by auto
    then show ?thesis using assms(3) low sc by (auto simp: url_scheme_def Let_def)
  qed
  have "takeWhile (\<lambda>c. c \<notin> set ''/?#'') (h @ filter ?Q p) = h"
    by (rule takeWhile_host [OF _ assms(1,2)]) auto
  then have "url_netloc (''//'' @ h @ filter ?Q p) = h" by (simp add: url_netloc_def starts_with_def)
  moreover have "CHR ''['' \<notin> set h" "CHR '']'' \<notin> set h" using plain_facts(1) [OF assms(1)] by auto
  ultimately show ?thesis unfolding urlparse_def clean scheme by (simp del: append.simps)
qed

text \<open>
  For ordinary host names an https address passes exactly when the host has none of the blocked
  prefixes, and an http address exactly for localhost and 127.0.0.1. So internal hosts do pass: https
  addresses of localhost, of the loopback address, in decimal or IPv6 form, and of any public IP
  address, while names that only begin like an internal address are refused.
\<close>

theorem webhook_url_rules:
  assumes "plain_host h" and "plain_path p"
  shows "validate_webhook_url bracket_ok (''https://'' @ h @ p) =
      (\<not> list_ex (\<lambda>b. starts_with b h) blocked_prefixes)
    \<and> validate_webhook_url bracket_ok (''http://'' @ h @ p) = (h \<in> {''localhost'', ''127.0.0.1''})
    \<and> validate_webhook_url bracket_ok ''https://localhost/hook'' \<and> validate_webhook_url bracket_ok ''https://127.0.0.1/hook''
    \<and> validate_webhook_url bracket_ok ''https://2130706433/hook'' \<and> validate_webhook_url bracket_ok ''https://8.8.8.8/''
    \<and> validate_webhook_url (\<lambda>_. True) ''https://[::1]/hook''
    \<and> \<not> validate_webhook_url bracket_ok ''https://10.example.com/''"
proof -
  have ne: "h \<noteq> []" using assms(1) by (simp add: plain_host_def)
  have 1: "validate_webhook_url bracket_ok (''https://'' @ h @ p) = (\<not> list_ex (\<lambda>b. starts_with b h) blocked_prefixes)"
    using urlparse_plain [OF assms, of "''https''" bracket_ok] ne
    by (simp add: validate_webhook_url_def plain_hostname [OF assms(1)])
  have "\<not> list_ex (\<lambda>b. starts_with b ''localhost'') blocked_prefixes"
    "\<not> list_ex (\<lambda>b. starts_with b ''127.0.0.1'') blocked_prefixes" by code_simp+
  then have 2: "validate_webhook_url bracket_ok (''http://'' @ h @ p) = (h \<in> {''localhost'', ''127.0.0.1''})"
    using urlparse_plain [OF assms, of "''http''" bracket_ok] ne
    by (auto simp: validate_webhook_url_def plain_hostname [OF assms(1)])
  have 3: "validate_webhook_url bracket_ok ''https://localhost/hook'' \<and> validate_webhook_url bracket_ok ''https://127.0.0.1/hook''
    \<and> validate_webhook_url bracket_ok ''https://2130706433/hook'' \<and> validate_webhook_url bracket_ok ''https://8.8.8.8/''
    \<and> \<not> validate_webhook_url bracket_ok ''https://10.example.com/''"
    by code_simp
  have 4: "validate_webhook_url (\<lambda>_. True) ''https://[::1]/hook''" by code_simp
  show ?thesis using 1 2 3 4 by blast
qed

theorem webhook_url_rules_witness:
  "validate_webhook_url (\<lambda>_. False) ''https://hooks.acme.io/x''
   \<and> \<not> validate_webhook_url (\<lambda>_. False) ''http://hooks.acme.io/x''"
proof -
  have "plain_host ''hooks.acme.io''" "plain_path ''/x''" by code_simp+
  note w = webhook_url_rules [OF this, of "\<lambda>_. False"]
  have "\<not> list_ex (\<lambda>b. starts_with b ''hooks.acme.io'') blocked_prefixes" by code_simp
  then show ?thesis using w by simp
qed

end
