(* ===== verification/AuthApi.thy ===== *)
theory AuthApi
  imports Api Validators
begin

section \<open>Authentication requests (\<open>api/v1/auth.py\<close>, \<open>schemas/auth.py\<close>)\<close>

text \<open>
  The request bodies with their validation, the endpoints around the operations of theory
  AuthService, and sequences of requests. A request is one session: the user is found, the role
  and the body are checked, then the handler runs. Validation of e-mail addresses is that of a
  library and a parameter: \<open>email_check\<close> gives the normalised address or refuses it.
\<close>

subsection \<open>Bodies\<close>

record user_create =
  uc_email :: string
  uc_password :: string
  uc_full_name :: string
  uc_organization_name :: string

definition between :: "nat \<Rightarrow> nat \<Rightarrow> string \<Rightarrow> bool" where
  "between lo hi s \<longleftrightarrow> lo \<le> length s \<and> length s \<le> hi"

text \<open>The rules of the validator are commented out.\<close>

definition validate_password_complexity :: "string \<Rightarrow> exn + string" where
  "validate_password_complexity v = Inr v"

definition user_create_errors :: "(string \<Rightarrow> string option) \<Rightarrow> user_create \<Rightarrow> string list" where
  "user_create_errors email_check b =
     (if email_check (uc_email b) = None then [''email''] else [])
     @ (if \<not> between 8 128 (uc_password b) \<or> \<not> is_ok (validate_password_complexity (uc_password b))
        then [''password''] else [])
     @ (if \<not> between 1 255 (uc_full_name b) then [''full_name''] else [])
     @ (if \<not> between 1 255 (uc_organization_name b) then [''organization_name''] else [])"

record user_login =
  ul_email :: string
  ul_password :: string

definition user_login_errors :: "(string \<Rightarrow> string option) \<Rightarrow> user_login \<Rightarrow> string list" where
  "user_login_errors email_check b = (if email_check (ul_email b) = None then [''email''] else [])"

record api_key_create =
  kc_name :: string
  kc_scopes :: "string list"
  kc_expires_in_days :: "int option"

definition api_key_create_errors :: "api_key_create \<Rightarrow> string list" where
  "api_key_create_errors b =
     (if \<not> between 1 255 (kc_name b) then [''name''] else [])
     @ (case kc_expires_in_days b of None \<Rightarrow> []
        | Some n \<Rightarrow> if n < 1 \<or> n > 365 then [''expires_in_days''] else [])"

definition normalised :: "(string \<Rightarrow> string option) \<Rightarrow> string \<Rightarrow> string" where
  "normalised email_check e = (case email_check e of None \<Rightarrow> e | Some e' \<Rightarrow> e')"

subsection \<open>Responses\<close>

record 'tok token_response =
  access_token :: 'tok
  refresh_token :: 'tok
  tr_token_type :: string
  expires_in :: int

definition new_token_response :: "auth_settings \<Rightarrow> 'tok \<Rightarrow> 'tok \<Rightarrow> 'tok token_response" where
  "new_token_response st a r = \<lparr>access_token = a, refresh_token = r, tr_token_type = ''bearer'',
     expires_in = jwt_access_token_expire_minutes st * 60\<rparr>"

text \<open>\<open>ApiKeyCreated.model_validate(api_key)\<close>: the raw key is assigned only afterwards.\<close>

definition api_key_attributes :: "string list" where
  "api_key_attributes = [''id'', ''created_at'', ''updated_at'', ''deleted_at'', ''is_deleted'',
     ''organization_id'', ''name'', ''key_hash'', ''key_prefix'', ''user_id'', ''scopes'', ''expires_at'',
     ''last_used_at'', ''is_revoked'', ''is_valid'', ''organization'', ''user'']"

definition api_key_response_fields :: "string list" where
  "api_key_response_fields = [''created_at'', ''updated_at'', ''id'', ''name'', ''key_prefix'', ''scopes'',
     ''expires_at'', ''last_used_at'', ''is_revoked'']"

definition api_key_created_fields :: "string list" where
  "api_key_created_fields = api_key_response_fields @ [''raw_key'']"

definition api_key_created :: "api_key \<Rightarrow> exn + api_key" where
  "api_key_created k =
     (if list_all (\<lambda>f. f \<in> set api_key_attributes) api_key_created_fields then Inr k
      else Inl (ValueError ''ApiKeyCreated''))"

subsection \<open>Endpoints\<close>

text \<open>The handler with the authenticated user, all in one session.\<close>

definition authenticated :: "(string \<Rightarrow> string) \<Rightarrow> (timestamp \<Rightarrow> 'tok \<Rightarrow> exn + jwt_claims) \<Rightarrow> auth_settings
    \<Rightarrow> env \<Rightarrow> 'tok option \<Rightarrow> string option \<Rightarrow> (user \<Rightarrow> db \<Rightarrow> (db, 'a) outcome) \<Rightarrow> db \<Rightarrow> (db, 'a) outcome" where
  "authenticated sha256 decode st env bearer key h =
     in_session (\<lambda>d. case get_current_user sha256 decode st env bearer key d of
                       (Inl e, d') \<Rightarrow> (Inl e, d') | (Inr u, d') \<Rightarrow> h u d')"

definition register_request :: "(string \<Rightarrow> string option) \<Rightarrow> (string \<Rightarrow> string) \<Rightarrow> env \<Rightarrow> uuid \<Rightarrow> uuid
    \<Rightarrow> user_create \<Rightarrow> db \<Rightarrow> (db, user) outcome" where
  "register_request email_check hash_pw env org_id user_id b =
     validated (user_create_errors email_check b)
       (register_endpoint hash_pw env org_id user_id (normalised email_check (uc_email b))
          (uc_password b) (uc_full_name b) (uc_organization_name b))"

definition login_request :: "(string \<Rightarrow> string option) \<Rightarrow> (string \<Rightarrow> string \<Rightarrow> bool) \<Rightarrow> (jwt_claims \<Rightarrow> 'tok)
    \<Rightarrow> auth_settings \<Rightarrow> env \<Rightarrow> uuid \<Rightarrow> user_login \<Rightarrow> db \<Rightarrow> (db, 'tok token_response) outcome" where
  "login_request email_check verify encode st env new_jti b =
     validated (user_login_errors email_check b)
       (\<lambda>d. respond (\<lambda>(a, r, _). Inr (new_token_response st a r))
          (login verify encode st env new_jti (normalised email_check (ul_email b)) (ul_password b) d))"

definition refresh_request :: "(jwt_claims \<Rightarrow> 'tok) \<Rightarrow> (timestamp \<Rightarrow> 'tok \<Rightarrow> exn + jwt_claims)
    \<Rightarrow> auth_settings \<Rightarrow> env \<Rightarrow> uuid \<Rightarrow> 'tok \<Rightarrow> db \<Rightarrow> (db, 'tok token_response) outcome" where
  "refresh_request encode decode st env new_jti tok =
     in_session (\<lambda>d. respond (\<lambda>(a, r). Inr (new_token_response st a r))
       (refresh_access_token encode decode st env new_jti tok d))"

definition create_api_key_handler :: "(string \<Rightarrow> string) \<Rightarrow> env \<Rightarrow> uuid \<Rightarrow> string \<Rightarrow> api_key_create
    \<Rightarrow> user \<Rightarrow> db \<Rightarrow> (db, api_key \<times> string) outcome" where
  "create_api_key_handler sha256 env new_id token_hex b u =
     validated (api_key_create_errors b)
       (\<lambda>d. respond (\<lambda>(k, raw). map_sum id (\<lambda>k'. (k', raw)) (api_key_created k))
          (create_api_key_for_user sha256 env new_id token_hex (ident u) (organization_id u)
             (kc_name b) (kc_scopes b) (kc_expires_in_days b) d))"

definition hex_digit :: "char \<Rightarrow> nat" where
  "hex_digit c = (let n = char_code c in if n \<le> 57 then n - 48 else if n \<le> 70 then n - 55 else n - 87)"

definition uuid_of_text :: "string \<Rightarrow> exn + uuid" where
  "uuid_of_text v =
     (if is_valid_uuid v
      then Inr (foldl (\<lambda>n c. 16 * n + hex_digit c) 0
        (filter is_hex (remove_all ''-'' (strip_chars ''{}'' (remove_all ''uuid:'' (remove_all ''urn:'' v))))))
      else Inl (ValueError ''badly formed hexadecimal UUID string''))"

definition revoke_api_key_handler :: "env \<Rightarrow> string \<Rightarrow> user \<Rightarrow> db \<Rightarrow> (db, string) outcome" where
  "revoke_api_key_handler env key_id u =
     guarded ADMIN u (\<lambda>d. case uuid_of_text key_id of
         Inl e \<Rightarrow> (Inl e, d)
       | Inr k \<Rightarrow> respond (\<lambda>_. Inr ''API key revoked successfully'')
           (revoke_api_key env k (organization_id u) (ident u) d))"

subsection \<open>Sequences of requests\<close>

datatype 'tok auth_request =
    Register user_create
  | Login user_login
  | Refresh 'tok
  | Me "'tok option" "string option"
  | Create_key "'tok option" "string option" api_key_create
  | Revoke_key "'tok option" "string option" string

text \<open>What the deployment provides, and what is fresh for each request.\<close>

record 'tok auth_world =
  aw_email :: "string \<Rightarrow> string option"
  aw_hash :: "string \<Rightarrow> string"
  aw_verify :: "string \<Rightarrow> string \<Rightarrow> bool"
  aw_sha256 :: "string \<Rightarrow> string"
  aw_encode :: "jwt_claims \<Rightarrow> 'tok"
  aw_decode :: "timestamp \<Rightarrow> 'tok \<Rightarrow> exn + jwt_claims"
  aw_settings :: auth_settings

record fresh =
  fr_env :: env
  fr_id :: uuid
  fr_id2 :: uuid
  fr_hex :: string

definition unit_answer :: "('s, 'a) outcome \<Rightarrow> ('s, unit) outcome" where
  "unit_answer = respond (\<lambda>_. Inr ())"

fun auth_answer :: "'tok auth_world \<Rightarrow> fresh \<Rightarrow> 'tok auth_request \<Rightarrow> db \<Rightarrow> (db, unit) outcome" where
  "auth_answer w f (Register b) d =
     unit_answer (register_request (aw_email w) (aw_hash w) (fr_env f) (fr_id f) (fr_id2 f) b d)"
| "auth_answer w f (Login b) d =
     unit_answer (login_request (aw_email w) (aw_verify w) (aw_encode w) (aw_settings w) (fr_env f) (fr_id f) b d)"
| "auth_answer w f (Refresh t) d =
     unit_answer (refresh_request (aw_encode w) (aw_decode w) (aw_settings w) (fr_env f) (fr_id f) t d)"
| "auth_answer w f (Me t k) d =
     unit_answer (authenticated (aw_sha256 w) (aw_decode w) (aw_settings w) (fr_env f) t k
       (\<lambda>u d. (get_me u, d)) d)"
| "auth_answer w f (Create_key t k b) d =
     unit_answer (authenticated (aw_sha256 w) (aw_decode w) (aw_settings w) (fr_env f) t k
       (create_api_key_handler (aw_sha256 w) (fr_env f) (fr_id f) (fr_hex f) b) d)"
| "auth_answer w f (Revoke_key t k i) d =
     unit_answer (authenticated (aw_sha256 w) (aw_decode w) (aw_settings w) (fr_env f) t k
       (revoke_api_key_handler (fr_env f) i) d)"

fun serve_auth :: "'tok auth_world \<Rightarrow> (fresh \<times> 'tok auth_request) list \<Rightarrow> db \<Rightarrow> db" where
  "serve_auth w [] d = d"
| "serve_auth w ((f, r) # rs) d = serve_auth w rs (snd (auth_answer w f r d))"

subsection \<open>Library\<close>

lemma unit_answer_snd [simp]: "snd (unit_answer out) = snd out"
  by (cases out; cases "fst out") (auto simp: unit_answer_def respond_def)

lemma respond_snd: "snd (respond g out) = snd out"
  by (cases out; cases "fst out") (auto simp: respond_def)

lemma respond_fails: "\<not> is_ok (fst out) \<Longrightarrow> \<not> is_ok (fst (respond g out))"
  by (cases out; cases "fst out") (auto simp: respond_def)

lemma unit_answer_ok [simp]: "is_ok (fst (unit_answer out)) = is_ok (fst out)"
  by (cases out; cases "fst out") (auto simp: unit_answer_def respond_def)

lemma respond_error: "fst out = Inl e \<Longrightarrow> fst (respond f out) = Inl e"
  by (cases out) (auto simp: respond_def)

lemma failing_session:
  "\<not> is_ok (fst (h d)) \<Longrightarrow> \<not> is_ok (fst (in_session h d)) \<and> snd (in_session h d) = d"
  by (cases "h d"; cases "fst (h d)") (auto simp: in_session_def)

lemma authenticated_fails:
  assumes "\<And>u d. \<not> is_ok (fst (h u d))"
  shows "\<not> is_ok (fst (authenticated sha decode st env t k h d)) \<and> snd (authenticated sha decode st env t k h d) = d"
  unfolding authenticated_def by (rule failing_session) (auto split: prod.split sum.split simp: assms)

lemma register_fails:
  "\<not> is_ok (fst (register_request ec hash_pw env i j b d)) \<and> snd (register_request ec hash_pw env i j b d) = d"
proof -
  have "\<not> is_ok (fst (case register_user hash_pw env i j em pw fn nm d of
           (Inl e, d) \<Rightarrow> (Inl e, d) | (Inr (u, _), d) \<Rightarrow> (user_response u, d)))" for em pw fn nm
    by (auto split: prod.split sum.split simp: user_response_fails)
  then have "\<not> is_ok (fst (register_endpoint hash_pw env i j em pw fn nm d))
      \<and> snd (register_endpoint hash_pw env i j em pw fn nm d) = d" for em pw fn nm
    unfolding register_endpoint_def by (rule failing_session)
  then show ?thesis by (simp add: register_request_def validated_def)
qed

lemma refresh_fails:
  "\<not> is_ok (fst (refresh_request enc dec st env i t d)) \<and> snd (refresh_request enc dec st env i t d) = d"
  unfolding refresh_request_def
  by (rule failing_session)
    (auto simp: respond_def refresh_access_token_def Let_def split: sum.splits option.splits prod.splits)

lemma create_key_fails: "\<not> is_ok (fst (create_api_key_handler sha env i hx b u d))"
  by (simp add: create_api_key_handler_def validated_def respond_def create_api_key_for_user_def
      generate_api_key_def Let_def)

lemma revoke_key_fails: "\<not> is_ok (fst (revoke_api_key_handler env i u d))"
  by (auto simp: revoke_api_key_handler_def guarded_def respond_def revoke_api_key_def Let_def
      split: sum.splits prod.splits)

lemma me_fails: "\<not> is_ok (fst (get_me u, d))"
  by (simp add: get_me_def user_response_fails)

lemmas requests_fail = register_fails refresh_fails authenticated_fails [OF create_key_fails]
  authenticated_fails [OF revoke_key_fails]

text \<open>Only a login can succeed.\<close>

lemma only_login_answers:
  assumes "\<And>b. r \<noteq> Login b"
  shows "\<not> is_ok (fst (auth_answer w f r d)) \<and> snd (auth_answer w f r d) = d"
proof -
  note me = authenticated_fails [OF me_fails]
  show ?thesis
  proof (cases r)
    case (Login b)
    with assms show ?thesis by blast
  qed (simp_all add: requests_fail me)
qed

definition user_core :: "user \<Rightarrow> uuid \<times> uuid \<times> string \<times> string \<times> user_role \<times> bool \<times> timestamp option" where
  "user_core u = (ident u, organization_id u, email u, hashed_password u, user_role u, is_active u, deleted_at u)"

lemma user_core_flush: "user_core (orm_flush n x u) = user_core u"
  by (auto simp: user_core_def orm_flush_def touch_def)

lemma login_frame:
  assumes "unique_ids (users d)"
  shows "map user_core (users (snd (login verify enc st env j em pw d))) = map user_core (users d)
    \<and> organizations (snd (login verify enc st env j em pw d)) = organizations d
    \<and> api_keys (snd (login verify enc st env j em pw d)) = api_keys d"
proof (cases "fst (authenticate_user verify enc st env j em pw d)")
  case (Inl e)
  then have "snd (login verify enc st env j em pw d) = d"
    unfolding login_def by (simp add: in_session_rollback)
  then show ?thesis by simp
next
  case (Inr x)
  then obtain u where u: "select_where (\<lambda>u. email u = em \<and> active u) (users d) = [u]"
    and s: "snd (authenticate_user verify enc st env j em pw d) =
      create_audit_log env A_LOGIN ''user'' (Some (ident u)) (Some (organization_id u)) (Some (ident u)) None
        ''success'' None (set_user env u (u\<lparr>failed_login_attempts := 0, last_login_at := Some (now env)\<rparr>) d)"
    by (auto simp: authenticate_user_def Let_def split: sum.splits option.splits if_splits)
  have m: "u \<in> set (users d)" using u by (auto simp: select_where_def filter_eq_Cons_iff)
  have e: "x = u" if "x \<in> set (users d)" "ident x = ident u" for x
    using assms that m by (auto simp: unique_ids_def distinct_map inj_on_def)
  have "map user_core (users (set_user env u (u\<lparr>failed_login_attempts := 0, last_login_at := Some (now env)\<rparr>) d))
      = map user_core (users d)"
    unfolding set_user_def update_where_def
    by (auto simp: user_core_flush dest!: e) (simp add: user_core_def)
  moreover have "snd (login verify enc st env j em pw d) = snd (authenticate_user verify enc st env j em pw d)"
    using Inr unfolding login_def in_session_def by (cases "authenticate_user verify enc st env j em pw d") auto
  ultimately show ?thesis by (simp add: s create_audit_log_def set_user_def)
qed

lemma auth_answer_frame:
  assumes "unique_ids (users d)"
  shows "map user_core (users (snd (auth_answer w f r d))) = map user_core (users d)
    \<and> organizations (snd (auth_answer w f r d)) = organizations d
    \<and> api_keys (snd (auth_answer w f r d)) = api_keys d"
proof (cases "\<exists>b. r = Login b")
  case True
  then obtain b where r: "r = Login b" by blast
  show ?thesis unfolding r auth_answer.simps unit_answer_snd login_request_def validated_def
    by (simp add: respond_snd login_frame [OF assms])
next
  case False
  then show ?thesis using only_login_answers by metis
qed

lemma user_core_ids: "map user_core t = map user_core t' \<Longrightarrow> unique_ids t = unique_ids t'"
proof -
  assume "map user_core t = map user_core t'"
  then have "map fst (map user_core t) = map fst (map user_core t')" by simp
  then show ?thesis by (simp add: unique_ids_def user_core_def comp_def)
qed

lemma current_user_needs_users:
  assumes "users d = []"
  shows "\<not> is_ok (fst (get_current_user sha dec st env t k d))"
  using assms
  by (auto simp: get_current_user_def active_user_query_def select_where_def authenticate_api_key_def Let_def
      order_by_asc_def split: option.splits sum.splits list.splits prod.splits)

lemma login_needs_users:
  assumes "users d = []"
  shows "\<not> is_ok (fst (login verify enc st env j em pw d)) \<and> snd (login verify enc st env j em pw d) = d"
  unfolding login_def
  by (rule failing_session) (simp add: assms authenticate_user_def select_where_def)

lemma no_users_no_answer:
  assumes "users d = []"
  shows "\<not> is_ok (fst (auth_answer w f r d)) \<and> snd (auth_answer w f r d) = d"
proof (cases "\<exists>b. r = Login b")
  case True
  then obtain b where r: "r = Login b" by blast
  show ?thesis unfolding r auth_answer.simps unit_answer_snd unit_answer_ok login_request_def validated_def
    by (simp add: respond_snd respond_fails login_needs_users [OF assms])
qed (use only_login_answers in metis)

subsection \<open>Properties\<close>

text \<open>
  C17: No sequence of authentication requests changes who may do what. Registration, token refresh, the
  profile, and creating and revoking API keys all end in an error and are rolled back, so only a
  login is ever answered with success, and the users with their organization, e-mail, password,
  role and state, the organizations and the API keys stay as they are.
\<close>

theorem auth_requests_only_log_in:
  assumes "unique_ids (users d)"
  shows "map user_core (users (serve_auth w rs d)) = map user_core (users d)
    \<and> organizations (serve_auth w rs d) = organizations d \<and> api_keys (serve_auth w rs d) = api_keys d
    \<and> (is_ok (fst (auth_answer w f r (serve_auth w rs d))) \<longrightarrow> (\<exists>b. r = Login b))"
proof (intro conjI impI)
  have frame: "map user_core (users (serve_auth w rs d)) = map user_core (users d)
    \<and> organizations (serve_auth w rs d) = organizations d \<and> api_keys (serve_auth w rs d) = api_keys d"
    using assms
  proof (induction w rs d rule: serve_auth.induct)
    case (2 w f r rs d)
    note step = auth_answer_frame [OF 2(2), of w f r]
    have "unique_ids (users (snd (auth_answer w f r d)))"
      using step 2(2) user_core_ids by metis
    from 2(1) [OF this] step show ?case by simp
  qed simp
  then show "map user_core (users (serve_auth w rs d)) = map user_core (users d)"
    "organizations (serve_auth w rs d) = organizations d" "api_keys (serve_auth w rs d) = api_keys d"
    by blast+
  assume "is_ok (fst (auth_answer w f r (serve_auth w rs d)))"
  then show "\<exists>b. r = Login b" using only_login_answers by metis
qed

text \<open>
  C18: A new deployment admits nobody, ever. With no user in the database every sequence of authentication
  requests leaves the database as it is and every one of them fails; and an endpoint that asks
  for the current user, whatever its handler, refuses the request, with a token, with an API key
  and without credentials, in development too.
\<close>

theorem fresh_system_admits_nobody:
  assumes "users d = []"
  shows "serve_auth w rs d = d \<and> \<not> is_ok (fst (auth_answer w f r (serve_auth w rs d)))
    \<and> \<not> is_ok (fst (authenticated sha dec st env bearer key h (serve_auth w rs d)))"
proof -
  have d: "serve_auth w rs d = d"
    using assms
  proof (induction w rs d rule: serve_auth.induct)
    case (2 w f r rs d)
    have "snd (auth_answer w f r d) = d" using no_users_no_answer [OF 2(2)] by blast
    with 2 show ?case by simp
  qed simp
  have g: "\<not> is_ok (fst (case get_current_user sha dec st env bearer key d of
      (Inl e, d') \<Rightarrow> (Inl e, d') | (Inr u, d') \<Rightarrow> h u d'))"
    using current_user_needs_users [OF assms, of sha dec st env bearer key]
    by (cases "get_current_user sha dec st env bearer key d"; cases "fst (get_current_user sha dec st env bearer key d)") auto
  have "\<not> is_ok (fst (authenticated sha dec st env bearer key h d))"
    unfolding authenticated_def by (rule conjunct1 [OF failing_session]) (rule g)
  then show ?thesis unfolding d using no_users_no_answer [OF assms] by blast
qed

text \<open>
  The lifetime a login announces is the lifetime of the token: the response carries an access token
  whose expiry is \<open>expires_in\<close> seconds after the request, and a refresh token without an id that
  lasts the configured number of days.
\<close>

theorem token_lifetime_announced:
  assumes "login_request ec verify encode st env j b d = (Inr tr, d')"
  shows "\<exists>c c'. access_token tr = encode c \<and> exp_claim c = Some (seconds (now env) + expires_in tr)
    \<and> jti c = Some j \<and> refresh_token tr = encode c' \<and> jti c' = None
    \<and> exp_claim c' = Some (seconds (now env) + jwt_refresh_token_expire_days st * 86400)"
proof -
  obtain u :: user where u: "access_token tr = create_access_token encode st j (now env) (ident u) (organization_id u)
        (ModelRole (user_role u)) None"
      "refresh_token tr = create_refresh_token encode st (now env) (ident u) (organization_id u)"
      "expires_in tr = jwt_access_token_expire_minutes st * 60"
    using assms
  proof -
    obtain a r x where l: "fst (login verify encode st env j (normalised ec (ul_email b)) (ul_password b) d) = Inr (a, r, x)"
      and tr: "tr = new_token_response st a r"
      using assms by (auto simp: login_request_def validated_def respond_def split: if_splits sum.splits prod.splits)
    from l have "\<exists>u::user. a = create_access_token encode st j (now env) (ident u) (organization_id u)
          (ModelRole (user_role u)) None
        \<and> r = create_refresh_token encode st (now env) (ident u) (organization_id u)"
      unfolding login_def in_session_result
      by (auto simp: authenticate_user_def Let_def split: if_splits sum.splits option.splits)
    then show thesis using that by (auto simp: tr new_token_response_def)
  qed
  moreover have "seconds (now env + minutes m) = seconds (now env) + m * 60"
    "seconds (now env + days m) = seconds (now env) + m * 86400" for m
    by (simp_all add: seconds_def minutes_def days_def)
  ultimately show ?thesis
    unfolding create_access_token_def create_refresh_token_def Let_def
    by (intro exI conjI) (assumption | simp)+
qed

text \<open>
  What the bodies must satisfy: lengths and the address, nothing about the password beyond its
  length, although its validator is described as enforcing complexity.
\<close>

theorem registration_bodies:
  "(user_create_errors ec b = [] \<longleftrightarrow> ec (uc_email b) \<noteq> None \<and> between 8 128 (uc_password b)
      \<and> between 1 255 (uc_full_name b) \<and> between 1 255 (uc_organization_name b))
   \<and> (api_key_create_errors k = [] \<longleftrightarrow> between 1 255 (kc_name k)
      \<and> (kc_expires_in_days k = None \<or> (\<exists>n. kc_expires_in_days k = Some n \<and> n \<in> {1..365})))
   \<and> user_create_errors (\<lambda>_. Some e) \<lparr>uc_email = e, uc_password = ''aaaaaaaa'', uc_full_name = ''A'',
       uc_organization_name = ''B''\<rparr> = []
   \<and> (\<exists>x. api_key_created y = Inl x)"
  by (auto simp: user_create_errors_def validate_password_complexity_def api_key_create_errors_def
      api_key_created_def api_key_created_fields_def api_key_response_fields_def api_key_attributes_def
      between_def split: option.splits)

subsection \<open>Witnesses\<close>

definition sample_auth_world :: "jwt_claims auth_world" where
  "sample_auth_world = \<lparr>aw_email = Some, aw_hash = rev, aw_verify = sample_verify, aw_sha256 = rev,
     aw_encode = (\<lambda>c. c), aw_decode = plain_decode, aw_settings = default_settings\<rparr>"

definition sample_fresh :: fresh where
  "sample_fresh = \<lparr>fr_env = sample_env, fr_id = 11, fr_id2 = 12, fr_hex = ''ab''\<rparr>"

definition sample_requests :: "(fresh \<times> jwt_claims auth_request) list" where
  "sample_requests =
     [(sample_fresh, Login \<lparr>ul_email = ''a@b.c'', ul_password = ''hash''\<rparr>),
      (sample_fresh, Create_key None None \<lparr>kc_name = ''ci'', kc_scopes = [], kc_expires_in_days = None\<rparr>),
      (sample_fresh, Register \<lparr>uc_email = ''n@b.c'', uc_password = ''longenough'', uc_full_name = ''N'',
          uc_organization_name = ''New''\<rparr>)]"

theorem auth_requests_only_log_in_witness:
  "map user_core (users (serve_auth sample_auth_world sample_requests auth_db)) = map user_core (users auth_db)"
  using auth_requests_only_log_in [of auth_db sample_auth_world sample_requests]
  by (simp add: auth_db_def unique_ids_def)

theorem fresh_system_admits_nobody_witness:
  "serve_auth sample_auth_world sample_requests empty_db = empty_db"
proof -
  have "users empty_db = []" by (simp add: empty_db_def)
  from fresh_system_admits_nobody [OF this] show ?thesis by blast
qed

theorem token_lifetime_announced_witness:
  "\<exists>tr d'. login_request Some sample_verify (\<lambda>c. c) default_settings sample_env 9
      \<lparr>ul_email = ''a@b.c'', ul_password = ''hash''\<rparr> auth_db = (Inr tr, d')
    \<and> exp_claim (access_token tr) = Some (seconds (now sample_env) + expires_in tr)"
proof -
  let ?l = "login_request Some sample_verify (\<lambda>c. c) default_settings sample_env 9
      \<lparr>ul_email = ''a@b.c'', ul_password = ''hash''\<rparr> auth_db"
  have "is_ok (fst (login sample_verify (\<lambda>c. c) default_settings sample_env 9 ''a@b.c'' ''hash'' auth_db))"
    by (rule login_ok [OF auth_db_user])
      (simp_all add: sample_user_def sample_verify_def is_locked_def MAX_FAILED_ATTEMPTS_def)
  then obtain tr d where l: "?l = (Inr tr, d)"
    by (cases "login sample_verify (\<lambda>c. c) default_settings sample_env 9 ''a@b.c'' ''hash'' auth_db")
      (auto simp: is_ok_iff login_request_def user_login_errors_def validated_def normalised_def respond_def)
  from token_lifetime_announced [OF this] l show ?thesis by auto
qed

end
