(* ===== verification/BaseTask.thy ===== *)
theory BaseTask
  imports RunLifecycle
begin

section \<open>The base task (\<open>workers/tasks/base_task.py\<close>)\<close>

text \<open>
  \<open>BaseEvalTask.run\<close> wraps the logic of a task (\<open>execute\<close>, a parameter) with
  the idempotency check, the life cycle of its \<open>WorkerResult\<close> row, progress in Redis and
  the dead letter queue. The state is the database and what Redis keeps for progress; every
  database access is a session of its own.
\<close>

record progress_entry =
  pe_progress :: int
  pe_detail :: string
  pe_updated_at :: timestamp

record dlq_entry =
  task_name :: string
  dlq_run_id :: uuid
  dlq_worker_type :: string
  dlq_kwargs :: json
  retries :: int
  dlq_hostname :: string
  failed_at :: timestamp

record tstate =
  tdb :: db
  redis_up :: bool
  progress :: "uuid \<times> string \<rightharpoonup> progress_entry"
  published :: "(uuid \<times> string \<times> int) list"
  dlq :: "uuid \<times> string \<rightharpoonup> dlq_entry"
  dlq_all :: "(uuid \<times> string) list"

text \<open>A session on the database component.\<close>

definition db_session :: "(db \<Rightarrow> (db, 'a) outcome) \<Rightarrow> tstate \<Rightarrow> (tstate, 'a) outcome" where
  "db_session h s = (case in_session h (tdb s) of (r, d) \<Rightarrow> (r, s\<lparr>tdb := d\<rparr>))"

text \<open>What a task instance knows: its name and type, the Celery request, the clock.\<close>

record task =
  name :: string
  wtype :: string
  request_task_id :: string
  hostname :: "string option"
  request_retries :: int
  tenv :: env
  elapsed_ms :: "int option"

subsection \<open>Progress and dead letters\<close>

definition update_progress :: "task \<Rightarrow> uuid \<Rightarrow> int \<Rightarrow> string \<Rightarrow> tstate \<Rightarrow> tstate" where
  "update_progress t rid p dtl s =
     (if \<not> redis_up s then s
      else s\<lparr>progress := (progress s)((rid, wtype t) \<mapsto>
               \<lparr>pe_progress = p, pe_detail = dtl, pe_updated_at = now (tenv t)\<rparr>),
             published := published s @ [(rid, wtype t, p)]\<rparr>)"

text \<open>The mapping written with \<open>HSET\<close> may not hold \<open>None\<close>: without a host name
  the client refuses the command, and the error is logged and dropped.\<close>

definition send_to_dlq :: "task \<Rightarrow> uuid \<Rightarrow> json \<Rightarrow> tstate \<Rightarrow> tstate" where
  "send_to_dlq t rid kwargs s =
     (if \<not> redis_up s then s
      else case hostname t of
             None \<Rightarrow> s
           | Some h \<Rightarrow>
               s\<lparr>dlq := (dlq s)((rid, wtype t) \<mapsto>
                   \<lparr>task_name = name t, dlq_run_id = rid, dlq_worker_type = wtype t,
                    dlq_kwargs = kwargs, retries = request_retries t, dlq_hostname = h,
                    failed_at = now (tenv t)\<rparr>),
                 dlq_all := take 10000 ((rid, wtype t) # dlq_all s)\<rparr>)"

subsection \<open>Worker results\<close>

definition wr_match :: "uuid \<Rightarrow> string \<Rightarrow> worker_result \<Rightarrow> bool" where
  "wr_match rid wt w \<longleftrightarrow> wr_run_id w = rid \<and> worker_type w = wt \<and> active w"

definition check_idempotent :: "task \<Rightarrow> uuid \<Rightarrow> db \<Rightarrow> (db, json option) outcome" where
  "check_idempotent t rid db =
     (case scalar_one_or_none (select_where
             (\<lambda>w. wr_match rid (wtype t) w \<and> wr_status w = W_COMPLETED) (worker_results db)) of
        Inl e \<Rightarrow> (Inl e, db)
      | Inr None \<Rightarrow> (Inr None, db)
      | Inr (Some w) \<Rightarrow>
          (Inr (if json_truthy (output_data w) then Some (output_data w) else None), db))"

definition new_worker_result :: "task \<Rightarrow> uuid \<Rightarrow> uuid \<Rightarrow> uuid \<Rightarrow> string \<Rightarrow> string
    \<Rightarrow> worker_result" where
  "new_worker_result t new_id rid org task_id host =
     \<lparr>ident = new_id, created_at = now (tenv t), updated_at = now (tenv t),
      deleted_at = None, organization_id = org, wr_run_id = rid,
      worker_type = wtype t, worker_id = Some host, wr_celery_task_id = Some task_id,
      wr_status = W_RUNNING, processing_time_ms = 0, output_data = empty_obj,
      wr_error_message = None\<rparr>"

definition create_worker_result :: "task \<Rightarrow> uuid \<Rightarrow> uuid \<Rightarrow> string \<Rightarrow> string \<Rightarrow> db
    \<Rightarrow> (db, unit) outcome" where
  "create_worker_result t new_id rid task_id host db =
     (case scalar_one (select_where (\<lambda>r. ident r = rid) (runs db)) of
        Inl e \<Rightarrow> (Inl e, db)
      | Inr r \<Rightarrow>
        (case scalar_one_or_none (select_where (wr_match rid (wtype t)) (worker_results db)) of
           Inl e \<Rightarrow> (Inl e, db)
         | Inr (Some w) \<Rightarrow>
             (Inr (), db\<lparr>worker_results := update_where (\<lambda>x. ident x = ident w)
               (\<lambda>x. orm_flush (now (tenv t)) x
                  (x\<lparr>wr_status := W_RUNNING, wr_celery_task_id := Some task_id,
                     worker_id := Some host\<rparr>)) (worker_results db)\<rparr>)
         | Inr None \<Rightarrow>
             (Inr (), db\<lparr>worker_results := insert_row
               (new_worker_result t new_id rid (organization_id r) task_id host)
               (worker_results db)\<rparr>)))"

definition bump_run :: "env \<Rightarrow> uuid \<Rightarrow> (evaluation_run \<Rightarrow> evaluation_run) \<Rightarrow> db \<Rightarrow> db" where
  "bump_run env rid f db =
     db\<lparr>runs := update_where (\<lambda>r. ident r = rid) (\<lambda>r. touch (now env) (f r)) (runs db)\<rparr>"

definition mark_completed :: "task \<Rightarrow> uuid \<Rightarrow> json \<Rightarrow> db \<Rightarrow> (db, unit) outcome" where
  "mark_completed t rid out db =
     (let db1 = db\<lparr>worker_results := update_where (wr_match rid (wtype t))
            (\<lambda>w. touch (now (tenv t)) (w\<lparr>wr_status := W_COMPLETED, output_data := out,
               processing_time_ms := (case elapsed_ms t of None \<Rightarrow> 0 | Some n \<Rightarrow> n)\<rparr>))
            (worker_results db)\<rparr>
      in (Inr (), bump_run (tenv t) rid
            (\<lambda>r. r\<lparr>completed_workers := completed_workers r + 1\<rparr>) db1))"

definition mark_failed_db :: "task \<Rightarrow> uuid \<Rightarrow> string \<Rightarrow> db \<Rightarrow> (db, unit) outcome" where
  "mark_failed_db t rid err db =
     (let db1 = db\<lparr>worker_results := update_where (wr_match rid (wtype t))
            (\<lambda>w. touch (now (tenv t)) (w\<lparr>wr_status := W_FAILED,
               wr_error_message := Some (take 2000 err)\<rparr>)) (worker_results db)\<rparr>
      in (Inr (), bump_run (tenv t) rid
            (\<lambda>r. r\<lparr>failed_workers := failed_workers r + 1\<rparr>) db1))"

text \<open>\<open>_mark_failed\<close> suppresses every error of its own.\<close>

definition mark_failed :: "task \<Rightarrow> uuid \<Rightarrow> string \<Rightarrow> tstate \<Rightarrow> tstate" where
  "mark_failed t rid err s = snd (db_session (mark_failed_db t rid err) s)"

subsection \<open>The wrapper\<close>

text \<open>The body of the \<open>try\<close> block, up to the first exception.\<close>

definition run_body :: "task \<Rightarrow> uuid \<Rightarrow> uuid \<Rightarrow> (tstate \<Rightarrow> (tstate, json) outcome) \<Rightarrow> tstate
    \<Rightarrow> (tstate, json) outcome" where
  "run_body t new_id rid execute s =
     (case db_session (check_idempotent t rid) s of
        (Inl e, s1) \<Rightarrow> (Inl e, s1)
      | (Inr (Some out), s1) \<Rightarrow> (Inr out, s1)
      | (Inr None, s1) \<Rightarrow>
        (case db_session (create_worker_result t new_id rid (request_task_id t)
                (case hostname t of None \<Rightarrow> ''unknown'' | Some h \<Rightarrow> if h = [] then ''unknown'' else h)) s1 of
           (Inl e, s2) \<Rightarrow> (Inl e, s2)
         | (Inr _, s2) \<Rightarrow>
           (case execute (update_progress t rid 0 [] s2) of
              (Inl e, s3) \<Rightarrow> (Inl e, s3)
            | (Inr out, s3) \<Rightarrow>
              (case db_session (mark_completed t rid out) s3 of
                 (Inl e, s4) \<Rightarrow> (Inl e, s4)
               | (Inr _, s4) \<Rightarrow> (Inr out, update_progress t rid 100 [] s4)))))"

text \<open>The three \<open>except\<close> clauses; \<open>str_exn\<close> is \<open>str(exc)\<close>.\<close>

definition base_run :: "(exn \<Rightarrow> string) \<Rightarrow> task \<Rightarrow> uuid \<Rightarrow> uuid \<Rightarrow> json
    \<Rightarrow> (tstate \<Rightarrow> (tstate, json) outcome) \<Rightarrow> tstate \<Rightarrow> (tstate, json) outcome" where
  "base_run str_exn t new_id rid kwargs execute s =
     (case run_body t new_id rid execute s of
        (Inr out, s') \<Rightarrow> (Inr out, s')
      | (Inl SoftTimeLimitExceeded, s') \<Rightarrow>
          (Inl SoftTimeLimitExceeded, mark_failed t rid ''Task exceeded soft time limit'' s')
      | (Inl MaxRetriesExceededError, s') \<Rightarrow>
          (Inl MaxRetriesExceededError,
           send_to_dlq t rid kwargs (mark_failed t rid ''Max retries exhausted'' s'))
      | (Inl e, s') \<Rightarrow> (Inl e, mark_failed t rid (str_exn e) s'))"

text \<open>\<open>execute\<close> of the base class.\<close>

definition base_execute :: "tstate \<Rightarrow> (tstate, json) outcome" where
  "base_execute s = (Inl NotImplementedError, s)"

subsection \<open>Frame lemmas\<close>

lemma update_progress_tdb [simp]: "tdb (update_progress t rid p d s) = tdb s"
  by (simp add: update_progress_def)

lemma send_to_dlq_tdb [simp]: "tdb (send_to_dlq t rid k s) = tdb s"
  by (simp add: send_to_dlq_def split: option.splits)

lemma send_to_dlq_bounded:
  "length (dlq_all s) \<le> 10000 \<Longrightarrow> length (dlq_all (send_to_dlq t rid k s)) \<le> 10000"
  by (simp add: send_to_dlq_def split: option.splits)

lemma db_session_pure: "h (tdb s) = (r, tdb s) \<Longrightarrow> db_session h s = (r, s)"
  by (cases r) (simp_all add: db_session_def in_session_def)

lemma db_session_ok: "h (tdb s) = (Inr x, d) \<Longrightarrow> db_session h s = (Inr x, s\<lparr>tdb := d\<rparr>)"
  by (simp add: db_session_def in_session_def)

lemma db_session_err: "h (tdb s) = (Inl e, d) \<Longrightarrow> db_session h s = (Inl e, s)"
  by (simp add: db_session_def in_session_def)

lemma check_idempotent_db: "\<exists>r. check_idempotent t rid db = (r, db)"
  by (auto simp: check_idempotent_def split: sum.splits option.splits)

lemma check_session:
  "db_session (check_idempotent t rid) s = (fst (check_idempotent t rid (tdb s)), s)"
proof -
  obtain r where "check_idempotent t rid (tdb s) = (r, tdb s)"
    using check_idempotent_db by blast
  then show ?thesis using db_session_pure [of "check_idempotent t rid" s r] by simp
qed

lemma mark_failed_eq: "mark_failed t rid err s =
   s\<lparr>tdb := snd (mark_failed_db t rid err (tdb s))\<rparr>"
  by (simp add: mark_failed_def db_session_def in_session_def mark_failed_db_def Let_def)

lemma mark_completed_session: "db_session (mark_completed t rid out) s =
   (Inr (), s\<lparr>tdb := snd (mark_completed t rid out (tdb s))\<rparr>)"
  by (simp add: db_session_def in_session_def mark_completed_def Let_def)

lemma touch_wr [simp]:
  "wr_run_id (touch n (w::worker_result)) = wr_run_id w"
  "worker_type (touch n w) = worker_type w" "wr_status (touch n w) = wr_status w"
  "output_data (touch n w) = output_data w" "wr_error_message (touch n w) = wr_error_message w"
  by (simp_all add: touch_def)

lemma wr_match_touch [simp]: "wr_match rid wt (touch n w) = wr_match rid wt w"
  by (simp add: wr_match_def)

lemma wr_match_update [simp]:
  "wr_match rid wt (w\<lparr>wr_status := st, wr_error_message := m\<rparr>) = wr_match rid wt w"
  by (simp add: wr_match_def)

lemma touch_workers [simp]:
  "completed_workers (touch n (r::evaluation_run)) = completed_workers r"
  "failed_workers (touch n r) = failed_workers r" "total_workers (touch n r) = total_workers r"
  by (simp_all add: touch_def)

lemma bump_run_frame [simp]:
  "worker_results (bump_run env rid f db) = worker_results db"
  "submissions (bump_run env rid f db) = submissions db"
  "scores (bump_run env rid f db) = scores db" "claims (bump_run env rid f db) = claims db"
  by (simp_all add: bump_run_def)

subsection \<open>What an execution leaves behind\<close>

lemma mark_completed_row:
  assumes "filter (wr_match rid (wtype t)) (worker_results db) = [w]"
  shows "fst (check_idempotent t rid (snd (mark_completed t rid out db))) =
    Inr (if json_truthy out then Some out else None)"
proof -
  let ?f = "\<lambda>w. touch (now (tenv t)) (w\<lparr>wr_status := W_COMPLETED, output_data := out,
      processing_time_ms := (case elapsed_ms t of None \<Rightarrow> 0 | Some n \<Rightarrow> n)\<rparr>)"
  have m: "wr_match rid (wtype t) (?f w) = wr_match rid (wtype t) w" for w
    by (simp add: wr_match_def)
  let ?M = "wr_match rid (wtype t)"
  have "filter ?M (update_where ?M ?f (worker_results db)) =
      update_where ?M ?f (filter ?M (worker_results db))"
    by (rule filter_update_where) (rule m)
  then have "filter (\<lambda>w. ?M w \<and> wr_status w = W_COMPLETED)
        (update_where ?M ?f (worker_results db))
      = filter (\<lambda>w. wr_status w = W_COMPLETED) (update_where ?M ?f (filter ?M (worker_results db)))"
    by (simp flip: filter_filter)
  also have "\<dots> = [?f w]"
    using assms filter_singletonD [OF assms] by (simp add: update_where_def)
  finally show ?thesis
    by (simp add: check_idempotent_def mark_completed_def select_where_def Let_def)
qed

lemma orm_flush_wr [simp]:
  "wr_run_id (orm_flush n x (w::worker_result)) = wr_run_id w"
  "worker_type (orm_flush n x w) = worker_type w" "wr_status (orm_flush n x w) = wr_status w"
  by (auto simp: orm_flush_def)

lemma create_worker_result_ok:
  assumes "filter (\<lambda>r. ident r = rid) (runs db) = [r]"
    and "length (filter (wr_match rid (wtype t)) (worker_results db)) \<le> 1"
  obtains db' w where "create_worker_result t new_id rid tid host db = (Inr (), db')"
    "runs db' = runs db" "filter (wr_match rid (wtype t)) (worker_results db') = [w]"
    "wr_status w = W_RUNNING"
proof (cases "filter (wr_match rid (wtype t)) (worker_results db)")
  case Nil
  let ?w = "new_worker_result t new_id rid (organization_id r) tid host"
  have "wr_match rid (wtype t) ?w" "wr_status ?w = W_RUNNING"
    by (simp_all add: wr_match_def new_worker_result_def)
  with Nil assms(1) show ?thesis
    by (intro that [of "db\<lparr>worker_results := insert_row ?w (worker_results db)\<rparr>" ?w])
      (simp_all add: create_worker_result_def select_where_def insert_row_def)
next
  case (Cons w ws)
  with assms(2) have w: "filter (wr_match rid (wtype t)) (worker_results db) = [w]" by simp
  let ?f = "\<lambda>x. orm_flush (now (tenv t)) x (x\<lparr>wr_status := W_RUNNING,
      wr_celery_task_id := Some tid, worker_id := Some host\<rparr>)"
  have "filter (wr_match rid (wtype t)) (update_where (\<lambda>x. ident x = ident w) ?f (worker_results db))
      = update_where (\<lambda>x. ident x = ident w) ?f (filter (wr_match rid (wtype t)) (worker_results db))"
    by (rule filter_update_where) (simp add: wr_match_def)
  also have "\<dots> = [?f w]" by (simp add: w update_where_def)
  finally show ?thesis
    using assms(1) w
    by (intro that [of "db\<lparr>worker_results := update_where (\<lambda>x. ident x = ident w) ?f
          (worker_results db)\<rparr>" "?f w"])
      (auto simp: create_worker_result_def select_where_def)
qed

lemma run_body_replay:
  "fst (check_idempotent t rid (tdb s)) = Inr (Some out) \<Longrightarrow>
   run_body t new_id rid execute s = (Inr out, s)"
  by (simp add: run_body_def check_session)

text \<open>Before a task has completed: at most one row of its type, and not a completed one.\<close>

definition not_completed :: "task \<Rightarrow> uuid \<Rightarrow> db \<Rightarrow> bool" where
  "not_completed t rid db \<longleftrightarrow>
     length (filter (wr_match rid (wtype t)) (worker_results db)) \<le> 1 \<and>
     (\<forall>w \<in> set (worker_results db). wr_match rid (wtype t) w \<longrightarrow> wr_status w \<noteq> W_COMPLETED)"

lemma not_completed_check:
  "not_completed t rid db \<Longrightarrow> check_idempotent t rid db = (Inr None, db)"
  by (auto simp: not_completed_def check_idempotent_def select_where_def filter_empty_conv
      split: sum.splits option.splits)


text \<open>One failing attempt: the row is FAILED, the counter of the run is one higher.\<close>

lemma failing_attempt:
  assumes "not_completed t rid (tdb s)" "filter (\<lambda>r. ident r = rid) (runs (tdb s)) = [r]"
    and e: "\<And>s. execute s = (Inl (ExternalError m), s)"
  obtains s' r' where
    "base_run str_exn t new_id rid kw execute s = (Inl (ExternalError m), s')"
    "not_completed t rid (tdb s')" "filter (\<lambda>r. ident r = rid) (runs (tdb s')) = [r']"
    "failed_workers r' = failed_workers r + 1"
    "map wr_status (filter (wr_match rid (wtype t)) (worker_results (tdb s'))) = [W_FAILED]"
proof -
  let ?host = "case hostname t of None \<Rightarrow> ''unknown'' | Some h \<Rightarrow> if h = [] then ''unknown'' else h"
  let ?M = "wr_match rid (wtype t)"
  from assms(1) have le1: "length (filter ?M (worker_results (tdb s))) \<le> 1"
    by (simp add: not_completed_def)
  obtain db1 w where c: "create_worker_result t new_id rid (request_task_id t) ?host (tdb s) =
      (Inr (), db1)" "runs db1 = runs (tdb s)" "filter ?M (worker_results db1) = [w]"
    by (rule create_worker_result_ok [OF assms(2) le1])
  let ?s2 = "update_progress t rid 0 [] (s\<lparr>tdb := db1\<rparr>)"
  have body: "run_body t new_id rid execute s = (Inl (ExternalError m), ?s2)"
    using c(1) not_completed_check [OF assms(1)]
    by (simp add: run_body_def check_session e db_session_def in_session_def)
  let ?db2 = "snd (mark_failed_db t rid (str_exn (ExternalError m)) db1)"
  let ?s' = "?s2\<lparr>tdb := ?db2\<rparr>"
  have eq: "base_run str_exn t new_id rid kw execute s = (Inl (ExternalError m), ?s')"
    by (simp add: base_run_def body mark_failed_eq)
  let ?f = "\<lambda>w. touch (now (tenv t)) (w\<lparr>wr_status := W_FAILED,
     wr_error_message := Some (take 2000 (str_exn (ExternalError m)))\<rparr>)"
  have "filter ?M (update_where ?M ?f (worker_results db1)) =
      update_where ?M ?f (filter ?M (worker_results db1))"
    by (rule filter_update_where) (simp add: wr_match_def)
  moreover have "?M w" using filter_singletonD [OF c(3)] by simp
  ultimately have f: "filter ?M (worker_results ?db2) = [?f w]"
    using c(3) by (simp add: mark_failed_db_def Let_def update_where_def)
  have n: "not_completed t rid ?db2"
    unfolding not_completed_def
  proof (intro conjI ballI impI)
    show "length (filter ?M (worker_results ?db2)) \<le> 1" by (simp add: f)
    fix x assume "x \<in> set (worker_results ?db2)" "?M x"
    then have "x \<in> set (filter ?M (worker_results ?db2))" by simp
    then show "wr_status x \<noteq> W_COMPLETED" by (simp add: f)
  qed
  let ?g = "\<lambda>r. touch (now (tenv t)) (r\<lparr>failed_workers := failed_workers r + 1\<rparr>)"
  have "filter (\<lambda>r. ident r = rid) (update_where (\<lambda>r. ident r = rid) ?g (runs db1)) =
      update_where (\<lambda>r. ident r = rid) ?g (filter (\<lambda>r. ident r = rid) (runs db1))"
    by (rule filter_update_where) simp
  moreover have "ident r = rid" using filter_singletonD [OF assms(2)] by simp
  ultimately have "filter (\<lambda>r. ident r = rid) (runs ?db2) = [?g r]"
    using c(2) assms(2)
    by (simp add: mark_failed_db_def bump_run_def Let_def update_where_def)
  then show ?thesis
    using n f by (intro that [OF eq, of "?g r"]) simp_all
qed


lemma check_idempotent_wtype:
  "wtype t' = wtype t \<Longrightarrow> check_idempotent t' rid db = check_idempotent t rid db"
  by (simp add: check_idempotent_def)

lemma base_run_ok: "base_run str_exn t nid rid kw execute s = (Inr out, s') \<Longrightarrow>
   run_body t nid rid execute s = (Inr out, s')"
  by (auto simp: base_run_def split: prod.splits sum.splits exn.splits)

lemma base_run_replay:
  "fst (check_idempotent t rid (tdb s)) = Inr (Some out) \<Longrightarrow>
   base_run str_exn t nid rid kw execute s = (Inr out, s)"
  by (simp add: base_run_def run_body_replay)

text \<open>The steps a body that returned went through.\<close>

lemma run_body_okE:
  assumes "run_body t nid rid execute s = (Inr out, s')"
  obtains (cached) "fst (check_idempotent t rid (tdb s)) = Inr (Some out)" "s' = s"
  | (executed) db1 s3 where
      "fst (check_idempotent t rid (tdb s)) = Inr None"
      "create_worker_result t nid rid (request_task_id t)
         (case hostname t of None \<Rightarrow> ''unknown'' | Some h \<Rightarrow> if h = [] then ''unknown'' else h)
         (tdb s) = (Inr (), db1)"
      "execute (update_progress t rid 0 [] (s\<lparr>tdb := db1\<rparr>)) = (Inr out, s3)"
      "tdb s' = snd (mark_completed t rid out (tdb s3))"
proof (cases "fst (check_idempotent t rid (tdb s))")
  case (Inl e)
  with assms show ?thesis by (simp add: run_body_def check_session)
next
  case (Inr o1)
  show ?thesis
  proof (cases o1)
    case (Some x)
    with Inr assms have "x = out" "s' = s" by (simp_all add: run_body_def check_session)
    with Inr Some show ?thesis by (intro cached) simp_all
  next
    case None
    let ?h = "case hostname t of None \<Rightarrow> ''unknown'' | Some h \<Rightarrow> if h = [] then ''unknown'' else h"
    obtain r1 db1 where c: "create_worker_result t nid rid (request_task_id t) ?h (tdb s) = (r1, db1)"
      by fastforce
    have "r1 = Inr ()"
    proof (cases r1)
      case (Inl e)
      with c have "db_session (create_worker_result t nid rid (request_task_id t) ?h) s = (Inl e, s)"
        by (intro db_session_err) simp
      with assms Inr None show ?thesis by (simp add: run_body_def check_session)
    qed simp
    with c have c': "db_session (create_worker_result t nid rid (request_task_id t) ?h) s =
        (Inr (), s\<lparr>tdb := db1\<rparr>)"
      by (intro db_session_ok) simp
    obtain r3 s3 where x: "execute (update_progress t rid 0 [] (s\<lparr>tdb := db1\<rparr>)) = (r3, s3)"
      by fastforce
    have "r3 = Inr out \<and> s' = update_progress t rid 100 []
        (s3\<lparr>tdb := snd (mark_completed t rid out (tdb s3))\<rparr>)"
      using assms Inr None c' x
      by (cases r3) (auto simp: run_body_def check_session mark_completed_session)
    with c x Inr None \<open>r1 = Inr ()\<close> show ?thesis
      by (intro executed [of db1 s3]) simp_all
  qed
qed

subsection \<open>Properties\<close>

text \<open>Running a task is idempotent. Once it has returned a non-empty output, every later
  run of the same worker type for the same run id, whatever its code would do, returns that
  output at once and changes nothing, provided the task's own code leaves the
  \<open>worker_results\<close> table alone and the run had at most one row of that type.
\<close>

theorem completed_task_replays:
  assumes "base_run str_exn t nid rid kw execute s = (Inr out, s')" and "json_truthy out"
    and frame: "\<And>s. worker_results (tdb (snd (execute s))) = worker_results (tdb s)"
    and le1: "length (filter (wr_match rid (wtype t)) (worker_results (tdb s))) \<le> 1"
    and "wtype t' = wtype t"
  shows "base_run str_exn' t' nid' rid kw' execute' s' = (Inr out, s')"
proof -
  from base_run_ok [OF assms(1)] have "fst (check_idempotent t rid (tdb s')) = Inr (Some out)"
  proof (cases rule: run_body_okE)
    case cached
    then show ?thesis by simp
  next
    case (executed db1 s3)
    from executed(2) obtain r where "filter (\<lambda>r. ident r = rid) (runs (tdb s)) = [r]"
      by (auto simp: create_worker_result_def select_where_def split: sum.splits)
    then obtain db' w where c: "create_worker_result t nid rid (request_task_id t)
        (case hostname t of None \<Rightarrow> ''unknown'' | Some h \<Rightarrow> if h = [] then ''unknown'' else h) (tdb s)
        = (Inr (), db')" "filter (wr_match rid (wtype t)) (worker_results db') = [w]"
      by (rule create_worker_result_ok [OF _ le1])
    with executed(2) have "filter (wr_match rid (wtype t)) (worker_results db1) = [w]" by simp
    with frame [of "update_progress t rid 0 [] (s\<lparr>tdb := db1\<rparr>)"] executed(3)
    have "filter (wr_match rid (wtype t)) (worker_results (tdb s3)) = [w]" by simp
    from mark_completed_row [where t = t and rid = rid, OF this] executed(4) assms(2)
    show ?thesis by simp
  qed
  then show ?thesis
    using assms(5) by (simp add: base_run_replay check_idempotent_wtype [of t' t])
qed

text \<open>C15: a failing task is never silently dropped. Whatever its body raises is raised again;
  its worker row (if it has one) is FAILED with an error text of at most 2000 characters, the
  run's failure counter is one higher, and only exhausted retries reach the dead letter
  queue, whose index keeps at most 10000 entries.
\<close>

theorem failed_task_is_recorded:
  assumes "run_body t nid rid execute s = (Inl e, s1)"
    and "length (dlq_all s1) \<le> 10000"
  shows "\<exists>s'. base_run str_exn t nid rid kw execute s = (Inl e, s')
    \<and> (\<forall>w \<in> set (worker_results (tdb s')). wr_match rid (wtype t) w \<longrightarrow>
         wr_status w = W_FAILED \<and> (\<exists>m. wr_error_message w = Some m \<and> length m \<le> 2000))
    \<and> map (\<lambda>r. (ident r, failed_workers r)) (runs (tdb s')) =
        map (\<lambda>r. (ident r, if ident r = rid then failed_workers r + 1 else failed_workers r))
          (runs (tdb s1))
    \<and> (e \<noteq> MaxRetriesExceededError \<longrightarrow> dlq s' = dlq s1)
    \<and> length (dlq_all s') \<le> 10000"
proof -
  obtain msg s' where eq: "base_run str_exn t nid rid kw execute s = (Inl e, s')"
    and db: "tdb s' = snd (mark_failed_db t rid msg (tdb s1))"
    and q: "e \<noteq> MaxRetriesExceededError \<longrightarrow> dlq s' = dlq s1" "length (dlq_all s') \<le> 10000"
  proof (cases "e = MaxRetriesExceededError")
    case True
    let ?m = "''Max retries exhausted''"
    have "base_run str_exn t nid rid kw execute s =
        (Inl e, send_to_dlq t rid kw (mark_failed t rid ?m s1))"
      using assms(1) True by (simp add: base_run_def)
    then show ?thesis
    proof (rule that)
      show "tdb (send_to_dlq t rid kw (mark_failed t rid ?m s1)) = snd (mark_failed_db t rid ?m (tdb s1))"
        by (simp add: mark_failed_eq)
      show "length (dlq_all (send_to_dlq t rid kw (mark_failed t rid ?m s1))) \<le> 10000"
        using assms(2) by (intro send_to_dlq_bounded) (simp add: mark_failed_eq)
    qed (simp add: True)
  next
    case False
    define m where "m = (if e = SoftTimeLimitExceeded then ''Task exceeded soft time limit'' else str_exn e)"
    have "base_run str_exn t nid rid kw execute s = (Inl e, mark_failed t rid m s1)"
      using assms(1) False by (cases e) (simp_all add: base_run_def m_def)
    then show ?thesis
      by (rule that [where msg = m]) (use assms(2) in \<open>simp_all add: mark_failed_eq\<close>)
  qed
  have "map (\<lambda>r. (ident r, failed_workers r)) (runs (tdb s')) =
      map (\<lambda>r. (ident r, if ident r = rid then failed_workers r + 1 else failed_workers r))
        (runs (tdb s1))"
    by (simp add: db mark_failed_db_def bump_run_def Let_def update_where_def)
  moreover have "\<forall>w \<in> set (worker_results (tdb s')). wr_match rid (wtype t) w \<longrightarrow>
      wr_status w = W_FAILED \<and> (\<exists>m. wr_error_message w = Some m \<and> length m \<le> 2000)"
    by (auto simp: db mark_failed_db_def Let_def set_update_where)
  ultimately show ?thesis using eq q by blast
qed

text \<open>A task that Celery retries: the same body again and again.\<close>

fun retried :: "nat \<Rightarrow> (tstate \<Rightarrow> (tstate, json) outcome) \<Rightarrow> tstate \<Rightarrow> tstate" where
  "retried 0 f s = s"
| "retried (Suc n) f s = retried n f (snd (f s))"

text \<open>
  The failure counter of a run counts attempts, not workers. A task that fails on
  each of \<open>n\<close> attempts raises \<open>failed_workers\<close> by \<open>n\<close> (and leaves one worker row,
  FAILED), although the column is the number of workers that failed.
\<close>

theorem retries_overcount_failures:
  assumes "not_completed t rid (tdb s)" "filter (\<lambda>r. ident r = rid) (runs (tdb s)) = [r]"
    and "\<And>s. execute s = (Inl (ExternalError m), s)"
  shows "\<exists>r'. filter (\<lambda>r. ident r = rid)
        (runs (tdb (retried n (base_run str_exn t nid rid kw execute) s))) = [r']
      \<and> failed_workers r' = failed_workers r + int n
      \<and> (0 < n \<longrightarrow> map wr_status (filter (wr_match rid (wtype t)) (worker_results
           (tdb (retried n (base_run str_exn t nid rid kw execute) s)))) = [W_FAILED])"
  using assms(1,2)
proof (induction n arbitrary: s r)
  case 0
  then show ?case by simp
next
  case (Suc n)
  from failing_attempt [OF Suc.prems assms(3)]
  obtain s' r' where s': "base_run str_exn t nid rid kw execute s = (Inl (ExternalError m), s')"
    "not_completed t rid (tdb s')" "filter (\<lambda>r. ident r = rid) (runs (tdb s')) = [r']"
    "failed_workers r' = failed_workers r + 1"
    "map wr_status (filter (wr_match rid (wtype t)) (worker_results (tdb s'))) = [W_FAILED]"
    by metis
  from Suc.IH [OF s'(2,3)] s' show ?case by (cases n) auto
qed

subsection \<open>Witnesses\<close>

definition sample_task :: task where
  "sample_task = \<lparr>name = ''t'', wtype = ''github_analysis'', request_task_id = ''id'',
     hostname = Some ''h'', request_retries = 0, tenv = sample_env, elapsed_ms = Some 5\<rparr>"

definition sample_tstate :: tstate where
  "sample_tstate = \<lparr>tdb = sample_db UNDER_REVIEW RUNNING, redis_up = True,
     progress = Map.empty, published = [], dlq = Map.empty, dlq_all = []\<rparr>"

theorem completed_task_replays_witness:
  "\<exists>s'. base_run (\<lambda>_. []) sample_task 8 4 JNull (\<lambda>s. (Inl NotImplementedError, s)) s' =
     (Inr (JBool True), s')"
proof -
  let ?b = "base_run (\<lambda>_. []) sample_task 8 4 JNull (\<lambda>s. (Inr (JBool True), s)) sample_tstate"
  have b: "?b = (Inr (JBool True), snd ?b)"
    by (simp add: base_run_def run_body_def check_session check_idempotent_def
        create_worker_result_def sample_task_def sample_tstate_def sample_defs select_where_def
        db_session_def in_session_def mark_completed_def Let_def)
  have "base_run (\<lambda>_. []) sample_task 8 4 JNull (\<lambda>s. (Inl NotImplementedError, s)) (snd ?b) =
      (Inr (JBool True), snd ?b)"
    by (rule completed_task_replays [OF b]) (simp_all add: sample_tstate_def)
  then show ?thesis by (rule exI [of _ "snd ?b"])
qed

theorem failed_task_is_recorded_witness:
  "\<exists>s'. base_run (\<lambda>_. []) sample_task 8 4 JNull base_execute sample_tstate =
     (Inl NotImplementedError, s')"
proof -
  let ?b = "run_body sample_task 8 4 base_execute sample_tstate"
  have b: "?b = (Inl NotImplementedError, snd ?b)" "dlq_all (snd ?b) = []"
    by (simp_all add: run_body_def check_session check_idempotent_def base_execute_def
        create_worker_result_def sample_task_def sample_tstate_def sample_defs select_where_def
        db_session_def in_session_def Let_def update_progress_def)
  have "length (dlq_all (snd ?b)) \<le> 10000" by (simp add: b(2))
  from failed_task_is_recorded [OF b(1) this, of "\<lambda>_. []" JNull] show ?thesis by blast
qed

theorem retries_overcount_failures_witness:
  "\<exists>r'. filter (\<lambda>r. ident r = 4) (runs (tdb (retried 3 (base_run (\<lambda>_. []) sample_task 8 4 JNull
       (\<lambda>s. (Inl (ExternalError ''x''), s))) sample_tstate))) = [r'] \<and> failed_workers r' = 3"
proof -
  have "not_completed sample_task 4 (tdb sample_tstate)"
    by (simp add: not_completed_def sample_tstate_def)
  moreover have "filter (\<lambda>r. ident r = 4) (runs (tdb sample_tstate)) = [sample_run RUNNING]"
    by (simp add: sample_tstate_def sample_run_def)
  ultimately show ?thesis
    using retries_overcount_failures [of sample_task 4 sample_tstate "sample_run RUNNING"
        "\<lambda>s. (Inl (ExternalError ''x''), s)" "''x''" 3 "\<lambda>_. []" 8 JNull]
    by (auto simp: sample_run_def)
qed

end
