(* ===== verification/TextAnalysis.thy ===== *)
theory TextAnalysis
  imports PyString PyNum
begin

section \<open>Claims as text (\<open>workers/tasks/cross_check.py\<close>, \<open>fabrication.py\<close>)\<close>

text \<open>
  The two heuristics of the pipeline that read claim texts: contradiction detection and
  the fabrication risk of a claim. Regular expressions are values of \<open>rx\<close>, matched by
  the list of remainders, which is the set of ways the backtracking matcher can continue.
  Numbers are exact decimals.
\<close>

subsection \<open>Regular expressions\<close>

datatype rx = Lit string | Many "char \<Rightarrow> bool" | Some_of "char \<Rightarrow> bool" | Alt rx rx | Seq rx rx

fun star_rests :: "(char \<Rightarrow> bool) \<Rightarrow> string \<Rightarrow> string list" where
  "star_rests P [] = [[]]"
| "star_rests P (c # s) = (if P c then star_rests P s @ [c # s] else [c # s])"

fun rests :: "rx \<Rightarrow> string \<Rightarrow> string list" where
  "rests (Lit p) s = (if starts_with p s then [drop (length p) s] else [])"
| "rests (Many P) s = star_rests P s"
| "rests (Some_of P) s = (case s of [] \<Rightarrow> [] | c # s' \<Rightarrow> if P c then star_rests P s' else [])"
| "rests (Alt r1 r2) s = rests r1 s @ rests r2 s"
| "rests (Seq r1 r2) s = concat (map (rests r2) (rests r1 s))"

fun rx_search :: "rx \<Rightarrow> string \<Rightarrow> bool" where
  "rx_search r [] = (rests r [] \<noteq> [])"
| "rx_search r (c # s) = (rests r (c # s) \<noteq> [] \<or> rx_search r s)"

subsection \<open>Numbers in a text\<close>

definition digit_val :: "char \<Rightarrow> nat" where
  "digit_val c = char_code c - 48"

definition digits_value :: "string \<Rightarrow> nat" where
  "digits_value s = foldl (\<lambda>n c. 10 * n + digit_val c) 0 s"

text \<open>\<open>re.findall(r"\d+(?:\.\d+)?", text)\<close>: the fraction belongs to the number when a
  digit follows the point.\<close>

function find_numbers :: "string \<Rightarrow> (string \<times> string) list" where
  "find_numbers [] = []"
| "find_numbers (c # s) =
     (if is_digit c then
        let ip = c # takeWhile is_digit s; r = dropWhile is_digit s
        in if r \<noteq> [] \<and> hd r = CHR ''.'' \<and> takeWhile is_digit (tl r) \<noteq> []
           then (ip, takeWhile is_digit (tl r)) # find_numbers (dropWhile is_digit (tl r))
           else (ip, []) # find_numbers r
      else find_numbers s)"
  by pat_completeness auto

lemma find_numbers_measure:
  "length (dropWhile P s) < Suc (length s)"
  "r = dropWhile P s \<Longrightarrow> length (dropWhile Q (tl r)) < Suc (length s)"
proof -
  show "length (dropWhile P s) < Suc (length s)" for P :: "'a \<Rightarrow> bool" and s
    using length_dropWhile_le [of P s] by simp
  assume "r = dropWhile P s"
  then have "length r \<le> length s" by (simp add: length_dropWhile_le)
  moreover have "length (dropWhile Q (tl r)) \<le> length (tl r)" by (rule length_dropWhile_le)
  ultimately show "length (dropWhile Q (tl r)) < Suc (length s)" by simp
qed

termination find_numbers
  by (relation "measure length") (auto simp: find_numbers_measure)

text \<open>\<open>float\<close> of such a literal.\<close>

definition dec_value :: "string \<times> string \<Rightarrow> rat" where
  "dec_value n = of_nat (digits_value (fst n))
     + of_nat (digits_value (snd n)) / 10 ^ length (snd n)"

definition fmt_fixed1 :: "rat \<Rightarrow> string" where
  "fmt_fixed1 q = (let n = nat (round_half_even (q * 10))
                   in nat_str (n div 10) @ ''.'' @ nat_str (n mod 10))"

subsection \<open>Contradictions\<close>

record detected =
  det_type :: string
  det_severity :: rat
  det_explanation :: string

definition num_ratio :: "rat \<Rightarrow> rat \<Rightarrow> rat" where
  "num_ratio va vb = max va vb / min va vb"

definition conflicting :: "rat \<times> rat \<Rightarrow> bool" where
  "conflicting p = (case p of (va, vb) \<Rightarrow> va > 0 \<and> vb > 0 \<and> num_ratio va vb > 3)"

definition detect_contradiction :: "string \<Rightarrow> string \<Rightarrow> detected option" where
  "detect_contradiction text_a text_b =
     (case find conflicting (List.product (map dec_value (find_numbers text_a))
                                          (map dec_value (find_numbers text_b))) of
        None \<Rightarrow> None
      | Some (va, vb) \<Rightarrow>
          (let q = num_ratio va vb; sev = min 1 (q / 10)
           in Some \<lparr>det_type = ''numerical'', det_severity = py_round 2 sev,
                det_explanation = ''Numerical inconsistency: '' @ [CHR 0x27] @ text_a @ [CHR 0x27]
                  @ '' vs '' @ [CHR 0x27] @ text_b @ [CHR 0x27] @ '' (ratio: '' @ fmt_fixed1 q
                  @ ''x)''\<rparr>))"

subsection \<open>Fabrication risk\<close>

record risk_result =
  risk_score :: rat
  risk_factors :: "string list"

definition superlatives :: "string list" where
  "superlatives = [''first'', ''only'', ''best'', ''largest'', ''fastest'', ''revolutionary'']"

text \<open>Each rule contributes a list of weighted factors, in the order of the code.\<close>

definition superlative_factors :: "string \<Rightarrow> (rat \<times> string) list" where
  "superlative_factors text_lower =
     (case find (\<lambda>w. str_contains w text_lower) superlatives of
        None \<Rightarrow> []
      | Some w \<Rightarrow> [(2/10, ''Superlative claim: '' @ w)])"

text \<open>\<open>re.findall(r"\b(\d+)\b", text)\<close>: the maximal runs of word characters that are
  all digits.\<close>

fun word_runs :: "string \<Rightarrow> string list" where
  "word_runs [] = [[]]"
| "word_runs (c # s) =
     (if is_word c then (case word_runs s of [] \<Rightarrow> [[c]] | w # ws \<Rightarrow> (c # w) # ws)
      else [] # word_runs s)"

definition whole_numbers :: "string \<Rightarrow> nat list" where
  "whole_numbers s = map digits_value (filter (\<lambda>w. w \<noteq> [] \<and> list_all is_digit w) (word_runs s))"

fun round_factor :: "nat \<Rightarrow> (rat \<times> string) list" where
  "round_factor n =
     (if n \<ge> 1000 \<and> n mod 1000 = 0 then [(15/100, ''Suspiciously round number: '' @ nat_str n)]
      else if n \<ge> 100 \<and> n mod 100 = 0 then [(1/10, ''Round number: '' @ nat_str n)]
      else [])"

definition growth_patterns :: "(rx \<times> rat \<times> string) list" where
  "growth_patterns =
    [(Seq (Some_of is_digit) (Seq (Lit ''x'') (Seq (Many is_space) (Lit ''growth''))),
      2/10, ''Extreme growth multiplier''),
     (Seq (Some_of is_digit) (Seq (Lit ''%'') (Seq (Many is_space)
        (Alt (Lit ''growth'') (Lit ''increase'')))), 1/10, ''High percentage growth''),
     (Seq (Some_of is_digit) (Seq (Many is_space) (Seq (Lit ''million'')
        (Seq (Many is_space) (Lit ''users'')))), 3/10, ''Large user count claim'')]"

definition growth_factors :: "string \<Rightarrow> (rat \<times> string) list" where
  "growth_factors text_lower =
     concat (map (\<lambda>(r, w, reason). if rx_search r text_lower then [(w, reason)] else [])
       growth_patterns)"

definition confidence_factor :: "(rat \<Rightarrow> string) \<Rightarrow> rat \<Rightarrow> (rat \<times> string) list" where
  "confidence_factor show_float confidence =
     (if confidence < 1/2 then [(15/100, ''Low extraction confidence: '' @ show_float confidence)]
      else [])"

definition risk_parts :: "(rat \<Rightarrow> string) \<Rightarrow> string \<Rightarrow> rat \<Rightarrow> (rat \<times> string) list" where
  "risk_parts show_float text confidence =
     superlative_factors (str_lower text)
     @ concat (map round_factor (whole_numbers text))
     @ growth_factors (str_lower text)
     @ confidence_factor show_float confidence"

definition assess_claim_risk :: "(rat \<Rightarrow> string) \<Rightarrow> string \<Rightarrow> rat \<Rightarrow> risk_result" where
  "assess_claim_risk show_float text confidence =
     (let parts = risk_parts show_float text confidence
      in \<lparr>risk_score = min 1 (py_round 4 (sum_list (map fst parts))),
          risk_factors = map snd parts\<rparr>)"

subsection \<open>Facts\<close>

lemma num_ratio_sym: "num_ratio va vb = num_ratio vb va"
  by (simp add: num_ratio_def max.commute min.commute)

lemma conflicting_sym: "conflicting (va, vb) = conflicting (vb, va)"
  by (auto simp: conflicting_def num_ratio_sym)

lemma find_None_iff_ex: "find P xs = None \<longleftrightarrow> \<not> (\<exists>x \<in> set xs. P x)"
  by (auto simp: find_None_iff)

lemma detect_iff:
  "detect_contradiction a b \<noteq> None \<longleftrightarrow>
     (\<exists>x \<in> set (find_numbers a). \<exists>y \<in> set (find_numbers b).
        conflicting (dec_value x, dec_value y))"
proof -
  have "detect_contradiction a b = None \<longleftrightarrow>
      find conflicting (List.product (map dec_value (find_numbers a))
        (map dec_value (find_numbers b))) = None"
    by (auto simp: detect_contradiction_def Let_def split: option.splits)
  then show ?thesis by (auto simp: find_None_iff_ex)
qed

lemma detect_severity:
  assumes "detect_contradiction a b = Some d"
  shows "3/10 \<le> det_severity d" and "det_severity d \<le> 1" and "det_type d = ''numerical''"
proof -
  obtain va vb where f: "find conflicting (List.product (map dec_value (find_numbers a))
      (map dec_value (find_numbers b))) = Some (va, vb)"
    and d: "det_severity d = py_round 2 (min 1 (num_ratio va vb / 10))" "det_type d = ''numerical''"
    using assms by (auto simp: detect_contradiction_def Let_def split: option.splits prod.splits)
  from f have "conflicting (va, vb)" by (auto simp: find_Some_iff)
  then have r: "num_ratio va vb > 3" by (simp add: conflicting_def)
  have "py_round 2 (3/10) = 3/10" by (simp add: py_round_def round_half_even_def Let_def)
  moreover have "py_round 2 (3/10) \<le> py_round 2 (min 1 (num_ratio va vb / 10))"
    using r by (intro py_round_mono) simp
  ultimately show "3/10 \<le> det_severity d" using d(1) by simp
  show "det_severity d \<le> 1" unfolding d(1) by (rule py_round_le1) simp
  show "det_type d = ''numerical''" by (rule d(2))
qed

lemma risk_part_weight: "p \<in> set (risk_parts show_float text conf) \<Longrightarrow> 1/10 \<le> fst p"
  by (auto simp: risk_parts_def superlative_factors_def growth_factors_def growth_patterns_def
      confidence_factor_def split: option.splits if_splits)

lemma sum_parts_ge:
  "(\<And>p. p \<in> set ps \<Longrightarrow> 1/10 \<le> fst p) \<Longrightarrow>
   of_nat (length ps) / 10 \<le> sum_list (map fst (ps :: (rat \<times> 'b) list))"
proof (induction ps)
  case (Cons p ps)
  then have "of_nat (length ps) / 10 \<le> sum_list (map fst ps)" "1/10 \<le> fst p" by auto
  then show ?case by (simp add: add_divide_distrib)
qed simp

subsection \<open>Properties\<close>

text \<open>Contradiction detection between two texts. It fires exactly when some pair of
  positive numbers, one of each text, differs by more than a factor of three; it does not
  depend on the order of the texts; what it reports is numerical with a severity between
  0.3 and 1.
\<close>

theorem detect_contradiction_correct:
  "(detect_contradiction a b \<noteq> None \<longleftrightarrow>
      (\<exists>x \<in> set (find_numbers a). \<exists>y \<in> set (find_numbers b).
         0 < dec_value x \<and> 0 < dec_value y \<and>
         (3 * dec_value x < dec_value y \<or> 3 * dec_value y < dec_value x)))
   \<and> (detect_contradiction a b = None \<longleftrightarrow> detect_contradiction b a = None)
   \<and> (\<forall>d. detect_contradiction a b = Some d \<longrightarrow>
        3/10 \<le> det_severity d \<and> det_severity d \<le> 1 \<and> det_type d = ''numerical'')"
proof (intro conjI allI impI)
  have c: "conflicting (va, vb) \<longleftrightarrow> 0 < va \<and> 0 < vb \<and> (3 * va < vb \<or> 3 * vb < va)" for va vb
    by (auto simp: conflicting_def num_ratio_def max_def min_def field_simps)
  show "detect_contradiction a b \<noteq> None \<longleftrightarrow>
      (\<exists>x \<in> set (find_numbers a). \<exists>y \<in> set (find_numbers b).
         0 < dec_value x \<and> 0 < dec_value y \<and>
         (3 * dec_value x < dec_value y \<or> 3 * dec_value y < dec_value x))"
    unfolding detect_iff c ..
  show "detect_contradiction a b = None \<longleftrightarrow> detect_contradiction b a = None"
    using detect_iff [of a b] detect_iff [of b a] conflicting_sym by blast
  fix d assume d: "detect_contradiction a b = Some d"
  show "3/10 \<le> det_severity d" "det_severity d \<le> 1" "det_type d = ''numerical''"
    by (rule detect_severity [OF d])+
qed

text \<open>
  The fabrication risk of a claim lies between 0 and 1 and is 0 exactly when no factor
  applies; each factor counts for at least 0.1, so a claim with ten of them has risk 1.
\<close>

theorem claim_risk_bounds:
  "0 \<le> risk_score (assess_claim_risk sf text conf)
   \<and> risk_score (assess_claim_risk sf text conf) \<le> 1
   \<and> (risk_score (assess_claim_risk sf text conf) = 0 \<longleftrightarrow>
        risk_factors (assess_claim_risk sf text conf) = [])
   \<and> min 1 (of_nat (length (risk_factors (assess_claim_risk sf text conf))) / 10)
       \<le> risk_score (assess_claim_risk sf text conf)"
proof -
  define ps where "ps = risk_parts sf text conf"
  define total where "total = sum_list (map fst ps)"
  have g: "of_nat (length ps) / 10 \<le> total"
    unfolding total_def ps_def by (rule sum_parts_ge) (rule risk_part_weight)
  have r: "py_round 4 (of_nat n / 10) = of_nat n / 10" for n
  proof -
    have "(of_nat n / 10 * 10 ^ 4 :: rat) = of_int (int n * 1000)" by simp
    then show ?thesis unfolding py_round_def by (simp only: round_half_even_of_int) simp
  qed
  from py_round_mono [OF g, of 4] have g4: "of_nat (length ps) / 10 \<le> py_round 4 total"
    by (simp only: r)
  have nn: "0 \<le> (of_nat (length ps) / 10 :: rat)" by simp
  have e: "risk_score (assess_claim_risk sf text conf) = min 1 (py_round 4 total)"
    "risk_factors (assess_claim_risk sf text conf) = map snd ps"
    by (simp_all add: assess_claim_risk_def Let_def total_def ps_def)
  have z: "min 1 (py_round 4 total) = 0 \<longleftrightarrow> ps = []"
  proof
    assume "ps = []"
    then show "min 1 (py_round 4 total) = 0" by (simp add: total_def)
  next
    assume m: "min 1 (py_round 4 total) = 0"
    with g4 nn have "(of_nat (length ps) / 10 :: rat) = 0" by (auto simp: min_def split: if_splits)
    then show "ps = []" by simp
  qed
  show ?thesis
    unfolding e using g4 nn z by (auto simp: min_def)
qed

subsection \<open>Witness\<close>

theorem detect_contradiction_correct_witness:
  "\<exists>d. detect_contradiction ''GitHub has 2 contributors'' ''Team of 20 engineers'' = Some d
     \<and> 3/10 \<le> det_severity d"
proof -
  have n: "find_numbers ''GitHub has 2 contributors'' = [(''2'', [])]"
    "find_numbers ''Team of 20 engineers'' = [(''20'', [])]"
    by code_simp+
  have "dec_value (''2'', []) = 2" "dec_value (''20'', []) = 20"
    by (simp_all add: dec_value_def digits_value_def digit_val_def char_code_def)
  with n detect_contradiction_correct [of "''GitHub has 2 contributors''" "''Team of 20 engineers''"]
  show ?thesis by auto
qed

end
