(* ===== verification/CrossCheck.thy ===== *)
theory CrossCheck
  imports BaseTask TextAnalysis
begin

section \<open>Cross-checking claims (\<open>workers/tasks/cross_check.py\<close>)\<close>

text \<open>
  The first sequential step of the pipeline: it collects the claims of the parallel
  analyses, stores them and the contradictions between them in one session, and reports
  progress to Redis. A task result is a JSON value; \<open>gen\<close> supplies the primary keys of
  the new rows. The step runs outside \<open>BaseEvalTask.run\<close>: its Celery entry calls the
  coroutine directly.
\<close>

subsection \<open>JSON as Python objects\<close>

text \<open>\<open>for x in j\<close>.\<close>

fun json_iter :: "json \<Rightarrow> exn + json list" where
  "json_iter (JArr xs) = Inr xs"
| "json_iter (JStr s) = Inr (map (\<lambda>c. JStr [c]) s)"
| "json_iter (JObj kvs) = Inr (map (\<lambda>(k, _). JStr k) kvs)"
| "json_iter _ = Inl (TypeError ''object is not iterable'')"

fun set_key :: "string \<Rightarrow> json \<Rightarrow> (string \<times> json) list \<Rightarrow> (string \<times> json) list" where
  "set_key k v [] = [(k, v)]"
| "set_key k v ((k', v') # kvs) = (if k' = k then (k, v) # kvs else (k', v') # set_key k v kvs)"

text \<open>\<open>claim["source_task"] = source\<close>: only dictionaries take a string key.\<close>

fun json_set :: "string \<Rightarrow> json \<Rightarrow> json \<Rightarrow> exn + json" where
  "json_set k v (JObj kvs) = Inr (JObj (set_key k v kvs))"
| "json_set k v _ = Inl (TypeError ''item assignment'')"

text \<open>What the database accepts for a text and a float column that may not be NULL, and for a
  text column that may.\<close>

fun text_column :: "json \<Rightarrow> exn + string" where
  "text_column (JStr s) = Inr s"
| "text_column JNull = Inl (IntegrityError ''NOT NULL'')"
| "text_column _ = Inl DBAPIError"

fun text_column_opt :: "json \<Rightarrow> exn + string option" where
  "text_column_opt (JStr s) = Inr (Some s)"
| "text_column_opt JNull = Inr None"
| "text_column_opt _ = Inl DBAPIError"

fun float_column :: "json \<Rightarrow> exn + rat" where
  "float_column (JNum q) = Inr q"
| "float_column (JBool b) = Inr (if b then 1 else 0)"
| "float_column JNull = Inl (IntegrityError ''NOT NULL'')"
| "float_column _ = Inl DBAPIError"

subsection \<open>Collecting the claims\<close>

fun tag_claims :: "json \<Rightarrow> json list \<Rightarrow> exn + json list" where
  "tag_claims src [] = Inr []"
| "tag_claims src (c # cs) =
     (case json_set ''source_task'' src c of
        Inl e \<Rightarrow> Inl e
      | Inr c' \<Rightarrow> (case tag_claims src cs of Inl e \<Rightarrow> Inl e | Inr cs' \<Rightarrow> Inr (c' # cs')))"

fun collect_claims :: "json list \<Rightarrow> exn + json list" where
  "collect_claims [] = Inr []"
| "collect_claims (JObj kvs # rs) =
     (case json_iter (dict_get_default (JObj kvs) ''claims'' (JArr [])) of
        Inl e \<Rightarrow> Inl e
      | Inr cs \<Rightarrow>
        (case tag_claims (dict_get_default (JObj kvs) ''status'' (JStr ''unknown'')) cs of
           Inl e \<Rightarrow> Inl e
         | Inr cs' \<Rightarrow> (case collect_claims rs of Inl e \<Rightarrow> Inl e | Inr rest \<Rightarrow> Inr (cs' @ rest))))"
| "collect_claims (_ # rs) = collect_claims rs"

subsection \<open>Rows\<close>

definition new_claim :: "env \<Rightarrow> uuid \<Rightarrow> evaluation_run \<Rightarrow> json \<Rightarrow> exn + claim" where
  "new_claim env i r c =
     (case text_column (dict_get_default c ''text'' (JStr [])) of
        Inl e \<Rightarrow> Inl e
      | Inr txt \<Rightarrow>
        (case text_column (dict_get_default c ''category'' (JStr ''general'')) of
           Inl e \<Rightarrow> Inl e
         | Inr cat \<Rightarrow>
           (case float_column (dict_get_default c ''confidence'' (JNum (1/2))) of
              Inl e \<Rightarrow> Inl e
            | Inr conf \<Rightarrow>
              (case text_column_opt (dict_get_default c ''source_reference'' (JStr [])) of
                 Inl e \<Rightarrow> Inl e
               | Inr src \<Rightarrow> Inr
                   \<lparr>ident = i, created_at = now env, updated_at = now env, deleted_at = None,
                    organization_id = organization_id r, claim_run_id = ident r,
                    claim_submission_id = submission_id r, claim_text = txt, category = cat,
                    source_reference = src, confidence_score = conf,
                    verification_status = ''unverified'',
                    claim_evidence = JObj [(''source_task'',
                      dict_get_default c ''source_task'' (JStr []))],
                    claim_metadata = empty_obj\<rparr>))))"

fun new_claims :: "env \<Rightarrow> (nat \<Rightarrow> uuid) \<Rightarrow> evaluation_run \<Rightarrow> nat \<Rightarrow> json list \<Rightarrow> exn + claim list" where
  "new_claims env gen r k [] = Inr []"
| "new_claims env gen r k (c # cs) =
     (case new_claim env (gen k) r c of
        Inl e \<Rightarrow> Inl e
      | Inr x \<Rightarrow> (case new_claims env gen r (Suc k) cs of Inl e \<Rightarrow> Inl e | Inr xs \<Rightarrow> Inr (x # xs)))"

text \<open>\<open>for i in range(n): for j in range(i + 1, n)\<close>.\<close>

fun pairs :: "'a list \<Rightarrow> ('a \<times> 'a) list" where
  "pairs [] = []"
| "pairs (x # xs) = map (Pair x) xs @ pairs xs"

definition claim_conflict :: "claim \<times> claim \<Rightarrow> detected option" where
  "claim_conflict p = (case p of (a, b) \<Rightarrow>
     if category a \<noteq> category b then None
     else detect_contradiction (claim_text a) (claim_text b))"

definition new_contradiction :: "env \<Rightarrow> uuid \<Rightarrow> evaluation_run \<Rightarrow> claim \<times> claim \<Rightarrow> detected
    \<Rightarrow> contradiction" where
  "new_contradiction env i r p d =
     \<lparr>ident = i, created_at = now env, updated_at = now env, deleted_at = None,
      organization_id = organization_id r, con_run_id = ident r,
      claim_a_id = ident (fst p), claim_b_id = ident (snd p),
      contradiction_type = det_type d, severity = det_severity d,
      explanation = det_explanation d, con_evidence = empty_obj\<rparr>"

fun find_contradictions :: "env \<Rightarrow> (nat \<Rightarrow> uuid) \<Rightarrow> evaluation_run \<Rightarrow> nat \<Rightarrow> (claim \<times> claim) list
    \<Rightarrow> contradiction list" where
  "find_contradictions env gen r k [] = []"
| "find_contradictions env gen r k (p # ps) =
     (case claim_conflict p of
        None \<Rightarrow> find_contradictions env gen r k ps
      | Some d \<Rightarrow> new_contradiction env (gen k) r p d # find_contradictions env gen r (Suc k) ps)"

subsection \<open>The task\<close>

definition cross_check_db :: "env \<Rightarrow> (nat \<Rightarrow> uuid) \<Rightarrow> uuid \<Rightarrow> json list \<Rightarrow> db
    \<Rightarrow> (db, claim list \<times> contradiction list) outcome" where
  "cross_check_db env gen rid all_claims db =
     (case scalar_one (select_where (\<lambda>r. ident r = rid) (runs db)) of
        Inl e \<Rightarrow> (Inl e, db)
      | Inr r \<Rightarrow>
        (case new_claims env gen r 0 all_claims of
           Inl e \<Rightarrow> (Inl e, db)
         | Inr cs \<Rightarrow>
           (let cons = find_contradictions env gen r (length cs) (pairs cs)
            in (Inr (cs, cons), db\<lparr>claims := claims db @ cs,
                  contradictions := contradictions db @ cons\<rparr>))))"

text \<open>One progress report for each claim.\<close>

fun compare_progress :: "task \<Rightarrow> uuid \<Rightarrow> nat \<Rightarrow> nat list \<Rightarrow> tstate \<Rightarrow> tstate" where
  "compare_progress t rid n [] s = s"
| "compare_progress t rid n (i # is) s =
     compare_progress t rid n is
       (update_progress t rid (min 90 (50 + py_int (of_nat i / of_nat n * 40))) ''Comparing claims'' s)"

definition contradiction_json :: "claim \<times> claim \<Rightarrow> detected \<Rightarrow> json" where
  "contradiction_json p d =
     JObj [(''claim_a'', JStr (claim_text (fst p))), (''claim_b'', JStr (claim_text (snd p))),
           (''type'', JStr (det_type d)), (''severity'', JNum (det_severity d))]"

definition contradiction_summaries :: "(claim \<times> claim) list \<Rightarrow> json list" where
  "contradiction_summaries ps =
     List.map_filter (\<lambda>p. map_option (contradiction_json p) (claim_conflict p)) ps"

definition cross_check :: "task \<Rightarrow> (nat \<Rightarrow> uuid) \<Rightarrow> uuid \<Rightarrow> json list \<Rightarrow> tstate
    \<Rightarrow> (tstate, json) outcome" where
  "cross_check t gen rid parallel_results s =
     (let s1 = update_progress t rid 10 ''Collecting claims from all sources'' s
      in case collect_claims parallel_results of
           Inl e \<Rightarrow> (Inl e, s1)
         | Inr all_claims \<Rightarrow>
           if length all_claims < 2 then
             (Inr (JObj [(''status'', JStr ''completed''), (''contradictions_found'', JNum 0),
                (''claims_analyzed'', JNum (of_nat (length all_claims)))]), s1)
           else
             (let s2 = update_progress t rid 30 (''Analyzing '' @ nat_str (length all_claims)
                    @ '' claims for contradictions'') s1
              in case db_session (cross_check_db (tenv t) gen rid all_claims) s2 of
                   (Inl e, s3) \<Rightarrow> (Inl e, s3)
                 | (Inr (cs, cons), s3) \<Rightarrow>
                     (Inr (JObj [(''status'', JStr ''completed''),
                        (''claims_stored'', JNum (of_nat (length cs))),
                        (''contradictions_found'', JNum (of_nat (length cons))),
                        (''contradictions'', JArr (take 20 (contradiction_summaries (pairs cs))))]),
                      compare_progress t rid (length cs) [0..<length cs]
                        (update_progress t rid 50 ''Detecting contradictions'' s3))))"

definition cross_check_task :: "task \<Rightarrow> (nat \<Rightarrow> uuid) \<Rightarrow> json list \<Rightarrow> uuid \<Rightarrow> tstate
    \<Rightarrow> (tstate, json) outcome" where
  "cross_check_task t gen parallel_results rid s =
     cross_check (t\<lparr>wtype := ''cross_check''\<rparr>) gen rid parallel_results s"

subsection \<open>Library\<close>

lemma compare_progress_tdb [simp]: "tdb (compare_progress t rid n is s) = tdb s"
  by (induction t rid n "is" s rule: compare_progress.induct) auto

lemma new_claim_fields:
  "new_claim env i r c = Inr x \<Longrightarrow> ident x = i \<and> claim_run_id x = ident r
     \<and> organization_id x = organization_id r \<and> claim_submission_id x = submission_id r
     \<and> active x \<and> verification_status x = ''unverified''"
  by (auto simp: new_claim_def split: sum.splits)

lemma new_claims_fields:
  "new_claims env gen r k cs = Inr xs \<Longrightarrow> length xs = length cs
     \<and> map ident xs = map gen [k..<k + length cs]
     \<and> (\<forall>x \<in> set xs. claim_run_id x = ident r \<and> organization_id x = organization_id r
          \<and> claim_submission_id x = submission_id r \<and> active x
          \<and> verification_status x = ''unverified'')"
proof (induction cs arbitrary: k xs)
  case (Cons c cs)
  then obtain x ys where x: "new_claim env (gen k) r c = Inr x"
    and ys: "new_claims env gen r (Suc k) cs = Inr ys" "xs = x # ys"
    by (auto split: sum.splits)
  from new_claim_fields [OF x] Cons.IH [OF ys(1)] ys(2) show ?case
    by (auto simp: upt_rec [of k])
qed simp

lemma find_contradictions_pairs:
  "map (\<lambda>k. (claim_a_id k, claim_b_id k)) (find_contradictions env gen r k ps) =
   map (\<lambda>(a, b). (ident a, ident b)) (filter (\<lambda>p. claim_conflict p \<noteq> None) ps)"
  by (induction ps arbitrary: k) (auto simp: new_contradiction_def split: option.splits)

lemma find_contradictions_fields:
  "c \<in> set (find_contradictions env gen r k ps) \<Longrightarrow>
   con_run_id c = ident r \<and> organization_id c = organization_id r \<and> active c
   \<and> 3/10 \<le> severity c \<and> severity c \<le> 1"
  by (induction ps arbitrary: k)
    (auto simp: new_contradiction_def claim_conflict_def split: option.splits if_splits prod.splits
      dest: detect_severity)

lemma pairs_iff:
  "(a, b) \<in> set (pairs xs) \<longleftrightarrow> (\<exists>i j. i < j \<and> j < length xs \<and> a = xs ! i \<and> b = xs ! j)"
proof (induction xs)
  case (Cons x xs)
  show ?case
  proof
    assume "(a, b) \<in> set (pairs (x # xs))"
    then consider "a = x" "b \<in> set xs" | "(a, b) \<in> set (pairs xs)" by auto
    then show "\<exists>i j. i < j \<and> j < length (x # xs) \<and> a = (x # xs) ! i \<and> b = (x # xs) ! j"
    proof cases
      case 1
      then obtain j where "j < length xs" "b = xs ! j" by (auto simp: in_set_conv_nth)
      with 1 show ?thesis by (intro exI [of _ 0] exI [of _ "Suc j"]) simp
    next
      case 2
      with Cons obtain i j where "i < j" "j < length xs" "a = xs ! i" "b = xs ! j" by blast
      then show ?thesis by (intro exI [of _ "Suc i"] exI [of _ "Suc j"]) simp
    qed
  next
    assume "\<exists>i j. i < j \<and> j < length (x # xs) \<and> a = (x # xs) ! i \<and> b = (x # xs) ! j"
    then obtain i j where ij: "i < j" "j < length (x # xs)" "a = (x # xs) ! i" "b = (x # xs) ! j"
      by blast
    then obtain j' where j: "j = Suc j'" by (cases j) auto
    show "(a, b) \<in> set (pairs (x # xs))"
    proof (cases i)
      case 0
      with ij j show ?thesis by simp
    next
      case (Suc i')
      with ij j have "i' < j'" "j' < length xs" "a = xs ! i'" "b = xs ! j'" by auto
      with Cons show ?thesis by auto
    qed
  qed
qed simp

text \<open>A step that ran to the end with at least two claims stored them all.\<close>

lemma cross_check_stored:
  assumes "cross_check t gen rid results s = (Inr out, s')"
    and "collect_claims results = Inr all" "2 \<le> length all"
  obtains r cs where "r \<in> set (runs (tdb s))" "ident r = rid"
    "new_claims (tenv t) gen r 0 all = Inr cs"
    "tdb s' = (tdb s)\<lparr>claims := claims (tdb s) @ cs,
       contradictions := contradictions (tdb s) @
         find_contradictions (tenv t) gen r (length cs) (pairs cs)\<rparr>"
proof -
  define s2 where "s2 = update_progress t rid 30 (''Analyzing '' @ nat_str (length all)
      @ '' claims for contradictions'')
    (update_progress t rid 10 ''Collecting claims from all sources'' s)"
  have s2: "tdb s2 = tdb s" by (simp add: s2_def)
  obtain x s3 where x: "db_session (cross_check_db (tenv t) gen rid all) s2 = (Inr x, s3)"
    and s': "tdb s' = tdb s3"
    using assms by (auto simp: cross_check_def Let_def s2_def split: sum.splits prod.splits)
  from x have d: "cross_check_db (tenv t) gen rid all (tdb s) = (Inr x, tdb s3)"
    by (auto simp: db_session_def in_session_def s2 split: sum.splits prod.splits)
  from d obtain r cs where r: "filter (\<lambda>r. ident r = rid) (runs (tdb s)) = [r]"
    and cs: "new_claims (tenv t) gen r 0 all = Inr cs"
    and db: "tdb s3 = (tdb s)\<lparr>claims := claims (tdb s) @ cs,
       contradictions := contradictions (tdb s) @
         find_contradictions (tenv t) gen r (length cs) (pairs cs)\<rparr>"
    by (auto simp: cross_check_db_def select_where_def Let_def split: sum.splits)
  from filter_singletonD [OF r] cs db s' show ?thesis by (intro that [of r cs]) auto
qed

lemma cross_check_err:
  assumes "cross_check t gen rid results s = (Inl e, s')"
  shows "tdb s' = tdb s"
  using assms
  by (auto simp: cross_check_def db_session_def in_session_def Let_def
      split: sum.splits prod.splits if_splits)

subsection \<open>Properties\<close>


text \<open>The same step run again and again, as long as it succeeds.\<close>

fun repeated :: "(tstate \<Rightarrow> (tstate, json) outcome) list \<Rightarrow> tstate \<Rightarrow> exn + tstate" where
  "repeated [] s = Inr s"
| "repeated (f # fs) s = (case f s of (Inl e, s') \<Rightarrow> Inl e | (Inr _, s') \<Rightarrow> repeated fs s')"

text \<open>
  The cross-check is not idempotent. Celery may run it again after it succeeded
  (it has no idempotency guard of its own); every further run stores all claims once more,
  so that the claim table holds one copy for each run of the step.
\<close>

theorem cross_check_duplicates_claims:
  assumes "collect_claims results = Inr all" "2 \<le> length all"
    and "repeated (map (\<lambda>gen. cross_check t gen rid results) gens) s = Inr s'"
  shows "length (claims (tdb s')) = length (claims (tdb s)) + length gens * length all"
  using assms(3)
proof (induction gens arbitrary: s)
  case (Cons gen gens)
  then obtain out s1 where s1: "cross_check t gen rid results s = (Inr out, s1)"
    "repeated (map (\<lambda>gen. cross_check t gen rid results) gens) s1 = Inr s'"
    by (auto split: sum.splits prod.splits)
  from s1(1) assms(1,2) obtain r cs where cs: "new_claims (tenv t) gen r 0 all = Inr cs"
    and db: "claims (tdb s1) = claims (tdb s) @ cs"
    by (rule cross_check_stored) simp
  from new_claims_fields [OF cs] have "length cs = length all" by blast
  with Cons.IH [OF s1(2)] db show ?case by simp
qed simp

subsection \<open>Witnesses\<close>

definition sample_results :: "json list" where
  "sample_results = [JObj [(''claims'', JArr [
     JObj [(''text'', JStr ''2 engineers''), (''category'', JStr ''team'')],
     JObj [(''text'', JStr ''team of 20''), (''category'', JStr ''team'')]])]]"

lemma sample_collect: "\<exists>all. collect_claims sample_results = Inr all \<and> length all = 2"
  by (simp add: sample_results_def dict_get_default_def)

lemma sample_cross_check:
  "\<exists>out s'. cross_check sample_task (\<lambda>k. 30 + k) 4 sample_results s = (Inr out, s')"
  if "runs (tdb s) = [sample_run RUNNING]"
  using that
  by (simp add: cross_check_def sample_results_def dict_get_default_def db_session_def
      in_session_def cross_check_db_def select_where_def new_claim_def sample_run_def Let_def)


theorem cross_check_duplicates_claims_witness:
  "\<exists>s'. repeated (map (\<lambda>gen. cross_check sample_task gen 4 sample_results)
        [\<lambda>k. 30 + k]) sample_tstate = Inr s' \<and> length (claims (tdb s')) = 2"
proof -
  obtain out s' where x: "cross_check sample_task (\<lambda>k. 30 + k) 4 sample_results sample_tstate = (Inr out, s')"
    using sample_cross_check [of sample_tstate] by (auto simp: sample_tstate_def)
  then have r: "repeated (map (\<lambda>gen. cross_check sample_task gen 4 sample_results)
      [\<lambda>k. 30 + k]) sample_tstate = Inr s'" by simp
  obtain all where all: "collect_claims sample_results = Inr all" "length all = 2"
    using sample_collect by blast
  have c: "claims (tdb sample_tstate) = []" by (simp add: sample_tstate_def)
  from cross_check_duplicates_claims [OF all(1) _ r] all(2) c
  have "length (claims (tdb s')) = 2" by simp
  with r show ?thesis by blast
qed

end
