(* ===== verification/Fabrication.thy ===== *)
theory Fabrication
  imports CrossCheck
begin

section \<open>Fabrication detection (\<open>workers/tasks/fabrication.py\<close>)\<close>

text \<open>
  The second sequential step: it reads the claims of the run, assesses the risk of each and
  writes a verdict on the flagged ones, each in a session of its own. \<open>show_float\<close> is the
  text of a float, used only in the explanation of a factor.
\<close>

definition risk_json :: "risk_result \<Rightarrow> json" where
  "risk_json k = JObj [(''score'', JNum (risk_score k)),
     (''factors'', JArr (map JStr (risk_factors k)))]"

definition flagged_json :: "claim \<Rightarrow> risk_result \<Rightarrow> json" where
  "flagged_json c k = JObj [(''claim_id'', JStr (nat_str (ident c))),
     (''claim_text'', JStr (claim_text c)), (''risk_score'', JNum (risk_score k)),
     (''risk_factors'', JArr (map JStr (risk_factors k))), (''category'', JStr (category c))]"

definition verdict_status :: "risk_result \<Rightarrow> string" where
  "verdict_status k = (if risk_score k > 7/10 then ''disputed'' else ''unverified'')"

text \<open>The UPDATE of a flagged claim; unpacking evidence that is not a dictionary raises.\<close>

definition write_verdict :: "env \<Rightarrow> claim \<Rightarrow> risk_result \<Rightarrow> db \<Rightarrow> (db, unit) outcome" where
  "write_verdict env c k db =
     (case claim_evidence c of
        JObj kvs \<Rightarrow>
          (Inr (), db\<lparr>claims := update_where (\<lambda>x. ident x = ident c)
             (\<lambda>x. touch (now env) (x\<lparr>verification_status := verdict_status k,
                claim_evidence := JObj (set_key ''fabrication_risk'' (risk_json k) kvs)\<rparr>))
             (claims db)\<rparr>)
      | _ \<Rightarrow> (Inl (TypeError ''not a mapping''), db))"

fun fabrication_loop :: "(rat \<Rightarrow> string) \<Rightarrow> task \<Rightarrow> uuid \<Rightarrow> nat \<Rightarrow> nat \<Rightarrow> claim list
    \<Rightarrow> json list \<Rightarrow> rat \<Rightarrow> tstate \<Rightarrow> (tstate, json list \<times> rat) outcome" where
  "fabrication_loop sf t rid n idx [] flagged total_risk s = (Inr (flagged, total_risk), s)"
| "fabrication_loop sf t rid n idx (c # cs) flagged total_risk s =
     (let k = assess_claim_risk sf (claim_text c) (confidence_score c);
          r1 = (if risk_score k > 1/2
                then (case db_session (write_verdict (tenv t) c k) s of
                        (Inl e, s') \<Rightarrow> (Inl e, s')
                      | (Inr _, s') \<Rightarrow> (Inr (flagged @ [flagged_json c k]), s'))
                else (Inr flagged, s))
      in case r1 of
           (Inl e, s') \<Rightarrow> (Inl e, s')
         | (Inr flagged', s') \<Rightarrow>
             fabrication_loop sf t rid n (Suc idx) cs flagged' (total_risk + risk_score k)
               (update_progress t rid (min 90 (30 + py_int (of_nat idx / of_nat n * 60)))
                 ''Analyzing claim verifiability'' s'))"

definition risk_level :: "rat \<Rightarrow> string" where
  "risk_level avg = (if avg > 6/10 then ''high'' else if avg > 3/10 then ''medium'' else ''low'')"

definition detect_fabrication :: "(rat \<Rightarrow> string) \<Rightarrow> task \<Rightarrow> uuid \<Rightarrow> json \<Rightarrow> tstate
    \<Rightarrow> (tstate, json) outcome" where
  "detect_fabrication sf t rid cross_check_result s =
     (let s1 = update_progress t rid 10 ''Loading claims for fabrication analysis'' s;
          cs = select_where (\<lambda>c. claim_run_id c = rid \<and> active c) (claims (tdb s1))
      in if cs = [] then
           (Inr (JObj [(''status'', JStr ''completed''), (''fabrication_risk'', JStr ''low''),
              (''flagged_claims'', JNum 0)]), s1)
         else
           (let s2 = update_progress t rid 30 (''Analyzing '' @ nat_str (length cs)
                  @ '' claims for fabrication'') s1
            in case fabrication_loop sf t rid (length cs) 0 cs [] 0 s2 of
                 (Inl e, s3) \<Rightarrow> (Inl e, s3)
               | (Inr (flagged, total_risk), s3) \<Rightarrow>
                   (let s4 = update_progress t rid 95 ''Computing fabrication summary'' s3;
                        avg = total_risk / of_nat (length cs)
                    in (Inr (JObj [(''status'', JStr ''completed''),
                          (''fabrication_risk'', JStr (risk_level avg)),
                          (''average_risk_score'', JNum (py_round 4 avg)),
                          (''total_claims_analyzed'', JNum (of_nat (length cs))),
                          (''flagged_claims'', JNum (of_nat (length flagged))),
                          (''flagged'', JArr (take 10 flagged)),
                          (''cross_check_contradictions'',
                           dict_get_default cross_check_result ''contradictions_found'' (JNum 0))]),
                        s4))))"

definition fabrication_detection_task :: "(rat \<Rightarrow> string) \<Rightarrow> task \<Rightarrow> json \<Rightarrow> uuid \<Rightarrow> tstate
    \<Rightarrow> (tstate, json) outcome" where
  "fabrication_detection_task sf t cross_check_result rid s =
     detect_fabrication sf (t\<lparr>wtype := ''fabrication_detection''\<rparr>) rid cross_check_result s"

subsection \<open>Library\<close>

definition claim_risk :: "(rat \<Rightarrow> string) \<Rightarrow> claim \<Rightarrow> risk_result" where
  "claim_risk sf c = assess_claim_risk sf (claim_text c) (confidence_score c)"

text \<open>What the step makes of one claim.\<close>

definition judged :: "(rat \<Rightarrow> string) \<Rightarrow> env \<Rightarrow> claim \<Rightarrow> claim" where
  "judged sf env c =
     (if risk_score (claim_risk sf c) > 1/2
      then touch (now env) (c\<lparr>verification_status := verdict_status (claim_risk sf c),
        claim_evidence := (case claim_evidence c of
            JObj kvs \<Rightarrow> JObj (set_key ''fabrication_risk'' (risk_json (claim_risk sf c)) kvs)
          | j \<Rightarrow> j)\<rparr>)
      else c)"

lemma judged_base [simp]:
  "ident (judged sf env c) = ident c" "deleted_at (judged sf env c) = deleted_at c"
  "claim_run_id (judged sf env c) = claim_run_id c"
  by (simp_all add: judged_def touch_def)

definition evidence_is_object :: "claim \<Rightarrow> bool" where
  "evidence_is_object c \<longleftrightarrow> (\<exists>kvs. claim_evidence c = JObj kvs)"

lemma update_judged:
  assumes "unique_ids t" "c \<in> set t" "evidence_is_object c" "risk_score (claim_risk sf c) > 1/2"
    and t: "claims (tdb s) = t"
  shows "db_session (write_verdict env c (claim_risk sf c)) s =
    (Inr (), s\<lparr>tdb := (tdb s)\<lparr>claims := map (\<lambda>x. if x = c then judged sf env x else x) t\<rparr>\<rparr>)"
proof -
  from assms(3) obtain kvs where kvs: "claim_evidence c = JObj kvs"
    by (auto simp: evidence_is_object_def)
  have "update_where (\<lambda>x. ident x = ident c)
      (\<lambda>x. touch (now env) (x\<lparr>verification_status := verdict_status (claim_risk sf c),
         claim_evidence := JObj (set_key ''fabrication_risk'' (risk_json (claim_risk sf c)) kvs)\<rparr>)) t
      = map (\<lambda>x. if x = c then judged sf env x else x) t"
    unfolding update_where_def
  proof (intro map_cong refl)
    fix x assume "x \<in> set t"
    then have "ident x = ident c \<longleftrightarrow> x = c" using assms(1,2) unique_idsD by blast
    then show "(if ident x = ident c then touch (now env) (x\<lparr>verification_status :=
           verdict_status (claim_risk sf c), claim_evidence :=
           JObj (set_key ''fabrication_risk'' (risk_json (claim_risk sf c)) kvs)\<rparr>) else x)
        = (if x = c then judged sf env x else x)"
      using assms(4) kvs by (simp add: judged_def)
  qed
  then show ?thesis
    using t kvs by (simp add: db_session_def in_session_def write_verdict_def)
qed

lemma fabrication_loop_correct:
  assumes "unique_ids (claims (tdb s))" "set cs \<subseteq> set (claims (tdb s))" "distinct cs"
    and "\<forall>c \<in> set cs. evidence_is_object c"
  shows "\<exists>s'. fabrication_loop sf t rid n idx cs flagged total_risk s =
      (Inr (flagged @ map (\<lambda>c. flagged_json c (claim_risk sf c))
              (filter (\<lambda>c. risk_score (claim_risk sf c) > 1/2) cs),
            total_risk + sum_list (map (\<lambda>c. risk_score (claim_risk sf c)) cs)), s')
    \<and> tdb s' = (tdb s)\<lparr>claims := map (\<lambda>x. if x \<in> set cs then judged sf (tenv t) x else x)
         (claims (tdb s))\<rparr>"
  using assms
proof (induction cs arbitrary: idx flagged total_risk s)
  case Nil
  then show ?case by simp
next
  case (Cons c cs)
  let ?k = "claim_risk sf c"
  let ?t = "claims (tdb s)"
  let ?t1 = "map (\<lambda>x. if x = c then judged sf (tenv t) x else x) ?t"
  let ?fl = "if risk_score ?k > 1/2 then flagged @ [flagged_json c ?k] else flagged"
  define s1 where "s1 = (if risk_score ?k > 1/2 then s\<lparr>tdb := (tdb s)\<lparr>claims := ?t1\<rparr>\<rparr> else s)"
  have t1: "tdb s1 = (tdb s)\<lparr>claims := ?t1\<rparr>"
  proof (cases "risk_score ?k > 1/2")
    case False
    then have "?t1 = ?t" by (intro map_idI) (simp add: judged_def)
    with False show ?thesis by (simp add: s1_def)
  qed (simp add: s1_def)
  have step: "(if risk_score ?k > 1/2
        then (case db_session (write_verdict (tenv t) c ?k) s of
                (Inl e, s') \<Rightarrow> (Inl e, s') | (Inr _, s') \<Rightarrow> (Inr (flagged @ [flagged_json c ?k]), s'))
        else (Inr flagged, s)) = (Inr ?fl, s1)"
    using update_judged [of ?t c sf s "tenv t"] Cons.prems by (simp add: s1_def)
  let ?s2 = "update_progress t rid (min 90 (30 + py_int (of_nat idx / of_nat n * 60)))
     ''Analyzing claim verifiability'' s1"
  have loop: "fabrication_loop sf t rid n idx (c # cs) flagged total_risk s =
      fabrication_loop sf t rid n (Suc idx) cs ?fl (total_risk + risk_score ?k) ?s2"
    using step by (simp add: Let_def flip: claim_risk_def)
  have u1: "unique_ids (claims (tdb ?s2))"
  proof -
    have "map ident ?t1 = map ident ?t" by simp
    then have "unique_ids ?t1" using Cons.prems(1) unfolding unique_ids_def by (simp only:)
    then show ?thesis by (simp add: t1)
  qed
  have sub: "set cs \<subseteq> set (claims (tdb ?s2))"
  proof
    fix x assume x: "x \<in> set cs"
    with Cons.prems(3) have "x \<noteq> c" by auto
    moreover from x Cons.prems(2) have "x \<in> set ?t" by auto
    ultimately have "x \<in> set ?t1" by (auto simp: image_iff intro!: bexI [of _ x])
    then show "x \<in> set (claims (tdb ?s2))" by (simp add: t1)
  qed
  from Cons.IH [OF u1 sub, of "Suc idx" ?fl "total_risk + risk_score ?k"] Cons.prems(3,4)
  obtain s' where s': "fabrication_loop sf t rid n (Suc idx) cs ?fl (total_risk + risk_score ?k) ?s2 =
      (Inr (?fl @ map (\<lambda>c. flagged_json c (claim_risk sf c))
              (filter (\<lambda>c. risk_score (claim_risk sf c) > 1/2) cs),
            total_risk + risk_score ?k + sum_list (map (\<lambda>c. risk_score (claim_risk sf c)) cs)), s')"
    "tdb s' = (tdb ?s2)\<lparr>claims := map (\<lambda>x. if x \<in> set cs then judged sf (tenv t) x else x)
         (claims (tdb ?s2))\<rparr>"
    by auto
  have m: "map (\<lambda>x. if x \<in> set cs then judged sf (tenv t) x else x) ?t1 =
      map (\<lambda>x. if x \<in> set (c # cs) then judged sf (tenv t) x else x) ?t"
  proof -
    have nc: "judged sf (tenv t) c \<notin> set cs"
    proof
      assume a: "judged sf (tenv t) c \<in> set cs"
      with Cons.prems(2) have "judged sf (tenv t) c \<in> set ?t" "c \<in> set ?t" by auto
      with Cons.prems(1) have "judged sf (tenv t) c = c" by (rule unique_idsD) simp
      with a Cons.prems(3) show False by simp
    qed
    then show ?thesis by simp
  qed
  show ?case
    using loop s' m t1 by (intro exI [of _ s']) simp
qed


definition run_claims :: "uuid \<Rightarrow> db \<Rightarrow> claim list" where
  "run_claims rid db = select_where (\<lambda>c. claim_run_id c = rid \<and> active c) (claims db)"

lemma risk_score_range: "0 \<le> risk_score (claim_risk sf c)" "risk_score (claim_risk sf c) \<le> 1"
  using claim_risk_bounds [of sf "claim_text c" "confidence_score c"]
  by (simp_all add: claim_risk_def)

lemma unique_run_claims:
  "unique_ids (claims db) \<Longrightarrow> distinct (run_claims rid db)"
  unfolding run_claims_def select_where_def unique_ids_def
  by (intro distinct_filter) (simp add: distinct_map)

definition mean_risk :: "(rat \<Rightarrow> string) \<Rightarrow> claim list \<Rightarrow> rat" where
  "mean_risk sf cs = sum_list (map (\<lambda>c. risk_score (claim_risk sf c)) cs) / of_nat (length cs)"

definition risky :: "(rat \<Rightarrow> string) \<Rightarrow> claim list \<Rightarrow> claim list" where
  "risky sf cs = filter (\<lambda>c. risk_score (claim_risk sf c) > 1/2) cs"

definition fabrication_result :: "(rat \<Rightarrow> string) \<Rightarrow> claim list \<Rightarrow> json \<Rightarrow> json" where
  "fabrication_result sf cs ccr =
     JObj [(''status'', JStr ''completed''),
       (''fabrication_risk'', JStr (risk_level (mean_risk sf cs))),
       (''average_risk_score'', JNum (py_round 4 (mean_risk sf cs))),
       (''total_claims_analyzed'', JNum (of_nat (length cs))),
       (''flagged_claims'', JNum (of_nat (length (risky sf cs)))),
       (''flagged'', JArr (take 10 (map (\<lambda>c. flagged_json c (claim_risk sf c)) (risky sf cs)))),
       (''cross_check_contradictions'',
        dict_get_default ccr ''contradictions_found'' (JNum 0))]"

text \<open>The result and the final state of a run with claims.\<close>

lemma detect_fabrication_eq:
  assumes "unique_ids (claims (tdb s))" "\<forall>c \<in> set (run_claims rid (tdb s)). evidence_is_object c"
    and ne: "run_claims rid (tdb s) \<noteq> []"
  shows "\<exists>s'. detect_fabrication sf t rid ccr s =
      (Inr (fabrication_result sf (run_claims rid (tdb s)) ccr), s')
    \<and> tdb s' = (tdb s)\<lparr>claims := map (\<lambda>x. if x \<in> set (run_claims rid (tdb s))
         then judged sf (tenv t) x else x) (claims (tdb s))\<rparr>"
proof -
  define cs where "cs = run_claims rid (tdb s)"
  define s2 where "s2 = update_progress t rid 30 (''Analyzing '' @ nat_str (length cs)
      @ '' claims for fabrication'')
    (update_progress t rid 10 ''Loading claims for fabrication analysis'' s)"
  have s2: "tdb s2 = tdb s" by (simp add: s2_def)
  have sub: "set cs \<subseteq> set (claims (tdb s2))"
    by (auto simp: cs_def run_claims_def select_where_def s2)
  have dist: "distinct cs" unfolding cs_def by (rule unique_run_claims [OF assms(1)])
  have uniq: "unique_ids (claims (tdb s2))" using assms(1) by (simp add: s2)
  have ev: "\<forall>c \<in> set cs. evidence_is_object c" using assms(2) by (simp add: cs_def)
  from fabrication_loop_correct [OF uniq sub dist ev, of sf t rid "length cs" 0 "[]" 0]
  obtain s' where l: "fabrication_loop sf t rid (length cs) 0 cs [] 0 s2 =
      (Inr (map (\<lambda>c. flagged_json c (claim_risk sf c)) (risky sf cs),
            sum_list (map (\<lambda>c. risk_score (claim_risk sf c)) cs)), s')"
    and d: "tdb s' = (tdb s2)\<lparr>claims := map (\<lambda>x. if x \<in> set cs then judged sf (tenv t) x else x)
         (claims (tdb s2))\<rparr>"
    unfolding risky_def by auto
  have cs': "select_where (\<lambda>c. claim_run_id c = rid \<and> active c) (claims (tdb s)) = cs"
    by (simp add: cs_def run_claims_def)
  have "detect_fabrication sf t rid ccr s = (Inr (fabrication_result sf cs ccr),
      update_progress t rid 95 ''Computing fabrication summary'' s')"
    using ne l by (simp add: detect_fabrication_def Let_def cs' s2_def
        fabrication_result_def mean_risk_def cs_def [symmetric])
  with d show ?thesis unfolding cs_def [symmetric] by (simp add: s2)
qed

lemma mean_risk_range: "0 \<le> mean_risk sf cs" "mean_risk sf cs \<le> 1"
  unfolding mean_risk_def by (rule mean_bounds; simp add: risk_score_range)+

subsection \<open>Properties\<close>

text \<open>C19: the verdicts of the fabrication step. Every claim of the run whose risk exceeds 0.5
  is marked, \<open>disputed\<close> above 0.7 and \<open>unverified\<close> up to there, with the risk added to
  its evidence; every other claim, of this run or another, and every other table keep
  their rows. The reported average lies between 0 and 1 and the count is that of the claims
  marked.
\<close>

theorem fabrication_verdicts:
  assumes "unique_ids (claims (tdb s))" "run_claims rid (tdb s) \<noteq> []"
    and "\<forall>c \<in> set (run_claims rid (tdb s)). evidence_is_object c"
  shows "\<exists>out s' avg. detect_fabrication sf t rid ccr s = (Inr out, s')
    \<and> json_get out ''average_risk_score'' = Some (JNum avg) \<and> 0 \<le> avg \<and> avg \<le> 1
    \<and> json_get out ''flagged_claims'' = Some (JNum (of_nat (length
         (filter (\<lambda>c. risk_score (claim_risk sf c) > 1/2) (run_claims rid (tdb s))))))
    \<and> tdb s' = (tdb s)\<lparr>claims := map (\<lambda>c. if claim_run_id c = rid \<and> active c
          \<and> risk_score (claim_risk sf c) > 1/2 then judged sf (tenv t) c else c) (claims (tdb s))\<rparr>
    \<and> (\<forall>c. risk_score (claim_risk sf c) > 1/2 \<longrightarrow> verification_status (judged sf (tenv t) c) =
         (if risk_score (claim_risk sf c) > 7/10 then ''disputed'' else ''unverified''))"
proof -
  let ?cs = "run_claims rid (tdb s)"
  obtain s' where s': "detect_fabrication sf t rid ccr s = (Inr (fabrication_result sf ?cs ccr), s')"
    "tdb s' = (tdb s)\<lparr>claims := map (\<lambda>x. if x \<in> set ?cs then judged sf (tenv t) x else x)
       (claims (tdb s))\<rparr>"
    using detect_fabrication_eq [OF assms(1,3,2)] by blast
  have m: "map (\<lambda>x. if x \<in> set ?cs then judged sf (tenv t) x else x) (claims (tdb s)) =
      map (\<lambda>c. if claim_run_id c = rid \<and> active c \<and> risk_score (claim_risk sf c) > 1/2
        then judged sf (tenv t) c else c) (claims (tdb s))"
    by (intro map_cong refl) (auto simp: run_claims_def select_where_def judged_def)
  have v: "verification_status (judged sf (tenv t) c) =
      (if risk_score (claim_risk sf c) > 7/10 then ''disputed'' else ''unverified'')"
    if "risk_score (claim_risk sf c) > 1/2" for c
    using that by (simp add: judged_def verdict_status_def touch_def)
  have j: "json_get (fabrication_result sf ?cs ccr) ''average_risk_score'' =
      Some (JNum (py_round 4 (mean_risk sf ?cs)))"
    "json_get (fabrication_result sf ?cs ccr) ''flagged_claims'' = Some (JNum (of_nat (length
         (filter (\<lambda>c. risk_score (claim_risk sf c) > 1/2) ?cs))))"
    by (simp_all add: fabrication_result_def risky_def)
  have r: "0 \<le> py_round 4 (mean_risk sf ?cs)" "py_round 4 (mean_risk sf ?cs) \<le> 1"
    by (simp_all add: mean_risk_range py_round_ge0 py_round_le1)
  show ?thesis
    by (intro exI conjI allI impI, rule s'(1), rule j(1), rule r(1), rule r(2), rule j(2),
        unfold s'(2) m, rule refl, rule v)
qed

subsection \<open>Witness\<close>

definition sample_claim :: "string \<Rightarrow> claim" where
  "sample_claim txt = \<lparr>ident = 30, created_at = 0, updated_at = 0, deleted_at = None,
     organization_id = 1, claim_run_id = 4, claim_submission_id = 3, claim_text = txt,
     category = ''market'', source_reference = None, confidence_score = 4/10,
     verification_status = ''unverified'', claim_evidence = empty_obj, claim_metadata = empty_obj\<rparr>"

theorem fabrication_verdicts_witness:
  "\<exists>out s'. detect_fabrication (\<lambda>q. []) sample_task 4 JNull
     (sample_tstate\<lparr>tdb := (sample_db UNDER_REVIEW RUNNING)\<lparr>claims := [sample_claim ''the only one'']\<rparr>\<rparr>)
     = (Inr out, s')"
proof -
  let ?s = "sample_tstate\<lparr>tdb := (sample_db UNDER_REVIEW RUNNING)\<lparr>claims := [sample_claim ''the only one'']\<rparr>\<rparr>"
  have "unique_ids (claims (tdb ?s))" "run_claims 4 (tdb ?s) \<noteq> []"
    "\<forall>c \<in> set (run_claims 4 (tdb ?s)). evidence_is_object c"
    by (simp_all add: run_claims_def select_where_def sample_claim_def evidence_is_object_def
        empty_obj_def)
  from fabrication_verdicts [OF this, of "\<lambda>q. []" sample_task JNull] show ?thesis by blast
qed

end
