(* ===== verification/LlmJudge.thy ===== *)
theory LlmJudge
  imports Fabrication Scoring
begin

section \<open>The LLM judge (\<open>workers/tasks/llm_judge.py\<close>)\<close>

text \<open>
  The third sequential step: it asks a primary model, then a backup model, for scores,
  falls back to synthetic scores when both fail or the answer does not validate, and stores
  one score per dimension. \<open>call\<close> is the call of a model (its answer and token usage,
  or an exception); the source contains a simulated one, \<open>call_llm\<close>. \<open>str_json\<close> is the
  text of a value inside a prompt and \<open>rnd\<close> the random variation of a dimension.
\<close>

definition PRIMARY_MODEL :: string where
  "PRIMARY_MODEL = ''gpt-4-turbo''"

definition BACKUP_MODEL :: string where
  "BACKUP_MODEL = ''gpt-3.5-turbo''"

definition DIMENSION_WEIGHTS :: "(string \<times> rat) list" where
  "DIMENSION_WEIGHTS = [(''market_opportunity'', 2/10), (''team_strength'', 2/10),
     (''product_viability'', 2/10), (''financial_health'', 15/100), (''traction'', 15/100),
     (''overall'', 1/10)]"

subsection \<open>The prompt and the simulated model\<close>

definition newline :: char where
  "newline = CHR 0x0A"

definition claims_text :: "(json \<Rightarrow> string) \<Rightarrow> claim list \<Rightarrow> string" where
  "claims_text str_json cs =
     join_with [newline] (map (\<lambda>c. ''- ['' @ category c @ ''] '' @ claim_text c
       @ '' (confidence: '' @ str_json (JNum (confidence_score c)) @ '')'') (take 50 cs))"

definition contradictions_text :: "(json \<Rightarrow> string) \<Rightarrow> contradiction list \<Rightarrow> string" where
  "contradictions_text str_json ks =
     join_with [newline] (map (\<lambda>k. ''- '' @ explanation k @ '' (severity: ''
       @ str_json (JNum (severity k)) @ '')'') (take 20 ks))"

definition or_text :: "string \<Rightarrow> string \<Rightarrow> string" where
  "or_text s d = (if s = [] then d else s)"

definition build_prompt :: "(json \<Rightarrow> string) \<Rightarrow> claim list \<Rightarrow> contradiction list \<Rightarrow> json \<Rightarrow> string" where
  "build_prompt str_json cs ks fab =
     ''You are an expert startup evaluator. Analyze the following data and provide scores.''
     @ [newline, newline] @ ''EXTRACTED CLAIMS:'' @ [newline]
     @ or_text (claims_text str_json cs) ''No claims extracted.''
     @ [newline, newline] @ ''DETECTED CONTRADICTIONS:'' @ [newline]
     @ or_text (contradictions_text str_json ks) ''No contradictions detected.''
     @ [newline, newline] @ ''FABRICATION ANALYSIS:'' @ [newline]
     @ ''Fabrication risk: '' @ str_json (dict_get_default fab ''fabrication_risk'' (JStr ''unknown''))
     @ [newline] @ ''Flagged claims: '' @ str_json (dict_get_default fab ''flagged_claims'' (JNum 0))
     @ [newline, newline] @ ''Score each dimension from 0.0 to 1.0 with a rationale.'' @ [newline]
     @ ''Respond with valid JSON matching the required schema.''"

definition dim_score :: "rat \<Rightarrow> string \<Rightarrow> json" where
  "dim_score v why = JObj [(''value'', JNum v), (''rationale'', JStr why)]"

definition simulated_response :: json where
  "simulated_response = JObj
    [(''scores'', JObj
       [(''market_opportunity'', dim_score (72/100) ''Large addressable market with growing demand''),
        (''team_strength'', dim_score (65/100) ''Experienced founders with relevant domain expertise''),
        (''product_viability'', dim_score (78/100) ''Strong technical foundation with clear differentiation''),
        (''financial_health'', dim_score (55/100) ''Early stage with limited revenue data''),
        (''traction'', dim_score (60/100) ''Moderate user growth with positive engagement metrics''),
        (''overall'', dim_score (68/100) ''Promising startup with room for growth'')]),
     (''overall_assessment'',
      JStr ''A promising early-stage startup with strong technical foundations.''),
     (''key_strengths'', JArr [JStr ''Strong product differentiation'', JStr ''Experienced technical team'']),
     (''key_risks'', JArr [JStr ''Limited revenue traction'', JStr ''Competitive market landscape''])]"

definition usage_json :: "rat \<Rightarrow> rat \<Rightarrow> rat \<Rightarrow> json" where
  "usage_json p c n = JObj [(''prompt_tokens'', JNum p), (''completion_tokens'', JNum c),
     (''total_tokens'', JNum n)]"

definition call_llm :: "string \<Rightarrow> string \<Rightarrow> exn + json \<times> json" where
  "call_llm prompt model =
     (let n = of_nat (count_words False prompt) * 2
      in Inr (simulated_response, usage_json n 500 (n + 500)))"

definition llm_cache_key :: "(string \<Rightarrow> string) \<Rightarrow> string \<Rightarrow> string \<Rightarrow> string" where
  "llm_cache_key sha256 prompt model = ''llm:'' @ sha256 prompt @ '':'' @ model"

subsection \<open>Validation and synthetic scores\<close>

definition valid_dim :: "json \<Rightarrow> string \<Rightarrow> bool" where
  "valid_dim scrs dmn =
     (case json_get scrs dmn of
        Some (JObj kvs) \<Rightarrow>
          (case map_of kvs ''value'' of
             None \<Rightarrow> False
           | Some v \<Rightarrow> (case number_of v of None \<Rightarrow> False | Some q \<Rightarrow> \<not> (q < 0 \<or> q > 1)))
      | _ \<Rightarrow> False)"

definition validate_llm_output :: "json \<Rightarrow> json option" where
  "validate_llm_output output =
     (case json_get output ''scores'' of
        None \<Rightarrow> None
      | Some scrs \<Rightarrow> if list_all (\<lambda>(d, _). valid_dim scrs d) DIMENSION_WEIGHTS
                     then Some output else None)"

definition avg_confidence :: "claim list \<Rightarrow> rat" where
  "avg_confidence cs = (if cs \<noteq> [] then sum_list (map confidence_score cs) / of_nat (length cs) else 1/2)"

definition base_synthetic :: "claim list \<Rightarrow> contradiction list \<Rightarrow> rat \<Rightarrow> rat" where
  "base_synthetic cs ks fab_risk =
     max (1/10) (avg_confidence cs - min (3/10) (of_nat (length ks) * (5/100)) - fab_risk * (2/10))"

fun synthetic_dims :: "(nat \<Rightarrow> rat) \<Rightarrow> nat \<Rightarrow> rat \<Rightarrow> string \<Rightarrow> (string \<times> rat) list \<Rightarrow> (string \<times> json) list" where
  "synthetic_dims rnd k base why [] = []"
| "synthetic_dims rnd k base why ((d, _) # ds) =
     (d, dim_score (py_round 4 (clamp01 (base + rnd k))) why) # synthetic_dims rnd (Suc k) base why ds"

definition generate_synthetic_scores :: "(nat \<Rightarrow> rat) \<Rightarrow> claim list \<Rightarrow> contradiction list \<Rightarrow> json
    \<Rightarrow> exn + json" where
  "generate_synthetic_scores rnd cs ks fab =
     (case number_of (dict_get_default fab ''average_risk_score'' (JNum 0)) of
        None \<Rightarrow> Inl (TypeError ''fab_risk'')
      | Some fab_risk \<Rightarrow> Inr (JObj
          [(''scores'', JObj (synthetic_dims rnd 0 (base_synthetic cs ks fab_risk)
              (''Synthetic score based on '' @ nat_str (length cs) @ '' claims'') DIMENSION_WEIGHTS)),
           (''overall_assessment'', JStr ''Score generated from analytical data (LLM unavailable)''),
           (''key_strengths'', JArr []),
           (''key_risks'', JArr [JStr ''LLM evaluation unavailable - synthetic scores used''])]))"

subsection \<open>Cost\<close>

definition rates :: "(string \<times> rat \<times> rat) list" where
  "rates = [(''gpt-4-turbo'', 1/100000, 3/100000), (''gpt-3.5-turbo'', 5/10000000, 15/10000000),
     (''synthetic'', 0, 0)]"

definition rate_of :: "string \<Rightarrow> rat \<times> rat" where
  "rate_of model = (case map_of rates model of Some r \<Rightarrow> r | None \<Rightarrow> (5/10000000, 15/10000000))"

definition estimate_cost :: "json \<Rightarrow> string \<Rightarrow> exn + rat" where
  "estimate_cost usage model =
     (case (number_of (dict_get_default usage ''prompt_tokens'' (JNum 0)),
            number_of (dict_get_default usage ''completion_tokens'' (JNum 0))) of
        (Some p, Some c) \<Rightarrow>
          Inr (py_round 6 (p * fst (rate_of model) + c * snd (rate_of model)))
      | _ \<Rightarrow> Inl (TypeError ''tokens''))"

subsection \<open>The task\<close>

text \<open>Step 3 and 4: the answer that is used, the token usage and the name of the model.\<close>

definition ask_models :: "(string \<Rightarrow> string \<Rightarrow> exn + json \<times> json) \<Rightarrow> string \<Rightarrow> exn + json
    \<Rightarrow> exn + json \<times> json \<times> string" where
  "ask_models call prompt synthetic =
     (case call prompt PRIMARY_MODEL of
        Inr (out, usage) \<Rightarrow> Inr (out, usage, PRIMARY_MODEL)
      | Inl _ \<Rightarrow>
        (case call prompt BACKUP_MODEL of
           Inr (out, usage) \<Rightarrow> Inr (out, usage, BACKUP_MODEL)
         | Inl _ \<Rightarrow>
           (case synthetic of Inl e \<Rightarrow> Inl e
            | Inr out \<Rightarrow> Inr (out, usage_json 0 0 0, ''synthetic''))))"

definition validated_answer :: "exn + json \<Rightarrow> json \<times> json \<times> string \<Rightarrow> exn + json \<times> json \<times> string" where
  "validated_answer synthetic a =
     (case a of (out, usage, model) \<Rightarrow>
        (case validate_llm_output out of
           Some v \<Rightarrow> Inr (v, usage, model)
         | None \<Rightarrow> (case synthetic of Inl e \<Rightarrow> Inl e
                     | Inr v \<Rightarrow> Inr (v, usage, model @ ''_fallback''))))"

definition new_score :: "env \<Rightarrow> uuid \<Rightarrow> evaluation_run \<Rightarrow> json \<Rightarrow> json \<Rightarrow> string
    \<Rightarrow> string \<times> rat \<Rightarrow> exn + score" where
  "new_score env i r scrs usage model dw =
     (let dim_data = dict_get_default scrs (fst dw) empty_obj
      in case float_column (dict_get_default dim_data ''value'' (JNum (1/2))) of
           Inl e \<Rightarrow> Inl e
         | Inr v \<Rightarrow>
           (case text_column_opt (dict_get_default dim_data ''rationale'' (JStr [])) of
              Inl e \<Rightarrow> Inl e
            | Inr why \<Rightarrow> Inr \<lparr>ident = i, created_at = now env, updated_at = now env,
                deleted_at = None, organization_id = organization_id r, score_run_id = ident r,
                dimension = fst dw, score_value = v, weight = snd dw, rationale = why,
                breakdown = JObj [(''model_used'', JStr model), (''token_usage'', usage)]\<rparr>))"

fun new_scores :: "env \<Rightarrow> (nat \<Rightarrow> uuid) \<Rightarrow> nat \<Rightarrow> evaluation_run \<Rightarrow> json \<Rightarrow> json \<Rightarrow> string
    \<Rightarrow> (string \<times> rat) list \<Rightarrow> exn + score list" where
  "new_scores env gen k r scrs usage model [] = Inr []"
| "new_scores env gen k r scrs usage model (dw # dws) =
     (case new_score env (gen k) r scrs usage model dw of
        Inl e \<Rightarrow> Inl e
      | Inr x \<Rightarrow> (case new_scores env gen (Suc k) r scrs usage model dws of
                    Inl e \<Rightarrow> Inl e | Inr xs \<Rightarrow> Inr (x # xs)))"

definition store_scores :: "env \<Rightarrow> (nat \<Rightarrow> uuid) \<Rightarrow> evaluation_run \<Rightarrow> json \<Rightarrow> json \<Rightarrow> string \<Rightarrow> db
    \<Rightarrow> (db, unit) outcome" where
  "store_scores env gen r validated usage model db =
     (case json_get validated ''scores'' of
        None \<Rightarrow> (Inl (KeyError ''scores''), db)
      | Some scrs \<Rightarrow>
        (case new_scores env gen 0 r scrs usage model DIMENSION_WEIGHTS of
           Inl e \<Rightarrow> (Inl e, db)
         | Inr xs \<Rightarrow>
           (case insert_scores xs (scores db) of
              Inl e \<Rightarrow> (Inl e, db)
            | Inr t \<Rightarrow> (Inr (), db\<lparr>scores := t\<rparr>))))"

definition log_usage :: "env \<Rightarrow> evaluation_run \<Rightarrow> json \<Rightarrow> string \<Rightarrow> rat \<Rightarrow> db \<Rightarrow> (db, unit) outcome" where
  "log_usage env r usage model cost db =
     (Inr (), audit_repo_create env A_SCORE_RECORDED ''evaluation_run'' (Some (ident r))
        (Some (organization_id r)) None None None None
        (Some (JObj [(''model_used'', JStr model), (''token_usage'', usage),
           (''estimated_cost_usd'', JNum cost)])) ''success'' None db)"

definition judge_result :: "json \<Rightarrow> json \<Rightarrow> string \<Rightarrow> rat \<Rightarrow> json" where
  "judge_result validated usage model cost =
     JObj [(''status'', JStr ''completed''), (''model_used'', JStr model), (''token_usage'', usage),
       (''estimated_cost_usd'', JNum cost),
       (''scores'', dict_get_default validated ''scores'' JNull),
       (''overall_assessment'', dict_get_default validated ''overall_assessment'' (JStr [])),
       (''key_strengths'', dict_get_default validated ''key_strengths'' (JArr [])),
       (''key_risks'', dict_get_default validated ''key_risks'' (JArr []))]"

definition run_llm_judge :: "(json \<Rightarrow> string) \<Rightarrow> (string \<Rightarrow> string \<Rightarrow> exn + json \<times> json)
    \<Rightarrow> (nat \<Rightarrow> rat) \<Rightarrow> task \<Rightarrow> (nat \<Rightarrow> uuid) \<Rightarrow> uuid \<Rightarrow> json \<Rightarrow> tstate \<Rightarrow> (tstate, json) outcome" where
  "run_llm_judge str_json call rnd t gen rid fab s =
     (let s1 = update_progress t rid 10 ''Building evaluation context'' s;
          cs = select_where (\<lambda>c. claim_run_id c = rid \<and> active c) (claims (tdb s1));
          ks = select_where (\<lambda>k. con_run_id k = rid \<and> active k) (contradictions (tdb s1))
      in case scalar_one (select_where (\<lambda>r. ident r = rid) (runs (tdb s1))) of
           Inl e \<Rightarrow> (Inl e, s1)
         | Inr r \<Rightarrow>
           (let s2 = update_progress t rid 40 ''Calling primary LLM model''
                  (update_progress t rid 20 ''Constructing LLM prompt'' s1);
                prompt = build_prompt str_json cs ks fab;
                synthetic = generate_synthetic_scores rnd cs ks fab;
                s3 = (if is_ok (call prompt PRIMARY_MODEL) then s2
                      else update_progress t rid 50 ''Primary model failed, trying backup'' s2)
            in case ask_models call prompt synthetic of
                 Inl e \<Rightarrow> (Inl e, s3)
               | Inr a \<Rightarrow>
                 (let s4 = update_progress t rid 70 ''Validating LLM output'' s3
                  in case validated_answer synthetic a of
                       Inl e \<Rightarrow> (Inl e, s4)
                     | Inr (v, usage, model) \<Rightarrow>
                       (let s5 = update_progress t rid 80 ''Storing scores in database'' s4
                        in case db_session (store_scores (tenv t) gen r v usage model) s5 of
                             (Inl e, s6) \<Rightarrow> (Inl e, s6)
                           | (Inr _, s6) \<Rightarrow>
                             (let s7 = update_progress t rid 90 ''Logging token usage for billing'' s6
                              in case estimate_cost usage model of
                                   Inl e \<Rightarrow> (Inl e, s7)
                                 | Inr cost \<Rightarrow>
                                   (case db_session (log_usage (tenv t) r usage model cost) s7 of
                                      (Inl e, s8) \<Rightarrow> (Inl e, s8)
                                    | (Inr _, s8) \<Rightarrow> (Inr (judge_result v usage model cost), s8)))))))"

definition llm_judge_task :: "(json \<Rightarrow> string) \<Rightarrow> (string \<Rightarrow> string \<Rightarrow> exn + json \<times> json)
    \<Rightarrow> (nat \<Rightarrow> rat) \<Rightarrow> task \<Rightarrow> (nat \<Rightarrow> uuid) \<Rightarrow> json \<Rightarrow> uuid \<Rightarrow> tstate \<Rightarrow> (tstate, json) outcome" where
  "llm_judge_task str_json call rnd t gen fab rid s =
     run_llm_judge str_json call rnd (t\<lparr>wtype := ''llm_judge''\<rparr>) gen rid fab s"

subsection \<open>Library\<close>

definition answer_valid :: "json \<Rightarrow> bool" where
  "answer_valid v \<longleftrightarrow> (\<exists>scrs. json_get v ''scores'' = Some scrs \<and>
     list_all (\<lambda>(d, _). valid_dim scrs d) DIMENSION_WEIGHTS)"

lemma validate_Some: "validate_llm_output out = Some v \<Longrightarrow> v = out \<and> answer_valid v"
  by (auto simp: validate_llm_output_def answer_valid_def split: option.splits if_splits)

lemma valid_dim_score:
  "valid_dim (JObj ((d, dim_score (py_round 4 (clamp01 q)) why) # kvs)) d"
  "d' \<noteq> d \<Longrightarrow> valid_dim (JObj ((d', j) # kvs)) d = valid_dim (JObj kvs) d"
  by (simp_all add: valid_dim_def dim_score_def not_less py_round_ge0 py_round_le1)

lemma synthetic_valid: "generate_synthetic_scores rnd cs ks fab = Inr v \<Longrightarrow> answer_valid v"
  by (auto simp: generate_synthetic_scores_def answer_valid_def DIMENSION_WEIGHTS_def valid_dim_score
      split: option.splits)

lemma validated_answer_valid: "validated_answer (generate_synthetic_scores rnd cs ks fab) a =
    Inr (v, usage, model) \<Longrightarrow> answer_valid v"
  by (auto simp: validated_answer_def split: prod.splits option.splits sum.splits
      dest: validate_Some synthetic_valid)

lemma float_number: "number_of j = Some q \<Longrightarrow> float_column j = Inr q"
  by (cases j) auto

lemma new_score_fields:
  "new_score env i r scrs usage model dw = Inr x \<Longrightarrow> ident x = i \<and> active x
     \<and> score_run_id x = ident r \<and> organization_id x = organization_id r
     \<and> dimension x = fst dw \<and> weight x = snd dw"
  by (auto simp: new_score_def Let_def split: sum.splits)

lemma new_score_range:
  assumes "new_score env i r scrs usage model dw = Inr x" "valid_dim scrs (fst dw)"
  shows "0 \<le> score_value x \<and> score_value x \<le> 1"
proof -
  from assms(2) obtain kvs v q where v: "json_get scrs (fst dw) = Some (JObj kvs)"
    "map_of kvs ''value'' = Some v" "number_of v = Some q" "\<not> (q < 0 \<or> q > 1)"
    by (auto simp: valid_dim_def split: option.splits json.splits)
  with assms(1) float_number [OF v(3)] show ?thesis
    by (auto simp: new_score_def dict_get_default_def Let_def split: sum.splits)
qed

lemma new_scores_fields:
  "new_scores env gen k r scrs usage model dws = Inr xs \<Longrightarrow>
     map (\<lambda>x. (dimension x, weight x)) xs = dws \<and>
     (\<forall>x \<in> set xs. active x \<and> score_run_id x = ident r \<and> organization_id x = organization_id r)
     \<and> (list_all (\<lambda>(d, _). valid_dim scrs d) dws \<longrightarrow>
         (\<forall>x \<in> set xs. 0 \<le> score_value x \<and> score_value x \<le> 1))"
proof (induction dws arbitrary: k xs)
  case (Cons dw dws)
  then obtain x ys where x: "new_score env (gen k) r scrs usage model dw = Inr x"
    and ys: "new_scores env gen (Suc k) r scrs usage model dws = Inr ys" "xs = x # ys"
    by (auto split: sum.splits)
  from new_score_fields [OF x] new_score_range [OF x] Cons.IH [OF ys(1)] ys(2)
  show ?case by (cases dw) auto
qed simp

lemma db_session_okD: "db_session h s = (Inr x, s') \<Longrightarrow>
    h (tdb s) = (Inr x, tdb s') \<and> s' = s\<lparr>tdb := tdb s'\<rparr>"
  by (auto simp: db_session_def in_session_def split: sum.splits prod.splits)

lemma db_session_errD: "db_session h s = (Inl e, s') \<Longrightarrow> s' = s"
  by (auto simp: db_session_def in_session_def split: sum.splits prod.splits)

lemma store_scores_okD:
  assumes "store_scores env gen r v usage model db = (Inr u, db')"
  obtains scrs xs t where "json_get v ''scores'' = Some scrs"
    "new_scores env gen 0 r scrs usage model DIMENSION_WEIGHTS = Inr xs"
    "insert_scores xs (scores db) = Inr t" "db' = db\<lparr>scores := t\<rparr>"
  using assms by (auto simp: store_scores_def split: option.splits sum.splits)

text \<open>The steps of a judge that returned.\<close>

lemma run_llm_judge_okD:
  assumes "run_llm_judge str_json call rnd t gen rid fab s = (Inr out, s')"
  obtains r v usage model u d1 cost where
    "filter (\<lambda>r. ident r = rid) (runs (tdb s)) = [r]" "answer_valid v"
    "store_scores (tenv t) gen r v usage model (tdb s) = (Inr u, d1)"
    "estimate_cost usage model = Inr cost"
    "tdb s' = snd (log_usage (tenv t) r usage model cost d1)"
    "out = judge_result v usage model cost"
proof -
  define cs where "cs = select_where (\<lambda>c. claim_run_id c = rid \<and> active c) (claims (tdb s))"
  define ks where "ks = select_where (\<lambda>k. con_run_id k = rid \<and> active k) (contradictions (tdb s))"
  define prompt where "prompt = build_prompt str_json cs ks fab"
  define syn where "syn = generate_synthetic_scores rnd cs ks fab"
  obtain r where r: "filter (\<lambda>r. ident r = rid) (runs (tdb s)) = [r]"
    using assms by (cases "scalar_one (filter (\<lambda>r. ident r = rid) (runs (tdb s)))")
      (auto simp: run_llm_judge_def select_where_def Let_def)
  obtain a where a: "ask_models call prompt syn = Inr a"
    using assms r by (cases "ask_models call prompt syn")
      (simp_all add: run_llm_judge_def select_where_def Let_def prompt_def syn_def cs_def ks_def)
  obtain v usage model where v: "validated_answer syn a = Inr (v, usage, model)"
    using assms r a by (cases "validated_answer syn a")
      (auto simp: run_llm_judge_def select_where_def Let_def prompt_def syn_def cs_def ks_def)
  define s5 where "s5 = update_progress t rid 80 ''Storing scores in database''
     (update_progress t rid 70 ''Validating LLM output''
       (if is_ok (call prompt PRIMARY_MODEL)
        then update_progress t rid 40 ''Calling primary LLM model''
               (update_progress t rid 20 ''Constructing LLM prompt''
                 (update_progress t rid 10 ''Building evaluation context'' s))
        else update_progress t rid 50 ''Primary model failed, trying backup''
              (update_progress t rid 40 ''Calling primary LLM model''
               (update_progress t rid 20 ''Constructing LLM prompt''
                 (update_progress t rid 10 ''Building evaluation context'' s)))))"
  have s5: "tdb s5 = tdb s" by (simp add: s5_def)
  obtain u s6 where st: "db_session (store_scores (tenv t) gen r v usage model) s5 = (Inr u, s6)"
    and rest: "(case estimate_cost usage model of
        Inl e \<Rightarrow> (Inl e, update_progress t rid 90 ''Logging token usage for billing'' s6)
      | Inr cost \<Rightarrow>
        (case db_session (log_usage (tenv t) r usage model cost)
               (update_progress t rid 90 ''Logging token usage for billing'' s6) of
           (Inl e, s8) \<Rightarrow> (Inl e, s8)
         | (Inr _, s8) \<Rightarrow> (Inr (judge_result v usage model cost), s8))) = (Inr out, s')"
    using assms r a v
    by (cases "db_session (store_scores (tenv t) gen r v usage model) s5";
        cases "fst (db_session (store_scores (tenv t) gen r v usage model) s5)")
      (simp_all add: run_llm_judge_def select_where_def Let_def prompt_def syn_def cs_def ks_def s5_def)
  from rest obtain cost s8 u' where c: "estimate_cost usage model = Inr cost"
    and lg: "db_session (log_usage (tenv t) r usage model cost)
        (update_progress t rid 90 ''Logging token usage for billing'' s6) = (Inr u', s8)"
    and o: "out = judge_result v usage model cost" "s' = s8"
    by (auto split: sum.splits prod.splits)
  from db_session_okD [OF st] s5
  have "store_scores (tenv t) gen r v usage model (tdb s) = (Inr u, tdb s6)" by simp
  moreover from db_session_okD [OF lg]
  have "tdb s' = snd (log_usage (tenv t) r usage model cost (tdb s6))" by (simp add: o(2))
  moreover have "answer_valid v" using v unfolding syn_def by (rule validated_answer_valid)
  ultimately show ?thesis using r c o(1) by (intro that)
qed

lemma log_usage_scores [simp]: "scores (snd (log_usage env r usage model cost db)) = scores db"
  by (simp add: log_usage_def)

subsection \<open>Properties\<close>

text \<open>C11: whatever the models answer, a judge that returns has stored exactly one score for each
  of the six dimensions, with its weight, for the run and its organization; every value lies
  between 0 and 1, the weights add up to 1 and the table keeps its checks.
\<close>

theorem judge_stores_valid_scores:
  assumes "run_llm_judge str_json call rnd t gen rid fab s = (Inr out, s')"
    and "scores_ok (scores (tdb s))"
  shows "\<exists>new. scores (tdb s') = scores (tdb s) @ new
    \<and> map (\<lambda>x. (dimension x, weight x)) new = DIMENSION_WEIGHTS
    \<and> (\<forall>x \<in> set new. score_run_id x = rid \<and> active x \<and> 0 \<le> score_value x \<and> score_value x \<le> 1)
    \<and> sum_list (map weight new) = 1 \<and> scores_ok (scores (tdb s'))"
proof -
  from assms(1) obtain r v usage model u d1 cost where
    r: "filter (\<lambda>r. ident r = rid) (runs (tdb s)) = [r]" and v: "answer_valid v"
    and st: "store_scores (tenv t) gen r v usage model (tdb s) = (Inr u, d1)"
    and d: "tdb s' = snd (log_usage (tenv t) r usage model cost d1)"
    by (rule run_llm_judge_okD)
  from st obtain scrs xs ts where x: "json_get v ''scores'' = Some scrs"
    "new_scores (tenv t) gen 0 r scrs usage model DIMENSION_WEIGHTS = Inr xs"
    and i: "insert_scores xs (scores (tdb s)) = Inr ts" "d1 = (tdb s)\<lparr>scores := ts\<rparr>"
    by (rule store_scores_okD)
  from v x(1) have "list_all (\<lambda>(d, _). valid_dim scrs d) DIMENSION_WEIGHTS"
    by (auto simp: answer_valid_def)
  with new_scores_fields [OF x(2)]
  have f: "map (\<lambda>x. (dimension x, weight x)) xs = DIMENSION_WEIGHTS"
    "\<forall>x \<in> set xs. active x \<and> score_run_id x = ident r"
    "\<forall>x \<in> set xs. 0 \<le> score_value x \<and> score_value x \<le> 1" by auto
  have "map weight xs = map snd (map (\<lambda>x. (dimension x, weight x)) xs)" by simp
  then have "sum_list (map weight xs) = 1"
    unfolding f(1) by (simp add: DIMENSION_WEIGHTS_def)
  moreover have "ident r = rid" using filter_singletonD [OF r] by simp
  moreover have "scores (tdb s') = ts" by (simp add: d i(2))
  ultimately show ?thesis
    using insert_scores_ok [OF assms(2) i(1)] f by auto
qed

text \<open>A judge that has stored its scores can never be repeated. Celery retries the task up to
  three times, and a failure after the scores were committed (while the usage is logged) or a
  redelivery starts it again; every further execution for that run hits the unique index of
  the table, raises and stores nothing.
\<close>

theorem judge_rerun_always_fails:
  assumes "x \<in> set (scores (tdb s))" "active x" "score_run_id x = rid"
    and "dimension x \<in> fst ` set DIMENSION_WEIGHTS"
  shows "\<exists>e s'. run_llm_judge str_json call rnd t gen rid fab s = (Inl e, s') \<and> tdb s' = tdb s"
proof -
  have st: "\<exists>e. db_session (store_scores (tenv t) gen r v usage model) s5 = (Inl e, s5)"
    if "tdb s5 = tdb s" "ident r = rid" for r v usage model s5
  proof (cases "db_session (store_scores (tenv t) gen r v usage model) s5")
    case (Pair res s6)
    show ?thesis
    proof (cases res)
      case (Inl e)
      with Pair db_session_errD show ?thesis by fastforce
    next
      case (Inr u)
      from db_session_okD [OF Pair [unfolded Inr]] that(1)
      have "store_scores (tenv t) gen r v usage model (tdb s) = (Inr u, tdb s6)" by simp
      then obtain scrs xs ts where
        n: "new_scores (tenv t) gen 0 r scrs usage model DIMENSION_WEIGHTS = Inr xs"
        and i: "insert_scores xs (scores (tdb s)) = Inr ts"
        by (rule store_scores_okD)
      from new_scores_fields [OF n] have f: "map (\<lambda>x. (dimension x, weight x)) xs = DIMENSION_WEIGHTS"
        "\<forall>x \<in> set xs. active x \<and> score_run_id x = ident r" by auto
      from assms(4) have "dimension x \<in> set (map fst (map (\<lambda>x. (dimension x, weight x)) xs))"
        by (simp add: f(1))
      then obtain y where y: "y \<in> set xs" "dimension y = dimension x" by auto
      from insert_scores_conflict [OF assms(1,2) y(1)] f(2) y assms(3) that(2) i show ?thesis by auto
    qed
  qed
  show ?thesis
  proof (cases "scalar_one (filter (\<lambda>r. ident r = rid) (runs (tdb s)))")
    case (Inl e)
    then show ?thesis by (simp add: run_llm_judge_def select_where_def Let_def)
  next
    case (Inr r)
    then have r: "ident r = rid" by (auto dest: filter_singletonD)
    define E where "E v usage model s5 =
      projl (fst (db_session (store_scores (tenv t) gen r v usage model) s5))" for v usage model s5
    have E: "db_session (store_scores (tenv t) gen r v usage model) s5 = (Inl (E v usage model s5), s5)"
      if "tdb s5 = tdb s" for v usage model s5
      using st [OF that r, of v usage model] by (auto simp: E_def)
    show ?thesis
      using Inr by (auto simp: run_llm_judge_def select_where_def Let_def E split: sum.splits)
  qed
qed

text \<open>
  The cost of an answer that did not validate is underestimated. The name of the model
  then ends in \<open>_fallback\<close>, which the price list does not have, so that tokens of the
  primary model are billed at the price of the backup model; prices are otherwise those of
  the model that answered and never negative for non-negative counts.
\<close>

theorem fallback_cost_underestimated:
  assumes "0 \<le> p" "0 \<le> c"
  shows "estimate_cost (usage_json p c n) (PRIMARY_MODEL @ ''_fallback'') =
      estimate_cost (usage_json p c n) BACKUP_MODEL
    \<and> estimate_cost (usage_json p c n) PRIMARY_MODEL = Inr (py_round 6 ((p + 3 * c) / 100000))
    \<and> (\<exists>q. estimate_cost (usage_json p c n) model = Inr q \<and> 0 \<le> q)
    \<and> (\<forall>q q'. estimate_cost (usage_json p c n) (PRIMARY_MODEL @ ''_fallback'') = Inr q \<and>
         estimate_cost (usage_json p c n) PRIMARY_MODEL = Inr q' \<longrightarrow> q \<le> q')"
proof -
  have e: "estimate_cost (usage_json p c n) m =
      Inr (py_round 6 (p * fst (rate_of m) + c * snd (rate_of m)))" for m
    by (simp add: estimate_cost_def usage_json_def dict_get_default_def)
  have f: "rate_of (PRIMARY_MODEL @ ''_fallback'') = (5/10000000, 15/10000000)"
    "rate_of BACKUP_MODEL = (5/10000000, 15/10000000)" "rate_of PRIMARY_MODEL = (1/100000, 3/100000)"
    by (simp_all add: rate_of_def rates_def PRIMARY_MODEL_def BACKUP_MODEL_def)
  have nn: "0 \<le> fst (rate_of m) \<and> 0 \<le> snd (rate_of m)" for m
    by (auto simp: rate_of_def rates_def split: option.splits if_splits)
  have "py_round 6 (p * (5/10000000) + c * (15/10000000)) \<le> py_round 6 (p * (1/100000) + c * (3/100000))"
    using assms by (intro py_round_mono add_mono mult_left_mono) simp_all
  moreover have "0 \<le> py_round 6 (p * fst (rate_of model) + c * snd (rate_of model))"
    using assms nn [of model] by (intro py_round_ge0 add_nonneg_nonneg mult_nonneg_nonneg) auto
  ultimately show ?thesis by (simp add: e f field_simps)
qed

subsection \<open>Witnesses\<close>

lemma simulated_valid: "validate_llm_output simulated_response = Some simulated_response"
  by (simp add: validate_llm_output_def simulated_response_def DIMENSION_WEIGHTS_def valid_dim_def
      dim_score_def)

definition sample_judge :: "(string \<Rightarrow> string \<Rightarrow> exn + json \<times> json) \<Rightarrow> tstate \<Rightarrow> (tstate, json) outcome" where
  "sample_judge call = run_llm_judge (\<lambda>_. []) call (\<lambda>_. 0) sample_task (\<lambda>k. 50 + k) 4 empty_obj"

lemma sample_judge_ok: "is_ok (fst (sample_judge call_llm sample_tstate))"
  by (simp add: sample_judge_def run_llm_judge_def sample_tstate_def sample_run_def select_where_def
      call_llm_def ask_models_def validated_answer_def simulated_valid Let_def)
    (simp add: db_session_def in_session_def store_scores_def simulated_response_def DIMENSION_WEIGHTS_def
      new_score_def dict_get_default_def dim_score_def insert_score_def ck_scores_range_def insert_row_def
      estimate_cost_def usage_json_def log_usage_def)

theorem judge_stores_valid_scores_witness:
  "\<exists>out s'. sample_judge call_llm sample_tstate = (Inr out, s') \<and> length (scores (tdb s')) = 6"
proof -
  obtain out s' where j: "run_llm_judge (\<lambda>_. []) call_llm (\<lambda>_. 0) sample_task (\<lambda>k. 50 + k) 4
      empty_obj sample_tstate = (Inr out, s')"
    using sample_judge_ok unfolding sample_judge_def
    by (metis is_ok_iff prod.collapse)
  have "scores (tdb sample_tstate) = []" by (simp add: sample_tstate_def)
  moreover have "scores_ok []" by (simp add: scores_ok_def uq_scores_run_dimension_def)
  ultimately obtain new where n: "scores (tdb s') = new"
    "map (\<lambda>x. (dimension x, weight x)) new = DIMENSION_WEIGHTS"
    using judge_stores_valid_scores [OF j] by auto
  from arg_cong [OF n(2), of length] have "length new = 6" by (simp add: DIMENSION_WEIGHTS_def)
  with j n(1) show ?thesis unfolding sample_judge_def by blast
qed

theorem judge_rerun_always_fails_witness:
  "\<exists>e s'. sample_judge call_llm (sample_tstate\<lparr>tdb := (sample_db UNDER_REVIEW RUNNING)
     \<lparr>scores := [sample_score ''overall'' (1/2) (1/10)]\<rparr>\<rparr>) = (Inl e, s')"
proof -
  let ?x = "sample_score ''overall'' (1/2) (1/10)"
  let ?s = "sample_tstate\<lparr>tdb := (sample_db UNDER_REVIEW RUNNING)\<lparr>scores := [?x]\<rparr>\<rparr>"
  have "?x \<in> set (scores (tdb ?s))" "active ?x" "score_run_id ?x = 4"
    "dimension ?x \<in> fst ` set DIMENSION_WEIGHTS"
    by (simp_all add: sample_score_def DIMENSION_WEIGHTS_def)
  from judge_rerun_always_fails [OF this, of "\<lambda>_. []" call_llm "\<lambda>_. 0" sample_task
      "\<lambda>k. 50 + k" empty_obj]
  show ?thesis unfolding sample_judge_def by blast
qed

theorem fallback_cost_underestimated_witness:
  "\<exists>q q'. estimate_cost (usage_json 1000 500 1500) (PRIMARY_MODEL @ ''_fallback'') = Inr q
     \<and> estimate_cost (usage_json 1000 500 1500) PRIMARY_MODEL = Inr q' \<and> q \<le> q' \<and> 0 \<le> q"
proof -
  let ?u = "usage_json 1000 500 1500"
  from fallback_cost_underestimated [of 1000 500 1500 "PRIMARY_MODEL @ ''_fallback''"]
  obtain q where q: "estimate_cost ?u (PRIMARY_MODEL @ ''_fallback'') = Inr q" "0 \<le> q"
    and p: "estimate_cost ?u PRIMARY_MODEL = Inr (py_round 6 ((1000 + 3 * 500) / 100000))"
    and le: "\<forall>q q'. estimate_cost ?u (PRIMARY_MODEL @ ''_fallback'') = Inr q \<and>
      estimate_cost ?u PRIMARY_MODEL = Inr q' \<longrightarrow> q \<le> q'"
    by force
  from q p le show ?thesis by blast
qed

end
