(* ===== verification/Webhook.thy ===== *)
theory Webhook
  imports Models
begin

section \<open>Webhook delivery (\<open>services/webhook_service.py\<close>)\<close>

text \<open>
  One POST has an outcome of \<open>http_outcome\<close>; the outcomes of the successive attempts are
  a function of the attempt's number. The retry decorator (three attempts, on server
  errors, connection errors and timeouts, re-raising the last error) is written out as
  recursion. \<open>hmac\<close> and \<open>dumps\<close> are the library functions that sign and serialise.
\<close>

datatype http_outcome = Status int | ConnectError | TimeoutException | OtherError string

text \<open>One attempt: the status code, or the exception and whether it is retried.\<close>

fun post_once :: "http_outcome \<Rightarrow> (exn \<times> bool) + int" where
  "post_once (Status n) = (if n \<ge> 500 then Inl (ExternalError ''HTTPStatusError'', True) else Inr n)"
| "post_once ConnectError = Inl (ExternalError ''ConnectError'', True)"
| "post_once TimeoutException = Inl (ExternalError ''TimeoutException'', True)"
| "post_once (OtherError m) = Inl (ExternalError m, False)"

text \<open>\<open>left\<close> attempts remain after number \<open>k\<close>; the result carries how many POSTs
  were sent.\<close>

fun deliver_attempts :: "(nat \<Rightarrow> http_outcome) \<Rightarrow> nat \<Rightarrow> nat \<Rightarrow> (exn + int) \<times> nat" where
  "deliver_attempts post k left =
     (case post_once (post k) of
        Inr code \<Rightarrow> (Inr code, Suc k)
      | Inl (e, again) \<Rightarrow>
          (if again then (case left of 0 \<Rightarrow> (Inl e, Suc k)
                                     | Suc n \<Rightarrow> deliver_attempts post (Suc k) n)
           else (Inl e, Suc k)))"

declare deliver_attempts.simps [simp del]

definition deliver_with_retry :: "(nat \<Rightarrow> http_outcome) \<Rightarrow> (exn + int) \<times> nat" where
  "deliver_with_retry post = deliver_attempts post 0 2"

definition sign_payload :: "(string \<Rightarrow> string \<Rightarrow> string) \<Rightarrow> string \<Rightarrow> string \<Rightarrow> string" where
  "sign_payload hmac payload secret = hmac secret payload"

definition webhook_body :: "(json \<Rightarrow> string) \<Rightarrow> string \<Rightarrow> string \<Rightarrow> json \<Rightarrow> string" where
  "webhook_body dumps event_type timestamp data =
     dumps (JObj [(''event'', JStr event_type), (''timestamp'', JStr timestamp), (''data'', data)])"

definition webhook_headers :: "string \<Rightarrow> string \<Rightarrow> string \<Rightarrow> string \<Rightarrow> (string \<times> string) list" where
  "webhook_headers signature timestamp event_type app_version =
     [(''Content-Type'', ''application/json''), (''X-Webhook-Signature'', ''sha256='' @ signature),
      (''X-Webhook-Timestamp'', timestamp), (''X-Webhook-Event'', event_type),
      (''User-Agent'', ''EvalEngine/'' @ app_version)]"

text \<open>What is sent, and what the caller gets.\<close>

definition webhook_request :: "(string \<Rightarrow> string \<Rightarrow> string) \<Rightarrow> (json \<Rightarrow> string) \<Rightarrow> string \<Rightarrow> string
    \<Rightarrow> string \<Rightarrow> string \<Rightarrow> json \<Rightarrow> string \<times> (string \<times> string) list" where
  "webhook_request hmac dumps secret app_version timestamp event_type data =
     (let body = webhook_body dumps event_type timestamp data
      in (body, webhook_headers (sign_payload hmac body secret) timestamp event_type app_version))"

definition deliver_webhook :: "(nat \<Rightarrow> http_outcome) \<Rightarrow> bool" where
  "deliver_webhook post = (case fst (deliver_with_retry post) of Inr _ \<Rightarrow> True | Inl _ \<Rightarrow> False)"

subsection \<open>Properties\<close>

definition retryable :: "http_outcome \<Rightarrow> bool" where
  "retryable h \<longleftrightarrow> (\<exists>e. post_once h = Inl (e, True))"

lemma deliver_attempts_count:
  "k < snd (deliver_attempts post k left) \<and> snd (deliver_attempts post k left) \<le> Suc (k + left)"
proof (induction left arbitrary: k)
  case 0
  show ?case by (subst (1 2) deliver_attempts.simps) (auto split: sum.splits)
next
  case (Suc n)
  show ?case
    using Suc [of "Suc k"] by (subst (1 2) deliver_attempts.simps) (auto split: sum.splits)
qed

lemma deliver_attempts_ok:
  "(\<exists>code. fst (deliver_attempts post k left) = Inr code) \<longleftrightarrow>
   (\<exists>i \<le> left. (\<exists>c. post_once (post (k + i)) = Inr c)
      \<and> (\<forall>j < i. retryable (post (k + j))))"
proof (induction left arbitrary: k)
  case 0
  show ?case by (subst deliver_attempts.simps) (auto split: sum.splits)
next
  case (Suc n)
  show ?case
  proof (cases "post_once (post k)")
    case (Inr code)
    then show ?thesis
      by (subst deliver_attempts.simps) (auto intro: exI [of _ 0])
  next
    case (Inl p)
    obtain e again where p: "p = (e, again)" by (cases p)
    have shift: "(\<exists>i \<le> Suc n. P i) \<longleftrightarrow> P 0 \<or> (\<exists>i \<le> n. P (Suc i))" for P
      by (metis (full_types) le0 Suc_le_mono not0_implies_Suc)
    show ?thesis
    proof (cases again)
      case True
      then have r: "retryable (post k)" using Inl p by (auto simp: retryable_def)
      show ?thesis
        unfolding shift using Suc [of "Suc k"] Inl p True r
        by (subst deliver_attempts.simps) (simp add: All_less_Suc2)
    next
      case False
      then have "\<not> retryable (post k)" using Inl p by (auto simp: retryable_def)
      with Inl p False show ?thesis
        unfolding shift by (subst deliver_attempts.simps) auto
    qed
  qed
qed

text \<open>C20: delivery of a webhook. Between one and three requests are sent; the result is success
  exactly when one of them is answered with a status below 500 and all before it failed in a
  way that is retried. A client error such as 404 therefore counts as delivered.
\<close>

theorem webhook_retry_policy:
  "1 \<le> snd (deliver_with_retry post) \<and> snd (deliver_with_retry post) \<le> 3
   \<and> (deliver_webhook post \<longleftrightarrow>
        (\<exists>i < 3. (\<exists>n. post i = Status n \<and> n < 500) \<and> (\<forall>j < i. retryable (post j))))
   \<and> deliver_webhook (\<lambda>_. Status 404)"
proof (intro conjI)
  show "1 \<le> snd (deliver_with_retry post)" "snd (deliver_with_retry post) \<le> 3"
    using deliver_attempts_count [of 0 post 2] by (simp_all add: deliver_with_retry_def)
  have ok: "(\<exists>c. post_once h = Inr c) \<longleftrightarrow> (\<exists>n. h = Status n \<and> n < 500)" for h
    by (cases h) auto
  have d: "deliver_webhook p \<longleftrightarrow> (\<exists>i < 3. (\<exists>n. p i = Status n \<and> n < 500) \<and> (\<forall>j < i. retryable (p j)))" for p
  proof -
    have "deliver_webhook p \<longleftrightarrow> (\<exists>code. fst (deliver_attempts p 0 2) = Inr code)"
      by (auto simp: deliver_webhook_def deliver_with_retry_def split: sum.splits)
    moreover have "(\<exists>i \<le> (2::nat). P i) \<longleftrightarrow> (\<exists>i < 3. P i)" for P
      by (auto simp: less_Suc_eq_le numeral_3_eq_3 numeral_2_eq_2)
    ultimately show ?thesis by (simp add: deliver_attempts_ok ok)
  qed
  show "deliver_webhook post \<longleftrightarrow>
      (\<exists>i < 3. (\<exists>n. post i = Status n \<and> n < 500) \<and> (\<forall>j < i. retryable (post j)))"
    by (rule d)
  show "deliver_webhook (\<lambda>_. Status 404)"
    unfolding d by (rule exI [of _ 0]) simp
qed

subsection \<open>Witness\<close>

theorem webhook_retry_policy_witness:
  "deliver_webhook (\<lambda>i. if i < 2 then Status 503 else Status 200)
   \<and> \<not> deliver_webhook (\<lambda>i. if i < 3 then ConnectError else Status 200)"
proof
  let ?p = "\<lambda>i::nat. if i < 2 then Status 503 else Status 200"
  have "\<exists>i < 3. (\<exists>n. ?p i = Status n \<and> n < 500) \<and> (\<forall>j < i. retryable (?p j))"
    by (rule exI [of _ 2]) (simp add: retryable_def)
  with webhook_retry_policy [of ?p] show "deliver_webhook ?p" by blast
  let ?q = "\<lambda>i::nat. if i < 3 then ConnectError else Status 200"
  have "\<not> (\<exists>i < 3. \<exists>n. ?q i = Status n \<and> n < 500)" by simp
  with webhook_retry_policy [of ?q] show "\<not> deliver_webhook ?q" by blast
qed

end
