(* ===== verification/Pipeline.thy ===== *)
theory Pipeline
  imports LlmJudge Webhook
begin

section \<open>The pipeline (\<open>workers/tasks/orchestrator.py\<close>, \<open>finalize.py\<close>)\<close>

text \<open>
  The orchestrator takes a run from PENDING to RUNNING and hands the pipeline to Celery;
  the last step computes the final score and takes it to COMPLETED. Celery itself is a
  parameter (\<open>chord\<close>: what dispatching the signatures returns), \<open>str_exn\<close> is
  \<open>str(exc)\<close>.
\<close>

subsection \<open>Finalizing a run\<close>

definition contradiction_penalty :: "(string \<times> nat) list \<Rightarrow> rat" where
  "contradiction_penalty buckets =
     of_nat (count_of buckets ''critical'') * (5/100)
     + of_nat (count_of buckets ''high'') * (3/100)
     + of_nat (count_of buckets ''medium'') * (1/100)"

definition base_score_of :: "rat option \<Rightarrow> rat" where
  "base_score_of weighted_avg = (case weighted_avg of None \<Rightarrow> 1/2 | Some a \<Rightarrow> a)"

definition final_score_of :: "rat option \<Rightarrow> (string \<times> nat) list \<Rightarrow> rat" where
  "final_score_of weighted_avg buckets =
     clamp01 (py_round 4 (base_score_of weighted_avg - contradiction_penalty buckets))"

text \<open>The read of the first session: the run, its average and its buckets, or nothing when
  it is terminal.\<close>

definition finalize_read :: "uuid \<Rightarrow> db
    \<Rightarrow> exn + (evaluation_run \<times> rat option \<times> (string \<times> nat) list) option" where
  "finalize_read rid db =
     (case scalar_one (select_where (\<lambda>r. ident r = rid) (runs db)) of
        Inl e \<Rightarrow> Inl e
      | Inr r \<Rightarrow>
          if is_terminal r then Inr None
          else Inr (Some (r, compute_weighted_average rid (organization_id r) (scores db),
                          count_by_severity_bucket rid (organization_id r) (contradictions db))))"

text \<open>The write of the third session, with the version read there.\<close>

definition finalize_write :: "env \<Rightarrow> uuid \<Rightarrow> rat \<Rightarrow> (string \<times> nat) list \<Rightarrow> db
    \<Rightarrow> (db, evaluation_run option) outcome" where
  "finalize_write env rid final_score worker_stats db =
     (case scalar_one (select_where (\<lambda>r. ident r = rid) (runs db)) of
        Inl e \<Rightarrow> (Inl e, db)
      | Inr r \<Rightarrow>
          if is_terminal r then (Inr None, db)
          else case transition_status env rid (version r) COMPLETED
                      [V_overall_score final_score,
                       V_completed_workers (int (count_of worker_stats ''completed'')),
                       V_failed_workers (int (count_of worker_stats ''failed''))] db of
                 (Inl e, d) \<Rightarrow> (Inl e, d)
               | (Inr r', d) \<Rightarrow> (Inr (Some r'), d))"

definition finalize_audit :: "env \<Rightarrow> evaluation_run \<Rightarrow> json \<Rightarrow> db \<Rightarrow> (db, unit) outcome" where
  "finalize_audit env r chg db =
     (Inr (), audit_repo_create env A_EVALUATION_COMPLETED ''evaluation_run'' (Some (ident r))
        (Some (organization_id r)) None None None None (Some chg) ''success'' None db)"

definition mark_evaluated :: "env \<Rightarrow> uuid \<Rightarrow> db \<Rightarrow> (db, unit) outcome" where
  "mark_evaluated env sid db =
     (Inr (), db\<lparr>submissions := update_where (\<lambda>x. ident x = sid)
        (\<lambda>x. touch (now env) (x\<lparr>sub_status := EVALUATED\<rparr>)) (submissions db)\<rparr>)"

definition counts_json :: "(string \<times> nat) list \<Rightarrow> json" where
  "counts_json d = JObj (map (\<lambda>(k, n). (k, JNum (of_nat n))) d)"

definition skipped_result :: "string \<Rightarrow> json" where
  "skipped_result why = JObj [(''status'', JStr ''skipped''), (''reason'', JStr why)]"

text \<open>The webhook that is sent for a finished run, if its configuration names one; its
  delivery (theory Webhook) is guarded by an exception handler and changes no state.\<close>

definition finalize_webhook :: "evaluation_run \<Rightarrow> json \<Rightarrow> rat \<Rightarrow> (string \<times> nat) list
    \<Rightarrow> (json \<times> json) option" where
  "finalize_webhook r llm_result final_score buckets =
     (let url = dict_get_default (config_snapshot r) ''webhook_url'' JNull
      in if json_truthy url then Some (url, JObj
           [(''run_id'', JStr (nat_str (ident r))), (''submission_id'', JStr (nat_str (submission_id r))),
            (''status'', JStr ''completed''), (''final_score'', JNum final_score),
            (''scores'', dict_get_default llm_result ''scores'' empty_obj),
            (''key_strengths'', dict_get_default llm_result ''key_strengths'' (JArr [])),
            (''key_risks'', dict_get_default llm_result ''key_risks'' (JArr [])),
            (''contradictions'', counts_json buckets)])
         else None)"

definition finalize_run :: "task \<Rightarrow> uuid \<Rightarrow> json \<Rightarrow> tstate \<Rightarrow> (tstate, json) outcome" where
  "finalize_run t rid llm_result s =
     (let s1 = update_progress t rid 10 ''Computing final weighted score'' s
      in case finalize_read rid (tdb s1) of
           Inl e \<Rightarrow> (Inl e, s1)
         | Inr None \<Rightarrow> (Inr (skipped_result ''Run already finalized''), s1)
         | Inr (Some (r0, weighted_avg, buckets)) \<Rightarrow>
           (let s2 = update_progress t rid 30 ''Applying contradiction penalty'' s1;
                final_score = final_score_of weighted_avg buckets;
                s3 = update_progress t rid 50 ''Counting worker results'' s2;
                stats = count_by_status rid (worker_results (tdb s3));
                s4 = update_progress t rid 60 ''Updating evaluation run'' s3
            in case db_session (finalize_write (tenv t) rid final_score stats) s4 of
                 (Inl e, s5) \<Rightarrow> (Inl e, s5)
               | (Inr None, s5) \<Rightarrow> (Inr (skipped_result ''Run already finalized''), s5)
               | (Inr (Some r), s5) \<Rightarrow>
                 (let s6 = update_progress t rid 75 ''Logging audit trail'' s5;
                      chg = JObj [(''final_score'', JNum final_score),
                        (''base_score'', JNum (base_score_of weighted_avg)),
                        (''penalty'', JNum (contradiction_penalty buckets)),
                        (''contradiction_buckets'', counts_json buckets),
                        (''worker_stats'', counts_json stats),
                        (''llm_model_used'', dict_get_default llm_result ''model_used'' (JStr ''unknown'')),
                        (''llm_cost_usd'', dict_get_default llm_result ''estimated_cost_usd'' (JNum 0))];
                      s7 = snd (db_session (finalize_audit (tenv t) r chg) s6);
                      s8 = update_progress t rid 85 ''Sending webhook notification'' s7;
                      s9 = update_progress t rid 95 ''Updating submission status'' s8;
                      s10 = snd (db_session (mark_evaluated (tenv t) (submission_id r)) s9)
                  in (Inr (JObj [(''status'', JStr ''completed''), (''run_id'', JStr (nat_str rid)),
                        (''final_score'', JNum final_score),
                        (''base_score'', JNum (base_score_of weighted_avg)),
                        (''contradiction_penalty'', JNum (contradiction_penalty buckets)),
                        (''completed_workers'', JNum (of_nat (count_of stats ''completed''))),
                        (''failed_workers'', JNum (of_nat (count_of stats ''failed'')))]), s10))))"

definition finalize_and_notify_task :: "task \<Rightarrow> json \<Rightarrow> uuid \<Rightarrow> tstate \<Rightarrow> (tstate, json) outcome" where
  "finalize_and_notify_task t llm_result rid s =
     finalize_run (t\<lparr>wtype := ''finalize''\<rparr>) rid llm_result s"

subsection \<open>The orchestrator\<close>

definition opt_json :: "string option \<Rightarrow> json" where
  "opt_json x = (case x of None \<Rightarrow> JNull | Some v \<Rightarrow> JStr v)"

definition run_context :: "uuid \<Rightarrow> evaluation_run \<Rightarrow> submission \<Rightarrow> (string \<times> json) list" where
  "run_context rid r sb =
     [(''run_id'', JStr (nat_str rid)), (''org_id'', JStr (nat_str (organization_id r))),
      (''submission_id'', JStr (nat_str (ident sb))), (''startup_name'', JStr (startup_name sb)),
      (''website_url'', opt_json (website_url sb)), (''pitch_deck_url'', opt_json (pitch_deck_url sb)),
      (''raw_content'', raw_content sb), (''metadata'', sub_metadata sb),
      (''config_snapshot'', config_snapshot r)]"

definition prepare_run :: "env \<Rightarrow> uuid \<Rightarrow> db \<Rightarrow> (db, (string \<times> json) list) outcome" where
  "prepare_run env rid db =
     (case scalar_one_or_none (select_where (\<lambda>r. ident r = rid) (runs db)) of
        Inl e \<Rightarrow> (Inl e, db)
      | Inr None \<Rightarrow> (Inl (ValueError ''Evaluation run not found''), db)
      | Inr (Some r) \<Rightarrow>
          if is_terminal r then (Inr [], db)
          else case transition_status env rid (version r) RUNNING [V_total_workers 4] db of
                 (Inl e, d) \<Rightarrow> (Inl e, d)
               | (Inr r', d) \<Rightarrow>
                 (case scalar_one (select_where (\<lambda>x. ident x = submission_id r) (submissions d)) of
                    Inl e \<Rightarrow> (Inl e, d)
                  | Inr sb \<Rightarrow> (Inr (run_context rid r' sb), d)))"

definition fail_run_db :: "env \<Rightarrow> uuid \<Rightarrow> string \<Rightarrow> db \<Rightarrow> (db, unit) outcome" where
  "fail_run_db env rid err db =
     (case scalar_one_or_none (select_where (\<lambda>r. ident r = rid) (runs db)) of
        Inl e \<Rightarrow> (Inl e, db)
      | Inr None \<Rightarrow> (Inr (), db)
      | Inr (Some r) \<Rightarrow>
          if is_terminal r then (Inr (), db)
          else case transition_status env rid (version r) FAILED [V_error_message err] db of
                 (Inl e, d) \<Rightarrow> (Inl e, d)
               | (Inr _, d) \<Rightarrow> (Inr (), d))"

definition fail_run :: "env \<Rightarrow> uuid \<Rightarrow> string \<Rightarrow> db \<Rightarrow> db" where
  "fail_run env rid err db = snd (in_session (fail_run_db env rid err) db)"

text \<open>
  A signature is a task, its positional arguments and its keyword arguments. Binding them to
  the parameters of a Python function fails when there are too many positional arguments,
  when a keyword names a parameter that is already bound, when a parameter is missing, or
  when a keyword is unknown and there is no \<open>**kwargs\<close>.
\<close>

record signature =
  sig_task :: string
  sig_args :: nat
  sig_kwargs :: "string list"

definition bind_arguments :: "string list \<Rightarrow> bool \<Rightarrow> nat \<Rightarrow> string list \<Rightarrow> exn + unit" where
  "bind_arguments params var_kw npos kws =
     (if npos > length params then Inl (TypeError ''too many positional arguments'')
      else if list_ex (\<lambda>k. k \<in> set (take npos params)) kws
      then Inl (TypeError ''got multiple values for argument'')
      else if list_ex (\<lambda>p. p \<notin> set kws) (drop npos params)
      then Inl (TypeError ''missing required argument'')
      else if \<not> var_kw \<and> list_ex (\<lambda>k. k \<notin> set params) kws
      then Inl (TypeError ''unexpected keyword argument'')
      else Inr ())"

text \<open>The four analysis tasks are \<open>def task(self, run_id, **context)\<close>.\<close>

definition analysis_params :: "string list" where
  "analysis_params = [''run_id'']"

definition check_signature :: "signature \<Rightarrow> exn + unit" where
  "check_signature g = bind_arguments analysis_params True (sig_args g) (sig_kwargs g)"

definition parallel_signatures :: "(string \<times> json) list \<Rightarrow> signature list" where
  "parallel_signatures context =
     map (\<lambda>n. \<lparr>sig_task = n, sig_args = 1, sig_kwargs = map fst context\<rparr>)
       [''github_analysis_task'', ''pitch_deck_task'', ''video_analysis_task'',
        ''web_verification_task'']"

text \<open>What Celery documents: a task checks its arguments when it is sent, so that a chord
  with a signature that does not bind raises the \<open>TypeError\<close> of the call.\<close>

definition checks_arguments :: "(signature list \<Rightarrow> exn + uuid) \<Rightarrow> bool" where
  "checks_arguments chord \<longleftrightarrow>
     (\<forall>g gs. (case check_signature g of
                Inl e \<Rightarrow> chord (g # gs) = Inl e
              | Inr _ \<Rightarrow> True))"

definition evaluate_submission :: "(exn \<Rightarrow> string) \<Rightarrow> env \<Rightarrow> (signature list \<Rightarrow> exn + uuid) \<Rightarrow> int
    \<Rightarrow> uuid \<Rightarrow> db \<Rightarrow> (db, json) outcome" where
  "evaluate_submission str_exn env chord attempt rid db =
     (let failed = (\<lambda>e d. (Inl (if attempt < 1 then Retry e else e), fail_run env rid (str_exn e) d))
      in case in_session (prepare_run env rid) db of
           (Inl e, d) \<Rightarrow> failed e d
         | (Inr context, d) \<Rightarrow>
             if context = [] then (Inr (skipped_result ''run already terminal''), d)
             else case chord (parallel_signatures context) of
                    Inl e \<Rightarrow> failed e d
                  | Inr pid \<Rightarrow>
                      (Inr (JObj [(''status'', JStr ''dispatched''), (''run_id'', JStr (nat_str rid)),
                         (''pipeline_id'', JStr (nat_str pid))]), d))"

subsection \<open>The sequential chain\<close>

definition and_then :: "('s \<Rightarrow> ('s, 'a) outcome) \<Rightarrow> ('a \<Rightarrow> 's \<Rightarrow> ('s, 'b) outcome) \<Rightarrow> 's \<Rightarrow> ('s, 'b) outcome" where
  "and_then f g s = (case f s of (Inl e, s') \<Rightarrow> (Inl e, s') | (Inr x, s') \<Rightarrow> g x s')"

text \<open>\<open>chain(cross_check, fabrication, llm_judge, finalize)\<close>: each step gets the result of
  the one before.\<close>

definition sequential_pipeline :: "(json \<Rightarrow> string) \<Rightarrow> (rat \<Rightarrow> string)
    \<Rightarrow> (string \<Rightarrow> string \<Rightarrow> exn + json \<times> json) \<Rightarrow> (nat \<Rightarrow> rat) \<Rightarrow> task \<Rightarrow> (nat \<Rightarrow> uuid) \<Rightarrow> uuid
    \<Rightarrow> json list \<Rightarrow> tstate \<Rightarrow> (tstate, json) outcome" where
  "sequential_pipeline str_json sf call rnd t gen rid results =
     and_then (cross_check_task t gen results rid)
       (\<lambda>cc. and_then (fabrication_detection_task sf t cc rid)
         (\<lambda>fab. and_then (llm_judge_task str_json call rnd t gen fab rid)
           (\<lambda>llm. finalize_and_notify_task t llm rid)))"

subsection \<open>The interface of an analysis step\<close>

text \<open>A step of the chain before the last one may write its findings, but leaves the runs
  and the submissions alone: the life cycle of a run is the orchestrator's and the
  finalizer's.\<close>

locale analysis_step =
  fixes step :: "tstate \<Rightarrow> (tstate, json) outcome"
  assumes keeps_runs: "runs (tdb (snd (step s))) = runs (tdb s)"
    and keeps_submissions: "submissions (tdb (snd (step s))) = submissions (tdb s)"
begin

lemma keeps_run_row: "run_row rid (tdb (snd (step s))) = run_row rid (tdb s)"
  by (simp add: run_row_def keeps_runs)

lemma step_ok:
  assumes "step s = (res, s')"
  shows "run_row rid (tdb s') = run_row rid (tdb s)" "runs (tdb s') = runs (tdb s)"
    "submissions (tdb s') = submissions (tdb s)"
  using assms keeps_run_row [of rid s] keeps_runs [of s] keeps_submissions [of s] by simp_all

end

lemma db_session_tdb:
  assumes "\<And>d. f (snd (h d)) = f d"
  shows "f (tdb (snd (db_session h s))) = f (tdb s)"
  using assms [of "tdb s"]
  by (cases "h (tdb s)") (auto simp: db_session_def in_session_def split: sum.splits)

lemma cross_check_frame:
  "runs (tdb (snd (cross_check t gen rid rs s))) = runs (tdb s)
   \<and> submissions (tdb (snd (cross_check t gen rid rs s))) = submissions (tdb s)"
  by (auto simp: cross_check_def cross_check_db_def db_session_def in_session_def Let_def
      split: sum.splits prod.splits)

lemma fabrication_loop_frame:
  "runs (tdb (snd (fabrication_loop sf t rid n i cs fl x s))) = runs (tdb s)
   \<and> submissions (tdb (snd (fabrication_loop sf t rid n i cs fl x s))) = submissions (tdb s)
   \<and> scores (tdb (snd (fabrication_loop sf t rid n i cs fl x s))) = scores (tdb s)"
proof (induction cs arbitrary: i fl x s)
  case (Cons c cs)
  have "write_verdict env c k d = (res, d') \<Longrightarrow>
      runs d' = runs d \<and> submissions d' = submissions d \<and> scores d' = scores d" for env k d res d'
    by (auto simp: write_verdict_def split: json.splits)
  then have w: "db_session (write_verdict (tenv t) c k) s = (res, s1) \<Longrightarrow>
      runs (tdb s1) = runs (tdb s) \<and> submissions (tdb s1) = submissions (tdb s)
      \<and> scores (tdb s1) = scores (tdb s)" for k s res s1
    by (auto simp: db_session_def in_session_def split: sum.splits prod.splits)
  show ?case
    by (auto simp: Let_def Cons split: sum.splits prod.splits dest: w)
qed simp

lemma fabrication_frame:
  "runs (tdb (snd (detect_fabrication sf t rid ccr s))) = runs (tdb s)
   \<and> submissions (tdb (snd (detect_fabrication sf t rid ccr s))) = submissions (tdb s)
   \<and> scores (tdb (snd (detect_fabrication sf t rid ccr s))) = scores (tdb s)"
proof -
  define cs where "cs = select_where (\<lambda>c. claim_run_id c = rid \<and> active c) (claims (tdb s))"
  define s2 where "s2 = update_progress t rid 30 (''Analyzing '' @ nat_str (length cs)
      @ '' claims for fabrication'')
    (update_progress t rid 10 ''Loading claims for fabrication analysis'' s)"
  obtain res s3 where l: "fabrication_loop sf t rid (length cs) 0 cs [] 0 s2 = (res, s3)"
    by fastforce
  have t2: "tdb s2 = tdb s" by (simp add: s2_def)
  have f: "runs (tdb s3) = runs (tdb s)" "submissions (tdb s3) = submissions (tdb s)"
    "scores (tdb s3) = scores (tdb s)"
    using fabrication_loop_frame [of sf t rid "length cs" 0 cs "[]" 0 s2] by (simp_all only: l snd_conv t2)
  show ?thesis
    using l [unfolded s2_def] f
    by (cases res) (auto simp: detect_fabrication_def Let_def simp flip: cs_def)
qed

lemma store_scores_frame:
  "runs (snd (store_scores env gen r v usage model d)) = runs d"
  "submissions (snd (store_scores env gen r v usage model d)) = submissions d"
  by (auto simp: store_scores_def split: option.splits sum.splits)

lemma judge_frame:
  "runs (tdb (snd (run_llm_judge str_json call rnd t gen rid fab s))) = runs (tdb s)
   \<and> submissions (tdb (snd (run_llm_judge str_json call rnd t gen rid fab s))) = submissions (tdb s)"
proof -
  have st: "db_session (store_scores (tenv t) gen r v usage model) s1 = (res, s2) \<Longrightarrow>
      runs (tdb s2) = runs (tdb s1) \<and> submissions (tdb s2) = submissions (tdb s1)"
    for r v usage model s1 res s2
    using db_session_tdb [of runs "store_scores (tenv t) gen r v usage model" s1]
      db_session_tdb [of submissions "store_scores (tenv t) gen r v usage model" s1]
    by (simp add: store_scores_frame)
  have lg: "db_session (log_usage (tenv t) r usage model c) s1 = (res, s2) \<Longrightarrow>
      runs (tdb s2) = runs (tdb s1) \<and> submissions (tdb s2) = submissions (tdb s1)"
    for r usage model c s1 res s2
    by (auto simp: db_session_def in_session_def log_usage_def)
  show ?thesis
    by (auto simp: run_llm_judge_def Let_def split: sum.splits prod.splits dest!: st lg)
qed

interpretation cross: analysis_step "cross_check_task t gen rs rid" for t gen rs rid
  by unfold_locales (simp_all add: cross_check_task_def cross_check_frame)

interpretation fab: analysis_step "fabrication_detection_task sf t ccr rid" for sf t ccr rid
  by unfold_locales (simp_all add: fabrication_detection_task_def fabrication_frame)

interpretation judge: analysis_step "llm_judge_task str_json call rnd t gen fab rid"
  for str_json call rnd t gen fab rid
  by unfold_locales (simp_all add: llm_judge_task_def judge_frame)

subsection \<open>Library\<close>

lemma run_fetch:
  assumes "unique_ids (runs db)" "run_row rid db = Some r"
  shows "filter (\<lambda>r. ident r = rid) (runs db) = [r]"
  using filter_key_unique1 [of ident "runs db" r] assms
  by (auto simp: unique_ids_def run_row_Some [OF assms(1)])

lemma locked_row_status [simp]:
  "run_status (locked_row env v (transition_values env RUNNING [V_total_workers n]) r) = RUNNING"
  "run_status (locked_row env v (transition_values env FAILED [V_error_message m]) r) = FAILED"
  "run_error_message (locked_row env v (transition_values env FAILED [V_error_message m]) r) = Some m"
  "run_status (locked_row env v (transition_values env COMPLETED
     [V_overall_score q, V_completed_workers a, V_failed_workers b]) r) = COMPLETED"
  "overall_score (locked_row env v (transition_values env COMPLETED
     [V_overall_score q, V_completed_workers a, V_failed_workers b]) r) = Some q"
  "completed_at (locked_row env v (transition_values env COMPLETED
     [V_overall_score q, V_completed_workers a, V_failed_workers b]) r) = Some (now env)"
  by (simp_all add: locked_row_def transition_values_def)

text \<open>A transition with the current version goes through.\<close>

lemma transition_current:
  assumes "unique_ids (runs db)" "run_row rid db = Some r"
  obtains db' where "transition_status env rid (version r) st extra db =
      (Inr (locked_row env (version r) (transition_values env st extra) r), db')"
    "unique_ids (runs db')"
    "run_row rid db' = Some (locked_row env (version r) (transition_values env st extra) r)"
    "db' = db\<lparr>runs := runs db'\<rparr>"
proof -
  note h = update_lock_hit [OF assms refl, of env "transition_values env st extra"]
  note a = run_row_after_hit [OF assms refl refl, of env "transition_values env st extra"]
  show ?thesis
    by (rule that, unfold transition_status_def, rule h, rule a(1), rule a(2)) simp
qed

lemma fail_run_running:
  assumes "unique_ids (runs db)" "run_row rid db = Some r" "\<not> is_terminal r"
  shows "\<exists>r'. run_row rid (fail_run env rid m db) = Some r' \<and> run_status r' = FAILED
    \<and> version r' = version r + 1 \<and> run_error_message r' = Some m
    \<and> unique_ids (runs (fail_run env rid m db))"
proof -
  obtain db' where t: "transition_status env rid (version r) FAILED [V_error_message m] db =
      (Inr (locked_row env (version r) (transition_values env FAILED [V_error_message m]) r), db')"
    "unique_ids (runs db')"
    "run_row rid db' = Some (locked_row env (version r) (transition_values env FAILED [V_error_message m]) r)"
    by (rule transition_current [OF assms(1,2)])
  have "fail_run_db env rid m db = (Inr (), db')"
    using run_fetch [OF assms(1,2)] assms(3) t(1) by (simp add: fail_run_db_def select_where_def)
  then have "fail_run env rid m db = db'" by (simp add: fail_run_def in_session_def)
  with t show ?thesis by simp
qed

lemma evaluate_terminal:
  assumes "unique_ids (runs db)" "run_row rid db = Some r" "is_terminal r"
  shows "evaluate_submission str_exn env chord n rid db =
    (Inr (skipped_result ''run already terminal''), db)"
proof -
  have "prepare_run env rid db = (Inr [], db)"
    using run_fetch [OF assms(1,2)] assms(3) by (simp add: prepare_run_def select_where_def)
  then show ?thesis by (simp add: evaluate_submission_def in_session_def Let_def)
qed

lemma context_has_run_id: "list_ex (\<lambda>k. k \<in> {''run_id''}) (map fst (run_context rid r sb))"
  by (simp add: run_context_def)

lemma signatures_do_not_bind:
  assumes "checks_arguments chord"
  shows "chord (parallel_signatures (run_context rid r sb)) =
    Inl (TypeError ''got multiple values for argument'')"
proof -
  have "check_signature \<lparr>sig_task = n, sig_args = 1, sig_kwargs = map fst (run_context rid r sb)\<rparr> =
      Inl (TypeError ''got multiple values for argument'')" for n
    by (simp add: check_signature_def bind_arguments_def analysis_params_def run_context_def)
  moreover have "case check_signature g of Inl e \<Rightarrow> chord (g # gs) = Inl e | Inr _ \<Rightarrow> True" for g gs
    using assms unfolding checks_arguments_def by blast
  from this [of "\<lparr>sig_task = ''github_analysis_task'', sig_args = 1,
      sig_kwargs = map fst (run_context rid r sb)\<rparr>"]
  show ?thesis
    by (simp add: parallel_signatures_def check_signature_def bind_arguments_def
        analysis_params_def run_context_def)
qed

lemma prepare_run_ok:
  assumes "unique_ids (runs db)" "run_row rid db = Some r" "\<not> is_terminal r"
    and "filter (\<lambda>x. ident x = submission_id r) (submissions db) = [sb]"
  obtains r' db' where "prepare_run env rid db = (Inr (run_context rid r' sb), db')"
    "unique_ids (runs db')" "run_row rid db' = Some r'" "run_status r' = RUNNING"
    "version r' = version r + 1"
proof -
  obtain db' where t: "transition_status env rid (version r) RUNNING [V_total_workers 4] db =
      (Inr (locked_row env (version r) (transition_values env RUNNING [V_total_workers 4]) r), db')"
    "unique_ids (runs db')"
    "run_row rid db' = Some (locked_row env (version r) (transition_values env RUNNING [V_total_workers 4]) r)"
    and d: "db' = db\<lparr>runs := runs db'\<rparr>"
    by (rule transition_current [OF assms(1,2)])
  from arg_cong [OF d, of submissions] have sb: "submissions db' = submissions db" by simp
  from assms(3,4) run_fetch [OF assms(1,2)] t(1) sb
  have p: "prepare_run env rid db = (Inr (run_context rid
      (locked_row env (version r) (transition_values env RUNNING [V_total_workers 4]) r) sb), db')"
    by (simp add: prepare_run_def select_where_def)
  show ?thesis by (rule that [OF p t(2,3)]) simp_all
qed

subsection \<open>Properties\<close>

text \<open>C1: no evaluation is ever dispatched. The context the orchestrator passes to the four
  analysis tasks as keywords contains \<open>run_id\<close>, which it also passes by position, so the
  call of each task does not bind. Dispatching the chord raises, the run becomes FAILED, and
  the retry that Celery schedules finds a terminal run and reports it as skipped.
\<close>

theorem no_evaluation_is_dispatched:
  assumes "checks_arguments chord" "unique_ids (runs db)" "run_row rid db = Some r"
    and "\<not> is_terminal r" "filter (\<lambda>x. ident x = submission_id r) (submissions db) = [sb]"
  shows "\<exists>m d r'. evaluate_submission str_exn env chord 0 rid db = (Inl (Retry (TypeError m)), d)
    \<and> run_row rid d = Some r' \<and> run_status r' = FAILED
    \<and> run_error_message r' = Some (str_exn (TypeError m))
    \<and> evaluate_submission str_exn env' chord' 1 rid d =
        (Inr (skipped_result ''run already terminal''), d)"
proof -
  obtain r1 db1 where p: "prepare_run env rid db = (Inr (run_context rid r1 sb), db1)"
    "unique_ids (runs db1)" "run_row rid db1 = Some r1" "run_status r1 = RUNNING"
    by (rule prepare_run_ok [OF assms(2-5)])
  let ?e = "TypeError ''got multiple values for argument''"
  have ne: "run_context rid r1 sb \<noteq> []" by (simp add: run_context_def)
  have ev: "evaluate_submission str_exn env chord 0 rid db =
      (Inl (Retry ?e), fail_run env rid (str_exn ?e) db1)"
    using p(1) ne signatures_do_not_bind [OF assms(1)]
    by (simp add: evaluate_submission_def in_session_def Let_def)
  have "\<not> is_terminal r1" using p(4) by (simp add: is_terminal_def)
  from fail_run_running [OF p(2,3) this] obtain r2 where r2:
    "run_row rid (fail_run env rid (str_exn ?e) db1) = Some r2" "run_status r2 = FAILED"
    "run_error_message r2 = Some (str_exn ?e)" "unique_ids (runs (fail_run env rid (str_exn ?e) db1))"
    by blast
  have "is_terminal r2" using r2(2) by (simp add: is_terminal_def)
  from evaluate_terminal [OF r2(4,1) this] ev r2(1-3) show ?thesis by blast
qed

text \<open>
  The retry of the orchestrator never repairs a failure. Whatever raised in the first
  attempt (preparing the run or dispatching it), that attempt marks a run that was not
  terminal FAILED before it asks for the retry, so the second attempt skips the run and
  changes nothing.
\<close>

theorem orchestrator_retry_is_skipped:
  assumes "unique_ids (runs db)" "run_row rid db = Some r" "\<not> is_terminal r"
    and "evaluate_submission str_exn env chord 0 rid db = (Inl e, d)"
  shows "(\<exists>e'. e = Retry e') \<and> (\<exists>r'. run_row rid d = Some r' \<and> run_status r' = FAILED)
    \<and> evaluate_submission str_exn env' chord' 1 rid d =
        (Inr (skipped_result ''run already terminal''), d)"
proof -
  obtain res d1 where p: "in_session (prepare_run env rid) db = (res, d1)" by fastforce
  have row: "\<exists>r1. run_row rid d1 = Some r1 \<and> \<not> is_terminal r1 \<and> unique_ids (runs d1)"
  proof (cases res)
    case (Inl x)
    with p have "d1 = db" by (auto simp: in_session_def split: sum.splits prod.splits)
    with assms show ?thesis by blast
  next
    case (Inr ctx)
    from p [unfolded Inr] have q: "prepare_run env rid db = (Inr ctx, d1)" by (rule in_session_okD)
    obtain db' where t: "transition_status env rid (version r) RUNNING [V_total_workers 4] db =
        (Inr (locked_row env (version r) (transition_values env RUNNING [V_total_workers 4]) r), db')"
      "unique_ids (runs db')"
      "run_row rid db' = Some (locked_row env (version r) (transition_values env RUNNING [V_total_workers 4]) r)"
      by (rule transition_current [OF assms(1,2)])
    from q run_fetch [OF assms(1,2)] assms(3) t(1) have "d1 = db'"
      by (auto simp: prepare_run_def select_where_def split: sum.splits)
    with t show ?thesis by (simp add: is_terminal_def)
  qed
  then obtain r1 where r1: "run_row rid d1 = Some r1" "\<not> is_terminal r1" "unique_ids (runs d1)"
    by blast
  obtain x where x: "e = Retry x" "d = fail_run env rid (str_exn x) d1"
  proof (cases res)
    case (Inl x)
    with assms(4) p show ?thesis by (intro that [of x]) (simp_all add: evaluate_submission_def)
  next
    case (Inr ctx)
    with assms(4) p show ?thesis
      by (cases "ctx = []"; cases "chord (parallel_signatures ctx)")
        (auto simp: evaluate_submission_def intro: that)
  qed
  from fail_run_running [OF r1(3,1,2), of env "str_exn x"] obtain r2 where
    r2: "run_row rid d = Some r2" "run_status r2 = FAILED" "unique_ids (runs d)"
    unfolding x(2) by blast
  have "is_terminal r2" using r2(2) by (simp add: is_terminal_def)
  from evaluate_terminal [OF r2(3,1) this] x(1) r2(1,2) show ?thesis by blast
qed


lemma finalize_write_ok:
  assumes "unique_ids (runs db)" "run_row rid db = Some r" "\<not> is_terminal r"
  obtains r' db' where "finalize_write env rid q stats db = (Inr (Some r'), db')"
    "unique_ids (runs db')" "run_row rid db' = Some r'" "run_status r' = COMPLETED"
    "overall_score r' = Some q" "completed_at r' = Some (now env)" "version r' = version r + 1"
    "submission_id r' = submission_id r" "db' = db\<lparr>runs := runs db'\<rparr>"
proof -
  let ?x = "[V_overall_score q, V_completed_workers (int (count_of stats ''completed'')),
     V_failed_workers (int (count_of stats ''failed''))]"
  obtain db' where t: "transition_status env rid (version r) COMPLETED ?x db =
      (Inr (locked_row env (version r) (transition_values env COMPLETED ?x) r), db')"
    "unique_ids (runs db')"
    "run_row rid db' = Some (locked_row env (version r) (transition_values env COMPLETED ?x) r)"
    "db' = db\<lparr>runs := runs db'\<rparr>"
    by (rule transition_current [OF assms(1,2)])
  have "finalize_write env rid q stats db =
      (Inr (Some (locked_row env (version r) (transition_values env COMPLETED ?x) r)), db')"
    using run_fetch [OF assms(1,2)] assms(3) t(1) by (simp add: finalize_write_def select_where_def)
  from this t(2,3) show ?thesis by (rule that) (simp_all add: t(4) [symmetric])
qed

lemma run_row_runs_cong: "runs d = runs d' \<Longrightarrow> run_row rid d = run_row rid d'"
  by (simp add: run_row_def)

definition final_score :: "uuid \<Rightarrow> evaluation_run \<Rightarrow> db \<Rightarrow> rat" where
  "final_score rid r db =
     final_score_of (compute_weighted_average rid (organization_id r) (scores db))
       (count_by_severity_bucket rid (organization_id r) (contradictions db))"

text \<open>The database a finalizer leaves behind.\<close>

lemma finalize_run_ok:
  assumes "unique_ids (runs (tdb s))" "run_row rid (tdb s) = Some r" "\<not> is_terminal r"
  obtains out s' r' where "finalize_run t rid llm s = (Inr out, s')"
    "json_get out ''status'' = Some (JStr ''completed'')"
    "json_get out ''final_score'' = Some (JNum (final_score rid r (tdb s)))"
    "unique_ids (runs (tdb s'))" "run_row rid (tdb s') = Some r'" "run_status r' = COMPLETED"
    "overall_score r' = Some (final_score rid r (tdb s))" "completed_at r' = Some (now (tenv t))"
    "version r' = version r + 1" "scores (tdb s') = scores (tdb s)"
    "submissions (tdb s') = update_where (\<lambda>x. ident x = submission_id r)
       (\<lambda>x. touch (now (tenv t)) (x\<lparr>sub_status := EVALUATED\<rparr>)) (submissions (tdb s))"
proof -
  let ?q = "final_score rid r (tdb s)"
  let ?stats = "count_by_status rid (worker_results (tdb s))"
  obtain r' db' where w: "finalize_write (tenv t) rid ?q ?stats (tdb s) = (Inr (Some r'), db')"
    and d: "unique_ids (runs db')" "run_row rid db' = Some r'" "run_status r' = COMPLETED"
    "overall_score r' = Some ?q" "completed_at r' = Some (now (tenv t))" "version r' = version r + 1"
    "submission_id r' = submission_id r" "db' = (tdb s)\<lparr>runs := runs db'\<rparr>"
    by (rule finalize_write_ok [OF assms])
  have rd: "finalize_read rid (tdb s) = Inr (Some (r,
      compute_weighted_average rid (organization_id r) (scores (tdb s)),
      count_by_severity_bucket rid (organization_id r) (contradictions (tdb s))))"
    using run_fetch [OF assms(1,2)] assms(3) by (simp add: finalize_read_def select_where_def)
  have ws: "db_session (finalize_write (tenv t) rid ?q ?stats) s4 = (Inr (Some r'), s4\<lparr>tdb := db'\<rparr>)"
    if "tdb s4 = tdb s" for s4
    using w that by (intro db_session_ok) simp
  have as: "db_session (finalize_audit env r0 c) s4 =
      (Inr (), s4\<lparr>tdb := snd (finalize_audit env r0 c (tdb s4))\<rparr>)" for env r0 c s4
    by (rule db_session_ok) (simp add: finalize_audit_def)
  have ms: "db_session (mark_evaluated env i) s4 =
      (Inr (), s4\<lparr>tdb := snd (mark_evaluated env i (tdb s4))\<rparr>)" for env i s4
    by (rule db_session_ok) (simp add: mark_evaluated_def)
  obtain out s' c where f: "finalize_run t rid llm s = (Inr out, s')"
    "json_get out ''status'' = Some (JStr ''completed'')"
    "json_get out ''final_score'' = Some (JNum ?q)"
    and s': "tdb s' = snd (mark_evaluated (tenv t) (submission_id r')
      (snd (finalize_audit (tenv t) r' c db')))"
  proof (cases "finalize_run t rid llm s")
    case (Pair res s')
    show ?thesis
      using Pair rd by (cases res)
        (auto simp: finalize_run_def Let_def ws as ms final_score_def [symmetric] intro: that)
  qed
  have fr: "runs (tdb s') = runs db'" "scores (tdb s') = scores db'"
    "submissions (tdb s') = update_where (\<lambda>x. ident x = submission_id r)
       (\<lambda>x. touch (now (tenv t)) (x\<lparr>sub_status := EVALUATED\<rparr>)) (submissions db')"
    by (simp_all add: s' mark_evaluated_def finalize_audit_def d(7))
  have e: "scores db' = scores (tdb s)" "submissions db' = submissions (tdb s)"
    using arg_cong [OF d(8), of scores] arg_cong [OF d(8), of submissions] by simp_all
  show ?thesis
    by (rule that [OF f _ _ d(3-6)])
      (use d(1,2) fr e run_row_runs_cong [OF fr(1), of rid] in simp_all)
qed

lemma finalize_terminal:
  assumes "unique_ids (runs (tdb s))" "run_row rid (tdb s) = Some r" "is_terminal r"
  shows "\<exists>s'. finalize_run t rid llm s = (Inr (skipped_result ''Run already finalized''), s')
    \<and> tdb s' = tdb s"
proof -
  have "finalize_read rid (tdb s) = Inr None"
    using run_fetch [OF assms(1,2)] assms(3) by (simp add: finalize_read_def select_where_def)
  then show ?thesis by (simp add: finalize_run_def Let_def)
qed

lemma final_score_range: "0 \<le> final_score rid r db" "final_score rid r db \<le> 1"
  by (simp_all add: final_score_def final_score_of_def)

text \<open>C6: finalizing a run. A run that is not terminal becomes COMPLETED with a version one
  higher and the weighted average less 0.05, 0.03 and 0.01 for each critical, high and
  medium contradiction, rounded to four digits and clamped to the unit interval; its
  submission becomes EVALUATED. Finalizing again is skipped and changes nothing.
\<close>

theorem finalize_completes_once:
  assumes "unique_ids (runs (tdb s))" "run_row rid (tdb s) = Some r" "\<not> is_terminal r"
  shows "\<exists>out s' r' q. finalize_run t rid llm s = (Inr out, s')
    \<and> run_row rid (tdb s') = Some r' \<and> run_status r' = COMPLETED \<and> version r' = version r + 1
    \<and> overall_score r' = Some q \<and> 0 \<le> q \<and> q \<le> 1
    \<and> q = clamp01 (py_round 4
        ((case compute_weighted_average rid (organization_id r) (scores (tdb s)) of
            None \<Rightarrow> 1/2 | Some a \<Rightarrow> a)
         - (let n = (\<lambda>b. of_nat (count_of (count_by_severity_bucket rid (organization_id r)
                 (contradictions (tdb s))) b))
            in n ''critical'' * (5/100) + n ''high'' * (3/100) + n ''medium'' * (1/100))))
    \<and> (\<forall>x \<in> set (submissions (tdb s')). ident x = submission_id r \<longrightarrow> sub_status x = EVALUATED)
    \<and> (\<exists>s''. finalize_run t' rid llm' s' = (Inr (skipped_result ''Run already finalized''), s'')
         \<and> tdb s'' = tdb s')"
proof -
  obtain out s' r' where f: "finalize_run t rid llm s = (Inr out, s')"
    "unique_ids (runs (tdb s'))" "run_row rid (tdb s') = Some r'" "run_status r' = COMPLETED"
    "overall_score r' = Some (final_score rid r (tdb s))" "version r' = version r + 1"
    and sb: "submissions (tdb s') = update_where (\<lambda>x. ident x = submission_id r)
       (\<lambda>x. touch (now (tenv t)) (x\<lparr>sub_status := EVALUATED\<rparr>)) (submissions (tdb s))"
    by (rule finalize_run_ok [OF assms])
  have "is_terminal r'" using f(4) by (simp add: is_terminal_def)
  note again = finalize_terminal [OF f(2,3) this, of t' llm']
  have "\<forall>x \<in> set (submissions (tdb s')). ident x = submission_id r \<longrightarrow> sub_status x = EVALUATED"
    by (auto simp: sb set_update_where touch_def)
  moreover have "final_score rid r (tdb s) = clamp01 (py_round 4
        ((case compute_weighted_average rid (organization_id r) (scores (tdb s)) of
            None \<Rightarrow> 1/2 | Some a \<Rightarrow> a)
         - (let n = (\<lambda>b. of_nat (count_of (count_by_severity_bucket rid (organization_id r)
                 (contradictions (tdb s))) b))
            in n ''critical'' * (5/100) + n ''high'' * (3/100) + n ''medium'' * (1/100))))"
    by (simp add: final_score_def final_score_of_def base_score_of_def contradiction_penalty_def Let_def)
  ultimately show ?thesis
    using f(1,3-6) again final_score_range [of rid r "tdb s"] by blast
qed

lemma cross_check_scores:
  "cross_check t gen rid rs s = (res, s') \<Longrightarrow> scores (tdb s') = scores (tdb s)"
  by (auto simp: cross_check_def cross_check_db_def db_session_def in_session_def Let_def
      split: sum.splits prod.splits if_splits)

text \<open>C2: the chain from the cross-check to the finalizer. If it returns for a run that was
  not terminal, the run has become COMPLETED in a single transition with a score in the
  unit interval, its six dimension scores were added and are all in range; whatever the
  steps before the finalizer did, they did not touch the run.
\<close>

theorem sequential_pipeline_completes:
  assumes "sequential_pipeline str_json sf call rnd t gen rid results s = (Inr out, s')"
    and "unique_ids (runs (tdb s))" "run_row rid (tdb s) = Some r" "\<not> is_terminal r"
    and "scores_ok (scores (tdb s))"
  shows "\<exists>r' q new. run_row rid (tdb s') = Some r' \<and> run_status r' = COMPLETED
    \<and> version r' = version r + 1 \<and> overall_score r' = Some q \<and> 0 \<le> q \<and> q \<le> 1
    \<and> scores (tdb s') = scores (tdb s) @ new
    \<and> map (\<lambda>x. (dimension x, weight x)) new = DIMENSION_WEIGHTS
    \<and> (\<forall>x \<in> set new. 0 \<le> score_value x \<and> score_value x \<le> 1)"
proof -
  obtain cc s1 where 1: "cross_check_task t gen results rid s = (Inr cc, s1)"
    using assms(1) by (auto simp: sequential_pipeline_def and_then_def split: sum.splits prod.splits)
  obtain fab s2 where 2: "fabrication_detection_task sf t cc rid s1 = (Inr fab, s2)"
    using assms(1) 1 by (auto simp: sequential_pipeline_def and_then_def split: sum.splits prod.splits)
  obtain llm s3 where 3: "llm_judge_task str_json call rnd t gen fab rid s2 = (Inr llm, s3)"
    using assms(1) 1 2 by (auto simp: sequential_pipeline_def and_then_def split: sum.splits prod.splits)
  have 4: "finalize_run (t\<lparr>wtype := ''finalize''\<rparr>) rid llm s3 = (Inr out, s')"
    using assms(1) 1 2 3 by (simp add: sequential_pipeline_def and_then_def finalize_and_notify_task_def)
  have rows: "runs (tdb s3) = runs (tdb s)" "run_row rid (tdb s3) = run_row rid (tdb s)"
    using cross.step_ok [OF 1] fab.step_ok [OF 2] judge.step_ok [OF 3] by simp_all
  have sc: "scores (tdb s2) = scores (tdb s)"
    using fabrication_frame [of sf "t\<lparr>wtype := ''fabrication_detection''\<rparr>" rid cc s1] 2
      cross_check_scores [OF 1 [unfolded cross_check_task_def]]
    by (simp add: fabrication_detection_task_def)
  from judge_stores_valid_scores [OF 3 [unfolded llm_judge_task_def]] assms(5)
  obtain new where new: "scores (tdb s3) = scores (tdb s) @ new"
    "map (\<lambda>x. (dimension x, weight x)) new = DIMENSION_WEIGHTS"
    "\<forall>x \<in> set new. 0 \<le> score_value x \<and> score_value x \<le> 1"
    by (auto simp: sc)
  have u: "unique_ids (runs (tdb s3))" using assms(2) rows(1) by simp
  have row: "run_row rid (tdb s3) = Some r" using assms(3) rows(2) by simp
  obtain out' s'' r' where f: "finalize_run (t\<lparr>wtype := ''finalize''\<rparr>) rid llm s3 = (Inr out', s'')"
    "run_row rid (tdb s'') = Some r'" "run_status r' = COMPLETED"
    "overall_score r' = Some (final_score rid r (tdb s3))" "version r' = version r + 1"
    "scores (tdb s'') = scores (tdb s3)"
    by (rule finalize_run_ok [OF u row assms(4)])
  from f(1) 4 have "s'' = s'" by simp
  with f new final_score_range [of rid r "tdb s3"] show ?thesis by auto
qed

subsection \<open>Witnesses\<close>

definition checking_chord :: "signature list \<Rightarrow> exn + uuid" where
  "checking_chord gs = (case gs of [] \<Rightarrow> Inr 1
     | g # _ \<Rightarrow> (case check_signature g of Inl e \<Rightarrow> Inl e | Inr _ \<Rightarrow> Inr 1))"

lemma sample_pending:
  "unique_ids (runs (sample_db UNDER_REVIEW PENDING))"
  "run_row 4 (sample_db UNDER_REVIEW PENDING) = Some (sample_run PENDING)"
  "\<not> is_terminal (sample_run PENDING)"
  "filter (\<lambda>x. ident x = submission_id (sample_run PENDING))
     (submissions (sample_db UNDER_REVIEW PENDING)) = [sample_submission UNDER_REVIEW]"
  by (simp_all add: run_row_def sample_run_def sample_submission_def is_terminal_def)

theorem no_evaluation_is_dispatched_witness:
  "\<exists>m d r'. evaluate_submission (\<lambda>_. ''error'') sample_env checking_chord 0 4
       (sample_db UNDER_REVIEW PENDING) = (Inl (Retry (TypeError m)), d)
     \<and> run_row 4 d = Some r' \<and> run_status r' = FAILED"
proof -
  have "checks_arguments checking_chord"
    by (auto simp: checks_arguments_def checking_chord_def split: sum.splits)
  from no_evaluation_is_dispatched [OF this sample_pending] show ?thesis by blast
qed

theorem orchestrator_retry_is_skipped_witness:
  "\<exists>d. evaluate_submission (\<lambda>_. ''error'') sample_env (\<lambda>_. Inl DBAPIError) 1 4 d =
     (Inr (skipped_result ''run already terminal''), d)"
proof -
  let ?db = "sample_db UNDER_REVIEW PENDING"
  obtain r1 db1 where p: "prepare_run sample_env 4 ?db =
      (Inr (run_context 4 r1 (sample_submission UNDER_REVIEW)), db1)"
    by (rule prepare_run_ok [OF sample_pending])
  have "run_context 4 r1 (sample_submission UNDER_REVIEW) \<noteq> []" by (simp add: run_context_def)
  with p have "evaluate_submission (\<lambda>_. ''error'') sample_env (\<lambda>_. Inl DBAPIError) 0 4 ?db =
      (Inl (Retry DBAPIError), fail_run sample_env 4 ''error'' db1)"
    by (simp add: evaluate_submission_def in_session_def Let_def)
  from orchestrator_retry_is_skipped [OF sample_pending(1-3) this,
      of sample_env "\<lambda>_. Inl DBAPIError"]
  show ?thesis by blast
qed

lemma sample_running:
  "unique_ids (runs (tdb sample_tstate))" "run_row 4 (tdb sample_tstate) = Some (sample_run RUNNING)"
  "\<not> is_terminal (sample_run RUNNING)"
  by (simp_all add: sample_tstate_def run_row_def sample_run_def is_terminal_def)

theorem finalize_completes_once_witness:
  "\<exists>out s' r' q. finalize_run sample_task 4 empty_obj sample_tstate = (Inr out, s')
     \<and> run_row 4 (tdb s') = Some r' \<and> overall_score r' = Some q \<and> q \<le> 1"
  using finalize_completes_once [OF sample_running, of sample_task empty_obj sample_task empty_obj]
  by blast

theorem sequential_pipeline_completes_witness:
  "\<exists>out s' r'. sequential_pipeline (\<lambda>_. []) (\<lambda>_. []) call_llm (\<lambda>_. 0) sample_task (\<lambda>k. 50 + k) 4 []
       sample_tstate = (Inr out, s')
     \<and> run_row 4 (tdb s') = Some r' \<and> run_status r' = COMPLETED"
proof -
  obtain cc s1 where 1: "cross_check_task sample_task (\<lambda>k. 50 + k) [] 4 sample_tstate = (Inr cc, s1)"
    and d1: "tdb s1 = tdb sample_tstate"
    by (simp add: cross_check_task_def cross_check_def Let_def)
  obtain fb s2 where 2: "fabrication_detection_task (\<lambda>_. []) sample_task cc 4 s1 = (Inr fb, s2)"
    and d2: "tdb s2 = tdb sample_tstate"
    and fb: "dict_get_default fb ''average_risk_score'' (JNum 0) = JNum 0"
    using d1 by (simp add: fabrication_detection_task_def detect_fabrication_def Let_def
        select_where_def sample_tstate_def dict_get_default_def)
  let ?j = "llm_judge_task (\<lambda>_. []) call_llm (\<lambda>_. 0) sample_task (\<lambda>k. 50 + k) fb 4 s2"
  have "is_ok (fst ?j)"
    using d2 by (simp add: llm_judge_task_def run_llm_judge_def sample_tstate_def sample_run_def
        select_where_def call_llm_def ask_models_def validated_answer_def simulated_valid Let_def)
      (simp add: db_session_def in_session_def store_scores_def simulated_response_def
        DIMENSION_WEIGHTS_def new_score_def dict_get_default_def dim_score_def insert_score_def
        ck_scores_range_def insert_row_def estimate_cost_def usage_json_def log_usage_def)
  then obtain llm s3 where 3: "?j = (Inr llm, s3)" by (cases ?j) (auto simp: is_ok_iff)
  have r3: "runs (tdb s3) = runs (tdb sample_tstate)"
    using judge.step_ok(2) [OF 3] d2 by simp
  then have u3: "unique_ids (runs (tdb s3))"
    and row3: "run_row 4 (tdb s3) = Some (sample_run RUNNING)"
    using sample_running by (simp_all add: run_row_def)
  obtain out s' where 4: "finalize_run (sample_task\<lparr>wtype := ''finalize''\<rparr>) 4 llm s3 = (Inr out, s')"
    by (rule finalize_run_ok [OF u3 row3 sample_running(3)])
  have sp: "sequential_pipeline (\<lambda>_. []) (\<lambda>_. []) call_llm (\<lambda>_. 0) sample_task (\<lambda>k. 50 + k) 4 []
       sample_tstate = (Inr out, s')"
    using 1 2 3 4 by (simp add: sequential_pipeline_def and_then_def finalize_and_notify_task_def)
  have "scores_ok (scores (tdb sample_tstate))"
    by (simp add: sample_tstate_def scores_ok_def uq_scores_run_dimension_def)
  from sequential_pipeline_completes [OF sp sample_running this] sp show ?thesis by blast
qed

end
