(* ===== verification/Progress.thy ===== *)
theory Progress
  imports Pipeline
begin

section \<open>Progress and dead letters (\<open>workers/progress.py\<close>, \<open>api/v1/ws_runs.py\<close>)\<close>

text \<open>
  The readers of what \<open>BaseEvalTask\<close> writes to Redis (theory \<open>BaseTask\<close>): the
  progress of a run, the dead letter queue with its retry, and the stream of published
  updates. Keys expire one hour (progress) and seven days (dead letters) after they are
  written; a reader is given the time. \<open>send\<close> is Celery's \<open>send_task\<close>, which may raise.
\<close>

definition WORKER_TYPES :: "string list" where
  "WORKER_TYPES = [''github_analysis'', ''pitch_deck'', ''video_analysis'', ''web_verification'',
     ''cross_check'', ''fabrication_detection'', ''llm_judge'', ''finalize'']"

definition progress_ttl :: int where "progress_ttl = 3600 * 1000000"
definition dlq_ttl :: int where "dlq_ttl = 604800 * 1000000"

definition live_progress :: "timestamp \<Rightarrow> tstate \<Rightarrow> uuid \<times> string \<Rightarrow> progress_entry option" where
  "live_progress t s k = (case progress s k of
     None \<Rightarrow> None
   | Some e \<Rightarrow> if t < pe_updated_at e + progress_ttl then Some e else None)"

definition live_dlq :: "timestamp \<Rightarrow> tstate \<Rightarrow> uuid \<times> string \<Rightarrow> dlq_entry option" where
  "live_dlq t s k = (case dlq s k of
     None \<Rightarrow> None
   | Some e \<Rightarrow> if t < failed_at e + dlq_ttl then Some e else None)"

subsection \<open>Progress\<close>

record worker_view =
  wv_progress :: int
  wv_detail :: string
  wv_updated_at :: "timestamp option"

record run_progress =
  overall_progress :: int
  progress_workers :: "(string \<times> worker_view) list"

definition worker_progress :: "timestamp \<Rightarrow> tstate \<Rightarrow> uuid \<Rightarrow> string \<Rightarrow> worker_view" where
  "worker_progress t s rid wt = (case live_progress t s (rid, wt) of
     Some e \<Rightarrow> \<lparr>wv_progress = pe_progress e, wv_detail = pe_detail e, wv_updated_at = Some (pe_updated_at e)\<rparr>
   | None \<Rightarrow> \<lparr>wv_progress = 0, wv_detail = ''Not started'', wv_updated_at = None\<rparr>)"

definition get_run_progress :: "timestamp \<Rightarrow> uuid \<Rightarrow> tstate \<Rightarrow> run_progress" where
  "get_run_progress t rid s =
     (if \<not> redis_up s then \<lparr>overall_progress = 0, progress_workers = []\<rparr>
      else let workers = map (\<lambda>wt. (wt, worker_progress t s rid wt)) WORKER_TYPES;
               total_progress = sum_list (map (\<lambda>(_, v). wv_progress v) workers)
           in \<lparr>overall_progress = (if WORKER_TYPES \<noteq> [] then total_progress div int (length WORKER_TYPES) else 0),
               progress_workers = workers\<rparr>)"

subsection \<open>The dead letter queue\<close>

text \<open>\<open>LRANGE key start stop\<close>: both ends are included, a negative index counts from the end.\<close>

definition lrange :: "'a list \<Rightarrow> int \<Rightarrow> int \<Rightarrow> 'a list" where
  "lrange xs start stop =
     (let len = int (length xs);
          i = (if start < 0 then max 0 (len + start) else start);
          j = (if stop < 0 then len + stop else stop)
      in if j < i then [] else take (nat (j - i + 1)) (drop (nat i) xs))"

definition get_dlq_entries :: "timestamp \<Rightarrow> int \<Rightarrow> tstate \<Rightarrow> dlq_entry list" where
  "get_dlq_entries t limit s =
     (if \<not> redis_up s then []
      else List.map_filter (live_dlq t s) (lrange (dlq_all s) 0 (limit - 1)))"

text \<open>\<open>LREM key 1 value\<close> is \<open>remove1\<close>. The result is the answer, the message sent
  (task name and its positional arguments) and the new state.\<close>

definition retry_dlq_entry :: "(string \<Rightarrow> uuid \<Rightarrow> exn + unit) \<Rightarrow> timestamp \<Rightarrow> uuid \<Rightarrow> string \<Rightarrow> tstate
    \<Rightarrow> bool \<times> (string \<times> uuid list) option \<times> tstate" where
  "retry_dlq_entry send t rid wt s =
     (if \<not> redis_up s then (False, None, s)
      else case live_dlq t s (rid, wt) of
             None \<Rightarrow> (False, None, s)
           | Some e \<Rightarrow>
               if task_name e \<noteq> [] then
                 (case send (task_name e) rid of
                    Inl _ \<Rightarrow> (False, None, s)
                  | Inr _ \<Rightarrow> (True, Some (task_name e, [rid]),
                      s\<lparr>dlq := (dlq s)((rid, wt) := None), dlq_all := remove1 (rid, wt) (dlq_all s)\<rparr>))
               else (False, None, s))"

text \<open>The positional parameters of the task functions.\<close>

definition task_params :: "(string \<times> string list) list" where
  "task_params =
    [(''github_analysis'', [''run_id'']), (''pitch_deck'', [''run_id'']),
     (''video_analysis'', [''run_id'']), (''web_verification'', [''run_id'']),
     (''cross_check'', [''parallel_results'', ''run_id'']),
     (''fabrication_detection'', [''cross_check_result'', ''run_id'']),
     (''llm_judge'', [''fabrication_result'', ''run_id'']),
     (''finalize'', [''llm_result'', ''run_id''])]"

definition message_binds :: "string \<Rightarrow> uuid list \<Rightarrow> bool" where
  "message_binds wt args = (case map_of task_params wt of
     None \<Rightarrow> False | Some ps \<Rightarrow> is_ok (bind_arguments ps True (length args) []))"

subsection \<open>The stream\<close>

text \<open>What the subscription delivers: acknowledgements and messages; a message whose
  text does not parse, or that cannot be sent, is logged and skipped.\<close>

datatype pubsub_event = Subscription | Message "json option"

fun stream_loop :: "(json \<Rightarrow> exn + unit) \<Rightarrow> (bool \<times> pubsub_event) list \<Rightarrow> json list" where
  "stream_loop send [] = []"
| "stream_loop send ((disconnected, ev) # evs) =
     (if disconnected then []
      else case ev of
             Subscription \<Rightarrow> stream_loop send evs
           | Message None \<Rightarrow> stream_loop send evs
           | Message (Some j) \<Rightarrow>
               (case send j of Inl _ \<Rightarrow> stream_loop send evs | Inr _ \<Rightarrow> j # stream_loop send evs))"

text \<open>The payload \<open>update_progress\<close> publishes, without its detail and time.\<close>

definition progress_message :: "uuid \<times> string \<times> int \<Rightarrow> json" where
  "progress_message m = JObj [(''worker_type'', JStr (fst (snd m))), (''progress'', JNum (of_int (snd (snd m))))]"

definition channel_events :: "uuid \<Rightarrow> tstate \<Rightarrow> (bool \<times> pubsub_event) list" where
  "channel_events rid s = (False, Subscription) #
     map (\<lambda>m. (False, Message (Some (progress_message m)))) (filter (\<lambda>m. fst m = rid) (published s))"

subsection \<open>Facts\<close>

lemma worker_progress_update:
  "redis_up s \<Longrightarrow> worker_progress t (update_progress tk rid p d s) rid' wt =
     (if rid' = rid \<and> wt = wtype tk \<and> t < now (tenv tk) + progress_ttl
      then \<lparr>wv_progress = p, wv_detail = d, wv_updated_at = Some (now (tenv tk))\<rparr>
      else if rid' = rid \<and> wt = wtype tk then \<lparr>wv_progress = 0, wv_detail = ''Not started'', wv_updated_at = None\<rparr>
      else worker_progress t s rid' wt)"
  by (auto simp: worker_progress_def live_progress_def update_progress_def)

lemma update_progress_up [simp]: "redis_up (update_progress tk rid p d s) = redis_up s"
  by (simp add: update_progress_def)

lemma progress_workers_map_of:
  "redis_up s \<Longrightarrow> wt \<in> set WORKER_TYPES \<Longrightarrow>
   map_of (progress_workers (get_run_progress t rid s)) wt = Some (worker_progress t s rid wt)"
  by (simp add: get_run_progress_def Let_def map_of_map_pair)

lemma overall_progress_eq:
  "redis_up s \<Longrightarrow> overall_progress (get_run_progress t rid s) =
     sum_list (map (\<lambda>wt. wv_progress (worker_progress t s rid wt)) WORKER_TYPES) div 8"
  by (simp add: get_run_progress_def Let_def comp_def WORKER_TYPES_def)

lemma overall_progress_down: "\<not> redis_up s \<Longrightarrow> overall_progress (get_run_progress t rid s) = 0"
  by (simp add: get_run_progress_def)

lemma sum_list_bounds:
  "(\<And>x. x \<in> set xs \<Longrightarrow> lo \<le> f x \<and> f x \<le> (hi::int)) \<Longrightarrow>
   int (length xs) * lo \<le> sum_list (map f xs) \<and> sum_list (map f xs) \<le> int (length xs) * hi"
  by (induction xs) (auto simp: algebra_simps, force+)

lemma overall_progress_range:
  assumes "\<And>k e. progress s k = Some e \<Longrightarrow> 0 \<le> pe_progress e \<and> pe_progress e \<le> 100"
  shows "0 \<le> overall_progress (get_run_progress t rid s)"
    and "overall_progress (get_run_progress t rid s) \<le> 100"
proof -
  have w: "0 \<le> wv_progress (worker_progress t s rid wt) \<and> wv_progress (worker_progress t s rid wt) \<le> 100" for wt
    using assms by (auto simp: worker_progress_def live_progress_def split: option.splits)
  have "0 \<le> sum_list (map (\<lambda>wt. wv_progress (worker_progress t s rid wt)) WORKER_TYPES)"
    "sum_list (map (\<lambda>wt. wv_progress (worker_progress t s rid wt)) WORKER_TYPES) \<le> 800"
    using sum_list_bounds [of WORKER_TYPES 0 "\<lambda>wt. wv_progress (worker_progress t s rid wt)" 100] w
    by (simp_all add: WORKER_TYPES_def)
  then show "0 \<le> overall_progress (get_run_progress t rid s)"
    "overall_progress (get_run_progress t rid s) \<le> 100"
    by (cases "redis_up s"; simp add: overall_progress_eq overall_progress_down)+
qed

lemma published_update: "redis_up s \<Longrightarrow>
   channel_events rid (update_progress tk rid p d s) =
   channel_events rid s @ [(False, Message (Some (progress_message (rid, wtype tk, p))))]"
  by (simp add: channel_events_def update_progress_def)

lemma stream_append:
  "list_all (\<lambda>e. \<not> fst e) evs \<Longrightarrow> stream_loop send (evs @ evs') = stream_loop send evs @ stream_loop send evs'"
  by (induction send evs rule: stream_loop.induct) (auto split: pubsub_event.splits option.splits sum.splits)

lemma channel_connected: "list_all (\<lambda>e. \<not> fst e) (channel_events rid s)"
  by (simp add: channel_events_def list_all_iff)

lemma get_progress_other_run:
  "rid' \<noteq> rid \<Longrightarrow> get_run_progress t rid' (update_progress tk rid p d s) = get_run_progress t rid' s"
proof (cases "redis_up s")
  case True
  moreover assume "rid' \<noteq> rid"
  ultimately show ?thesis by (simp add: get_run_progress_def worker_progress_update)
qed (simp add: update_progress_def)

lemma lrange_prefix: "1 \<le> n \<Longrightarrow> lrange xs 0 (n - 1) = take (nat n) xs"
  by (simp add: lrange_def)

lemma live_dlq_sent:
  "redis_up s \<Longrightarrow> hostname tk = Some h \<Longrightarrow> t < now (tenv tk) + dlq_ttl \<Longrightarrow>
   live_dlq t (send_to_dlq tk rid kw s) (rid, wtype tk) = Some \<lparr>task_name = name tk,
     dlq_run_id = rid, dlq_worker_type = wtype tk, dlq_kwargs = kw, retries = request_retries tk,
     dlq_hostname = h, failed_at = now (tenv tk)\<rparr>"
  by (simp add: live_dlq_def send_to_dlq_def)

lemma dlq_all_sent:
  "redis_up s \<Longrightarrow> hostname tk = Some h \<Longrightarrow>
   dlq_all (send_to_dlq tk rid kw s) = (rid, wtype tk) # take 9999 (dlq_all s)"
  by (simp add: send_to_dlq_def)

lemma send_to_dlq_up [simp]: "redis_up (send_to_dlq tk rid kw s) = redis_up s"
  by (simp add: send_to_dlq_def split: option.splits)

lemma message_binds_analyses:
  "wt \<in> set WORKER_TYPES \<Longrightarrow> message_binds wt [rid] \<longleftrightarrow>
     wt \<in> {''github_analysis'', ''pitch_deck'', ''video_analysis'', ''web_verification''}"
  by (auto simp: WORKER_TYPES_def message_binds_def task_params_def bind_arguments_def)

subsection \<open>Properties\<close>

text \<open>What a task reports is what a client reads, by polling and on the stream: within the hour
  the worker shows the reported progress, text and time, all other workers and runs are as
  before, the stream carries the update last, and the overall progress stays between 0 and 100.
  After an hour the worker is reported as not started again.\<close>

theorem progress_roundtrip:
  assumes up: "redis_up s" and wt: "wtype tk \<in> set WORKER_TYPES"
    and t: "t < now (tenv tk) + progress_ttl" "now (tenv tk) + progress_ttl \<le> t'"
    and ok: "\<And>j. send j = Inr ()" and p: "0 \<le> p" "p \<le> 100"
    and old: "\<And>k e. progress s k = Some e \<Longrightarrow> 0 \<le> pe_progress e \<and> pe_progress e \<le> 100"
    and other: "wt' \<in> set WORKER_TYPES" "wt' \<noteq> wtype tk" "rid' \<noteq> rid"
  shows "map_of (progress_workers (get_run_progress t rid (update_progress tk rid p d s))) (wtype tk) =
      Some \<lparr>wv_progress = p, wv_detail = d, wv_updated_at = Some (now (tenv tk))\<rparr>
    \<and> map_of (progress_workers (get_run_progress t rid (update_progress tk rid p d s))) wt' =
      map_of (progress_workers (get_run_progress t rid s)) wt'
    \<and> get_run_progress t rid' (update_progress tk rid p d s) = get_run_progress t rid' s
    \<and> stream_loop send (channel_events rid (update_progress tk rid p d s)) =
      stream_loop send (channel_events rid s) @ [progress_message (rid, wtype tk, p)]
    \<and> overall_progress (get_run_progress t rid (update_progress tk rid p d s)) \<in> {0..100}
    \<and> map_of (progress_workers (get_run_progress t' rid (update_progress tk rid p d s))) (wtype tk) =
      Some \<lparr>wv_progress = 0, wv_detail = ''Not started'', wv_updated_at = None\<rparr>"
proof -
  let ?s = "update_progress tk rid p d s"
  have up': "redis_up ?s" using up by simp
  have range: "0 \<le> pe_progress e \<and> pe_progress e \<le> 100" if "progress ?s k = Some e" for k e
    using that p old up by (auto simp: update_progress_def split: if_splits)
  have "overall_progress (get_run_progress t rid ?s) \<in> {0..100}"
    using overall_progress_range [of ?s t rid] range by auto
  moreover have "stream_loop send (channel_events rid ?s) =
      stream_loop send (channel_events rid s) @ [progress_message (rid, wtype tk, p)]"
    by (simp add: published_update [OF up] stream_append [OF channel_connected] ok)
  moreover have "get_run_progress t rid' ?s = get_run_progress t rid' s"
    by (rule get_progress_other_run) (rule other(3))
  ultimately show ?thesis
    using wt other t
    by (simp add: progress_workers_map_of [OF up'] progress_workers_map_of [OF up]
        worker_progress_update [OF up])
qed

text \<open>A task that went to the dead letter queue is the first entry listed and can be retried once:
  the retry sends its task name with the run id as only argument, so the keyword arguments are
  lost and the message binds to the four analyses but never to the four later tasks, whose first
  parameter is the result of the step before; the entry is gone in either case.\<close>

theorem dead_letter_retry:
  assumes up: "redis_up s" and h: "hostname tk = Some h" and nm: "name tk \<noteq> []"
    and t: "t < now (tenv tk) + dlq_ttl" and lim: "1 \<le> limit"
    and ok: "\<And>n r. send n r = Inr ()" and wt: "wtype tk \<in> set WORKER_TYPES"
  shows "\<exists>e s'. hd (get_dlq_entries t limit (send_to_dlq tk rid kw s)) = e \<and> dlq_kwargs e = kw
    \<and> retry_dlq_entry send t rid (wtype tk) (send_to_dlq tk rid kw s) =
        (True, Some (name tk, [rid]), s')
    \<and> (message_binds (wtype tk) [rid] \<longleftrightarrow>
        wtype tk \<in> {''github_analysis'', ''pitch_deck'', ''video_analysis'', ''web_verification''})
    \<and> dlq s' (rid, wtype tk) = None
    \<and> retry_dlq_entry send t rid (wtype tk) s' = (False, None, s')"
proof -
  let ?s = "send_to_dlq tk rid kw s"
  note live = live_dlq_sent [OF up h t, of rid kw]
  have "get_dlq_entries t limit ?s = List.map_filter (live_dlq t ?s)
      ((rid, wtype tk) # take (nat limit - 1) (take 9999 (dlq_all s)))"
    using lim up by (cases "nat limit")
      (simp_all add: get_dlq_entries_def lrange_prefix dlq_all_sent [OF up h])
  then have "hd (get_dlq_entries t limit ?s) = the (live_dlq t ?s (rid, wtype tk))"
    by (simp add: live List.map_filter_def)
  then show ?thesis
    using message_binds_analyses [OF wt] up live nm
    by (simp add: retry_dlq_entry_def ok live_dlq_def)
qed

subsection \<open>Witnesses\<close>

theorem progress_roundtrip_witness:
  "map_of (progress_workers (get_run_progress 2000 4 (update_progress sample_task 4 40 ''parsing'' sample_tstate)))
     ''github_analysis'' = Some \<lparr>wv_progress = 40, wv_detail = ''parsing'', wv_updated_at = Some 1000\<rparr>"
  using progress_roundtrip [of sample_tstate sample_task 2000 "progress_ttl + 1000" "\<lambda>_. Inr ()" 40
      "''finalize''" 5 4 "''parsing''"]
  by (simp add: sample_tstate_def sample_task_def sample_env_def WORKER_TYPES_def progress_ttl_def)

theorem dead_letter_retry_witness:
  "\<exists>s'. retry_dlq_entry (\<lambda>_ _. Inr ()) 2000 4 ''github_analysis''
     (send_to_dlq (sample_task\<lparr>hostname := Some ''w1''\<rparr>) 4 JNull sample_tstate) = (True, Some (''t'', [4]), s')"
  using dead_letter_retry [of sample_tstate "sample_task\<lparr>hostname := Some ''w1''\<rparr>" "''w1''" 2000 50
      "\<lambda>_ _. Inr ()" 4 JNull]
  by (auto simp: sample_tstate_def sample_task_def sample_env_def WORKER_TYPES_def dlq_ttl_def)

end
