(* ===== verification/Analyses.thy ===== *)
theory Analyses
  imports CrossCheck
begin

section \<open>The analyses (\<open>web_verification.py\<close>, \<open>pitch_deck.py\<close>, \<open>video_analysis.py\<close>)\<close>

text \<open>
  Three of the four parallel analyses of \<open>workers/tasks\<close>. Each takes the context of a run and
  returns a JSON object with scores and claims. The outside world is a parameter: \<open>http\<close>
  answers a GET, \<open>download\<close> fetches an object and gives its size, \<open>head\<close> and
  \<open>read_range\<close> are S3's calls, \<open>str_exn\<close> is the text of an exception. Temporary files
  and sleeping have no effect in the model.
\<close>

subsection \<open>What an analysis returns\<close>

definition scores_json :: "(string \<times> rat) list \<Rightarrow> json" where
  "scores_json kvs = JObj (map (\<lambda>(k, v). (k, JNum v)) kvs)"

definition failed_output :: "string \<Rightarrow> string \<Rightarrow> (string \<times> rat) list \<Rightarrow> json" where
  "failed_output st reason kvs =
     JObj [(''status'', JStr st), (''reason'', JStr reason), (''scores'', scores_json kvs)]"

definition claim_json :: "string \<Rightarrow> string \<Rightarrow> rat \<Rightarrow> string option \<Rightarrow> json" where
  "claim_json txt cat conf source =
     JObj ([(''text'', JStr txt), (''category'', JStr cat), (''confidence'', JNum conf)]
       @ (case source of None \<Rightarrow> [] | Some s \<Rightarrow> [(''source_reference'', JStr s)]))"

definition rstrip_char :: "char \<Rightarrow> string \<Rightarrow> string" where
  "rstrip_char c s = rev (dropWhile (\<lambda>d. d = c) (rev s))"

subsection \<open>Web verification\<close>

record http_response =
  http_status :: int
  http_headers :: "(string \<times> string) list"
  http_json :: "exn + json"
  http_text :: string

definition timeout_exception :: exn where
  "timeout_exception = ExternalError ''timeout''"

definition key_pages :: "(string \<times> string list) list" where
  "key_pages = [(''about'', [''/about'', ''/about-us'', ''/team'']),
     (''pricing'', [''/pricing'', ''/plans'']), (''blog'', [''/blog'', ''/news'']),
     (''contact'', [''/contact'', ''/support'']),
     (''docs'', [''/docs'', ''/documentation'', ''/api''])]"

definition social_signals :: "(string \<times> string list) list" where
  "social_signals = [(''customers'', [''customer'', ''client'', ''trusted by'']),
     (''partners'', [''partner'', ''integration'', ''powered by'']),
     (''press'', [''featured in'', ''as seen in'', ''press'']),
     (''metrics'', [''users'', ''revenue'', ''growth'', ''%''])]"

definition page_found :: "(string \<Rightarrow> exn + http_response) \<Rightarrow> string \<Rightarrow> string list \<Rightarrow> bool" where
  "page_found http url paths =
     list_ex (\<lambda>p. case http (rstrip_char CHR ''/'' url @ p) of
                    Inl _ \<Rightarrow> False | Inr r \<Rightarrow> http_status r = 200) paths"

definition pages_found :: "(string \<Rightarrow> exn + http_response) \<Rightarrow> string \<Rightarrow> (string \<times> bool) list" where
  "pages_found http url =
     (''main'', True) # map (\<lambda>(page, paths). (page, page_found http url paths)) key_pages"

text \<open>The first keyword of a signal that occurs gives one claim.\<close>

definition signal_claims :: "string \<Rightarrow> string \<Rightarrow> json list" where
  "signal_claims url html =
     concat (map (\<lambda>(signal, kws).
       case find (\<lambda>kw. str_contains kw html) kws of
         None \<Rightarrow> []
       | Some kw \<Rightarrow> [claim_json (''Website mentions '' @ signal @ '' ('' @ kw @ '')'')
                       (if signal \<noteq> ''metrics'' then signal else ''traction'') (6/10)
                       (Some (''Website: '' @ url))]) social_signals)"

definition count_true :: "(string \<times> bool) list \<Rightarrow> nat" where
  "count_true kvs = length (filter snd kvs)"

definition web_output :: "(string \<Rightarrow> exn + http_response) \<Rightarrow> string \<Rightarrow> string \<Rightarrow> json" where
  "web_output http url html =
     (let pages = pages_found http url;
          html_lower = str_lower html;
          content_length = length html;
          pages_score = of_nat (count_true pages) / of_nat (length pages);
          content_score = min 1 (of_nat content_length / 50000);
          https = starts_with ''https'' url;
          ssl_score = if https then 1 else 3/10;
          has_structured_data = str_contains ''application/ld+json'' html_lower;
          has_meta_og = str_contains (''property='' @ [CHR 0x22] @ ''og:'') html_lower;
          tech_score = 5/10 + (if has_structured_data then 25/100 else 0)
                            + (if has_meta_og then 25/100 else 0)
      in JObj
        [(''status'', JStr ''completed''),
         (''scores'', scores_json
            [(''web_presence'', py_round 4 pages_score),
             (''content_richness'', py_round 4 content_score),
             (''security'', py_round 4 ssl_score),
             (''technical_quality'', py_round 4 tech_score)]),
         (''metadata'', JObj
            [(''pages_found'', JObj (map (\<lambda>(k, b). (k, JBool b)) pages)),
             (''content_length_bytes'', JNum (of_nat content_length)),
             (''is_https'', JBool https),
             (''has_structured_data'', JBool has_structured_data),
             (''has_opengraph'', JBool has_meta_og)]),
         (''claims'', JArr (signal_claims url html_lower))])"

definition verify_web :: "(string \<Rightarrow> exn + http_response) \<Rightarrow> (exn \<Rightarrow> string) \<Rightarrow> task \<Rightarrow> uuid \<Rightarrow> json
    \<Rightarrow> tstate \<Rightarrow> (tstate, json) outcome" where
  "verify_web http str_exn t rid ctx s =
     (let website_url = dict_get_default ctx ''website_url'' (JStr [])
      in if \<not> json_truthy website_url
         then (Inr (failed_output ''skipped'' ''No website URL provided'' []), s)
         else let s1 = update_progress t rid 10 ''Fetching website'' s
              in case (case website_url of JStr url \<Rightarrow> (case http url of Inl e \<Rightarrow> Inl e | Inr r \<Rightarrow> Inr (url, r))
                                         | _ \<Rightarrow> Inl (TypeError ''url'')) of
                   Inl e \<Rightarrow>
                     (Inr (if e = timeout_exception
                           then failed_output ''error'' ''Website request timed out'' [(''web_presence'', 1/10)]
                           else failed_output ''error'' (''Web verification failed: '' @ str_exn e) []), s1)
                 | Inr (url, resp) \<Rightarrow>
                     if http_status resp \<noteq> 200
                     then (Inr (failed_output ''error'' (''Website returned HTTP '' @ int_str (http_status resp))
                                  [(''web_presence'', 2/10)]), s1)
                     else (Inr (web_output http url (http_text resp)),
                           update_progress t rid 80 ''Computing web presence scores''
                             (update_progress t rid 60 ''Extracting claims''
                               (update_progress t rid 40 ''Crawling key pages''
                                 (update_progress t rid 30 ''Analyzing page content'' s1)))))"

subsection \<open>Pitch decks\<close>

text \<open>\<open>url_path\<close> is \<open>urlparse(u).path\<close>.\<close>

definition pitch_deck_key :: "(string \<Rightarrow> string) \<Rightarrow> string \<Rightarrow> string \<Rightarrow> string" where
  "pitch_deck_key url_path bucket url =
     (if starts_with ''http'' url
      then let key = dropWhile (\<lambda>c. c = CHR ''/'') (url_path url)
           in if starts_with bucket key then drop (length bucket + 1) key else key
      else url)"

definition slide_text :: "nat \<Rightarrow> string" where
  "slide_text i = ''[Slide '' @ nat_str (i + 1) @ '' content extracted]''"

definition slide_json :: "nat \<Rightarrow> json" where
  "slide_json i = JObj [(''slide_number'', JNum (of_nat (i + 1))), (''text'', JStr (slide_text i)),
     (''has_images'', JBool True),
     (''estimated_word_count'', JNum (of_nat (count_words False (slide_text i))))]"

definition deck_text :: "nat \<Rightarrow> string" where
  "deck_text n = concat (map (\<lambda>i. slide_text i @ [CHR 0x0A]) [0..<n])"

definition section_keywords :: "(string \<times> string list) list" where
  "section_keywords = [(''problem'', [''problem'', ''pain point'', ''challenge'']),
     (''solution'', [''solution'', ''product'', ''platform'']),
     (''market'', [''market'', ''tam'', ''sam'', ''addressable'']),
     (''business_model'', [''revenue'', ''business model'', ''monetization'']),
     (''team'', [''team'', ''founders'', ''experience'']),
     (''financials'', [''financial'', ''projection'', ''revenue'', ''arr'']),
     (''traction'', [''traction'', ''growth'', ''users'', ''customers'']),
     (''ask'', [''funding'', ''raise'', ''investment'', ''ask''])]"

definition key_sections :: "string \<Rightarrow> (string \<times> bool) list" where
  "key_sections txt = map (\<lambda>(sec, kws). (sec, list_ex (\<lambda>kw. str_contains kw txt) kws)) section_keywords"

definition section_claims :: "(string \<times> bool) list \<Rightarrow> json list" where
  "section_claims secs =
     (let found = \<lambda>sec. map_of secs sec = Some True;
          src = Some ''Pitch deck analysis''
      in (if found ''financials''
          then [claim_json ''Pitch deck contains financial projections'' ''financials'' (8/10) src] else [])
       @ (if found ''traction''
          then [claim_json ''Startup claims traction metrics in pitch deck'' ''traction'' (7/10) src] else [])
       @ (if found ''team''
          then [claim_json ''Team section present in pitch deck'' ''team'' (9/10) src] else []))"

definition deck_output :: "nat \<Rightarrow> json" where
  "deck_output file_size =
     (let slide_count = max 1 (file_size div 50000);
          n = min slide_count 50;
          total_words = sum_list (map (\<lambda>i. count_words False (slide_text i)) [0..<n]);
          secs = key_sections (str_lower (deck_text n));
          content_quality = min 1 (of_nat total_words / 2000);
          structure_score = of_nat (count_true secs) / of_nat (length secs);
          depth_score = min 1 (of_nat slide_count / 15)
      in JObj
        [(''status'', JStr ''completed''),
         (''scores'', scores_json
            [(''content_quality'', py_round 4 content_quality),
             (''structure_completeness'', py_round 4 structure_score),
             (''depth'', py_round 4 depth_score)]),
         (''metadata'', JObj
            [(''slide_count'', JNum (of_nat slide_count)), (''total_words'', JNum (of_nat total_words)),
             (''sections_found'', JObj (map (\<lambda>(k, b). (k, JBool b)) secs)),
             (''sections_covered'', JNum (of_nat (count_true secs))),
             (''file_size_bytes'', JNum (of_nat file_size))]),
         (''claims'', JArr (section_claims secs)),
         (''slides'', JArr (map slide_json (take 5 [0..<n])))])"

definition analyze_pitch_deck :: "(string \<Rightarrow> exn + nat) \<Rightarrow> (string \<Rightarrow> string) \<Rightarrow> string \<Rightarrow> (exn \<Rightarrow> string)
    \<Rightarrow> task \<Rightarrow> uuid \<Rightarrow> json \<Rightarrow> tstate \<Rightarrow> (tstate, json) outcome" where
  "analyze_pitch_deck download url_path bucket str_exn t rid ctx s =
     (let url = dict_get_default ctx ''pitch_deck_url'' (JStr [])
      in if \<not> json_truthy url
         then (Inr (failed_output ''skipped'' ''No pitch deck URL provided'' []), s)
         else let s1 = update_progress t rid 10 ''Downloading pitch deck from S3'' s
              in case (case url of JStr u \<Rightarrow> download (pitch_deck_key url_path bucket u)
                                 | _ \<Rightarrow> Inl (AttributeError ''startswith'')) of
                   Inl e \<Rightarrow> (Inr (failed_output ''error''
                               (''Failed to download pitch deck: '' @ str_exn e) []), s1)
                 | Inr file_size \<Rightarrow>
                     let s2 = update_progress t rid 30 ''Extracting text content'' s1
                     in if file_size = 0
                        then (Inr (failed_output ''error'' ''Pitch deck file is empty (0 bytes)'' []), s2)
                        else (Inr (deck_output file_size),
                              update_progress t rid 90 ''Computing scores''
                                (update_progress t rid 70 ''Extracting claims''
                                  (update_progress t rid 50 ''Analyzing content structure'' s2))))"

subsection \<open>Videos\<close>

definition chunk_size :: nat where
  "chunk_size = 1048576"

definition bytes_per_second :: nat where
  "bytes_per_second = 131072"

text \<open>The byte range of a chunk, both ends included.\<close>

definition chunk_range :: "nat \<Rightarrow> nat \<Rightarrow> nat \<times> nat" where
  "chunk_range content_length i =
     (i * chunk_size, min (i * chunk_size + chunk_size - 1) (content_length - 1))"

definition segment_text :: "nat \<Rightarrow> string" where
  "segment_text i = ''[Transcribed segment '' @ nat_str (i + 1) @ '']''"

definition duration :: "nat \<Rightarrow> rat" where
  "duration n = of_nat n / of_nat bytes_per_second"

definition fmt_fixed0 :: "rat \<Rightarrow> string" where
  "fmt_fixed0 q = int_str (round_half_even q)"

definition chunk_progress :: "nat \<Rightarrow> nat \<Rightarrow> int" where
  "chunk_progress processed total_chunks =
     min 80 (py_int (10 + of_nat processed / of_nat total_chunks * 70))"

text \<open>The loop over the chunks: the indices that could be read, in order, and the progress
  reported after each of them; an unreadable chunk is skipped.\<close>

fun read_chunks :: "(nat \<times> nat \<Rightarrow> exn + unit) \<Rightarrow> (nat \<Rightarrow> tstate \<Rightarrow> tstate) \<Rightarrow> nat \<Rightarrow> nat list
    \<Rightarrow> nat list \<Rightarrow> tstate \<Rightarrow> nat list \<times> tstate" where
  "read_chunks read_range report len [] got s = (got, s)"
| "read_chunks read_range report len (i # is) got s =
     (case read_range (chunk_range len i) of
        Inl _ \<Rightarrow> read_chunks read_range report len is got s
      | Inr _ \<Rightarrow> let got' = got @ [i]
                 in read_chunks read_range report len is got' (report (length got') s))"

definition video_output :: "nat \<Rightarrow> nat \<Rightarrow> nat list \<Rightarrow> json" where
  "video_output len total_chunks got =
     (let transcript = join_with '' '' (map segment_text got);
          word_count = count_words False transcript;
          clarity_score = min 1 (of_nat word_count / 1000);
          completeness = min 1 (of_nat (length got) / 20);
          presentation_score = 7/10
      in JObj
        [(''status'', JStr ''completed''),
         (''scores'', scores_json
            [(''presentation_clarity'', py_round 4 clarity_score),
             (''content_completeness'', py_round 4 completeness),
             (''presentation_quality'', py_round 4 presentation_score)]),
         (''metadata'', JObj
            [(''video_size_bytes'', JNum (of_nat len)),
             (''estimated_duration_sec'', JNum (py_round 1 (duration len))),
             (''segments_transcribed'', JNum (of_nat (length got))),
             (''word_count'', JNum (of_nat word_count)),
             (''chunks_processed'', JNum (of_nat (length got))),
             (''chunks_total'', JNum (of_nat total_chunks))]),
         (''claims'', JArr (if got \<noteq> []
            then [claim_json (''Video pitch is approximately '' @ fmt_fixed0 (duration len) @ '' seconds long'')
                    ''product'' (9/10) (Some ''Video analysis'')] else [])),
         (''transcript_preview'', JStr (take 500 transcript))])"

definition analyze_video :: "(json \<Rightarrow> exn + nat) \<Rightarrow> (json \<Rightarrow> nat \<times> nat \<Rightarrow> exn + unit) \<Rightarrow> (exn \<Rightarrow> string)
    \<Rightarrow> task \<Rightarrow> uuid \<Rightarrow> json \<Rightarrow> tstate \<Rightarrow> (tstate, json) outcome" where
  "analyze_video head read_range str_exn t rid ctx s =
     (case dict_get_default ctx ''metadata'' empty_obj of
        JObj meta \<Rightarrow>
         (let video_url = dict_get_default (JObj meta) ''video_url'' (JStr [])
          in if \<not> json_truthy video_url
             then (Inr (failed_output ''skipped'' ''No video URL provided'' []), s)
             else let s1 = update_progress t rid 5 ''Initializing video stream'' s
                  in case head video_url of
                       Inl e \<Rightarrow> (Inr (failed_output ''error'' (''Cannot access video: '' @ str_exn e) []), s1)
                     | Inr len \<Rightarrow>
                         if len = 0
                         then (Inr (failed_output ''error'' ''Video file is empty'' []), s1)
                         else let total_chunks = max 1 (len div chunk_size);
                                  report = \<lambda>p. update_progress t rid (chunk_progress p total_chunks)
                                    (''Processed '' @ fmt_fixed0 (duration (p * chunk_size)) @ ''s of ~''
                                       @ fmt_fixed0 (duration len) @ ''s audio'');
                                  s2 = update_progress t rid 10 ''Streaming video from S3'' s1
                              in case read_chunks (read_range video_url) report len
                                        [0..<min total_chunks 100] [] s2 of
                                   (got, s3) \<Rightarrow>
                                     (Inr (video_output len total_chunks got),
                                      update_progress t rid 90 ''Extracting claims from video''
                                        (update_progress t rid 85 ''Analyzing transcription'' s3)))
      | _ \<Rightarrow> (Inl (AttributeError ''get''), s))"

subsection \<open>The contract of an analysis\<close>

text \<open>What the later steps rely on: scores between 0 and 1, and claims that have text, category
  and a confidence between 0 and 1.\<close>

definition score_ok :: "string \<times> json \<Rightarrow> bool" where
  "score_ok kv = (case number_of (snd kv) of None \<Rightarrow> False | Some q \<Rightarrow> 0 \<le> q \<and> q \<le> 1)"

definition scores_ok :: "json \<Rightarrow> bool" where
  "scores_ok out =
     (case json_get out ''scores'' of
        None \<Rightarrow> True | Some (JObj kvs) \<Rightarrow> list_all score_ok kvs | Some _ \<Rightarrow> False)"

fun is_text :: "json \<Rightarrow> bool" where
  "is_text (JStr _) = True"
| "is_text _ = False"

fun unit_number :: "json \<Rightarrow> bool" where
  "unit_number (JNum q) = (0 \<le> q \<and> q \<le> 1)"
| "unit_number _ = False"

fun field_ok :: "(json \<Rightarrow> bool) \<Rightarrow> bool \<Rightarrow> json option \<Rightarrow> bool" where
  "field_ok P required None = (\<not> required)"
| "field_ok P required (Some v) = P v"

definition claim_ok :: "json \<Rightarrow> bool" where
  "claim_ok c =
     (case c of
        JObj kvs \<Rightarrow> field_ok is_text True (map_of kvs ''text'')
          \<and> field_ok is_text True (map_of kvs ''category'')
          \<and> field_ok unit_number True (map_of kvs ''confidence'')
          \<and> field_ok is_text False (map_of kvs ''source_reference'')
      | _ \<Rightarrow> False)"

definition claims_ok :: "json \<Rightarrow> bool" where
  "claims_ok out =
     (case json_get out ''claims'' of
        None \<Rightarrow> True | Some (JArr cs) \<Rightarrow> list_all claim_ok cs | Some _ \<Rightarrow> False)"

definition output_ok :: "json \<Rightarrow> bool" where
  "output_ok out \<longleftrightarrow> scores_ok out \<and> claims_ok out"

definition stored_ok :: "db \<Rightarrow> bool" where
  "stored_ok db \<longleftrightarrow>
     (\<forall>w \<in> set (worker_results db). wr_status w = W_COMPLETED \<longrightarrow> output_ok (output_data w))"

lemma stored_okI:
  "(\<And>w. w \<in> set (worker_results db) \<Longrightarrow> wr_status w = W_COMPLETED \<Longrightarrow> output_ok (output_data w)) \<Longrightarrow> stored_ok db"
  by (auto simp: stored_ok_def)

lemma stored_ok_create:
  "create_worker_result t nid rid tid host db = (r, db') \<Longrightarrow> stored_ok db \<Longrightarrow> stored_ok db'"
  by (auto simp: create_worker_result_def stored_ok_def insert_row_def new_worker_result_def
      set_update_where split: sum.splits option.splits)

lemma stored_ok_completed:
  "stored_ok db \<Longrightarrow> output_ok out \<Longrightarrow> stored_ok (snd (mark_completed t rid out db))"
  by (auto simp: mark_completed_def stored_ok_def Let_def set_update_where)

lemma stored_ok_failed: "stored_ok db \<Longrightarrow> stored_ok (snd (mark_failed_db t rid err db))"
  by (auto simp: mark_failed_db_def stored_ok_def Let_def set_update_where)

lemma stored_ok_cached:
  "stored_ok db \<Longrightarrow> fst (check_idempotent t rid db) = Inr (Some out) \<Longrightarrow> output_ok out"
  by (auto simp: check_idempotent_def stored_ok_def select_where_def
      split: sum.splits option.splits if_splits dest!: filter_singletonD)

text \<open>Where a body that raised stopped.\<close>

lemma run_body_errE:
  assumes "run_body t nid rid execute s = (Inl e, s')"
  obtains "s' = s"
  | db1 where "create_worker_result t nid rid (request_task_id t)
         (case hostname t of None \<Rightarrow> ''unknown'' | Some h \<Rightarrow> if h = [] then ''unknown'' else h)
         (tdb s) = (Inr (), db1)"
      "execute (update_progress t rid 0 [] (s\<lparr>tdb := db1\<rparr>)) = (Inl e, s')"
proof -
  let ?h = "case hostname t of None \<Rightarrow> ''unknown'' | Some h \<Rightarrow> if h = [] then ''unknown'' else h"
  obtain r1 db1 where c: "create_worker_result t nid rid (request_task_id t) ?h (tdb s) = (r1, db1)"
    by fastforce
  consider e1 where "fst (check_idempotent t rid (tdb s)) = Inl e1"
    | x where "fst (check_idempotent t rid (tdb s)) = Inr (Some x)"
    | "fst (check_idempotent t rid (tdb s)) = Inr None"
    by (metis not_None_eq sum.exhaust)
  then show ?thesis
  proof cases
    case 1
    with assms that(1) show ?thesis by (simp add: run_body_def check_session)
  next
    case 2
    with assms show ?thesis by (simp add: run_body_def check_session)
  next
    case 3
    show ?thesis
    proof (cases r1)
      case (Inl e1)
      with c have "db_session (create_worker_result t nid rid (request_task_id t) ?h) s = (Inl e1, s)"
        by (simp add: db_session_err)
      with 3 assms that(1) show ?thesis by (simp add: run_body_def check_session)
    next
      case (Inr u)
      then have u: "db_session (create_worker_result t nid rid (request_task_id t) ?h) s = (Inr (), s\<lparr>tdb := db1\<rparr>)"
        using c by (simp add: db_session_ok)
      obtain r2 s2 where x: "execute (update_progress t rid 0 [] (s\<lparr>tdb := db1\<rparr>)) = (r2, s2)"
        by fastforce
      with 3 u assms have "r2 = Inl e" "s2 = s'"
        by (cases r2; simp add: run_body_def check_session mark_completed_session)+
      with that(2) [of db1] c x Inr show ?thesis by simp
    qed
  qed
qed

locale analysis =
  fixes analyze :: "task \<Rightarrow> uuid \<Rightarrow> json \<Rightarrow> tstate \<Rightarrow> (tstate, json) outcome"
  assumes keeps_db: "tdb (snd (analyze t rid ctx s)) = tdb s"
    and returns_ok: "analyze t rid ctx s = (Inr out, s') \<Longrightarrow> output_ok out"
begin

text \<open>An analysis under the wrapper of the base task returns and stores good outputs only.\<close>

lemma completed_output_ok:
  assumes "base_run str_exn t nid rid kw (analyze t rid ctx) s = (Inr out, s')" "stored_ok (tdb s)"
  shows "output_ok out \<and> stored_ok (tdb s')"
  using base_run_ok [OF assms(1)]
proof (cases rule: run_body_okE)
  case cached
  with stored_ok_cached [OF assms(2)] assms(2) show ?thesis by simp
next
  case (executed db1 s3)
  have ok: "output_ok out" by (rule returns_ok [OF executed(3)])
  have "tdb s3 = db1"
    using keeps_db [of t rid ctx "update_progress t rid 0 [] (s\<lparr>tdb := db1\<rparr>)"] executed(3) by simp
  with stored_ok_completed [OF stored_ok_create [OF executed(2) assms(2)] ok] executed(4) ok
  show ?thesis by simp
qed

text \<open>A failing execution stores no output, so the table stays good in every case.\<close>

lemma run_keeps_stored_ok:
  assumes "base_run str_exn t nid rid kw (analyze t rid ctx) s = (r, s')" "stored_ok (tdb s)"
  shows "stored_ok (tdb s')"
proof (cases r)
  case (Inr out)
  with assms completed_output_ok show ?thesis by blast
next
  case (Inl e)
  obtain e' s1 where b: "run_body t nid rid (analyze t rid ctx) s = (Inl e', s1)"
    using assms(1) Inl by (auto simp: base_run_def split: prod.splits sum.splits exn.splits)
  have "stored_ok (tdb s1)" using b
  proof (cases rule: run_body_errE)
    case 1
    with assms(2) show ?thesis by simp
  next
    case (2 db1)
    have "tdb s1 = db1"
      using keeps_db [of t rid ctx "update_progress t rid 0 [] (s\<lparr>tdb := db1\<rparr>)"] 2(2) by simp
    with stored_ok_create [OF 2(1) assms(2)] show ?thesis by simp
  qed
  then show ?thesis
    using assms(1) b by (auto simp: base_run_def mark_failed_eq stored_ok_failed split: exn.splits)
qed

end

subsection \<open>The three analyses keep it\<close>

named_theorems output_simps \<open>equations that evaluate the checks on an output\<close>

lemma scores_json_ok [output_simps]:
  "json_get (JObj kvs) ''scores'' = Some (scores_json ps) \<Longrightarrow>
   scores_ok (JObj kvs) \<longleftrightarrow> list_all (\<lambda>(k, q). 0 \<le> q \<and> q \<le> 1) ps"
  by (auto simp: scores_ok_def scores_json_def list_all_iff score_ok_def)

lemma failed_output_ok: "list_all (\<lambda>(k, q). 0 \<le> q \<and> q \<le> 1) ps \<Longrightarrow> output_ok (failed_output st why ps)"
  by (simp add: output_ok_def failed_output_def claims_ok_def scores_json_ok)

lemma claim_json_ok [output_simps]:
  "claim_ok (claim_json txt cat conf src) \<longleftrightarrow> 0 \<le> conf \<and> conf \<le> 1"
  by (auto simp: claim_ok_def claim_json_def split: option.splits)

lemma ratio_bounds:
  "m \<le> n \<Longrightarrow> 0 \<le> (of_nat m / of_nat n :: rat) \<and> of_nat m / of_nat n \<le> (1 :: rat)"
  by (cases "n = 0") (simp_all add: divide_le_eq_1)

lemma count_true_le: "count_true kvs \<le> length kvs"
  by (simp add: count_true_def)

lemma py_round_unit:
  "0 \<le> q \<and> q \<le> 1 \<Longrightarrow> 0 \<le> py_round n q \<and> py_round n q \<le> 1"
  by (simp add: py_round_ge0 py_round_le1)

lemma signal_claims_ok: "list_all claim_ok (signal_claims url html)"
  unfolding signal_claims_def list_all_iff
  by (auto simp: claim_json_ok split: option.splits)

lemma web_output_ok: "output_ok (web_output http url html)"
proof -
  let ?pages = "pages_found http url"
  have "0 \<le> (of_nat (count_true ?pages) / of_nat (length ?pages) :: rat) \<and>
      of_nat (count_true ?pages) / of_nat (length ?pages) \<le> (1 :: rat)"
    by (rule ratio_bounds [OF count_true_le])
  then show ?thesis
    by (auto simp: output_ok_def web_output_def Let_def scores_json_ok claims_ok_def
        signal_claims_ok intro!: py_round_ge0 py_round_le1)
qed

lemma section_claims_ok: "list_all claim_ok (section_claims secs)"
  by (auto simp: section_claims_def Let_def claim_json_ok)

lemma deck_output_ok: "output_ok (deck_output n)"
  using ratio_bounds [OF count_true_le, of "key_sections (str_lower (deck_text (min (max 1 (n div 50000)) 50)))"]
  by (auto simp: output_ok_def deck_output_def Let_def scores_json_ok claims_ok_def
      section_claims_ok intro!: py_round_ge0 py_round_le1)

lemma video_output_ok: "output_ok (video_output len tot got)"
  by (auto simp: output_ok_def video_output_def Let_def scores_json_ok claims_ok_def claim_json_ok
      intro!: py_round_ge0 py_round_le1)

lemma read_chunks_tdb:
  assumes "\<And>p s. tdb (report p s) = tdb s"
  shows "tdb (snd (read_chunks read_range report len is got s)) = tdb s"
  by (induction "is" arbitrary: got s) (auto simp: assms Let_def split: sum.splits)

interpretation web: analysis "verify_web http str_exn" for http str_exn
proof
  show "tdb (snd (verify_web http str_exn t rid ctx s)) = tdb s" for t rid ctx s
    by (auto simp: verify_web_def Let_def split: sum.splits)
  show "output_ok out" if "verify_web http str_exn t rid ctx s = (Inr out, s')" for t rid ctx s out s'
    using that by (auto simp: verify_web_def Let_def failed_output_ok web_output_ok split: sum.splits if_splits)
qed

interpretation pitch: analysis "analyze_pitch_deck download url_path bucket str_exn"
  for download url_path bucket str_exn
proof
  show "tdb (snd (analyze_pitch_deck download url_path bucket str_exn t rid ctx s)) = tdb s" for t rid ctx s
    by (auto simp: analyze_pitch_deck_def Let_def split: sum.splits)
  show "output_ok out"
    if "analyze_pitch_deck download url_path bucket str_exn t rid ctx s = (Inr out, s')" for t rid ctx s out s'
    using that by (auto simp: analyze_pitch_deck_def Let_def failed_output_ok deck_output_ok
        split: sum.splits if_splits)
qed

interpretation video: analysis "analyze_video head read_range str_exn" for head read_range str_exn
proof
  show "tdb (snd (analyze_video head read_range str_exn t rid ctx s)) = tdb s" for t rid ctx s
    by (auto simp: analyze_video_def Let_def read_chunks_tdb case_prod_beta split: sum.splits json.splits)
  show "output_ok out" if "analyze_video head read_range str_exn t rid ctx s = (Inr out, s')" for t rid ctx s out s'
    using that by (auto simp: analyze_video_def Let_def failed_output_ok video_output_ok
        split: sum.splits if_splits json.splits prod.splits)
qed

subsection \<open>Keywords in the simulated slide text\<close>

lemma lower_slide: "str_lower (slide_text i) =
    ''[slide'' @ CHR '' '' # nat_str (i + 1) @ CHR '' '' # ''content'' @ CHR '' '' # ''extracted]''"
proof -
  have "str_lower ''[Slide '' = ''[slide ''" "str_lower '' content extracted]'' = '' content extracted]''"
    by code_simp+
  then show ?thesis using lower_nat_str [of "i + 1"] by (simp add: slide_text_def str_lower_def)
qed

definition word_absent :: "string \<Rightarrow> bool" where
  "word_absent w \<longleftrightarrow> w \<noteq> [] \<and> \<not> is_digit (hd w) \<and> CHR '' '' \<notin> set w \<and> CHR 0x0A \<notin> set w
     \<and> \<not> str_contains w ''[slide'' \<and> \<not> str_contains w ''content'' \<and> \<not> str_contains w ''extracted]''"

lemma absent_in_slide: "word_absent w \<Longrightarrow> \<not> str_contains w (str_lower (slide_text i))"
proof -
  assume w: "word_absent w"
  then have sp: "CHR '' '' \<notin> set w" by (simp add: word_absent_def)
  have "\<not> str_contains w (nat_str (i + 1))"
  proof
    assume "str_contains w (nat_str (i + 1))"
    with contains_set have "set w \<subseteq> set (nat_str (i + 1))" by blast
    with w nat_str_is_digit [of "hd w" "i + 1"] show False by (auto simp: word_absent_def dest: hd_in_set)
  qed
  with w show ?thesis
    by (simp only: lower_slide contains_sep [OF sp] word_absent_def simp_thms)
qed

lemma absent_in_deck: "word_absent w \<Longrightarrow> \<not> str_contains w (str_lower (deck_text n))"
proof -
  assume w: "word_absent w"
  have "\<not> str_contains w (str_lower (concat (map (\<lambda>i. slide_text i @ [CHR 0x0A]) is)))" for "is"
  proof (induction "is")
    case Nil
    with w show ?case by (simp add: word_absent_def str_lower_def)
  next
    case (Cons i "is")
    have "lower_char CHR 0x0A = CHR 0x0A" by code_simp
    then have "str_lower (concat (map (\<lambda>i. slide_text i @ [CHR 0x0A]) (i # is))) =
        str_lower (slide_text i) @ CHR 0x0A # str_lower (concat (map (\<lambda>i. slide_text i @ [CHR 0x0A]) is))"
      by (simp add: str_lower_def)
    with Cons absent_in_slide [OF w, of i] w show ?case by (simp add: contains_sep word_absent_def)
  qed
  then show ?thesis by (simp add: deck_text_def)
qed

lemma keywords_absent:
  "list_all (\<lambda>sec. list_all (\<lambda>kw. word_absent (takeWhile (\<lambda>c. c \<noteq> CHR '' '') kw)) (snd sec)) section_keywords"
  by code_simp

lemma no_section_found: "(sec, b) \<in> set (key_sections (str_lower (deck_text n))) \<Longrightarrow> \<not> b"
proof -
  have "\<not> str_contains kw (str_lower (deck_text n))"
    if "(sec, kws) \<in> set section_keywords" "kw \<in> set kws" for sec kws kw
  proof -
    from that keywords_absent have "word_absent (takeWhile (\<lambda>c. c \<noteq> CHR '' '') kw)"
      by (fastforce simp: list_all_iff)
    then show ?thesis
      using contains_prefix [of "takeWhile (\<lambda>c. c \<noteq> CHR '' '') kw" "dropWhile (\<lambda>c. c \<noteq> CHR '' '') kw"]
        absent_in_deck by auto
  qed
  then show "(sec, b) \<in> set (key_sections (str_lower (deck_text n))) \<Longrightarrow> \<not> b"
    by (auto simp: key_sections_def list_ex_iff)
qed

subsection \<open>Counting simulated words\<close>

lemma slide_words: "count_words False (slide_text i) = 4"
proof -
  have "slide_text i = ''[Slide'' @ CHR '' '' # nat_str (i + 1) @ CHR '' '' # ''content extracted]''"
    by (simp add: slide_text_def)
  moreover have "count_words False (nat_str (i + 1)) = 1"
    using nat_str_no_space by (subst count_words_word) auto
  moreover have "is_space CHR '' ''" "count_words False ''[Slide'' = 1" "count_words False ''content extracted]'' = 2"
    by code_simp+
  ultimately show ?thesis by (simp only: count_words_cut)
qed

lemma deck_words: "sum_list (map (\<lambda>i. count_words False (slide_text i)) [0..<n]) = 4 * n"
  by (simp add: slide_words sum_list_triv)

lemma segment_words: "count_words False (segment_text i) = 3"
proof -
  have "segment_text i = ''[Transcribed'' @ CHR '' '' # ''segment'' @ CHR '' '' # (nat_str (i + 1) @ '']'')"
    by (simp add: segment_text_def)
  moreover have "\<not> is_space CHR '']''" by code_simp
  then have "count_words False (nat_str (i + 1) @ '']'') = 1"
    using nat_str_no_space by (subst count_words_word) auto
  moreover have "is_space CHR '' ''" "count_words False ''[Transcribed'' = 1" "count_words False ''segment'' = 1"
    by code_simp+
  ultimately show ?thesis by (simp only: count_words_cut)
qed

lemma transcript_words: "count_words False (join_with '' '' (map segment_text is)) = 3 * length is"
proof (induction "is")
  case (Cons i "is")
  have sp: "is_space CHR '' ''" by code_simp
  show ?case
  proof (cases "is = []")
    case False
    then have "join_with '' '' (map segment_text (i # is)) =
        segment_text i @ CHR '' '' # join_with '' '' (map segment_text is)"
      by (simp add: join_Cons)
    with Cons show ?thesis by (simp only: count_words_cut [OF sp] segment_words) simp
  qed (simp add: segment_words)
qed simp

subsection \<open>Feeding the cross-check\<close>

lemma map_of_set_key: "map_of (set_key k v kvs) j = (if j = k then Some v else map_of kvs j)"
  by (induction k v kvs rule: set_key.induct) auto

lemma tag_claim_ok:
  assumes "claim_ok c"
  shows "\<exists>c'. json_set ''source_task'' src c = Inr c' \<and> claim_ok c'"
  using assms by (auto simp: claim_ok_def map_of_set_key split: json.splits)

lemma tag_claims_ok:
  "list_all claim_ok cs \<Longrightarrow> \<exists>cs'. tag_claims src cs = Inr cs' \<and> list_all claim_ok cs' \<and> length cs' = length cs"
proof (induction cs)
  case (Cons c cs)
  then obtain c' cs' where "json_set ''source_task'' src c = Inr c'" "claim_ok c'"
    "tag_claims src cs = Inr cs'" "list_all claim_ok cs'" "length cs' = length cs"
    using tag_claim_ok by fastforce
  then show ?case by simp
qed simp

lemma collect_claims_ok:
  "list_all output_ok outs \<Longrightarrow> \<exists>cs. collect_claims outs = Inr cs \<and> list_all claim_ok cs"
proof (induction outs rule: collect_claims.induct)
  case (2 kvs rs)
  then have c: "claims_ok (JObj kvs)" by (simp add: output_ok_def)
  then obtain cs where cs: "json_iter (dict_get_default (JObj kvs) ''claims'' (JArr [])) = Inr cs"
    "list_all claim_ok cs"
    by (auto simp: claims_ok_def dict_get_default_def split: option.splits json.splits)
  obtain cs' where t: "tag_claims (dict_get_default (JObj kvs) ''status'' (JStr ''unknown'')) cs = Inr cs'"
    "list_all claim_ok cs'"
    using tag_claims_ok [OF cs(2)] by blast
  obtain rest where "collect_claims rs = Inr rest" "list_all claim_ok rest"
    using 2(1) [OF cs(1) t(1)] 2(2) by auto
  with cs(1) t show ?case by simp
qed auto

lemma field_textE: "field_ok is_text True v \<Longrightarrow> \<exists>x. v = Some (JStr x)"
  by (cases v) (auto elim: is_text.elims)

lemma new_claim_ok:
  assumes "claim_ok c"
  shows "\<exists>x. new_claim env i r c = Inr x \<and> 0 \<le> confidence_score x \<and> confidence_score x \<le> 1"
proof -
  from assms obtain kvs where c: "c = JObj kvs" and f: "field_ok is_text True (map_of kvs ''text'')"
    "field_ok is_text True (map_of kvs ''category'')" "field_ok unit_number True (map_of kvs ''confidence'')"
    "field_ok is_text False (map_of kvs ''source_reference'')"
    by (auto simp: claim_ok_def split: json.splits)
  obtain tx cat where t: "map_of kvs ''text'' = Some (JStr tx)" "map_of kvs ''category'' = Some (JStr cat)"
    using f(1,2) by (blast dest: field_textE)
  obtain q where q: "map_of kvs ''confidence'' = Some (JNum q)" "0 \<le> q" "q \<le> 1"
    using f(3) by (cases "map_of kvs ''confidence''") (auto elim: unit_number.elims)
  obtain src where "text_column_opt (dict_get_default c ''source_reference'' (JStr [])) = Inr src"
    using f(4) by (cases "map_of kvs ''source_reference''")
      (auto simp: c dict_get_default_def elim: is_text.elims)
  with t q show ?thesis by (simp add: new_claim_def c dict_get_default_def)
qed

lemma new_claims_ok:
  "list_all claim_ok cs \<Longrightarrow> \<exists>xs. new_claims env gen r k cs = Inr xs
     \<and> (\<forall>x \<in> set xs. 0 \<le> confidence_score x \<and> confidence_score x \<le> 1)"
proof (induction cs arbitrary: k)
  case (Cons c cs)
  then obtain x xs where "new_claim env (gen k) r c = Inr x" "0 \<le> confidence_score x" "confidence_score x \<le> 1"
    "new_claims env gen r (Suc k) cs = Inr xs"
    "\<forall>x \<in> set xs. 0 \<le> confidence_score x \<and> confidence_score x \<le> 1"
    using new_claim_ok [of c env "gen k" r] by fastforce
  then show ?case by auto
qed simp

text \<open>The cross-check accepts whatever good outputs say, as long as its run exists.\<close>

lemma cross_check_accepts:
  assumes "list_all output_ok outs" "filter (\<lambda>r. ident r = rid) (runs (tdb s)) = [r]"
  shows "\<exists>out s'. cross_check t gen rid outs s = (Inr out, s')
    \<and> (\<exists>cs. claims (tdb s') = claims (tdb s) @ cs
         \<and> (\<forall>c \<in> set cs. 0 \<le> confidence_score c \<and> confidence_score c \<le> 1))"
proof -
  obtain all where all: "collect_claims outs = Inr all" "list_all claim_ok all"
    using collect_claims_ok [OF assms(1)] by blast
  obtain cs where cs: "new_claims (tenv t) gen r 0 all = Inr cs"
    "\<forall>x \<in> set cs. 0 \<le> confidence_score x \<and> confidence_score x \<le> 1"
    using new_claims_ok [OF all(2)] by blast
  show ?thesis
  proof (cases "length all < 2")
    case True
    with all(1) show ?thesis by (simp add: cross_check_def Let_def)
  next
    case False
    let ?s2 = "update_progress t rid 30 (''Analyzing '' @ nat_str (length all) @ '' claims for contradictions'')
      (update_progress t rid 10 ''Collecting claims from all sources'' s)"
    let ?cons = "find_contradictions (tenv t) gen r (length cs) (pairs cs)"
    have "db_session (cross_check_db (tenv t) gen rid all) ?s2 =
        (Inr (cs, ?cons), ?s2\<lparr>tdb := (tdb s)\<lparr>claims := claims (tdb s) @ cs,
           contradictions := contradictions (tdb s) @ ?cons\<rparr>\<rparr>)"
      by (rule db_session_ok) (simp add: cross_check_db_def select_where_def assms(2) cs(1) Let_def)
    with False all(1) cs(2) show ?thesis by (simp add: cross_check_def Let_def)
  qed
qed

subsection \<open>What the simulated extraction finds\<close>

lemma no_section_counted: "count_true (key_sections (str_lower (deck_text n))) = 0"
  by (auto simp: count_true_def filter_empty_conv dest: no_section_found)

lemma no_section_claims: "section_claims (key_sections (str_lower (deck_text n))) = []"
  by (auto simp: section_claims_def Let_def dest!: map_of_SomeD dest: no_section_found)

lemma read_chunks_length:
  "length (fst (read_chunks read_range report len is got s)) \<le> length got + length is"
proof (induction "is" arbitrary: got s)
  case (Cons i "is")
  show ?case
    using Cons.IH [of got s] Cons.IH [of "got @ [i]"]
    by (auto simp: Let_def split: sum.splits)
qed simp

lemma read_chunks_got:
  "fst (read_chunks read_range report len is got s) =
   got @ filter (\<lambda>i. is_ok (read_range (chunk_range len i))) is"
  by (induction "is" arbitrary: got s) (auto simp: Let_def split: sum.splits)

lemma min_1_le: "x \<le> c \<Longrightarrow> min 1 x \<le> (c :: rat)"
  by simp

subsection \<open>Properties\<close>

text \<open>
  The pitch deck analysis never reads the deck. For every file that is not empty it reports
  no section and no claim, a structure score of 0 and a content score of at most 1/10; only the
  depth score depends on the file, through its size.
\<close>

theorem pitch_deck_finds_nothing:
  assumes "dict_get_default ctx ''pitch_deck_url'' (JStr []) = JStr url" "url \<noteq> []"
    "download (pitch_deck_key url_path bucket url) = Inr n" "0 < n"
  shows "\<exists>out s' quality. analyze_pitch_deck download url_path bucket str_exn t rid ctx s = (Inr out, s')
    \<and> json_get out ''claims'' = Some (JArr [])
    \<and> json_get out ''scores'' = Some (scores_json [(''content_quality'', quality),
        (''structure_completeness'', 0),
        (''depth'', py_round 4 (min 1 (of_nat (max 1 (n div 50000)) / 15)))])
    \<and> 0 \<le> quality \<and> quality \<le> 1/10"
proof -
  let ?m = "min (max 1 (n div 50000)) 50"
  let ?q = "py_round 4 (min 1 (of_nat (4 * ?m) / 2000))"
  have "(of_nat (4 * ?m) :: rat) \<le> of_nat 200" unfolding of_nat_le_iff by simp
  then have "py_round 4 (min 1 (of_nat (4 * ?m) / 2000)) \<le> py_round 4 (1/10)"
    by (intro py_round_mono min_1_le) simp
  also have "py_round 4 (1/10) = 1/10" by code_simp
  finally have q: "?q \<le> 1/10" .
  have z: "0 \<le> ?q" by (intro py_round_ge0) simp
  have out: "json_get (deck_output n) ''claims'' = Some (JArr [])"
    "json_get (deck_output n) ''scores'' = Some (scores_json [(''content_quality'', ?q),
        (''structure_completeness'', 0), (''depth'', py_round 4 (min 1 (of_nat (max 1 (n div 50000)) / 15)))])"
    by (simp_all add: deck_output_def Let_def no_section_claims no_section_counted deck_words)
  have "\<exists>s'. analyze_pitch_deck download url_path bucket str_exn t rid ctx s = (Inr (deck_output n), s')"
    using assms by (simp add: analyze_pitch_deck_def Let_def)
  with out q z show ?thesis by blast
qed

theorem pitch_deck_finds_nothing_witness:
  "\<exists>out s'. analyze_pitch_deck (\<lambda>_. Inr 1000000) (\<lambda>u. u) ''b'' (\<lambda>_. []) sample_task 4
     (JObj [(''pitch_deck_url'', JStr ''d'')]) sample_tstate = (Inr out, s')
   \<and> json_get out ''claims'' = Some (JArr [])"
  using pitch_deck_finds_nothing [of "JObj [(''pitch_deck_url'', JStr ''d'')]" "''d''" "\<lambda>_. Inr 1000000"
      "\<lambda>u. u" "''b''" 1000000 "\<lambda>_. []" sample_task 4 sample_tstate]
  by (auto simp: dict_get_default_def)

text \<open>
  The byte ranges a video is read in lie inside the file, follow one another without overlap
  or gap, and there are at most 100 of them; the clarity score is at most 3/10 and the
  completeness score is the number of readable ranges out of 20.
\<close>

theorem video_ranges_and_scores:
  assumes "0 < len" "tot = max 1 (len div chunk_size)"
  shows "(\<forall>i < min tot 100. fst (chunk_range len i) \<le> snd (chunk_range len i) \<and> snd (chunk_range len i) < len
        \<and> fst (chunk_range len (Suc i)) = fst (chunk_range len i) + chunk_size
        \<and> (Suc i < tot \<longrightarrow> snd (chunk_range len i) + 1 = fst (chunk_range len (Suc i))))
    \<and> (let got = fst (read_chunks read_range report len [0..<min tot 100] [] s) in
        got = filter (\<lambda>i. is_ok (read_range (chunk_range len i))) [0..<min tot 100]
      \<and> (\<exists>clarity. json_get (video_output len tot got) ''scores'' =
            Some (scores_json [(''presentation_clarity'', clarity),
              (''content_completeness'', py_round 4 (min 1 (of_nat (length got) / 20))),
              (''presentation_quality'', py_round 4 (7/10))])
          \<and> 0 \<le> clarity \<and> clarity \<le> 3/10))"
proof -
  let ?got = "fst (read_chunks read_range report len [0..<min tot 100] [] s)"
  have inside: "i * chunk_size + chunk_size \<le> len \<or> (i = 0 \<and> len < chunk_size)" if "i < tot" for i
  proof (cases "len < chunk_size")
    case True
    with assms(2) that show ?thesis by simp
  next
    case False
    then have "1 \<le> len div chunk_size" by (simp add: chunk_size_def)
    with assms(2) that have "Suc i \<le> len div chunk_size" by simp
    then have "Suc i * chunk_size \<le> len"
      by (metis div_times_less_eq_dividend le_trans mult_le_mono1)
    then show ?thesis by (simp add: add.commute)
  qed
  have ranges: "fst (chunk_range len i) \<le> snd (chunk_range len i) \<and> snd (chunk_range len i) < len
        \<and> fst (chunk_range len (Suc i)) = fst (chunk_range len i) + chunk_size
        \<and> (Suc i < tot \<longrightarrow> snd (chunk_range len i) + 1 = fst (chunk_range len (Suc i)))"
    if "i < min tot 100" for i
    using that inside [of i] inside [of "Suc i"] assms(1)
    by (auto simp: chunk_range_def chunk_size_def)
  have "length ?got \<le> 100"
    using read_chunks_length [of read_range report len "[0..<min tot 100]" "[]" s] by simp
  then have "(of_nat (3 * length ?got) :: rat) \<le> of_nat 300" unfolding of_nat_le_iff by simp
  then have "py_round 4 (min 1 (of_nat (3 * length ?got) / 1000)) \<le> py_round 4 (3/10)"
    by (intro py_round_mono min_1_le) simp
  also have "py_round 4 (3/10) = 3/10" by code_simp
  finally have q: "py_round 4 (min 1 (of_nat (3 * length ?got) / 1000)) \<le> 3/10" .
  have z: "0 \<le> py_round 4 (min 1 (of_nat (3 * length ?got) / 1000))" by (intro py_round_ge0) simp
  have "json_get (video_output len tot ?got) ''scores'' =
      Some (scores_json [(''presentation_clarity'', py_round 4 (min 1 (of_nat (3 * length ?got) / 1000))),
        (''content_completeness'', py_round 4 (min 1 (of_nat (length ?got) / 20))),
        (''presentation_quality'', py_round 4 (7/10))])"
    by (simp add: video_output_def Let_def transcript_words)
  with q z ranges show ?thesis by (auto simp: Let_def read_chunks_got)
qed

theorem video_ranges_and_scores_witness:
  "snd (chunk_range 3000000 0) + 1 = fst (chunk_range 3000000 1)"
proof -
  have "(0::nat) < 3000000" "(2::nat) = max 1 (3000000 div chunk_size)" by (simp_all add: chunk_size_def)
  from video_ranges_and_scores [OF this, THEN conjunct1, rule_format, of 0] show ?thesis by simp
qed

end
