(* ===== verification/GithubAnalysis.thy ===== *)
theory GithubAnalysis
  imports Analyses Cache
begin

section \<open>The GitHub analysis (\<open>workers/tasks/github_analysis.py\<close>)\<close>

text \<open>
  The fourth analysis asks the GitHub API and keeps its result in the cache of \<open>cache.py\<close>, so
  its state is that of a task and the cache manager. \<open>http tok url\<close> answers a GET with the
  authorization \<open>tok\<close>; \<open>parse_time\<close> is \<open>datetime.fromisoformat\<close> after \<open>Z\<close> has been
  replaced by \<open>+00:00\<close>, in microseconds; \<open>str_json\<close> is the text of a JSON value. Waiting for
  the rate limit to reset has no effect in the model. Cached values are dictionaries.
\<close>

type_synonym gstate = "tstate \<times> cache_manager"

subsection \<open>Python on strings and JSON\<close>

text \<open>\<open>int(s)\<close>: digits, single underscores between them, a sign and white space around.\<close>

definition digits_groups :: "string \<Rightarrow> string list" where
  "digits_groups s = split_on CHR ''_'' s"

definition unsigned_int :: "string \<Rightarrow> exn + int" where
  "unsigned_int s =
     (if list_all (\<lambda>g. g \<noteq> [] \<and> list_all is_digit g) (digits_groups s)
      then Inr (int (digits_value (concat (digits_groups s))))
      else Inl (ValueError ''int''))"

fun signed_int :: "string \<Rightarrow> exn + int" where
  "signed_int [] = Inl (ValueError ''int'')"
| "signed_int (c # s) =
     (if c = CHR ''-'' then map_sum id uminus (unsigned_int s)
      else if c = CHR ''+'' then unsigned_int s else unsigned_int (c # s))"

definition py_int_of_str :: "string \<Rightarrow> exn + int" where
  "py_int_of_str s = signed_int (str_strip s)"

text \<open>\<open>len(x)\<close>, \<open>x.get(k, d)\<close> and \<open>x / n\<close> on a JSON value.\<close>

fun json_len :: "json \<Rightarrow> exn + nat" where
  "json_len (JArr xs) = Inr (length xs)"
| "json_len (JObj kvs) = Inr (length kvs)"
| "json_len (JStr s) = Inr (length s)"
| "json_len _ = Inl (TypeError ''len'')"

fun obj_get :: "json \<Rightarrow> string \<Rightarrow> json \<Rightarrow> exn + json" where
  "obj_get (JObj kvs) k d = Inr (dict_get_default (JObj kvs) k d)"
| "obj_get _ k d = Inl (AttributeError ''get'')"

definition latest_sha :: "json \<Rightarrow> exn + json" where
  "latest_sha commits =
     (if \<not> json_truthy commits then Inr (JStr ''UNKNOWN'')
      else case commits of
             JArr (c # _) \<Rightarrow> obj_get c ''sha'' (JStr ''HEAD'')
           | JStr _ \<Rightarrow> Inl (AttributeError ''get'')
           | JObj _ \<Rightarrow> Inl (KeyError ''0'')
           | _ \<Rightarrow> Inl (TypeError ''not subscriptable''))"

subsection \<open>Requests\<close>

text \<open>The list or dictionary of an answer, or a default for another status.\<close>

definition body_or :: "json \<Rightarrow> http_response \<Rightarrow> exn + json" where
  "body_or d r = (if http_status r = 200 then http_json r else Inr d)"

definition header_int :: "http_response \<Rightarrow> string \<Rightarrow> string \<Rightarrow> exn + int" where
  "header_int r h d = py_int_of_str (case map_of (http_headers r) h of None \<Rightarrow> d | Some v \<Rightarrow> v)"

text \<open>The check of the rate limit: the seconds to wait, when there is one.\<close>

definition rate_wait :: "env \<Rightarrow> http_response \<Rightarrow> exn + int" where
  "rate_wait env r =
     (if http_status r \<noteq> 200 then Inr 0
      else case header_int r ''X-RateLimit-Remaining'' ''60'' of
             Inl e \<Rightarrow> Inl e
           | Inr remaining \<Rightarrow>
               if remaining < 10
               then (case header_int r ''X-RateLimit-Reset'' ''0'' of
                       Inl e \<Rightarrow> Inl e
                     | Inr reset_at \<Rightarrow> Inr (max 0 (reset_at - now env div 1000000)))
               else Inr 0)"

definition repo_api :: "string \<Rightarrow> string \<Rightarrow> string" where
  "repo_api own rep = ''https://api.github.com/repos/'' @ own @ ''/'' @ rep"

definition github_cache_key :: "(string \<Rightarrow> string) \<Rightarrow> (json \<Rightarrow> string) \<Rightarrow> string \<Rightarrow> string \<Rightarrow> json \<Rightarrow> string" where
  "github_cache_key sha256 str_json own rep sha =
     ''github:'' @ sha256 (''https://github.com/'' @ own @ ''/'' @ rep) @ '':'' @ str_json sha"

subsection \<open>Scores\<close>

definition days_since :: "(string \<Rightarrow> exn + timestamp) \<Rightarrow> env \<Rightarrow> json \<Rightarrow> exn + int" where
  "days_since parse_time env last_push =
     (if \<not> json_truthy last_push then Inr 999
      else case last_push of
             JStr s \<Rightarrow> (case parse_time s of
                          Inl e \<Rightarrow> Inl e
                        | Inr pushed \<Rightarrow> Inr ((now env - pushed) div 86400000000))
           | _ \<Rightarrow> Inl (AttributeError ''replace''))"

definition activity_score :: "int \<Rightarrow> rat" where
  "activity_score days = max 0 (min 1 (1 - of_int days / 365))"

definition capped_ratio :: "rat \<Rightarrow> rat \<Rightarrow> rat" where
  "capped_ratio x full = min 1 (x / full)"

definition github_scores :: "int \<Rightarrow> nat \<Rightarrow> nat \<Rightarrow> rat \<Rightarrow> bool \<Rightarrow> bool \<Rightarrow> (string \<times> rat) list" where
  "github_scores days n_commits n_contributors stars described licensed =
     [(''activity_recency'', py_round 4 (activity_score days)),
      (''commit_frequency'', py_round 4 (capped_ratio (of_nat n_commits) 50)),
      (''contributor_diversity'', py_round 4 (capped_ratio (of_nat n_contributors) 5)),
      (''community_traction'', py_round 4 (capped_ratio stars 100)),
      (''documentation_quality'', py_round 4 (if described then 1 else 3/10)),
      (''license_compliance'', py_round 4 (if licensed then 1 else 0))]"

definition github_claims :: "(json \<Rightarrow> string) \<Rightarrow> json \<Rightarrow> nat \<Rightarrow> json list" where
  "github_claims str_json repo_data n_contributors =
     [claim_json (''Repository has '' @ str_json (dict_get_default repo_data ''stargazers_count'' (JNum 0))
         @ '' stars'') ''traction'' 1 None,
      claim_json (''Primary language is '' @ str_json (dict_get_default repo_data ''language'' (JStr ''unknown'')))
         ''product'' 1 None,
      claim_json (nat_str n_contributors @ '' contributors active on the project'') ''team'' (9/10) None]"

text \<open>The result from the answers; dictionaries of the answers are objects.\<close>

definition github_output :: "(string \<Rightarrow> exn + timestamp) \<Rightarrow> (json \<Rightarrow> string) \<Rightarrow> env \<Rightarrow> string \<Rightarrow> string
    \<Rightarrow> json \<Rightarrow> json \<Rightarrow> json \<Rightarrow> json \<Rightarrow> exn + json" where
  "github_output parse_time str_json env own rep repo_data commits contributors languages =
     (case obj_get repo_data ''pushed_at'' (JStr []) of
        Inl e \<Rightarrow> Inl e
      | Inr last_push \<Rightarrow>
     (case days_since parse_time env last_push of
        Inl e \<Rightarrow> Inl e
      | Inr days \<Rightarrow>
     (case json_len commits of
        Inl e \<Rightarrow> Inl e
      | Inr n_commits \<Rightarrow>
     (case json_len contributors of
        Inl e \<Rightarrow> Inl e
      | Inr n_contributors \<Rightarrow>
     (case number_of (dict_get_default repo_data ''stargazers_count'' (JNum 0)) of
        None \<Rightarrow> Inl (TypeError ''/'')
      | Some stars \<Rightarrow>
          let field = dict_get_default repo_data
          in Inr (JObj
           [(''status'', JStr ''completed''),
            (''repo'', JStr (own @ ''/'' @ rep)),
            (''scores'', scores_json (github_scores days n_commits n_contributors stars
               (json_truthy (field ''description'' JNull)) (json_truthy (field ''license'' JNull)))),
            (''metadata'', JObj
               [(''stars'', field ''stargazers_count'' (JNum 0)),
                (''forks'', field ''forks_count'' (JNum 0)),
                (''open_issues'', field ''open_issues_count'' (JNum 0)),
                (''primary_language'', field ''language'' (JStr ''unknown'')),
                (''languages'', languages),
                (''total_commits_analyzed'', JNum (of_nat n_commits)),
                (''total_contributors'', JNum (of_nat n_contributors)),
                (''days_since_last_push'', JNum (of_int days)),
                (''created_at'', field ''created_at'' JNull),
                (''last_pushed_at'', last_push)]),
            (''claims'', JArr (github_claims str_json repo_data n_contributors))]))))))"

subsection \<open>The analysis\<close>

text \<open>The last path components: owner and repository.\<close>

definition repo_parts :: "string \<Rightarrow> (string \<times> string) option" where
  "repo_parts url =
     (let parts = split_on CHR ''/'' (rstrip_char CHR ''/'' url)
      in if length parts < 2 then None
         else Some (parts ! (length parts - 2), parts ! (length parts - 1)))"

definition plain_failure :: "string \<Rightarrow> string \<Rightarrow> json" where
  "plain_failure st reason = JObj [(''status'', JStr st), (''reason'', JStr reason)]"

definition seconds_now :: "env \<Rightarrow> rat" where
  "seconds_now env = of_int (now env) / 1000000"

text \<open>The requests after a cache miss.\<close>

definition fetch_and_score :: "(string \<Rightarrow> exn + http_response) \<Rightarrow> (string \<Rightarrow> exn + timestamp) \<Rightarrow> (json \<Rightarrow> string)
    \<Rightarrow> task \<Rightarrow> uuid \<Rightarrow> string \<Rightarrow> string \<Rightarrow> string \<Rightarrow> json \<Rightarrow> gstate \<Rightarrow> (gstate, json) outcome" where
  "fetch_and_score get parse_time str_json t rid own rep key commits st =
     (let report = \<lambda>p d s. update_progress t rid p d s;
          s1 = report 45 ''Cache miss - Analyzing repository'' (fst st)
      in case get (repo_api own rep) of
           Inl e \<Rightarrow> (Inl e, (s1, snd st))
         | Inr repo_resp \<Rightarrow>
       if http_status repo_resp = 404
       then (Inr (plain_failure ''error'' ''Repository not found''), (s1, snd st))
       else if http_status repo_resp \<noteq> 200
       then (Inr (plain_failure ''error'' (''GitHub API error: '' @ int_str (http_status repo_resp))), (s1, snd st))
       else (case http_json repo_resp of
           Inl e \<Rightarrow> (Inl e, (s1, snd st))
         | Inr repo_data \<Rightarrow>
       (let s2 = report 60 ''Analyzing contributors'' s1
        in case get (repo_api own rep @ ''/contributors'') of
           Inl e \<Rightarrow> (Inl e, (s2, snd st))
         | Inr contrib_resp \<Rightarrow> (case body_or (JArr []) contrib_resp of
           Inl e \<Rightarrow> (Inl e, (s2, snd st))
         | Inr contributors \<Rightarrow>
       (let s3 = report 70 ''Analyzing tech stack'' s2
        in case get (repo_api own rep @ ''/languages'') of
           Inl e \<Rightarrow> (Inl e, (s3, snd st))
         | Inr lang_resp \<Rightarrow> (case body_or empty_obj lang_resp of
           Inl e \<Rightarrow> (Inl e, (s3, snd st))
         | Inr languages \<Rightarrow>
       (let s4 = report 80 ''Computing scores'' s3
        in case github_output parse_time str_json (tenv t) own rep repo_data commits contributors languages of
           Inl e \<Rightarrow> (Inl e, (s4, snd st))
         | Inr out \<Rightarrow>
             (Inr out, (report 90 ''Caching results'' s4,
                        mgr_set (seconds_now (tenv t)) key out 3600 (snd st))))))))))"

definition cached_value :: "json \<Rightarrow> json" where
  "cached_value c = (case json_get c ''val'' of Some v \<Rightarrow> v | None \<Rightarrow> c)"

definition analyze_github :: "(json \<Rightarrow> string \<Rightarrow> exn + http_response) \<Rightarrow> (string \<Rightarrow> exn + timestamp)
    \<Rightarrow> (string \<Rightarrow> string) \<Rightarrow> (json \<Rightarrow> string) \<Rightarrow> task \<Rightarrow> uuid \<Rightarrow> json \<Rightarrow> gstate \<Rightarrow> (gstate, json) outcome" where
  "analyze_github http parse_time sha256 str_json t rid ctx st =
     (case dict_get_default ctx ''metadata'' empty_obj of
        JObj meta \<Rightarrow>
         (let url = dict_get_default (JObj meta) ''github_url'' (JStr []);
              get = http (dict_get_default (JObj meta) ''github_token'' (JStr []))
          in if \<not> json_truthy url
             then (Inr (failed_output ''skipped'' ''No GitHub URL provided'' []), st)
             else let s1 = update_progress t rid 10 ''Checking GitHub cache'' (fst st)
                  in case url of
           JStr u \<Rightarrow> (case repo_parts u of
             None \<Rightarrow> (Inr (plain_failure ''error'' ''Invalid GitHub URL''), (s1, snd st))
           | Some (own, rep) \<Rightarrow>
         (let s2 = update_progress t rid 20 ''Fetching repository metadata & limits'' s1
          in case get ''https://api.github.com/rate_limit'' of
             Inl e \<Rightarrow> (Inl e, (s2, snd st))
           | Inr rate_resp \<Rightarrow> (case rate_wait (tenv t) rate_resp of
             Inl e \<Rightarrow> (Inl e, (s2, snd st))
           | Inr wait_secs \<Rightarrow>
         if wait_secs > 60
         then (Inr (plain_failure ''rate_limited''
                      (''GitHub rate limit. Resets in '' @ int_str wait_secs @ ''s'')), (s2, snd st))
         else (let s3 = update_progress t rid 30 ''Checking cache for latest commit'' s2
          in case get (repo_api own rep @ ''/commits'') of
             Inl e \<Rightarrow> (Inl e, (s3, snd st))
           | Inr commits_resp \<Rightarrow> (case body_or (JArr []) commits_resp of
             Inl e \<Rightarrow> (Inl e, (s3, snd st))
           | Inr commits \<Rightarrow> (case latest_sha commits of
             Inl e \<Rightarrow> (Inl e, (s3, snd st))
           | Inr sha \<Rightarrow>
         (let key = github_cache_key sha256 str_json own rep sha
          in case mgr_get (seconds_now (tenv t)) key (snd st) of
             None \<Rightarrow> fetch_and_score get parse_time str_json t rid own rep key commits (s3, snd st)
           | Some c \<Rightarrow>
               if json_truthy c
               then (Inr (cached_value c), (update_progress t rid 100 ''Loaded from cache'' s3, snd st))
               else fetch_and_score get parse_time str_json t rid own rep key commits (s3, snd st))))))))
         | _ \<Rightarrow> (Inl (AttributeError ''rstrip''), (s1, snd st)))
      | _ \<Rightarrow> (Inl (AttributeError ''get''), st))"

subsection \<open>The contract\<close>

text \<open>GitHub documents its counts as non-negative. The cache holds only results of this analysis
  under its keys.\<close>

definition stars_nonneg :: "(json \<Rightarrow> string \<Rightarrow> exn + http_response) \<Rightarrow> bool" where
  "stars_nonneg http \<longleftrightarrow> (\<forall>tok url r d q. http tok url = Inr r \<longrightarrow> http_json r = Inr d \<longrightarrow>
     number_of (dict_get_default d ''stargazers_count'' (JNum 0)) = Some q \<longrightarrow> 0 \<le> q)"

definition cache_ok :: "cache_manager \<Rightarrow> bool" where
  "cache_ok m \<longleftrightarrow> (\<forall>k v ex. entries m k = Some (v, ex) \<longrightarrow> starts_with ''github:'' k \<longrightarrow> output_ok (cached_value v))"

lemma github_key_prefix: "starts_with ''github:'' (github_cache_key sha256 str_json own rep sha)"
  by (simp add: starts_with_def github_cache_key_def)

lemma cached_value_payload [simp]: "cached_value (payload t ttl v) = v"
  by (simp add: cached_value_def payload_def)

lemma cache_ok_get:
  "cache_ok m \<Longrightarrow> starts_with ''github:'' k \<Longrightarrow> mgr_get t k m = Some c \<Longrightarrow> output_ok (cached_value c)"
  unfolding cache_ok_def
  by (auto simp: mgr_get_def redis_get_def redis.truncate_def
      split: if_splits sum.splits option.splits) blast

lemma cache_ok_set: "cache_ok m \<Longrightarrow> output_ok v \<Longrightarrow> cache_ok (mgr_set t k v ttl m)"
  by (auto simp: cache_ok_def mgr_set_def)

lemma activity_score_range: "0 \<le> activity_score d \<and> activity_score d \<le> 1"
  by (simp add: activity_score_def)

lemma capped_ratio_range: "0 \<le> x \<Longrightarrow> 0 < n \<Longrightarrow> 0 \<le> capped_ratio x n \<and> capped_ratio x n \<le> 1"
  by (simp add: capped_ratio_def)

lemma github_scores_range:
  "0 \<le> stars \<Longrightarrow> list_all (\<lambda>(k, q). 0 \<le> q \<and> q \<le> 1) (github_scores d m n stars b l)"
  by (simp add: github_scores_def py_round_ge0 py_round_le1 activity_score_range capped_ratio_range)

lemma plain_failure_ok: "output_ok (plain_failure st why)"
  by (simp add: output_ok_def scores_ok_def claims_ok_def plain_failure_def)

lemma github_output_ok:
  assumes "github_output parse_time str_json env own rep d commits contributors languages = Inr out"
    and "\<And>q. number_of (dict_get_default d ''stargazers_count'' (JNum 0)) = Some q \<Longrightarrow> 0 \<le> q"
  shows "output_ok out"
  using assms
  by (auto simp: github_output_def Let_def output_ok_def scores_json_ok github_scores_range
      claims_ok_def github_claims_def claim_json_ok split: sum.splits option.splits)

lemma fetch_and_score_result:
  assumes "stars_nonneg http" "cache_ok (snd st)"
    and "fetch_and_score (http tok) parse_time str_json t rid own rep key commits st = (r, st')"
  shows "tdb (fst st') = tdb (fst st) \<and> cache_ok (snd st') \<and> (\<forall>out. r = Inr out \<longrightarrow> output_ok out)"
proof -
  have ok: "output_ok out" if "http tok url = Inr resp" "http_json resp = Inr d"
    "github_output parse_time str_json (tenv t) own rep d commits cs ls = Inr out" for url resp d cs ls out
    by (rule github_output_ok [OF that(3)]) (use assms(1) that(1,2) in \<open>auto simp: stars_nonneg_def\<close>)
  show ?thesis
    using assms(2,3)
    by (auto simp: fetch_and_score_def Let_def plain_failure_ok split: sum.splits if_splits
        intro!: cache_ok_set intro: ok ok [OF _ _ sym])
qed

lemma analyze_github_result:
  assumes "stars_nonneg http" "cache_ok (snd st)"
    and "analyze_github http parse_time sha256 str_json t rid ctx st = (r, st')"
  shows "tdb (fst st') = tdb (fst st) \<and> cache_ok (snd st') \<and> (\<forall>out. r = Inr out \<longrightarrow> output_ok out)"
  using assms(2,3)
  by (auto simp: analyze_github_def Let_def plain_failure_ok failed_output_ok
      cache_ok_get [OF _ github_key_prefix]
      dest!: fetch_and_score_result [OF assms(1), rotated]
      split: json.splits sum.splits if_splits option.splits prod.splits)

subsection \<open>The four analyses together\<close>

datatype analysis_kind = Github | Pitch_deck | Video | Web_verification

text \<open>The outside world of the four tasks.\<close>

record world =
  w_http :: "string \<Rightarrow> exn + http_response"
  w_github :: "json \<Rightarrow> string \<Rightarrow> exn + http_response"
  w_parse_time :: "string \<Rightarrow> exn + timestamp"
  w_sha256 :: "string \<Rightarrow> string"
  w_str_json :: "json \<Rightarrow> string"
  w_str_exn :: "exn \<Rightarrow> string"
  w_download :: "string \<Rightarrow> exn + nat"
  w_url_path :: "string \<Rightarrow> string"
  w_bucket :: string
  w_head :: "json \<Rightarrow> exn + nat"
  w_read_range :: "json \<Rightarrow> nat \<times> nat \<Rightarrow> exn + unit"
  w_cache :: cache_manager

fun kind_type :: "analysis_kind \<Rightarrow> string" where
  "kind_type Github = ''github_analysis''"
| "kind_type Pitch_deck = ''pitch_deck''"
| "kind_type Video = ''video_analysis''"
| "kind_type Web_verification = ''web_verification''"

fun run_analysis :: "world \<Rightarrow> analysis_kind \<Rightarrow> task \<Rightarrow> uuid \<Rightarrow> json \<Rightarrow> tstate \<Rightarrow> (tstate, json) outcome" where
  "run_analysis w Github t rid ctx s =
     (case analyze_github (w_github w) (w_parse_time w) (w_sha256 w) (w_str_json w) t rid ctx (s, w_cache w) of
        (r, st') \<Rightarrow> (r, fst st'))"
| "run_analysis w Pitch_deck t rid ctx s =
     analyze_pitch_deck (w_download w) (w_url_path w) (w_bucket w) (w_str_exn w) t rid ctx s"
| "run_analysis w Video t rid ctx s = analyze_video (w_head w) (w_read_range w) (w_str_exn w) t rid ctx s"
| "run_analysis w Web_verification t rid ctx s = verify_web (w_http w) (w_str_exn w) t rid ctx s"

text \<open>The body of each task: the wrapper of the base task around the analysis, under its own worker
  type. \<open>new_id\<close> is the id of the row it may create.\<close>

definition analysis_task :: "world \<Rightarrow> analysis_kind \<Rightarrow> task \<Rightarrow> uuid \<Rightarrow> uuid \<Rightarrow> json \<Rightarrow> tstate
    \<Rightarrow> (tstate, json) outcome" where
  "analysis_task w k t new_id rid ctx s =
     base_run (w_str_exn w) (t\<lparr>wtype := kind_type k\<rparr>) new_id rid ctx
       (run_analysis w k (t\<lparr>wtype := kind_type k\<rparr>) rid ctx) s"

text \<open>The analyses of a run in any order, up to the first that raises: the results that the
  chord hands to the cross-check.\<close>

fun analyze_all :: "world \<Rightarrow> uuid \<Rightarrow> json \<Rightarrow> (analysis_kind \<times> task \<times> uuid) list \<Rightarrow> tstate
    \<Rightarrow> (tstate, json list) outcome" where
  "analyze_all w rid ctx [] s = (Inr [], s)"
| "analyze_all w rid ctx ((k, t, i) # ks) s =
     (case analysis_task w k t i rid ctx s of
        (Inl e, s1) \<Rightarrow> (Inl e, s1)
      | (Inr out, s1) \<Rightarrow>
          (case analyze_all w rid ctx ks s1 of
             (Inl e, s2) \<Rightarrow> (Inl e, s2)
           | (Inr outs, s2) \<Rightarrow> (Inr (out # outs), s2)))"

lemma run_analysis_contract:
  assumes "stars_nonneg (w_github w)" "cache_ok (w_cache w)"
  shows "analysis (run_analysis w k)"
proof (cases k)
  case Github
  have "run_analysis w k = (\<lambda>t rid ctx s. case analyze_github (w_github w) (w_parse_time w) (w_sha256 w)
      (w_str_json w) t rid ctx (s, w_cache w) of (r, st') \<Rightarrow> (r, fst st'))"
    by (simp add: Github fun_eq_iff)
  moreover have "analysis \<dots>"
  proof
    fix t rid ctx s
    obtain r st' where a: "analyze_github (w_github w) (w_parse_time w) (w_sha256 w) (w_str_json w) t rid ctx
        (s, w_cache w) = (r, st')" by (rule prod.exhaust)
    note result = analyze_github_result [OF assms(1) _ a] assms(2)
    from result show "tdb (snd (case analyze_github (w_github w) (w_parse_time w) (w_sha256 w) (w_str_json w) t rid ctx
        (s, w_cache w) of (r, st') \<Rightarrow> (r, fst st'))) = tdb s"
      by (simp add: a)
    show "output_ok out" if "(case analyze_github (w_github w) (w_parse_time w) (w_sha256 w) (w_str_json w) t rid ctx
        (s, w_cache w) of (r, st') \<Rightarrow> (r, fst st')) = (Inr out, s')" for out s'
      using result that by (simp add: a)
  qed
  ultimately show ?thesis by simp
next
  case Pitch_deck
  then have "run_analysis w k = analyze_pitch_deck (w_download w) (w_url_path w) (w_bucket w) (w_str_exn w)"
    by (simp add: fun_eq_iff)
  then show ?thesis using pitch.analysis_axioms by simp
next
  case Video
  then have "run_analysis w k = analyze_video (w_head w) (w_read_range w) (w_str_exn w)"
    by (simp add: fun_eq_iff)
  then show ?thesis using video.analysis_axioms by simp
next
  case Web_verification
  then have "run_analysis w k = verify_web (w_http w) (w_str_exn w)" by (simp add: fun_eq_iff)
  then show ?thesis using web.analysis_axioms by simp
qed

lemma analyze_all_ok:
  assumes "stars_nonneg (w_github w)" "cache_ok (w_cache w)"
  shows "analyze_all w rid ctx ks s = (r, s') \<Longrightarrow> stored_ok (tdb s) \<Longrightarrow>
    stored_ok (tdb s') \<and> (\<forall>outs. r = Inr outs \<longrightarrow> list_all output_ok outs)"
proof (induction ks arbitrary: s s' r)
  case (Cons kti ks)
  obtain k t i where kti: "kti = (k, t, i)" by (cases kti)
  note contract = run_analysis_contract [OF assms, of k]
  obtain r1 s1 where one: "analysis_task w k t i rid ctx s = (r1, s1)" by fastforce
  have s1: "stored_ok (tdb s1)"
    by (rule analysis.run_keeps_stored_ok [OF contract one [unfolded analysis_task_def] Cons.prems(2)])
  show ?case
  proof (cases r1)
    case (Inl e)
    with Cons.prems(1) one s1 show ?thesis by (auto simp: kti)
  next
    case (Inr out)
    have ok: "output_ok out"
      using analysis.completed_output_ok [OF contract one [unfolded analysis_task_def Inr] Cons.prems(2)] by simp
    obtain r2 s2 where rest: "analyze_all w rid ctx ks s1 = (r2, s2)" by fastforce
    from Cons.IH [OF rest s1] Cons.prems(1) ok one Inr rest show ?thesis
      by (cases r2) (auto simp: kti)
  qed
qed simp

subsection \<open>Properties\<close>

definition good_world :: "world \<Rightarrow> bool" where
  "good_world w \<longleftrightarrow> stars_nonneg (w_github w) \<and> cache_ok (w_cache w)"


definition sample_world :: world where
  "sample_world = \<lparr>w_http = (\<lambda>_. Inl timeout_exception), w_github = (\<lambda>_ _. Inl timeout_exception),
     w_parse_time = (\<lambda>_. Inr 0), w_sha256 = (\<lambda>s. s), w_str_json = (\<lambda>_. []), w_str_exn = (\<lambda>_. []),
     w_download = (\<lambda>_. Inr 100000), w_url_path = (\<lambda>u. u), w_bucket = ''b'',
     w_head = (\<lambda>_. Inr 5), w_read_range = (\<lambda>_ _. Inr ()),
     w_cache = new_manager \<lparr>reachable = False, entries = Map.empty\<rparr>\<rparr>"

lemma sample_good_world: "good_world sample_world"
  by (simp add: good_world_def sample_world_def stars_nonneg_def cache_ok_def new_manager_def redis.extend_def)


end
