(* ===== verification/Delivery.thy ===== *)
theory Delivery
  imports GithubAnalysis
begin

section \<open>At-least-once delivery of base tasks (\<open>workers/tasks/base_task.py\<close>, \<open>workers/celery_app.py\<close>)\<close>

text \<open>
  Celery is configured to acknowledge a task after it ended and to deliver it again when its worker
  is lost or the task asks for a retry. A delivery of a base task runs through the phases of
  \<open>BaseEvalTask.run\<close>, each of which commits a session of its own; a worker may be lost
  between any two of them. The step relation below interleaves any number of deliveries, of one
  worker type or of several, on one database.
\<close>

subsection \<open>The phases of one delivery\<close>

datatype phase =
    Queued | Checked | Created | Executed json | Raised exn
  | Completed json | Skipped json | Failed exn | Lost

fun ended :: "phase \<Rightarrow> bool" where
  "ended (Completed out) = True"
| "ended (Skipped out) = True"
| "ended (Failed e) = True"
| "ended Lost = True"
| "ended _ = False"

fun is_completed :: "phase \<Rightarrow> bool" where
  "is_completed (Completed out) = True"
| "is_completed _ = False"

fun is_failed :: "phase \<Rightarrow> bool" where
  "is_failed (Failed e) = True"
| "is_failed _ = False"

fun returned :: "phase \<Rightarrow> json option" where
  "returned (Completed out) = Some out"
| "returned (Skipped out) = Some out"
| "returned _ = None"

record delivery =
  dv_task :: task
  dv_new_id :: uuid
  dv_kwargs :: json
  dv_execute :: "tstate \<Rightarrow> (tstate, json) outcome"

definition task_host :: "task \<Rightarrow> string" where
  "task_host t = (case hostname t of None \<Rightarrow> ''unknown'' | Some h \<Rightarrow> if h = [] then ''unknown'' else h)"

text \<open>The three \<open>except\<close> clauses.\<close>

fun record_failure :: "(exn \<Rightarrow> string) \<Rightarrow> task \<Rightarrow> uuid \<Rightarrow> json \<Rightarrow> exn \<Rightarrow> tstate \<Rightarrow> tstate" where
  "record_failure str_exn t rid kwargs SoftTimeLimitExceeded s =
     mark_failed t rid ''Task exceeded soft time limit'' s"
| "record_failure str_exn t rid kwargs MaxRetriesExceededError s =
     send_to_dlq t rid kwargs (mark_failed t rid ''Max retries exhausted'' s)"
| "record_failure str_exn t rid kwargs e s = mark_failed t rid (str_exn e) s"

text \<open>What a delivery does next.\<close>

fun advance :: "(exn \<Rightarrow> string) \<Rightarrow> uuid \<Rightarrow> delivery \<Rightarrow> phase \<Rightarrow> tstate \<Rightarrow> phase \<times> tstate" where
  "advance str_exn rid d Queued s =
     (case db_session (check_idempotent (dv_task d) rid) s of
        (Inl e, s1) \<Rightarrow> (Raised e, s1)
      | (Inr (Some out), s1) \<Rightarrow> (Skipped out, s1)
      | (Inr None, s1) \<Rightarrow> (Checked, s1))"
| "advance str_exn rid d Checked s =
     (case db_session (create_worker_result (dv_task d) (dv_new_id d) rid (request_task_id (dv_task d))
             (task_host (dv_task d))) s of
        (Inl e, s1) \<Rightarrow> (Raised e, s1)
      | (Inr _, s1) \<Rightarrow> (Created, update_progress (dv_task d) rid 0 [] s1))"
| "advance str_exn rid d Created s =
     (case dv_execute d s of
        (Inl e, s1) \<Rightarrow> (Raised e, s1)
      | (Inr out, s1) \<Rightarrow> (Executed out, s1))"
| "advance str_exn rid d (Executed out) s =
     (case db_session (mark_completed (dv_task d) rid out) s of
        (Inl e, s1) \<Rightarrow> (Raised e, s1)
      | (Inr _, s1) \<Rightarrow> (Completed out, update_progress (dv_task d) rid 100 [] s1))"
| "advance str_exn rid d (Raised e) s =
     (Failed e, record_failure str_exn (dv_task d) rid (dv_kwargs d) e s)"
| "advance str_exn rid d p s = (p, s)"

fun phases_left :: "phase \<Rightarrow> nat" where
  "phases_left Queued = 5"
| "phases_left Checked = 4"
| "phases_left Created = 3"
| "phases_left (Executed out) = 2"
| "phases_left (Raised e) = 1"
| "phases_left _ = 0"

lemma advance_decreases:
  "\<not> ended p \<Longrightarrow> advance str_exn rid d p s = (p', s') \<Longrightarrow> phases_left p' < phases_left p"
  by (cases p) (auto split: prod.splits sum.splits option.splits)

text \<open>A delivery that is left alone runs to its end.\<close>

function run_alone :: "(exn \<Rightarrow> string) \<Rightarrow> uuid \<Rightarrow> delivery \<Rightarrow> phase \<Rightarrow> tstate \<Rightarrow> phase \<times> tstate" where
  "run_alone str_exn rid d p s =
     (if ended p then (p, s)
      else case advance str_exn rid d p s of (p', s') \<Rightarrow> run_alone str_exn rid d p' s')"
  by pat_completeness auto
termination
  by (relation "measure (\<lambda>(str_exn, rid, d, p, s). phases_left p)")
    (auto split: prod.splits dest: advance_decreases)

declare run_alone.simps [simp del]

lemma run_alone_ended [simp]: "ended p \<Longrightarrow> run_alone str_exn rid d p s = (p, s)"
  by (simp add: run_alone.simps)

lemma run_alone_step:
  "\<not> ended p \<Longrightarrow> advance str_exn rid d p s = (p', s') \<Longrightarrow>
   run_alone str_exn rid d p s = run_alone str_exn rid d p' s'"
  by (simp add: run_alone.simps [of str_exn rid d p])

fun phase_result :: "phase \<Rightarrow> exn + json" where
  "phase_result (Completed out) = Inr out"
| "phase_result (Skipped out) = Inr out"
| "phase_result (Failed e) = Inl e"
| "phase_result p = Inl NotImplementedError"

subsection \<open>The phases implement the wrapper\<close>

text \<open>How the run of a single delivery unfolds.\<close>

lemma run_alone_raised: "run_alone str_exn rid d (Raised e) s =
   (Failed e, record_failure str_exn (dv_task d) rid (dv_kwargs d) e s)"
  by (simp add: run_alone_step [of "Raised e"])

lemma run_alone_executed: "run_alone str_exn rid d (Executed out) s =
   (Completed out, update_progress (dv_task d) rid 100 []
      (s\<lparr>tdb := snd (mark_completed (dv_task d) rid out (tdb s))\<rparr>))"
  by (simp add: run_alone_step [of "Executed out"] mark_completed_session)

lemma run_alone_created: "run_alone str_exn rid d Created s =
   (case dv_execute d s of
      (Inl e, s1) \<Rightarrow> run_alone str_exn rid d (Raised e) s1
    | (Inr out, s1) \<Rightarrow> run_alone str_exn rid d (Executed out) s1)"
  by (auto simp: run_alone_step [of Created] split: prod.splits sum.splits)

lemma run_alone_checked: "run_alone str_exn rid d Checked s =
   (case db_session (create_worker_result (dv_task d) (dv_new_id d) rid (request_task_id (dv_task d))
           (task_host (dv_task d))) s of
      (Inl e, s1) \<Rightarrow> run_alone str_exn rid d (Raised e) s1
    | (Inr _, s1) \<Rightarrow> run_alone str_exn rid d Created (update_progress (dv_task d) rid 0 [] s1))"
  by (auto simp: run_alone_step [of Checked] split: prod.splits sum.splits)

lemma run_alone_queued: "run_alone str_exn rid d Queued s =
   (case db_session (check_idempotent (dv_task d) rid) s of
      (Inl e, s1) \<Rightarrow> run_alone str_exn rid d (Raised e) s1
    | (Inr (Some out), s1) \<Rightarrow> (Skipped out, s1)
    | (Inr None, s1) \<Rightarrow> run_alone str_exn rid d Checked s1)"
  by (auto simp: run_alone_step [of Queued] split: prod.splits sum.splits option.splits)

lemmas run_alone_phases = run_alone_queued run_alone_checked run_alone_created run_alone_executed
  run_alone_raised

text \<open>
  Left alone, a delivery does exactly what the wrapper does: running the phases to the end is
  \<open>base_run\<close>.
\<close>

lemma base_run_raised:
  "run_body t nid rid execute s = (Inl e, s') \<Longrightarrow>
   base_run str_exn t nid rid kw execute s = (Inl e, record_failure str_exn t rid kw e s')"
  by (cases e) (simp_all add: base_run_def)

theorem phases_are_base_run:
  "base_run str_exn (dv_task d) (dv_new_id d) rid (dv_kwargs d) (dv_execute d) s =
     (phase_result (fst (run_alone str_exn rid d Queued s)), snd (run_alone str_exn rid d Queued s))"
proof -
  note alone = run_alone_phases mark_completed_session
  let ?t = "dv_task d"
  show ?thesis
  proof (cases "db_session (check_idempotent ?t rid) s")
    case (Pair c s1)
    show ?thesis
    proof (cases c)
      case (Inl e)
      with Pair have "run_body ?t (dv_new_id d) rid (dv_execute d) s = (Inl e, s1)" by (simp add: run_body_def)
      with Pair Inl show ?thesis by (simp add: base_run_raised alone)
    next
      case (Inr c1)
      show ?thesis
      proof (cases c1)
        case (Some out)
        with Pair Inr show ?thesis by (simp add: base_run_def run_body_def alone)
      next
        case None
        note checked = Pair Inr None
        obtain r2 s2 where created: "db_session (create_worker_result ?t (dv_new_id d) rid (request_task_id ?t)
            (task_host ?t)) s1 = (r2, s2)" by fastforce
        show ?thesis
        proof (cases r2)
          case (Inl e)
          with checked created have "run_body ?t (dv_new_id d) rid (dv_execute d) s = (Inl e, s2)"
            by (simp add: run_body_def task_host_def)
          with checked created Inl show ?thesis by (simp add: base_run_raised alone)
        next
          case (Inr u)
          obtain r3 s3 where executed: "dv_execute d (update_progress ?t rid 0 [] s2) = (r3, s3)" by fastforce
          show ?thesis
          proof (cases r3)
            case (Inl e)
            with checked created executed Inr have "run_body ?t (dv_new_id d) rid (dv_execute d) s = (Inl e, s3)"
              by (simp add: run_body_def task_host_def)
            with checked created executed Inr Inl show ?thesis by (simp add: base_run_raised alone)
          next
            case (Inr out)
            with checked created executed \<open>r2 = Inr u\<close> show ?thesis
              by (simp add: base_run_def run_body_def task_host_def alone)
          qed
        qed
      qed
    qed
  qed
qed

subsection \<open>Interleaved deliveries\<close>

text \<open>
  The state is what the deliveries share and the phase of each; \<open>D k\<close> is the delivery that comes
  \<open>k\<close>-th. With \<open>serial\<close> no delivery arrives while another one of its worker type runs.
\<close>

type_synonym deliveries = "tstate \<times> phase list"

abbreviation type_of :: "(nat \<Rightarrow> delivery) \<Rightarrow> nat \<Rightarrow> string" where
  "type_of D k \<equiv> wtype (dv_task (D k))"

definition type_idle :: "(nat \<Rightarrow> delivery) \<Rightarrow> string \<Rightarrow> phase list \<Rightarrow> bool" where
  "type_idle D wt ps = list_all (\<lambda>(k, p). type_of D k = wt \<longrightarrow> ended p) (enumerate 0 ps)"

inductive delivery_step :: "(exn \<Rightarrow> string) \<Rightarrow> uuid \<Rightarrow> (nat \<Rightarrow> delivery) \<Rightarrow> bool \<Rightarrow> deliveries \<Rightarrow> deliveries \<Rightarrow> bool"
  for str_exn rid D serial where
  Deliver: "(serial \<longrightarrow> type_idle D (type_of D (length ps)) ps) \<Longrightarrow>
     delivery_step str_exn rid D serial (s, ps) (s, ps @ [Queued])"
| Advance: "k < length ps \<Longrightarrow> \<not> ended (ps ! k) \<Longrightarrow> advance str_exn rid (D k) (ps ! k) s = (p', s') \<Longrightarrow>
     delivery_step str_exn rid D serial (s, ps) (s', ps[k := p'])"
| Lose: "k < length ps \<Longrightarrow> \<not> ended (ps ! k) \<Longrightarrow>
     delivery_step str_exn rid D serial (s, ps) (s, ps[k := Lost])"

inductive delivered :: "(exn \<Rightarrow> string) \<Rightarrow> uuid \<Rightarrow> (nat \<Rightarrow> delivery) \<Rightarrow> bool \<Rightarrow> tstate \<Rightarrow> deliveries \<Rightarrow> bool"
  for str_exn rid D serial s0 where
  start: "delivered str_exn rid D serial s0 (s0, [])"
| step: "delivered str_exn rid D serial s0 c \<Longrightarrow> delivery_step str_exn rid D serial c c' \<Longrightarrow>
     delivered str_exn rid D serial s0 c'"

lemma type_idle_iff: "type_idle D wt ps \<longleftrightarrow> (\<forall>k < length ps. type_of D k = wt \<longrightarrow> ended (ps ! k))"
  by (auto simp: type_idle_def list_all_iff in_set_enumerate_eq)

text \<open>The schedules as a function: an event that is not enabled has no successor.\<close>

datatype delivery_event = Arrive | Move nat | Crash nat

fun react :: "(exn \<Rightarrow> string) \<Rightarrow> uuid \<Rightarrow> (nat \<Rightarrow> delivery) \<Rightarrow> bool \<Rightarrow> delivery_event \<Rightarrow> deliveries \<Rightarrow> deliveries option" where
  "react str_exn rid D serial Arrive (s, ps) =
     (if serial \<and> \<not> type_idle D (type_of D (length ps)) ps then None else Some (s, ps @ [Queued]))"
| "react str_exn rid D serial (Move k) (s, ps) =
     (if k < length ps \<and> \<not> ended (ps ! k)
      then (case advance str_exn rid (D k) (ps ! k) s of (p', s') \<Rightarrow> Some (s', ps[k := p'])) else None)"
| "react str_exn rid D serial (Crash k) (s, ps) =
     (if k < length ps \<and> \<not> ended (ps ! k) then Some (s, ps[k := Lost]) else None)"

fun schedule :: "(exn \<Rightarrow> string) \<Rightarrow> uuid \<Rightarrow> (nat \<Rightarrow> delivery) \<Rightarrow> bool \<Rightarrow> delivery_event list \<Rightarrow> deliveries \<Rightarrow> deliveries option" where
  "schedule str_exn rid D serial [] c = Some c"
| "schedule str_exn rid D serial (e # es) c =
     (case react str_exn rid D serial e c of None \<Rightarrow> None | Some c' \<Rightarrow> schedule str_exn rid D serial es c')"

lemma react_step: "react str_exn rid D serial e c = Some c' \<Longrightarrow> delivery_step str_exn rid D serial c c'"
  by (cases c; cases e) (auto intro: delivery_step.intros split: if_splits prod.splits)

lemma step_react:
  assumes "delivery_step str_exn rid D serial c c'"
  shows "\<exists>e. react str_exn rid D serial e c = Some c'"
  using assms
proof cases
  case (Deliver ps s)
  then show ?thesis by (intro exI [of _ Arrive]) simp
next
  case (Advance k ps s p' s')
  then show ?thesis by (intro exI [of _ "Move k"]) simp
next
  case (Lose k ps s)
  then show ?thesis by (intro exI [of _ "Crash k"]) simp
qed

lemma schedule_delivered:
  "delivered str_exn rid D serial s0 c \<Longrightarrow> schedule str_exn rid D serial es c = Some c' \<Longrightarrow>
   delivered str_exn rid D serial s0 c'"
proof (induction es arbitrary: c)
  case (Cons e es)
  then obtain c1 where c1: "react str_exn rid D serial e c = Some c1" "schedule str_exn rid D serial es c1 = Some c'"
    by (auto split: option.splits)
  from Cons.IH [OF delivered.step [OF Cons.prems(1) react_step [OF c1(1)]] c1(2)] show ?case .
qed simp

lemma schedule_append:
  "schedule str_exn rid D serial (es @ fs) c =
     (case schedule str_exn rid D serial es c of None \<Rightarrow> None | Some c' \<Rightarrow> schedule str_exn rid D serial fs c')"
  by (induction es arbitrary: c) (auto split: option.splits)

lemma delivered_iff_schedule:
  "delivered str_exn rid D serial s0 c \<longleftrightarrow> (\<exists>es. schedule str_exn rid D serial es (s0, []) = Some c)"
proof
  assume "delivered str_exn rid D serial s0 c"
  then show "\<exists>es. schedule str_exn rid D serial es (s0, []) = Some c"
  proof induction
    case start
    show ?case by (rule exI [of _ "[]"]) simp
  next
    case (step c c')
    then obtain es e where "schedule str_exn rid D serial es (s0, []) = Some c"
      "react str_exn rid D serial e c = Some c'" using step_react by blast
    then show ?case by (intro exI [of _ "es @ [e]"]) (simp add: schedule_append)
  qed
qed (auto intro: schedule_delivered delivered.start)

subsection \<open>What a step does to the tables\<close>

abbreviation rows_of :: "uuid \<Rightarrow> string \<Rightarrow> tstate \<Rightarrow> worker_result list" where
  "rows_of rid wt s \<equiv> filter (wr_match rid wt) (worker_results (tdb s))"

definition run_counts :: "tstate \<Rightarrow> (uuid \<times> int \<times> int) list" where
  "run_counts s = map (\<lambda>r. (ident r, completed_workers r, failed_workers r)) (runs (tdb s))"

definition add_counts :: "uuid \<Rightarrow> int \<Rightarrow> int \<Rightarrow> (uuid \<times> int \<times> int) list \<Rightarrow> (uuid \<times> int \<times> int) list" where
  "add_counts rid c f xs = map (\<lambda>(i, a, b). if i = rid then (i, a + c, b + f) else (i, a, b)) xs"

text \<open>The code of a task leaves the two tables of the base task alone and returns a non-empty
  output.\<close>

definition steady :: "(tstate \<Rightarrow> (tstate, json) outcome) \<Rightarrow> bool" where
  "steady f \<longleftrightarrow> (\<forall>s r s'. f s = (r, s') \<longrightarrow> worker_results (tdb s') = worker_results (tdb s)
     \<and> run_counts s' = run_counts s \<and> (\<forall>out. r = Inr out \<longrightarrow> json_truthy out))"

lemma steadyD:
  "steady f \<Longrightarrow> f s = (r, s') \<Longrightarrow> worker_results (tdb s') = worker_results (tdb s)"
  "steady f \<Longrightarrow> f s = (r, s') \<Longrightarrow> run_counts s' = run_counts s"
  "steady f \<Longrightarrow> f s = (Inr out, s') \<Longrightarrow> json_truthy out"
  unfolding steady_def by blast+

lemma run_counts_db [simp]:
  "run_counts (update_progress t rid p dt s) = run_counts s"
  "run_counts (send_to_dlq t rid kw s) = run_counts s"
  by (simp_all add: run_counts_def)

lemma add_counts_0 [simp]: "add_counts rid 0 0 xs = xs"
  by (induction xs) (auto simp: add_counts_def)

lemma add_counts_add [simp]: "add_counts rid c f (add_counts rid c' f' xs) = add_counts rid (c' + c) (f' + f) xs"
  by (induction xs) (auto simp: add_counts_def)

lemma run_counts_bump:
  "run_counts (s\<lparr>tdb := snd (mark_completed t rid out (tdb s))\<rparr>) = add_counts rid 1 0 (run_counts s)"
  "run_counts (mark_failed t rid m s) = add_counts rid 0 1 (run_counts s)"
  by (auto simp: run_counts_def add_counts_def mark_completed_def mark_failed_eq mark_failed_db_def
      bump_run_def Let_def update_where_def)

lemma record_failure_counts:
  "run_counts (record_failure str_exn t rid kw e s) = add_counts rid 0 1 (run_counts s)"
  by (cases e) (simp_all add: run_counts_bump)

lemma create_counts:
  "db_session (create_worker_result t i rid tid h) s = (r, s') \<Longrightarrow> run_counts s' = run_counts s"
  by (auto simp: db_session_def in_session_def create_worker_result_def run_counts_def
      split: sum.splits option.splits)

lemma advance_counts:
  assumes "advance str_exn rid d p s = (p', s')" "\<not> ended p" "steady (dv_execute d)"
  shows "run_counts s' = add_counts rid (of_bool (is_completed p')) (of_bool (is_failed p')) (run_counts s)"
proof (cases p)
  case (Executed out)
  with assms(1) show ?thesis by (auto simp: mark_completed_session run_counts_bump)
next
  case (Raised e)
  with assms(1) show ?thesis by (auto simp: record_failure_counts)
next
  case Checked
  with assms(1) show ?thesis by (auto split: prod.splits sum.splits dest: create_counts)
next
  case Created
  with assms(1) show ?thesis by (auto split: prod.splits sum.splits dest: steadyD(2) [OF assms(3)])
next
  case Queued
  with assms(1) show ?thesis by (auto simp: check_session split: prod.splits sum.splits option.splits)
qed (use assms(2) in simp_all)

text \<open>Counting phases.\<close>

definition count_phases :: "(phase \<Rightarrow> bool) \<Rightarrow> phase list \<Rightarrow> nat" where
  "count_phases P ps = length (filter P ps)"

lemma count_phases_update:
  "k < length ps \<Longrightarrow> \<not> P (ps ! k) \<Longrightarrow> count_phases P (ps[k := p']) = count_phases P ps + of_bool (P p')"
proof (induction ps arbitrary: k)
  case (Cons x xs)
  then show ?case by (cases k) (auto simp: count_phases_def)
qed simp

lemma count_phases_append [simp]: "count_phases P (ps @ [p]) = count_phases P ps + of_bool (P p)"
  by (simp add: count_phases_def)

lemma running_not_counted:
  "\<not> ended p \<Longrightarrow> \<not> is_completed p" "\<not> ended p \<Longrightarrow> \<not> is_failed p"
  by (cases p; simp)+

definition counted :: "uuid \<Rightarrow> tstate \<Rightarrow> deliveries \<Rightarrow> bool" where
  "counted rid s0 c \<longleftrightarrow> run_counts (fst c) = add_counts rid (int (count_phases is_completed (snd c)))
     (int (count_phases is_failed (snd c))) (run_counts s0)"

lemma delivered_counted:
  assumes "delivered str_exn rid D serial s0 c" "\<And>k. steady (dv_execute (D k))"
  shows "counted rid s0 c"
  using assms(1)
proof induction
  case start
  show ?case by (simp add: counted_def count_phases_def)
next
  case (step c c')
  from step(2,3) show ?case
  proof (cases rule: delivery_step.cases)
    case (Advance k ps s p' s')
    with step(3) advance_counts [OF Advance(5,4) assms(2)] show ?thesis
      by (simp add: counted_def count_phases_update running_not_counted algebra_simps)
  qed (auto simp: counted_def count_phases_update running_not_counted)
qed

subsection \<open>The rows of the worker types\<close>

definition done_row :: "worker_result \<Rightarrow> json \<Rightarrow> bool" where
  "done_row w out \<longleftrightarrow> wr_status w = W_COMPLETED \<and> output_data w = out"

abbreviation row_ids :: "tstate \<Rightarrow> uuid list" where
  "row_ids s \<equiv> map ident (worker_results (tdb s))"

lemma rows_progress [simp]: "worker_results (tdb (update_progress t rid p dt s)) = worker_results (tdb s)"
  by simp

lemma mark_completed_rows:
  assumes "rows_of rid (wtype t) s = [w]"
  shows "\<exists>w'. rows_of rid (wtype t) (s\<lparr>tdb := snd (mark_completed t rid out (tdb s))\<rparr>) = [w'] \<and> done_row w' out"
    and "wt \<noteq> wtype t \<Longrightarrow> rows_of rid wt (s\<lparr>tdb := snd (mark_completed t rid out (tdb s))\<rparr>) = rows_of rid wt s"
proof -
  let ?f = "\<lambda>w. touch (now (tenv t)) (w\<lparr>wr_status := W_COMPLETED, output_data := out,
      processing_time_ms := (case elapsed_ms t of None \<Rightarrow> 0 | Some n \<Rightarrow> n)\<rparr>)"
  have m: "wr_match rid wt (?f w) = wr_match rid wt w" for wt w by (simp add: wr_match_def)
  have "rows_of rid (wtype t) (s\<lparr>tdb := snd (mark_completed t rid out (tdb s))\<rparr>) =
      update_where (wr_match rid (wtype t)) ?f (rows_of rid (wtype t) s)"
    by (simp add: mark_completed_def Let_def) (rule filter_update_where, rule m)
  also have "\<dots> = [?f w]" using filter_singletonD [OF assms] by (simp add: assms update_where_def)
  finally show "\<exists>w'. rows_of rid (wtype t) (s\<lparr>tdb := snd (mark_completed t rid out (tdb s))\<rparr>) = [w'] \<and> done_row w' out"
    by (simp add: done_row_def)
  show "rows_of rid wt (s\<lparr>tdb := snd (mark_completed t rid out (tdb s))\<rparr>) = rows_of rid wt s" if "wt \<noteq> wtype t"
    using that
    by (simp add: mark_completed_def Let_def) (rule filter_update_where_disjoint; auto simp: wr_match_def)
qed

lemma mark_failed_rows:
  "\<exists>f. (\<forall>w. wr_status (f w) = W_FAILED) \<and> rows_of rid (wtype t) (mark_failed t rid m s) = map f (rows_of rid (wtype t) s)"
  "wt \<noteq> wtype t \<Longrightarrow> rows_of rid wt (mark_failed t rid m s) = rows_of rid wt s"
  "row_ids (mark_failed t rid m s) = row_ids s"
proof -
  let ?f = "\<lambda>w. touch (now (tenv t)) (w\<lparr>wr_status := W_FAILED, wr_error_message := Some (take 2000 m)\<rparr>)"
  have f: "wr_match rid wt (?f w) = wr_match rid wt w" for wt w by (simp add: wr_match_def)
  have "rows_of rid (wtype t) (mark_failed t rid m s) =
      update_where (wr_match rid (wtype t)) ?f (rows_of rid (wtype t) s)"
    by (simp add: mark_failed_eq mark_failed_db_def Let_def filter_update_where)
  also have "\<dots> = map ?f (rows_of rid (wtype t) s)" by (auto simp: update_where_def)
  finally show "\<exists>f. (\<forall>w. wr_status (f w) = W_FAILED) \<and> rows_of rid (wtype t) (mark_failed t rid m s) =
      map f (rows_of rid (wtype t) s)"
    by (intro exI [of _ ?f]) simp
  show "rows_of rid wt (mark_failed t rid m s) = rows_of rid wt s" if "wt \<noteq> wtype t"
    using that
    by (simp add: mark_failed_eq mark_failed_db_def Let_def) (rule filter_update_where_disjoint; auto simp: wr_match_def)
  show "row_ids (mark_failed t rid m s) = row_ids s"
    by (simp add: mark_failed_eq mark_failed_db_def Let_def map_update_where)
qed

lemma record_failure_as_mark:
  "\<exists>m. worker_results (tdb (record_failure str_exn t rid kw e s)) = worker_results (tdb (mark_failed t rid m s))"
  by (cases e) auto

lemma filter_update_where_set:
  "(\<And>x. x \<in> set t \<Longrightarrow> P x \<Longrightarrow> \<not> Q x \<and> \<not> Q (f x)) \<Longrightarrow> filter Q (update_where P f t) = filter Q t"
  by (induction t) (auto simp: update_where_def)

lemma create_rows:
  assumes "db_session (create_worker_result t i rid tid h) s = (Inr u, s')"
    and "distinct (row_ids s)" "i \<notin> set (row_ids s)" "length (rows_of rid (wtype t) s) \<le> 1"
  shows "(\<exists>w. rows_of rid (wtype t) s' = [w] \<and> wr_status w = W_RUNNING)
    \<and> (\<forall>wt. wt \<noteq> wtype t \<longrightarrow> rows_of rid wt s' = rows_of rid wt s)
    \<and> distinct (row_ids s') \<and> set (row_ids s') \<subseteq> insert i (set (row_ids s))"
proof -
  obtain db' where c: "create_worker_result t i rid tid h (tdb s) = (Inr u, db')" "s' = s\<lparr>tdb := db'\<rparr>"
    using assms(1) by (auto simp: db_session_def in_session_def split: prod.splits sum.splits)
  from c(1) obtain r where r: "filter (\<lambda>r. ident r = rid) (runs (tdb s)) = [r]"
    by (auto simp: create_worker_result_def select_where_def split: sum.splits)
  from create_worker_result_ok [OF r assms(4), of i tid h] c(1)
  have own: "\<exists>w. rows_of rid (wtype t) s' = [w] \<and> wr_status w = W_RUNNING" by (metis c(2) prod.inject
        tstate.select_convs(1) tstate.surjective tstate.update_convs(1))
  show ?thesis
  proof (cases "rows_of rid (wtype t) s")
    case Nil
    then have "db' = (tdb s)\<lparr>worker_results := worker_results (tdb s)
        @ [new_worker_result t i rid (organization_id r) tid h]\<rparr>"
      using c(1) r by (simp add: create_worker_result_def select_where_def insert_row_def)
    with c(2) own assms(2,3) show ?thesis by (auto simp: new_worker_result_def wr_match_def)
  next
    case (Cons w ws)
    with assms(4) have w: "rows_of rid (wtype t) s = [w]" by simp
    let ?f = "\<lambda>x. orm_flush (now (tenv t)) x (x\<lparr>wr_status := W_RUNNING, wr_celery_task_id := Some tid,
        worker_id := Some h\<rparr>)"
    have s': "db' = (tdb s)\<lparr>worker_results := update_where (\<lambda>x. ident x = ident w) ?f (worker_results (tdb s))\<rparr>"
      using c(1) r w by (simp add: create_worker_result_def select_where_def)
    have "rows_of rid wt s' = rows_of rid wt s" if "wt \<noteq> wtype t" for wt
    proof -
      have wm: "w \<in> set (worker_results (tdb s))" "wr_match rid (wtype t) w" using filter_singletonD [OF w] by simp_all
      have "x = w" if "x \<in> set (worker_results (tdb s))" "ident x = ident w" for x
        using assms(2) that wm(1) by (simp add: distinct_map inj_on_def)
      then have "filter (wr_match rid wt) (update_where (\<lambda>x. ident x = ident w) ?f (worker_results (tdb s))) =
          filter (wr_match rid wt) (worker_results (tdb s))"
        using that wm(2) by (intro filter_update_where_set) (auto simp: wr_match_def)
      then show ?thesis by (simp add: c(2) s')
    qed
    moreover have "row_ids s' = row_ids s" by (simp add: c(2) s' map_update_where)
    ultimately show ?thesis using own assms(2) by (simp add: subset_insertI)
  qed
qed

lemma create_error: "db_session (create_worker_result t i rid tid h) s = (Inl e, s') \<Longrightarrow> s' = s"
  by (auto simp: db_session_def in_session_def split: prod.splits sum.splits)

lemma check_rows:
  assumes "length (rows_of rid (wtype t) s) \<le> 1"
  shows "fst (check_idempotent t rid (tdb s)) = Inr (Some out) \<Longrightarrow> \<exists>w. rows_of rid (wtype t) s = [w] \<and> done_row w out"
    and "rows_of rid (wtype t) s = [w] \<Longrightarrow> done_row w out \<Longrightarrow> json_truthy out \<Longrightarrow>
      fst (check_idempotent t rid (tdb s)) = Inr (Some out)"
proof -
  have sel: "select_where (\<lambda>w. wr_match rid (wtype t) w \<and> wr_status w = W_COMPLETED) (worker_results (tdb s)) =
      filter (\<lambda>w. wr_status w = W_COMPLETED) (rows_of rid (wtype t) s)"
    by (simp add: select_where_def)
  show "\<exists>w. rows_of rid (wtype t) s = [w] \<and> done_row w out"
    if "fst (check_idempotent t rid (tdb s)) = Inr (Some out)"
  proof (cases "rows_of rid (wtype t) s")
    case Nil
    with that show ?thesis by (simp add: check_idempotent_def sel del: filter_filter)
  next
    case (Cons w ws)
    with assms have "rows_of rid (wtype t) s = [w]" by simp
    with that show ?thesis
      by (auto simp: check_idempotent_def sel done_row_def simp del: filter_filter split: if_splits)
  qed
  show "fst (check_idempotent t rid (tdb s)) = Inr (Some out)"
    if "rows_of rid (wtype t) s = [w]" "done_row w out" "json_truthy out"
    using that by (simp add: check_idempotent_def sel done_row_def del: filter_filter)
qed

fun working :: "phase \<Rightarrow> bool" where
  "working Created = True"
| "working (Executed out) = True"
| "working p = False"

text \<open>What a step of a delivery leaves of the rows of its own type.\<close>

fun own_rows :: "phase \<Rightarrow> phase \<Rightarrow> worker_result list \<Rightarrow> worker_result list \<Rightarrow> bool" where
  "own_rows Queued p' rs rs' = (rs' = rs \<and> (case p' of
     Skipped out \<Rightarrow> (\<exists>w. rs = [w] \<and> done_row w out) | Checked \<Rightarrow> True | Raised e \<Rightarrow> True | _ \<Rightarrow> False)
     \<and> (\<forall>w out. rs = [w] \<longrightarrow> done_row w out \<longrightarrow> json_truthy out \<longrightarrow> p' = Skipped out))"
| "own_rows Checked p' rs rs' = (case p' of
     Created \<Rightarrow> (\<exists>w. rs' = [w] \<and> wr_status w = W_RUNNING) | Raised e \<Rightarrow> rs' = rs | _ \<Rightarrow> False)"
| "own_rows Created p' rs rs' = (rs' = rs \<and> (case p' of
     Executed out \<Rightarrow> json_truthy out | Raised e \<Rightarrow> True | _ \<Rightarrow> False))"
| "own_rows (Executed out) p' rs rs' = (p' = Completed out \<and> (\<exists>w. rs' = [w] \<and> done_row w out))"
| "own_rows (Raised e) p' rs rs' = (p' = Failed e \<and> (\<exists>f. (\<forall>w. wr_status (f w) = W_FAILED) \<and> rs' = map f rs))"
| "own_rows p p' rs rs' = False"

lemma advance_rows:
  assumes a: "advance str_exn rid d p s = (p', s')" and "\<not> ended p" and st: "steady (dv_execute d)"
    and ids: "distinct (row_ids s)" "p = Checked \<Longrightarrow> dv_new_id d \<notin> set (row_ids s)"
    and le1: "length (rows_of rid (wtype (dv_task d)) s) \<le> 1"
    and ne: "working p \<Longrightarrow> rows_of rid (wtype (dv_task d)) s \<noteq> []"
  shows "own_rows p p' (rows_of rid (wtype (dv_task d)) s) (rows_of rid (wtype (dv_task d)) s')
    \<and> (\<forall>wt. wt \<noteq> wtype (dv_task d) \<longrightarrow> rows_of rid wt s' = rows_of rid wt s)
    \<and> distinct (row_ids s')
    \<and> set (row_ids s') \<subseteq> (if p = Checked then insert (dv_new_id d) (set (row_ids s)) else set (row_ids s))"
proof (cases p)
  case Queued
  have s': "s' = s" using a Queued by (auto simp: check_session split: sum.splits option.splits)
  have "own_rows Queued p' (rows_of rid (wtype (dv_task d)) s) (rows_of rid (wtype (dv_task d)) s)"
    using a Queued check_rows(1) [OF le1] check_rows(2) [OF le1]
    by (auto simp: check_session split: sum.splits option.splits)
  with s' ids Queued show ?thesis by simp
next
  case Checked
  show ?thesis
  proof (cases "\<exists>e. p' = Raised e")
    case True
    then have "s' = s" using a Checked by (auto split: prod.splits sum.splits dest: create_error)
    with True Checked ids(1) show ?thesis by auto
  next
    case False
    then obtain u s1 where "db_session (create_worker_result (dv_task d) (dv_new_id d) rid
        (request_task_id (dv_task d)) (task_host (dv_task d))) s = (Inr u, s1)" "p' = Created"
        "s' = update_progress (dv_task d) rid 0 [] s1"
      using a Checked by (auto split: prod.splits sum.splits)
    with create_rows [OF this(1) ids(1) ids(2) [OF Checked] le1] Checked show ?thesis by simp
  qed
next
  case Created
  obtain r s1 where x: "dv_execute d s = (r, s1)" by fastforce
  with a Created have "s' = s1" by (auto split: sum.splits)
  with steadyD(1) [OF st x] steadyD(3) [OF st] a Created x ids(1) show ?thesis
    by (auto split: sum.splits)
next
  case (Executed out)
  with ne le1 obtain w where w: "rows_of rid (wtype (dv_task d)) s = [w]"
    by (cases "rows_of rid (wtype (dv_task d)) s") auto
  from a Executed have s': "p' = Completed out" "worker_results (tdb s') =
      worker_results (tdb (s\<lparr>tdb := snd (mark_completed (dv_task d) rid out (tdb s))\<rparr>))"
    by (auto simp: mark_completed_session)
  moreover have "row_ids (s\<lparr>tdb := snd (mark_completed (dv_task d) rid out (tdb s))\<rparr>) = row_ids s"
    by (simp add: mark_completed_def Let_def map_update_where)
  ultimately show ?thesis
    using mark_completed_rows [where t = "dv_task d" and rid = rid and out = out, OF w] Executed ids(1) by simp
next
  case (Raised e)
  with a obtain m where s': "p' = Failed e" "worker_results (tdb s') = worker_results (tdb (mark_failed (dv_task d) rid m s))"
    using record_failure_as_mark [of str_exn "dv_task d" rid "dv_kwargs d" e s] by auto
  then show ?thesis
    using mark_failed_rows [where rid = rid and t = "dv_task d" and m = m and s = s] Raised ids(1) by simp
qed (use assms(2) in simp_all)

end
