(* ===== verification/DeliveryOnce.thy ===== *)
theory DeliveryOnce
  imports Delivery
begin

section \<open>Deliveries of the analyses count once\<close>

text \<open>
  Invariants of the schedules of theory Delivery: in every schedule a worker type has at most one
  row; when deliveries of a type do not overlap, a completed delivery fixes the row and the output
  of its type. The four analyses meet the assumptions on the code of a task.
\<close>

subsection \<open>Invariants\<close>

text \<open>In every schedule a worker type has at most one row, and one that works has its row.\<close>

definition orderly :: "uuid \<Rightarrow> (nat \<Rightarrow> delivery) \<Rightarrow> deliveries \<Rightarrow> bool" where
  "orderly rid D c \<longleftrightarrow> (case c of (s, ps) \<Rightarrow>
     distinct (row_ids s)
     \<and> (\<forall>k. dv_new_id (D k) \<in> set (row_ids s) \<longrightarrow> k < length ps \<and> ps ! k \<noteq> Queued \<and> ps ! k \<noteq> Checked)
     \<and> (\<forall>wt. length (rows_of rid wt s) \<le> 1)
     \<and> (\<forall>k < length ps. working (ps ! k) \<longrightarrow> rows_of rid (type_of D k) s \<noteq> [])
     \<and> (\<forall>k < length ps. \<forall>out. ps ! k = Executed out \<longrightarrow> json_truthy out))"

lemma orderlyD:
  assumes "orderly rid D (s, ps)"
  shows "distinct (row_ids s)"
    and "dv_new_id (D k) \<in> set (row_ids s) \<Longrightarrow> k < length ps \<and> ps ! k \<noteq> Queued \<and> ps ! k \<noteq> Checked"
    and "length (rows_of rid wt s) \<le> 1"
    and "k < length ps \<Longrightarrow> working (ps ! k) \<Longrightarrow> rows_of rid (type_of D k) s \<noteq> []"
    and "k < length ps \<Longrightarrow> ps ! k = Executed out \<Longrightarrow> json_truthy out"
  using assms by (auto simp: orderly_def)

lemma own_rows_length: "own_rows p p' rs rs' \<Longrightarrow> length rs \<le> 1 \<Longrightarrow> length rs' \<le> 1"
  by (cases p) (auto split: phase.splits)

lemma own_rows_nonempty: "own_rows p p' rs rs' \<Longrightarrow> rs \<noteq> [] \<Longrightarrow> rs' \<noteq> []"
  by (cases p) (auto split: phase.splits)

lemma own_rows_working: "own_rows p p' rs rs' \<Longrightarrow> working p' \<Longrightarrow> working p \<Longrightarrow> rs \<noteq> [] \<Longrightarrow> rs' \<noteq> []"
  by (rule own_rows_nonempty)

lemma own_rows_start: "own_rows p p' rs rs' \<Longrightarrow> working p' \<Longrightarrow> \<not> working p \<Longrightarrow> rs' \<noteq> []"
  by (cases p) (auto split: phase.splits)

lemma own_rows_executed: "own_rows p (Executed out) rs rs' \<Longrightarrow> json_truthy out"
  by (cases p) auto

lemma own_rows_leaves: "own_rows p p' rs rs' \<Longrightarrow> p' \<noteq> Queued \<and> (p = Checked \<longrightarrow> p' \<noteq> Checked)"
  by (cases p) (auto split: phase.splits)

lemma own_rows_checked: "own_rows p Checked rs rs' \<Longrightarrow> p = Queued"
  by (cases p) auto

text \<open>What a step of delivery \<open>k\<close> does in an orderly state.\<close>

lemma orderly_advance:
  assumes "orderly rid D (s, ps)" "k < length ps" "\<not> ended (ps ! k)"
    and "advance str_exn rid (D k) (ps ! k) s = (p', s')" "steady (dv_execute (D k))"
  shows "own_rows (ps ! k) p' (rows_of rid (type_of D k) s) (rows_of rid (type_of D k) s')"
    and "wt \<noteq> type_of D k \<Longrightarrow> rows_of rid wt s' = rows_of rid wt s"
    and "distinct (row_ids s')"
    and "set (row_ids s') \<subseteq>
      (if ps ! k = Checked then insert (dv_new_id (D k)) (set (row_ids s)) else set (row_ids s))"
proof -
  have fresh: "dv_new_id (D k) \<notin> set (row_ids s)" if "ps ! k = Checked"
    using orderlyD(2) [OF assms(1)] that by blast
  note advance_rows [OF assms(4,3,5) orderlyD(1) [OF assms(1)] fresh orderlyD(3) [OF assms(1)]
      orderlyD(4) [OF assms(1,2)]]
  then show "own_rows (ps ! k) p' (rows_of rid (type_of D k) s) (rows_of rid (type_of D k) s')"
    "wt \<noteq> type_of D k \<Longrightarrow> rows_of rid wt s' = rows_of rid wt s" "distinct (row_ids s')"
    "set (row_ids s') \<subseteq>
      (if ps ! k = Checked then insert (dv_new_id (D k)) (set (row_ids s)) else set (row_ids s))"
    by blast+
qed

lemma orderly_step:
  assumes "delivery_step str_exn rid D serial c c'" "orderly rid D c"
    and "\<And>k. steady (dv_execute (D k))" "inj (\<lambda>k. dv_new_id (D k))"
  shows "orderly rid D c'"
  using assms(1)
proof (cases rule: delivery_step.cases)
  case (Deliver ps s)
  note o = orderlyD [OF assms(2) [unfolded Deliver]]
  show ?thesis
    unfolding Deliver orderly_def
    using o by (fastforce simp: nth_append less_Suc_eq)
next
  case (Lose k ps s)
  note o = orderlyD [OF assms(2) [unfolded Lose]]
  show ?thesis
    unfolding Lose orderly_def using o Lose(3) by (auto simp: nth_list_update split: if_splits)
next
  case (Advance k ps s p' s')
  note ord = assms(2) [unfolded Advance(1)]
  note o = orderlyD [OF ord]
  note step = orderly_advance [OF ord Advance(3-5) assms(3)]
  note own = step(1)
  have ids: "j < length ps \<and> ps[k := p'] ! j \<noteq> Queued \<and> ps[k := p'] ! j \<noteq> Checked"
    if "dv_new_id (D j) \<in> set (row_ids s')" for j
  proof (cases "j = k")
    case True
    have "p' \<noteq> Checked"
    proof
      assume "p' = Checked"
      with own have q: "ps ! k = Queued" using own_rows_checked by blast
      with step(4) that True have "dv_new_id (D k) \<in> set (row_ids s)" by auto
      with o(2) q show False by blast
    qed
    with own_rows_leaves [OF own] True Advance(3) show ?thesis by simp
  next
    case False
    then have "dv_new_id (D j) \<noteq> dv_new_id (D k)" using assms(4) by (meson injD)
    with step(4) that have "dv_new_id (D j) \<in> set (row_ids s)" by (auto split: if_splits)
    with o(2) False show ?thesis by simp
  qed
  have le1: "length (rows_of rid wt s') \<le> 1" for wt
    using own_rows_length [OF own o(3)] step(2) o(3) by (cases "wt = type_of D k") auto
  have ne: "rows_of rid (type_of D j) s' \<noteq> []" if "j < length ps" "working (ps[k := p'] ! j)" for j
  proof (cases "j = k")
    case True
    with that have "working p'" by simp
    with True own_rows_start [OF own] own_rows_nonempty [OF own o(4) [OF Advance(3)]] show ?thesis by blast
  next
    case False
    with that o(4) have "rows_of rid (type_of D j) s \<noteq> []" by simp
    with own_rows_nonempty [OF own] step(2) show ?thesis by (cases "type_of D j = type_of D k") auto
  qed
  have "json_truthy out" if "j < length ps" "ps[k := p'] ! j = Executed out" for j out
    using that o(5) own_rows_executed own by (cases "j = k") auto
  with ids le1 ne step(3) show ?thesis unfolding Advance(2) orderly_def by simp
qed

text \<open>
  When deliveries of a type never overlap: a completed one fixed the row of its type, and every
  delivery of that type that is not finished has only just arrived.
\<close>

definition exclusive :: "uuid \<Rightarrow> (nat \<Rightarrow> delivery) \<Rightarrow> deliveries \<Rightarrow> bool" where
  "exclusive rid D c \<longleftrightarrow> (case c of (s, ps) \<Rightarrow>
     (\<forall>j < length ps. \<forall>k < length ps. type_of D j = type_of D k \<longrightarrow> \<not> ended (ps ! j) \<longrightarrow> \<not> ended (ps ! k) \<longrightarrow> j = k)
     \<and> (\<forall>k < length ps. \<forall>out. ps ! k = Completed out \<longrightarrow> json_truthy out
          \<and> (\<exists>w. rows_of rid (type_of D k) s = [w] \<and> done_row w out)
          \<and> (\<forall>j < length ps. type_of D j = type_of D k \<longrightarrow> ended (ps ! j) \<or> ps ! j = Queued))
     \<and> (\<forall>j < length ps. \<forall>k < length ps. type_of D j = type_of D k \<longrightarrow> is_completed (ps ! j) \<longrightarrow>
          is_completed (ps ! k) \<longrightarrow> j = k)
     \<and> (\<forall>wt w out. rows_of rid wt s = [w] \<longrightarrow> done_row w out \<longrightarrow>
          (\<exists>k < length ps. ps ! k = Completed out \<and> type_of D k = wt))
     \<and> (\<forall>k < length ps. \<forall>out. ps ! k = Skipped out \<longrightarrow>
          (\<exists>j < length ps. ps ! j = Completed out \<and> type_of D j = type_of D k)))"

lemma exclusiveD:
  assumes "exclusive rid D (s, ps)"
  shows "j < length ps \<Longrightarrow> k < length ps \<Longrightarrow> type_of D j = type_of D k \<Longrightarrow> \<not> ended (ps ! j) \<Longrightarrow>
      \<not> ended (ps ! k) \<Longrightarrow> j = k"
    and "k < length ps \<Longrightarrow> ps ! k = Completed out \<Longrightarrow> json_truthy out"
    and "k < length ps \<Longrightarrow> ps ! k = Completed out \<Longrightarrow> \<exists>w. rows_of rid (type_of D k) s = [w] \<and> done_row w out"
    and "k < length ps \<Longrightarrow> ps ! k = Completed out \<Longrightarrow> j < length ps \<Longrightarrow> type_of D j = type_of D k \<Longrightarrow>
      ended (ps ! j) \<or> ps ! j = Queued"
    and "j < length ps \<Longrightarrow> k < length ps \<Longrightarrow> type_of D j = type_of D k \<Longrightarrow> is_completed (ps ! j) \<Longrightarrow>
      is_completed (ps ! k) \<Longrightarrow> j = k"
    and "rows_of rid wt s = [w] \<Longrightarrow> done_row w out \<Longrightarrow> \<exists>k < length ps. ps ! k = Completed out \<and> type_of D k = wt"
    and "k < length ps \<Longrightarrow> ps ! k = Skipped out \<Longrightarrow>
      \<exists>j < length ps. ps ! j = Completed out \<and> type_of D j = type_of D k"
  using assms unfolding exclusive_def by blast+

lemma exclusive_deliver:
  assumes "exclusive rid D (s, ps)" "type_idle D (type_of D (length ps)) ps"
  shows "exclusive rid D (s, ps @ [Queued])"
proof -
  note x = exclusiveD [OF assms(1)]
  from assms(2) have idle: "j < length ps \<Longrightarrow> type_of D j = type_of D (length ps) \<Longrightarrow> ended (ps ! j)" for j
    by (simp add: type_idle_iff)
  have old: "(ps @ [Queued]) ! j = ps ! j" if "j < length ps" for j using that by (simp add: nth_append)
  have new: "j < length ps" if "j < length (ps @ [Queued])" "(ps @ [Queued]) ! j \<noteq> Queued" for j
    using that by (auto simp: nth_append less_Suc_eq split: if_splits)
  show ?thesis
    unfolding exclusive_def prod.case
  proof (intro conjI allI impI)
    fix j k assume "j < length (ps @ [Queued])" "k < length (ps @ [Queued])" "type_of D j = type_of D k"
      "\<not> ended ((ps @ [Queued]) ! j)" "\<not> ended ((ps @ [Queued]) ! k)"
    then show "j = k"
      using x(1) idle [of j] idle [of k] by (auto simp: nth_append less_Suc_eq split: if_splits)
  next
    fix k out assume "k < length (ps @ [Queued])" "(ps @ [Queued]) ! k = Completed out"
    then have k: "k < length ps" "ps ! k = Completed out" using new [of k] old by auto
    then show "json_truthy out" "\<exists>w. rows_of rid (type_of D k) s = [w] \<and> done_row w out" using x(2,3) by blast+
    fix j assume "j < length (ps @ [Queued])" "type_of D j = type_of D k"
    then show "ended ((ps @ [Queued]) ! j) \<or> (ps @ [Queued]) ! j = Queued"
      using x(4) [OF k, of j] by (auto simp: nth_append less_Suc_eq)
  next
    fix j k assume "j < length (ps @ [Queued])" "k < length (ps @ [Queued])" "type_of D j = type_of D k"
      "is_completed ((ps @ [Queued]) ! j)" "is_completed ((ps @ [Queued]) ! k)"
    then show "j = k" using x(5) by (auto simp: nth_append less_Suc_eq split: if_splits)
  next
    fix wt w out assume "rows_of rid wt s = [w]" "done_row w out"
    from x(6) [OF this] obtain k where "k < length ps" "ps ! k = Completed out" "type_of D k = wt" by blast
    then show "\<exists>k < length (ps @ [Queued]). (ps @ [Queued]) ! k = Completed out \<and> type_of D k = wt"
      by (intro exI [of _ k]) (simp add: old)
  next
    fix k out assume "k < length (ps @ [Queued])" "(ps @ [Queued]) ! k = Skipped out"
    then have k: "k < length ps" "ps ! k = Skipped out" using new [of k] old by auto
    from x(7) [OF this] obtain j where "j < length ps" "ps ! j = Completed out" "type_of D j = type_of D k" by blast
    then show "\<exists>j < length (ps @ [Queued]). (ps @ [Queued]) ! j = Completed out \<and> type_of D j = type_of D k"
      by (intro exI [of _ j]) (simp add: old)
  qed
qed

lemma exclusive_lose:
  assumes "exclusive rid D (s, ps)" "k < length ps" "\<not> ended (ps ! k)"
  shows "exclusive rid D (s, ps[k := Lost])"
proof -
  note x = exclusiveD [OF assms(1)]
  have nth: "ps[k := Lost] ! j = (if j = k then Lost else ps ! j)" if "j < length ps" for j
    using that by (simp add: nth_list_update)
  have kept: "\<exists>j < length ps. ps[k := Lost] ! j = Completed out \<and> type_of D j = wt"
    if "\<exists>j < length ps. ps ! j = Completed out \<and> type_of D j = wt" for out wt
    using that assms(3) nth by (metis ended.simps(1))
  show ?thesis
    unfolding exclusive_def prod.case length_list_update
  proof (intro conjI allI impI)
    fix i j assume "i < length ps" "j < length ps" "type_of D i = type_of D j"
      "\<not> ended (ps[k := Lost] ! i)" "\<not> ended (ps[k := Lost] ! j)"
    then show "i = j" using x(1) nth by (auto split: if_splits)
  next
    fix j out assume j: "j < length ps" "ps[k := Lost] ! j = Completed out"
    then have c: "ps ! j = Completed out" using nth by (auto split: if_splits)
    with x(2,3) j(1) show "json_truthy out" "\<exists>w. rows_of rid (type_of D j) s = [w] \<and> done_row w out" by blast+
    fix i assume "i < length ps" "type_of D i = type_of D j"
    with x(4) [OF j(1) c] nth show "ended (ps[k := Lost] ! i) \<or> ps[k := Lost] ! i = Queued" by auto
  next
    fix i j assume "i < length ps" "j < length ps" "type_of D i = type_of D j"
      "is_completed (ps[k := Lost] ! i)" "is_completed (ps[k := Lost] ! j)"
    then show "i = j" using x(5) nth by (auto split: if_splits)
  next
    fix wt w out assume "rows_of rid wt s = [w]" "done_row w out"
    from x(6) [OF this] show "\<exists>j < length ps. ps[k := Lost] ! j = Completed out \<and> type_of D j = wt" by (rule kept)
  next
    fix j out assume "j < length ps" "ps[k := Lost] ! j = Skipped out"
    then have "ps ! j = Skipped out" using nth by (auto split: if_splits)
    from x(7) [OF \<open>j < length ps\<close> this]
    show "\<exists>i < length ps. ps[k := Lost] ! i = Completed out \<and> type_of D i = type_of D j" by (rule kept)
  qed
qed

lemma own_rows_completed: "own_rows p (Completed out) rs rs' \<Longrightarrow> p = Executed out \<and> (\<exists>w. rs' = [w] \<and> done_row w out)"
  by (cases p) auto

lemma own_rows_skipped: "own_rows p (Skipped out) rs rs' \<Longrightarrow> \<exists>w. rs = [w] \<and> done_row w out"
  by (cases p) auto

text \<open>A completed row after the step was there before it, or the step completed it.\<close>

lemma own_rows_done:
  "own_rows p p' rs rs' \<Longrightarrow> rs' = [w] \<Longrightarrow> done_row w out \<Longrightarrow> rs = [w] \<or> p' = Completed out"
  by (cases p) (auto simp: done_row_def Cons_eq_map_conv map_eq_Cons_conv split: phase.splits)

text \<open>A delivery that finds a completed row skips and changes nothing.\<close>

lemma own_rows_queued:
  "own_rows Queued p' rs rs' \<Longrightarrow> rs = [w] \<Longrightarrow> done_row w out \<Longrightarrow> json_truthy out \<Longrightarrow> p' = Skipped out \<and> rs' = rs"
  by simp

lemma exclusive_advance:
  assumes "exclusive rid D (s, ps)" "orderly rid D (s, ps)" "k < length ps" "\<not> ended (ps ! k)"
    and own: "own_rows (ps ! k) p' (rows_of rid (type_of D k) s) (rows_of rid (type_of D k) s')"
    and others: "\<And>wt. wt \<noteq> type_of D k \<Longrightarrow> rows_of rid wt s' = rows_of rid wt s"
  shows "exclusive rid D (s', ps[k := p'])"
proof -
  note x = exclusiveD [OF assms(1)]
  have nth: "ps[k := p'] ! j = (if j = k then p' else ps ! j)" if "j < length ps" for j
    using that by (simp add: nth_list_update)
  have kept: "\<exists>j < length ps. ps[k := p'] ! j = Completed out \<and> type_of D j = wt"
    if "\<exists>j < length ps. ps ! j = Completed out \<and> type_of D j = wt" for out wt
    using that assms(4) nth by (metis ended.simps(1))
  have skips: "p' = Skipped out \<and> rows_of rid (type_of D k) s' = rows_of rid (type_of D k) s"
    if "j < length ps" "ps ! j = Completed out" "type_of D j = type_of D k" for j out
  proof -
    from x(4) [OF that(1,2) assms(3)] that(3) assms(4) have q: "ps ! k = Queued" by auto
    from x(3) [OF that(1,2)] that(3) obtain w where "rows_of rid (type_of D k) s = [w]" "done_row w out" by auto
    from own_rows_queued [OF own [unfolded q] this x(2) [OF that(1,2)]] show ?thesis .
  qed
  show ?thesis
    unfolding exclusive_def prod.case length_list_update
  proof (intro conjI allI impI)
    fix i j assume "i < length ps" "j < length ps" "type_of D i = type_of D j"
      "\<not> ended (ps[k := p'] ! i)" "\<not> ended (ps[k := p'] ! j)"
    then show "i = j" using x(1) assms(4) nth by (metis (full_types))
  next
    fix j out assume j: "j < length ps" "ps[k := p'] ! j = Completed out"
    have "json_truthy out \<and> (\<exists>w. rows_of rid (type_of D j) s' = [w] \<and> done_row w out)
      \<and> (\<forall>i < length ps. type_of D i = type_of D j \<longrightarrow> ended (ps[k := p'] ! i) \<or> ps[k := p'] ! i = Queued)"
    proof (cases "j = k")
      case True
      with j have p': "p' = Completed out" by simp
      note c = own_rows_completed [OF own [unfolded p']]
      have "ended (ps[k := p'] ! i)" if "i < length ps" "type_of D i = type_of D k" for i
        using that x(1) [OF that(1) assms(3) that(2) _ assms(4)] p' nth by auto
      with True c orderlyD(5) [OF assms(2,3)] show ?thesis by blast
    next
      case False
      with j nth have c: "ps ! j = Completed out" by simp
      have "\<exists>w. rows_of rid (type_of D j) s' = [w] \<and> done_row w out"
        using x(3) [OF j(1) c] others skips [OF j(1) c] by (cases "type_of D j = type_of D k") auto
      moreover have "ended (ps[k := p'] ! i) \<or> ps[k := p'] ! i = Queued"
        if "i < length ps" "type_of D i = type_of D j" for i
        using x(4) [OF j(1) c that] skips [OF j(1) c] that nth by auto
      ultimately show ?thesis using x(2) [OF j(1) c] by blast
    qed
    then show "json_truthy out" "\<exists>w. rows_of rid (type_of D j) s' = [w] \<and> done_row w out"
      "\<And>i. i < length ps \<Longrightarrow> type_of D i = type_of D j \<Longrightarrow> ended (ps[k := p'] ! i) \<or> ps[k := p'] ! i = Queued"
      by blast+
  next
    fix i j assume ij: "i < length ps" "j < length ps" "type_of D i = type_of D j"
      "is_completed (ps[k := p'] ! i)" "is_completed (ps[k := p'] ! j)"
    have no: False if "l < length ps" "l \<noteq> k" "type_of D l = type_of D k" "is_completed (ps ! l)" "is_completed p'" for l
    proof -
      from that(4) obtain out where "ps ! l = Completed out" by (cases "ps ! l") auto
      from skips [OF that(1) this that(3)] that(5) show False by auto
    qed
    show "i = j"
      using ij x(5) [OF ij(1-3)] no [OF ij(1)] no [OF ij(2)] nth by (auto split: if_splits)
  next
    fix wt w out assume r: "rows_of rid wt s' = [w]" "done_row w out"
    show "\<exists>j < length ps. ps[k := p'] ! j = Completed out \<and> type_of D j = wt"
    proof (cases "wt = type_of D k \<and> p' = Completed out")
      case True
      with assms(3) show ?thesis by (intro exI [of _ k]) simp
    next
      case False
      then have "rows_of rid wt s = [w]"
        using r others own_rows_done [OF own _ r(2)] by (cases "wt = type_of D k") auto
      from x(6) [OF this r(2)] show ?thesis by (rule kept)
    qed
  next
    fix j out assume j: "j < length ps" "ps[k := p'] ! j = Skipped out"
    have "\<exists>i < length ps. ps ! i = Completed out \<and> type_of D i = type_of D j"
    proof (cases "j = k")
      case True
      with j own_rows_skipped [of "ps ! k" out] own obtain w where
        "rows_of rid (type_of D j) s = [w]" "done_row w out" by auto
      then show ?thesis by (rule x(6))
    next
      case False
      with j nth show ?thesis by (intro x(7)) simp_all
    qed
    then show "\<exists>i < length ps. ps[k := p'] ! i = Completed out \<and> type_of D i = type_of D j" by (rule kept)
  qed
qed

lemma delivered_orderly:
  assumes "delivered str_exn rid D serial s0 c" "orderly rid D (s0, [])"
    and "\<And>k. steady (dv_execute (D k))" "inj (\<lambda>k. dv_new_id (D k))"
  shows "orderly rid D c"
  using assms(1)
proof induction
  case start
  show ?case by (rule assms(2))
next
  case (step c c')
  from orderly_step [OF step(2,3) assms(3,4)] show ?case .
qed

lemma delivered_exclusive:
  assumes "delivered str_exn rid D True s0 c" "orderly rid D (s0, [])" "exclusive rid D (s0, [])"
    and "\<And>k. steady (dv_execute (D k))" "inj (\<lambda>k. dv_new_id (D k))"
  shows "exclusive rid D c"
  using assms(1)
proof induction
  case start
  show ?case by (rule assms(3))
next
  case (step c c')
  from step(2) show ?case
  proof (cases rule: delivery_step.cases)
    case (Deliver ps s)
    with step(3) show ?thesis by (auto intro: exclusive_deliver)
  next
    case (Lose k ps s)
    with step(3) show ?thesis by (auto intro: exclusive_lose)
  next
    case (Advance k ps s p' s')
    have "orderly rid D (s, ps)" using delivered_orderly [OF step(1) assms(2,4,5)] Advance(1) by simp
    note a = orderly_advance [OF this Advance(3-5) assms(4)]
    from exclusive_advance [OF step(3) [unfolded Advance(1)] \<open>orderly rid D (s, ps)\<close> Advance(3,4) a(1,2)] Advance(2)
    show ?thesis by simp
  qed
qed

text \<open>A run that no task has touched.\<close>

definition untouched :: "uuid \<Rightarrow> (nat \<Rightarrow> delivery) \<Rightarrow> tstate \<Rightarrow> bool" where
  "untouched rid D s \<longleftrightarrow> distinct (row_ids s)
     \<and> list_all (\<lambda>w. \<not> (wr_run_id w = rid \<and> active w)) (worker_results (tdb s))
     \<and> (\<forall>k. dv_new_id (D k) \<notin> set (row_ids s))"

lemma untouched_rows: "untouched rid D s \<Longrightarrow> rows_of rid wt s = []"
  by (auto simp: untouched_def list_all_iff filter_empty_conv wr_match_def)

lemma untouched_start:
  assumes "untouched rid D s"
  shows "orderly rid D (s, [])" "exclusive rid D (s, [])"
  using untouched_rows [OF assms] assms by (auto simp: orderly_def exclusive_def untouched_def)

definition completed_types :: "(nat \<Rightarrow> delivery) \<Rightarrow> phase list \<Rightarrow> string set" where
  "completed_types D ps = (\<lambda>k. type_of D k) ` {k. k < length ps \<and> is_completed (ps ! k)}"

lemma exclusive_count:
  assumes "exclusive rid D (s, ps)"
  shows "count_phases is_completed ps = card (completed_types D ps)"
proof -
  have "inj_on (\<lambda>k. type_of D k) {k. k < length ps \<and> is_completed (ps ! k)}"
    using exclusiveD(5) [OF assms] by (auto simp: inj_on_def)
  then show ?thesis
    by (simp add: count_phases_def length_filter_conv_card completed_types_def card_image)
qed

lemma exclusive_same_output:
  assumes "exclusive rid D (s, ps)" "j < length ps" "k < length ps" "type_of D j = type_of D k"
    and "returned (ps ! j) = Some a" "returned (ps ! k) = Some b"
  shows "a = b"
proof -
  note x = exclusiveD [OF assms(1)]
  have src: "\<exists>i < length ps. ps ! i = Completed out \<and> type_of D i = type_of D k"
    if "l < length ps" "type_of D l = type_of D k" "returned (ps ! l) = Some out" for l out
    using that x(7) [OF that(1), of out] by (cases "ps ! l") auto
  from src [OF assms(2,4,5)] src [OF assms(3) refl assms(6)] obtain i i' where
    i: "i < length ps" "ps ! i = Completed a" "type_of D i = type_of D k"
    "i' < length ps" "ps ! i' = Completed b" "type_of D i' = type_of D k" by blast
  with x(5) [of i i'] show ?thesis by auto
qed

lemma serial_deliveries_ok:
  assumes "\<And>k. steady (dv_execute (D k))" "inj (\<lambda>k. dv_new_id (D k))" "untouched rid D s0"
    and "delivered str_exn rid D True s0 (s, ps)"
  shows "run_counts s = add_counts rid (int (card (completed_types D ps))) (int (count_phases is_failed ps)) (run_counts s0)"
    and "length (rows_of rid wt s) \<le> 1"
    and "j < length ps \<Longrightarrow> k < length ps \<Longrightarrow> type_of D j = type_of D k \<Longrightarrow>
      returned (ps ! j) = Some a \<Longrightarrow> returned (ps ! k) = Some b \<Longrightarrow> a = b"
proof -
  note start = untouched_start [OF assms(3)]
  note x = delivered_exclusive [OF assms(4) start assms(1,2)]
  from delivered_counted [OF assms(4,1)] exclusive_count [OF x]
  show "run_counts s = add_counts rid (int (card (completed_types D ps))) (int (count_phases is_failed ps)) (run_counts s0)"
    by (simp add: counted_def)
  from orderlyD(3) [OF delivered_orderly [OF assms(4) start(1) assms(1,2)]]
  show "length (rows_of rid wt s) \<le> 1" .
  show "j < length ps \<Longrightarrow> k < length ps \<Longrightarrow> type_of D j = type_of D k \<Longrightarrow>
      returned (ps ! j) = Some a \<Longrightarrow> returned (ps ! k) = Some b \<Longrightarrow> a = b"
    by (rule exclusive_same_output [OF x])
qed

subsection \<open>The four analyses\<close>

record analysis_call =
  ac_world :: world
  ac_kind :: analysis_kind
  ac_task :: task
  ac_new_id :: uuid
  ac_context :: json

definition analysis_delivery :: "uuid \<Rightarrow> analysis_call \<Rightarrow> delivery" where
  "analysis_delivery rid c =
     (let t = (ac_task c)\<lparr>wtype := kind_type (ac_kind c)\<rparr>
      in \<lparr>dv_task = t, dv_new_id = ac_new_id c, dv_kwargs = ac_context c,
          dv_execute = run_analysis (ac_world c) (ac_kind c) t rid (ac_context c)\<rparr>)"

lemma analysis_delivery_runs_task:
  "analysis_task (ac_world c) (ac_kind c) (ac_task c) (ac_new_id c) rid (ac_context c) s =
     (phase_result (fst (run_alone (w_str_exn (ac_world c)) rid (analysis_delivery rid c) Queued s)),
      snd (run_alone (w_str_exn (ac_world c)) rid (analysis_delivery rid c) Queued s))"
  using phases_are_base_run [of "w_str_exn (ac_world c)" "analysis_delivery rid c" rid s]
  by (simp add: analysis_task_def analysis_delivery_def Let_def)

text \<open>The cache holds non-empty results of the GitHub analysis under its keys.\<close>

definition cache_filled :: "cache_manager \<Rightarrow> bool" where
  "cache_filled m \<longleftrightarrow> (\<forall>k v ex. entries m k = Some (v, ex) \<longrightarrow> starts_with ''github:'' k \<longrightarrow>
     json_truthy (cached_value v))"

lemma cache_filled_get:
  "cache_filled m \<Longrightarrow> starts_with ''github:'' k \<Longrightarrow> mgr_get t k m = Some c \<Longrightarrow> json_truthy (cached_value c)"
  unfolding cache_filled_def
  by (auto simp: mgr_get_def redis_get_def redis.truncate_def
      split: if_splits sum.splits option.splits) blast

lemma outputs_truthy [simp]:
  "json_truthy (failed_output st why kvs)" "json_truthy (plain_failure st why)"
  "json_truthy (deck_output n)" "json_truthy (video_output len tot got)" "json_truthy (web_output http url html)"
  by (simp_all add: failed_output_def plain_failure_def deck_output_def video_output_def web_output_def Let_def)

lemma github_output_truthy:
  "github_output parse_time str_json env own rep d commits contributors languages = Inr out \<Longrightarrow> json_truthy out"
  by (auto simp: github_output_def Let_def split: sum.splits option.splits)

lemma fetch_truthy:
  "fetch_and_score get parse_time str_json t rid own rep key commits st = (Inr out, st') \<Longrightarrow> json_truthy out"
  by (auto simp: fetch_and_score_def Let_def split: sum.splits if_splits dest: github_output_truthy)

lemma github_truthy:
  assumes "cache_filled (snd st)" "analyze_github http parse_time sha256 str_json t rid ctx st = (Inr out, st')"
  shows "json_truthy out"
  using assms(2)
  by (auto simp: analyze_github_def Let_def cache_filled_get [OF assms(1) github_key_prefix]
      dest: fetch_truthy split: json.splits sum.splits if_splits option.splits prod.splits)

lemma analysis_truthy:
  assumes "cache_filled (w_cache w)" "run_analysis w k t rid ctx s = (Inr out, s')"
  shows "json_truthy out"
proof (cases k)
  case Github
  with assms(2) have "\<exists>st'. analyze_github (w_github w) (w_parse_time w) (w_sha256 w) (w_str_json w) t rid ctx
      (s, w_cache w) = (Inr out, st')" by (auto split: prod.splits)
  with github_truthy assms(1) show ?thesis by fastforce
next
  case Pitch_deck
  with assms(2) show ?thesis by (auto simp: analyze_pitch_deck_def Let_def split: sum.splits if_splits json.splits)
next
  case Video
  with assms(2) show ?thesis
    by (auto simp: analyze_video_def Let_def split: sum.splits if_splits json.splits prod.splits)
next
  case Web_verification
  with assms(2) show ?thesis by (auto simp: verify_web_def Let_def split: sum.splits if_splits)
qed

lemma analysis_steady:
  assumes "good_world (ac_world c)" "cache_filled (w_cache (ac_world c))"
  shows "steady (dv_execute (analysis_delivery rid c))"
proof -
  have contract: "analysis (run_analysis (ac_world c) k)" for k
    using assms(1) run_analysis_contract by (simp add: good_world_def)
  have "tdb s' = tdb s" if "run_analysis (ac_world c) k t rid ctx s = (r, s')" for k t ctx s r s'
    using analysis.keeps_db [OF contract, of k t rid ctx s] that by simp
  with analysis_truthy [OF assms(2)] show ?thesis
    unfolding steady_def analysis_delivery_def run_counts_def by (simp add: Let_def) blast
qed

subsection \<open>Properties\<close>


text \<open>
  Without that restriction the same task counts twice: if a second delivery arrives before the
  first has completed, both pass the idempotency check, both execute, and both increase
  \<open>completed_workers\<close>, although there is one row.
\<close>

lemma create_session_ok:
  assumes "filter (\<lambda>r. ident r = rid) (runs (tdb s)) = [r]" "length (rows_of rid (wtype t) s) \<le> 1"
  shows "\<exists>s'. db_session (create_worker_result t i rid tid h) s = (Inr (), s') \<and> runs (tdb s') = runs (tdb s)
    \<and> length (rows_of rid (wtype t) s') = 1"
proof -
  obtain db' w where "create_worker_result t i rid tid h (tdb s) = (Inr (), db')" "runs db' = runs (tdb s)"
    "filter (wr_match rid (wtype t)) (worker_results db') = [w]"
    by (rule create_worker_result_ok [OF assms])
  then show ?thesis by (simp add: db_session_ok)
qed

theorem overlapping_deliveries_count_twice:
  assumes "\<And>k. steady (dv_execute (D k))" and "type_of D 0 = type_of D 1"
    and "\<And>k s. \<exists>out. fst (dv_execute (D k) s) = Inr out"
    and "untouched rid D s0" and "filter (\<lambda>r. ident r = rid) (runs (tdb s0)) = [r]"
  shows "\<exists>s a b. delivered str_exn rid D False s0 (s, [Completed a, Completed b])
    \<and> run_counts s = add_counts rid 2 0 (run_counts s0)"
proof -
  let ?t = "\<lambda>k. dv_task (D k)"
  have none: "fst (check_idempotent (?t k) rid (tdb s0)) = Inr None" for k
    using untouched_rows [OF assms(4), of "wtype (?t k)"]
    by (simp add: check_idempotent_def select_where_def filter_filter [symmetric] del: filter_filter)
  obtain s1 where s1: "db_session (create_worker_result (?t 0) (dv_new_id (D 0)) rid (request_task_id (?t 0))
      (task_host (?t 0))) s0 = (Inr (), s1)" "runs (tdb s1) = runs (tdb s0)" "length (rows_of rid (type_of D 0) s1) = 1"
    using create_session_ok [OF assms(5)] untouched_rows [OF assms(4)] by (metis le_numeral_extra(1) list.size(3))
  let ?s1 = "update_progress (?t 0) rid 0 [] s1"
  have "filter (\<lambda>r. ident r = rid) (runs (tdb ?s1)) = [r]" "length (rows_of rid (wtype (?t 1)) ?s1) \<le> 1"
    using s1 assms(2,5) by simp_all
  from create_session_ok [OF this] obtain s2 where s2: "db_session (create_worker_result (?t 1) (dv_new_id (D 1)) rid
      (request_task_id (?t 1)) (task_host (?t 1))) ?s1 = (Inr (), s2)" by blast
  let ?s2 = "update_progress (?t 1) rid 0 [] s2"
  obtain a s3 where s3: "dv_execute (D 0) ?s2 = (Inr a, s3)" using assms(3) [of 0 ?s2] by (metis prod.collapse)
  obtain b s4 where s4: "dv_execute (D 1) s3 = (Inr b, s4)" using assms(3) [of 1 s3] by (metis prod.collapse)
  have "schedule str_exn rid D False [Arrive, Arrive, Move 0, Move 1, Move 0, Move 1, Move 0, Move 1, Move 0, Move 1] (s0, []) =
      Some (snd (advance str_exn rid (D 1) (Executed b) (snd (advance str_exn rid (D 0) (Executed a) s4))),
        [Completed a, Completed b])"
    using none s1(1) s2 s3 s4 by (simp add: check_session mark_completed_session)
  from schedule_delivered [OF delivered.start this] obtain s where
    d: "delivered str_exn rid D False s0 (s, [Completed a, Completed b])" by blast
  with delivered_counted [OF d assms(1)] show ?thesis by (auto simp: counted_def count_phases_def)
qed

subsection \<open>Recovery\<close>

text \<open>The schedule that lets the last delivery run alone.\<close>

lemma alone_delivered:
  "delivered str_exn rid D serial s0 (s, ps @ [p]) \<Longrightarrow>
   delivered str_exn rid D serial s0
     (snd (run_alone str_exn rid (D (length ps)) p s), ps @ [fst (run_alone str_exn rid (D (length ps)) p s)])"
proof (induction "phases_left p" arbitrary: p s rule: less_induct)
  case less
  show ?case
  proof (cases "ended p")
    case True
    with less.prems show ?thesis by simp
  next
    case False
    obtain p' s' where a: "advance str_exn rid (D (length ps)) p s = (p', s')" by fastforce
    have "delivery_step str_exn rid D serial (s, ps @ [p]) (s', (ps @ [p])[length ps := p'])"
      using a False by (intro delivery_step.Advance) simp_all
    then have "delivered str_exn rid D serial s0 (s', ps @ [p'])"
      using delivered.step [OF less.prems] by simp
    from less.hyps [OF advance_decreases [OF False a] this] run_alone_step [OF False a] show ?thesis by simp
  qed
qed

lemma run_alone_returns:
  assumes "filter (\<lambda>r. ident r = rid) (runs (tdb s)) = [r]" "length (rows_of rid (wtype (dv_task d)) s) \<le> 1"
    and "\<And>s. \<exists>out. fst (dv_execute d s) = Inr out"
  shows "\<exists>out. returned (fst (run_alone str_exn rid d Queued s)) = Some out"
proof -
  let ?t = "dv_task d"
  obtain c where c: "db_session (check_idempotent ?t rid) s = (Inr c, s)"
  proof -
    have "filter (\<lambda>w. wr_match rid (wtype ?t) w \<and> wr_status w = W_COMPLETED) (worker_results (tdb s)) =
        filter (\<lambda>w. wr_status w = W_COMPLETED) (rows_of rid (wtype ?t) s)" by simp
    moreover have "length \<dots> \<le> 1" using assms(2) le_trans [OF length_filter_le] by blast
    ultimately have "\<exists>c. fst (check_idempotent ?t rid (tdb s)) = Inr c"
      using scalar_one_or_none_cases
      by (cases "select_where (\<lambda>w. wr_match rid (wtype ?t) w \<and> wr_status w = W_COMPLETED) (worker_results (tdb s))"
          rule: scalar_one_or_none.cases) (auto simp: check_idempotent_def select_where_def)
    then show ?thesis using that by (auto simp: check_session)
  qed
  show ?thesis
  proof (cases c)
    case (Some out)
    with c show ?thesis by (simp add: run_alone_queued)
  next
    case None
    from create_session_ok [OF assms(1,2)] obtain s1 where
      s1: "db_session (create_worker_result ?t (dv_new_id d) rid (request_task_id ?t) (task_host ?t)) s = (Inr (), s1)"
      by blast
    obtain out s2 where "dv_execute d (update_progress ?t rid 0 [] s1) = (Inr out, s2)"
      using assms(3) by (metis prod.collapse)
    with None c s1 show ?thesis by (simp add: run_alone_phases)
  qed
qed

lemma delivered_run_unique:
  assumes "delivered str_exn rid D serial s0 (s, ps)" "\<And>k. steady (dv_execute (D k))"
    and "length (filter (\<lambda>r. ident r = rid) (runs (tdb s0))) = 1"
  shows "\<exists>r. filter (\<lambda>r. ident r = rid) (runs (tdb s)) = [r]"
proof -
  have count: "length (filter (\<lambda>r. ident r = rid) (runs (tdb t))) =
      length (filter (\<lambda>i. i = rid) (map fst (run_counts t)))" for t
    by (simp add: run_counts_def filter_map comp_def)
  have "map fst (add_counts rid c f xs) = map fst xs" for c f xs
    by (induction xs) (auto simp: add_counts_def)
  with delivered_counted [OF assms(1,2)] have "map fst (run_counts s) = map fst (run_counts s0)"
    by (simp add: counted_def)
  with count [of s] count [of s0] assms(3) have "length (filter (\<lambda>r. ident r = rid) (runs (tdb s))) = 1" by simp
  then show ?thesis by (auto simp: length_Suc_conv)
qed


subsection \<open>Witnesses\<close>

definition deck_call :: "nat \<Rightarrow> analysis_call" where
  "deck_call k = \<lparr>ac_world = sample_world, ac_kind = Pitch_deck, ac_task = sample_task, ac_new_id = 8 + k,
     ac_context = JObj [(''pitch_deck_url'', JStr ''deck'')]\<rparr>"

lemma sample_cache_filled: "cache_filled (w_cache sample_world)"
  by (simp add: cache_filled_def sample_world_def new_manager_def redis.extend_def)

lemma deck_call_simps [simp]:
  "dv_new_id (analysis_delivery 4 (deck_call k)) = 8 + k"
  "wtype (dv_task (analysis_delivery 4 (deck_call k))) = ''pitch_deck''"
  by (simp_all add: analysis_delivery_def deck_call_def Let_def)

lemma sample_untouched: "untouched 4 (\<lambda>k. analysis_delivery 4 (deck_call k)) sample_tstate"
  by (simp add: untouched_def sample_tstate_def)

lemma sample_runs: "filter (\<lambda>r. ident r = 4) (runs (tdb sample_tstate)) = [sample_run RUNNING]"
  by (simp add: sample_tstate_def sample_run_def)

lemma deck_execute: "dv_execute (analysis_delivery 4 (deck_call k)) s =
   (Inr (deck_output 100000), snd (dv_execute (analysis_delivery 4 (deck_call k)) s))"
  by (simp add: analysis_delivery_def deck_call_def Let_def sample_world_def analyze_pitch_deck_def
      dict_get_default_def pitch_deck_key_def starts_with_def)

lemma deck_steady: "steady (dv_execute (analysis_delivery 4 (deck_call k)))"
  by (rule analysis_steady) (simp_all add: deck_call_def sample_good_world sample_cache_filled)

theorem overlapping_deliveries_count_twice_witness:
  "\<exists>s a b. delivered (\<lambda>_. []) 4 (\<lambda>k. analysis_delivery 4 (deck_call k)) False sample_tstate (s, [Completed a, Completed b])
    \<and> run_counts s = [(4, 2, 0)]"
proof -
  have c: "add_counts 4 2 0 (run_counts sample_tstate) = [(4, 2, 0)]"
    by (simp add: add_counts_def run_counts_def sample_tstate_def sample_run_def)
  have "\<exists>out. fst (dv_execute (analysis_delivery 4 (deck_call k)) s) = Inr out" for k s
    using deck_execute [of k s] by (metis fst_conv)
  from overlapping_deliveries_count_twice [OF deck_steady _ this sample_untouched sample_runs] c
  show ?thesis by simp
qed

text \<open>A delivery that loses its worker with its row created, a second one that completes, a third
  one that is skipped.\<close>

lemma deck_schedule:
  "\<exists>s. schedule (\<lambda>_. []) 4 (\<lambda>k. analysis_delivery 4 (deck_call k)) True
     [Arrive, Move 0, Move 0, Crash 0, Arrive, Move 1, Move 1, Move 1, Move 1, Arrive, Move 2] (sample_tstate, []) =
     Some (s, [Lost, Completed (deck_output 100000), Skipped (deck_output 100000)])"
proof -
  let ?t = "sample_task\<lparr>wtype := ''pitch_deck''\<rparr>"
  have t: "dv_task (analysis_delivery 4 (deck_call k)) = ?t" for k
    by (simp add: analysis_delivery_def deck_call_def Let_def)
  let ?f = "\<lambda>k s. snd (dv_execute (analysis_delivery 4 (deck_call k)) s)"
  have db: "tdb (?f k s) = tdb s" for k s
    by (simp add: analysis_delivery_def deck_call_def Let_def pitch.keeps_db)
  obtain f where eq: "f = ?f" by simp
  have f: "dv_execute (analysis_delivery 4 (deck_call k)) s = (Inr (deck_output 100000), f k s)" for k s
    unfolding eq by (rule deck_execute)
  have f': "tdb (f k s) = tdb s" for k s
    unfolding eq by (rule db)
  have idle: "type_idle (\<lambda>k. analysis_delivery 4 (deck_call k)) wt [] = True"
    "type_idle (\<lambda>k. analysis_delivery 4 (deck_call k)) wt [Lost] = True"
    "type_idle (\<lambda>k. analysis_delivery 4 (deck_call k)) wt [Lost, Completed out] = True" for wt out
    by (simp_all add: type_idle_def)
  show ?thesis
    by (simp add: t f f' idle check_session check_idempotent_def create_worker_result_def db_session_def in_session_def
        select_where_def sample_tstate_def sample_defs sample_task_def mark_completed_def Let_def bump_run_def
        update_where_def insert_row_def new_worker_result_def wr_match_def orm_flush_def numeral_2_eq_2)
qed



end
