(* ===== verification/Maintenance.thy ===== *)
theory Maintenance
  imports "HOL-Library.Multiset" Pipeline DatasetService
begin

section \<open>Maintenance and the Celery application (\<open>workers/cleanup_worker.py\<close>, \<open>workers/celery_app.py\<close>)\<close>

text \<open>
  The periodic clean-up, the routing of tasks to queues, the schedule, and the signal handlers
  that measure tasks. A \<open>from ... import\<close> fails when the module does not define one of the
  names, which is modelled by the list of names the module defines.
\<close>

subsection \<open>Clean-up\<close>

definition RETENTION_DAYS :: int where "RETENTION_DAYS = 30"
definition STALE_RUN_HOURS :: int where "STALE_RUN_HOURS = 24"

definition evaluation_module_names :: "string list" where
  "evaluation_module_names = [''EvaluationConfig'', ''RunStatus'', ''EvaluationRun'']"

definition import_names :: "string list \<Rightarrow> string list \<Rightarrow> exn + unit" where
  "import_names defined wanted = (case find (\<lambda>n. n \<notin> set defined) wanted of
     None \<Rightarrow> Inr () | Some n \<Rightarrow> Inl (ImportError n))"

definition expired :: "timestamp \<Rightarrow> 'a base_model_scheme \<Rightarrow> bool" where
  "expired cutoff x \<longleftrightarrow> (case deleted_at x of None \<Rightarrow> False | Some d \<Rightarrow> d < cutoff)"

text \<open>The loop over the expired datasets removes the files, whose failure is logged only, and
  the row. The state is the database and the object store.\<close>

fun delete_datasets :: "(uuid \<Rightarrow> uuid \<Rightarrow> (string \<rightharpoonup> string \<times> string) \<Rightarrow> exn + (string \<rightharpoonup> string \<times> string))
    \<Rightarrow> dataset list \<Rightarrow> db \<times> (string \<rightharpoonup> string \<times> string) \<Rightarrow> db \<times> (string \<rightharpoonup> string \<times> string)" where
  "delete_datasets delete_files [] st = st"
| "delete_datasets delete_files (d # ds) (db, store) =
     delete_datasets delete_files ds
       (db\<lparr>datasets := delete_where (\<lambda>x. ident x = ident d) (datasets db)\<rparr>,
        case delete_files (organization_id d) (ident d) store of Inl _ \<Rightarrow> store | Inr s \<Rightarrow> s)"

text \<open>
  \<open>_hard_delete_expired_records\<close>: the import comes first. The statement that deletes
  results has no table in the model, because no class of that name exists. Rows of a deleted
  run go with it (\<open>ON DELETE CASCADE\<close>); the counts are not modelled.
\<close>

definition cascade_runs :: "uuid set \<Rightarrow> db \<Rightarrow> db" where
  "cascade_runs ids db = db\<lparr>worker_results := delete_where (\<lambda>w. wr_run_id w \<in> ids) (worker_results db),
     claims := delete_where (\<lambda>c. claim_run_id c \<in> ids) (claims db),
     contradictions := delete_where (\<lambda>c. con_run_id c \<in> ids) (contradictions db),
     scores := delete_where (\<lambda>s. score_run_id s \<in> ids) (scores db)\<rparr>"

definition hard_delete_expired_records :: "env
    \<Rightarrow> (uuid \<Rightarrow> uuid \<Rightarrow> (string \<rightharpoonup> string \<times> string) \<Rightarrow> exn + (string \<rightharpoonup> string \<times> string))
    \<Rightarrow> db \<times> (string \<rightharpoonup> string \<times> string) \<Rightarrow> (db \<times> (string \<rightharpoonup> string \<times> string), unit) outcome" where
  "hard_delete_expired_records env delete_files st =
     (case import_names evaluation_module_names [''EvaluationConfig'', ''EvaluationResult'', ''EvaluationRun''] of
        Inl e \<Rightarrow> (Inl e, st)
      | Inr _ \<Rightarrow>
          let cutoff = now env - RETENTION_DAYS * 24 * 3600 * 1000000;
              db = fst st;
              gone = set (map ident (filter (expired cutoff) (runs db)));
              db1 = cascade_runs gone (db\<lparr>runs := delete_where (expired cutoff) (runs db)\<rparr>);
              db2 = db1\<lparr>configs := delete_where (expired cutoff) (configs db1)\<rparr>
          in (Inr (), delete_datasets delete_files (filter (expired cutoff) (datasets db2)) (db2, snd st)))"

definition is_stale :: "timestamp \<Rightarrow> evaluation_run \<Rightarrow> bool" where
  "is_stale cutoff r \<longleftrightarrow> run_status r \<in> {PENDING, RUNNING} \<and> created_at r < cutoff"

definition stale_message :: string where
  "stale_message = ''Run exceeded 24h timeout - marked as failed by cleanup worker''"

definition stale_cutoff :: "env \<Rightarrow> timestamp" where
  "stale_cutoff env = now env - STALE_RUN_HOURS * 3600 * 1000000"

definition cleanup_stale_runs :: "env \<Rightarrow> db \<Rightarrow> (db, nat) outcome" where
  "cleanup_stale_runs env db =
     (Inr (row_count (is_stale (stale_cutoff env)) (runs db)),
      db\<lparr>runs := update_where (is_stale (stale_cutoff env))
        (\<lambda>r. touch (now env) (r\<lparr>run_status := FAILED, run_error_message := Some stale_message,
                                completed_at := Some (now env)\<rparr>)) (runs db)\<rparr>)"

text \<open>\<open>self.retry(exc=e)\<close> raises \<open>Retry\<close> while attempts are left and then the error itself.\<close>

definition task_retry :: "nat \<Rightarrow> nat \<Rightarrow> exn \<Rightarrow> exn" where
  "task_retry max_retries attempt e = (if attempt < max_retries then Retry e else e)"

definition run_maintenance :: "env
    \<Rightarrow> (uuid \<Rightarrow> uuid \<Rightarrow> (string \<rightharpoonup> string \<times> string) \<Rightarrow> exn + (string \<rightharpoonup> string \<times> string))
    \<Rightarrow> nat \<Rightarrow> db \<times> (string \<rightharpoonup> string \<times> string) \<Rightarrow> (db \<times> (string \<rightharpoonup> string \<times> string), nat) outcome" where
  "run_maintenance env delete_files attempt st =
     (case hard_delete_expired_records env delete_files st of
        (Inl e, st1) \<Rightarrow> (Inl (task_retry 1 attempt e), st1)
      | (Inr _, (db1, store1)) \<Rightarrow>
          (case in_session (cleanup_stale_runs env) db1 of
             (Inl e, db2) \<Rightarrow> (Inl (task_retry 1 attempt e), (db2, store1))
           | (Inr n, db2) \<Rightarrow> (Inr n, (db2, store1))))"

subsection \<open>Routing and schedule\<close>

definition task_queues :: "string list" where
  "task_queues = [''high_priority'', ''analysis'', ''ai_inference'', ''export'']"

definition task_routes :: "(string \<times> string) list" where
  "task_routes =
    [(''src.workers.tasks.orchestrator.evaluate_submission'', ''high_priority''),
     (''src.workers.tasks.finalize.finalize_and_notify_task'', ''high_priority''),
     (''src.workers.tasks.github_analysis.github_analysis_task'', ''analysis''),
     (''src.workers.tasks.pitch_deck.pitch_deck_task'', ''analysis''),
     (''src.workers.tasks.video_analysis.video_analysis_task'', ''analysis''),
     (''src.workers.tasks.web_verification.web_verification_task'', ''analysis''),
     (''src.workers.tasks.cross_check.cross_check_task'', ''ai_inference''),
     (''src.workers.tasks.fabrication.fabrication_detection_task'', ''ai_inference''),
     (''src.workers.tasks.llm_judge.llm_judge_task'', ''ai_inference''),
     (''src.workers.tasks.export.export_results_task'', ''export'')]"

definition task_default_queue :: string where "task_default_queue = ''analysis''"

definition queue_of :: "string \<Rightarrow> string" where
  "queue_of task = (case map_of task_routes task of Some q \<Rightarrow> q | None \<Rightarrow> task_default_queue)"

text \<open>The modules the worker imports, and the names under which tasks register.\<close>

definition autodiscovered :: "string list" where
  "autodiscovered = [''src.workers.tasks.orchestrator'', ''src.workers.tasks.github_analysis'',
     ''src.workers.tasks.pitch_deck'', ''src.workers.tasks.video_analysis'',
     ''src.workers.tasks.web_verification'', ''src.workers.tasks.cross_check'',
     ''src.workers.tasks.fabrication'', ''src.workers.tasks.llm_judge'',
     ''src.workers.tasks.finalize'', ''src.workers.tasks.export'']"

definition task_names :: "string list" where
  "task_names = map fst task_routes @
    [''src.workers.tasks.finalize.refresh_org_stats_task'', ''src.workers.celery_app.poll_queue_depth'',
     ''src.workers.export_worker.export_evaluation_results'', ''src.workers.cleanup_worker.run_maintenance'']"

text \<open>A task is the module path, a dot and its function.\<close>

definition task_module :: "string \<Rightarrow> string" where
  "task_module n = join_with ''.'' (butlast (split_on (CHR ''.'') n))"

definition registered :: "string \<Rightarrow> bool" where
  "registered n \<longleftrightarrow> n \<in> set task_names \<and>
     (task_module n \<in> set autodiscovered \<or> task_module n = ''src.workers.celery_app'')"

definition beat_schedule :: "string list" where
  "beat_schedule = [''src.workers.celery_app.poll_queue_depth'']"

subsection \<open>Signals\<close>

definition short_task_name :: "string \<Rightarrow> string" where
  "short_task_name n = (if CHR ''.'' \<in> set n then last (split_on (CHR ''.'') n) else n)"

datatype task_signal = Prerun string | Postrun string string string | Failure string string

record task_metrics =
  start_times :: "string \<Rightarrow> bool"
  task_counts :: "(string \<times> string) list"

text \<open>\<open>Postrun id name state\<close> and \<open>Failure id name\<close>; an empty state counts as success. The
  durations are not modelled.\<close>

fun on_signal :: "task_signal \<Rightarrow> task_metrics \<Rightarrow> task_metrics" where
  "on_signal (Prerun i) m = m\<lparr>start_times := (start_times m)(i := True)\<rparr>"
| "on_signal (Postrun i n st) m =
     (if start_times m i
      then m\<lparr>start_times := (start_times m)(i := False),
             task_counts := task_counts m @ [(short_task_name n, if st = [] then ''SUCCESS'' else st)]\<rparr>
      else m)"
| "on_signal (Failure i n) m =
     (if start_times m i
      then m\<lparr>start_times := (start_times m)(i := False),
             task_counts := task_counts m @ [(short_task_name n, ''FAILURE'')]\<rparr>
      else m)"

text \<open>What Celery sends for one execution: the failure signal comes before the end signal.\<close>

definition execution :: "string \<Rightarrow> string \<Rightarrow> bool \<Rightarrow> string \<Rightarrow> task_signal list" where
  "execution i n failed st = [Prerun i] @ (if failed then [Failure i n] else []) @ [Postrun i n st]"

text \<open>\<open>poll_queue_depth\<close>: the gauge of every queue whose length can be read.\<close>

fun poll_queues :: "(string \<Rightarrow> exn + nat) \<Rightarrow> string list \<Rightarrow> (string \<Rightarrow> nat) \<Rightarrow> string \<Rightarrow> nat" where
  "poll_queues llen [] g = g"
| "poll_queues llen (q # qs) g =
     poll_queues llen qs (case llen q of Inl _ \<Rightarrow> g | Inr n \<Rightarrow> g(q := n))"

definition poll_queue_depth :: "(string \<Rightarrow> exn + nat) \<Rightarrow> (string \<Rightarrow> nat) \<Rightarrow> string \<Rightarrow> nat" where
  "poll_queue_depth llen = poll_queues llen task_queues"

subsection \<open>Facts\<close>

lemma import_fails: "import_names evaluation_module_names
    [''EvaluationConfig'', ''EvaluationResult'', ''EvaluationRun''] = Inl (ImportError ''EvaluationResult'')"
  by (simp add: import_names_def evaluation_module_names_def)

lemma is_stale_touched [simp]: "\<not> is_stale cutoff (touch t (r\<lparr>run_status := FAILED, run_error_message := e, completed_at := c\<rparr>))"
  by (simp add: is_stale_def touch_def)

lemma poll_queues_result:
  "distinct qs \<Longrightarrow> poll_queues llen qs g q =
     (if q \<in> set qs then case llen q of Inl _ \<Rightarrow> g q | Inr n \<Rightarrow> n else g q)"
  by (induction qs arbitrary: g) (auto split: sum.splits)

text \<open>The modules of the two unregistered tasks.\<close>

lemma unregistered:
  "\<not> registered ''src.workers.cleanup_worker.run_maintenance''"
  "\<not> registered ''src.workers.export_worker.export_evaluation_results''"
  by code_simp+

lemma unregistered_queue:
  "queue_of ''src.workers.cleanup_worker.run_maintenance'' = ''analysis''"
  "queue_of ''src.workers.export_worker.export_evaluation_results'' = ''analysis''"
  by code_simp+

lemma not_scheduled: "''src.workers.cleanup_worker.run_maintenance'' \<notin> set beat_schedule"
  by code_simp

lemma queue_of_known: "queue_of n \<in> set task_queues"
proof (cases "map_of task_routes n")
  case (Some q)
  then have "q \<in> snd ` set task_routes" by (force dest: map_of_SomeD)
  moreover have "snd ` set task_routes \<subseteq> set task_queues"
    by (simp only: task_routes_def task_queues_def list.set image_insert image_empty snd_conv
        insert_subset insert_iff empty_subsetI simp_thms)
  ultimately show ?thesis using Some by (auto simp: queue_of_def)
qed (simp add: queue_of_def task_queues_def task_default_queue_def)

subsection \<open>Counting executions\<close>

fun signal_id :: "task_signal \<Rightarrow> string" where
  "signal_id (Prerun i) = i"
| "signal_id (Postrun i n st) = i"
| "signal_id (Failure i n) = i"

text \<open>What the signals of one id add to the counters, from a state with or without a start time.\<close>

fun gain :: "bool \<Rightarrow> task_signal list \<Rightarrow> (string \<times> string) list" where
  "gain b [] = []"
| "gain b (Prerun i # ss) = gain True ss"
| "gain b (Postrun i n st # ss) =
     (if b then (short_task_name n, if st = [] then ''SUCCESS'' else st) # gain False ss else gain b ss)"
| "gain b (Failure i n # ss) =
     (if b then (short_task_name n, ''FAILURE'') # gain False ss else gain b ss)"

definition signals_of :: "string \<Rightarrow> task_signal list \<Rightarrow> task_signal list" where
  "signals_of i ss = filter (\<lambda>s. signal_id s = i) ss"

lemma on_signal_other: "signal_id s \<noteq> i \<Longrightarrow> start_times (on_signal s m) i = start_times m i"
  by (cases s) auto

lemma gain_step:
  "mset (task_counts (on_signal s m)) + mset (gain (start_times (on_signal s m) (signal_id s)) ss) =
   mset (task_counts m) + mset (gain (start_times m (signal_id s)) (s # ss))"
  by (cases s) auto

lemma counts_are_gains:
  assumes "finite ids" "\<And>s. s \<in> set ss \<Longrightarrow> signal_id s \<in> ids"
  shows "mset (task_counts (fold on_signal ss m)) =
    mset (task_counts m) + (\<Sum>i\<in>ids. mset (gain (start_times m i) (signals_of i ss)))"
  using assms(2)
proof (induction ss arbitrary: m)
  case Nil
  then show ?case by (simp add: signals_of_def)
next
  case (Cons s ss)
  let ?j = "signal_id s" and ?m = "on_signal s m"
  let ?g = "\<lambda>m ss i. mset (gain (start_times m i) (signals_of i ss))"
  have j: "?j \<in> ids" using Cons.prems by simp
  have rest: "(\<Sum>i\<in>ids - {?j}. ?g ?m ss i) = (\<Sum>i\<in>ids - {?j}. ?g m (s # ss) i)"
    by (rule sum.cong) (auto simp: on_signal_other signals_of_def)
  have "mset (task_counts (fold on_signal (s # ss) m)) =
      mset (task_counts ?m) + (?g ?m ss ?j + (\<Sum>i\<in>ids - {?j}. ?g ?m ss i))"
    using Cons sum.remove [OF assms(1) j] by simp
  also have "\<dots> = mset (task_counts m) + (?g m (s # ss) ?j + (\<Sum>i\<in>ids - {?j}. ?g m (s # ss) i))"
    using gain_step [of s m "signals_of ?j ss"] rest by (simp add: signals_of_def add.assoc)
  also have "\<dots> = mset (task_counts m) + (\<Sum>i\<in>ids. ?g m (s # ss) i)"
    by (simp only: sum.remove [OF assms(1) j])
  finally show ?case .
qed

lemma start_times_signals:
  "start_times (fold on_signal ss m) i = start_times (fold on_signal (signals_of i ss) m) i"
proof -
  have step: "start_times m i = start_times m' i \<Longrightarrow> start_times (on_signal s m) i = start_times (on_signal s m') i"
    for s m m' by (cases s) auto
  have "start_times m i = start_times m' i \<Longrightarrow>
      start_times (fold on_signal ss m) i = start_times (fold on_signal (signals_of i ss) m') i" for m m'
  proof (induction ss arbitrary: m m')
    case (Cons s ss)
    show ?case
    proof (cases "signal_id s = i")
      case True
      with Cons.IH [OF step [OF Cons.prems, of s]] show ?thesis by (simp add: signals_of_def)
    next
      case False
      with Cons.prems have "start_times (on_signal s m) i = start_times m' i" by (simp add: on_signal_other)
      from Cons.IH [OF this] False show ?thesis by (simp add: signals_of_def)
    qed
  qed (simp add: signals_of_def)
  then show ?thesis by blast
qed

lemma sum_singletons: "distinct xs \<Longrightarrow> (\<Sum>x\<in>set xs. {#f x#}) = mset (map f xs)"
  by (induction xs) simp_all

lemma gain_execution: "gain False (execution i n failed st) =
   [(short_task_name n, if failed then ''FAILURE'' else if st = [] then ''SUCCESS'' else st)]"
  by (simp add: execution_def)

subsection \<open>Properties\<close>

text \<open>However the executions of a worker interleave, each is counted exactly once, as a failure if
  it failed and under the state it ended in otherwise, and no start time is left behind.\<close>

theorem executions_counted_once:
  assumes "distinct ids" "\<And>s. s \<in> set ss \<Longrightarrow> signal_id s \<in> set ids"
    and "\<And>i. i \<in> set ids \<Longrightarrow> signals_of i ss = execution i (nm i) (failed i) (st i)"
    and "\<And>i. \<not> start_times m i"
  shows "mset (task_counts (fold on_signal ss m)) = mset (task_counts m) +
      mset (map (\<lambda>i. (short_task_name (nm i), if failed i then ''FAILURE''
                        else if st i = [] then ''SUCCESS'' else st i)) ids)
    \<and> (\<forall>i. \<not> start_times (fold on_signal ss m) i)"
proof
  have "(\<Sum>i\<in>set ids. mset (gain (start_times m i) (signals_of i ss))) =
      (\<Sum>i\<in>set ids. {#(short_task_name (nm i), if failed i then ''FAILURE''
                        else if st i = [] then ''SUCCESS'' else st i)#})"
    by (rule sum.cong) (simp_all add: assms(3,4) gain_execution)
  also have "\<dots> = mset (map (\<lambda>i. (short_task_name (nm i), if failed i then ''FAILURE''
                        else if st i = [] then ''SUCCESS'' else st i)) ids)"
    by (rule sum_singletons [OF assms(1)])
  finally show "mset (task_counts (fold on_signal ss m)) = mset (task_counts m) +
      mset (map (\<lambda>i. (short_task_name (nm i), if failed i then ''FAILURE''
                        else if st i = [] then ''SUCCESS'' else st i)) ids)"
    using counts_are_gains [OF finite_set assms(2)] by simp
  show "\<forall>i. \<not> start_times (fold on_signal ss m) i"
  proof
    fix i
    show "\<not> start_times (fold on_signal ss m) i"
    proof (cases "i \<in> set ids")
      case True
      then show ?thesis by (subst start_times_signals) (simp add: assms(3) execution_def)
    next
      case False
      then have "signals_of i ss = []" using assms(2) by (auto simp: signals_of_def filter_empty_conv)
      then show ?thesis by (subst start_times_signals) (simp add: assms(4))
    qed
  qed
qed

text \<open>The maintenance task never cleans anything: its first import names a class that no longer
  exists, so it fails before the first statement, is retried once and fails again, and database and
  store stay as they are; besides, it is neither scheduled nor known to a worker, and its messages,
  like those of the export worker, wait in the queue of the analyses.\<close>

theorem maintenance_never_cleans:
  "run_maintenance env delete_files attempt st =
     (Inl (if attempt < 1 then Retry (ImportError ''EvaluationResult'') else ImportError ''EvaluationResult''), st)
   \<and> \<not> registered ''src.workers.cleanup_worker.run_maintenance''
   \<and> \<not> registered ''src.workers.export_worker.export_evaluation_results''
   \<and> ''src.workers.cleanup_worker.run_maintenance'' \<notin> set beat_schedule
   \<and> queue_of ''src.workers.cleanup_worker.run_maintenance'' = ''analysis''
   \<and> queue_of ''src.workers.export_worker.export_evaluation_results'' = ''analysis''
   \<and> queue_of n \<in> set task_queues"
proof -
  have "hard_delete_expired_records env delete_files st = (Inl (ImportError ''EvaluationResult''), st)"
    by (simp only: hard_delete_expired_records_def import_fails sum.case)
  then show ?thesis
    by (simp add: run_maintenance_def task_retry_def unregistered unregistered_queue not_scheduled
        queue_of_known)
qed

text \<open>The clean-up of stale runs fails exactly the active runs older than a day and reports their
  number, but it does not count as a version: a worker that read such a run before can still
  complete it afterwards.\<close>

theorem stale_runs_fail:
  assumes u: "unique_ids (runs db)" and r: "r \<in> set (runs db)" "is_stale (stale_cutoff env) r" "active r"
    and x: "x \<in> set (runs db)" "\<not> is_stale (stale_cutoff env) x"
    and c: "cleanup_stale_runs env db = (Inr n, db')"
  shows "0 < n \<and> filter (is_stale (stale_cutoff env)) (runs db') = [] \<and> x \<in> set (runs db')
    \<and> (\<exists>r'. run_row (ident r) db' = Some r' \<and> run_status r' = FAILED \<and> version r' = version r)
    \<and> (\<exists>rf db2. transition_status env' (ident r) (version r) COMPLETED extra db' = (Inr rf, db2)
         \<and> run_row (ident r) db2 = Some rf)"
proof -
  let ?f = "\<lambda>r. touch (now env) (r\<lparr>run_status := FAILED, run_error_message := Some stale_message,
      completed_at := Some (now env)\<rparr>)"
  have d: "n = row_count (is_stale (stale_cutoff env)) (runs db)"
    "runs db' = update_where (is_stale (stale_cutoff env)) ?f (runs db)"
    using c by (auto simp: cleanup_stale_runs_def)
  have u': "unique_ids (runs db')" using u by (simp add: d unique_ids_update_where)
  have "?f r \<in> set (runs db')" using r by (auto simp: d set_update_where)
  with u' have row: "run_row (ident r) db' = Some (?f r)" using r(3) by (simp add: run_row_Some)
  have "version (?f r) = version r" by simp
  from update_lock_hit [OF u' row this] run_row_after_hit [OF u' row this refl]
  have "\<exists>rf db2. transition_status env' (ident r) (version r) COMPLETED extra db' = (Inr rf, db2)
      \<and> run_row (ident r) db2 = Some rf"
    by (auto simp: transition_status_def)
  moreover have "0 < n" using r by (auto simp: d row_count_def filter_empty_conv)
  moreover have "filter (is_stale (stale_cutoff env)) (runs db') = []"
    by (auto simp: d set_update_where filter_empty_conv)
  moreover have "x \<in> set (runs db')" using x by (auto simp: d set_update_where)
  ultimately show ?thesis using row by simp
qed

subsection \<open>Witnesses\<close>

theorem executions_counted_once_witness:
  "mset (task_counts (fold on_signal
      [Prerun ''a'', Prerun ''b'', Failure ''a'' ''m.f'', Postrun ''b'' ''m.g'' [], Postrun ''a'' ''m.f'' ''FAILURE'']
      \<lparr>start_times = (\<lambda>_. False), task_counts = []\<rparr>)) = {#(''f'', ''FAILURE''), (''g'', ''SUCCESS'')#}"
proof -
  let ?ss = "[Prerun ''a'', Prerun ''b'', Failure ''a'' ''m.f'', Postrun ''b'' ''m.g'' [], Postrun ''a'' ''m.f'' ''FAILURE'']"
  have "signals_of i ?ss = execution i (if i = ''a'' then ''m.f'' else ''m.g'') (i = ''a'')
      (if i = ''a'' then ''FAILURE'' else [])" if "i \<in> set [''a'', ''b'']" for i
    using that by (auto simp: signals_of_def execution_def)
  moreover have "short_task_name ''m.f'' = ''f''" "short_task_name ''m.g'' = ''g''"
    by (simp_all add: short_task_name_def)
  ultimately show ?thesis
    using executions_counted_once [of "[''a'', ''b'']" ?ss "\<lambda>i. if i = ''a'' then ''m.f'' else ''m.g''"
        "\<lambda>i. i = ''a''" "\<lambda>i. if i = ''a'' then ''FAILURE'' else []" "\<lparr>start_times = (\<lambda>_. False), task_counts = []\<rparr>"]
    by auto
qed

theorem stale_runs_fail_witness:
  "\<exists>rf db2. transition_status sample_env 4 1 COMPLETED []
     (snd (cleanup_stale_runs (sample_env\<lparr>now := 100000000000\<rparr>)
        (empty_db\<lparr>runs := [sample_run RUNNING, (sample_run COMPLETED)\<lparr>ident := 9\<rparr>]\<rparr>))) = (Inr rf, db2)"
proof -
  let ?env = "sample_env\<lparr>now := 100000000000\<rparr>" and ?x = "(sample_run COMPLETED)\<lparr>ident := 9\<rparr>"
  let ?db = "empty_db\<lparr>runs := [sample_run RUNNING, ?x]\<rparr>"
  have "unique_ids (runs ?db)" "is_stale (stale_cutoff ?env) (sample_run RUNNING)"
    "\<not> is_stale (stale_cutoff ?env) ?x" "ident (sample_run RUNNING) = 4" "version (sample_run RUNNING) = 1"
    "active (sample_run RUNNING)"
    by (simp_all add: unique_ids_def sample_run_def is_stale_def stale_cutoff_def STALE_RUN_HOURS_def)
  moreover have "cleanup_stale_runs ?env ?db =
      (Inr (row_count (is_stale (stale_cutoff ?env)) (runs ?db)), snd (cleanup_stale_runs ?env ?db))"
    by (simp add: cleanup_stale_runs_def)
  ultimately show ?thesis
    using stale_runs_fail [of ?db "sample_run RUNNING" ?env ?x _ _ sample_env "[]"] by fastforce
qed

end
