(* ===== verification/CeleryTasks.thy ===== *)
theory CeleryTasks
  imports DeliveryOnce Maintenance
begin

section \<open>The Celery application and its tasks (\<open>workers/celery_app.py\<close>, \<open>workers/tasks\<close>)\<close>

text \<open>
  The settings of the application, the options each task is declared with, the time a run of the
  pipeline can take under them, and the entry of an analysis as the decorator installs it.
\<close>

subsection \<open>Settings of the application\<close>

record celery_settings =
  cc_task_serializer :: string
  cc_accept_content :: "string list"
  cc_result_serializer :: string
  cc_timezone :: string
  cc_enable_utc :: bool
  cc_acks_late :: bool
  cc_reject_on_worker_lost :: bool
  cc_acks_on_failure_or_timeout :: bool
  cc_result_expires :: nat
  cc_track_started :: bool
  cc_send_sent_event :: bool
  cc_soft_time_limit :: nat
  cc_time_limit :: nat
  cc_prefetch_multiplier :: nat
  cc_concurrency :: nat
  cc_max_tasks_per_child :: nat
  cc_max_memory_per_child :: nat
  cc_default_retry_delay :: nat
  cc_max_retries :: nat

definition celery_conf :: celery_settings where
  "celery_conf = \<lparr>cc_task_serializer = ''json'', cc_accept_content = [''json''], cc_result_serializer = ''json'',
     cc_timezone = ''UTC'', cc_enable_utc = True, cc_acks_late = True, cc_reject_on_worker_lost = True,
     cc_acks_on_failure_or_timeout = False, cc_result_expires = 604800, cc_track_started = True,
     cc_send_sent_event = True, cc_soft_time_limit = 300, cc_time_limit = 360, cc_prefetch_multiplier = 1,
     cc_concurrency = 4, cc_max_tasks_per_child = 100, cc_max_memory_per_child = 512000,
     cc_default_retry_delay = 2, cc_max_retries = 3\<rparr>"

subsection \<open>Options of the tasks\<close>

record task_options =
  to_max_retries :: nat
  to_soft :: "nat option"
  to_hard :: "nat option"
  to_acks_late :: "bool option"

definition limits :: "nat \<Rightarrow> nat \<Rightarrow> nat \<Rightarrow> task_options" where
  "limits r soft hard = \<lparr>to_max_retries = r, to_soft = Some soft, to_hard = Some hard, to_acks_late = None\<rparr>"

definition evaluate_submission_options :: task_options where
  "evaluate_submission_options = (limits 1 600 660)\<lparr>to_acks_late := Some True\<rparr>"

definition github_options :: task_options where "github_options = limits 3 90 120"
definition pitch_deck_options :: task_options where "pitch_deck_options = limits 3 120 150"
definition video_options :: task_options where "video_options = limits 3 180 240"
definition web_options :: task_options where "web_options = limits 3 90 120"
definition cross_check_options :: task_options where "cross_check_options = limits 3 120 150"
definition fabrication_options :: task_options where "fabrication_options = limits 3 120 150"
definition judge_options :: task_options where "judge_options = limits 3 180 240"
definition finalize_options :: task_options where "finalize_options = limits 2 60 90"
definition refresh_options :: task_options where "refresh_options = limits 2 120 150"
definition export_options :: task_options where "export_options = limits 3 300 360"

definition export_worker_options :: task_options where
  "export_worker_options = \<lparr>to_max_retries = 2, to_soft = None, to_hard = None, to_acks_late = Some True\<rparr>"

definition maintenance_options :: task_options where
  "maintenance_options = \<lparr>to_max_retries = 1, to_soft = None, to_hard = None, to_acks_late = None\<rparr>"

definition task_table :: "(string \<times> task_options) list" where
  "task_table =
    [(''src.workers.tasks.orchestrator.evaluate_submission'', evaluate_submission_options),
     (''src.workers.tasks.github_analysis.github_analysis_task'', github_options),
     (''src.workers.tasks.pitch_deck.pitch_deck_task'', pitch_deck_options),
     (''src.workers.tasks.video_analysis.video_analysis_task'', video_options),
     (''src.workers.tasks.web_verification.web_verification_task'', web_options),
     (''src.workers.tasks.cross_check.cross_check_task'', cross_check_options),
     (''src.workers.tasks.fabrication.fabrication_detection_task'', fabrication_options),
     (''src.workers.tasks.llm_judge.llm_judge_task'', judge_options),
     (''src.workers.tasks.finalize.finalize_and_notify_task'', finalize_options),
     (''src.workers.tasks.finalize.refresh_org_stats_task'', refresh_options),
     (''src.workers.tasks.export.export_results_task'', export_options),
     (''src.workers.export_worker.export_evaluation_results'', export_worker_options),
     (''src.workers.cleanup_worker.run_maintenance'', maintenance_options)]"

text \<open>An option that is not declared is that of the application.\<close>

definition soft_limit :: "task_options \<Rightarrow> nat" where
  "soft_limit o1 = (case to_soft o1 of Some n \<Rightarrow> n | None \<Rightarrow> cc_soft_time_limit celery_conf)"

definition hard_limit :: "task_options \<Rightarrow> nat" where
  "hard_limit o1 = (case to_hard o1 of Some n \<Rightarrow> n | None \<Rightarrow> cc_time_limit celery_conf)"

definition acks_late :: "task_options \<Rightarrow> bool" where
  "acks_late o1 = (case to_acks_late o1 of Some b \<Rightarrow> b | None \<Rightarrow> cc_acks_late celery_conf)"

lemma task_order:
  "set [ev, gi, pd, vi, we, cr, fa, ju, fi, re, ex, ew, ma] \<union> {po} =
   set [ev, fi, gi, pd, vi, we, cr, fa, ju, ex, re, po, ew, ma]"
  by auto

lemmas task_option_defs = limits_def celery_conf_def soft_limit_def hard_limit_def acks_late_def
  evaluate_submission_options_def github_options_def pitch_deck_options_def video_options_def web_options_def
  cross_check_options_def fabrication_options_def judge_options_def finalize_options_def refresh_options_def
  export_options_def export_worker_options_def maintenance_options_def

text \<open>
  Every task the application knows, the polling of the queues apart, has its options; each gets a
  chance to record its failure, since the soft limit comes before the hard one; each is acknowledged
  late and delivered again when its worker is lost; no limit exceeds eleven minutes.
\<close>

theorem every_task_is_limited:
  "set (map fst task_table) \<union> {''src.workers.celery_app.poll_queue_depth''} = set task_names
   \<and> list_all (\<lambda>(n, o1). soft_limit o1 < hard_limit o1 \<and> hard_limit o1 \<le> 660 \<and> acks_late o1) task_table
   \<and> cc_reject_on_worker_lost celery_conf"
proof (intro conjI)
  show "set (map fst task_table) \<union> {''src.workers.celery_app.poll_queue_depth''} = set task_names"
    unfolding task_table_def task_names_def task_routes_def list.map fst_conv append.simps
    by (rule task_order)
  show "list_all (\<lambda>(n, o1). soft_limit o1 < hard_limit o1 \<and> hard_limit o1 \<le> 660 \<and> acks_late o1) task_table"
    by (simp add: task_table_def task_option_defs)
  show "cc_reject_on_worker_lost celery_conf" by (simp add: celery_conf_def)
qed

subsection \<open>The retries of a base task\<close>

record retry_policy =
  rp_autoretry :: bool
  rp_backoff :: bool
  rp_backoff_max :: nat
  rp_jitter :: bool

definition base_retry_policy :: retry_policy where
  "base_retry_policy = \<lparr>rp_autoretry = True, rp_backoff = True, rp_backoff_max = 60, rp_jitter = True\<rparr>"

text \<open>
  The executions of a stage: how long each attempt ran and how long each retry waited, in seconds.
  An attempt ends at its hard limit at the latest. The wait before a retry is at most the declared
  maximum of the backoff.
\<close>

record stage_log =
  sl_attempts :: "int list"
  sl_waits :: "int list"

definition stage_seconds :: "stage_log \<Rightarrow> int" where
  "stage_seconds l = sum_list (sl_attempts l) + sum_list (sl_waits l)"

definition stage_within :: "task_options \<Rightarrow> int \<Rightarrow> stage_log \<Rightarrow> bool" where
  "stage_within o1 wait l \<longleftrightarrow>
     length (sl_attempts l) \<le> Suc (to_max_retries o1) \<and> list_all (\<lambda>d. 0 \<le> d \<and> d \<le> int (hard_limit o1)) (sl_attempts l)
     \<and> length (sl_waits l) \<le> to_max_retries o1 \<and> list_all (\<lambda>d. 0 \<le> d \<and> d \<le> wait) (sl_waits l)"

definition stage_bound :: "task_options \<Rightarrow> int \<Rightarrow> int" where
  "stage_bound o1 wait = int (Suc (to_max_retries o1)) * int (hard_limit o1) + int (to_max_retries o1) * wait"

lemma sum_list_bounded:
  "list_all (\<lambda>d. 0 \<le> d \<and> d \<le> b) xs \<Longrightarrow> length xs \<le> n \<Longrightarrow> 0 \<le> (b::int) \<Longrightarrow> sum_list xs \<le> int n * b"
proof -
  assume xs: "list_all (\<lambda>d. 0 \<le> d \<and> d \<le> b) xs" and n: "length xs \<le> n" and b: "0 \<le> b"
  from xs have "sum_list xs \<le> int (length xs) * b" by (induction xs) (auto simp: algebra_simps)
  also have "\<dots> \<le> int n * b" using n b by (simp add: mult_right_mono)
  finally show ?thesis .
qed

lemma stage_seconds_bound: "stage_within o1 wait l \<Longrightarrow> 0 \<le> wait \<Longrightarrow> stage_seconds l \<le> stage_bound o1 wait"
  unfolding stage_within_def stage_seconds_def stage_bound_def
  by (intro add_mono sum_list_bounded) auto

text \<open>
  A run of the pipeline: the orchestrator, the four analyses side by side, the chain of the four
  sequential tasks, and the time its messages waited in queues.
\<close>

definition parallel_options :: "task_options list" where
  "parallel_options = [github_options, pitch_deck_options, video_options, web_options]"

definition chain_options :: "task_options list" where
  "chain_options = [cross_check_options, fabrication_options, judge_options, finalize_options]"

record pipeline_log =
  pl_start :: stage_log
  pl_parallel :: "stage_log list"
  pl_chain :: "stage_log list"
  pl_queued :: int

definition pipeline_within :: "int \<Rightarrow> pipeline_log \<Rightarrow> bool" where
  "pipeline_within start_wait l \<longleftrightarrow>
     stage_within evaluate_submission_options start_wait (pl_start l)
     \<and> list_all2 (\<lambda>o1. stage_within o1 (int (rp_backoff_max base_retry_policy))) parallel_options (pl_parallel l)
     \<and> list_all2 (\<lambda>o1. stage_within o1 (int (rp_backoff_max base_retry_policy))) chain_options (pl_chain l)"

definition pipeline_seconds :: "pipeline_log \<Rightarrow> int" where
  "pipeline_seconds l = stage_seconds (pl_start l) + foldr max (map stage_seconds (pl_parallel l)) 0
     + sum_list (map stage_seconds (pl_chain l)) + pl_queued l"

lemma pipeline_bound:
  assumes "pipeline_within w l" "0 \<le> w"
  shows "pipeline_seconds l \<le> 5610 + w + pl_queued l"
proof -
  obtain g p v x where par: "pl_parallel l = [g, p, v, x]" "stage_within github_options 60 g"
    "stage_within pitch_deck_options 60 p" "stage_within video_options 60 v" "stage_within web_options 60 x"
    using assms(1)
    by (auto simp: pipeline_within_def parallel_options_def base_retry_policy_def list_all2_Cons1)
  obtain c f j z where chain: "pl_chain l = [c, f, j, z]" "stage_within cross_check_options 60 c"
    "stage_within fabrication_options 60 f" "stage_within judge_options 60 j" "stage_within finalize_options 60 z"
    using assms(1)
    by (auto simp: pipeline_within_def chain_options_def base_retry_policy_def list_all2_Cons1)
  have start: "stage_seconds (pl_start l) \<le> stage_bound evaluate_submission_options w"
    using assms by (intro stage_seconds_bound) (simp_all add: pipeline_within_def)
  have b: "stage_seconds s \<le> stage_bound o1 60" if "stage_within o1 60 s" for o1 s
    by (rule stage_seconds_bound [OF that]) simp
  note bounds = start par(2-5) [THEN b] chain(2-5) [THEN b]
  have sizes: "stage_bound evaluate_submission_options w = 1320 + w" "stage_bound github_options 60 = 660"
    "stage_bound pitch_deck_options 60 = 780" "stage_bound video_options 60 = 1140" "stage_bound web_options 60 = 660"
    "stage_bound cross_check_options 60 = 780" "stage_bound fabrication_options 60 = 780"
    "stage_bound judge_options 60 = 1140" "stage_bound finalize_options 60 = 390"
    by (simp_all add: stage_bound_def task_option_defs)
  show ?thesis using bounds unfolding sizes by (simp add: pipeline_seconds_def par(1) chain(1))
qed

text \<open>
  The cleanup cannot mistake a working run for a stuck one: within the declared limits the tasks of
  a run, with every retry, take less than two hours, so a run whose messages waited less than 22
  hours in all is younger than the cut-off while its last task runs, and keeps its state.
\<close>

theorem working_run_not_stale:
  assumes "pipeline_within w l" "0 \<le> w" "w \<le> 600" "pl_queued l < 22 * 3600"
    and "now env \<le> created_at r + pipeline_seconds l * 1000000" and "runs db = [r]"
  shows "\<not> is_stale (stale_cutoff env) r \<and> runs (snd (cleanup_stale_runs env db)) = [r]"
proof -
  have "pipeline_seconds l < 24 * 3600" using pipeline_bound [OF assms(1,2)] assms(3,4) by simp
  then have "\<not> is_stale (stale_cutoff env) r"
    using assms(5) by (simp add: is_stale_def stale_cutoff_def STALE_RUN_HOURS_def)
  then show ?thesis using assms(6) by (simp add: cleanup_stale_runs_def update_where_def)
qed

subsection \<open>The entry of an analysis\<close>

text \<open>
  The entry of an analysis sets its worker type and calls \<open>self.run\<close>. Which function that is depends
  on the decorator of Celery: \<open>installs\<close> says that it makes the decorated function the \<open>run\<close> of the
  task, in front of the one of the base class. \<open>depth\<close> is the number of calls the interpreter allows.
\<close>

fun call_run :: "nat \<Rightarrow> bool \<Rightarrow> world \<Rightarrow> analysis_kind \<Rightarrow> task \<Rightarrow> uuid \<Rightarrow> uuid \<Rightarrow> json \<Rightarrow> tstate
    \<Rightarrow> (tstate, json) outcome" where
  "call_run 0 installs w k t new_id rid ctx s = (Inl (ExternalError ''RecursionError''), s)"
| "call_run (Suc depth) installs w k t new_id rid ctx s =
     (if installs then call_run depth installs w k (t\<lparr>wtype := kind_type k\<rparr>) new_id rid ctx s
      else base_run (w_str_exn w) t new_id rid ctx (run_analysis w k t rid ctx) s)"

definition analysis_entry :: "nat \<Rightarrow> bool \<Rightarrow> world \<Rightarrow> analysis_kind \<Rightarrow> task \<Rightarrow> uuid \<Rightarrow> uuid \<Rightarrow> json \<Rightarrow> tstate
    \<Rightarrow> (tstate, json) outcome" where
  "analysis_entry depth installs w k t new_id rid ctx s =
     call_run depth installs w k (t\<lparr>wtype := kind_type k\<rparr>) new_id rid ctx s"

text \<open>
  Under the decorator as documented an analysis never reaches the base task: the entry calls itself
  until the interpreter stops it, whatever the depth, and no table is touched. If the name led to
  the base class instead, the entry would be the analysis task.
\<close>

theorem entry_calls_itself:
  "analysis_entry depth True w k t new_id rid ctx s = (Inl (ExternalError ''RecursionError''), s)
   \<and> analysis_entry (Suc depth) False w k t new_id rid ctx s = analysis_task w k t new_id rid ctx s"
proof -
  have "call_run depth True w k t new_id rid ctx s = (Inl (ExternalError ''RecursionError''), s)" for t
    by (induction depth arbitrary: t) simp_all
  then show ?thesis by (simp add: analysis_entry_def analysis_task_def)
qed

subsection \<open>Witnesses\<close>

definition quick_stage :: stage_log where
  "quick_stage = \<lparr>sl_attempts = [20, 30], sl_waits = [2]\<rparr>"

definition quick_pipeline :: pipeline_log where
  "quick_pipeline = \<lparr>pl_start = quick_stage, pl_parallel = replicate 4 quick_stage,
     pl_chain = replicate 4 quick_stage, pl_queued = 3600\<rparr>"

theorem working_run_not_stale_witness:
  "\<not> is_stale (stale_cutoff (sample_env\<lparr>now := 1000 * 1000000\<rparr>)) (sample_run RUNNING)"
proof -
  have w: "pipeline_within 60 quick_pipeline"
    by (simp add: pipeline_within_def quick_pipeline_def quick_stage_def stage_within_def parallel_options_def
        chain_options_def task_option_defs base_retry_policy_def numeral_eq_Suc)
  have "pl_queued quick_pipeline < 22 * 3600" "1000 \<le> pipeline_seconds quick_pipeline"
    by (simp_all add: quick_pipeline_def pipeline_seconds_def stage_seconds_def quick_stage_def numeral_eq_Suc)
  with working_run_not_stale [OF w, of "sample_env\<lparr>now := 1000 * 1000000\<rparr>" "sample_run RUNNING" "sample_db UNDER_REVIEW RUNNING"]
  show ?thesis by (simp add: sample_run_def sample_defs)
qed

end
