(* ===== verification/LogMasking.thy ===== *)
theory LogMasking
  imports PyString Models
begin

section \<open>Masking of log events (\<open>observability/logging.py\<close>)\<close>

text \<open>
  A log event is a dictionary from field names to values (\<open>json\<close>). Two processors run on it
  before it is rendered: one adds the service and the trace, one hides sensitive values.
\<close>

definition SENSITIVE_FIELDS :: "string list" where
  "SENSITIVE_FIELDS = [''password'', ''hashed_password'', ''token'', ''access_token'',
     ''refresh_token'', ''api_key'', ''secret'', ''secret_key'', ''authorization'', ''x_api_key'',
     ''aws_secret_access_key'', ''s3_secret_access_key'']"

definition PII_FIELDS :: "string list" where
  "PII_FIELDS = [''email'', ''ip_address'', ''client_ip'']"

definition REDACTED :: string where "REDACTED = ''***REDACTED***''"

definition mask_value :: "string \<Rightarrow> string" where
  "mask_value v = (if length v \<le> 6 then REDACTED
     else take 2 v @ ''***'' @ drop (length v - 2) v)"

subsection \<open>The token pattern\<close>

text \<open>
  The regular expression with the alternatives \<open>Bearer\s+\<close>, \<open>token[=:]\s*\<close> and
  \<open>api[_-]?key[=:]\s*\<close>, each followed by \<open>\S+\<close>, without regard to case. A matcher
  returns the first group and what follows the match.
\<close>

fun prefix_ci :: "string \<Rightarrow> string \<Rightarrow> (string \<times> string) option" where
  "prefix_ci [] s = Some ([], s)"
| "prefix_ci (p # ps) [] = None"
| "prefix_ci (p # ps) (c # s) =
     (if lower_char c = p then map_option (\<lambda>(m, r). (c # m, r)) (prefix_ci ps s) else None)"

text \<open>White space and then a run of other characters, which is the secret.\<close>

definition secret_after :: "string \<Rightarrow> string \<Rightarrow> (string \<times> string) option" where
  "secret_after g s =
     (let sp = takeWhile is_space s; r = dropWhile is_space s
      in if r = [] then None else Some (g @ sp, dropWhile (\<lambda>c. \<not> is_space c) r))"

definition match_bearer :: "string \<Rightarrow> (string \<times> string) option" where
  "match_bearer s = (case prefix_ci ''bearer'' s of
     None \<Rightarrow> None
   | Some (m, r) \<Rightarrow> if r \<noteq> [] \<and> is_space (hd r) then secret_after m r else None)"

definition after_separator :: "string \<Rightarrow> string \<Rightarrow> (string \<times> string) option" where
  "after_separator m s = (case s of
     [] \<Rightarrow> None
   | c # r \<Rightarrow> if c = CHR ''='' \<or> c = CHR '':'' then secret_after (m @ [c]) r else None)"

definition match_token :: "string \<Rightarrow> (string \<times> string) option" where
  "match_token s = (case prefix_ci ''token'' s of None \<Rightarrow> None | Some (m, r) \<Rightarrow> after_separator m r)"

definition match_key :: "string \<Rightarrow> string \<Rightarrow> (string \<times> string) option" where
  "match_key m s = (case prefix_ci ''key'' s of None \<Rightarrow> None | Some (k, r) \<Rightarrow> after_separator (m @ k) r)"

definition match_api_key :: "string \<Rightarrow> (string \<times> string) option" where
  "match_api_key s = (case prefix_ci ''api'' s of
     None \<Rightarrow> None
   | Some (m, c # r) \<Rightarrow> if c = CHR ''_'' \<or> c = CHR ''-'' then match_key (m @ [c]) r else match_key m (c # r)
   | Some (m, []) \<Rightarrow> None)"

definition match_pattern :: "string \<Rightarrow> (string \<times> string) option" where
  "match_pattern s = (case match_bearer s of Some x \<Rightarrow> Some x
     | None \<Rightarrow> (case match_token s of Some x \<Rightarrow> Some x | None \<Rightarrow> match_api_key s))"

lemma prefix_ci_append: "prefix_ci p s = Some (m, r) \<Longrightarrow> s = m @ r \<and> length m = length p"
  by (induction p s arbitrary: m rule: prefix_ci.induct) (auto split: if_splits)

lemma length_secret: "secret_after g s = Some (m, r) \<Longrightarrow> length r < length s"
proof -
  assume "secret_after g s = Some (m, r)"
  then have ne: "dropWhile is_space s \<noteq> []" and r: "r = dropWhile (\<lambda>c. \<not> is_space c) (dropWhile is_space s)"
    by (auto simp: secret_after_def Let_def split: if_splits)
  from ne obtain c d where cd: "dropWhile is_space s = c # d" "\<not> is_space c"
    by (metis hd_dropWhile list.exhaust list.sel(1))
  then have "length r \<le> length d" using r by (simp add: length_dropWhile_le)
  moreover have "length (c # d) \<le> length s" by (metis cd(1) length_dropWhile_le)
  ultimately show ?thesis by simp
qed

lemma match_pattern_shorter: "match_pattern s = Some (m, r) \<Longrightarrow> length r < length s"
proof -
  have sep: "after_separator g q = Some (m, r) \<Longrightarrow> length r < length q" for g q
    by (auto simp: after_separator_def split: list.splits if_splits dest: length_secret)
  have key: "match_key g q = Some (m, r) \<Longrightarrow> length r < length q" for g q
    by (auto simp: match_key_def split: option.splits dest!: prefix_ci_append sep)
  assume "match_pattern s = Some (m, r)"
  then consider "match_bearer s = Some (m, r)" | "match_token s = Some (m, r)" | "match_api_key s = Some (m, r)"
    by (auto simp: match_pattern_def split: option.splits)
  then show ?thesis
  proof cases
    case 1
    then show ?thesis
      by (auto simp: match_bearer_def split: option.splits if_splits dest!: prefix_ci_append length_secret)
  next
    case 2
    then show ?thesis
      by (auto simp: match_token_def split: option.splits dest!: prefix_ci_append sep)
  next
    case 3
    then show ?thesis
      by (auto simp: match_api_key_def split: option.splits list.splits if_splits
          dest!: prefix_ci_append key)
  qed
qed

function sub_pattern :: "string \<Rightarrow> string" where
  "sub_pattern [] = []"
| "sub_pattern (c # s) = (case match_pattern (c # s) of
     Some (m, r) \<Rightarrow> m @ REDACTED @ sub_pattern r
   | None \<Rightarrow> c # sub_pattern s)"
  by pat_completeness auto
termination by (relation "measure length") (auto dest: match_pattern_shorter)

subsection \<open>The processors\<close>

definition mask_field :: "string \<Rightarrow> json \<Rightarrow> json" where
  "mask_field key v =
     (if str_lower key \<in> set SENSITIVE_FIELDS then JStr REDACTED
      else case v of
             JStr s \<Rightarrow> if str_lower key \<in> set PII_FIELDS then JStr (mask_value s) else JStr (sub_pattern s)
           | _ \<Rightarrow> v)"

definition sensitive_field_masker :: "(string \<times> json) list \<Rightarrow> (string \<times> json) list" where
  "sensitive_field_masker d = map (\<lambda>(k, v). (k, mask_field k v)) d"

fun dict_set :: "string \<Rightarrow> json \<Rightarrow> (string \<times> json) list \<Rightarrow> (string \<times> json) list" where
  "dict_set k v [] = [(k, v)]"
| "dict_set k v ((k', v') # d) = (if k' = k then (k, v) # d else (k', v') # dict_set k v d)"

text \<open>The trace is the pair of formatted ids of the active span, if there is one.\<close>

definition context_enricher :: "(string \<times> string) option \<Rightarrow> (string \<times> json) list \<Rightarrow> (string \<times> json) list" where
  "context_enricher trace d =
     (let d1 = (if map_of d ''service'' = None then d @ [(''service'', JStr ''eval-engine'')] else d)
      in case trace of
           None \<Rightarrow> d1
         | Some (t, s) \<Rightarrow> dict_set ''span_id'' (JStr s) (dict_set ''trace_id'' (JStr t) d1))"

definition log_processors :: "(string \<times> string) option \<Rightarrow> (string \<times> json) list \<Rightarrow> (string \<times> json) list" where
  "log_processors trace d = sensitive_field_masker (context_enricher trace d)"


subsection \<open>What the masker hides\<close>

text \<open>
  Two values of a field that an observer of the log must not tell apart: anything under a sensitive
  name; under a personal name, texts with the same two letters at each end, or two short ones.
\<close>

definition same_outline :: "string \<Rightarrow> string \<Rightarrow> bool" where
  "same_outline a b = ((length a \<le> 6 \<and> length b \<le> 6) \<or>
     (6 < length a \<and> 6 < length b \<and> take 2 a = take 2 b \<and>
      drop (length a - 2) a = drop (length b - 2) b))"

definition indistinct :: "string \<Rightarrow> json \<Rightarrow> json \<Rightarrow> bool" where
  "indistinct k v w =
     (if str_lower k \<in> set SENSITIVE_FIELDS then True
      else if str_lower k \<in> set PII_FIELDS then
        (case (v, w) of (JStr a, JStr b) \<Rightarrow> same_outline a b | _ \<Rightarrow> v = w)
      else v = w)"

definition same_event :: "(string \<times> json) list \<Rightarrow> (string \<times> json) list \<Rightarrow> bool" where
  "same_event d e = list_all2 (\<lambda>(k, v) (k', w). k = k' \<and> indistinct k v w) d e"

lemma mask_value_outline: "same_outline a b \<Longrightarrow> mask_value a = mask_value b"
  by (auto simp: same_outline_def mask_value_def)

lemma mask_field_indistinct: "indistinct k v w \<Longrightarrow> mask_field k v = mask_field k w"
  by (auto simp: indistinct_def mask_field_def split: json.splits if_splits dest: mask_value_outline)

lemma indistinct_refl [simp]: "indistinct k v v"
  by (auto simp: indistinct_def same_outline_def split: json.splits)

lemma masker_same_event: "same_event d e \<Longrightarrow> sensitive_field_masker d = sensitive_field_masker e"
  unfolding same_event_def sensitive_field_masker_def
  by (induction rule: list_all2_induct) (auto dest: mask_field_indistinct)

lemma same_event_dict_set: "same_event d e \<Longrightarrow> same_event (dict_set k v d) (dict_set k v e)"
  unfolding same_event_def by (induction rule: list_all2_induct) auto

lemma same_event_append: "same_event d e \<Longrightarrow> same_event (d @ [(k, v)]) (e @ [(k, v)])"
  unfolding same_event_def by (simp add: list_all2_appendI)

lemma same_event_present: "same_event d e \<Longrightarrow> (map_of d k = None) = (map_of e k = None)"
  unfolding same_event_def by (induction rule: list_all2_induct) auto

lemma enricher_same_event:
  "same_event d e \<Longrightarrow> same_event (context_enricher trace d) (context_enricher trace e)"
  by (auto simp: context_enricher_def Let_def same_event_present
      intro: same_event_dict_set same_event_append split: option.splits)

text \<open>A run of the pattern over a text that begins with one of the marked tokens.\<close>

definition ends_token :: "string \<Rightarrow> bool" where
  "ends_token rest = (rest = [] \<or> is_space (hd rest))"

definition plain_token :: "string \<Rightarrow> bool" where
  "plain_token s = (s \<noteq> [] \<and> list_all (\<lambda>c. \<not> is_space c) s)"

lemma dropWhile_token:
  "list_all (\<lambda>c. \<not> is_space c) s \<Longrightarrow> ends_token rest \<Longrightarrow>
     dropWhile (\<lambda>c. \<not> is_space c) (s @ rest) = rest"
  by (induction s) (auto simp: ends_token_def dropWhile_eq_self_iff)

lemma secret_after_token:
  assumes "plain_token s" "ends_token rest"
  shows "secret_after g (s @ rest) = Some (g, rest)"
    and "is_space c \<Longrightarrow> secret_after g (c # s @ rest) = Some (g @ [c], rest)"
proof -
  obtain x t where s: "s = x # t" "\<not> is_space x" "list_all (\<lambda>c. \<not> is_space c) t"
    using assms(1) by (cases s) (auto simp: plain_token_def)
  show "secret_after g (s @ rest) = Some (g, rest)"
    using s assms(2) by (simp add: secret_after_def dropWhile_token)
  show "is_space c \<Longrightarrow> secret_after g (c # s @ rest) = Some (g @ [c], rest)"
    using s assms(2) by (simp add: secret_after_def dropWhile_token)
qed

lemma sub_pattern_match: "match_pattern s = Some (m, r) \<Longrightarrow> sub_pattern s = m @ REDACTED @ sub_pattern r"
proof -
  assume m: "match_pattern s = Some (m, r)"
  then obtain c t where "s = c # t" using match_pattern_shorter [OF m] by (cases s) auto
  then show ?thesis using m by simp
qed

text \<open>The letters of the markers.\<close>

lemma marker_letters:
  "lower_char CHR ''B'' = CHR ''b''"
  "lower_char CHR ''a'' = CHR ''a''"
  "lower_char CHR ''e'' = CHR ''e''"
  "lower_char CHR ''i'' = CHR ''i''"
  "lower_char CHR ''k'' = CHR ''k''"
  "lower_char CHR ''n'' = CHR ''n''"
  "lower_char CHR ''o'' = CHR ''o''"
  "lower_char CHR ''p'' = CHR ''p''"
  "lower_char CHR ''r'' = CHR ''r''"
  "lower_char CHR ''t'' = CHR ''t''"
  "lower_char CHR ''y'' = CHR ''y''"
  "is_space (CHR '' '')"
  by code_simp+

lemma bearer_match:
  "plain_token s \<Longrightarrow> ends_token rest \<Longrightarrow>
     match_pattern (''Bearer '' @ s @ rest) = Some (''Bearer '', rest)"
  by (simp add: match_pattern_def match_bearer_def secret_after_token marker_letters)

lemma token_match:
  "plain_token s \<Longrightarrow> ends_token rest \<Longrightarrow>
     match_pattern (''token='' @ s @ rest) = Some (''token='', rest)"
  by (simp add: match_pattern_def match_bearer_def match_token_def after_separator_def
      secret_after_token marker_letters)

lemma api_key_match:
  "plain_token s \<Longrightarrow> ends_token rest \<Longrightarrow>
     match_pattern (''api_key='' @ s @ rest) = Some (''api_key='', rest)"
  by (simp add: match_pattern_def match_bearer_def match_token_def match_api_key_def match_key_def
      after_separator_def secret_after_token marker_letters)

section \<open>Properties\<close>

text \<open>The masker hides what it promises to hide.  Two events that agree except under the sensitive
  names, and under the personal names except between the first two and the last two letters, give
  the same log entry, whatever the trace.
\<close>

theorem masked_logs_hide_secrets:
  assumes "same_event d e"
  shows "log_processors trace d = log_processors trace e"
  using assms by (auto simp: log_processors_def intro: masker_same_event enricher_same_event)

theorem masked_logs_hide_secrets_witness:
  "log_processors (Some (''0a'', ''0b''))
       [(''event'', JStr ''login''), (''Password'', JStr ''hunter2''), (''email'', JStr ''ann@example.com'')] =
     log_processors (Some (''0a'', ''0b''))
       [(''event'', JStr ''login''), (''Password'', JNull), (''email'', JStr ''and@exam.com'')]"
  by (rule masked_logs_hide_secrets) code_simp

text \<open>
  Tokens inside other texts are redacted one by one: a marked token is replaced up to the next
  white space and the rest is treated the same way.  The replacement takes the word that follows the
  marker, so in the usual form of a header field after the word token the scheme is hidden and the
  secret itself stays in the log.
\<close>

theorem embedded_tokens_redacted:
  assumes "plain_token s" "ends_token rest"
  shows "sub_pattern (''Bearer '' @ s @ rest) = ''Bearer '' @ REDACTED @ sub_pattern rest \<and>
         sub_pattern (''token='' @ s @ rest) = ''token='' @ REDACTED @ sub_pattern rest \<and>
         sub_pattern (''api_key='' @ s @ rest) = ''api_key='' @ REDACTED @ sub_pattern rest \<and>
         sub_pattern ''token: Bearer abc123'' = ''token: ***REDACTED*** abc123''"
proof -
  have "sub_pattern ''token: Bearer abc123'' = ''token: ***REDACTED*** abc123''" by code_simp
  then show ?thesis
    using sub_pattern_match [OF bearer_match [OF assms]] sub_pattern_match [OF token_match [OF assms]]
      sub_pattern_match [OF api_key_match [OF assms]]
    by blast
qed

theorem embedded_tokens_redacted_witness:
  "sub_pattern ''Bearer abc.def and more'' = ''Bearer ***REDACTED*** and more''"
proof -
  have "plain_token ''abc.def''" "ends_token '' and more''" by code_simp+
  then have "sub_pattern (''Bearer '' @ ''abc.def'' @ '' and more'') =
      ''Bearer '' @ REDACTED @ sub_pattern '' and more''"
    using embedded_tokens_redacted by blast
  moreover have "sub_pattern '' and more'' = '' and more''" by code_simp
  ultimately show ?thesis by (simp add: REDACTED_def del: sub_pattern.simps)
qed

end
