(* ===== verification/LogSetup.thy ===== *)
theory LogSetup
  imports LogMasking Config
begin

section \<open>Setting up the log (\<open>configure_logging\<close> of \<open>observability/logging.py\<close>)\<close>

text \<open>
  What the set-up leaves in the standard library (the handlers and the level of the root logger, the
  levels of single loggers) and in structlog (the processors in their order). The processors of
  structlog are a library: \<open>lib\<close> gives what each does to an event that is not dropped on the way
  and so is rendered at the end.
\<close>

subsection \<open>The standard library\<close>

text \<open>The attributes of the module \<open>logging\<close> whose names are all capitals: the levels, a format
  string and a private table.\<close>

datatype logging_attr = Level nat | Format_text | Style_table

definition logging_attrs :: "(string \<times> logging_attr) list" where
  "logging_attrs =
     [(''CRITICAL'', Level 50), (''FATAL'', Level 50), (''ERROR'', Level 40), (''WARNING'', Level 30),
      (''WARN'', Level 30), (''INFO'', Level 20), (''DEBUG'', Level 10), (''NOTSET'', Level 0),
      (''BASIC_FORMAT'', Format_text), (''_STYLES'', Style_table)]"

text \<open>\<open>getattr(logging, log_level.upper(), logging.INFO)\<close>\<close>

definition chosen_level :: "string \<Rightarrow> logging_attr" where
  "chosen_level lvl =
     (case map_of logging_attrs (str_upper lvl) of Some a \<Rightarrow> a | None \<Rightarrow> Level 20)"

datatype log_processor =
    Merge_contextvars | Filter_by_level | Add_logger_name | Add_log_level | Positional_arguments
  | Time_stamper string | Context_enricher | Sensitive_masker | Stack_info | Unicode_decoder
  | Format_exc_info | Json_renderer | Console_renderer

record structlog_config =
  sc_processors :: "log_processor list"
  sc_cache_logger :: bool

record log_state =
  ls_handlers :: nat
  ls_root_level :: nat
  ls_levels :: "string \<Rightarrow> nat"
  ls_structlog :: "structlog_config option"

text \<open>\<open>basicConfig\<close> does nothing when the root logger has handlers; otherwise it adds one and then
  sets the level, which refuses a text that is no level name and what is neither a number nor a text.\<close>

definition basic_config :: "logging_attr \<Rightarrow> log_state \<Rightarrow> (log_state, unit) outcome" where
  "basic_config lvl st =
     (if 0 < ls_handlers st then (Inr (), st)
      else let st1 = st\<lparr>ls_handlers := 1\<rparr>
           in case lvl of
                Level n \<Rightarrow> (Inr (), st1\<lparr>ls_root_level := n\<rparr>)
              | Format_text \<Rightarrow> (Inl (ValueError ''Unknown level''), st1)
              | Style_table \<Rightarrow> (Inl (TypeError ''Level not an integer or a valid string''), st1))"

definition noisy_loggers :: "string list" where
  "noisy_loggers = [''uvicorn.access'', ''sqlalchemy.engine'', ''celery.worker'']"

definition quieten :: "log_state \<Rightarrow> log_state" where
  "quieten st = fold (\<lambda>n s. s\<lparr>ls_levels := (ls_levels s)(n := 30)\<rparr>) noisy_loggers st"

definition base_processors :: "log_processor list" where
  "base_processors = [Merge_contextvars, Filter_by_level, Add_logger_name, Add_log_level,
     Positional_arguments, Time_stamper ''iso'', Context_enricher, Sensitive_masker, Stack_info,
     Unicode_decoder, Format_exc_info]"

definition configured_processors :: "string \<Rightarrow> log_processor list" where
  "configured_processors fmt =
     base_processors @ [if fmt = ''json'' then Json_renderer else Console_renderer]"

definition configure_logging :: "string \<Rightarrow> string \<Rightarrow> string \<Rightarrow> log_state \<Rightarrow> (log_state, unit) outcome" where
  "configure_logging lvl fmt service_name st =
     (case basic_config (chosen_level lvl) st of
        (Inl e, st1) \<Rightarrow> (Inl e, st1)
      | (Inr _, st1) \<Rightarrow>
          (Inr (), (quieten st1)\<lparr>ls_structlog :=
             Some \<lparr>sc_processors = configured_processors fmt, sc_cache_logger = True\<rparr>\<rparr>))"

text \<open>The first statements of \<open>create_app\<close>.\<close>

definition configure_app_logging :: "settings \<Rightarrow> log_state \<Rightarrow> (log_state, unit) outcome" where
  "configure_app_logging s = configure_logging (log_level s) (log_format s) (otel_service_name s)"

subsection \<open>Which records pass\<close>

text \<open>The effective level: that of the nearest ancestor, by dotted names, with a level of its own,
  and of the root at last.\<close>

fun ancestors :: "string list \<Rightarrow> string list" where
  "ancestors [] = []"
| "ancestors (p # ps) = ancestors ps @ [join_with ''.'' (rev (p # ps))]"

definition logger_chain :: "string \<Rightarrow> string list" where
  "logger_chain n = rev (ancestors (rev (split_on CHR ''.'' n)))"

fun first_level :: "(string \<Rightarrow> nat) \<Rightarrow> string list \<Rightarrow> nat \<Rightarrow> nat" where
  "first_level lv [] r = r"
| "first_level lv (n # ns) r = (if lv n \<noteq> 0 then lv n else first_level lv ns r)"

definition effective_level :: "log_state \<Rightarrow> string \<Rightarrow> nat" where
  "effective_level st n = first_level (ls_levels st) (logger_chain n) (ls_root_level st)"

definition passes :: "log_state \<Rightarrow> string \<Rightarrow> nat \<Rightarrow> bool" where
  "passes st n lvl \<longleftrightarrow> effective_level st n \<le> lvl"

subsection \<open>An event on its way to the renderer\<close>

type_synonym event = "(string \<times> json) list"

definition apply_processor :: "(log_processor \<Rightarrow> event \<Rightarrow> event) \<Rightarrow> (string \<times> string) option \<Rightarrow> log_processor
    \<Rightarrow> event \<Rightarrow> event" where
  "apply_processor lib trace p e =
     (case p of Context_enricher \<Rightarrow> context_enricher trace e
      | Sensitive_masker \<Rightarrow> sensitive_field_masker e
      | _ \<Rightarrow> lib p e)"

definition log_line :: "(log_processor \<Rightarrow> event \<Rightarrow> event) \<Rightarrow> (string \<times> string) option \<Rightarrow> log_processor list
    \<Rightarrow> event \<Rightarrow> event" where
  "log_line lib trace ps e = fold (apply_processor lib trace) ps e"

lemma log_line_configured:
  "log_line lib trace (configured_processors fmt) e =
     lib (if fmt = ''json'' then Json_renderer else Console_renderer)
      (lib Format_exc_info (lib Unicode_decoder (lib Stack_info
        (log_processors trace
          (lib (Time_stamper ''iso'') (lib Positional_arguments (lib Add_log_level (lib Add_logger_name
            (lib Filter_by_level (lib Merge_contextvars e))))))))))"
  by (simp add: log_line_def configured_processors_def base_processors_def apply_processor_def log_processors_def)

subsection \<open>Properties\<close>

text \<open>
  In a process whose root logger has no handler the set-up fails for exactly two settings, the two
  attributes of the module that are no levels; an unknown level is silently taken for INFO. When it
  succeeds the root has the level, the noisy loggers let nothing below WARNING pass, every other
  logger outside their names is at the level of the root, and the processors are the configured ones.
  A second set-up changes no level.
\<close>

definition bad_levels :: "string list" where
  "bad_levels = [''BASIC_FORMAT'', ''_STYLES'']"

definition level_number :: "string \<Rightarrow> nat" where
  "level_number lvl = (case chosen_level lvl of Level n \<Rightarrow> n | _ \<Rightarrow> 20)"

definition fresh_log_state :: log_state where
  "fresh_log_state = \<lparr>ls_handlers = 0, ls_root_level = 30, ls_levels = (\<lambda>_. 0), ls_structlog = None\<rparr>"

lemma chosen_level_bad:
  "(\<exists>n. chosen_level lvl = Level n) \<longleftrightarrow> str_upper lvl \<notin> set bad_levels"
  by (auto simp: chosen_level_def logging_attrs_def bad_levels_def)

lemma first_level_other:
  "list_all (\<lambda>n. lv n = 0) ns \<Longrightarrow> first_level lv ns r = r"
  by (induction ns) auto

lemma quieten_levels: "ls_levels (quieten st) n = (if n \<in> set noisy_loggers then 30 else ls_levels st n)"
  "ls_root_level (quieten st) = ls_root_level st" "ls_handlers (quieten st) = ls_handlers st"
  by (simp_all add: quieten_def noisy_loggers_def)

lemma chain_of_noisy: "n \<in> set noisy_loggers \<Longrightarrow> \<exists>ns. logger_chain n = n # ns"
proof -
  have "logger_chain ''uvicorn.access'' = [''uvicorn.access'', ''uvicorn'']"
    "logger_chain ''sqlalchemy.engine'' = [''sqlalchemy.engine'', ''sqlalchemy'']"
    "logger_chain ''celery.worker'' = [''celery.worker'', ''celery'']"
    by code_simp+
  then show "n \<in> set noisy_loggers \<Longrightarrow> \<exists>ns. logger_chain n = n # ns" by (auto simp: noisy_loggers_def)
qed

theorem logging_setup_outcome:
  "is_ok (fst (configure_logging lvl fmt svc fresh_log_state)) = (str_upper lvl \<notin> set bad_levels)
   \<and> (str_upper lvl \<notin> set bad_levels \<longrightarrow>
      (\<forall>n \<in> set noisy_loggers. \<forall>v. passes (snd (configure_logging lvl fmt svc fresh_log_state)) n v \<longleftrightarrow> 30 \<le> v)
      \<and> (\<forall>n v. set (logger_chain n) \<inter> set noisy_loggers = {} \<longrightarrow>
           (passes (snd (configure_logging lvl fmt svc fresh_log_state)) n v \<longleftrightarrow> level_number lvl \<le> v))
      \<and> map_option sc_processors (ls_structlog (snd (configure_logging lvl fmt svc fresh_log_state))) =
           Some (configured_processors fmt))
   \<and> ls_root_level (snd (configure_logging lvl' fmt' svc' (snd (configure_logging lvl fmt svc fresh_log_state)))) =
        ls_root_level (snd (configure_logging lvl fmt svc fresh_log_state))"
proof -
  let ?st = "snd (configure_logging lvl fmt svc fresh_log_state)"
  have out: "is_ok (fst (configure_logging lvl fmt svc fresh_log_state)) = (str_upper lvl \<notin> set bad_levels)"
    unfolding chosen_level_bad [symmetric]
    by (cases "chosen_level lvl")
      (simp_all add: configure_logging_def basic_config_def fresh_log_state_def Let_def)
  have handlers: "ls_handlers ?st = 1"
    by (cases "chosen_level lvl")
      (simp_all add: configure_logging_def basic_config_def fresh_log_state_def Let_def quieten_levels)
  then have again: "ls_root_level (snd (configure_logging lvl' fmt' svc' ?st)) = ls_root_level ?st"
    unfolding configure_logging_def [of lvl' fmt' svc' ?st] by (simp add: basic_config_def quieten_levels)
  have ok: "(\<forall>n \<in> set noisy_loggers. \<forall>v. passes ?st n v \<longleftrightarrow> 30 \<le> v)
      \<and> (\<forall>n v. set (logger_chain n) \<inter> set noisy_loggers = {} \<longrightarrow> (passes ?st n v \<longleftrightarrow> level_number lvl \<le> v))
      \<and> map_option sc_processors (ls_structlog ?st) = Some (configured_processors fmt)"
    if bad: "str_upper lvl \<notin> set bad_levels"
  proof -
    from bad obtain k where k: "chosen_level lvl = Level k" using chosen_level_bad by blast
    then have st: "ls_levels ?st = (\<lambda>n. if n \<in> set noisy_loggers then 30 else 0)" "ls_root_level ?st = k"
      "map_option sc_processors (ls_structlog ?st) = Some (configured_processors fmt)"
      by (simp_all add: configure_logging_def basic_config_def fresh_log_state_def Let_def quieten_levels fun_eq_iff)
    have "first_level (ls_levels ?st) (logger_chain n) k = 30" if "n \<in> set noisy_loggers" for n
      using chain_of_noisy [OF that] that by (auto simp: st)
    moreover have "first_level (ls_levels ?st) (logger_chain n) k = k"
      if "set (logger_chain n) \<inter> set noisy_loggers = {}" for n
      using that by (intro first_level_other) (auto simp: st list_all_iff)
    ultimately show ?thesis
      using st k by (simp add: passes_def effective_level_def level_number_def)
  qed
  show ?thesis using out again ok by blast
qed

text \<open>An event as it arrives at the enricher.\<close>

definition at_enricher :: "(log_processor \<Rightarrow> event \<Rightarrow> event) \<Rightarrow> event \<Rightarrow> event" where
  "at_enricher lib e = fold lib (takeWhile (\<lambda>p. p \<noteq> Context_enricher) base_processors) e"

text \<open>
  C34: Secrets in the fields of an event do not reach the renderer: two events that agree except in
  what the masker hides when they arrive at the enricher give the same line, whatever the processors
  of the library do before and after.
\<close>

theorem log_lines_hide_secrets:
  assumes "same_event (at_enricher lib d) (at_enricher lib e)"
  shows "log_line lib trace (configured_processors fmt) d = log_line lib trace (configured_processors fmt) e"
proof -
  have "log_processors trace (at_enricher lib d) = log_processors trace (at_enricher lib e)"
    using assms by (auto simp: log_processors_def intro: masker_same_event enricher_same_event)
  then show ?thesis by (simp add: log_line_configured at_enricher_def base_processors_def)
qed

text \<open>
  The text of an exception is put into the event after the masker has run: with a library whose
  processors keep the exception and write its text under its name, the renderer gets the text as it
  is, whatever secrets it holds.
\<close>

theorem exception_text_not_masked:
  assumes "\<And>d. lib Format_exc_info d = dict_set ''exception'' (JStr txt) d"
  shows "\<exists>d. log_line lib trace (configured_processors fmt) e =
      lib (if fmt = ''json'' then Json_renderer else Console_renderer) d
    \<and> map_of d ''exception'' = Some (JStr txt)"
proof -
  have "map_of (dict_set k v d) k = Some v" for k v d by (induction k v d rule: dict_set.induct) auto
  then show ?thesis unfolding log_line_configured assms by blast
qed

subsection \<open>Witnesses\<close>

definition sample_lib :: "log_processor \<Rightarrow> event \<Rightarrow> event" where
  "sample_lib p e = (case p of
     Add_log_level \<Rightarrow> dict_set ''level'' (JStr ''info'') e
   | Format_exc_info \<Rightarrow> dict_set ''exception'' (JStr ''Bearer abc'') e
   | _ \<Rightarrow> e)"

theorem logging_setup_outcome_witness:
  "passes (snd (configure_logging ''debug'' ''json'' ''api'' fresh_log_state)) ''src.main'' 10
   \<and> \<not> passes (snd (configure_logging ''debug'' ''json'' ''api'' fresh_log_state)) ''uvicorn.access'' 20
   \<and> \<not> is_ok (fst (configure_logging ''basic_format'' ''json'' ''api'' fresh_log_state))"
proof -
  have u: "str_upper ''debug'' = ''DEBUG''" "str_upper ''basic_format'' = ''BASIC_FORMAT''" by code_simp+
  have c: "set (logger_chain ''src.main'') \<inter> set noisy_loggers = {}" by code_simp
  have "str_upper ''debug'' \<notin> set bad_levels" "str_upper ''basic_format'' \<in> set bad_levels"
    unfolding u by (simp_all add: bad_levels_def)
  moreover have "level_number ''debug'' = 10" by (simp add: level_number_def chosen_level_def u logging_attrs_def)
  moreover have "''uvicorn.access'' \<in> set noisy_loggers" by (simp add: noisy_loggers_def)
  ultimately show ?thesis
    using logging_setup_outcome [of "''debug''" "''json''" "''api''"]
      logging_setup_outcome [of "''basic_format''" "''json''" "''api''"] c by auto
qed

theorem log_lines_hide_secrets_witness:
  "log_line sample_lib None (configured_processors ''json'') [(''password'', JStr ''a'')] =
   log_line sample_lib None (configured_processors ''json'') [(''password'', JStr ''b'')]"
  by (rule log_lines_hide_secrets) code_simp

theorem exception_text_not_masked_witness:
  "\<exists>d. log_line sample_lib None (configured_processors ''json'') [] = sample_lib Json_renderer d
    \<and> map_of d ''exception'' = Some (JStr ''Bearer abc'')"
  using exception_text_not_masked [of sample_lib "''Bearer abc''" None "''json''" "[]"]
  by (simp add: sample_lib_def)

end
