(* ===== verification/RoleOrder.thy ===== *)
theory RoleOrder
  imports Security
begin

section \<open>The orders of the roles (\<open>security.py\<close>, \<open>models/user.py\<close>)\<close>

text \<open>
  Each of the two role enumerations comes with a hierarchy, a dictionary of levels. Both hierarchies
  are linear orders and are declared as instances of the class, so that the lemmas of the library on
  orders apply to them; the permission check is compared with them.
\<close>

subsection \<open>The two instances\<close>

definition role_level :: "role \<Rightarrow> int" where
  "role_level r = dict_get ROLE_HIERARCHY (SecRole r) 0"

definition user_role_level :: "user_role \<Rightarrow> int" where
  "user_role_level r = dict_get USER_ROLE_HIERARCHY (ModelRole r) 0"

lemma role_level_simps [simp]: "role_level VIEWER = 1" "role_level MEMBER = 2" "role_level ADMIN = 3"
  by (simp_all add: role_level_def dict_get_hierarchy)

lemma user_role_level_simps [simp]:
  "user_role_level UR_VIEWER = 1" "user_role_level UR_JUDGE = 2" "user_role_level UR_ADMIN = 3"
  by (simp_all add: user_role_level_def dict_get_def USER_ROLE_HIERARCHY_def same_key_def)

lemma role_level_inj: "role_level a = role_level b \<Longrightarrow> a = b"
  by (cases a; cases b) simp_all

lemma user_role_level_inj: "user_role_level a = user_role_level b \<Longrightarrow> a = b"
  by (cases a; cases b) simp_all

instantiation role :: linorder
begin

definition less_eq_role :: "role \<Rightarrow> role \<Rightarrow> bool" where
  "less_eq_role a b \<longleftrightarrow> role_level a \<le> role_level b"

definition less_role :: "role \<Rightarrow> role \<Rightarrow> bool" where
  "less_role a b \<longleftrightarrow> role_level a < role_level b"

instance
  by standard (auto simp: less_eq_role_def less_role_def role_level_inj)

end

instantiation user_role :: linorder
begin

definition less_eq_user_role :: "user_role \<Rightarrow> user_role \<Rightarrow> bool" where
  "less_eq_user_role a b \<longleftrightarrow> user_role_level a \<le> user_role_level b"

definition less_user_role :: "user_role \<Rightarrow> user_role \<Rightarrow> bool" where
  "less_user_role a b \<longleftrightarrow> user_role_level a < user_role_level b"

instance
  by standard (auto simp: less_eq_user_role_def less_user_role_def user_role_level_inj)

end

subsection \<open>What a role may do\<close>

definition permitted :: "user_role \<Rightarrow> role set" where
  "permitted u = {r. has_permission (ModelRole u) (SecRole r)}"

lemma permitted_eq: "permitted UR_ADMIN = UNIV" "permitted UR_VIEWER = {VIEWER}" "permitted UR_JUDGE = {}"
proof -
  have "r \<in> permitted u \<longleftrightarrow> role_level r \<le> dict_get ROLE_HIERARCHY (ModelRole u) 0" for u r
    by (simp add: permitted_def has_permission_def role_level_def)
  then have "r \<in> permitted UR_ADMIN" "r \<in> permitted UR_VIEWER \<longleftrightarrow> r = VIEWER" "r \<notin> permitted UR_JUDGE" for r
    by (cases r; simp add: dict_get_hierarchy)+
  then show "permitted UR_ADMIN = UNIV" "permitted UR_VIEWER = {VIEWER}" "permitted UR_JUDGE = {}" by auto
qed

text \<open>
  Within its own enumeration the permission check is the order of the roles, and what a role may do
  is downward closed. For the roles of the database it does not respect their order: raising a viewer
  to a judge, the next role up, takes every permission away, and only the step to administrator gives
  them back.
\<close>

theorem permissions_and_orders:
  "(has_permission (SecRole a) (SecRole b) \<longleftrightarrow> b \<le> a)
   \<and> (b \<le> a \<longrightarrow> a \<in> permitted u \<longrightarrow> b \<in> permitted u)
   \<and> UR_VIEWER < UR_JUDGE \<and> permitted UR_JUDGE \<subset> permitted UR_VIEWER
   \<and> \<not> mono permitted"
proof -
  have 1: "has_permission (SecRole a) (SecRole b) \<longleftrightarrow> b \<le> a"
    by (simp add: has_permission_def less_eq_role_def role_level_def)
  have 2: "b \<le> a \<longrightarrow> a \<in> permitted u \<longrightarrow> b \<in> permitted u"
    by (auto simp: permitted_def has_permission_def less_eq_role_def role_level_def)
  have 3: "UR_VIEWER < UR_JUDGE" "permitted UR_JUDGE \<subset> permitted UR_VIEWER"
    by (auto simp: less_user_role_def permitted_eq)
  have "\<not> mono permitted"
  proof
    assume "mono permitted"
    from monoD [OF this less_imp_le [OF 3(1)]] 3(2) show False by blast
  qed
  with 1 2 3 show ?thesis by blast
qed

end
