(* ===== verification/Schema.thy ===== *)
theory Schema
  imports AuditTrail Scoring
begin

section \<open>The database schema (\<open>alembic/versions\<close>, \<open>models/\<close>)\<close>

text \<open>
  The catalog of a PostgreSQL database, the statements the migrations execute on it, the three
  migrations in their order, and the tables the ORM classes declare. A statement fails as
  PostgreSQL documents: an object must not exist twice, must exist when it is used, and cannot
  be dropped while another object depends on it. Defaults are kept as their SQL text.
\<close>

subsection \<open>Catalog and statements\<close>

datatype col_type = Uuid | Varchar nat | Text_type | Enum_type string | Integer_type | Big_integer
  | Jsonb | Timestamptz | Float_type | Boolean_type

datatype column = Column (col_name: string) (col_type: col_type) (nullable: bool)
  (server_default: "string option")

datatype foreign_key = Fk (fk_column: string) (fk_table: string) (on_delete: string)

datatype table_def = Table (tb_name: string) (tb_columns: "column list") (tb_fks: "foreign_key list")
  (tb_checks: "string list")

datatype index_def = Index (ix_name: string) (ix_table: string) (ix_columns: "string list")
  (ix_unique: bool) (ix_where: string)

datatype view_def = View (vw_name: string) (vw_columns: "string list") (vw_tables: "string list")

datatype ddl = Create_type string "string list" | Drop_type string
  | Create_table table_def | Drop_table string
  | Create_index index_def | Drop_index string
  | Add_column string column | Drop_column string string
  | Alter_default string string "string option"
  | Add_fk string foreign_key | Drop_constraint "string option"
  | Create_function string | Drop_function string
  | Create_trigger string string string | Drop_trigger string string
  | Enable_rls string | Disable_rls string | Create_policy string string | Drop_policy string string
  | Create_view view_def | Drop_view string

record catalog =
  ct_types :: "(string \<times> string list) list"
  ct_tables :: "table_def list"
  ct_indexes :: "index_def list"
  ct_functions :: "string list"
  ct_triggers :: "(string \<times> string \<times> string) list"
  ct_rls :: "string list"
  ct_policies :: "(string \<times> string) list"
  ct_views :: "view_def list"

definition empty_catalog :: catalog where
  "empty_catalog = \<lparr>ct_types = [], ct_tables = [], ct_indexes = [], ct_functions = [],
     ct_triggers = [], ct_rls = [], ct_policies = [], ct_views = []\<rparr>"

definition find_table :: "string \<Rightarrow> catalog \<Rightarrow> table_def option" where
  "find_table n c = find (\<lambda>t. tb_name t = n) (ct_tables c)"

definition has_table :: "string \<Rightarrow> catalog \<Rightarrow> bool" where
  "has_table n c = list_ex (\<lambda>t. tb_name t = n) (ct_tables c)"

definition find_column :: "string \<Rightarrow> table_def \<Rightarrow> column option" where
  "find_column n t = find (\<lambda>k. col_name k = n) (tb_columns t)"

text \<open>The columns of a table or of a materialized view, which may be indexed as well.\<close>

definition relation_columns :: "string \<Rightarrow> catalog \<Rightarrow> string list" where
  "relation_columns n c = (case find_table n c of
     Some t \<Rightarrow> map col_name (tb_columns t)
   | None \<Rightarrow> (case find (\<lambda>v. vw_name v = n) (ct_views c) of Some v \<Rightarrow> vw_columns v | None \<Rightarrow> []))"

definition type_known :: "catalog \<Rightarrow> column \<Rightarrow> bool" where
  "type_known c k = (case col_type k of Enum_type e \<Rightarrow> map_of (ct_types c) e \<noteq> None | _ \<Rightarrow> True)"

definition refuse :: "string \<Rightarrow> exn + 'a" where
  "refuse msg = Inl (ExternalError msg)"

definition map_table :: "string \<Rightarrow> (table_def \<Rightarrow> table_def) \<Rightarrow> catalog \<Rightarrow> catalog" where
  "map_table n f c = c\<lparr>ct_tables := map (\<lambda>t. if tb_name t = n then f t else t) (ct_tables c)\<rparr>"

fun set_columns :: "(column list \<Rightarrow> column list) \<Rightarrow> table_def \<Rightarrow> table_def" where
  "set_columns f (Table n ks fs cs) = Table n (f ks) fs cs"

fun set_fks :: "(foreign_key list \<Rightarrow> foreign_key list) \<Rightarrow> table_def \<Rightarrow> table_def" where
  "set_fks f (Table n ks fs cs) = Table n ks (f fs) cs"

definition set_default :: "string \<Rightarrow> string option \<Rightarrow> table_def \<Rightarrow> table_def" where
  "set_default m d = set_columns (map (\<lambda>k. if col_name k = m
     then Column m (col_type k) (nullable k) d else k))"

text \<open>\<open>ENUM.create(checkfirst=True)\<close> skips a type that exists; \<open>CREATE OR REPLACE\<close> and
  \<open>DROP ... IF EXISTS\<close> are silent as well. Alembic cannot drop a constraint without a name.\<close>

fun exec_ddl :: "ddl \<Rightarrow> catalog \<Rightarrow> exn + catalog" where
  "exec_ddl (Create_type n ls) c =
     Inr (if map_of (ct_types c) n \<noteq> None then c else c\<lparr>ct_types := ct_types c @ [(n, ls)]\<rparr>)"
| "exec_ddl (Drop_type n) c =
     (if list_ex (\<lambda>t. list_ex (\<lambda>k. col_type k = Enum_type n) (tb_columns t)) (ct_tables c)
      then refuse ''type is in use'' else Inr (c\<lparr>ct_types := filter (\<lambda>(m, _). m \<noteq> n) (ct_types c)\<rparr>))"
| "exec_ddl (Create_table t) c =
     (if has_table (tb_name t) c then refuse ''table exists''
      else if \<not> list_all (type_known c) (tb_columns t) then refuse ''type does not exist''
      else if \<not> list_all (\<lambda>f. has_table (fk_table f) c) (tb_fks t) then refuse ''referenced table does not exist''
      else Inr (c\<lparr>ct_tables := ct_tables c @ [t]\<rparr>))"
| "exec_ddl (Drop_table n) c =
     (if \<not> has_table n c then refuse ''table does not exist''
      else if list_ex (\<lambda>t. tb_name t \<noteq> n \<and> list_ex (\<lambda>f. fk_table f = n) (tb_fks t)) (ct_tables c)
        \<or> list_ex (\<lambda>v. list_ex (\<lambda>m. m = n) (vw_tables v)) (ct_views c) then refuse ''table is in use''
      else Inr (c\<lparr>ct_tables := filter (\<lambda>t. tb_name t \<noteq> n) (ct_tables c),
                  ct_indexes := filter (\<lambda>i. ix_table i \<noteq> n) (ct_indexes c),
                  ct_triggers := filter (\<lambda>(_, m, _). m \<noteq> n) (ct_triggers c),
                  ct_rls := filter (\<lambda>m. m \<noteq> n) (ct_rls c),
                  ct_policies := filter (\<lambda>(_, m). m \<noteq> n) (ct_policies c)\<rparr>))"
| "exec_ddl (Create_index i) c =
     (if list_ex (\<lambda>j. ix_name j = ix_name i) (ct_indexes c) then refuse ''index exists''
      else if \<not> list_all (\<lambda>k. list_ex (\<lambda>m. m = k) (relation_columns (ix_table i) c)) (ix_columns i)
      then refuse ''column does not exist''
      else Inr (c\<lparr>ct_indexes := ct_indexes c @ [i]\<rparr>))"
| "exec_ddl (Drop_index n) c =
     (if \<not> list_ex (\<lambda>j. ix_name j = n) (ct_indexes c) then refuse ''index does not exist''
      else Inr (c\<lparr>ct_indexes := filter (\<lambda>j. ix_name j \<noteq> n) (ct_indexes c)\<rparr>))"
| "exec_ddl (Add_column n k) c =
     (case find_table n c of None \<Rightarrow> refuse ''table does not exist''
      | Some t \<Rightarrow> if find_column (col_name k) t \<noteq> None then refuse ''column exists''
                  else Inr (map_table n (set_columns (\<lambda>ks. ks @ [k])) c))"
| "exec_ddl (Drop_column n m) c =
     (case find_table n c of None \<Rightarrow> refuse ''table does not exist''
      | Some t \<Rightarrow> if find_column m t = None then refuse ''column does not exist''
                  else Inr (map_table n (set_columns (filter (\<lambda>k. col_name k \<noteq> m))
                              \<circ> set_fks (filter (\<lambda>f. fk_column f \<noteq> m)))
                        (c\<lparr>ct_indexes := filter (\<lambda>i. \<not> (ix_table i = n \<and> m \<in> set (ix_columns i))) (ct_indexes c)\<rparr>)))"
| "exec_ddl (Alter_default n m d) c =
     (case find_table n c of None \<Rightarrow> refuse ''table does not exist''
      | Some t \<Rightarrow> if find_column m t = None then refuse ''column does not exist''
                  else Inr (map_table n (set_default m d) c))"
| "exec_ddl (Add_fk n f) c =
     (case find_table n c of None \<Rightarrow> refuse ''table does not exist''
      | Some t \<Rightarrow> if find_column (fk_column f) t = None then refuse ''column does not exist''
                  else if \<not> has_table (fk_table f) c then refuse ''referenced table does not exist''
                  else Inr (map_table n (set_fks (\<lambda>fs. fs @ [f])) c))"
| "exec_ddl (Drop_constraint None) c = refuse ''constraint has no name''"
| "exec_ddl (Drop_constraint (Some n)) c = refuse ''constraint does not exist''"
| "exec_ddl (Create_function n) c =
     Inr (if list_ex (\<lambda>m. m = n) (ct_functions c) then c else c\<lparr>ct_functions := ct_functions c @ [n]\<rparr>)"
| "exec_ddl (Drop_function n) c =
     (if list_ex (\<lambda>(_, _, f). f = n) (ct_triggers c) then refuse ''function is in use''
      else Inr (c\<lparr>ct_functions := filter (\<lambda>m. m \<noteq> n) (ct_functions c)\<rparr>))"
| "exec_ddl (Create_trigger n t f) c =
     (if list_ex (\<lambda>(m, u, _). m = n \<and> u = t) (ct_triggers c) then refuse ''trigger exists''
      else if \<not> has_table t c \<or> \<not> list_ex (\<lambda>m. m = f) (ct_functions c) then refuse ''object does not exist''
      else Inr (c\<lparr>ct_triggers := ct_triggers c @ [(n, t, f)]\<rparr>))"
| "exec_ddl (Drop_trigger n t) c =
     Inr (c\<lparr>ct_triggers := filter (\<lambda>(m, u, _). \<not> (m = n \<and> u = t)) (ct_triggers c)\<rparr>)"
| "exec_ddl (Enable_rls t) c =
     (if \<not> has_table t c then refuse ''table does not exist''
      else Inr (c\<lparr>ct_rls := filter (\<lambda>m. m \<noteq> t) (ct_rls c) @ [t]\<rparr>))"
| "exec_ddl (Disable_rls t) c =
     (if \<not> has_table t c then refuse ''table does not exist''
      else Inr (c\<lparr>ct_rls := filter (\<lambda>m. m \<noteq> t) (ct_rls c)\<rparr>))"
| "exec_ddl (Create_policy p t) c =
     (if list_ex (\<lambda>(q, u). q = p \<and> u = t) (ct_policies c) then refuse ''policy exists''
      else if \<not> has_table t c then refuse ''table does not exist''
      else Inr (c\<lparr>ct_policies := ct_policies c @ [(p, t)]\<rparr>))"
| "exec_ddl (Drop_policy p t) c =
     Inr (c\<lparr>ct_policies := filter (\<lambda>(q, u). \<not> (q = p \<and> u = t)) (ct_policies c)\<rparr>)"
| "exec_ddl (Create_view v) c =
     (if list_ex (\<lambda>w. vw_name w = vw_name v) (ct_views c) then refuse ''view exists''
      else if \<not> list_all (\<lambda>t. has_table t c) (vw_tables v) then refuse ''table does not exist''
      else Inr (c\<lparr>ct_views := ct_views c @ [v]\<rparr>))"
| "exec_ddl (Drop_view n) c =
     Inr (c\<lparr>ct_views := filter (\<lambda>v. vw_name v \<noteq> n) (ct_views c),
            ct_indexes := filter (\<lambda>i. ix_table i \<noteq> n) (ct_indexes c)\<rparr>)"

fun run_ddl :: "ddl list \<Rightarrow> catalog \<Rightarrow> exn + catalog" where
  "run_ddl [] c = Inr c"
| "run_ddl (d # ds) c = (case exec_ddl d c of Inl e \<Rightarrow> Inl e | Inr c' \<Rightarrow> run_ddl ds c')"

subsection \<open>Columns\<close>

definition req :: "string \<Rightarrow> col_type \<Rightarrow> column" where "req n t = Column n t False None"
definition opt :: "string \<Rightarrow> col_type \<Rightarrow> column" where "opt n t = Column n t True None"
definition dflt :: "string \<Rightarrow> col_type \<Rightarrow> string \<Rightarrow> column" where
  "dflt n t d = Column n t False (Some d)"

definition quoted :: "string \<Rightarrow> string" where "quoted s = [CHR 0x27] @ s @ [CHR 0x27]"

definition active_only :: string where "active_only = ''deleted_at IS NULL''"

definition timestamps :: "column list" where
  "timestamps = [dflt ''created_at'' Timestamptz ''NOW()'', dflt ''updated_at'' Timestamptz ''NOW()'',
     opt ''deleted_at'' Timestamptz]"

subsection \<open>Revision \<open>001_initial_schema\<close>\<close>

definition create_with_indexes :: "table_def \<Rightarrow> index_def list \<Rightarrow> ddl list" where
  "create_with_indexes t ixs = Create_table t # map Create_index ixs"

definition enum_types :: "(string \<times> string list) list" where
  "enum_types = [
     (''plan_tier'', [''free'', ''pro'', ''enterprise'']),
     (''user_role'', [''admin'', ''judge'', ''viewer'']),
     (''submission_status'', [''draft'', ''submitted'', ''under_review'', ''evaluated'', ''archived'']),
     (''run_status'', [''pending'', ''running'', ''completed'', ''failed'', ''cancelled'']),
     (''worker_status'', [''pending'', ''running'', ''completed'', ''failed'']),
     (''audit_action'', [''create'', ''read'', ''update'', ''delete'', ''login'', ''logout'',
       ''login_failed'', ''submission_created'', ''submission_updated'', ''evaluation_started'',
       ''evaluation_completed'', ''evaluation_failed'', ''evaluation_cancelled'', ''claim_extracted'',
       ''contradiction_detected'', ''score_recorded'', ''settings_changed''])]"


definition upgrade_enums :: "ddl list" where
  "upgrade_enums = map (\<lambda>(n, ls). Create_type n ls) enum_types"

definition organizations_table :: table_def where
  "organizations_table = Table ''organizations''
     ([
      req ''id'' Uuid, req ''name'' (Varchar 255), req ''slug'' (Varchar 63),
      dflt ''plan_tier'' (Enum_type ''plan_tier'') ''free'',
      dflt ''rate_limit_per_minute'' Integer_type ''100'',
      dflt ''max_concurrent_evaluations'' Integer_type ''10'', dflt ''settings'' Jsonb ''{}''] @ timestamps)
     []
     []"

definition organizations_indexes :: "index_def list" where
  "organizations_indexes = [
     Index ''ix_organizations_slug_active'' ''organizations'' [''slug''] True active_only]"

definition users_table :: table_def where
  "users_table = Table ''users''
     ([
      req ''id'' Uuid, req ''email'' (Varchar 255), req ''hashed_password'' (Varchar 255),
      req ''full_name'' (Varchar 255), dflt ''role'' (Enum_type ''user_role'') ''viewer'',
      req ''organization_id'' Uuid, dflt ''is_active'' Boolean_type ''true'',
      opt ''last_login_at'' Timestamptz, dflt ''failed_login_attempts'' Integer_type ''0''] @ timestamps)
     [Fk ''organization_id'' ''organizations'' ''CASCADE'']
     []"

definition users_indexes :: "index_def list" where
  "users_indexes = [
     Index ''ix_users_email_active'' ''users'' [''email''] True active_only,
     Index ''ix_users_org_active'' ''users'' [''organization_id''] False active_only]"

definition submissions_table :: table_def where
  "submissions_table = Table ''submissions''
     ([
      req ''id'' Uuid, req ''organization_id'' Uuid, opt ''submitted_by_id'' Uuid,
      req ''startup_name'' (Varchar 255), opt ''description'' Text_type,
      opt ''website_url'' (Varchar 2048), opt ''pitch_deck_url'' (Varchar 2048),
      dflt ''status'' (Enum_type ''submission_status'') ''draft'', dflt ''metadata'' Jsonb ''{}'',
      dflt ''raw_content'' Jsonb ''{}''] @ timestamps)
     [Fk ''organization_id'' ''organizations'' ''CASCADE'', Fk ''submitted_by_id'' ''users'' ''SET NULL'']
     []"

definition submissions_indexes :: "index_def list" where
  "submissions_indexes = [
     Index ''ix_submissions_org_status_active'' ''submissions'' [''organization_id'', ''status''] False active_only,
     Index ''ix_submissions_org_active'' ''submissions'' [''organization_id''] False active_only]"

definition evaluation_runs_table :: table_def where
  "evaluation_runs_table = Table ''evaluation_runs''
     ([
      req ''id'' Uuid, req ''submission_id'' Uuid, req ''organization_id'' Uuid,
      opt ''triggered_by_id'' Uuid, dflt ''status'' (Enum_type ''run_status'') ''pending'',
      dflt ''version'' Integer_type ''1'', opt ''started_at'' Timestamptz,
      opt ''completed_at'' Timestamptz, dflt ''total_workers'' Integer_type ''0'',
      dflt ''completed_workers'' Integer_type ''0'', dflt ''failed_workers'' Integer_type ''0'',
      opt ''overall_score'' Float_type, opt ''error_message'' Text_type,
      opt ''celery_task_id'' (Varchar 255), dflt ''config_snapshot'' Jsonb ''{}'',
      dflt ''metadata'' Jsonb ''{}''] @ timestamps)
     [Fk ''submission_id'' ''submissions'' ''CASCADE'',
      Fk ''organization_id'' ''organizations'' ''CASCADE'', Fk ''triggered_by_id'' ''users'' ''SET NULL'']
     []"

definition evaluation_runs_indexes :: "index_def list" where
  "evaluation_runs_indexes = [
     Index ''ix_evaluation_runs_submission_active'' ''evaluation_runs'' [''submission_id''] False active_only,
     Index ''ix_evaluation_runs_org_status_active'' ''evaluation_runs'' [''organization_id'', ''status''] False active_only,
     Index ''ix_evaluation_runs_pending_running'' ''evaluation_runs'' [''status'', ''created_at''] False (''status IN ('' @ quoted ''pending'' @ '', '' @ quoted ''running'' @ '') AND deleted_at IS NULL''),
     Index ''ix_evaluation_runs_celery_task'' ''evaluation_runs'' [''celery_task_id''] False []]"

definition worker_results_table :: table_def where
  "worker_results_table = Table ''worker_results''
     ([
      req ''id'' Uuid, req ''evaluation_run_id'' Uuid, req ''organization_id'' Uuid,
      req ''worker_type'' (Varchar 100), opt ''worker_id'' (Varchar 255),
      opt ''celery_task_id'' (Varchar 255),
      dflt ''status'' (Enum_type ''worker_status'') ''pending'',
      dflt ''processing_time_ms'' Integer_type ''0'', dflt ''output_data'' Jsonb ''{}'',
      opt ''error_message'' Text_type] @ timestamps)
     [Fk ''evaluation_run_id'' ''evaluation_runs'' ''CASCADE'',
      Fk ''organization_id'' ''organizations'' ''CASCADE'']
     []"

definition worker_results_indexes :: "index_def list" where
  "worker_results_indexes = [
     Index ''ix_worker_results_run_active'' ''worker_results'' [''evaluation_run_id''] False active_only,
     Index ''ix_worker_results_status_active'' ''worker_results'' [''evaluation_run_id'', ''status''] False active_only]"

definition claims_table :: table_def where
  "claims_table = Table ''claims''
     ([
      req ''id'' Uuid, req ''evaluation_run_id'' Uuid, req ''submission_id'' Uuid,
      req ''organization_id'' Uuid, req ''claim_text'' Text_type, req ''category'' (Varchar 100),
      opt ''source_reference'' (Varchar 500), dflt ''confidence_score'' Float_type ''0'',
      dflt ''verification_status'' (Varchar 50) (quoted ''unverified''),
      dflt ''evidence'' Jsonb ''{}'', dflt ''metadata'' Jsonb ''{}''] @ timestamps)
     [Fk ''evaluation_run_id'' ''evaluation_runs'' ''CASCADE'',
      Fk ''submission_id'' ''submissions'' ''CASCADE'',
      Fk ''organization_id'' ''organizations'' ''CASCADE'']
     []"

definition claims_indexes :: "index_def list" where
  "claims_indexes = [
     Index ''ix_claims_run_active'' ''claims'' [''evaluation_run_id''] False active_only,
     Index ''ix_claims_run_category_active'' ''claims'' [''evaluation_run_id'', ''category''] False active_only,
     Index ''ix_claims_org_active'' ''claims'' [''organization_id''] False active_only]"

definition contradictions_table :: table_def where
  "contradictions_table = Table ''contradictions''
     ([
      req ''id'' Uuid, req ''evaluation_run_id'' Uuid, req ''organization_id'' Uuid,
      req ''claim_a_id'' Uuid, req ''claim_b_id'' Uuid, req ''contradiction_type'' (Varchar 100),
      req ''severity'' Float_type, req ''explanation'' Text_type, dflt ''evidence'' Jsonb ''{}''] @ timestamps)
     [Fk ''evaluation_run_id'' ''evaluation_runs'' ''CASCADE'',
      Fk ''organization_id'' ''organizations'' ''CASCADE'', Fk ''claim_a_id'' ''claims'' ''CASCADE'',
      Fk ''claim_b_id'' ''claims'' ''CASCADE'']
     []"

definition contradictions_indexes :: "index_def list" where
  "contradictions_indexes = [
     Index ''ix_contradictions_run_active'' ''contradictions'' [''evaluation_run_id''] False active_only,
     Index ''ix_contradictions_org_active'' ''contradictions'' [''organization_id''] False active_only]"

definition scores_table :: table_def where
  "scores_table = Table ''scores''
     ([
      req ''id'' Uuid, req ''evaluation_run_id'' Uuid, req ''organization_id'' Uuid,
      req ''dimension'' (Varchar 100), req ''value'' Float_type,
      dflt ''weight'' Float_type ''1.0'', opt ''rationale'' Text_type,
      dflt ''breakdown'' Jsonb ''{}''] @ timestamps)
     [Fk ''evaluation_run_id'' ''evaluation_runs'' ''CASCADE'',
      Fk ''organization_id'' ''organizations'' ''CASCADE'']
     [''ck_scores_value_range'', ''ck_scores_weight_range'']"

definition scores_indexes :: "index_def list" where
  "scores_indexes = [
     Index ''uq_scores_run_dimension_active'' ''scores'' [''evaluation_run_id'', ''dimension''] True active_only,
     Index ''ix_scores_run_active'' ''scores'' [''evaluation_run_id''] False active_only,
     Index ''ix_scores_org_dimension_active'' ''scores'' [''organization_id'', ''dimension''] False active_only]"

definition audit_logs_table :: table_def where
  "audit_logs_table = Table ''audit_logs''
     ([
      req ''id'' Big_integer, dflt ''timestamp'' Timestamptz ''NOW()'',
      opt ''organization_id'' Uuid, opt ''user_id'' Uuid,
      req ''action'' (Enum_type ''audit_action''), req ''resource_type'' (Varchar 100),
      opt ''resource_id'' (Varchar 255), opt ''ip_address'' (Varchar 45),
      opt ''user_agent'' (Varchar 512), opt ''request_id'' (Varchar 36), opt ''changes'' Jsonb,
      dflt ''status'' (Varchar 20) (quoted ''success''), opt ''detail'' Text_type])
     []
     []"

definition audit_logs_indexes :: "index_def list" where
  "audit_logs_indexes = [
     Index ''ix_audit_logs_org_timestamp'' ''audit_logs'' [''organization_id'', ''timestamp''] False [],
     Index ''ix_audit_logs_action'' ''audit_logs'' [''action''] False [],
     Index ''ix_audit_logs_request_id'' ''audit_logs'' [''request_id''] False [],
     Index ''ix_audit_logs_user_id'' ''audit_logs'' [''user_id''] False []]"


definition scoped_tables :: "string list" where
  "scoped_tables = [''users'', ''submissions'', ''evaluation_runs'', ''worker_results'', ''claims'',
     ''contradictions'', ''scores'']"

definition stamped_tables :: "string list" where
  "stamped_tables = ''organizations'' # scoped_tables"

definition upgrade_triggers :: "ddl list" where
  "upgrade_triggers = [
     Create_function ''prevent_audit_log_modification'',
     Create_trigger ''trg_audit_logs_no_update'' ''audit_logs'' ''prevent_audit_log_modification'',
     Create_trigger ''trg_audit_logs_no_delete'' ''audit_logs'' ''prevent_audit_log_modification'',
     Create_function ''prevent_score_update'',
     Create_trigger ''trg_scores_immutable'' ''scores'' ''prevent_score_update'',
     Create_function ''update_updated_at_column'']
     @ map (\<lambda>t. Create_trigger (''trg_'' @ t @ ''_updated_at'') t ''update_updated_at_column'') stamped_tables"

definition upgrade_row_security :: "ddl list" where
  "upgrade_row_security =
     concat (map (\<lambda>t. [Enable_rls t, Create_policy (t @ ''_org_isolation'') t]) scoped_tables)
     @ [Enable_rls ''audit_logs'', Create_policy ''audit_logs_org_isolation'' ''audit_logs'']"

definition initial_tables :: "(table_def \<times> index_def list) list" where
  "initial_tables = [(organizations_table, organizations_indexes), (users_table, users_indexes),
     (submissions_table, submissions_indexes), (evaluation_runs_table, evaluation_runs_indexes),
     (worker_results_table, worker_results_indexes), (claims_table, claims_indexes),
     (contradictions_table, contradictions_indexes), (scores_table, scores_indexes),
     (audit_logs_table, audit_logs_indexes)]"

definition upgrade_001 :: "ddl list" where
  "upgrade_001 = upgrade_enums
     @ concat (map (\<lambda>(t, ixs). create_with_indexes t ixs) initial_tables)
     @ upgrade_triggers @ upgrade_row_security"

definition downgrade_001 :: "ddl list" where
  "downgrade_001 =
     concat (map (\<lambda>t. [Drop_policy (t @ ''_org_isolation'') t, Disable_rls t])
       [''audit_logs'', ''scores'', ''contradictions'', ''claims'', ''worker_results'',
        ''evaluation_runs'', ''submissions'', ''users''])
     @ map (\<lambda>t. Drop_trigger (''trg_'' @ t @ ''_updated_at'') t) stamped_tables
     @ [Drop_trigger ''trg_scores_immutable'' ''scores'',
        Drop_trigger ''trg_audit_logs_no_delete'' ''audit_logs'',
        Drop_trigger ''trg_audit_logs_no_update'' ''audit_logs'',
        Drop_function ''update_updated_at_column'', Drop_function ''prevent_score_update'',
        Drop_function ''prevent_audit_log_modification'']
     @ map Drop_table [''audit_logs'', ''scores'', ''contradictions'', ''claims'', ''worker_results'',
        ''evaluation_runs'', ''submissions'', ''users'', ''organizations'']
     @ map Drop_type [''audit_action'', ''worker_status'', ''run_status'', ''submission_status'',
        ''user_role'', ''plan_tier'']"

subsection \<open>Revision \<open>002_materialized_views\<close>\<close>

definition upgrade_002 :: "ddl list" where
  "upgrade_002 = [
     Create_view (View ''org_dashboard_stats'' [''organization_id'', ''organization_name'',
        ''total_submissions_count'', ''total_evaluations_count'', ''average_overall_score'',
        ''last_evaluation_date''] [''organizations'', ''submissions'', ''evaluation_runs'']),
     Create_index (Index ''uq_org_dashboard_stats'' ''org_dashboard_stats'' [''organization_id''] True []),
     Create_function ''refresh_org_dashboard_stats'']"

definition downgrade_002 :: "ddl list" where
  "downgrade_002 = [Drop_function ''refresh_org_dashboard_stats'', Drop_view ''org_dashboard_stats'']"

subsection \<open>Revision \<open>3db63acfcae3\<close>\<close>

definition evaluation_configs_table :: table_def where
  "evaluation_configs_table = Table ''evaluation_configs''
     ([
      req ''name'' (Varchar 255), opt ''description'' Text_type, req ''organization_id'' Uuid,
      opt ''created_by_id'' Uuid, dflt ''pipeline_config'' Jsonb ''{}'',
      opt ''webhook_url'' (Varchar 2048), req ''is_template'' Boolean_type, req ''id'' Uuid] @ timestamps @ [
      dflt ''version'' Integer_type ''1''])
     [Fk ''created_by_id'' ''users'' ''SET NULL'', Fk ''organization_id'' ''organizations'' ''CASCADE'']
     []"

definition upgrade_3db :: "ddl list" where
  "upgrade_3db = [
     Create_table evaluation_configs_table, Alter_default ''audit_logs'' ''status'' None,
     Alter_default ''claims'' ''confidence_score'' None,
     Alter_default ''claims'' ''verification_status'' None,
     Add_column ''evaluation_runs'' (opt ''config_id'' Uuid),
     Alter_default ''evaluation_runs'' ''status'' None,
     Alter_default ''evaluation_runs'' ''total_workers'' None,
     Alter_default ''evaluation_runs'' ''completed_workers'' None,
     Alter_default ''evaluation_runs'' ''failed_workers'' None,
     Drop_index ''ix_evaluation_runs_celery_task'',
     Create_index (Index ''ix_evaluation_runs_celery_task_id'' ''evaluation_runs'' [''celery_task_id''] False []),
     Add_fk ''evaluation_runs'' (Fk ''config_id'' ''evaluation_configs'' ''SET NULL''),
     Alter_default ''organizations'' ''plan_tier'' None,
     Alter_default ''organizations'' ''rate_limit_per_minute'' None,
     Alter_default ''organizations'' ''max_concurrent_evaluations'' None,
     Alter_default ''scores'' ''weight'' None, Alter_default ''submissions'' ''status'' None,
     Alter_default ''users'' ''role'' None, Alter_default ''users'' ''is_active'' None,
     Alter_default ''users'' ''failed_login_attempts'' None,
     Alter_default ''worker_results'' ''status'' None,
     Alter_default ''worker_results'' ''processing_time_ms'' None]"

definition downgrade_3db :: "ddl list" where
  "downgrade_3db = [
     Alter_default ''worker_results'' ''processing_time_ms'' (Some ''0''),
     Alter_default ''worker_results'' ''status'' (Some (quoted ''pending'' @ ''::worker_status'')),
     Alter_default ''users'' ''failed_login_attempts'' (Some ''0''),
     Alter_default ''users'' ''is_active'' (Some ''true''),
     Alter_default ''users'' ''role'' (Some (quoted ''viewer'' @ ''::user_role'')),
     Alter_default ''submissions'' ''status'' (Some (quoted ''draft'' @ ''::submission_status'')),
     Alter_default ''scores'' ''weight'' (Some (quoted ''1'' @ ''::double precision'')),
     Alter_default ''organizations'' ''max_concurrent_evaluations'' (Some ''10''),
     Alter_default ''organizations'' ''rate_limit_per_minute'' (Some ''100''),
     Alter_default ''organizations'' ''plan_tier'' (Some (quoted ''free'' @ ''::plan_tier'')),
     Drop_constraint None, Drop_index ''ix_evaluation_runs_celery_task_id'',
     Create_index (Index ''ix_evaluation_runs_celery_task'' ''evaluation_runs'' [''celery_task_id''] False []),
     Alter_default ''evaluation_runs'' ''failed_workers'' (Some ''0''),
     Alter_default ''evaluation_runs'' ''completed_workers'' (Some ''0''),
     Alter_default ''evaluation_runs'' ''total_workers'' (Some ''0''),
     Alter_default ''evaluation_runs'' ''status'' (Some (quoted ''pending'' @ ''::run_status'')),
     Drop_column ''evaluation_runs'' ''config_id'',
     Alter_default ''claims'' ''verification_status'' (Some (quoted (quoted (quoted ''unverified'')) @ ''::character varying'')),
     Alter_default ''claims'' ''confidence_score'' (Some (quoted ''0'' @ ''::double precision'')),
     Alter_default ''audit_logs'' ''status'' (Some (quoted (quoted (quoted ''success'')) @ ''::character varying'')),
     Drop_table ''evaluation_configs'']"

subsection \<open>What the models declare\<close>

definition api_keys_model :: table_def where
  "api_keys_model = Table ''api_keys''
     (timestamps @ [
      req ''id'' Uuid, req ''name'' (Varchar 255), req ''key_hash'' (Varchar 64),
      req ''key_prefix'' (Varchar 11), req ''user_id'' Uuid, req ''organization_id'' Uuid,
      dflt ''scopes'' Jsonb ''[]'', opt ''expires_at'' Timestamptz,
      opt ''last_used_at'' Timestamptz, req ''is_revoked'' Boolean_type])
     [Fk ''user_id'' ''users'' ''CASCADE'', Fk ''organization_id'' ''organizations'' ''CASCADE'']
     []"

definition audit_logs_model :: table_def where
  "audit_logs_model = Table ''audit_logs''
     ([
      req ''id'' Big_integer, dflt ''timestamp'' Timestamptz ''NOW()'',
      opt ''organization_id'' Uuid, opt ''user_id'' Uuid,
      req ''action'' (Enum_type ''audit_action''), req ''resource_type'' (Varchar 100),
      opt ''resource_id'' (Varchar 255), opt ''ip_address'' (Varchar 45),
      opt ''user_agent'' (Varchar 512), opt ''request_id'' (Varchar 36), opt ''changes'' Jsonb,
      req ''status'' (Varchar 20), opt ''detail'' Text_type])
     []
     []"

definition claims_model :: table_def where
  "claims_model = Table ''claims''
     (timestamps @ [
      req ''id'' Uuid, req ''evaluation_run_id'' Uuid, req ''submission_id'' Uuid,
      req ''organization_id'' Uuid, req ''claim_text'' Text_type, req ''category'' (Varchar 100),
      opt ''source_reference'' (Varchar 500), req ''confidence_score'' Float_type,
      req ''verification_status'' (Varchar 50), dflt ''evidence'' Jsonb ''{}'',
      dflt ''metadata'' Jsonb ''{}''])
     [Fk ''evaluation_run_id'' ''evaluation_runs'' ''CASCADE'',
      Fk ''submission_id'' ''submissions'' ''CASCADE'',
      Fk ''organization_id'' ''organizations'' ''CASCADE'']
     []"

definition contradictions_model :: table_def where
  "contradictions_model = Table ''contradictions''
     (timestamps @ [
      req ''id'' Uuid, req ''evaluation_run_id'' Uuid, req ''organization_id'' Uuid,
      req ''claim_a_id'' Uuid, req ''claim_b_id'' Uuid, req ''contradiction_type'' (Varchar 100),
      req ''severity'' Float_type, req ''explanation'' Text_type, dflt ''evidence'' Jsonb ''{}''])
     [Fk ''evaluation_run_id'' ''evaluation_runs'' ''CASCADE'',
      Fk ''organization_id'' ''organizations'' ''CASCADE'', Fk ''claim_a_id'' ''claims'' ''CASCADE'',
      Fk ''claim_b_id'' ''claims'' ''CASCADE'']
     []"

definition datasets_model :: table_def where
  "datasets_model = Table ''datasets''
     (timestamps @ [
      req ''id'' Uuid, req ''name'' (Varchar 255), opt ''description'' Text_type,
      req ''organization_id'' Uuid, opt ''created_by_id'' Uuid,
      req ''storage_path'' (Varchar 1024), req ''sample_count'' Integer_type,
      req ''schema_version'' (Varchar 10), req ''checksum'' (Varchar 64),
      req ''size_bytes'' Big_integer, req ''status'' (Enum_type ''dataset_status''),
      dflt ''metadata'' Jsonb ''{}''])
     [Fk ''organization_id'' ''organizations'' ''CASCADE'', Fk ''created_by_id'' ''users'' ''SET NULL'']
     []"

definition evaluation_configs_model :: table_def where
  "evaluation_configs_model = Table ''evaluation_configs''
     (timestamps @ [
      req ''id'' Uuid, dflt ''version'' Integer_type ''1'', req ''name'' (Varchar 255),
      opt ''description'' Text_type, req ''organization_id'' Uuid, opt ''created_by_id'' Uuid,
      dflt ''pipeline_config'' Jsonb ''{}'', opt ''webhook_url'' (Varchar 2048),
      req ''is_template'' Boolean_type])
     [Fk ''organization_id'' ''organizations'' ''CASCADE'', Fk ''created_by_id'' ''users'' ''SET NULL'']
     []"

definition evaluation_runs_model :: table_def where
  "evaluation_runs_model = Table ''evaluation_runs''
     (timestamps @ [
      req ''id'' Uuid, dflt ''version'' Integer_type ''1'', req ''submission_id'' Uuid,
      opt ''config_id'' Uuid, req ''organization_id'' Uuid, opt ''triggered_by_id'' Uuid,
      req ''status'' (Enum_type ''run_status''), opt ''started_at'' Timestamptz,
      opt ''completed_at'' Timestamptz, req ''total_workers'' Integer_type,
      req ''completed_workers'' Integer_type, req ''failed_workers'' Integer_type,
      opt ''overall_score'' Float_type, opt ''error_message'' Text_type,
      opt ''celery_task_id'' (Varchar 255), dflt ''config_snapshot'' Jsonb ''{}'',
      dflt ''metadata'' Jsonb ''{}''])
     [Fk ''submission_id'' ''submissions'' ''CASCADE'',
      Fk ''config_id'' ''evaluation_configs'' ''SET NULL'',
      Fk ''organization_id'' ''organizations'' ''CASCADE'', Fk ''triggered_by_id'' ''users'' ''SET NULL'']
     []"

definition metrics_model :: table_def where
  "metrics_model = Table ''metrics''
     (timestamps @ [
      req ''id'' Uuid, req ''name'' (Varchar 255), req ''display_name'' (Varchar 255),
      opt ''description'' Text_type, opt ''organization_id'' Uuid,
      req ''metric_type'' (Enum_type ''metric_type''), dflt ''computation_config'' Jsonb ''{}'',
      req ''higher_is_better'' Boolean_type, req ''min_value'' Float_type,
      req ''max_value'' Float_type, req ''is_builtin'' Boolean_type])
     [Fk ''organization_id'' ''organizations'' ''CASCADE'']
     []"

definition organizations_model :: table_def where
  "organizations_model = Table ''organizations''
     (timestamps @ [
      req ''id'' Uuid, req ''name'' (Varchar 255), req ''slug'' (Varchar 63),
      req ''plan_tier'' (Enum_type ''plan_tier''), req ''rate_limit_per_minute'' Integer_type,
      req ''max_concurrent_evaluations'' Integer_type, dflt ''settings'' Jsonb ''{}''])
     []
     []"

definition scores_model :: table_def where
  "scores_model = Table ''scores''
     (timestamps @ [
      req ''id'' Uuid, req ''evaluation_run_id'' Uuid, req ''organization_id'' Uuid,
      req ''dimension'' (Varchar 100), req ''value'' Float_type, req ''weight'' Float_type,
      opt ''rationale'' Text_type, dflt ''breakdown'' Jsonb ''{}''])
     [Fk ''evaluation_run_id'' ''evaluation_runs'' ''CASCADE'',
      Fk ''organization_id'' ''organizations'' ''CASCADE'']
     [''ck_scores_value_range'', ''ck_scores_weight_range'']"

definition submissions_model :: table_def where
  "submissions_model = Table ''submissions''
     (timestamps @ [
      req ''id'' Uuid, req ''organization_id'' Uuid, opt ''submitted_by_id'' Uuid,
      req ''startup_name'' (Varchar 255), opt ''description'' Text_type,
      opt ''website_url'' (Varchar 2048), opt ''pitch_deck_url'' (Varchar 2048),
      req ''status'' (Enum_type ''submission_status''), dflt ''metadata'' Jsonb ''{}'',
      dflt ''raw_content'' Jsonb ''{}''])
     [Fk ''organization_id'' ''organizations'' ''CASCADE'', Fk ''submitted_by_id'' ''users'' ''SET NULL'']
     []"

definition users_model :: table_def where
  "users_model = Table ''users''
     (timestamps @ [
      req ''id'' Uuid, req ''email'' (Varchar 255), req ''hashed_password'' (Varchar 255),
      req ''full_name'' (Varchar 255), req ''role'' (Enum_type ''user_role''),
      req ''organization_id'' Uuid, req ''is_active'' Boolean_type,
      opt ''last_login_at'' Timestamptz, req ''failed_login_attempts'' Integer_type])
     [Fk ''organization_id'' ''organizations'' ''CASCADE'']
     []"

definition worker_results_model :: table_def where
  "worker_results_model = Table ''worker_results''
     (timestamps @ [
      req ''id'' Uuid, req ''evaluation_run_id'' Uuid, req ''organization_id'' Uuid,
      req ''worker_type'' (Varchar 100), opt ''worker_id'' (Varchar 255),
      opt ''celery_task_id'' (Varchar 255), req ''status'' (Enum_type ''worker_status''),
      req ''processing_time_ms'' Integer_type, dflt ''output_data'' Jsonb ''{}'',
      opt ''error_message'' Text_type])
     [Fk ''evaluation_run_id'' ''evaluation_runs'' ''CASCADE'',
      Fk ''organization_id'' ''organizations'' ''CASCADE'']
     []"

definition model_tables :: "table_def list" where
  "model_tables = [organizations_model, users_model, api_keys_model, submissions_model,
     evaluation_configs_model, evaluation_runs_model, worker_results_model, claims_model,
     contradictions_model, scores_model, datasets_model, metrics_model, audit_logs_model]"

definition audit_logs_declared :: "index_def list" where
  "audit_logs_declared = [
     Index ''ix_audit_logs_org_timestamp'' ''audit_logs'' [''organization_id'', ''timestamp''] False [],
     Index ''ix_audit_logs_action'' ''audit_logs'' [''action''] False [],
     Index ''ix_audit_logs_request_id'' ''audit_logs'' [''request_id''] False [],
     Index ''ix_audit_logs_user_id'' ''audit_logs'' [''user_id''] False []]"

definition claims_declared :: "index_def list" where
  "claims_declared = [
     Index ''ix_claims_run_active'' ''claims'' [''evaluation_run_id''] False active_only,
     Index ''ix_claims_run_category_active'' ''claims'' [''evaluation_run_id'', ''category''] False active_only,
     Index ''ix_claims_org_active'' ''claims'' [''organization_id''] False active_only]"

definition contradictions_declared :: "index_def list" where
  "contradictions_declared = [
     Index ''ix_contradictions_run_active'' ''contradictions'' [''evaluation_run_id''] False active_only,
     Index ''ix_contradictions_org_active'' ''contradictions'' [''organization_id''] False active_only]"

definition evaluation_runs_declared :: "index_def list" where
  "evaluation_runs_declared = [
     Index ''ix_evaluation_runs_submission_active'' ''evaluation_runs'' [''submission_id''] False active_only,
     Index ''ix_evaluation_runs_org_status_active'' ''evaluation_runs'' [''organization_id'', ''status''] False active_only,
     Index ''ix_evaluation_runs_pending_running'' ''evaluation_runs'' [''status'', ''created_at''] False (''(status = '' @ quoted ''pending'' @ '' OR status = '' @ quoted ''running'' @ '') AND deleted_at IS NULL''),
     Index ''ix_evaluation_runs_celery_task_id'' ''evaluation_runs'' [''celery_task_id''] False []]"

definition organizations_declared :: "index_def list" where
  "organizations_declared = [
     Index ''ix_organizations_slug_active'' ''organizations'' [''slug''] True active_only]"

definition scores_declared :: "index_def list" where
  "scores_declared = [
     Index ''uq_scores_run_dimension_active'' ''scores'' [''evaluation_run_id'', ''dimension''] True active_only,
     Index ''ix_scores_run_active'' ''scores'' [''evaluation_run_id''] False active_only,
     Index ''ix_scores_org_dimension_active'' ''scores'' [''organization_id'', ''dimension''] False active_only]"

definition submissions_declared :: "index_def list" where
  "submissions_declared = [
     Index ''ix_submissions_org_status_active'' ''submissions'' [''organization_id'', ''status''] False active_only,
     Index ''ix_submissions_org_active'' ''submissions'' [''organization_id''] False active_only]"

definition users_declared :: "index_def list" where
  "users_declared = [
     Index ''ix_users_email_active'' ''users'' [''email''] True active_only,
     Index ''ix_users_org_active'' ''users'' [''organization_id''] False active_only]"

definition worker_results_declared :: "index_def list" where
  "worker_results_declared = [
     Index ''ix_worker_results_run_active'' ''worker_results'' [''evaluation_run_id''] False active_only,
     Index ''ix_worker_results_status_active'' ''worker_results'' [''evaluation_run_id'', ''status''] False active_only]"

definition api_keys_declared :: "index_def list" where
  "api_keys_declared = [
     Index ''ix_api_keys_key_hash'' ''api_keys'' [''key_hash''] True [],
     Index ''ix_api_keys_user_id'' ''api_keys'' [''user_id''] False [],
     Index ''ix_api_keys_organization_id'' ''api_keys'' [''organization_id''] False []]"

definition datasets_declared :: "index_def list" where
  "datasets_declared = [
     Index ''ix_datasets_organization_id'' ''datasets'' [''organization_id''] False [],
     Index ''ix_datasets_checksum'' ''datasets'' [''checksum''] False [],
     Index ''ix_datasets_status'' ''datasets'' [''status''] False []]"

definition metrics_declared :: "index_def list" where
  "metrics_declared = [
     Index ''ix_metrics_organization_id'' ''metrics'' [''organization_id''] False []]"

definition model_indexes :: "index_def list" where
  "model_indexes = audit_logs_declared @ claims_declared @ contradictions_declared @ evaluation_runs_declared @ organizations_declared
     @ scores_declared @ submissions_declared @ users_declared @ worker_results_declared @ api_keys_declared @ datasets_declared
     @ metrics_declared"

subsection \<open>Relations between the mapped classes\<close>

text \<open>
  A relation names its target class and, for a pair of relations, the attribute of the target that
  points back. SQLAlchemy resolves the names when the first query configures the mappers, among
  the classes whose modules have been imported, and fails for a name it does not find. \<open>AuditLog\<close>
  has no relations.
\<close>

datatype relation = Relation (rel_class: string) (rel_attr: string) (rel_target: string)
  (back_populates: "string option")

definition api_keys_relations :: "relation list" where
  "api_keys_relations = [
     Relation ''ApiKey'' ''user'' ''User'' (Some ''api_keys''),
     Relation ''ApiKey'' ''organization'' ''Organization'' (Some ''api_keys'')]"

definition claims_relations :: "relation list" where
  "claims_relations = [
     Relation ''Claim'' ''evaluation_run'' ''EvaluationRun'' (Some ''claims''),
     Relation ''Claim'' ''submission'' ''Submission'' None,
     Relation ''Claim'' ''organization'' ''Organization'' None,
     Relation ''Claim'' ''contradictions_as_a'' ''Contradiction'' (Some ''claim_a''),
     Relation ''Claim'' ''contradictions_as_b'' ''Contradiction'' (Some ''claim_b'')]"

definition contradictions_relations :: "relation list" where
  "contradictions_relations = [
     Relation ''Contradiction'' ''evaluation_run'' ''EvaluationRun'' (Some ''contradictions''),
     Relation ''Contradiction'' ''claim_a'' ''Claim'' (Some ''contradictions_as_a''),
     Relation ''Contradiction'' ''claim_b'' ''Claim'' (Some ''contradictions_as_b''),
     Relation ''Contradiction'' ''organization'' ''Organization'' None]"

definition datasets_relations :: "relation list" where
  "datasets_relations = [
     Relation ''Dataset'' ''organization'' ''Organization'' (Some ''datasets''),
     Relation ''Dataset'' ''created_by'' ''User'' None]"

definition evaluation_configs_relations :: "relation list" where
  "evaluation_configs_relations = [
     Relation ''EvaluationConfig'' ''organization'' ''Organization'' None,
     Relation ''EvaluationConfig'' ''created_by'' ''User'' None]"

definition evaluation_runs_relations :: "relation list" where
  "evaluation_runs_relations = [
     Relation ''EvaluationRun'' ''submission'' ''Submission'' (Some ''evaluation_runs''),
     Relation ''EvaluationRun'' ''config'' ''EvaluationConfig'' None,
     Relation ''EvaluationRun'' ''organization'' ''Organization'' None,
     Relation ''EvaluationRun'' ''triggered_by'' ''User'' None,
     Relation ''EvaluationRun'' ''worker_results'' ''WorkerResult'' (Some ''evaluation_run''),
     Relation ''EvaluationRun'' ''claims'' ''Claim'' (Some ''evaluation_run''),
     Relation ''EvaluationRun'' ''contradictions'' ''Contradiction'' (Some ''evaluation_run''),
     Relation ''EvaluationRun'' ''scores'' ''Score'' (Some ''evaluation_run'')]"

definition metrics_relations :: "relation list" where
  "metrics_relations = [
     Relation ''Metric'' ''organization'' ''Organization'' None]"

definition organizations_relations :: "relation list" where
  "organizations_relations = [
     Relation ''Organization'' ''users'' ''User'' (Some ''organization''),
     Relation ''Organization'' ''submissions'' ''Submission'' (Some ''organization''),
     Relation ''Organization'' ''datasets'' ''Dataset'' (Some ''organization''),
     Relation ''Organization'' ''api_keys'' ''ApiKey'' (Some ''organization'')]"

definition scores_relations :: "relation list" where
  "scores_relations = [
     Relation ''Score'' ''evaluation_run'' ''EvaluationRun'' (Some ''scores''),
     Relation ''Score'' ''organization'' ''Organization'' None]"

definition submissions_relations :: "relation list" where
  "submissions_relations = [
     Relation ''Submission'' ''organization'' ''Organization'' (Some ''submissions''),
     Relation ''Submission'' ''submitted_by'' ''User'' None,
     Relation ''Submission'' ''evaluation_runs'' ''EvaluationRun'' (Some ''submission'')]"

definition users_relations :: "relation list" where
  "users_relations = [
     Relation ''User'' ''organization'' ''Organization'' (Some ''users''),
     Relation ''User'' ''api_keys'' ''ApiKey'' (Some ''user'')]"

definition worker_results_relations :: "relation list" where
  "worker_results_relations = [
     Relation ''WorkerResult'' ''evaluation_run'' ''EvaluationRun'' (Some ''worker_results''),
     Relation ''WorkerResult'' ''organization'' ''Organization'' None]"

definition all_relations :: "relation list" where
  "all_relations = api_keys_relations @ claims_relations @ contradictions_relations @ datasets_relations
     @ evaluation_configs_relations @ evaluation_runs_relations @ metrics_relations
     @ organizations_relations @ scores_relations @ submissions_relations @ users_relations
     @ worker_results_relations"

text \<open>The classes the package \<open>models\<close> imports, and with them the workers and Alembic; the API imports
  the remaining three through its endpoints.\<close>

definition registered_classes :: "string list" where
  "registered_classes = [''AuditLog'', ''Claim'', ''Contradiction'', ''EvaluationConfig'', ''EvaluationRun'',
     ''Organization'', ''Score'', ''Submission'', ''User'', ''WorkerResult'']"

definition api_classes :: "string list" where
  "api_classes = registered_classes @ [''ApiKey'', ''Dataset'', ''Metric'']"

definition unresolved :: "string list \<Rightarrow> relation list" where
  "unresolved cs = filter (\<lambda>r. rel_class r \<in> set cs \<and> rel_target r \<notin> set cs) all_relations"

definition points_back :: "relation \<Rightarrow> bool" where
  "points_back r = (case back_populates r of None \<Rightarrow> True
     | Some b \<Rightarrow> Relation (rel_target r) b (rel_class r) (Some (rel_attr r)) \<in> set all_relations)"

definition configure_mappers :: "string list \<Rightarrow> exn + unit" where
  "configure_mappers cs = (if unresolved cs = [] then Inr () else refuse ''failed to locate a name'')"

end
