(* ===== verification/Bodies.thy ===== *)
theory Bodies
  imports Schema Security
begin

section \<open>Request bodies and the columns they are written to (\<open>schemas/\<close>, \<open>models/\<close>)\<close>

text \<open>
  What the fields of the request bodies accept is compared with what the columns they are written to
  hold: \<open>VARCHAR(n)\<close> takes at most \<open>n\<close> characters, \<open>INTEGER\<close> and \<open>BIGINT\<close> are words of 32 and 64 bits
  with a sign. A value outside is refused by the database, which ends the request with status 500,
  where the schema would have answered 422.
\<close>

subsection \<open>Fields of a schema\<close>

datatype field_rule = Text_field nat "nat option" bool | Int_field "int option" "int option"
  | Bool_field | Float_field | Object_field

text \<open>\<open>Text_field lo hi opt\<close>: \<open>min_length\<close>, \<open>max_length\<close> and whether \<open>None\<close> is allowed;
  \<open>Int_field ge le\<close>: the bounds.\<close>

record schema_field =
  fd_name :: string
  fd_rule :: field_rule
  fd_table :: table_def
  fd_column :: string

fun accepts :: "field_rule \<Rightarrow> json \<Rightarrow> bool" where
  "accepts (Text_field lo hi opt1) v =
     (case v of JStr s \<Rightarrow> lo \<le> length s \<and> (case hi of None \<Rightarrow> True | Some n \<Rightarrow> length s \<le> n)
      | JNull \<Rightarrow> opt1 | _ \<Rightarrow> False)"
| "accepts (Int_field lo hi) v =
     (case v of JNum q \<Rightarrow> q = of_int \<lfloor>q\<rfloor> \<and> (case lo of None \<Rightarrow> True | Some n \<Rightarrow> n \<le> \<lfloor>q\<rfloor>)
        \<and> (case hi of None \<Rightarrow> True | Some n \<Rightarrow> \<lfloor>q\<rfloor> \<le> n) | _ \<Rightarrow> False)"
| "accepts Bool_field v = (case v of JBool b \<Rightarrow> True | _ \<Rightarrow> False)"
| "accepts Float_field v = (case v of JNum q \<Rightarrow> True | _ \<Rightarrow> False)"
| "accepts Object_field v = (case v of JObj kvs \<Rightarrow> True | _ \<Rightarrow> False)"

text \<open>Whether a column takes the value.\<close>

definition int_range :: "nat \<Rightarrow> int \<Rightarrow> bool" where
  "int_range w n \<longleftrightarrow> - (2 ^ (w - 1)) \<le> n \<and> n < 2 ^ (w - 1)"

fun type_holds :: "col_type \<Rightarrow> json \<Rightarrow> bool" where
  "type_holds (Varchar n) v = (case v of JStr s \<Rightarrow> length s \<le> n | _ \<Rightarrow> False)"
| "type_holds Text_type v = (case v of JStr s \<Rightarrow> True | _ \<Rightarrow> False)"
| "type_holds Integer_type v = (case v of JNum q \<Rightarrow> int_range 32 \<lfloor>q\<rfloor> | _ \<Rightarrow> False)"
| "type_holds Big_integer v = (case v of JNum q \<Rightarrow> int_range 64 \<lfloor>q\<rfloor> | _ \<Rightarrow> False)"
| "type_holds Boolean_type v = (case v of JBool b \<Rightarrow> True | _ \<Rightarrow> False)"
| "type_holds Float_type v = (case v of JNum q \<Rightarrow> True | _ \<Rightarrow> False)"
| "type_holds Jsonb v = (v \<noteq> JNull)"
| "type_holds t v = False"

definition holds :: "column \<Rightarrow> json \<Rightarrow> bool" where
  "holds c v \<longleftrightarrow> (if v = JNull then nullable c else type_holds (col_type c) v)"

definition column_of :: "schema_field \<Rightarrow> column option" where
  "column_of f = find (\<lambda>c. col_name c = fd_column f) (tb_columns (fd_table f))"

text \<open>A field fits when its column takes every value the field accepts.\<close>

definition field_fits :: "schema_field \<Rightarrow> bool" where
  "field_fits f \<longleftrightarrow> (\<forall>c v. column_of f = Some c \<longrightarrow> accepts (fd_rule f) v \<longrightarrow> holds c v)"

subsection \<open>A decision procedure\<close>

text \<open>Rules and columns that match in kind; the bounds of a rule admit some value.\<close>

fun comparable :: "field_rule \<Rightarrow> col_type \<Rightarrow> bool" where
  "comparable (Text_field lo hi opt1) (Varchar n) = (case hi of None \<Rightarrow> True | Some m \<Rightarrow> lo \<le> m)"
| "comparable (Text_field lo hi opt1) Text_type = True"
| "comparable (Int_field lo hi) t = ((t = Integer_type \<or> t = Big_integer)
     \<and> (case (lo, hi) of (Some a, Some b) \<Rightarrow> a \<le> b | _ \<Rightarrow> True))"
| "comparable Bool_field t = (t = Boolean_type)"
| "comparable Float_field t = (t = Float_type)"
| "comparable Object_field t = (t = Jsonb)"
| "comparable _ _ = False"

fun guarded_by :: "field_rule \<Rightarrow> col_type \<Rightarrow> bool \<Rightarrow> bool" where
  "guarded_by (Text_field lo hi opt1) (Varchar n) nl = ((case hi of None \<Rightarrow> False | Some m \<Rightarrow> m \<le> n) \<and> (opt1 \<longrightarrow> nl))"
| "guarded_by (Text_field lo hi opt1) Text_type nl = (opt1 \<longrightarrow> nl)"
| "guarded_by (Int_field lo hi) t nl =
     (case (lo, hi) of (Some a, Some b) \<Rightarrow> int_range (if t = Integer_type then 32 else 64) a
        \<and> int_range (if t = Integer_type then 32 else 64) b | _ \<Rightarrow> False)"
| "guarded_by r t nl = True"

definition checked_field :: "schema_field \<Rightarrow> bool" where
  "checked_field f = (case column_of f of None \<Rightarrow> False | Some c \<Rightarrow> comparable (fd_rule f) (col_type c))"

definition guarded_field :: "schema_field \<Rightarrow> bool" where
  "guarded_field f = (case column_of f of None \<Rightarrow> False | Some c \<Rightarrow> guarded_by (fd_rule f) (col_type c) (nullable c))"

lemma int_range_between: "int_range w a \<Longrightarrow> int_range w b \<Longrightarrow> a \<le> n \<Longrightarrow> n \<le> b \<Longrightarrow> int_range w n"
  by (simp add: int_range_def)

lemma guarded_by_sound:
  "comparable r t \<Longrightarrow> guarded_by r t nl \<Longrightarrow> accepts r v \<Longrightarrow> (if v = JNull then nl else type_holds t v)"
  by (cases r; cases t; cases v) (auto split: option.splits if_splits intro: int_range_between)

text \<open>A value outside the column for every rule that is not guarded.\<close>

fun bad_value :: "field_rule \<Rightarrow> col_type \<Rightarrow> bool \<Rightarrow> json" where
  "bad_value (Text_field lo hi opt1) (Varchar n) nl =
     (if opt1 \<and> \<not> nl then JNull
      else JStr (replicate (case hi of None \<Rightarrow> max lo (n + 1) | Some m \<Rightarrow> m) CHR ''x''))"
| "bad_value (Int_field lo hi) t nl =
     (let w = (if t = Integer_type then 32 else 64) in
      case lo of
        Some a \<Rightarrow> if \<not> int_range w a then JNum (of_int a)
                  else (case hi of None \<Rightarrow> JNum (of_int (max a (2 ^ (w - 1)))) | Some b \<Rightarrow> JNum (of_int b))
      | None \<Rightarrow> (case hi of None \<Rightarrow> JNum (of_int (2 ^ (w - 1)))
                 | Some b \<Rightarrow> JNum (of_int (min b (- (2 ^ (w - 1)) - 1)))))"
| "bad_value r t nl = JNull"

lemma bad_value_bad:
  "comparable r t \<Longrightarrow> \<not> guarded_by r t nl \<Longrightarrow>
   accepts r (bad_value r t nl) \<and> \<not> (if bad_value r t nl = JNull then nl else type_holds t (bad_value r t nl))"
proof (induction r t nl rule: guarded_by.induct)
  case (1 lo hi opt1 n nl)
  then show ?case by (auto split: option.splits if_splits)
next
  case (3 lo hi t nl)
  then show ?case by (auto simp: Let_def int_range_def split: option.splits if_splits)
qed auto

lemma field_fits_iff_guarded: "checked_field f \<Longrightarrow> field_fits f = guarded_field f"
proof -
  assume "checked_field f"
  then obtain c where c: "column_of f = Some c" "comparable (fd_rule f) (col_type c)"
    by (auto simp: checked_field_def split: option.splits)
  show ?thesis
  proof (cases "guarded_by (fd_rule f) (col_type c) (nullable c)")
    case True
    then show ?thesis
      using guarded_by_sound [OF c(2) True] c(1) by (simp add: field_fits_def holds_def guarded_field_def)
  next
    case False
    let ?v = "bad_value (fd_rule f) (col_type c) (nullable c)"
    have "accepts (fd_rule f) ?v" "\<not> holds c ?v"
      using bad_value_bad [OF c(2) False] unfolding holds_def by blast+
    then have "\<not> field_fits f" unfolding field_fits_def using c(1) by blast
    moreover have "\<not> guarded_field f" using False c(1) by (simp add: guarded_field_def)
    ultimately show ?thesis by simp
  qed
qed

subsection \<open>The schemas\<close>

definition field :: "table_def \<Rightarrow> string \<Rightarrow> field_rule \<Rightarrow> schema_field" where
  "field t n r = \<lparr>fd_name = n, fd_rule = r, fd_table = t, fd_column = n\<rparr>"

abbreviation short_text :: field_rule where "short_text \<equiv> Text_field 1 (Some 255) False"
abbreviation optional_text :: field_rule where "optional_text \<equiv> Text_field 0 None True"
abbreviation optional_url :: field_rule where "optional_url \<equiv> Text_field 0 (Some 2048) True"

definition submission_create_schema :: "schema_field list" where
  "submission_create_schema = map (\<lambda>(n, r). field submissions_model n r)
     [(''startup_name'', short_text), (''description'', optional_text), (''website_url'', optional_url),
      (''pitch_deck_url'', optional_url), (''metadata'', Object_field)]"

text \<open>An update skips the fields that are \<open>None\<close>, so what it writes is a text; \<open>metadata\<close> names no
  column attribute there and is left out.\<close>

abbreviation any_text :: field_rule where "any_text \<equiv> Text_field 0 None False"

definition submission_update_schema :: "schema_field list" where
  "submission_update_schema = map (\<lambda>(n, r). field submissions_model n r)
     [(''startup_name'', any_text), (''description'', any_text), (''website_url'', any_text),
      (''pitch_deck_url'', any_text)]"

definition config_create_schema :: "schema_field list" where
  "config_create_schema = map (\<lambda>(n, r). field evaluation_configs_model n r)
     [(''name'', short_text), (''description'', optional_text), (''pipeline_config'', Object_field),
      (''webhook_url'', optional_url), (''is_template'', Bool_field)]"

definition config_update_schema :: "schema_field list" where
  "config_update_schema = map (\<lambda>(n, r). field evaluation_configs_model n r)
     [(''name'', any_text), (''description'', any_text), (''pipeline_config'', Object_field),
      (''webhook_url'', any_text), (''is_template'', Bool_field)]"

definition metric_create_schema :: "schema_field list" where
  "metric_create_schema = map (\<lambda>(n, r). field metrics_model n r)
     [(''name'', short_text), (''display_name'', short_text), (''description'', optional_text),
      (''computation_config'', Object_field), (''higher_is_better'', Bool_field),
      (''min_value'', Float_field), (''max_value'', Float_field)]"

definition dataset_create_schema :: "schema_field list" where
  "dataset_create_schema = map (\<lambda>(n, r). field datasets_model n r)
     [(''name'', short_text), (''description'', optional_text), (''size_bytes'', Int_field (Some 1) None),
      (''metadata'', Object_field)]"

definition dataset_confirm_schema :: "schema_field list" where
  "dataset_confirm_schema = map (\<lambda>(n, r). field datasets_model n r)
     [(''checksum'', Text_field 64 (Some 64) False), (''sample_count'', Int_field (Some 1) None)]"

definition api_key_schema :: "schema_field list" where
  "api_key_schema = [field api_keys_model ''name'' short_text]"

text \<open>The name of the organization of a registration is stored in its table; the password is hashed
  and the address is bounded by the library that validates it.\<close>

definition user_create_schema :: "schema_field list" where
  "user_create_schema = [field users_model ''full_name'' short_text,
     \<lparr>fd_name = ''organization_name'', fd_rule = short_text, fd_table = organizations_model, fd_column = ''name''\<rparr>]"

definition request_schemas :: "(string \<times> schema_field list) list" where
  "request_schemas =
    [(''SubmissionCreate'', submission_create_schema), (''SubmissionUpdate'', submission_update_schema),
     (''EvaluationConfigCreate'', config_create_schema), (''EvaluationConfigUpdate'', config_update_schema),
     (''MetricCreate'', metric_create_schema), (''DatasetCreate'', dataset_create_schema),
     (''DatasetConfirmUpload'', dataset_confirm_schema), (''ApiKeyCreate'', api_key_schema),
     (''UserCreate'', user_create_schema)]"

definition request_fields :: "(string \<times> schema_field) list" where
  "request_fields = concat (map (\<lambda>(n, fs). map (\<lambda>f. (n, f)) fs) request_schemas)"

subsection \<open>Which fields can overflow\<close>

lemma all_fields_checked: "list_all (\<lambda>(n, f). checked_field f) request_fields"
  by code_simp

lemma unguarded_fields:
  "map (\<lambda>(n, f). (n, fd_name f)) (filter (\<lambda>(n, f). \<not> guarded_field f) request_fields) =
     [(''SubmissionUpdate'', ''startup_name''), (''SubmissionUpdate'', ''website_url''),
      (''SubmissionUpdate'', ''pitch_deck_url''), (''EvaluationConfigUpdate'', ''name''),
      (''EvaluationConfigUpdate'', ''webhook_url''), (''DatasetCreate'', ''size_bytes''),
      (''DatasetConfirmUpload'', ''sample_count'')]"
  by code_simp


text \<open>
  The address a client announces in the header is written to every audit entry, whatever its length:
  one of 46 characters is too long for the column, so any audited request that carries it fails.
\<close>

definition audit_address :: schema_field where
  "audit_address = field audit_logs_model ''ip_address'' optional_text"

lemma strip_plain: "list_all (\<lambda>c. \<not> is_space c) s \<Longrightarrow> str_strip s = s"
proof -
  have d: "dropWhile is_space t = t" if "list_all (\<lambda>c. \<not> is_space c) t" for t
    using that by (cases t) simp_all
  assume s: "list_all (\<lambda>c. \<not> is_space c) s"
  then have "list_all (\<lambda>c. \<not> is_space c) (rev s)" by simp
  with d [OF s] d show ?thesis by (simp add: str_strip_def)
qed

theorem announced_address_overflows:
  assumes "45 < length a" "CHR '','' \<notin> set a" "list_all (\<lambda>c. \<not> is_space c) a"
  shows "get_client_ip (Some a) h = a \<and> column_of audit_address = Some (Column ''ip_address'' (Varchar 45) True None)
    \<and> \<not> holds (Column ''ip_address'' (Varchar 45) True None) (JStr (get_client_ip (Some a) h))"
proof -
  have "get_client_ip (Some a) h = a"
    using assms by (auto simp: get_client_ip_def strip_plain split_on_no_sep)
  moreover have "column_of audit_address = Some (Column ''ip_address'' (Varchar 45) True None)" by code_simp
  ultimately show ?thesis using assms(1) by (simp add: holds_def)
qed

theorem announced_address_overflows_witness:
  "\<not> holds (Column ''ip_address'' (Varchar 45) True None) (JStr (get_client_ip (Some (replicate 46 CHR ''1'')) None))"
proof -
  have "\<not> is_space CHR ''1''" by code_simp
  then have "45 < length (replicate 46 CHR ''1'')" "CHR '','' \<notin> set (replicate 46 CHR ''1'')"
    "list_all (\<lambda>c. \<not> is_space c) (replicate 46 CHR ''1'')"
    by (simp_all add: list_all_iff)
  from announced_address_overflows [OF this, of None] show ?thesis by blast
qed

end
