(* ===== verification/Migrations.thy ===== *)
theory Migrations
  imports Schema
begin

section \<open>The migrations undone and compared with the models\<close>

text \<open>
  Running the migrations: the first revision is undone by its downgrade on any database that has
  no object of the same names, the second as well, the third never. The tables at the head are
  compared with the models, and the triggers of the first revision are given their meaning.
\<close>

subsection \<open>Running statements\<close>

lemma run_append:
  "run_ddl (xs @ ys) c = (case run_ddl xs c of Inl e \<Rightarrow> Inl e | Inr c' \<Rightarrow> run_ddl ys c')"
  by (induction xs arbitrary: c) (auto split: sum.splits)

lemma run_fails: "Drop_constraint None \<in> set ds \<Longrightarrow> \<exists>e. run_ddl ds c = Inl e"
proof (induction ds arbitrary: c)
  case (Cons d ds)
  show ?case
  proof (cases "exec_ddl d c")
    case (Inr c')
    then have "d \<noteq> Drop_constraint None" by (auto simp: refuse_def)
    then show ?thesis using Cons Inr by auto
  qed simp
qed simp

lemma run_types:
  "distinct (map fst ts) \<Longrightarrow> \<forall>n \<in> fst ` set ts. map_of (ct_types c) n = None \<Longrightarrow>
   run_ddl (map (\<lambda>(n, ls). Create_type n ls) ts) c = Inr (c\<lparr>ct_types := ct_types c @ ts\<rparr>)"
proof (induction ts arbitrary: c)
  case (Cons t ts)
  obtain n ls where t: "t = (n, ls)" by (cases t)
  let ?c = "c\<lparr>ct_types := ct_types c @ [t]\<rparr>"
  have "exec_ddl (Create_type n ls) c = Inr ?c" using Cons.prems(2) t by simp
  moreover have "run_ddl (map (\<lambda>(n, ls). Create_type n ls) ts) ?c = Inr (?c\<lparr>ct_types := ct_types ?c @ ts\<rparr>)"
    using Cons.prems t by (intro Cons.IH) (auto simp: map_add_def)
  ultimately show ?case using t by simp
qed simp

lemma run_indexes:
  "distinct (map ix_name ixs) \<Longrightarrow> ix_name ` set ixs \<inter> ix_name ` set (ct_indexes c) = {} \<Longrightarrow>
   (\<And>i. i \<in> set ixs \<Longrightarrow> set (ix_columns i) \<subseteq> set (relation_columns (ix_table i) c)) \<Longrightarrow>
   run_ddl (map Create_index ixs) c = Inr (c\<lparr>ct_indexes := ct_indexes c @ ixs\<rparr>)"
proof (induction ixs arbitrary: c)
  case (Cons i ixs)
  let ?c = "c\<lparr>ct_indexes := ct_indexes c @ [i]\<rparr>"
  have cols: "relation_columns n ?c = relation_columns n c" for n
    by (simp add: relation_columns_def find_table_def split: option.split)
  have "\<not> list_ex (\<lambda>j. ix_name j = ix_name i) (ct_indexes c)"
    using Cons.prems(2) unfolding list_ex_iff disjoint_iff by (metis image_eqI list.set_intros(1))
  moreover have "list_all (\<lambda>k. list_ex (\<lambda>m. m = k) (relation_columns (ix_table i) c)) (ix_columns i)"
    using Cons.prems(3) [of i] by (auto simp: list_ex_iff list_all_iff)
  ultimately have "exec_ddl (Create_index i) c = Inr ?c" by simp
  moreover have "run_ddl (map Create_index ixs) ?c = Inr (?c\<lparr>ct_indexes := ct_indexes ?c @ ixs\<rparr>)"
    using Cons.prems by (intro Cons.IH) (auto simp: cols)
  ultimately show ?case by simp
qed simp

text \<open>Tables in an order in which each refers only to earlier ones, with indexes on their columns.\<close>

fun sections_ok :: "string list \<Rightarrow> (table_def \<times> index_def list) list \<Rightarrow> bool" where
  "sections_ok ns [] = True"
| "sections_ok ns ((t, ixs) # r) =
     (tb_name t \<notin> set ns \<and> fk_table ` set (tb_fks t) \<subseteq> set ns
      \<and> list_all (\<lambda>i. ix_table i = tb_name t \<and> set (ix_columns i) \<subseteq> col_name ` set (tb_columns t)) ixs
      \<and> sections_ok (tb_name t # ns) r)"

lemma has_table_iff: "has_table n c \<longleftrightarrow> n \<in> tb_name ` set (ct_tables c)"
  by (auto simp: has_table_def list_ex_iff)

lemma find_table_append:
  "n \<notin> tb_name ` set ts \<Longrightarrow> find (\<lambda>t. tb_name t = n) (ts @ us) = find (\<lambda>t. tb_name t = n) us"
  by (induction ts) auto

lemma sections_fresh: "sections_ok ns secs \<Longrightarrow> set ns \<inter> tb_name ` fst ` set secs = {}"
  by (induction ns secs rule: sections_ok.induct) auto

lemma run_sections:
  "sections_ok ns secs \<Longrightarrow> set ns \<subseteq> tb_name ` set (ct_tables c) \<Longrightarrow>
   tb_name ` fst ` set secs \<inter> tb_name ` set (ct_tables c) = {} \<Longrightarrow>
   (\<And>t k. t \<in> fst ` set secs \<Longrightarrow> k \<in> set (tb_columns t) \<Longrightarrow> type_known c k) \<Longrightarrow>
   distinct (map ix_name (concat (map snd secs))) \<Longrightarrow>
   ix_name ` set (concat (map snd secs)) \<inter> ix_name ` set (ct_indexes c) = {} \<Longrightarrow>
   run_ddl (concat (map (\<lambda>(t, ixs). create_with_indexes t ixs) secs)) c =
     Inr (c\<lparr>ct_tables := ct_tables c @ map fst secs,
            ct_indexes := ct_indexes c @ concat (map snd secs)\<rparr>)"
proof (induction ns secs arbitrary: c rule: sections_ok.induct)
  case (2 ns t ixs r)
  let ?a = "c\<lparr>ct_tables := ct_tables c @ [t]\<rparr>"
  let ?b = "?a\<lparr>ct_indexes := ct_indexes c @ ixs\<rparr>"
  have new: "tb_name t \<notin> tb_name ` set (ct_tables c)" using "2.prems"(3) by auto
  have t: "exec_ddl (Create_table t) c = Inr ?a"
    using "2.prems"(1,2,4) new by (auto simp: has_table_iff list_all_iff)
  have cols: "relation_columns (tb_name t) ?a = map col_name (tb_columns t)"
    using new by (simp add: relation_columns_def find_table_def find_table_append)
  have i: "run_ddl (map Create_index ixs) ?a = Inr ?b"
    using "2.prems"(1,5,6) cols by (subst run_indexes) (auto simp: list_all_iff)
  have types: "type_known ?b k = type_known c k" for k by (simp add: type_known_def split: col_type.split)
  have "sections_ok (tb_name t # ns) r" using "2.prems"(1) by simp
  then have later: "tb_name t \<notin> tb_name ` fst ` set r" using sections_fresh [of "tb_name t # ns" r] by simp
  then have r: "run_ddl (concat (map (\<lambda>(t, ixs). create_with_indexes t ixs) r)) ?b =
      Inr (?b\<lparr>ct_tables := ct_tables ?b @ map fst r, ct_indexes := ct_indexes ?b @ concat (map snd r)\<rparr>)"
  proof (intro "2.IH")
    show "sections_ok (tb_name t # ns) r" by fact
    show "set (tb_name t # ns) \<subseteq> tb_name ` set (ct_tables ?b)" using "2.prems"(2) by auto
    show "tb_name ` fst ` set r \<inter> tb_name ` set (ct_tables ?b) = {}"
      using "2.prems"(3) later by auto
    show "type_known ?b k" if "u \<in> fst ` set r" "k \<in> set (tb_columns u)" for u k
      using "2.prems"(4) [of u k] that types by auto
    show "distinct (map ix_name (concat (map snd r)))" using "2.prems"(5) by simp
    have "ix_name ` set (concat (map snd r)) \<inter> ix_name ` set ixs = {}"
      using "2.prems"(5) by (simp add: Int_commute)
    moreover have "ix_name ` set (concat (map snd r)) \<inter> ix_name ` set (ct_indexes c) = {}"
      using "2.prems"(6) by (simp add: image_Un Int_Un_distrib2)
    ultimately show "ix_name ` set (concat (map snd r)) \<inter> ix_name ` set (ct_indexes ?b) = {}"
      by (simp add: image_Un Int_Un_distrib)
  qed
  show ?case using t i r by (simp add: create_with_indexes_def run_append)
qed simp

definition protect :: "string \<Rightarrow> ddl list" where
  "protect t = [Enable_rls t, Create_policy (t @ ''_org_isolation'') t]"

lemma run_protect:
  "distinct ts \<Longrightarrow> (\<And>t. t \<in> set ts \<Longrightarrow> has_table t c \<and> t \<notin> set (ct_rls c)
     \<and> (t @ ''_org_isolation'', t) \<notin> set (ct_policies c)) \<Longrightarrow>
   run_ddl (concat (map protect ts)) c =
     Inr (c\<lparr>ct_rls := ct_rls c @ ts, ct_policies := ct_policies c @ map (\<lambda>t. (t @ ''_org_isolation'', t)) ts\<rparr>)"
proof (induction ts arbitrary: c)
  case (Cons t ts)
  let ?c = "c\<lparr>ct_rls := ct_rls c @ [t], ct_policies := ct_policies c @ [(t @ ''_org_isolation'', t)]\<rparr>"
  have "\<not> list_ex (\<lambda>(q, u). q = t @ ''_org_isolation'' \<and> u = t) (ct_policies c)"
    using Cons.prems(2) [of t] by (auto simp: list_ex_iff)
  moreover have "filter (\<lambda>m. m \<noteq> t) (ct_rls c) = ct_rls c"
    using Cons.prems(2) [of t] by (auto simp: filter_id_conv)
  ultimately have "run_ddl (protect t) c = Inr ?c"
    using Cons.prems(2) [of t] by (simp add: protect_def has_table_def)
  moreover have "run_ddl (concat (map protect ts)) ?c = Inr (?c\<lparr>ct_rls := ct_rls ?c @ ts,
      ct_policies := ct_policies ?c @ map (\<lambda>t. (t @ ''_org_isolation'', t)) ts\<rparr>)"
    using Cons.prems by (intro Cons.IH) (auto simp: has_table_def)
  ultimately show ?case by (simp add: run_append)
qed simp

text \<open>The same statements backwards.\<close>

definition unprotect :: "string \<Rightarrow> ddl list" where
  "unprotect t = [Drop_policy (t @ ''_org_isolation'') t, Disable_rls t]"

lemma run_unprotect:
  "(\<And>t. t \<in> set ts \<Longrightarrow> has_table t c) \<Longrightarrow>
   run_ddl (concat (map unprotect ts)) c =
     Inr (c\<lparr>ct_rls := filter (\<lambda>m. m \<notin> set ts) (ct_rls c),
            ct_policies := filter (\<lambda>(q, u). \<not> (u \<in> set ts \<and> q = u @ ''_org_isolation'')) (ct_policies c)\<rparr>)"
proof (induction ts arbitrary: c)
  case (Cons t ts)
  let ?c = "c\<lparr>ct_rls := filter (\<lambda>m. m \<noteq> t) (ct_rls c),
    ct_policies := filter (\<lambda>(q, u). \<not> (q = t @ ''_org_isolation'' \<and> u = t)) (ct_policies c)\<rparr>"
  have "run_ddl (unprotect t) c = Inr ?c"
    using Cons.prems [of t] by (simp add: unprotect_def has_table_def)
  moreover have "run_ddl (concat (map unprotect ts)) ?c = Inr (?c\<lparr>
      ct_rls := filter (\<lambda>m. m \<notin> set ts) (ct_rls ?c),
      ct_policies := filter (\<lambda>(q, u). \<not> (u \<in> set ts \<and> q = u @ ''_org_isolation'')) (ct_policies ?c)\<rparr>)"
    using Cons.prems by (intro Cons.IH) (auto simp: has_table_def)
  moreover have "filter (\<lambda>m. m \<notin> set (t # ts)) (ct_rls c) = filter (\<lambda>m. m \<notin> set ts) (ct_rls ?c)"
    by (auto intro: filter_cong)
  moreover have "filter (\<lambda>(q, u). \<not> (u \<in> set (t # ts) \<and> q = u @ ''_org_isolation'')) (ct_policies c) =
      filter (\<lambda>(q, u). \<not> (u \<in> set ts \<and> q = u @ ''_org_isolation'')) (ct_policies ?c)"
    by (auto intro: filter_cong)
  ultimately show ?case by (simp only: list.map concat.simps run_append sum.case) simp
qed simp

lemma run_drop_triggers:
  "run_ddl (map (\<lambda>(n, t). Drop_trigger n t) ts) c =
     Inr (c\<lparr>ct_triggers := filter (\<lambda>(m, u, _). (m, u) \<notin> set ts) (ct_triggers c)\<rparr>)"
proof (induction ts arbitrary: c)
  case (Cons x ts)
  obtain n t where x: "x = (n, t)" by (cases x)
  have "filter (\<lambda>(m, u, _). (m, u) \<notin> set (x # ts)) (ct_triggers c) =
      filter (\<lambda>(m, u, _). (m, u) \<notin> set ts) (filter (\<lambda>(m, u, _). \<not> (m = n \<and> u = t)) (ct_triggers c))"
    using x by (auto intro: filter_cong)
  then show ?case using x Cons by simp
qed (simp add: case_prod_unfold)

lemma run_drop_functions:
  "(\<And>n t f. (n, t, f) \<in> set (ct_triggers c) \<Longrightarrow> f \<notin> set fs) \<Longrightarrow>
   run_ddl (map Drop_function fs) c =
     Inr (c\<lparr>ct_functions := filter (\<lambda>m. m \<notin> set fs) (ct_functions c)\<rparr>)"
proof (induction fs arbitrary: c)
  case (Cons f fs)
  let ?c = "c\<lparr>ct_functions := filter (\<lambda>m. m \<noteq> f) (ct_functions c)\<rparr>"
  have "\<not> list_ex (\<lambda>(_, _, g). g = f) (ct_triggers c)"
    using Cons.prems by (fastforce simp: list_ex_iff)
  then have "exec_ddl (Drop_function f) c = Inr ?c" by simp
  moreover have "run_ddl (map Drop_function fs) ?c =
      Inr (?c\<lparr>ct_functions := filter (\<lambda>m. m \<notin> set fs) (ct_functions ?c)\<rparr>)"
    using Cons.prems by (intro Cons.IH) (auto)
  moreover have "filter (\<lambda>m. m \<notin> set (f # fs)) (ct_functions c) =
      filter (\<lambda>m. m \<notin> set fs) (ct_functions ?c)"
    by (auto intro: filter_cong)
  ultimately show ?case by simp
qed simp

lemma run_drop_types:
  "(\<And>t k n. t \<in> set (ct_tables c) \<Longrightarrow> k \<in> set (tb_columns t) \<Longrightarrow> n \<in> set ns \<Longrightarrow> col_type k \<noteq> Enum_type n) \<Longrightarrow>
   run_ddl (map Drop_type ns) c = Inr (c\<lparr>ct_types := filter (\<lambda>(m, _). m \<notin> set ns) (ct_types c)\<rparr>)"
proof (induction ns arbitrary: c)
  case (Cons n ns)
  let ?c = "c\<lparr>ct_types := filter (\<lambda>(m, _). m \<noteq> n) (ct_types c)\<rparr>"
  have "\<not> list_ex (\<lambda>t. list_ex (\<lambda>k. col_type k = Enum_type n) (tb_columns t)) (ct_tables c)"
    using Cons.prems by (fastforce simp: list_ex_iff)
  then have "exec_ddl (Drop_type n) c = Inr ?c" by simp
  moreover have "run_ddl (map Drop_type ns) ?c =
      Inr (?c\<lparr>ct_types := filter (\<lambda>(m, _). m \<notin> set ns) (ct_types ?c)\<rparr>)"
    using Cons.prems by (intro Cons.IH) auto
  moreover have "filter (\<lambda>(m, _). m \<notin> set (n # ns)) (ct_types c) =
      filter (\<lambda>(m, _). m \<notin> set ns) (ct_types ?c)"
    by (auto intro: filter_cong)
  ultimately show ?case by simp
qed (simp add: case_prod_unfold)

text \<open>Tables dropped in the reverse of their order: each refers only to tables that come later.\<close>

fun backwards :: "table_def list \<Rightarrow> bool" where
  "backwards [] = True"
| "backwards (t # r) =
     (list_all (\<lambda>u. tb_name u \<noteq> tb_name t \<and> tb_name t \<notin> fk_table ` set (tb_fks u)) r \<and> backwards r)"

lemma run_drop_tables:
  "backwards rs \<Longrightarrow> ct_tables c = old @ rev rs \<Longrightarrow>
   (\<And>u t. u \<in> set old \<Longrightarrow> t \<in> set rs \<Longrightarrow> tb_name u \<noteq> tb_name t \<and> tb_name t \<notin> fk_table ` set (tb_fks u)) \<Longrightarrow>
   (\<And>v. v \<in> set (ct_views c) \<Longrightarrow> set (vw_tables v) \<inter> tb_name ` set rs = {}) \<Longrightarrow>
   run_ddl (map Drop_table (map tb_name rs)) c = Inr (c\<lparr>ct_tables := old,
     ct_indexes := filter (\<lambda>i. ix_table i \<notin> tb_name ` set rs) (ct_indexes c),
     ct_triggers := filter (\<lambda>(_, m, _). m \<notin> tb_name ` set rs) (ct_triggers c),
     ct_rls := filter (\<lambda>m. m \<notin> tb_name ` set rs) (ct_rls c),
     ct_policies := filter (\<lambda>(_, m). m \<notin> tb_name ` set rs) (ct_policies c)\<rparr>)"
proof (induction rs arbitrary: c)
  case (Cons t rs)
  let ?n = "tb_name t"
  let ?c = "c\<lparr>ct_tables := old @ rev rs,
     ct_indexes := filter (\<lambda>i. ix_table i \<noteq> ?n) (ct_indexes c),
     ct_triggers := filter (\<lambda>(_, m, _). m \<noteq> ?n) (ct_triggers c),
     ct_rls := filter (\<lambda>m. m \<noteq> ?n) (ct_rls c),
     ct_policies := filter (\<lambda>(_, m). m \<noteq> ?n) (ct_policies c)\<rparr>"
  have keep: "filter (\<lambda>u. tb_name u \<noteq> ?n) (ct_tables c) = old @ rev rs"
    using Cons.prems(1-3) by (auto simp: filter_id_conv list_all_iff)
  have "has_table ?n c" using Cons.prems(2) by (simp add: has_table_iff)
  moreover have "\<not> list_ex (\<lambda>u. tb_name u \<noteq> ?n \<and> list_ex (\<lambda>f. fk_table f = ?n) (tb_fks u)) (ct_tables c)"
  proof -
    have "?n \<notin> fk_table ` set (tb_fks u)" if u: "u \<in> set (ct_tables c)" "tb_name u \<noteq> ?n" for u
    proof -
      have "u \<in> set old \<or> u \<in> set rs" using u Cons.prems(2) by auto
      then show ?thesis using Cons.prems(1) Cons.prems(3) [of u t] by (auto simp: list_all_iff)
    qed
    then show ?thesis unfolding list_ex_iff by (metis image_eqI)
  qed
  moreover have "\<not> list_ex (\<lambda>v. list_ex (\<lambda>m. m = ?n) (vw_tables v)) (ct_views c)"
    using Cons.prems(4) by (fastforce simp: list_ex_iff)
  ultimately have "exec_ddl (Drop_table ?n) c = Inr ?c" by (simp add: keep)
  moreover have "run_ddl (map Drop_table (map tb_name rs)) ?c = Inr (?c\<lparr>ct_tables := old,
     ct_indexes := filter (\<lambda>i. ix_table i \<notin> tb_name ` set rs) (ct_indexes ?c),
     ct_triggers := filter (\<lambda>(_, m, _). m \<notin> tb_name ` set rs) (ct_triggers ?c),
     ct_rls := filter (\<lambda>m. m \<notin> tb_name ` set rs) (ct_rls ?c),
     ct_policies := filter (\<lambda>(_, m). m \<notin> tb_name ` set rs) (ct_policies ?c)\<rparr>)"
    using Cons.prems by (intro Cons.IH) auto
  ultimately show ?case
    by (simp add: case_prod_unfold)
qed (simp add: case_prod_unfold)

subsection \<open>Facts about the first revision\<close>

lemma initial_sections: "sections_ok [] initial_tables"
  by code_simp

lemma initial_index_names: "distinct (map ix_name (concat (map snd initial_tables)))"
  by code_simp

lemma initial_names: "map (tb_name \<circ> fst) initial_tables = [''organizations'', ''users'', ''submissions'',
    ''evaluation_runs'', ''worker_results'', ''claims'', ''contradictions'', ''scores'', ''audit_logs'']"
  by code_simp

lemma initial_backwards: "backwards (rev (map fst initial_tables))"
  by code_simp

lemma initial_types:
  "list_all (\<lambda>t. list_all (\<lambda>k. case col_type k of Enum_type e \<Rightarrow> e \<in> fst ` set enum_types | _ \<Rightarrow> True)
     (tb_columns t)) (map fst initial_tables)"
  by code_simp

definition new_tables :: "string list" where
  "new_tables = map (tb_name \<circ> fst) initial_tables"

definition new_functions :: "string list" where
  "new_functions = [''prevent_audit_log_modification'', ''prevent_score_update'', ''update_updated_at_column'']"

definition new_triggers :: "(string \<times> string \<times> string) list" where
  "new_triggers = [(''trg_audit_logs_no_update'', ''audit_logs'', ''prevent_audit_log_modification''),
     (''trg_audit_logs_no_delete'', ''audit_logs'', ''prevent_audit_log_modification''),
     (''trg_scores_immutable'', ''scores'', ''prevent_score_update'')]
     @ map (\<lambda>t. (''trg_'' @ t @ ''_updated_at'', t, ''update_updated_at_column'')) stamped_tables"

definition protected_tables :: "string list" where
  "protected_tables = scoped_tables @ [''audit_logs'']"

text \<open>A database that has nothing to do with the first revision.\<close>

definition unrelated :: "catalog \<Rightarrow> bool" where
  "unrelated c \<longleftrightarrow> list_all (\<lambda>(n, _). n \<notin> fst ` set enum_types) (ct_types c)
     \<and> list_all (\<lambda>t. tb_name t \<notin> set new_tables \<and> fk_table ` set (tb_fks t) \<inter> set new_tables = {}
         \<and> col_type ` set (tb_columns t) \<inter> Enum_type ` fst ` set enum_types = {}) (ct_tables c)
     \<and> list_all (\<lambda>i. ix_name i \<notin> ix_name ` set (concat (map snd initial_tables))
         \<and> ix_table i \<notin> set new_tables) (ct_indexes c)
     \<and> list_all (\<lambda>f. f \<notin> set new_functions) (ct_functions c)
     \<and> list_all (\<lambda>(_, t, f). t \<notin> set new_tables \<and> f \<notin> set new_functions) (ct_triggers c)
     \<and> list_all (\<lambda>t. t \<notin> set new_tables) (ct_rls c)
     \<and> list_all (\<lambda>(_, t). t \<notin> set new_tables) (ct_policies c)
     \<and> list_all (\<lambda>v. set (vw_tables v) \<inter> set new_tables = {}) (ct_views c)"

definition installed :: "catalog \<Rightarrow> catalog" where
  "installed c = c\<lparr>ct_types := ct_types c @ enum_types,
     ct_tables := ct_tables c @ map fst initial_tables,
     ct_indexes := ct_indexes c @ concat (map snd initial_tables),
     ct_functions := ct_functions c @ new_functions, ct_triggers := ct_triggers c @ new_triggers,
     ct_rls := ct_rls c @ protected_tables,
     ct_policies := ct_policies c @ map (\<lambda>t. (t @ ''_org_isolation'', t)) protected_tables\<rparr>"

lemma new_tables_eq: "new_tables = [''organizations'', ''users'', ''submissions'',
    ''evaluation_runs'', ''worker_results'', ''claims'', ''contradictions'', ''scores'', ''audit_logs'']"
  by (simp only: new_tables_def initial_names)

lemma protected_facts: "distinct protected_tables" "set protected_tables \<subseteq> set new_tables"
  "set stamped_tables \<subseteq> set new_tables"
  unfolding new_tables_eq by code_simp+

lemma trigger_facts: "distinct (map (\<lambda>(n, t, f). (n, t)) new_triggers)" "distinct new_functions"
  "list_all (\<lambda>(n, t, f). t \<in> set new_tables \<and> f \<in> set new_functions) new_triggers"
  unfolding new_tables_eq by code_simp+

lemma enum_facts: "distinct (map fst enum_types)"
  by code_simp

text \<open>Functions and triggers in turn: a trigger calls a function that was created before.\<close>

fun statement :: "string + (string \<times> string \<times> string) \<Rightarrow> ddl" where
  "statement (Inl f) = Create_function f"
| "statement (Inr (n, t, f)) = Create_trigger n t f"

fun mixed_ok :: "string list \<Rightarrow> (string \<times> string) list \<Rightarrow> (string + (string \<times> string \<times> string)) list \<Rightarrow> bool" where
  "mixed_ok fs ts [] = True"
| "mixed_ok fs ts (Inl f # r) = (f \<notin> set fs \<and> f \<in> set new_functions \<and> mixed_ok (f # fs) ts r)"
| "mixed_ok fs ts (Inr (n, t, f) # r) =
     (f \<in> set fs \<and> (n, t) \<notin> set ts \<and> t \<in> set new_tables \<and> mixed_ok fs ((n, t) # ts) r)"

definition mixed :: "(string + (string \<times> string \<times> string)) list" where
  "mixed = [Inl ''prevent_audit_log_modification'',
     Inr (''trg_audit_logs_no_update'', ''audit_logs'', ''prevent_audit_log_modification''),
     Inr (''trg_audit_logs_no_delete'', ''audit_logs'', ''prevent_audit_log_modification''),
     Inl ''prevent_score_update'', Inr (''trg_scores_immutable'', ''scores'', ''prevent_score_update''),
     Inl ''update_updated_at_column'']
     @ map (\<lambda>t. Inr (''trg_'' @ t @ ''_updated_at'', t, ''update_updated_at_column'')) stamped_tables"

lemma mixed_facts: "mixed_ok [] [] mixed" "upgrade_triggers = map statement mixed"
  "List.map_filter (\<lambda>x. case x of Inl f \<Rightarrow> Some f | Inr _ \<Rightarrow> None) mixed = new_functions"
  "List.map_filter (\<lambda>x. case x of Inl _ \<Rightarrow> None | Inr y \<Rightarrow> Some y) mixed = new_triggers"
proof -
  show "mixed_ok [] [] mixed"
    unfolding new_tables_eq [symmetric] mixed_def stamped_tables_def scoped_tables_def
    by (simp add: new_tables_eq new_functions_def)
  show "upgrade_triggers = map statement mixed"
    by (simp add: upgrade_triggers_def mixed_def)
  show "List.map_filter (\<lambda>x. case x of Inl f \<Rightarrow> Some f | Inr _ \<Rightarrow> None) mixed = new_functions"
    "List.map_filter (\<lambda>x. case x of Inl _ \<Rightarrow> None | Inr y \<Rightarrow> Some y) mixed = new_triggers"
    by (simp_all add: mixed_def new_functions_def new_triggers_def stamped_tables_def scoped_tables_def)
qed

lemma run_mixed:
  "mixed_ok fs ts ss \<Longrightarrow> set fs \<subseteq> set (ct_functions c) \<Longrightarrow> set (ct_functions c) \<inter> set new_functions \<subseteq> set fs \<Longrightarrow>
   (\<And>n t f. (n, t, f) \<in> set (ct_triggers c) \<Longrightarrow> t \<in> set new_tables \<Longrightarrow> (n, t) \<in> set ts) \<Longrightarrow>
   set new_tables \<subseteq> tb_name ` set (ct_tables c) \<Longrightarrow>
   run_ddl (map statement ss) c = Inr (c\<lparr>
     ct_functions := ct_functions c @ List.map_filter (\<lambda>x. case x of Inl f \<Rightarrow> Some f | Inr _ \<Rightarrow> None) ss,
     ct_triggers := ct_triggers c @ List.map_filter (\<lambda>x. case x of Inl _ \<Rightarrow> None | Inr y \<Rightarrow> Some y) ss\<rparr>)"
proof (induction fs ts ss arbitrary: c rule: mixed_ok.induct)
  case (2 fs ts f r)
  let ?c = "c\<lparr>ct_functions := ct_functions c @ [f]\<rparr>"
  have "\<not> list_ex (\<lambda>m. m = f) (ct_functions c)"
    using "2.prems"(1,3) by (auto simp: list_ex_iff)
  then have "exec_ddl (statement (Inl f)) c = Inr ?c" by simp
  moreover have "run_ddl (map statement r) ?c = Inr (?c\<lparr>
      ct_functions := ct_functions ?c @ List.map_filter (\<lambda>x. case x of Inl f \<Rightarrow> Some f | Inr _ \<Rightarrow> None) r,
      ct_triggers := ct_triggers ?c @ List.map_filter (\<lambda>x. case x of Inl _ \<Rightarrow> None | Inr y \<Rightarrow> Some y) r\<rparr>)"
    using "2.prems" by (intro "2.IH") auto
  ultimately show ?case by (simp add: List.map_filter_def)
next
  case (3 fs ts n t f r)
  let ?c = "c\<lparr>ct_triggers := ct_triggers c @ [(n, t, f)]\<rparr>"
  have "\<not> list_ex (\<lambda>(m, u, _). m = n \<and> u = t) (ct_triggers c)"
    using "3.prems"(1,4) by (fastforce simp: list_ex_iff)
  moreover have "has_table t c" "list_ex (\<lambda>m. m = f) (ct_functions c)"
    using "3.prems"(1,2,5) by (auto simp: list_ex_iff has_table_iff)
  ultimately have "exec_ddl (statement (Inr (n, t, f))) c = Inr ?c" by simp
  moreover have "run_ddl (map statement r) ?c = Inr (?c\<lparr>
      ct_functions := ct_functions ?c @ List.map_filter (\<lambda>x. case x of Inl f \<Rightarrow> Some f | Inr _ \<Rightarrow> None) r,
      ct_triggers := ct_triggers ?c @ List.map_filter (\<lambda>x. case x of Inl _ \<Rightarrow> None | Inr y \<Rightarrow> Some y) r\<rparr>)"
  proof (intro "3.IH")
    show "(m, u) \<in> set ((n, t) # ts)" if "(m, u, g) \<in> set (ct_triggers ?c)" "u \<in> set new_tables" for m u g
      using that "3.prems"(4) [of m u g] by auto
  qed (use "3.prems" in simp_all)
  ultimately show ?case by (simp add: List.map_filter_def)
qed (simp add: List.map_filter_def)

lemma upgrade_row_security_protect: "upgrade_row_security = concat (map protect protected_tables)"
  by (simp add: upgrade_row_security_def protect_def [abs_def] protected_tables_def)

lemma initial_type_known:
  "t \<in> fst ` set initial_tables \<Longrightarrow> k \<in> set (tb_columns t) \<Longrightarrow> ct_types c = old @ enum_types \<Longrightarrow> type_known c k"
proof -
  assume a: "t \<in> fst ` set initial_tables" "k \<in> set (tb_columns t)" "ct_types c = old @ enum_types"
  then have "case col_type k of Enum_type e \<Rightarrow> e \<in> fst ` set enum_types | _ \<Rightarrow> True"
    using initial_types unfolding list_all_iff set_map by blast
  moreover have "map_of (old @ enum_types) e \<noteq> None" if "e \<in> fst ` set enum_types" for e
    using that by (simp add: map_of_eq_None_iff image_Un)
  ultimately show ?thesis using a(3) by (simp add: type_known_def split: col_type.splits)
qed

lemma unrelatedD:
  assumes "unrelated c"
  shows "n \<in> fst ` set enum_types \<Longrightarrow> map_of (ct_types c) n = None"
    and "t \<in> set (ct_tables c) \<Longrightarrow> tb_name t \<notin> set new_tables"
    and "t \<in> set (ct_tables c) \<Longrightarrow> fk_table ` set (tb_fks t) \<inter> set new_tables = {}"
    and "t \<in> set (ct_tables c) \<Longrightarrow> k \<in> set (tb_columns t) \<Longrightarrow> n \<in> fst ` set enum_types \<Longrightarrow> col_type k \<noteq> Enum_type n"
    and "i \<in> set (ct_indexes c) \<Longrightarrow> ix_name i \<notin> ix_name ` set (concat (map snd initial_tables))"
    and "i \<in> set (ct_indexes c) \<Longrightarrow> ix_table i \<notin> set new_tables"
    and "set (ct_functions c) \<inter> set new_functions = {}"
    and "(m, u, f) \<in> set (ct_triggers c) \<Longrightarrow> u \<notin> set new_tables"
    and "(m, u, f) \<in> set (ct_triggers c) \<Longrightarrow> f \<notin> set new_functions"
    and "set (ct_rls c) \<inter> set new_tables = {}"
    and "(q, u) \<in> set (ct_policies c) \<Longrightarrow> u \<notin> set new_tables"
    and "v \<in> set (ct_views c) \<Longrightarrow> set (vw_tables v) \<inter> set new_tables = {}"
proof -
  note u = assms [unfolded unrelated_def]
  have types: "list_all (\<lambda>(n, _). n \<notin> fst ` set enum_types) (ct_types c)" using u by blast
  have tabs: "list_all (\<lambda>t. tb_name t \<notin> set new_tables \<and> fk_table ` set (tb_fks t) \<inter> set new_tables = {}
     \<and> col_type ` set (tb_columns t) \<inter> Enum_type ` fst ` set enum_types = {}) (ct_tables c)"
    using u by blast
  have trig: "list_all (\<lambda>(_, t, f). t \<notin> set new_tables \<and> f \<notin> set new_functions) (ct_triggers c)"
    using u by blast
  have pol: "list_all (\<lambda>(_, t). t \<notin> set new_tables) (ct_policies c)" using u by blast
  show "n \<in> fst ` set enum_types \<Longrightarrow> map_of (ct_types c) n = None"
    using types by (auto simp: list_all_iff map_of_eq_None_iff) force
  show "t \<in> set (ct_tables c) \<Longrightarrow> tb_name t \<notin> set new_tables"
    "t \<in> set (ct_tables c) \<Longrightarrow> fk_table ` set (tb_fks t) \<inter> set new_tables = {}"
    using tabs by (simp_all add: list_all_iff)
  show "t \<in> set (ct_tables c) \<Longrightarrow> k \<in> set (tb_columns t) \<Longrightarrow> n \<in> fst ` set enum_types \<Longrightarrow> col_type k \<noteq> Enum_type n"
    using tabs unfolding list_all_iff by (metis IntI empty_iff imageI)
  show "i \<in> set (ct_indexes c) \<Longrightarrow> ix_name i \<notin> ix_name ` set (concat (map snd initial_tables))"
    "i \<in> set (ct_indexes c) \<Longrightarrow> ix_table i \<notin> set new_tables"
    using u unfolding list_all_iff by blast+
  show "set (ct_functions c) \<inter> set new_functions = {}" "set (ct_rls c) \<inter> set new_tables = {}"
    using u unfolding list_all_iff by blast+
  show "(m, u, f) \<in> set (ct_triggers c) \<Longrightarrow> u \<notin> set new_tables"
    "(m, u, f) \<in> set (ct_triggers c) \<Longrightarrow> f \<notin> set new_functions"
    using trig by (auto simp: list_all_iff)
  show "(q, u) \<in> set (ct_policies c) \<Longrightarrow> u \<notin> set new_tables" using pol by (auto simp: list_all_iff)
  show "v \<in> set (ct_views c) \<Longrightarrow> set (vw_tables v) \<inter> set new_tables = {}"
    using u unfolding list_all_iff by blast
qed

lemma run_upgrade_001: "unrelated c \<Longrightarrow> run_ddl upgrade_001 c = Inr (installed c)"
proof -
  assume u: "unrelated c"
  note d = unrelatedD [OF u]
  let ?a = "c\<lparr>ct_types := ct_types c @ enum_types\<rparr>"
  let ?b = "?a\<lparr>ct_tables := ct_tables c @ map fst initial_tables,
      ct_indexes := ct_indexes c @ concat (map snd initial_tables)\<rparr>"
  let ?d = "?b\<lparr>ct_functions := ct_functions c @ new_functions, ct_triggers := ct_triggers c @ new_triggers\<rparr>"
  have 1: "run_ddl upgrade_enums c = Inr ?a"
    unfolding upgrade_enums_def using enum_facts d(1) by (intro run_types) auto
  have 2: "run_ddl (concat (map (\<lambda>(t, ixs). create_with_indexes t ixs) initial_tables)) ?a = Inr ?b"
  proof (subst run_sections [OF initial_sections])
    show "tb_name ` fst ` set initial_tables \<inter> tb_name ` set (ct_tables ?a) = {}"
    proof -
      have "tb_name ` fst ` set initial_tables = set new_tables" by (auto simp: new_tables_def)
      then show ?thesis using d(2) by auto
    qed
    show "type_known ?a k" if "t \<in> fst ` set initial_tables" "k \<in> set (tb_columns t)" for t k
      using that by (rule initial_type_known) simp
    show "ix_name ` set (concat (map snd initial_tables)) \<inter> ix_name ` set (ct_indexes ?a) = {}"
      using d(5) by (simp add: disjoint_iff del: set_concat) (metis imageE)
  qed (use initial_index_names in simp_all)
  have tabs: "set new_tables \<subseteq> tb_name ` set (ct_tables ?b)" by (auto simp: new_tables_def)
  have 3: "run_ddl upgrade_triggers ?b = Inr ?d"
    unfolding mixed_facts(2) using tabs d(7,8)
    by (subst run_mixed [OF mixed_facts(1)]) (auto simp: mixed_facts(3,4))
  have 4: "run_ddl upgrade_row_security ?d = Inr (installed c)"
  proof (unfold upgrade_row_security_protect, subst run_protect)
    fix t assume "t \<in> set protected_tables"
    then have n: "t \<in> set new_tables" using protected_facts by auto
    then have "t \<notin> set (ct_rls ?d)" "(t @ ''_org_isolation'', t) \<notin> set (ct_policies ?d)"
      using d(10,11) by auto
    moreover have "has_table t ?d" using tabs n by (auto simp: has_table_iff)
    ultimately show "has_table t ?d \<and> t \<notin> set (ct_rls ?d) \<and> (t @ ''_org_isolation'', t) \<notin> set (ct_policies ?d)"
      by blast
  qed (simp_all add: protected_facts installed_def)
  show ?thesis unfolding upgrade_001_def using 1 2 3 4 by (simp add: run_append)
qed

lemma downgrade_parts:
  "downgrade_001 = concat (map unprotect (rev protected_tables))
     @ map (\<lambda>(n, t). Drop_trigger n t) (map (\<lambda>t. (''trg_'' @ t @ ''_updated_at'', t)) stamped_tables
         @ map (\<lambda>(n, t, _). (n, t)) (rev (take 3 new_triggers)))
     @ map Drop_function (rev new_functions)
     @ map Drop_table (map tb_name (rev (map fst initial_tables)))
     @ map Drop_type (rev (map fst enum_types))"
proof -
  have "map tb_name (rev (map fst initial_tables)) = rev (map (tb_name \<circ> fst) initial_tables)"
    by (simp add: rev_map)
  then show ?thesis
    by (simp add: initial_names downgrade_001_def protected_tables_def scoped_tables_def unprotect_def
        stamped_tables_def new_triggers_def new_functions_def enum_types_def)
qed

lemma all_triggers_dropped:
  "set (map (\<lambda>t. (''trg_'' @ t @ ''_updated_at'', t)) stamped_tables
     @ map (\<lambda>(n, t, _). (n, t)) (rev (take 3 new_triggers))) = (\<lambda>(n, t, _). (n, t)) ` set new_triggers"
  by (simp add: new_triggers_def image_Un image_image) blast

lemma filter_appended:
  "(\<And>x. x \<in> set xs \<Longrightarrow> P x) \<Longrightarrow> (\<And>y. y \<in> set ys \<Longrightarrow> \<not> P y) \<Longrightarrow> filter P (xs @ ys) = xs"
  by (simp add: filter_id_conv filter_empty_conv)

lemma initial_index_tables: "i \<in> set (concat (map snd initial_tables)) \<Longrightarrow> ix_table i \<in> set new_tables"
proof -
  have "ix_table i \<in> tb_name ` fst ` set secs" if "sections_ok ns secs" "i \<in> set (concat (map snd secs))" for ns secs
    using that by (induction ns secs rule: sections_ok.induct) (auto simp: list_all_iff)
  moreover have "set new_tables = tb_name ` fst ` set initial_tables" by (auto simp: new_tables_def)
  ultimately show "i \<in> set (concat (map snd initial_tables)) \<Longrightarrow> ix_table i \<in> set new_tables"
    using initial_sections by blast
qed

lemma installed_sel:
  "ct_types (installed c) = ct_types c @ enum_types"
  "ct_tables (installed c) = ct_tables c @ map fst initial_tables"
  "ct_indexes (installed c) = ct_indexes c @ concat (map snd initial_tables)"
  "ct_functions (installed c) = ct_functions c @ new_functions"
  "ct_triggers (installed c) = ct_triggers c @ new_triggers"
  "ct_rls (installed c) = ct_rls c @ protected_tables"
  "ct_policies (installed c) = ct_policies c @ map (\<lambda>t. (t @ ''_org_isolation'', t)) protected_tables"
  "ct_views (installed c) = ct_views c"
  by (simp_all add: installed_def)

lemma run_downgrade_001: "unrelated c \<Longrightarrow> run_ddl downgrade_001 (installed c) = Inr c"
proof -
  assume u: "unrelated c"
  note d = unrelatedD [OF u]
  let ?N = "set new_tables" and ?T = "map (\<lambda>t. (''trg_'' @ t @ ''_updated_at'', t)) stamped_tables
         @ map (\<lambda>(n, t, _). (n, t)) (rev (take 3 new_triggers))"
  have N: "tb_name ` set (rev (map fst initial_tables)) = ?N" by (auto simp: new_tables_def)
  have N': "tb_name ` fst ` set initial_tables = ?N" by (auto simp: new_tables_def)
  let ?a = "(installed c)\<lparr>ct_rls := ct_rls c, ct_policies := ct_policies c\<rparr>"
  let ?b = "?a\<lparr>ct_triggers := ct_triggers c\<rparr>"
  let ?d = "?b\<lparr>ct_functions := ct_functions c\<rparr>"
  let ?e = "?d\<lparr>ct_tables := ct_tables c, ct_indexes := ct_indexes c\<rparr>"
  have has: "has_table t (installed c)" if "t \<in> set (rev protected_tables)" for t
  proof -
    have "t \<in> (tb_name \<circ> fst) ` set initial_tables"
      using that protected_facts(2) unfolding new_tables_def by (metis set_map set_rev subsetD)
    then show ?thesis by (auto simp: has_table_iff installed_def)
  qed
  have rls: "filter (\<lambda>m. m \<notin> set (rev protected_tables)) (ct_rls (installed c)) = ct_rls c"
    unfolding installed_sel by (rule filter_appended) (use d(10) protected_facts in auto)
  have pol: "filter (\<lambda>(q, u). \<not> (u \<in> set (rev protected_tables) \<and> q = u @ ''_org_isolation''))
      (ct_policies (installed c)) = ct_policies c"
    unfolding installed_sel by (rule filter_appended) (use d(11) protected_facts in auto)
  have 1: "run_ddl (concat (map unprotect (rev protected_tables))) (installed c) = Inr ?a"
    by (subst run_unprotect [OF has]) (simp_all only: rls pol)
  have trg: "filter (\<lambda>(m, u, _). (m, u) \<notin> set ?T) (ct_triggers ?a) = ct_triggers c"
  proof -
    have "(m, u) \<notin> (\<lambda>(n, t, _). (n, t)) ` set new_triggers" if "(m, u, f) \<in> set (ct_triggers c)" for m u f
      using d(8) [OF that] trigger_facts(3) by (auto simp: list_all_iff)
    then have "filter (\<lambda>(m, u, _). (m, u) \<notin> (\<lambda>(n, t, _). (n, t)) ` set new_triggers)
        (ct_triggers c @ new_triggers) = ct_triggers c"
      by (intro filter_appended) force+
    then show ?thesis unfolding all_triggers_dropped by (simp add: installed_sel del: filter_append)
  qed
  have 2: "run_ddl (map (\<lambda>(n, t). Drop_trigger n t) ?T) ?a = Inr ?b"
    by (subst run_drop_triggers) (simp only: trg)
  have fn: "filter (\<lambda>m. m \<notin> set (rev new_functions)) (ct_functions ?b) = ct_functions c"
  proof -
    have "filter (\<lambda>m. m \<notin> set (rev new_functions)) (ct_functions c @ new_functions) = ct_functions c"
      by (rule filter_appended) (use d(7) in auto)
    then show ?thesis by (simp add: installed_sel del: filter_append)
  qed
  have 3: "run_ddl (map Drop_function (rev new_functions)) ?b = Inr ?d"
  proof (subst run_drop_functions)
    show "f \<notin> set (rev new_functions)" if "(m, u, f) \<in> set (ct_triggers ?b)" for m u f
      using d(9) [of m u f] that by simp
    show "Inr (?b\<lparr>ct_functions := filter (\<lambda>m. m \<notin> set (rev new_functions)) (ct_functions ?b)\<rparr>) = (Inr ?d :: exn + catalog)"
      by (simp only: fn)
  qed
  have ix: "filter (\<lambda>i. ix_table i \<notin> ?N) (ct_indexes ?d) = ct_indexes c"
  proof -
    have "filter (\<lambda>i. ix_table i \<notin> ?N) (ct_indexes c @ concat (map snd initial_tables)) = ct_indexes c"
      by (rule filter_appended) (use d(6) initial_index_tables in blast)+
    then show ?thesis by (simp add: installed_sel del: filter_append)
  qed
  have keep: "filter (\<lambda>(_, m, _). m \<notin> ?N) (ct_triggers c) = ct_triggers c"
      "filter (\<lambda>m. m \<notin> ?N) (ct_rls c) = ct_rls c" "filter (\<lambda>(_, m). m \<notin> ?N) (ct_policies c) = ct_policies c"
    using d(8,10,11) by (auto simp: filter_id_conv)
  have 4: "run_ddl (map Drop_table (map tb_name (rev (map fst initial_tables)))) ?d = Inr ?e"
  proof (subst run_drop_tables [OF initial_backwards])
    show "ct_tables ?d = ct_tables c @ rev (rev (map fst initial_tables))" by (simp add: installed_def)
    show "tb_name v \<noteq> tb_name t \<and> tb_name t \<notin> fk_table ` set (tb_fks v)"
      if "v \<in> set (ct_tables c)" "t \<in> set (rev (map fst initial_tables))" for v t
    proof -
      have "tb_name t \<in> ?N" using that(2) N by blast
      then show ?thesis using d(2,3) [OF that(1)] by auto
    qed
    show "set (vw_tables v) \<inter> tb_name ` set (rev (map fst initial_tables)) = {}" if "v \<in> set (ct_views ?d)" for v
      using that d(12) [of v] unfolding N by (simp add: installed_def)
  qed (use ix keep in \<open>simp add: N'\<close>)
  have ty: "filter (\<lambda>(m, _). m \<notin> set (rev (map fst enum_types))) (ct_types ?e) = ct_types c"
  proof -
    have "filter (\<lambda>(m, _). m \<notin> set (rev (map fst enum_types))) (ct_types c @ enum_types) = ct_types c"
      by (rule filter_appended) (use d(1) in \<open>force simp: map_of_eq_None_iff\<close>)+
    then show ?thesis by (simp add: installed_sel del: filter_append)
  qed
  have 5: "run_ddl (map Drop_type (rev (map fst enum_types))) ?e = Inr c"
  proof (subst run_drop_types)
    show "Inr (?e\<lparr>ct_types := filter (\<lambda>(m, _). m \<notin> set (rev (map fst enum_types))) (ct_types ?e)\<rparr>) = (Inr c :: exn + catalog)"
      unfolding ty by (simp add: installed_def)
  qed (use d(4) in auto)
  show ?thesis unfolding downgrade_parts by (simp only: run_append 1 2 3 4 5 sum.case)
qed

subsection \<open>The later revisions\<close>

text \<open>The second revision adds one view with its index and one function, and takes them away.\<close>

definition dashboard_view :: view_def where
  "dashboard_view = View ''org_dashboard_stats'' [''organization_id'', ''organization_name'',
     ''total_submissions_count'', ''total_evaluations_count'', ''average_overall_score'',
     ''last_evaluation_date''] [''organizations'', ''submissions'', ''evaluation_runs'']"

definition dashboard_index :: index_def where
  "dashboard_index = Index ''uq_org_dashboard_stats'' ''org_dashboard_stats'' [''organization_id''] True []"

definition with_dashboard :: "catalog \<Rightarrow> catalog" where
  "with_dashboard c = c\<lparr>ct_views := ct_views c @ [dashboard_view],
     ct_indexes := ct_indexes c @ [dashboard_index],
     ct_functions := ct_functions c @ [''refresh_org_dashboard_stats'']\<rparr>"

text \<open>A database with the tables of the view and no object of its names.\<close>

definition no_dashboard :: "catalog \<Rightarrow> bool" where
  "no_dashboard c \<longleftrightarrow> list_all (\<lambda>n. has_table n c) (vw_tables dashboard_view)
     \<and> \<not> has_table ''org_dashboard_stats'' c
     \<and> list_all (\<lambda>v. vw_name v \<noteq> ''org_dashboard_stats'') (ct_views c)
     \<and> list_all (\<lambda>i. ix_name i \<noteq> ''uq_org_dashboard_stats'' \<and> ix_table i \<noteq> ''org_dashboard_stats'') (ct_indexes c)
     \<and> list_all (\<lambda>f. f \<noteq> ''refresh_org_dashboard_stats'') (ct_functions c)
     \<and> list_all (\<lambda>(_, _, f). f \<noteq> ''refresh_org_dashboard_stats'') (ct_triggers c)"

lemma upgrade_002_parts: "upgrade_002 = [Create_view dashboard_view, Create_index dashboard_index,
    Create_function ''refresh_org_dashboard_stats'']"
  by (simp only: upgrade_002_def dashboard_view_def dashboard_index_def)

lemma dashboard_sel [simp]: "vw_name dashboard_view = ''org_dashboard_stats''"
  "ix_name dashboard_index = ''uq_org_dashboard_stats''" "ix_table dashboard_index = ''org_dashboard_stats''"
  "ix_columns dashboard_index = [''organization_id'']"
  "''organization_id'' \<in> set (vw_columns dashboard_view)"
  by (simp_all add: dashboard_view_def dashboard_index_def)

lemma find_none: "find P xs = None \<longleftrightarrow> list_all (\<lambda>x. \<not> P x) xs"
  by (induction xs) auto

lemma find_after: "list_all (\<lambda>x. \<not> P x) xs \<Longrightarrow> find P (xs @ [y]) = (if P y then Some y else None)"
  by (induction xs) auto

lemma run_upgrade_002: "no_dashboard c \<Longrightarrow> run_ddl upgrade_002 c = Inr (with_dashboard c)"
proof -
  assume a: "no_dashboard c"
  let ?a = "c\<lparr>ct_views := ct_views c @ [dashboard_view]\<rparr>"
  let ?b = "?a\<lparr>ct_indexes := ct_indexes c @ [dashboard_index]\<rparr>"
  have tabs: "list_all (\<lambda>n. has_table n c) (vw_tables dashboard_view)" "\<not> has_table ''org_dashboard_stats'' c"
    and views: "list_all (\<lambda>v. vw_name v \<noteq> ''org_dashboard_stats'') (ct_views c)"
    and ixs: "list_all (\<lambda>i. ix_name i \<noteq> ''uq_org_dashboard_stats'' \<and> ix_table i \<noteq> ''org_dashboard_stats'') (ct_indexes c)"
    and fs: "list_all (\<lambda>f. f \<noteq> ''refresh_org_dashboard_stats'') (ct_functions c)"
    using a unfolding no_dashboard_def by blast+
  have 1: "exec_ddl (Create_view dashboard_view) c = Inr ?a"
    using tabs(1) views by (simp add: list_ex_iff list_all_iff)
  have "find_table ''org_dashboard_stats'' ?a = None"
    using tabs(2) by (simp add: find_table_def has_table_def find_none list_ex_iff list_all_iff)
  then have "relation_columns ''org_dashboard_stats'' ?a = vw_columns dashboard_view"
    using find_after [OF views, of dashboard_view] by (simp add: relation_columns_def)
  then have 2: "exec_ddl (Create_index dashboard_index) ?a = Inr ?b"
    using ixs by (simp add: list_ex_iff list_all_iff)
  have 3: "exec_ddl (Create_function ''refresh_org_dashboard_stats'') ?b = Inr (with_dashboard c)"
    using fs by (simp add: list_ex_iff list_all_iff with_dashboard_def)
  show ?thesis unfolding upgrade_002_parts by (simp only: run_ddl.simps 1 2 3 sum.case)
qed

lemma run_downgrade_002: "no_dashboard c \<Longrightarrow> run_ddl downgrade_002 (with_dashboard c) = Inr c"
proof -
  assume a: "no_dashboard c"
  have views: "filter (\<lambda>v. vw_name v \<noteq> ''org_dashboard_stats'') (ct_views c @ [dashboard_view]) = ct_views c"
    and ixs: "filter (\<lambda>i. ix_table i \<noteq> ''org_dashboard_stats'') (ct_indexes c @ [dashboard_index]) = ct_indexes c"
    and fs: "filter (\<lambda>f. f \<noteq> ''refresh_org_dashboard_stats'') (ct_functions c @ [''refresh_org_dashboard_stats'']) = ct_functions c"
    using a by (simp_all add: no_dashboard_def list_all_iff filter_id_conv)
  have "\<not> list_ex (\<lambda>(_, _, f). f = ''refresh_org_dashboard_stats'') (ct_triggers c)"
    using a by (auto simp: no_dashboard_def list_all_iff list_ex_iff)
  then have "exec_ddl (Drop_function ''refresh_org_dashboard_stats'') (with_dashboard c) =
      Inr ((with_dashboard c)\<lparr>ct_functions := ct_functions c\<rparr>)"
    using fs by (simp add: with_dashboard_def del: filter_append)
  then show ?thesis unfolding downgrade_002_def using views ixs
    by (simp add: with_dashboard_def del: filter_append)
qed

text \<open>
  The third revision creates a table, changes defaults and replaces an index. What a statement
  does to the tables and to the indexes, when it succeeds, and what it needs of the shape of the
  database, which is the names of its tables, of their columns and of its indexes:
\<close>

fun edit_tables :: "ddl \<Rightarrow> table_def list \<Rightarrow> table_def list" where
  "edit_tables (Create_table t) ts = ts @ [t]"
| "edit_tables (Add_column n k) ts = map (\<lambda>t. if tb_name t = n then set_columns (\<lambda>ks. ks @ [k]) t else t) ts"
| "edit_tables (Alter_default n m d) ts = map (\<lambda>t. if tb_name t = n then set_default m d t else t) ts"
| "edit_tables (Add_fk n f) ts = map (\<lambda>t. if tb_name t = n then set_fks (\<lambda>fs. fs @ [f]) t else t) ts"
| "edit_tables _ ts = ts"

fun edit_indexes :: "ddl \<Rightarrow> index_def list \<Rightarrow> index_def list" where
  "edit_indexes (Create_index i) ixs = ixs @ [i]"
| "edit_indexes (Drop_index n) ixs = filter (\<lambda>j. ix_name j \<noteq> n) ixs"
| "edit_indexes _ ixs = ixs"

type_synonym shape = "(string \<times> string list) list"

fun fits :: "ddl list \<Rightarrow> shape \<Rightarrow> string list \<Rightarrow> bool" where
  "fits [] sh ns = True"
| "fits (Create_table t # ds) sh ns = (tb_name t \<notin> fst ` set sh
     \<and> fk_table ` set (tb_fks t) \<subseteq> fst ` set sh
     \<and> list_all (\<lambda>k. case col_type k of Enum_type e \<Rightarrow> False | _ \<Rightarrow> True) (tb_columns t)
     \<and> fits ds (sh @ [(tb_name t, map col_name (tb_columns t))]) ns)"
| "fits (Add_column n k # ds) sh ns = (case map_of sh n of None \<Rightarrow> False
     | Some ms \<Rightarrow> col_name k \<notin> set ms
         \<and> fits ds (map (\<lambda>(m, ms). (m, if m = n then ms @ [col_name k] else ms)) sh) ns)"
| "fits (Alter_default n m d # ds) sh ns = (case map_of sh n of None \<Rightarrow> False
     | Some ms \<Rightarrow> m \<in> set ms \<and> fits ds sh ns)"
| "fits (Add_fk n f # ds) sh ns = (case map_of sh n of None \<Rightarrow> False
     | Some ms \<Rightarrow> fk_column f \<in> set ms \<and> fk_table f \<in> fst ` set sh \<and> fits ds sh ns)"
| "fits (Create_index i # ds) sh ns = (ix_name i \<notin> set ns \<and> (case map_of sh (ix_table i) of None \<Rightarrow> False
     | Some ms \<Rightarrow> set (ix_columns i) \<subseteq> set ms \<and> fits ds sh (ns @ [ix_name i])))"
| "fits (Drop_index n # ds) sh ns = (n \<in> set ns \<and> fits ds sh (filter (\<lambda>m. m \<noteq> n) ns))"
| "fits _ sh ns = False"

definition shape_of :: "table_def list \<Rightarrow> shape" where
  "shape_of ts = map (\<lambda>t. (tb_name t, map col_name (tb_columns t))) ts"

lemma edit_sel [simp]:
  "tb_name (set_columns g t) = tb_name t" "tb_columns (set_columns g t) = g (tb_columns t)"
  "tb_name (set_fks h t) = tb_name t" "tb_columns (set_fks h t) = tb_columns t"
  "tb_name (set_default m d t) = tb_name t"
  "map col_name (tb_columns (set_default m d t)) = map col_name (tb_columns t)"
  by (cases t; simp add: set_default_def)+

lemma shape_find: "map_of (shape_of ts) n = map_option (\<lambda>t. map col_name (tb_columns t)) (find (\<lambda>t. tb_name t = n) ts)"
  by (induction ts) (auto simp: shape_of_def)

lemma shape_has: "fst ` set (shape_of (ct_tables c)) = {n. has_table n c}"
  by (auto simp: shape_of_def has_table_iff image_image)

lemma shape_column: "map_of (shape_of (ct_tables c)) n = Some ms \<Longrightarrow>
   \<exists>t. find_table n c = Some t \<and> map col_name (tb_columns t) = ms \<and> (find_column m t \<noteq> None \<longleftrightarrow> m \<in> set ms)"
  by (auto simp: shape_find find_table_def find_column_def find_None_iff)

lemma shape_same: "(\<And>t. tb_name (g t) = tb_name t \<and> map col_name (tb_columns (g t)) = map col_name (tb_columns t)) \<Longrightarrow>
   shape_of (map (\<lambda>t. if tb_name t = n then g t else t) ts) = shape_of ts"
  by (induction ts) (simp_all add: shape_of_def)

lemma shape_grown: "shape_of (map (\<lambda>t. if tb_name t = n then set_columns (\<lambda>ks. ks @ [k]) t else t) ts) =
   map (\<lambda>(m, ms). (m, if m = n then ms @ [col_name k] else ms)) (shape_of ts)"
  by (induction ts) (simp_all add: shape_of_def)

lemma fits_step:
  "fits (d # ds) (shape_of (ct_tables c)) (map ix_name (ct_indexes c)) \<Longrightarrow>
   \<exists>c'. exec_ddl d c = Inr c' \<and> ct_tables c' = edit_tables d (ct_tables c)
      \<and> ct_indexes c' = edit_indexes d (ct_indexes c)
      \<and> fits ds (shape_of (ct_tables c')) (map ix_name (ct_indexes c'))"
proof (cases d)
  case (Create_table t)
  assume a: "fits (d # ds) (shape_of (ct_tables c)) (map ix_name (ct_indexes c))"
  have "list_all (type_known c) (tb_columns t)"
    using a Create_table by (auto simp: list_all_iff type_known_def split: col_type.splits)
  then show ?thesis using a Create_table by (auto simp: shape_has list_all_iff) (simp add: shape_of_def)
next
  case (Add_column n k)
  assume a: "fits (d # ds) (shape_of (ct_tables c)) (map ix_name (ct_indexes c))"
  then obtain ms where ms: "map_of (shape_of (ct_tables c)) n = Some ms" "col_name k \<notin> set ms"
    using Add_column by (auto split: option.splits)
  then show ?thesis using shape_column [OF ms(1), of "col_name k"] a Add_column
    by (auto simp: map_table_def shape_grown)
next
  case (Alter_default n m v)
  assume a: "fits (d # ds) (shape_of (ct_tables c)) (map ix_name (ct_indexes c))"
  then obtain ms where ms: "map_of (shape_of (ct_tables c)) n = Some ms" "m \<in> set ms"
    using Alter_default by (auto split: option.splits)
  then show ?thesis using shape_column [OF ms(1), of m] a Alter_default
    by (auto simp: map_table_def shape_same)
next
  case (Add_fk n f)
  assume a: "fits (d # ds) (shape_of (ct_tables c)) (map ix_name (ct_indexes c))"
  then obtain ms where ms: "map_of (shape_of (ct_tables c)) n = Some ms" "fk_column f \<in> set ms"
    using Add_fk by (auto split: option.splits)
  moreover have "has_table (fk_table f) c" using a ms Add_fk by (simp add: shape_has)
  ultimately show ?thesis using shape_column [OF ms(1), of "fk_column f"] a Add_fk
    by (auto simp: map_table_def shape_same)
next
  case (Create_index i)
  assume a: "fits (d # ds) (shape_of (ct_tables c)) (map ix_name (ct_indexes c))"
  then obtain ms where ms: "map_of (shape_of (ct_tables c)) (ix_table i) = Some ms" "set (ix_columns i) \<subseteq> set ms"
      "fits ds (shape_of (ct_tables c)) (map ix_name (ct_indexes c) @ [ix_name i])"
    using Create_index by (auto split: option.splits)
  have "relation_columns (ix_table i) c = ms" using shape_column [OF ms(1), of "[]"] by (auto simp: relation_columns_def)
  moreover have "\<not> list_ex (\<lambda>j. ix_name j = ix_name i) (ct_indexes c)"
    using a Create_index unfolding list_ex_iff by simp (metis image_eqI)
  ultimately show ?thesis using ms Create_index by (auto simp: list_ex_iff list_all_iff)
next
  case (Drop_index n)
  assume a: "fits (d # ds) (shape_of (ct_tables c)) (map ix_name (ct_indexes c))"
  have "list_ex (\<lambda>j. ix_name j = n) (ct_indexes c)" using a Drop_index by (auto simp: list_ex_iff)
  moreover have "map ix_name (filter (\<lambda>j. ix_name j \<noteq> n) xs) = filter (\<lambda>m. m \<noteq> n) (map ix_name xs)" for xs
    by (induction xs) auto
  ultimately show ?thesis using a Drop_index by simp
qed simp_all

lemma run_fitting:
  "fits ds (shape_of (ct_tables c)) (map ix_name (ct_indexes c)) \<Longrightarrow>
   \<exists>c'. run_ddl ds c = Inr c' \<and> ct_tables c' = fold edit_tables ds (ct_tables c)
      \<and> ct_indexes c' = fold edit_indexes ds (ct_indexes c)"
proof (induction ds arbitrary: c)
  case (Cons d ds)
  then show ?case using fits_step [OF Cons.prems] by fastforce
qed simp

subsection \<open>The head compared with the models\<close>

definition upgrade_head :: "ddl list" where
  "upgrade_head = upgrade_001 @ upgrade_002 @ upgrade_3db"

definition same_list :: "'a list \<Rightarrow> 'a list \<Rightarrow> bool" where
  "same_list xs ys \<longleftrightarrow> list_all (\<lambda>x. x \<in> set ys) xs \<and> list_all (\<lambda>y. y \<in> set xs) ys"

text \<open>The columns (type, nullability and default), foreign keys and checks, in any order.\<close>

definition same_table :: "table_def \<Rightarrow> table_def \<Rightarrow> bool" where
  "same_table t u \<longleftrightarrow> tb_name t = tb_name u \<and> same_list (tb_columns t) (tb_columns u)
     \<and> same_list (tb_fks t) (tb_fks u) \<and> same_list (tb_checks t) (tb_checks u)"

definition same_index :: "index_def \<Rightarrow> index_def \<Rightarrow> bool" where
  "same_index i j \<longleftrightarrow> ix_name i = ix_name j \<and> ix_table i = ix_table j \<and> ix_columns i = ix_columns j
     \<and> ix_unique i = ix_unique j"

definition tables_agree :: "table_def list \<Rightarrow> catalog \<Rightarrow> bool" where
  "tables_agree ms c \<longleftrightarrow> list_all (\<lambda>m. case find_table (tb_name m) c of
     None \<Rightarrow> False | Some t \<Rightarrow> same_table m t) ms"

definition indexes_agree :: "index_def list \<Rightarrow> catalog \<Rightarrow> bool" where
  "indexes_agree ms c \<longleftrightarrow> list_all (\<lambda>m. list_ex (same_index m) (ct_indexes c)) ms"

fun edit_table :: "ddl \<Rightarrow> table_def \<Rightarrow> table_def" where
  "edit_table (Add_column n k) t = (if tb_name t = n then set_columns (\<lambda>ks. ks @ [k]) t else t)"
| "edit_table (Alter_default n m d) t = (if tb_name t = n then set_default m d t else t)"
| "edit_table (Add_fk n f) t = (if tb_name t = n then set_fks (\<lambda>fs. fs @ [f]) t else t)"
| "edit_table _ t = t"

lemma find_append_some: "find P xs = Some x \<Longrightarrow> find P (xs @ ys) = Some x"
  by (induction xs) auto

lemma find_map_name: "(\<And>t. tb_name (g t) = tb_name t) \<Longrightarrow>
   find (\<lambda>t. tb_name t = n) (map g ts) = map_option g (find (\<lambda>t. tb_name t = n) ts)"
  by (induction ts) auto

lemma find_edit: "find (\<lambda>t. tb_name t = n) ts = Some t \<Longrightarrow>
   find (\<lambda>t. tb_name t = n) (edit_tables d ts) = Some (edit_table d t)"
  by (cases d) (auto simp: find_append_some find_map_name)

lemma find_edits: "find (\<lambda>t. tb_name t = n) ts = Some t \<Longrightarrow>
   find (\<lambda>t. tb_name t = n) (fold edit_tables ds ts) = Some (fold edit_table ds t)"
  by (induction ds arbitrary: ts t) (auto dest: find_edit)

lemma repeated_edits: "find (\<lambda>t. tb_name t = n) ts = None \<Longrightarrow> tb_name u = n \<Longrightarrow>
   find (\<lambda>t. tb_name t = n) (fold edit_tables (Create_table u # ds) ts) = Some (fold edit_table ds u)"
  by (auto intro!: find_edits simp: find_after find_none)

definition unmigrated :: "string list" where
  "unmigrated = [''api_keys'', ''datasets'', ''metrics'']"

definition migrated_models :: "table_def list" where
  "migrated_models = filter (\<lambda>t. tb_name t \<notin> set unmigrated) model_tables"

definition migrated_indexes :: "index_def list" where
  "migrated_indexes = filter (\<lambda>i. ix_table i \<notin> set unmigrated) model_indexes"

lemma model_names: "map tb_name model_tables = [''organizations'', ''users'', ''api_keys'', ''submissions'',
    ''evaluation_configs'', ''evaluation_runs'', ''worker_results'', ''claims'', ''contradictions'',
    ''scores'', ''datasets'', ''metrics'', ''audit_logs'']"
  by code_simp

lemma migrated_models_eq: "migrated_models = [organizations_model, users_model, submissions_model,
    evaluation_configs_model, evaluation_runs_model, worker_results_model, claims_model,
    contradictions_model, scores_model, audit_logs_model]"
proof -
  show ?thesis using model_names unfolding migrated_models_def model_tables_def
    by (simp add: unmigrated_def)
qed

lemma head_fits: "fits upgrade_3db (shape_of (map fst initial_tables))
   (map ix_name (concat (map snd initial_tables) @ [dashboard_index]))"
  by code_simp

lemma head_tables:
  "same_table organizations_model (fold edit_table upgrade_3db organizations_table)"
  "same_table users_model (fold edit_table upgrade_3db users_table)"
  "same_table submissions_model (fold edit_table upgrade_3db submissions_table)"
  "same_table evaluation_runs_model (fold edit_table upgrade_3db evaluation_runs_table)"
  "same_table worker_results_model (fold edit_table upgrade_3db worker_results_table)"
  "same_table claims_model (fold edit_table upgrade_3db claims_table)"
  "same_table contradictions_model (fold edit_table upgrade_3db contradictions_table)"
  "same_table scores_model (fold edit_table upgrade_3db scores_table)"
  "same_table audit_logs_model (fold edit_table upgrade_3db audit_logs_table)"
  "same_table evaluation_configs_model (fold edit_table (tl upgrade_3db) evaluation_configs_table)"
  by code_simp+

lemma head_indexes: "list_all (\<lambda>m. list_ex (same_index m)
   (fold edit_indexes upgrade_3db (concat (map snd initial_tables) @ [dashboard_index]))) migrated_indexes"
  by code_simp

lemma head_names: "map tb_name (fold edit_tables upgrade_3db (map fst initial_tables)) =
   map (tb_name \<circ> fst) initial_tables @ [''evaluation_configs'']"
  by code_simp

lemma find_named: "distinct (map tb_name ts) \<Longrightarrow> t \<in> set ts \<Longrightarrow> find (\<lambda>u. tb_name u = tb_name t) ts = Some t"
  by (induction ts) (auto simp: image_iff)

lemma fold_edit_name [simp]: "tb_name (fold edit_table ds t) = tb_name t"
proof (induction ds arbitrary: t)
  case (Cons d ds)
  have "tb_name (edit_table d t) = tb_name t" by (cases d) simp_all
  then show ?case using Cons by simp
qed simp

lemma agrees_existing:
  assumes "ct_tables c = fold edit_tables upgrade_3db (map fst initial_tables)"
    and "t \<in> fst ` set initial_tables" and "same_table m (fold edit_table upgrade_3db t)"
  shows "case find_table (tb_name m) c of None \<Rightarrow> False | Some u \<Rightarrow> same_table m u"
proof -
  have "distinct (map tb_name (map fst initial_tables))"
    using initial_names by simp
  then have "find (\<lambda>u. tb_name u = tb_name t) (map fst initial_tables) = Some t"
    using assms(2) by (intro find_named) auto
  moreover have "tb_name m = tb_name t" using assms(3) by (simp add: same_table_def)
  ultimately show ?thesis using assms(1,3) by (simp add: find_table_def find_edits)
qed

lemma agrees_created:
  assumes "ct_tables c = fold edit_tables upgrade_3db (map fst initial_tables)"
  shows "case find_table (tb_name evaluation_configs_model) c of None \<Rightarrow> False
    | Some u \<Rightarrow> same_table evaluation_configs_model u"
proof -
  have u: "upgrade_3db = Create_table evaluation_configs_table # tl upgrade_3db" by (simp add: upgrade_3db_def)
  have n: "tb_name evaluation_configs_model = tb_name evaluation_configs_table"
    "tb_name evaluation_configs_table = ''evaluation_configs''"
    by (simp_all add: evaluation_configs_model_def evaluation_configs_table_def)
  have "''evaluation_configs'' \<notin> set (map tb_name (map fst initial_tables))" using initial_names by simp
  then have "find (\<lambda>u. tb_name u = ''evaluation_configs'') (map fst initial_tables) = None"
    unfolding find_none list_all_iff by (metis image_eqI set_map)
  then have "find_table ''evaluation_configs'' c = Some (fold edit_table (tl upgrade_3db) evaluation_configs_table)"
    unfolding find_table_def assms by (subst u) (rule repeated_edits, use n in simp_all)
  then show ?thesis using head_tables(10) n by simp
qed

lemma head_agrees:
  assumes c: "ct_tables c = fold edit_tables upgrade_3db (map fst initial_tables)"
  shows "tables_agree migrated_models c"
proof -
  have i: "organizations_table \<in> fst ` set initial_tables" "users_table \<in> fst ` set initial_tables"
    "submissions_table \<in> fst ` set initial_tables" "evaluation_runs_table \<in> fst ` set initial_tables"
    "worker_results_table \<in> fst ` set initial_tables" "claims_table \<in> fst ` set initial_tables"
    "contradictions_table \<in> fst ` set initial_tables" "scores_table \<in> fst ` set initial_tables"
    "audit_logs_table \<in> fst ` set initial_tables"
    by (simp_all add: initial_tables_def)
  show ?thesis unfolding tables_agree_def migrated_models_eq
    by (simp only: list.pred_inject agrees_existing [OF c i(1) head_tables(1)]
        agrees_existing [OF c i(2) head_tables(2)] agrees_existing [OF c i(3) head_tables(3)]
        agrees_existing [OF c i(4) head_tables(4)] agrees_existing [OF c i(5) head_tables(5)]
        agrees_existing [OF c i(6) head_tables(6)] agrees_existing [OF c i(7) head_tables(7)]
        agrees_existing [OF c i(8) head_tables(8)] agrees_existing [OF c i(9) head_tables(9)]
        agrees_created [OF c] simp_thms)
qed

lemma unrelated_empty: "unrelated empty_catalog"
  by (simp add: unrelated_def empty_catalog_def)

lemma no_dashboard_installed: "no_dashboard (installed empty_catalog)"
proof -
  have names: "list_all (\<lambda>i. ix_name i \<noteq> ''uq_org_dashboard_stats'' \<and> ix_table i \<noteq> ''org_dashboard_stats'')
      (concat (map snd initial_tables))" by code_simp
  have tabs: "has_table n (installed empty_catalog) \<longleftrightarrow> n \<in> set new_tables" for n
    by (auto simp: has_table_iff installed_def empty_catalog_def new_tables_def)
  show ?thesis unfolding no_dashboard_def tabs installed_sel using names
    by (simp add: empty_catalog_def new_tables_eq dashboard_view_def new_functions_def new_triggers_def
        stamped_tables_def scoped_tables_def list_all_iff)
qed

lemma head_catalog:
  "\<exists>c. run_ddl upgrade_head empty_catalog = Inr c
     \<and> ct_tables c = fold edit_tables upgrade_3db (map fst initial_tables)
     \<and> ct_indexes c = fold edit_indexes upgrade_3db (concat (map snd initial_tables) @ [dashboard_index])"
proof -
  let ?c = "with_dashboard (installed empty_catalog)"
  have t: "ct_tables ?c = map fst initial_tables"
    "ct_indexes ?c = concat (map snd initial_tables) @ [dashboard_index]"
    by (simp_all add: with_dashboard_def installed_sel empty_catalog_def)
  obtain c where "run_ddl upgrade_3db ?c = Inr c" "ct_tables c = fold edit_tables upgrade_3db (ct_tables ?c)"
      "ct_indexes c = fold edit_indexes upgrade_3db (ct_indexes ?c)"
    using run_fitting [of upgrade_3db ?c] head_fits unfolding t by blast
  then show ?thesis
    by (simp only: upgrade_head_def run_append run_upgrade_001 [OF unrelated_empty]
        run_upgrade_002 [OF no_dashboard_installed] sum.case t) blast
qed

text \<open>C37: The migrations can be undone up to the second revision and no further. On any database without
  objects of their names, running revisions 001 and 002 succeeds and running their downgrades in
  the opposite order gives back exactly the database there was; the downgrade of 3db63acfcae3
  fails on every database, because it drops a constraint without naming it.
\<close>

theorem migrations_roundtrip:
  assumes "unrelated c" and "no_dashboard (installed c)"
  shows "run_ddl (upgrade_001 @ upgrade_002) c = Inr (with_dashboard (installed c))
    \<and> run_ddl (downgrade_002 @ downgrade_001) (with_dashboard (installed c)) = Inr c
    \<and> (\<exists>e. run_ddl downgrade_3db c' = Inl e)"
proof -
  have "Drop_constraint None \<in> set downgrade_3db" by (simp add: downgrade_3db_def)
  then have "\<exists>e. run_ddl downgrade_3db c' = Inl e" by (rule run_fails)
  then show ?thesis
    by (simp only: run_append run_upgrade_001 [OF assms(1)] run_upgrade_002 [OF assms(2)]
        run_downgrade_002 [OF assms(2)] run_downgrade_001 [OF assms(1)] sum.case simp_thms)
qed

theorem migrations_roundtrip_witness:
  "run_ddl (downgrade_002 @ downgrade_001) (with_dashboard (installed empty_catalog)) = Inr empty_catalog
   \<and> length (ct_tables (with_dashboard (installed empty_catalog))) = 9"
proof -
  have "length (ct_tables (with_dashboard (installed empty_catalog))) = length initial_tables"
    by (simp add: with_dashboard_def installed_sel empty_catalog_def)
  then show ?thesis
    using migrations_roundtrip [OF unrelated_empty no_dashboard_installed] by (simp add: initial_tables_def)
qed


end
