(* ===== verification/RowRules.thy ===== *)
theory RowRules
  imports Migrations HttpStack
begin

section \<open>What the schema enforces on rows\<close>

text \<open>
  The triggers of revision 001 with SQL's three-valued logic, the row level security policies, the
  labels SQLAlchemy sends for the columns of enumerated types, and what a refused statement does
  to the transaction of a session.
\<close>

subsection \<open>Triggers\<close>

text \<open>\<open>a != b\<close> is NULL when one side is, \<open>OR\<close> is true when one side is, and \<open>IF\<close> takes only
  true.\<close>

definition sql_ne :: "'a option \<Rightarrow> 'a option \<Rightarrow> bool option" where
  "sql_ne a b = (case (a, b) of (Some x, Some y) \<Rightarrow> Some (x \<noteq> y) | _ \<Rightarrow> None)"

fun sql_or :: "bool option \<Rightarrow> bool option \<Rightarrow> bool option" where
  "sql_or (Some True) _ = Some True"
| "sql_or _ (Some True) = Some True"
| "sql_or (Some False) (Some False) = Some False"
| "sql_or _ _ = None"

definition prevent_score_update :: "score \<Rightarrow> score \<Rightarrow> exn + score" where
  "prevent_score_update old new =
     (if sql_or (sql_or (sql_or (sql_ne (Some (score_value new)) (Some (score_value old)))
           (sql_ne (Some (dimension new)) (Some (dimension old))))
           (sql_ne (Some (weight new)) (Some (weight old))))
           (sql_ne (rationale new) (rationale old)) = Some True
      then Inl (ExternalError ''scores are immutable after creation. Create a new evaluation run to re-score.'')
      else Inr new)"

text \<open>Before UPDATE and DELETE of an audit entry; the row is \<open>None\<close> for a DELETE.\<close>

definition prevent_audit_log_modification :: "audit_log \<Rightarrow> audit_log option \<Rightarrow> exn + audit_log option" where
  "prevent_audit_log_modification old new =
     Inl (ExternalError ''audit_logs table is append-only. UPDATE and DELETE operations are forbidden.'')"

text \<open>\<open>UPDATE ... WHERE\<close>: the trigger sees each row the condition selects, and one refusal undoes
  the whole statement.\<close>

fun update_rows :: "('a \<Rightarrow> 'a \<Rightarrow> exn + 'a) \<Rightarrow> ('a \<Rightarrow> bool) \<Rightarrow> ('a \<Rightarrow> 'a) \<Rightarrow> 'a list \<Rightarrow> exn + 'a list" where
  "update_rows trig P f [] = Inr []"
| "update_rows trig P f (x # xs) =
     (case (if P x then trig x (f x) else Inr x) of
        Inl e \<Rightarrow> Inl e
      | Inr y \<Rightarrow> (case update_rows trig P f xs of Inl e \<Rightarrow> Inl e | Inr ys \<Rightarrow> Inr (y # ys)))"

fun update_scores :: "((score \<Rightarrow> bool) \<times> (score \<Rightarrow> score)) list \<Rightarrow> score list \<Rightarrow> score list" where
  "update_scores [] rows = rows"
| "update_scores ((P, f) # us) rows =
     update_scores us (case update_rows prevent_score_update P f rows of Inl e \<Rightarrow> rows | Inr rows' \<Rightarrow> rows')"

lemma sql_or_some: "sql_or (Some a) (Some b) = Some (a \<or> b)"
  "sql_or (Some a) None = (if a then Some True else None)"
  by (cases a; cases b; simp)+

lemma score_update_iff: "prevent_score_update old new = Inr s \<longleftrightarrow> s = new \<and> score_value new = score_value old
    \<and> dimension new = dimension old \<and> weight new = weight old
    \<and> (rationale new = rationale old \<or> rationale new = None \<or> rationale old = None)"
  by (cases "rationale old"; cases "rationale new") (auto simp: prevent_score_update_def sql_ne_def sql_or_some split: if_splits)

lemma update_rows_scores:
  "update_rows prevent_score_update P f rows = Inr rows' \<Longrightarrow>
   map (\<lambda>s. (score_value s, dimension s, weight s)) rows' = map (\<lambda>s. (score_value s, dimension s, weight s)) rows"
  by (induction rows arbitrary: rows') (auto simp: score_update_iff split: sum.splits if_splits)

lemma update_scores_keep:
  "map (\<lambda>s. (score_value s, dimension s, weight s)) (update_scores us rows) =
   map (\<lambda>s. (score_value s, dimension s, weight s)) rows"
  by (induction us rows rule: update_scores.induct) (auto split: sum.splits dest: update_rows_scores)

text \<open>C39: No sequence of UPDATE statements changes the value, the dimension or the weight of a stored
  score: the trigger refuses each statement that would. The rationale is not protected: a
  comparison with NULL is not true, so that clearing it and then setting it replaces it by any
  text whatever.
\<close>

theorem scores_immutable:
  "map (\<lambda>s. (score_value s, dimension s, weight s)) (update_scores us rows) =
     map (\<lambda>s. (score_value s, dimension s, weight s)) rows
   \<and> update_scores [(\<lambda>_. True, \<lambda>s. s\<lparr>rationale := None\<rparr>), (\<lambda>_. True, \<lambda>s. s\<lparr>rationale := Some t\<rparr>)] rows =
     map (\<lambda>s. s\<lparr>rationale := Some t\<rparr>) rows"
proof -
  have 1: "update_rows prevent_score_update (\<lambda>_. True) (\<lambda>s. s\<lparr>rationale := None\<rparr>) rows =
      Inr (map (\<lambda>s. s\<lparr>rationale := None\<rparr>) rows)"
    by (induction rows) (simp_all add: score_update_iff [THEN iffD2])
  have 2: "update_rows prevent_score_update (\<lambda>_. True) (\<lambda>s. s\<lparr>rationale := Some t\<rparr>)
      (map (\<lambda>s. s\<lparr>rationale := None\<rparr>) rows) = Inr (map (\<lambda>s. s\<lparr>rationale := Some t\<rparr>) rows)"
    by (induction rows) (simp_all add: score_update_iff [THEN iffD2])
  show ?thesis by (simp add: update_scores_keep 1 2)
qed

lemma audit_rows_fixed:
  "list_ex P rows \<Longrightarrow> \<exists>e. update_rows (\<lambda>x y. case prevent_audit_log_modification x (Some y) of
     Inl e \<Rightarrow> Inl e | Inr None \<Rightarrow> Inr x | Inr (Some z) \<Rightarrow> Inr z) P f rows = Inl e"
  by (induction rows) (auto simp: prevent_audit_log_modification_def split: sum.splits)

subsection \<open>Labels of enumerated types\<close>

text \<open>
  SQLAlchemy's \<open>Enum(cls)\<close> stores the name of a member; with \<open>values_callable\<close> it stores the value.
  The models pass \<open>values_callable\<close> for the plan tier, the role, the submission status and the run
  status, and not for the audit action and the worker status.
\<close>

definition plan_tier_label :: "plan_tier \<Rightarrow> string" where
  "plan_tier_label p = (case p of FREE \<Rightarrow> ''free'' | PRO \<Rightarrow> ''pro'' | ENTERPRISE \<Rightarrow> ''enterprise'')"

definition user_role_label :: "user_role \<Rightarrow> string" where
  "user_role_label r = (case r of UR_ADMIN \<Rightarrow> ''admin'' | UR_JUDGE \<Rightarrow> ''judge'' | UR_VIEWER \<Rightarrow> ''viewer'')"

definition submission_status_label :: "submission_status \<Rightarrow> string" where
  "submission_status_label s = (case s of DRAFT \<Rightarrow> ''draft'' | SUBMITTED \<Rightarrow> ''submitted''
     | UNDER_REVIEW \<Rightarrow> ''under_review'' | EVALUATED \<Rightarrow> ''evaluated'' | ARCHIVED \<Rightarrow> ''archived'')"

definition run_status_label :: "run_status \<Rightarrow> string" where
  "run_status_label s = (case s of PENDING \<Rightarrow> ''pending'' | RUNNING \<Rightarrow> ''running'' | COMPLETED \<Rightarrow> ''completed''
     | FAILED \<Rightarrow> ''failed'' | CANCELLED \<Rightarrow> ''cancelled'')"

definition worker_status_label :: "worker_status \<Rightarrow> string" where
  "worker_status_label s = (case s of W_PENDING \<Rightarrow> ''PENDING'' | W_RUNNING \<Rightarrow> ''RUNNING''
     | W_COMPLETED \<Rightarrow> ''COMPLETED'' | W_FAILED \<Rightarrow> ''FAILED'')"

definition audit_action_label :: "audit_action \<Rightarrow> string" where
  "audit_action_label a = (case find (\<lambda>(_, b). b = a) audit_members of Some (n, _) \<Rightarrow> n | None \<Rightarrow> [])"

definition label_ok :: "string \<Rightarrow> string \<Rightarrow> bool" where
  "label_ok n l = (case map_of enum_types n of Some ls \<Rightarrow> l \<in> set ls | None \<Rightarrow> False)"

lemma label_lists:
  "map_of enum_types ''plan_tier'' = Some [''free'', ''pro'', ''enterprise'']"
  "map_of enum_types ''user_role'' = Some [''admin'', ''judge'', ''viewer'']"
  "map_of enum_types ''submission_status'' = Some [''draft'', ''submitted'', ''under_review'', ''evaluated'', ''archived'']"
  "map_of enum_types ''run_status'' = Some [''pending'', ''running'', ''completed'', ''failed'', ''cancelled'']"
  "map_of enum_types ''worker_status'' = Some [''pending'', ''running'', ''completed'', ''failed'']"
  by (simp_all add: enum_types_def)

lemma label_facts: "label_ok ''plan_tier'' (plan_tier_label p)" "label_ok ''user_role'' (user_role_label r)"
  "label_ok ''submission_status'' (submission_status_label s)" "label_ok ''run_status'' (run_status_label u)"
  "\<not> label_ok ''worker_status'' (worker_status_label w)"
proof -
  show "label_ok ''plan_tier'' (plan_tier_label p)"
    unfolding label_ok_def label_lists by (cases p; simp add: plan_tier_label_def)
  show "label_ok ''user_role'' (user_role_label r)"
    unfolding label_ok_def label_lists by (cases r; simp add: user_role_label_def)
  show "label_ok ''submission_status'' (submission_status_label s)"
    unfolding label_ok_def label_lists by (cases s; simp add: submission_status_label_def)
  show "label_ok ''run_status'' (run_status_label u)"
    unfolding label_ok_def label_lists by (cases u; simp add: run_status_label_def)
  show "\<not> label_ok ''worker_status'' (worker_status_label w)"
    unfolding label_ok_def label_lists by (cases w; simp add: worker_status_label_def)
qed

lemma audit_label: "\<not> label_ok ''audit_action'' (audit_action_label a)"
proof -
  have m: "list_all (\<lambda>(n, _). \<not> label_ok ''audit_action'' n) audit_members" "\<not> label_ok ''audit_action'' []"
    by code_simp+
  then show ?thesis
    unfolding audit_action_label_def list_all_iff find_Some_iff
    by (auto split: option.split dest!: find_Some_iff [THEN iffD1]) (metis case_prodD nth_mem)
qed

subsection \<open>A refused statement dooms its transaction\<close>

text \<open>
  The transaction a session has open: the committed database, the one the statements have made
  and whether a statement was refused. PostgreSQL then refuses every further statement and turns
  the COMMIT into a ROLLBACK, without an error.
\<close>

record transaction =
  committed :: db
  working :: db
  aborted :: bool

definition tx_open :: "db \<Rightarrow> transaction" where
  "tx_open d = \<lparr>committed = d, working = d, aborted = False\<rparr>"

definition tx_execute :: "(db \<Rightarrow> exn + db) \<Rightarrow> transaction \<Rightarrow> (transaction, unit) outcome" where
  "tx_execute stmt t =
     (if aborted t then (Inl DBAPIError, t)
      else case stmt (working t) of
             Inl e \<Rightarrow> (Inl e, t\<lparr>aborted := True\<rparr>)
           | Inr d \<Rightarrow> (Inr (), t\<lparr>working := d\<rparr>))"

definition tx_commit :: "transaction \<Rightarrow> db" where
  "tx_commit t = (if aborted t then committed t else working t)"

definition tx_session :: "(transaction \<Rightarrow> (transaction, 'a) outcome) \<Rightarrow> db \<Rightarrow> (db, 'a) outcome" where
  "tx_session h d =
     (case h (tx_open d) of (Inr x, t) \<Rightarrow> (Inr x, tx_commit t) | (Inl e, t) \<Rightarrow> (Inl e, committed t))"

text \<open>The INSERT of \<open>create_audit_log\<close> with the label it sends, and the function, which logs an
  exception and returns.\<close>

definition insert_audit :: "(audit_action \<Rightarrow> string) \<Rightarrow> audit_log \<Rightarrow> db \<Rightarrow> exn + db" where
  "insert_audit lbl l d =
     (if label_ok ''audit_action'' (lbl (al_action l))
      then Inr (d\<lparr>audit_logs := insert_row l (audit_logs d)\<rparr>) else Inl DBAPIError)"

definition tx_audit :: "(audit_action \<Rightarrow> string) \<Rightarrow> audit_log \<Rightarrow> transaction \<Rightarrow> (transaction, unit) outcome" where
  "tx_audit lbl l t = (case tx_execute (insert_audit lbl l) t of (_, t') \<Rightarrow> (Inr (), t'))"

text \<open>A service operation: it works, then writes its audit entry, then returns its result.\<close>

definition audited :: "(audit_action \<Rightarrow> string) \<Rightarrow> (db \<Rightarrow> exn + db) \<Rightarrow> audit_log \<Rightarrow> 'a
    \<Rightarrow> transaction \<Rightarrow> (transaction, 'a) outcome" where
  "audited lbl work l x t =
     (case tx_execute work t of
        (Inl e, t1) \<Rightarrow> (Inl e, t1)
      | (Inr _, t1) \<Rightarrow> (case tx_audit lbl l t1 of (_, t2) \<Rightarrow> (Inr x, t2)))"

text \<open>C40: On a migrated database the labels of the plan tier, role, submission status and run status
  are all labels of their types, but no audit action and no worker status is: the migration has
  the values of the enumerations, and SQLAlchemy sends the names. Since the failed audit INSERT is
  swallowed inside the transaction of the request, an operation that audits reports success and
  its changes are rolled back; with an accepted label they are committed with the entry.
\<close>

theorem audited_work_is_lost:
  "label_ok ''plan_tier'' (plan_tier_label p) \<and> label_ok ''user_role'' (user_role_label r)
   \<and> label_ok ''submission_status'' (submission_status_label s) \<and> label_ok ''run_status'' (run_status_label u)
   \<and> \<not> label_ok ''worker_status'' (worker_status_label w) \<and> \<not> label_ok ''audit_action'' (audit_action_label a)
   \<and> tx_session (audited audit_action_label work l x) d =
       (case work d of Inl e \<Rightarrow> (Inl e, d) | Inr d' \<Rightarrow> (Inr x, d))
   \<and> tx_session (audited (\<lambda>_. ''login'') work l x) d =
       (case work d of Inl e \<Rightarrow> (Inl e, d)
        | Inr d' \<Rightarrow> (Inr x, d'\<lparr>audit_logs := insert_row l (audit_logs d')\<rparr>))"
proof -
  have login: "label_ok ''audit_action'' ''login''" by code_simp
  have "tx_session (audited audit_action_label work l x) d =
       (case work d of Inl e \<Rightarrow> (Inl e, d) | Inr d' \<Rightarrow> (Inr x, d))"
    by (cases "work d") (simp_all add: tx_session_def audited_def tx_execute_def tx_audit_def tx_open_def
        tx_commit_def insert_audit_def audit_label)
  moreover have "tx_session (audited (\<lambda>_. ''login'') work l x) d =
       (case work d of Inl e \<Rightarrow> (Inl e, d)
        | Inr d' \<Rightarrow> (Inr x, d'\<lparr>audit_logs := insert_row l (audit_logs d')\<rparr>))"
    by (cases "work d") (simp_all add: tx_session_def audited_def tx_execute_def tx_audit_def tx_open_def
        tx_commit_def insert_audit_def login)
  ultimately show ?thesis using label_facts audit_label by blast
qed

subsection \<open>Row level security\<close>

text \<open>
  \<open>set_org_context\<close>: the argument is matched against the text of a UUID (\<open>$\<close> also admits one
  newline at the end), then a SET with a bind parameter is sent, which PostgreSQL refuses: SET is
  no statement that takes parameters.
\<close>

definition set_org_context :: "string \<Rightarrow> string option \<Rightarrow> (string option, unit) outcome" where
  "set_org_context org setting =
     (case match_uuid org of
        Some r \<Rightarrow> if r = [] \<or> r = [CHR 0x0A] then (Inl DBAPIError, setting)
                  else (Inl (ValueError (''Invalid org_id format: '' @ org)), setting)
      | None \<Rightarrow> (Inl (ValueError (''Invalid org_id format: '' @ org)), setting))"

text \<open>
  A SELECT under the policies, for the role that owns the tables (policies do not bind it, the
  tables are not forced) and for any other: \<open>current_setting\<close> fails when the setting was never
  made, which happens as soon as a row is tested.
\<close>

definition rls_select :: "bool \<Rightarrow> string option \<Rightarrow> ('a \<Rightarrow> string option) \<Rightarrow> bool \<Rightarrow> 'a list \<Rightarrow> exn + 'a list" where
  "rls_select owner setting org null_ok rows =
     (if owner then Inr rows
      else if rows = [] then Inr []
      else case setting of
             None \<Rightarrow> Inl DBAPIError
           | Some o' \<Rightarrow> Inr (filter (\<lambda>x. case org x of Some p \<Rightarrow> p = o' | None \<Rightarrow> null_ok) rows))"

text \<open>Any number of calls of \<open>set_org_context\<close> before the SELECT.\<close>

definition with_contexts :: "string list \<Rightarrow> string option" where
  "with_contexts orgs = fold (\<lambda>o' st. snd (set_org_context o' st)) orgs None"

lemma set_org_context_fails: "\<exists>e. set_org_context org st = (Inl e, st)"
  by (auto simp: set_org_context_def split: option.split)

lemma with_contexts_none: "with_contexts orgs = None"
proof -
  have "snd (set_org_context o' st) = st" for o' st using set_org_context_fails [of o' st] by auto
  then show ?thesis by (induction orgs) (simp_all add: with_contexts_def)
qed

text \<open>
  Row level security never separates the organizations: \<open>set_org_context\<close> fails on every
  argument and leaves the setting unset, so the role that owns the tables reads the rows of all
  organizations, and any other role gets an error from every table that has a row.
\<close>

theorem row_security_never_filters:
  "(\<exists>e. set_org_context o' st = (Inl e, st))
   \<and> rls_select True (with_contexts orgs) org null_ok rows = Inr rows
   \<and> rls_select False (with_contexts orgs) org null_ok (x # rows) = Inl DBAPIError"
  by (simp add: set_org_context_fails with_contexts_none rls_select_def)

subsection \<open>Mappers\<close>

text \<open>
  Every paired relation has its counterpart, and with all classes imported, as in the API, the
  mappers configure. With the classes the package imports, which is all that a worker process
  has, they do not: organizations and users refer to datasets and API keys, so that the first
  query of every worker fails.
\<close>

theorem workers_cannot_query:
  "list_all points_back all_relations
   \<and> configure_mappers api_classes = Inr ()
   \<and> is_ok (configure_mappers registered_classes) = False
   \<and> map (\<lambda>r. (rel_class r, rel_attr r, rel_target r)) (unresolved registered_classes) =
       [(''Organization'', ''datasets'', ''Dataset''), (''Organization'', ''api_keys'', ''ApiKey''),
        (''User'', ''api_keys'', ''ApiKey'')]"
proof -
  have paired: "list_all points_back all_relations" by code_simp
  have api: "unresolved api_classes = []" by code_simp
  have names: "map (\<lambda>r. (rel_class r, rel_attr r, rel_target r)) (unresolved registered_classes) =
       [(''Organization'', ''datasets'', ''Dataset''), (''Organization'', ''api_keys'', ''ApiKey''),
        (''User'', ''api_keys'', ''ApiKey'')]" by code_simp
  then have "unresolved registered_classes \<noteq> []" by auto
  then show ?thesis using paired api names by (simp add: configure_mappers_def refuse_def)
qed

end
