(* ===== verification/Repositories.thy ===== *)
theory Repositories
  imports Cache Api
begin

section \<open>User, organization and submission repositories\<close>

text \<open>
  \<open>repositories/user_repository.py\<close>, \<open>organization_repository.py\<close>,
  \<open>submission_repository.py\<close> and \<open>submission_cache.py\<close>: the specialised lookups, the login
  counters, the search by name with SQL's pattern language, the counts for the dashboard, the
  cache of listings, and whether Python can import the modules at all.
\<close>

subsection \<open>Users and organizations\<close>

definition user_get_by_email :: "string \<Rightarrow> user list \<Rightarrow> exn + user option" where
  "user_get_by_email addr t =
     scalar_one_or_none (select_where (\<lambda>u. email u = str_lower addr \<and> active u) t)"

definition email_exists :: "string \<Rightarrow> user list \<Rightarrow> exn + bool" where
  "email_exists addr t =
     (case user_get_by_email addr t of Inl e \<Rightarrow> Inl e | Inr u \<Rightarrow> Inr (u \<noteq> None))"

definition users_of_org :: "uuid \<Rightarrow> int \<Rightarrow> int \<Rightarrow> (user list \<Rightarrow> user list) \<Rightarrow> user list \<Rightarrow> exn + (user list \<times> nat)" where
  "users_of_org org page page_size sort_by t = list_by_org org page page_size sort_by False [] t"

definition increment_failed_login :: "timestamp \<Rightarrow> uuid \<Rightarrow> user list \<Rightarrow> user list" where
  "increment_failed_login t i us = update_where (\<lambda>u. ident u = i)
     (\<lambda>u. touch t (u\<lparr>failed_login_attempts := failed_login_attempts u + 1\<rparr>)) us"

definition reset_failed_login :: "timestamp \<Rightarrow> uuid \<Rightarrow> user list \<Rightarrow> user list" where
  "reset_failed_login t i us = update_where (\<lambda>u. ident u = i)
     (\<lambda>u. touch t (u\<lparr>failed_login_attempts := 0, last_login_at := Some t\<rparr>)) us"

definition get_by_slug :: "string \<Rightarrow> organization list \<Rightarrow> exn + organization option" where
  "get_by_slug s t = scalar_one_or_none (select_where (\<lambda>g. slug g = s \<and> active g) t)"

definition slug_exists :: "string \<Rightarrow> organization list \<Rightarrow> exn + bool" where
  "slug_exists s t = (case get_by_slug s t of Inl e \<Rightarrow> Inl e | Inr g \<Rightarrow> Inr (g \<noteq> None))"

subsection \<open>The pattern language of LIKE\<close>

text \<open>
  PostgreSQL's \<open>LIKE\<close>: \<open>%\<close> stands for any text, \<open>_\<close> for any character, a backslash takes the next
  character literally. \<open>ILIKE\<close> compares the lower case of both sides.
\<close>

fun like_match :: "string \<Rightarrow> string \<Rightarrow> bool" where
  "like_match [] s = (s = [])"
| "like_match (c # p) s =
     (if c = CHR ''%'' then like_match p s \<or> (case s of [] \<Rightarrow> False | _ # s' \<Rightarrow> like_match (c # p) s')
      else if c = CHR ''_'' then (case s of [] \<Rightarrow> False | _ # s' \<Rightarrow> like_match p s')
      else if c = CHR 0x5C then
        (case p of [] \<Rightarrow> False
         | d # p' \<Rightarrow> (case s of [] \<Rightarrow> False | x # s' \<Rightarrow> x = d \<and> like_match p' s'))
      else (case s of [] \<Rightarrow> False | x # s' \<Rightarrow> x = c \<and> like_match p s'))"

definition ilike :: "string \<Rightarrow> string \<Rightarrow> bool" where
  "ilike s p = like_match (str_lower p) (str_lower s)"

definition wildcard :: "char \<Rightarrow> bool" where
  "wildcard c \<longleftrightarrow> c = CHR ''%'' \<or> c = CHR ''_'' \<or> c = CHR 0x5C"

lemma like_percent: "like_match (CHR ''%'' # p) s \<longleftrightarrow> (\<exists>u v. s = u @ v \<and> like_match p v)"
proof (induction s)
  case (Cons x s)
  have "(\<exists>u v. x # s = u @ v \<and> like_match p v) \<longleftrightarrow> like_match p (x # s) \<or> (\<exists>u v. s = u @ v \<and> like_match p v)"
    by (metis append_Cons append_Nil list.sel(3) neq_Nil_conv)
  then show ?case using Cons by simp
qed simp

lemma like_prefix: "list_all (\<lambda>c. \<not> wildcard c) q \<Longrightarrow>
   like_match (q @ ''%'') s \<longleftrightarrow> starts_with q s"
proof (induction q arbitrary: s)
  case Nil
  have "like_match ''%'' s" unfolding like_percent by (intro exI [of _ s] exI [of _ "[]"]) simp
  then show ?case by (simp add: starts_with_def)
next
  case (Cons c q)
  then show ?case by (cases s) (auto simp: wildcard_def starts_with_def)
qed

lemma contains_split: "str_contains q s \<longleftrightarrow> (\<exists>u v. s = u @ v \<and> starts_with q v)"
proof (induction s)
  case Nil
  then show ?case by (auto simp: starts_with_def)
next
  case (Cons x s)
  have "(\<exists>u v. x # s = u @ v \<and> starts_with q v) \<longleftrightarrow> starts_with q (x # s) \<or> (\<exists>u v. s = u @ v \<and> starts_with q v)"
    by (metis append_Cons append_Nil list.sel(3) neq_Nil_conv)
  then show ?case using Cons by simp
qed

lemma like_contains: "list_all (\<lambda>c. \<not> wildcard c) q \<Longrightarrow>
   like_match (''%'' @ q @ ''%'') s \<longleftrightarrow> str_contains q s"
  by (simp only: append_Cons append_Nil like_percent contains_split like_prefix)

lemma lower_wildcard: "wildcard (lower_char c) \<longleftrightarrow> wildcard c"
proof -
  have code: "wildcard d \<longleftrightarrow> char_code d = 37 \<or> char_code d = 95 \<or> char_code d = 92" for d
    unfolding wildcard_def by (simp flip: char_code_inj) (simp add: char_code_def)
  show ?thesis unfolding code lower_char_code
    by (auto simp: is_upper_def is_upper_code_def)
qed

lemma lower_wildcards: "list_all (\<lambda>c. \<not> wildcard c) q \<Longrightarrow> list_all (\<lambda>c. \<not> wildcard c) (str_lower q)"
  by (simp add: str_lower_def list_all_iff lower_wildcard)

lemma str_lower_append [simp]: "str_lower (a @ b) = str_lower a @ str_lower b"
  by (simp add: str_lower_def)

lemma str_lower_percent [simp]: "str_lower ''%'' = ''%''"
  by (simp add: str_lower_def lower_char_def is_upper_def is_upper_code_def char_code_def)

lemma ilike_contains: "list_all (\<lambda>c. \<not> wildcard c) q \<Longrightarrow>
   ilike s (''%'' @ q @ ''%'') \<longleftrightarrow> str_contains (str_lower q) (str_lower s)"
  unfolding ilike_def str_lower_append str_lower_percent by (rule like_contains [OF lower_wildcards])

subsection \<open>Submissions\<close>

definition get_with_runs :: "uuid \<Rightarrow> uuid \<Rightarrow> submission list \<Rightarrow> evaluation_run list
    \<Rightarrow> exn + (submission \<times> evaluation_run list) option" where
  "get_with_runs i org t rt =
     (case scalar_one_or_none (select_where (\<lambda>s. ident s = i \<and> organization_id s = org \<and> active s) t) of
        Inl e \<Rightarrow> Inl e
      | Inr None \<Rightarrow> Inr None
      | Inr (Some s) \<Rightarrow> Inr (Some (s, select_where (\<lambda>r. submission_id r = ident s) rt)))"

definition list_by_status :: "uuid \<Rightarrow> submission_status \<Rightarrow> int \<Rightarrow> int \<Rightarrow> submission list
    \<Rightarrow> exn + (submission list \<times> nat)" where
  "list_by_status org st page page_size t =
     list_by_org org page page_size (order_by_desc created_at) False [\<lambda>s. sub_status s = st] t"

text \<open>\<open>GROUP BY status\<close> has one row per status that occurs; the dictionary maps its value to the
  count.\<close>

definition all_statuses :: "submission_status list" where
  "all_statuses = [DRAFT, SUBMITTED, UNDER_REVIEW, EVALUATED, ARCHIVED]"

definition count_submissions_by_status :: "uuid \<Rightarrow> submission list \<Rightarrow> (string \<times> nat) list" where
  "count_submissions_by_status org t =
     (let rows = select_where (\<lambda>s. organization_id s = org \<and> active s) t
      in map (\<lambda>st. (submission_status_value st, row_count (\<lambda>s. sub_status s = st) rows))
           (filter (\<lambda>st. list_ex (\<lambda>s. sub_status s = st) rows) all_statuses))"

definition search_by_name :: "uuid \<Rightarrow> string \<Rightarrow> int \<Rightarrow> int \<Rightarrow> submission list
    \<Rightarrow> exn + (submission list \<times> nat)" where
  "search_by_name org query page page_size t =
     list_by_org org page page_size (order_by_desc created_at) False
       [\<lambda>s. ilike (startup_name s) (''%'' @ query @ ''%'')] t"

lemma all_statuses: "st \<in> set all_statuses" "distinct all_statuses"
  by (cases st; simp add: all_statuses_def) (simp add: all_statuses_def)

lemma status_value_inj: "submission_status_value a = submission_status_value b \<longleftrightarrow> a = b"
  by (cases a; cases b; simp)

lemma count_partition:
  "distinct xs \<Longrightarrow> sum_list (map (\<lambda>x. row_count (\<lambda>s. f s = x) rows) (filter (\<lambda>x. list_ex (\<lambda>s. f s = x) rows) xs))
     = row_count (\<lambda>s. f s \<in> set xs) rows"
proof (induction xs)
  case (Cons x xs)
  have 1: "row_count (\<lambda>s. f s \<in> set (x # xs)) rows = row_count (\<lambda>s. f s = x) rows + row_count (\<lambda>s. f s \<in> set xs) rows"
    using Cons.prems unfolding row_count_def by (induction rows) auto
  have "row_count (\<lambda>s. f s = x) rows = 0" if "\<not> list_ex (\<lambda>s. f s = x) rows"
    using that by (auto simp: row_count_def filter_empty_conv list_ex_iff)
  then show ?case using Cons 1 by simp
qed (simp add: row_count_def)

lemma list_by_status_total:
  "list_by_status org st 1 n t = Inr (xs, k) \<Longrightarrow>
   k = row_count (\<lambda>s. sub_status s = st) (select_where (\<lambda>s. organization_id s = org \<and> active s) t)"
proof -
  assume "list_by_status org st 1 n t = Inr (xs, k)"
  then have "k = length (select_where (list_conditions org False [\<lambda>s. sub_status s = st]) t)"
    by (auto simp: list_by_status_def list_by_org_def Let_def split: sum.splits)
  moreover have "filter (list_conditions org False [\<lambda>s. sub_status s = st]) t =
      filter (\<lambda>s. sub_status s = st) (filter (\<lambda>s. organization_id s = org \<and> active s) t)"
    unfolding filter_filter by (rule filter_cong) (auto simp: list_conditions_def)
  ultimately show ?thesis by (simp add: row_count_def select_where_def)
qed

lemma search_rows:
  "list_all (\<lambda>c. \<not> wildcard c) q \<Longrightarrow> search_by_name org q page n t =
   list_by_org org page n (order_by_desc created_at) False
     [\<lambda>s. str_contains (str_lower q) (str_lower (startup_name s))] t"
  unfolding search_by_name_def by (simp only: ilike_contains)

lemma like_all: "like_match ''%%%'' s"
  unfolding like_percent by (intro exI [of _ s] exI [of _ "[]"], simp)+

text \<open>
  A search by name without wildcards finds exactly the submissions of the organization whose
  name contains the text, ignoring case, and agrees in pages and total with the generic listing
  under that filter. The text is not escaped: a percent sign finds every submission.
\<close>

theorem search_by_name_correct:
  assumes "list_all (\<lambda>c. \<not> wildcard c) q"
  shows "search_by_name org q page n t = list_by_org org page n (order_by_desc created_at) False
       [\<lambda>s. str_contains (str_lower q) (str_lower (startup_name s))] t
   \<and> search_by_name org ''%'' page n t = list_by_org org page n (order_by_desc created_at) False [\<lambda>_. True] t"
proof -
  have "str_lower ''%%%'' = ''%%%''" by code_simp
  then have "ilike s (''%'' @ ''%'' @ ''%'')" for s
    using like_all [of "str_lower s"] by (simp only: ilike_def append.simps)
  then show ?thesis using search_rows [OF assms] unfolding search_by_name_def by (simp del: append.simps)
qed

theorem search_by_name_correct_witness:
  "search_by_name 1 ''CM'' 1 20 [sample_submission DRAFT] = Inr ([sample_submission DRAFT], 1)"
proof -
  have q: "list_all (\<lambda>c. \<not> wildcard c) ''CM''" by (simp add: wildcard_def)
  have "str_contains (str_lower ''CM'') (str_lower (startup_name (sample_submission DRAFT)))"
    by code_simp
  moreover have "organization_id (sample_submission DRAFT) = 1" "active (sample_submission DRAFT)"
    by (simp_all add: sample_submission_def)
  ultimately show ?thesis using search_by_name_correct [OF q, of 1 1 20 "[sample_submission DRAFT]"]
    by (simp add: list_by_org_def select_where_def list_conditions_def offset_limit_def order_by_desc_def)
qed

text \<open>
  The dashboard counts partition the submissions of an organization: every status that occurs
  is listed once with the total that the listing of this status has, and the counts add up to the
  number of all its submissions that are not deleted.
\<close>

theorem status_counts_partition:
  assumes "list_by_status org st 1 n t = Inr (xs, k)"
  shows "sum_list (map snd (count_submissions_by_status org t)) = row_count (\<lambda>s. organization_id s = org \<and> active s) t
    \<and> distinct (map fst (count_submissions_by_status org t))
    \<and> map_of (count_submissions_by_status org t) (submission_status_value st) = (if k = 0 then None else Some k)"
proof -
  let ?rows = "select_where (\<lambda>s. organization_id s = org \<and> active s) t"
  let ?present = "filter (\<lambda>x. list_ex (\<lambda>s. sub_status s = x) ?rows) all_statuses"
  have "sum_list (map snd (count_submissions_by_status org t)) = row_count (\<lambda>s. sub_status s \<in> set all_statuses) ?rows"
    using count_partition [OF all_statuses(2), of sub_status ?rows] by (simp add: count_submissions_by_status_def Let_def comp_def)
  also have "\<dots> = length ?rows" using all_statuses(1) by (simp add: row_count_def)
  finally have sums: "sum_list (map snd (count_submissions_by_status org t)) = row_count (\<lambda>s. organization_id s = org \<and> active s) t"
    by (simp add: row_count_def select_where_def)
  have dist: "distinct (map fst (count_submissions_by_status org t))"
    using all_statuses(2) by (simp add: count_submissions_by_status_def Let_def comp_def distinct_map inj_on_def status_value_inj)
  have k: "k = row_count (\<lambda>s. sub_status s = st) ?rows" using list_by_status_total [OF assms] .
  have "map_of (map (\<lambda>x. (submission_status_value x, g x)) ys) (submission_status_value st) =
      (if st \<in> set ys then Some (g st) else None)" for g :: "submission_status \<Rightarrow> nat" and ys
    by (induction ys) (auto simp: status_value_inj)
  then have "map_of (count_submissions_by_status org t) (submission_status_value st) =
      (if st \<in> set ?present then Some k else None)"
    by (simp add: count_submissions_by_status_def Let_def k)
  moreover have "st \<in> set ?present \<longleftrightarrow> k \<noteq> 0"
    using all_statuses(1) [of st] by (auto simp: k row_count_def list_ex_iff filter_empty_conv)
  ultimately show ?thesis using sums dist by simp
qed

theorem status_counts_partition_witness:
  "map_of (count_submissions_by_status 1 [sample_submission DRAFT]) ''draft'' = Some 1"
proof -
  have org: "organization_id (sample_submission DRAFT) = 1" "active (sample_submission DRAFT)"
    "sub_status (sample_submission DRAFT) = DRAFT"
    by (simp_all add: sample_submission_def)
  then have "list_by_status 1 DRAFT 1 20 [sample_submission DRAFT] = Inr ([sample_submission DRAFT], 1)"
    by (simp add: list_by_status_def list_by_org_def select_where_def list_conditions_def offset_limit_def
        order_by_desc_def)
  from status_counts_partition [OF this] show ?thesis by simp
qed

subsection \<open>The cache of listings\<close>

text \<open>
  A key names the organization, the cursor and the hash of the filters (a parameter, with the
  JSON text of the filters). Every write through the repository deletes the keys of the
  organization by pattern; a soft deletion does so only when it is told the organization.
\<close>

definition org_prefix :: "uuid \<Rightarrow> string" where
  "org_prefix org = ''submissions:'' @ nat_str org @ '':''"

definition listing_key :: "(string \<Rightarrow> string) \<Rightarrow> uuid \<Rightarrow> string option \<Rightarrow> string \<Rightarrow> string" where
  "listing_key sha256 org cursor filters =
     org_prefix org @ (case cursor of None \<Rightarrow> ''start'' | Some c \<Rightarrow> if c = [] then ''start'' else c)
       @ '':'' @ take 16 (sha256 filters)"

definition invalidate_org_submissions :: "(string \<Rightarrow> string \<Rightarrow> bool) \<Rightarrow> uuid \<Rightarrow> cache_manager \<Rightarrow> cache_manager" where
  "invalidate_org_submissions glob org m = delete_pattern glob (org_prefix org @ ''*'') m"

definition sub_repo_create :: "(string \<Rightarrow> string \<Rightarrow> bool) \<Rightarrow> submission
    \<Rightarrow> submission list \<times> cache_manager \<Rightarrow> submission list \<times> cache_manager" where
  "sub_repo_create glob s st =
     (repo_create s (fst st), invalidate_org_submissions glob (organization_id s) (snd st))"

definition sub_repo_create_many :: "(string \<Rightarrow> string \<Rightarrow> bool) \<Rightarrow> submission list
    \<Rightarrow> submission list \<times> cache_manager \<Rightarrow> submission list \<times> cache_manager" where
  "sub_repo_create_many glob ss st =
     (repo_create_many ss (fst st),
      fold (invalidate_org_submissions glob) (remdups (map organization_id ss)) (snd st))"

definition sub_repo_soft_delete :: "(string \<Rightarrow> string \<Rightarrow> bool) \<Rightarrow> timestamp \<Rightarrow> uuid \<Rightarrow> uuid option
    \<Rightarrow> submission list \<times> cache_manager \<Rightarrow> bool \<times> submission list \<times> cache_manager" where
  "sub_repo_soft_delete glob t i org st =
     (let (deleted, rows) = repo_soft_delete t i org (fst st)
      in (deleted, rows, case org of
            Some o' \<Rightarrow> if deleted then invalidate_org_submissions glob o' (snd st) else snd st
          | None \<Rightarrow> snd st))"

text \<open>
  The cached listing. On a miss it calls \<open>submission_repo.list_paginated\<close>, which no repository
  has; the lines after the call, which store the page, are never reached.
\<close>

definition get_cached_submissions :: "(string \<Rightarrow> string) \<Rightarrow> rat \<Rightarrow> uuid \<Rightarrow> string option \<Rightarrow> string
    \<Rightarrow> cache_manager \<Rightarrow> exn + (json \<times> json option)" where
  "get_cached_submissions sha256 t org cursor filters m =
     (let cached = (if is_healthy m then mgr_get t (listing_key sha256 org cursor filters) m else None)
      in case cached of
           Some j \<Rightarrow>
             if json_truthy j
             then (case json_get j ''val'' of
                     None \<Rightarrow> Inl (KeyError ''val'')
                   | Some v \<Rightarrow> (case json_get v ''items'' of
                       None \<Rightarrow> Inl (KeyError ''items'')
                     | Some items \<Rightarrow> Inr (items, json_get v ''next_cursor'')))
             else Inl (AttributeError ''list_paginated'')
         | None \<Rightarrow> Inl (AttributeError ''list_paginated''))"

text \<open>What Redis promises of a pattern that is a literal text followed by a star.\<close>

definition glob_prefix :: "(string \<Rightarrow> string \<Rightarrow> bool) \<Rightarrow> bool" where
  "glob_prefix glob \<longleftrightarrow> (\<forall>pre k. list_all (\<lambda>c. c \<notin> set ''*?[]^-'' \<and> c \<noteq> CHR 0x5C) pre \<longrightarrow>
     glob (pre @ ''*'') k = starts_with pre k)"

lemma digit_code: "c \<in> set (nat_str n) \<Longrightarrow> 48 \<le> char_code c \<and> char_code c \<le> 57"
proof (induction n rule: nat_str.induct)
  case (1 n)
  have "char_code (digit_char k) = 48 + k mod 10" for k
    unfolding digit_char_def by (rule char_code_char_of) (use mod_less_divisor [of 10 k] in linarith)
  then have d: "48 \<le> char_code (digit_char k) \<and> char_code (digit_char k) \<le> 57" for k
    using mod_less_divisor [of 10 k] by (simp only:) linarith
  show ?case using 1 d by (subst (asm) (2) nat_str.simps) (auto split: if_splits)
qed

lemma org_prefix_literal: "list_all (\<lambda>c. c \<notin> set ''*?[]^-'' \<and> c \<noteq> CHR 0x5C) (org_prefix org)"
proof -
  have "c \<notin> set ''*?[]^-'' \<and> c \<noteq> CHR 0x5C" if "c \<in> set (nat_str org)" for c
    using digit_code [OF that] by (auto simp: char_code_def)
  then show ?thesis by (auto simp: org_prefix_def list_all_iff)
qed

lemma starts_with_append: "starts_with p s \<longleftrightarrow> (\<exists>r. s = p @ r)"
  unfolding starts_with_def by (metis append_eq_conv_conj append_take_drop_id)

lemma digits_end_same:
  "a @ CHR '':'' # r = b @ CHR '':'' # r' \<Longrightarrow> CHR '':'' \<notin> set a \<Longrightarrow> CHR '':'' \<notin> set b \<Longrightarrow> a = b"
proof (induction a arbitrary: b)
  case Nil
  then show ?case by (cases b) auto
next
  case (Cons x a)
  then show ?case by (cases b) auto
qed

lemma org_prefix_other:
  assumes "starts_with (org_prefix a) (org_prefix b @ s)"
  shows "a = b"
proof -
  have no_colon: "CHR '':'' \<notin> set (nat_str n)" for n
    using digit_code [of "CHR '':''" n] by (auto simp: char_code_def)
  obtain r where "org_prefix b @ s = org_prefix a @ r" using assms starts_with_append by blast
  then have "nat_str b @ CHR '':'' # s = nat_str a @ CHR '':'' # r" by (simp add: org_prefix_def)
  then have "nat_str b = nat_str a" by (rule digits_end_same) (rule no_colon)+
  then show ?thesis using nat_str_inj by metis
qed

lemma listing_key_prefix: "starts_with (org_prefix org) (listing_key sha256 org cursor filters)"
  by (simp add: listing_key_def starts_with_append)

lemma listing_key_other: "a \<noteq> b \<Longrightarrow> \<not> starts_with (org_prefix a) (listing_key sha256 b cursor filters)"
  unfolding listing_key_def using org_prefix_other by blast

lemma invalidate_entry:
  assumes "glob_prefix glob" and "mgr_usable m"
  shows "entries (invalidate_org_submissions glob org m) k =
    (if starts_with (org_prefix org) k then None else entries m k)"
proof -
  have "glob (org_prefix org @ ''*'') k = starts_with (org_prefix org) k" for k
    using assms(1) org_prefix_literal [of org] unfolding glob_prefix_def by blast
  then show ?thesis
    using assms(2) by (simp add: invalidate_org_submissions_def delete_pattern_def mgr_usable_def)
qed

lemma invalidate_usable: "mgr_usable m \<Longrightarrow> mgr_usable (invalidate_org_submissions glob org m)"
  by (simp add: invalidate_org_submissions_def delete_pattern_def mgr_usable_def)

lemma invalidate_all_entry:
  assumes "glob_prefix glob"
  shows "mgr_usable m \<Longrightarrow> entries (fold (invalidate_org_submissions glob) orgs m) k =
    (if \<exists>o'\<in>set orgs. starts_with (org_prefix o') k then None else entries m k)"
proof (induction orgs arbitrary: m)
  case (Cons o' orgs)
  then show ?case
    using invalidate_entry [OF assms Cons.prems] invalidate_usable [OF Cons.prems] by auto
qed simp

lemma mgr_get_entries: "mgr_usable m \<Longrightarrow> entries m k = None \<Longrightarrow> mgr_get t k m = None"
  by (simp add: mgr_usable_def mgr_get_def redis_get_def redis.truncate_def)

lemma mgr_get_same: "mgr_usable m \<Longrightarrow> mgr_usable m' \<Longrightarrow> entries m' k = entries m k \<Longrightarrow> mgr_get t k m' = mgr_get t k m"
  by (simp add: mgr_usable_def mgr_get_def redis_get_def redis.truncate_def)

text \<open>
  While Redis answers, a write of submissions leaves no cached listing of the organizations
  whose submissions were written, and every other entry as it was: after creating many, for each
  of their organizations; after a soft deletion that found its row, for the organization it was
  told. A deletion that is not told the organization leaves the cache as it was.
\<close>

theorem writes_invalidate_listings:
  assumes "glob_prefix glob" and "mgr_usable m"
  shows "mgr_get u (listing_key sha256 org cursor filters) (snd (sub_repo_create_many glob ss (t, m))) =
      (if org \<in> organization_id ` set ss then None else mgr_get u (listing_key sha256 org cursor filters) m)
    \<and> mgr_get u (listing_key sha256 org cursor filters) (snd (sub_repo_create glob s (t, m))) =
      (if org = organization_id s then None else mgr_get u (listing_key sha256 org cursor filters) m)
    \<and> (case sub_repo_soft_delete glob v i (Some o') (t, m) of (deleted, _, m') \<Rightarrow>
        mgr_get u (listing_key sha256 org cursor filters) m' =
          (if deleted \<and> org = o' then None else mgr_get u (listing_key sha256 org cursor filters) m))
    \<and> snd (snd (sub_repo_soft_delete glob v i None (t, m))) = m"
proof -
  let ?k = "listing_key sha256 org cursor filters"
  have own: "starts_with (org_prefix p) ?k \<longleftrightarrow> p = org" for p
    using listing_key_prefix listing_key_other by metis
  have one: "mgr_get u ?k (invalidate_org_submissions glob p m) = (if org = p then None else mgr_get u ?k m)" for p
    using invalidate_entry [OF assms, of p ?k] invalidate_usable [OF assms(2), of glob p] own [of p] assms(2)
    by (auto intro: mgr_get_entries mgr_get_same)
  have usable: "mgr_usable (fold (invalidate_org_submissions glob) ps m)" for ps
    using assms(2) by (induction ps arbitrary: m) (simp_all add: invalidate_usable)
  have many: "mgr_get u ?k (fold (invalidate_org_submissions glob) ps m) =
      (if org \<in> set ps then None else mgr_get u ?k m)" for ps
    using invalidate_all_entry [OF assms, of ps ?k] usable [of ps] assms(2) own
    by (auto intro: mgr_get_entries mgr_get_same)
  show ?thesis
    using many [of "remdups (map organization_id ss)"] one [of "organization_id s"] one [of o']
    by (auto simp: sub_repo_create_many_def sub_repo_create_def sub_repo_soft_delete_def Let_def
        split: prod.splits)
qed

definition usable_manager :: "(string \<rightharpoonup> json \<times> rat) \<Rightarrow> cache_manager" where
  "usable_manager es = \<lparr>reachable = True, entries = es, has_redis = True, is_connected = True\<rparr>"

theorem writes_invalidate_listings_witness:
  "mgr_get 0 (listing_key (\<lambda>s. s) 1 None ''x'')
     (snd (sub_repo_create (\<lambda>p k. starts_with (butlast p) k) (sample_submission DRAFT)
        ([], usable_manager (\<lambda>_. Some (JNum 1, 60))))) = None
   \<and> mgr_get 0 (listing_key (\<lambda>s. s) 2 None ''x'')
     (snd (sub_repo_create (\<lambda>p k. starts_with (butlast p) k) (sample_submission DRAFT)
        ([], usable_manager (\<lambda>_. Some (JNum 1, 60))))) = Some (JNum 1)"
proof -
  have g: "glob_prefix (\<lambda>p k. starts_with (butlast p) k)" by (simp add: glob_prefix_def)
  have m: "mgr_usable (usable_manager (\<lambda>_. Some (JNum 1, 60)))" by (simp add: mgr_usable_def usable_manager_def)
  have o1: "organization_id (sample_submission DRAFT) = 1" by (simp add: sample_submission_def)
  have get: "mgr_get 0 k (usable_manager (\<lambda>_. Some (JNum 1, 60))) = Some (JNum 1)" for k
    by (simp add: usable_manager_def mgr_get_def redis_get_def redis.truncate_def)
  note c = writes_invalidate_listings [OF g m, of 0 "\<lambda>s. s" _ None "''x''" "[]" "[]" "sample_submission DRAFT", simplified o1]
  show ?thesis using c [of 1] c [of 2] get by simp
qed

subsection \<open>Login counters\<close>

text \<open>A sequence of failed (\<open>True\<close>) and successful logins of users, each at its time.\<close>

definition count_login :: "timestamp \<times> uuid \<times> bool \<Rightarrow> user list \<Rightarrow> user list" where
  "count_login e us = (case e of (t, i, failed) \<Rightarrow>
     if failed then increment_failed_login t i us else reset_failed_login t i us)"

definition failures_of :: "uuid \<Rightarrow> (timestamp \<times> uuid \<times> bool) list \<Rightarrow> int \<Rightarrow> int" where
  "failures_of i es n = fold (\<lambda>(_, j, failed) k. if j \<noteq> i then k else if failed then k + 1 else 0) es n"

definition login_step :: "timestamp \<times> uuid \<times> bool \<Rightarrow> user \<Rightarrow> user" where
  "login_step e u = (case e of (t, i, failed) \<Rightarrow>
     if ident u \<noteq> i then u
     else if failed then touch t (u\<lparr>failed_login_attempts := failed_login_attempts u + 1\<rparr>)
     else touch t (u\<lparr>failed_login_attempts := 0, last_login_at := Some t\<rparr>))"

lemma count_login_step: "count_login e us = map (login_step e) us"
  by (cases e) (auto simp: count_login_def increment_failed_login_def reset_failed_login_def
      update_where_def login_step_def)

lemma login_step_sel [simp]:
  "ident (login_step e u) = ident u" "email (login_step e u) = email u" "deleted_at (login_step e u) = deleted_at u"
  by (cases e; cases u; simp add: login_step_def touch_def)+

lemma login_step_count: "failed_login_attempts (login_step e u) =
    (case e of (_, i, failed) \<Rightarrow> if ident u \<noteq> i then failed_login_attempts u
      else if failed then failed_login_attempts u + 1 else 0)"
  by (cases e; cases u) (simp add: login_step_def touch_def)

lemma fold_map_steps: "fold (\<lambda>e. map (f e)) es xs = map (\<lambda>x. fold f es x) xs"
  by (induction es arbitrary: xs) (simp_all add: comp_def)

lemma fold_login_sel: "ident (fold login_step es u) = ident u" "email (fold login_step es u) = email u"
  "deleted_at (fold login_step es u) = deleted_at u"
  by (induction es arbitrary: u) simp_all

lemma fold_login_count:
  "failed_login_attempts (fold login_step es u) = failures_of (ident u) es (failed_login_attempts u)"
proof (induction es arbitrary: u)
  case (Cons e es)
  show ?case using Cons [of "login_step e u"]
    by (cases e) (auto simp: failures_of_def login_step_count)
qed (simp add: failures_of_def)

lemma filter_map_same: "(\<And>x. P (f x) = P x) \<Longrightarrow> filter P (map f xs) = map f (filter P xs)"
  by (induction xs) auto

text \<open>
  Through any interleaving of failed and successful logins, the counter of a user is the number
  of failures since the last success, whatever happens to other users, the user is found under the
  same email as before, and is locked exactly when five failures came in a row.
\<close>

theorem login_counter_counts_failures:
  assumes "user_get_by_email addr us = Inr (Some u)" and "failed_login_attempts u = 0"
  shows "\<exists>v. user_get_by_email addr (fold count_login es us) = Inr (Some v) \<and> ident v = ident u
    \<and> failed_login_attempts v = failures_of (ident u) es 0
    \<and> is_locked v = (failures_of (ident u) es 0 \<ge> 5)"
proof -
  let ?P = "\<lambda>u. email u = str_lower addr \<and> active u"
  have "filter ?P us = [u]" using assms(1) by (simp add: user_get_by_email_def select_where_def)
  then have "filter ?P (fold count_login es us) = [fold login_step es u]"
    unfolding count_login_step [abs_def] fold_map_steps
    by (subst filter_map_same) (simp_all add: fold_login_sel)
  then have "user_get_by_email addr (fold count_login es us) = Inr (Some (fold login_step es u))"
    by (simp add: user_get_by_email_def select_where_def)
  then show ?thesis using assms(2)
    by (simp add: fold_login_sel fold_login_count is_locked_def MAX_FAILED_ATTEMPTS_def)
qed

theorem login_counter_counts_failures_witness:
  "\<exists>v. user_get_by_email ''A@B.c'' (fold count_login (replicate 5 (9, 2, True)) [sample_user UR_JUDGE 0]) = Inr (Some v)
    \<and> is_locked v"
proof -
  have "str_lower ''A@B.c'' = ''a@b.c''" by code_simp
  then have u: "user_get_by_email ''A@B.c'' [sample_user UR_JUDGE 0] = Inr (Some (sample_user UR_JUDGE 0))"
    by (simp add: user_get_by_email_def select_where_def sample_user_def)
  have "failures_of 2 (replicate 5 (9, 2, True)) 0 = 5" by (simp add: failures_of_def eval_nat_numeral)
  then show ?thesis
    using login_counter_counts_failures [OF u, of "replicate 5 (9, 2, True)"] by (auto simp: sample_user_def)
qed

subsection \<open>Importing the modules\<close>

text \<open>
  Python's import statement: a module that is already in \<open>sys.modules\<close>, even one whose body is
  still running, is taken as it is; \<open>from m import x\<close> fails when \<open>m\<close> has not bound \<open>x\<close> yet. Imports
  of other packages are left out. The fuel bounds the depth of nested imports.
\<close>

datatype py_stmt = Import_from string string | Bind string

type_synonym py_modules = "(string \<times> string list) list"

definition bind_name :: "string \<Rightarrow> string \<Rightarrow> py_modules \<Rightarrow> py_modules" where
  "bind_name m x st = map (\<lambda>(n, xs). (n, if n = m then x # xs else xs)) st"

fun exec_module :: "nat \<Rightarrow> (string \<Rightarrow> py_stmt list) \<Rightarrow> string \<Rightarrow> py_stmt list \<Rightarrow> py_modules
    \<Rightarrow> (exn + py_modules) option" where
  "exec_module n src m [] st = Some (Inr st)"
| "exec_module n src m (Bind x # ss) st = exec_module n src m ss (bind_name m x st)"
| "exec_module 0 src m (Import_from k x # ss) st = None"
| "exec_module (Suc n) src m (Import_from k x # ss) st =
     (case (if map_of st k \<noteq> None then Some (Inr st) else exec_module n src k (src k) ((k, []) # st)) of
        None \<Rightarrow> None
      | Some (Inl e) \<Rightarrow> Some (Inl e)
      | Some (Inr st') \<Rightarrow>
          if (case map_of st' k of None \<Rightarrow> False | Some xs \<Rightarrow> x \<in> set xs)
          then exec_module (Suc n) src m ss (bind_name m x st')
          else Some (Inl (ImportError x)))"

definition import_module :: "nat \<Rightarrow> (string \<Rightarrow> py_stmt list) \<Rightarrow> string \<Rightarrow> (exn + py_modules) option" where
  "import_module n src m = exec_module n src m (src m) [(m, [])]"

definition submission_repository_body :: "py_stmt list" where
  "submission_repository_body = [Import_from ''submission_cache'' ''invalidate_org_submissions'',
     Bind ''SubmissionRepository'', Bind ''submission_repo'']"

definition submission_cache_body :: "py_stmt list" where
  "submission_cache_body = [Import_from ''submission_repository'' ''submission_repo'',
     Bind ''get_cached_submissions'', Bind ''invalidate_org_submissions'']"

definition repository_sources :: "string \<Rightarrow> py_stmt list" where
  "repository_sources m =
     (if m = ''submission_repository'' then submission_repository_body
      else if m = ''submission_cache'' then submission_cache_body else [])"

text \<open>
  Neither module of the submission repository can be imported, whichever is asked for first:
  each needs a name that the other binds only after its own import of the first.
\<close>

theorem submission_repository_unimportable:
  "import_module (Suc (Suc (Suc n))) repository_sources ''submission_repository'' =
     Some (Inl (ImportError ''submission_repo''))
   \<and> import_module (Suc (Suc (Suc n))) repository_sources ''submission_cache'' =
     Some (Inl (ImportError ''invalidate_org_submissions''))"
  by (simp add: import_module_def repository_sources_def submission_repository_body_def submission_cache_body_def)

end
