(* ===== verification/Exports.thy ===== *)
theory Exports
  imports Results Maintenance
begin

section \<open>Export tasks (\<open>workers/tasks/export.py\<close>, \<open>workers/export_worker.py\<close>)\<close>

text \<open>
  Two Celery tasks export a run. The task of the pipeline builds a CSV report in memory and
  answers with a made-up address; the worker calls the service of theory Results. The state is
  what the base task has: the database and the progress in Redis; the worker has the database
  and the object store. The text of a float is a parameter (\<open>str_float\<close>).
\<close>

subsection \<open>The report\<close>

definition text_opt :: "string option \<Rightarrow> string" where
  "text_opt x = (case x of None \<Rightarrow> [] | Some s \<Rightarrow> s)"

definition str_overall :: "(rat \<Rightarrow> string) \<Rightarrow> rat option \<Rightarrow> string" where
  "str_overall str_float x = (case x of None \<Rightarrow> ''None'' | Some q \<Rightarrow> str_float q)"

definition task_claim_row :: "(rat \<Rightarrow> string) \<Rightarrow> claim \<Rightarrow> string list" where
  "task_claim_row str_float c =
     [claim_text c, category c, str_float (confidence_score c), text_opt (source_reference c),
      verification_status c]"

definition task_report_rows :: "(rat \<Rightarrow> string) \<Rightarrow> evaluation_run \<Rightarrow> score list \<Rightarrow> claim list
    \<Rightarrow> string list list" where
  "task_report_rows str_float r ss cs =
     [[''Evaluation summary'', nat_str (ident r), run_status_value (run_status r)],
      [''Overall Score'', str_overall str_float (overall_score r)],
      [],
      [''SCORE DIMENSION'', ''VALUE'', ''WEIGHT'', ''RATIONALE'']]
     @ map (score_row str_float) ss
     @ [[],
        [''CLAIM TEXT'', ''CATEGORY'', ''CONFIDENCE'', ''SOURCE'', ''VERIFICATION_STATUS'']]
     @ map (task_claim_row str_float) cs"

definition task_report :: "(rat \<Rightarrow> string) \<Rightarrow> evaluation_run \<Rightarrow> score list \<Rightarrow> claim list \<Rightarrow> string" where
  "task_report str_float r ss cs = csv_rows (task_report_rows str_float r ss cs)"

subsection \<open>The task\<close>

text \<open>The three queries of the task: neither the organization nor the soft deletion is asked for.\<close>

definition fetch_export :: "uuid \<Rightarrow> db \<Rightarrow> (db, (evaluation_run \<times> claim list \<times> score list) option) outcome" where
  "fetch_export rid d =
     (case scalar_one_or_none (select_where (\<lambda>r. ident r = rid) (runs d)) of
        Inl e \<Rightarrow> (Inl e, d)
      | Inr None \<Rightarrow> (Inr None, d)
      | Inr (Some r) \<Rightarrow>
          (Inr (Some (r, select_where (\<lambda>c. claim_run_id c = rid) (claims d),
                      select_where (\<lambda>s. score_run_id s = rid) (scores d))), d))"

definition task_s3_key :: "evaluation_run \<Rightarrow> uuid \<Rightarrow> string" where
  "task_s3_key r rid = ''exports/'' @ nat_str (organization_id r) @ ''/'' @ nat_str rid @ ''.csv''"

definition mock_url :: "string \<Rightarrow> string" where
  "mock_url key = ''https://mock-s3-bucket.s3.amazonaws.com/'' @ key @ ''?signature=mock''"

definition export_error :: "string \<Rightarrow> json" where
  "export_error reason = JObj [(''status'', JStr ''error''), (''reason'', JStr reason)]"

definition export_done :: "string \<Rightarrow> nat \<Rightarrow> string \<Rightarrow> json" where
  "export_done fmt n key = JObj [(''status'', JStr ''completed''), (''format'', JStr fmt),
     (''size_bytes'', JNum (of_nat n)), (''download_url'', JStr (mock_url key)), (''s3_key'', JStr key)]"

text \<open>\<open>_export_results\<close>; \<open>upd\<close> is the optional progress callback.\<close>

definition notify_progress :: "(uuid \<Rightarrow> int \<Rightarrow> string \<Rightarrow> tstate \<Rightarrow> tstate) option
    \<Rightarrow> uuid \<Rightarrow> int \<Rightarrow> string \<Rightarrow> tstate \<Rightarrow> tstate" where
  "notify_progress upd rid p dtl s = (case upd of None \<Rightarrow> s | Some f \<Rightarrow> f rid p dtl s)"

definition export_run :: "(rat \<Rightarrow> string) \<Rightarrow> uuid \<Rightarrow> string
    \<Rightarrow> (uuid \<Rightarrow> int \<Rightarrow> string \<Rightarrow> tstate \<Rightarrow> tstate) option \<Rightarrow> tstate \<Rightarrow> (tstate, json) outcome" where
  "export_run str_float rid fmt upd s =
     (let s1 = notify_progress upd rid 10 ''Fetching data for export'' s
      in case db_session (fetch_export rid) s1 of
           (Inl e, s2) \<Rightarrow> (Inl e, s2)
         | (Inr None, s2) \<Rightarrow> (Inr (export_error ''Run not found''), s2)
         | (Inr (Some (r, cs, ss)), s2) \<Rightarrow>
             let s3 = notify_progress upd rid 50 (''Generating '' @ str_upper fmt @ '' document'') s2;
                 csv_content = task_report str_float r ss cs;
                 s4 = notify_progress upd rid 80 ''Uploading to S3'' s3;
                 key = task_s3_key r rid;
                 s5 = notify_progress upd rid 100 ''Export complete'' s4
             in (Inr (export_done fmt (length csv_content) key), s5))"

definition export_results_task :: "(rat \<Rightarrow> string) \<Rightarrow> task \<Rightarrow> uuid \<Rightarrow> string \<Rightarrow> tstate
    \<Rightarrow> (tstate, json) outcome" where
  "export_results_task str_float t rid fmt s =
     (let t1 = t\<lparr>wtype := ''export''\<rparr>
      in export_run str_float rid fmt (Some (update_progress t1)) s)"

subsection \<open>The worker\<close>

text \<open>\<open>_execute_export\<close> in a session, and the task around it: an exception is retried after
  thirty seconds, twice.\<close>

definition execute_export :: "export_env \<Rightarrow> uuid \<Rightarrow> uuid \<Rightarrow> string \<Rightarrow> db \<Rightarrow> store \<Rightarrow> (store, json) outcome" where
  "execute_export x rid org fmt d store =
     (case export_results x rid org fmt d store of
        (Inl e, s) \<Rightarrow> (Inl e, s)
      | (Inr url, s) \<Rightarrow> (Inr (JObj [(''status'', JStr ''completed''), (''download_url'', JStr url)]), s))"

definition export_evaluation_results :: "export_env \<Rightarrow> nat \<Rightarrow> uuid \<Rightarrow> uuid \<Rightarrow> string \<Rightarrow> db \<Rightarrow> store
    \<Rightarrow> (store, json) outcome" where
  "export_evaluation_results x attempt rid org fmt d store =
     (case execute_export x rid org fmt d store of
        (Inl e, s) \<Rightarrow> (Inl (task_retry 2 attempt e), s)
      | (Inr j, s) \<Rightarrow> (Inr j, s))"

subsection \<open>Properties\<close>

lemma fetch_export_found:
  assumes "unique_ids (runs d)" "r \<in> set (runs d)"
  shows "fetch_export (ident r) d =
    (Inr (Some (r, filter (\<lambda>c. claim_run_id c = ident r) (claims d),
                   filter (\<lambda>s. score_run_id s = ident r) (scores d))), d)"
proof -
  have "scalar_one_or_none (select_where (\<lambda>x. ident x = ident r) (runs d)) = Inr (Some r)"
    using lookup_where_Some [of "runs d" "\<lambda>_. True" "ident r" r] assms by (simp add: lookup_where_def)
  then show ?thesis by (simp add: fetch_export_def select_where_def)
qed

lemma notify_db [simp]: "tdb (update_progress t rid p dtl s) = tdb s"
  "redis_up (update_progress t rid p dtl s) = redis_up s"
  by (simp_all add: update_progress_def)

lemma read_only_session: "h (tdb s) = (x, tdb s) \<Longrightarrow> db_session h s = (x, s)"
  by (cases x) (simp_all add: db_session_def in_session_def)

lemma notify_published: "redis_up s \<Longrightarrow>
   published (update_progress t rid p dtl s) = published s @ [(rid, wtype t, p)]"
  by (simp add: update_progress_def)

text \<open>
  The export task answers ''completed'' for every run it finds, in whatever format, and tells four
  steps of progress. The report it measures reads back as the summary, the scores and the claims,
  and contains a row for every claim and every score of the run, soft-deleted ones too; but only its
  length leaves the task: the database is as before and the address is under a mock host. For
  an unknown run the task does not fail: it returns an error value after one step of progress.
\<close>

theorem export_task_measures_report:
  assumes "unique_ids (runs (tdb s))" "r \<in> set (runs (tdb s))" "redis_up s"
    and "rid \<notin> ident ` set (runs (tdb s))"
  shows "(\<exists>cs ss s'. export_results_task str_float t (ident r) fmt s =
        (Inr (export_done fmt (length (task_report str_float r ss cs)) (task_s3_key r (ident r))), s')
      \<and> set cs = {c \<in> set (claims (tdb s)). claim_run_id c = ident r}
      \<and> set ss = {x \<in> set (scores (tdb s)). score_run_id x = ident r}
      \<and> csv_parse (task_report str_float r ss cs) = task_report_rows str_float r ss cs
      \<and> tdb s' = tdb s
      \<and> published s' = published s @ map (\<lambda>p. (ident r, ''export'', p)) [10, 50, 80, 100])
    \<and> (\<exists>s'. export_results_task str_float t rid fmt s = (Inr (export_error ''Run not found''), s')
      \<and> tdb s' = tdb s \<and> published s' = published s @ [(rid, ''export'', 10)])"
proof (intro conjI)
  let ?t = "t\<lparr>wtype := ''export''\<rparr>"
  let ?cs = "filter (\<lambda>c. claim_run_id c = ident r) (claims (tdb s))"
  let ?ss = "filter (\<lambda>x. score_run_id x = ident r) (scores (tdb s))"
  let ?s = "update_progress ?t (ident r) 100 ''Export complete''
    (update_progress ?t (ident r) 80 ''Uploading to S3''
    (update_progress ?t (ident r) 50 (''Generating '' @ str_upper fmt @ '' document'')
    (update_progress ?t (ident r) 10 ''Fetching data for export'' s)))"
  have run: "export_results_task str_float t (ident r) fmt s =
      (Inr (export_done fmt (length (task_report str_float r ?ss ?cs)) (task_s3_key r (ident r))), ?s)"
    by (simp add: export_results_task_def export_run_def notify_progress_def Let_def
        read_only_session fetch_export_found [OF assms(1,2)])
  have st: "tdb ?s = tdb s" by simp
  have pub: "published ?s = published s @ map (\<lambda>p. (ident r, ''export'', p)) [10, 50, 80, 100]"
    using assms(3) by (simp add: notify_published)
  have sets: "set ?cs = {c \<in> set (claims (tdb s)). claim_run_id c = ident r}"
    "set ?ss = {x \<in> set (scores (tdb s)). score_run_id x = ident r}" by auto
  have parse: "csv_parse (task_report str_float r ?ss ?cs) = task_report_rows str_float r ?ss ?cs"
    by (simp only: task_report_def csv_roundtrip)
  show "\<exists>cs ss s'. export_results_task str_float t (ident r) fmt s =
        (Inr (export_done fmt (length (task_report str_float r ss cs)) (task_s3_key r (ident r))), s')
      \<and> set cs = {c \<in> set (claims (tdb s)). claim_run_id c = ident r}
      \<and> set ss = {x \<in> set (scores (tdb s)). score_run_id x = ident r}
      \<and> csv_parse (task_report str_float r ss cs) = task_report_rows str_float r ss cs
      \<and> tdb s' = tdb s
      \<and> published s' = published s @ map (\<lambda>p. (ident r, ''export'', p)) [10, 50, 80, 100]"
    by (rule exI [of _ ?cs], rule exI [of _ ?ss], rule exI [of _ ?s])
      (intro conjI run sets parse st pub)
  have "select_where (\<lambda>x. ident x = rid) (runs (tdb s)) = []"
    using assms(4) by (auto simp: select_where_def filter_empty_conv)
  then have "fetch_export rid (tdb s) = (Inr None, tdb s)" by (simp add: fetch_export_def)
  then have "export_results_task str_float t rid fmt s =
      (Inr (export_error ''Run not found''), update_progress ?t rid 10 ''Fetching data for export'' s)"
    by (simp add: export_results_task_def export_run_def notify_progress_def read_only_session Let_def)
  then show "\<exists>s'. export_results_task str_float t rid fmt s = (Inr (export_error ''Run not found''), s')
      \<and> tdb s' = tdb s \<and> published s' = published s @ [(rid, ''export'', 10)]"
    using assms(3) by (simp add: notify_published)
qed

text \<open>
  The export worker does what the export endpoint does: for every format the same object is
  written and the same address returned, and when the endpoint fails the worker fails with the same
  error, after two retries that leave the store as the failure left it.
\<close>

theorem export_worker_as_endpoint:
  "export_evaluation_results x attempt rid (organization_id u) fmt d store =
     (case export_endpoint x u rid fmt d store of
        (Inl e, st) \<Rightarrow> (Inl (if attempt < 2 then Retry e else e), st)
      | (Inr rsp, st) \<Rightarrow>
          (Inr (JObj [(''status'', JStr (ex_status rsp)), (''download_url'', JStr (ex_download_url rsp))]), st))"
  by (simp add: export_evaluation_results_def execute_export_def export_endpoint_def task_retry_def
      split: prod.splits sum.splits)

theorem export_task_measures_report_witness:
  "\<exists>s'. export_results_task (\<lambda>_. ''0.5'') sample_task 99 ''pdf'' sample_tstate =
     (Inr (export_error ''Run not found''), s')
   \<and> published s' = [(99, ''export'', 10)]"
proof -
  have r: "runs (tdb sample_tstate) = [sample_run RUNNING]" "redis_up sample_tstate" "published sample_tstate = []"
    "ident (sample_run RUNNING) = 4"
    by (simp_all add: sample_tstate_def sample_db_def sample_run_def)
  show ?thesis
    using export_task_measures_report [of sample_tstate "sample_run RUNNING" 99 "\<lambda>_. ''0.5''" sample_task "''pdf''"]
    by (auto simp: r unique_ids_def)
qed

end
