(* ===== verification/Telemetry.thy ===== *)
theory Telemetry
  imports PyString
begin

section \<open>Telemetry (\<open>observability/metrics.py\<close>, \<open>observability/tracing.py\<close>)\<close>

text \<open>
  The registry of Prometheus metrics with the calls that use it, and the set-up and shutdown of
  tracing. OpenTelemetry is not in the repository: which of its modules can be imported, whether an
  exporter can be built, whether an instrumentation fails and what the global tracer provider becomes
  are the parameter \<open>otel\<close>.
\<close>

subsection \<open>The metrics registry\<close>

datatype metric_kind = Counter | Gauge | Histogram "rat list"

record metric_decl =
  md_name :: string
  md_kind :: metric_kind
  md_labels :: "string list"

definition HTTP_DURATION_BUCKETS :: "rat list" where
  "HTTP_DURATION_BUCKETS = [1/100, 25/1000, 5/100, 1/10, 25/100, 5/10, 1, 25/10, 5, 10]"

definition CELERY_DURATION_BUCKETS :: "rat list" where
  "CELERY_DURATION_BUCKETS = [1/10, 5/10, 1, 5, 10, 30, 60, 120, 300, 600]"

definition DB_DURATION_BUCKETS :: "rat list" where
  "DB_DURATION_BUCKETS = [1/1000, 5/1000, 1/100, 25/1000, 5/100, 1/10, 25/100, 5/10, 1, 5]"

text \<open>\<open>MetricsRegistry.__init__\<close>: every attribute has the name of its metric.\<close>

definition metrics_registry :: "metric_decl list" where
  "metrics_registry = map (\<lambda>(n, k, ls). \<lparr>md_name = n, md_kind = k, md_labels = ls\<rparr>)
    [(''http_requests_total'', Counter, [''method'', ''endpoint'', ''status_code'']),
     (''http_request_duration_seconds'', Histogram HTTP_DURATION_BUCKETS, [''method'', ''endpoint'']),
     (''http_requests_in_progress'', Gauge, [''method'']),
     (''celery_task_duration_seconds'', Histogram CELERY_DURATION_BUCKETS, [''task_name'', ''status'']),
     (''celery_tasks_total'', Counter, [''task_name'', ''status'']),
     (''celery_queue_depth'', Gauge, [''queue_name'']),
     (''llm_tokens_used_total'', Counter, [''model'', ''task_type'']),
     (''llm_cost_usd_total'', Counter, [''model'', ''task_type'']),
     (''cache_hits_total'', Counter, [''cache_key_pattern'']),
     (''cache_misses_total'', Counter, [''cache_key_pattern'']),
     (''db_query_duration_seconds'', Histogram DB_DURATION_BUCKETS, [''query_type'']),
     (''active_evaluations_gauge'', Gauge, [])]"

text \<open>
  A use of a metric: the file, the attribute, the keywords of \<open>labels\<close> and the operation on the
  child. \<open>labels\<close> raises when its keywords are not the declared names.
\<close>

datatype metric_op = Inc | Dec | Set | Observe

record metric_use =
  mu_file :: string
  mu_metric :: string
  mu_labels :: "string list"
  mu_op :: metric_op

definition metric_uses :: "metric_use list" where
  "metric_uses = map (\<lambda>(f, n, ls, a). \<lparr>mu_file = f, mu_metric = n, mu_labels = ls, mu_op = a\<rparr>)
    [(''middleware/metrics.py'', ''http_requests_in_progress'', [''method''], Inc),
     (''middleware/metrics.py'', ''http_requests_total'', [''method'', ''endpoint'', ''status_code''], Inc),
     (''middleware/metrics.py'', ''http_request_duration_seconds'', [''method'', ''endpoint''], Observe),
     (''middleware/metrics.py'', ''http_requests_in_progress'', [''method''], Dec),
     (''database.py'', ''db_query_duration_seconds'', [''query_type''], Observe),
     (''cache.py'', ''cache_hits_total'', [''cache_key_pattern''], Inc),
     (''cache.py'', ''cache_misses_total'', [''cache_key_pattern''], Inc),
     (''workers/tasks/llm_judge.py'', ''llm_tokens_used_total'', [''model'', ''task_type''], Inc),
     (''workers/tasks/llm_judge.py'', ''llm_cost_usd_total'', [''model'', ''task_type''], Inc),
     (''workers/celery_app.py'', ''celery_task_duration_seconds'', [''task_name'', ''status''], Observe),
     (''workers/celery_app.py'', ''celery_tasks_total'', [''task_name'', ''status''], Inc),
     (''workers/celery_app.py'', ''celery_queue_depth'', [''queue_name''], Set)]"

fun op_allowed :: "metric_kind \<Rightarrow> metric_op \<Rightarrow> bool" where
  "op_allowed Counter a = (a = Inc)"
| "op_allowed Gauge a = (a \<noteq> Observe)"
| "op_allowed (Histogram bs) a = (a = Observe)"

definition use_ok :: "metric_use \<Rightarrow> bool" where
  "use_ok u = list_ex (\<lambda>d. md_name d = mu_metric u \<and> set (md_labels d) = set (mu_labels u)
     \<and> op_allowed (md_kind d) (mu_op u)) metrics_registry"

fun ascending :: "rat list \<Rightarrow> bool" where
  "ascending (x # y # r) = (x < y \<and> ascending (y # r))"
| "ascending _ = True"

fun buckets_of :: "metric_kind \<Rightarrow> rat list" where
  "buckets_of (Histogram bs) = bs"
| "buckets_of _ = []"

text \<open>
  Every place in the program that touches a metric names a declared metric with exactly its
  labels and an operation of its kind, so no call of \<open>labels\<close> raises; the names are distinct and
  the buckets ascend. One declared metric is never touched: the gauge of active evaluations.
\<close>

theorem metrics_used_as_declared:
  "list_all use_ok metric_uses
   \<and> distinct (map md_name metrics_registry)
   \<and> list_all (\<lambda>d. ascending (buckets_of (md_kind d))) metrics_registry
   \<and> filter (\<lambda>n. \<not> list_ex (\<lambda>u. mu_metric u = n) metric_uses) (map md_name metrics_registry)
       = [''active_evaluations_gauge'']"
  by (intro conjI) code_simp+

subsection \<open>Tracing\<close>

datatype processor = Simple_console | Batch_otlp string nat nat nat

record tracer_provider =
  tp_serial :: nat
  tp_service :: string
  tp_environment :: string
  tp_rate :: rat
  tp_processors :: "processor list"
  tp_running :: bool

datatype trace_event =
    Ev_disabled | Ev_initialized string string rat | Ev_import_error string | Ev_init_failed
  | Ev_instrumented string | Ev_instrumentation_failed string | Ev_shutdown

text \<open>An import or a call of the library fails because a module is missing or in another way.\<close>

datatype otel_error = Missing string | Failure

record otel =
  ot_available :: "string \<Rightarrow> bool"
  ot_exporter :: "string \<Rightarrow> otel_error option"
  ot_instrument :: "string \<Rightarrow> otel_error option"
  ot_set_global :: "tracer_provider \<Rightarrow> tracer_provider option \<Rightarrow> tracer_provider option"

record tracing_state =
  tr_next :: nat
  tr_provider :: "tracer_provider option"
  tr_global :: "tracer_provider option"
  tr_instrumented :: "string list"
  tr_log :: "trace_event list"

type_synonym 'a traced = "(otel_error + 'a) \<times> tracing_state"

definition log_trace :: "trace_event \<Rightarrow> tracing_state \<Rightarrow> tracing_state" where
  "log_trace e st = st\<lparr>tr_log := tr_log st @ [e]\<rparr>"

text \<open>\<open>from m import ...\<close> for the modules in turn.\<close>

fun import_all :: "otel \<Rightarrow> string list \<Rightarrow> otel_error option" where
  "import_all m [] = None"
| "import_all m (x # xs) = (if ot_available m x then import_all m xs else Some (Missing x))"

text \<open>\<open>_instrument_libraries\<close>. An error of the FastAPI instrumentation is logged, one of the others
  that is not an import error leaves the function.\<close>

fun instrument_module :: "string \<Rightarrow> string" where
  "instrument_module lib = ''opentelemetry.instrumentation.'' @ lib"

definition instrument_one :: "otel \<Rightarrow> string \<Rightarrow> otel_error option" where
  "instrument_one m lib =
     (if ot_available m (instrument_module lib) then ot_instrument m lib
      else Some (Missing (instrument_module lib)))"

definition note_instrumented :: "string \<Rightarrow> tracing_state \<Rightarrow> tracing_state" where
  "note_instrumented lib st =
     log_trace (Ev_instrumented lib) (st\<lparr>tr_instrumented := tr_instrumented st @ [lib]\<rparr>)"

definition instrument_fastapi :: "otel \<Rightarrow> tracing_state \<Rightarrow> tracing_state" where
  "instrument_fastapi m st =
     (case instrument_one m ''fastapi'' of
        None \<Rightarrow> note_instrumented ''fastapi'' st
      | Some (Missing _) \<Rightarrow> st
      | Some Failure \<Rightarrow> log_trace (Ev_instrumentation_failed ''fastapi'') st)"

fun instrument_rest :: "otel \<Rightarrow> string list \<Rightarrow> tracing_state \<Rightarrow> unit traced" where
  "instrument_rest m [] st = (Inr (), st)"
| "instrument_rest m (lib # libs) st =
     (case instrument_one m lib of
        None \<Rightarrow> instrument_rest m libs (note_instrumented lib st)
      | Some (Missing _) \<Rightarrow> instrument_rest m libs st
      | Some Failure \<Rightarrow> (Inl Failure, st))"

definition instrumented_libraries :: "string list" where
  "instrumented_libraries = [''sqlalchemy'', ''redis'', ''httpx'', ''celery'']"

definition instrument_libraries :: "otel \<Rightarrow> tracing_state \<Rightarrow> unit traced" where
  "instrument_libraries m st = instrument_rest m instrumented_libraries (instrument_fastapi m st)"

definition sdk_modules :: "string list" where
  "sdk_modules = [''opentelemetry.trace'', ''opentelemetry.sdk.resources'', ''opentelemetry.sdk.trace'',
     ''opentelemetry.sdk.trace.sampling'']"

definition exporter_modules :: "string \<Rightarrow> string list" where
  "exporter_modules exporter =
     (if exporter = ''console'' then [''opentelemetry.sdk.trace.export'']
      else [''opentelemetry.exporter.otlp.proto.grpc.trace_exporter'', ''opentelemetry.sdk.trace.export''])"

definition create_provider :: "string \<Rightarrow> rat \<Rightarrow> tracing_state \<Rightarrow> tracing_state" where
  "create_provider svc rate st =
     st\<lparr>tr_provider := Some \<lparr>tp_serial = tr_next st, tp_service = svc, tp_environment = ''production'',
                              tp_rate = rate, tp_processors = [], tp_running = True\<rparr>,
        tr_next := tr_next st + 1\<rparr>"

definition add_span_processor :: "processor \<Rightarrow> tracing_state \<Rightarrow> tracing_state" where
  "add_span_processor x st =
     st\<lparr>tr_provider := map_option (\<lambda>p. p\<lparr>tp_processors := tp_processors p @ [x]\<rparr>) (tr_provider st)\<rparr>"

definition attach_exporter :: "otel \<Rightarrow> string \<Rightarrow> string \<Rightarrow> tracing_state \<Rightarrow> unit traced" where
  "attach_exporter m exporter endpoint st =
     (case import_all m (exporter_modules exporter) of
        Some e \<Rightarrow> (Inl e, st)
      | None \<Rightarrow>
          if exporter = ''console'' then (Inr (), add_span_processor Simple_console st)
          else (case ot_exporter m endpoint of
                  Some e \<Rightarrow> (Inl e, st)
                | None \<Rightarrow> (Inr (), add_span_processor (Batch_otlp endpoint 2048 512 5000) st)))"

definition set_tracer_provider :: "otel \<Rightarrow> tracing_state \<Rightarrow> tracing_state" where
  "set_tracer_provider m st =
     (case tr_provider st of None \<Rightarrow> st
      | Some p \<Rightarrow> st\<lparr>tr_global := ot_set_global m p (tr_global st)\<rparr>)"

text \<open>The body of the \<open>try\<close>; the sampler refuses a rate outside 0 to 1.\<close>

definition init_body :: "otel \<Rightarrow> string \<Rightarrow> string \<Rightarrow> string \<Rightarrow> rat \<Rightarrow> tracing_state \<Rightarrow> unit traced" where
  "init_body m svc exporter endpoint rate st =
     (case import_all m sdk_modules of
        Some e \<Rightarrow> (Inl e, st)
      | None \<Rightarrow>
          if rate < 0 \<or> 1 < rate then (Inl Failure, st)
          else (case attach_exporter m exporter endpoint (create_provider svc rate st) of
                  (Inl e, st1) \<Rightarrow> (Inl e, st1)
                | (Inr _, st1) \<Rightarrow>
                    (case instrument_libraries m (set_tracer_provider m st1) of
                       (Inl e, st2) \<Rightarrow> (Inl e, st2)
                     | (Inr _, st2) \<Rightarrow> (Inr (), log_trace (Ev_initialized exporter endpoint rate) st2))))"

definition init_tracing :: "otel \<Rightarrow> string \<Rightarrow> string \<Rightarrow> string \<Rightarrow> rat \<Rightarrow> bool \<Rightarrow> tracing_state \<Rightarrow> tracing_state" where
  "init_tracing m svc exporter endpoint rate enabled st =
     (if \<not> enabled then log_trace Ev_disabled st
      else case init_body m svc exporter endpoint rate st of
             (Inr _, st1) \<Rightarrow> st1
           | (Inl (Missing x), st1) \<Rightarrow> log_trace (Ev_import_error x) st1
           | (Inl Failure, st1) \<Rightarrow> log_trace Ev_init_failed st1)"

text \<open>\<open>shutdown\<close> of the provider object, which the global provider may be as well.\<close>

definition shutdown_tracing :: "tracing_state \<Rightarrow> tracing_state" where
  "shutdown_tracing st =
     (case tr_provider st of None \<Rightarrow> st
      | Some p \<Rightarrow> log_trace Ev_shutdown (st\<lparr>tr_provider := None,
          tr_global := map_option (\<lambda>g. if tp_serial g = tp_serial p then g\<lparr>tp_running := False\<rparr> else g)
            (tr_global st)\<rparr>))"

text \<open>Trace context in task headers: the carrier is what the library injects.\<close>

definition inject_trace_context :: "otel \<Rightarrow> (string \<times> string) list \<Rightarrow> (string \<times> string) list" where
  "inject_trace_context m carrier =
     (if import_all m [''opentelemetry.context'', ''opentelemetry.propagators.textmap'', ''opentelemetry.propagate'']
         = None then carrier else [])"

definition extract_trace_context :: "otel \<Rightarrow> ((string \<times> string) list \<Rightarrow> 'ctx) \<Rightarrow> (string \<times> string) list option
    \<Rightarrow> 'ctx option" where
  "extract_trace_context m extract headers =
     (case headers of None \<Rightarrow> None
      | Some h \<Rightarrow> if h = [] then None
          else if ot_available m ''opentelemetry.propagate'' then Some (extract h) else None)"

text \<open>
  \<open>get_tracer\<close> falls back on a tracer whose spans do nothing. A block \<open>with span\<close> runs its body
  and then calls \<open>__exit__\<close>, which hides an exception only if it returns a true value; that of the
  fallback returns \<open>None\<close>. For a tracer of the library \<open>swallow\<close> says whether its span hides an
  exception.
\<close>

datatype tracer = Library_tracer string | No_op_tracer

datatype span = Library_span string string | No_op_span

definition get_tracer :: "otel \<Rightarrow> string \<Rightarrow> tracer" where
  "get_tracer m n = (if ot_available m ''opentelemetry.trace'' then Library_tracer n else No_op_tracer)"

fun start_as_current_span :: "tracer \<Rightarrow> string \<Rightarrow> span" where
  "start_as_current_span (Library_tracer t) n = Library_span t n"
| "start_as_current_span No_op_tracer n = No_op_span"

fun span_exit :: "(string \<Rightarrow> bool) \<Rightarrow> span \<Rightarrow> bool" where
  "span_exit swallow (Library_span t n) = swallow n"
| "span_exit swallow No_op_span = False"

definition with_span :: "(string \<Rightarrow> bool) \<Rightarrow> tracer \<Rightarrow> string \<Rightarrow> ('s \<Rightarrow> (otel_error + 'a) \<times> 's) \<Rightarrow> 's
    \<Rightarrow> (otel_error + 'a option) \<times> 's" where
  "with_span swallow t n body s =
     (case body s of
        (Inr x, s') \<Rightarrow> (Inr (Some x), s')
      | (Inl e, s') \<Rightarrow> if span_exit swallow (start_as_current_span t n) then (Inr None, s') else (Inl e, s'))"

text \<open>Without the library a traced block is the block itself: its value, its exception and its
  effects are unchanged.\<close>

theorem fallback_span_is_transparent:
  assumes "\<not> ot_available m ''opentelemetry.trace''"
  shows "with_span swallow (get_tracer m t) n body s =
    (case body s of (r, s') \<Rightarrow> (map_sum id Some r, s'))"
  using assms by (auto simp: with_span_def get_tracer_def split: prod.splits sum.splits)

subsection \<open>The outcome of the set-up\<close>

definition setup_ok :: "otel \<Rightarrow> string \<Rightarrow> string \<Rightarrow> rat \<Rightarrow> bool" where
  "setup_ok m exporter endpoint rate \<longleftrightarrow>
     list_all (ot_available m) (sdk_modules @ exporter_modules exporter) \<and> 0 \<le> rate \<and> rate \<le> 1
     \<and> (exporter = ''console'' \<or> ot_exporter m endpoint = None)
     \<and> list_all (\<lambda>lib. instrument_one m lib \<noteq> Some Failure) instrumented_libraries"

definition configured_processor :: "string \<Rightarrow> string \<Rightarrow> processor" where
  "configured_processor exporter endpoint =
     (if exporter = ''console'' then Simple_console else Batch_otlp endpoint 2048 512 5000)"

lemma import_all_None: "import_all m xs = None \<longleftrightarrow> list_all (ot_available m) xs"
  by (induction xs) auto

lemma instrument_rest_ok:
  "list_all (\<lambda>lib. instrument_one m lib \<noteq> Some Failure) libs \<Longrightarrow>
   \<exists>st'. instrument_rest m libs st = (Inr (), st') \<and> tr_provider st' = tr_provider st
     \<and> tr_global st' = tr_global st \<and> tr_next st' = tr_next st
     \<and> tr_instrumented st' = tr_instrumented st @ filter (\<lambda>lib. instrument_one m lib = None) libs"
proof (induction libs arbitrary: st)
  case (Cons lib libs)
  then have tl: "list_all (\<lambda>lib. instrument_one m lib \<noteq> Some Failure) libs" by simp
  show ?case
  proof (cases "instrument_one m lib")
    case None
    with Cons.IH [OF tl, of "note_instrumented lib st"] show ?thesis
      by (auto simp: note_instrumented_def log_trace_def)
  next
    case (Some e)
    with Cons.prems have "e \<noteq> Failure" by auto
    with Some Cons.IH [OF tl, of st] show ?thesis by (cases e) auto
  qed
qed simp

lemma instrument_rest_fails:
  "\<not> list_all (\<lambda>lib. instrument_one m lib \<noteq> Some Failure) libs \<Longrightarrow>
   \<exists>st'. instrument_rest m libs st = (Inl Failure, st')"
  by (induction libs arbitrary: st) (auto split: option.split otel_error.split)

lemma instrument_fastapi_sel:
  "tr_provider (instrument_fastapi m st) = tr_provider st"
  "tr_global (instrument_fastapi m st) = tr_global st"
  "tr_next (instrument_fastapi m st) = tr_next st"
  "tr_instrumented (instrument_fastapi m st) =
     tr_instrumented st @ filter (\<lambda>lib. instrument_one m lib = None) [''fastapi'']"
  by (simp_all add: instrument_fastapi_def note_instrumented_def log_trace_def
      split: option.split otel_error.split)

lemma attach_exporter_ok:
  "list_all (ot_available m) (exporter_modules exporter) \<Longrightarrow> exporter = ''console'' \<or> ot_exporter m endpoint = None
   \<Longrightarrow> attach_exporter m exporter endpoint st =
     (Inr (), add_span_processor (configured_processor exporter endpoint) st)"
  by (auto simp: attach_exporter_def configured_processor_def import_all_None [symmetric])

lemma attach_exporter_fails:
  "\<not> (list_all (ot_available m) (exporter_modules exporter) \<and> (exporter = ''console'' \<or> ot_exporter m endpoint = None))
   \<Longrightarrow> \<exists>e. attach_exporter m exporter endpoint st = (Inl e, st)"
  by (auto simp: attach_exporter_def import_all_None [symmetric] split: option.split)

definition fresh_provider :: "string \<Rightarrow> string \<Rightarrow> string \<Rightarrow> rat \<Rightarrow> nat \<Rightarrow> tracer_provider" where
  "fresh_provider svc exporter endpoint rate n =
     \<lparr>tp_serial = n, tp_service = svc, tp_environment = ''production'', tp_rate = rate,
      tp_processors = [configured_processor exporter endpoint], tp_running = True\<rparr>"

lemma init_body_ok:
  assumes "setup_ok m exporter endpoint rate"
  shows "\<exists>st'. init_body m svc exporter endpoint rate st =
      (Inr (), log_trace (Ev_initialized exporter endpoint rate) st')
    \<and> tr_provider st' = Some (fresh_provider svc exporter endpoint rate (tr_next st))
    \<and> tr_global st' = ot_set_global m (fresh_provider svc exporter endpoint rate (tr_next st)) (tr_global st)
    \<and> tr_next st' = tr_next st + 1
    \<and> tr_instrumented st' = tr_instrumented st
        @ filter (\<lambda>lib. instrument_one m lib = None) (''fastapi'' # instrumented_libraries)"
proof -
  from assms have ok: "import_all m sdk_modules = None" "\<not> (rate < 0 \<or> 1 < rate)"
    "attach_exporter m exporter endpoint st1 =
       (Inr (), add_span_processor (configured_processor exporter endpoint) st1)"
    "list_all (\<lambda>lib. instrument_one m lib \<noteq> Some Failure) instrumented_libraries" for st1
    by (auto simp: setup_ok_def import_all_None intro!: attach_exporter_ok)
  let ?st = "set_tracer_provider m (add_span_processor (configured_processor exporter endpoint)
      (create_provider svc rate st))"
  from instrument_rest_ok [OF ok(4), of "instrument_fastapi m ?st"]
  obtain st' where st': "instrument_libraries m ?st = (Inr (), st')"
    "tr_provider st' = tr_provider ?st" "tr_global st' = tr_global ?st" "tr_next st' = tr_next ?st"
    "tr_instrumented st' = tr_instrumented (instrument_fastapi m ?st)
       @ filter (\<lambda>lib. instrument_one m lib = None) instrumented_libraries"
    by (auto simp: instrument_libraries_def instrument_fastapi_sel)
  have st: "tr_provider ?st = Some (fresh_provider svc exporter endpoint rate (tr_next st))"
    "tr_global ?st = ot_set_global m (fresh_provider svc exporter endpoint rate (tr_next st)) (tr_global st)"
    "tr_next ?st = tr_next st + 1" "tr_instrumented ?st = tr_instrumented st"
    by (simp_all add: set_tracer_provider_def add_span_processor_def create_provider_def fresh_provider_def)
  have "init_body m svc exporter endpoint rate st =
      (Inr (), log_trace (Ev_initialized exporter endpoint rate) st')"
    unfolding init_body_def using ok(1,2) by (simp only: ok(3) st'(1) option.case if_False prod.case sum.case)
  moreover have "tr_instrumented st' = tr_instrumented st
        @ filter (\<lambda>lib. instrument_one m lib = None) (''fastapi'' # instrumented_libraries)"
    unfolding st'(5) instrument_fastapi_sel st(4) by simp
  ultimately show ?thesis using st st' by (intro exI [of _ st']) simp
qed

lemma init_body_fails:
  assumes "\<not> setup_ok m exporter endpoint rate"
  shows "\<exists>e st'. init_body m svc exporter endpoint rate st = (Inl e, st')"
proof (cases "list_all (ot_available m) (exporter_modules exporter)
    \<and> (exporter = ''console'' \<or> ot_exporter m endpoint = None)")
  case True
  show ?thesis
  proof (cases "list_all (\<lambda>lib. instrument_one m lib \<noteq> Some Failure) instrumented_libraries")
    case libs: True
    with True assms have "import_all m sdk_modules \<noteq> None \<or> rate < 0 \<or> 1 < rate"
      by (auto simp: setup_ok_def import_all_None)
    then show ?thesis by (auto simp: init_body_def split: option.split)
  next
    case False
    from True have a: "attach_exporter m exporter endpoint st1 =
       (Inr (), add_span_processor (configured_processor exporter endpoint) st1)" for st1
      by (intro attach_exporter_ok) auto
    from instrument_rest_fails [OF False] have "\<exists>st2. instrument_libraries m st1 = (Inl Failure, st2)" for st1
      by (simp add: instrument_libraries_def)
    then obtain f where "instrument_libraries m st1 = (Inl Failure, f st1)" for st1 by metis
    then show ?thesis by (auto simp: init_body_def a split: option.split)
  qed
next
  case False
  from attach_exporter_fails [OF False] obtain f where
    "attach_exporter m exporter endpoint st1 = (Inl (f st1), st1)" for st1 by metis
  then show ?thesis by (auto simp: init_body_def split: option.split)
qed

text \<open>
  Setting up tracing never fails the caller: it logs ''initialized'' as its last event exactly
  when all modules are there, the rate lies between 0 and 1, the exporter could be built and no
  instrumentation beside FastAPI's failed. Then the provider has the one configured processor, and
  the libraries whose instrumentation worked are instrumented in order. Disabled, it only logs.
\<close>

theorem tracing_setup_outcome:
  "(last (tr_log (init_tracing m svc exporter endpoint rate True st)) = Ev_initialized exporter endpoint rate)
     = setup_ok m exporter endpoint rate
   \<and> (setup_ok m exporter endpoint rate \<longrightarrow>
        tr_provider (init_tracing m svc exporter endpoint rate True st) =
          Some (fresh_provider svc exporter endpoint rate (tr_next st))
      \<and> tr_instrumented (init_tracing m svc exporter endpoint rate True st) = tr_instrumented st
          @ filter (\<lambda>lib. instrument_one m lib = None) (''fastapi'' # instrumented_libraries))
   \<and> init_tracing m svc exporter endpoint rate False st = log_trace Ev_disabled st"
proof (cases "setup_ok m exporter endpoint rate")
  case True
  from init_body_ok [OF True, of svc st] True show ?thesis by (auto simp: init_tracing_def log_trace_def)
next
  case False
  from init_body_fails [OF False] obtain e st' where
    "init_body m svc exporter endpoint rate st = (Inl e, st')" by blast
  with False show ?thesis by (cases e) (auto simp: init_tracing_def log_trace_def)
qed

text \<open>
  A process that shuts tracing down and sets it up again, as an application that is started
  twice does, records into a provider that is not the global one: with a library that keeps the
  first global provider, the global provider is the first, stopped one.
\<close>

theorem restarted_tracing_is_stopped:
  assumes "setup_ok m exporter endpoint rate" and "tr_global st = None"
    and "\<And>p. ot_set_global m p None = Some p" and "\<And>p g. ot_set_global m p (Some g) = Some g"
  shows "\<exists>p g. tr_provider (init_tracing m svc exporter endpoint rate True
        (shutdown_tracing (init_tracing m svc exporter endpoint rate True st))) = Some p
      \<and> tr_global (init_tracing m svc exporter endpoint rate True
        (shutdown_tracing (init_tracing m svc exporter endpoint rate True st))) = Some g
      \<and> tp_running p \<and> \<not> tp_running g \<and> tp_serial g \<noteq> tp_serial p"
proof -
  have init: "\<exists>st'. init_tracing m svc exporter endpoint rate True s1 = st'
      \<and> tr_provider st' = Some (fresh_provider svc exporter endpoint rate (tr_next s1))
      \<and> tr_global st' = ot_set_global m (fresh_provider svc exporter endpoint rate (tr_next s1)) (tr_global s1)
      \<and> tr_next st' = tr_next s1 + 1" for s1
    using init_body_ok [OF assms(1), of svc s1] by (auto simp: init_tracing_def log_trace_def)
  from init [of st] obtain a where a: "init_tracing m svc exporter endpoint rate True st = a"
    "tr_provider a = Some (fresh_provider svc exporter endpoint rate (tr_next st))"
    "tr_global a = Some (fresh_provider svc exporter endpoint rate (tr_next st))"
    "tr_next a = tr_next st + 1"
    using assms(2,3) by auto
  have b: "tr_global (shutdown_tracing a) =
      Some ((fresh_provider svc exporter endpoint rate (tr_next st))\<lparr>tp_running := False\<rparr>)"
    "tr_next (shutdown_tracing a) = tr_next st + 1"
    using a(2-4) by (simp_all add: shutdown_tracing_def log_trace_def)
  from init [of "shutdown_tracing a"] b assms(4) show ?thesis
    unfolding a(1) by (auto simp: fresh_provider_def)
qed

subsection \<open>Witnesses\<close>

definition sample_otel :: otel where
  "sample_otel = \<lparr>ot_available = (\<lambda>m. m \<noteq> ''opentelemetry.instrumentation.httpx''),
     ot_exporter = (\<lambda>_. None), ot_instrument = (\<lambda>_. None),
     ot_set_global = (\<lambda>p g. case g of None \<Rightarrow> Some p | Some x \<Rightarrow> Some x)\<rparr>"

definition fresh_tracing :: tracing_state where
  "fresh_tracing = \<lparr>tr_next = 0, tr_provider = None, tr_global = None, tr_instrumented = [], tr_log = []\<rparr>"

lemma sample_setup_ok: "setup_ok sample_otel ''otlp'' ''http://c:4317'' 1"
  unfolding setup_ok_def sample_otel_def by (intro conjI) code_simp+

theorem tracing_setup_outcome_witness:
  "tr_instrumented (init_tracing sample_otel ''api'' ''otlp'' ''http://c:4317'' 1 True fresh_tracing) =
     [''fastapi'', ''sqlalchemy'', ''redis'', ''celery'']"
proof -
  have "tr_instrumented fresh_tracing
      @ filter (\<lambda>lib. instrument_one sample_otel lib = None) (''fastapi'' # instrumented_libraries)
      = [''fastapi'', ''sqlalchemy'', ''redis'', ''celery'']" by code_simp
  with tracing_setup_outcome [of sample_otel "''api''" "''otlp''" "''http://c:4317''" 1 fresh_tracing]
    sample_setup_ok show ?thesis by simp
qed

theorem restarted_tracing_is_stopped_witness:
  "\<exists>g. tr_global (init_tracing sample_otel ''api'' ''otlp'' ''http://c:4317'' 1 True
      (shutdown_tracing (init_tracing sample_otel ''api'' ''otlp'' ''http://c:4317'' 1 True fresh_tracing))) = Some g
    \<and> \<not> tp_running g"
  using restarted_tracing_is_stopped [OF sample_setup_ok, of fresh_tracing "''api''"]
  by (auto simp: fresh_tracing_def sample_otel_def)

theorem fallback_span_is_transparent_witness:
  "with_span (\<lambda>_. True) (get_tracer (sample_otel\<lparr>ot_available := (\<lambda>_. False)\<rparr>) ''t'') ''work''
     (\<lambda>s. (Inl Failure, s + (1::nat))) 4 = (Inl Failure :: otel_error + unit option, 5)"
  using fallback_span_is_transparent [of "sample_otel\<lparr>ot_available := (\<lambda>_. False)\<rparr>" "\<lambda>_. True" "''t''" "''work''"
      "\<lambda>s. (Inl Failure :: otel_error + unit, s + (1::nat))" 4]
  by simp

end
