(* ===== verification/ObjectStore.thy ===== *)
theory ObjectStore
  imports Config DatasetService
begin

section \<open>The object store client (\<open>s3_client.py\<close>)\<close>

text \<open>
  The functions every service uses to reach the object store. The store itself, S3 or MinIO
  behind boto3, is the parameter \<open>s3_service\<close> over a state \<open>'st\<close>; its calls may
  raise \<open>ClientError\<close>, an error response of the server, or another exception, such as a
  connection that cannot be made. What S3 documents of it is the hypothesis \<open>s3_documented\<close>.
\<close>

datatype s3_error = ClientError string | OtherError string

fun s3_exn :: "s3_error \<Rightarrow> exn" where
  "s3_exn (ClientError c) = ExternalError (''ClientError '' @ c)"
| "s3_exn (OtherError m) = ExternalError m"

record s3_object =
  ob_body :: string
  ob_content_type :: string
  ob_encryption :: string
  ob_metadata :: "(string \<times> string) list"

record presign_request =
  pr_operation :: string
  pr_bucket :: string
  pr_key :: string
  pr_content_type :: "string option"
  pr_expires_in :: int

record 'st s3_service =
  sv_head_bucket :: "string \<Rightarrow> 'st \<Rightarrow> s3_error option"
  sv_create_bucket :: "string \<Rightarrow> 'st \<Rightarrow> s3_error option \<times> 'st"
  sv_put_object :: "string \<Rightarrow> string \<Rightarrow> s3_object \<Rightarrow> 'st \<Rightarrow> s3_error option \<times> 'st"
  sv_get_object :: "string \<Rightarrow> string \<Rightarrow> 'st \<Rightarrow> s3_error + string"
  sv_delete_object :: "string \<Rightarrow> string \<Rightarrow> 'st \<Rightarrow> s3_error option \<times> 'st"
  sv_head_object :: "string \<Rightarrow> string \<Rightarrow> 'st \<Rightarrow> s3_error option"
  sv_presign :: "presign_request \<Rightarrow> string"

subsection \<open>The client\<close>

record s3_client =
  cl_endpoint :: string
  cl_access_key :: string
  cl_secret :: string
  cl_region :: string
  cl_max_pool :: nat
  cl_max_attempts :: nat
  cl_connect_timeout :: nat
  cl_read_timeout :: nat

definition boto_client :: "settings \<Rightarrow> s3_client" where
  "boto_client s = \<lparr>cl_endpoint = s3_endpoint_url s, cl_access_key = s3_access_key_id s,
     cl_secret = s3_secret_access_key s, cl_region = s3_region s, cl_max_pool = 25,
     cl_max_attempts = 3, cl_connect_timeout = 5, cl_read_timeout = 30\<rparr>"

text \<open>\<open>get_s3_client\<close>; \<open>boto_ok\<close> is what \<open>boto3.client\<close> raises for a configuration, if anything.\<close>

definition make_s3_client :: "(s3_client \<Rightarrow> exn option) \<Rightarrow> settings \<Rightarrow> s3_client option
    \<Rightarrow> (exn + s3_client) \<times> s3_client option" where
  "make_s3_client boto_ok s c =
     (case boto_ok (boto_client s) of Some e \<Rightarrow> (Inl e, c)
      | None \<Rightarrow> (Inr (boto_client s), Some (boto_client s)))"

definition get_s3_client :: "(s3_client \<Rightarrow> exn option) \<Rightarrow> settings \<Rightarrow> s3_client option
    \<Rightarrow> (exn + s3_client) \<times> s3_client option" where
  "get_s3_client boto_ok s = get_global (\<lambda>c. c) (make_s3_client boto_ok s)"

interpretation s3c: lazy_global "get_s3_client boto_ok s" "\<lambda>c. c" for boto_ok s
  by unfold_locales (auto simp: get_s3_client_def get_global_cases make_s3_client_def split: option.splits)

subsection \<open>The operations\<close>

definition ensure_bucket_exists :: "'st s3_service \<Rightarrow> settings \<Rightarrow> 'st \<Rightarrow> s3_error option \<times> 'st" where
  "ensure_bucket_exists sv s st =
     (case sv_head_bucket sv (s3_bucket_name s) st of
        None \<Rightarrow> (None, st)
      | Some (ClientError _) \<Rightarrow> sv_create_bucket sv (s3_bucket_name s) st
      | Some (OtherError m) \<Rightarrow> (Some (OtherError m), st))"

text \<open>\<open>expiry or settings.s3_presigned_url_expiry\<close>: no expiry and 0 give the default.\<close>

definition expiry_or_default :: "settings \<Rightarrow> int option \<Rightarrow> int" where
  "expiry_or_default s expiry =
     (case expiry of None \<Rightarrow> s3_presigned_url_expiry s
      | Some n \<Rightarrow> if n = 0 then s3_presigned_url_expiry s else n)"

definition generate_presigned_upload_url :: "'st s3_service \<Rightarrow> settings \<Rightarrow> string \<Rightarrow> string
    \<Rightarrow> int option \<Rightarrow> string" where
  "generate_presigned_upload_url sv s key ctype expiry =
     sv_presign sv \<lparr>pr_operation = ''put_object'', pr_bucket = s3_bucket_name s, pr_key = key,
       pr_content_type = Some ctype, pr_expires_in = expiry_or_default s expiry\<rparr>"

definition generate_presigned_download_url :: "'st s3_service \<Rightarrow> settings \<Rightarrow> string
    \<Rightarrow> int option \<Rightarrow> string" where
  "generate_presigned_download_url sv s key expiry =
     sv_presign sv \<lparr>pr_operation = ''get_object'', pr_bucket = s3_bucket_name s, pr_key = key,
       pr_content_type = None, pr_expires_in = expiry_or_default s expiry\<rparr>"

definition upload_bytes :: "(string \<Rightarrow> string) \<Rightarrow> 'st s3_service \<Rightarrow> settings \<Rightarrow> string \<Rightarrow> string \<Rightarrow> string
    \<Rightarrow> 'st \<Rightarrow> (s3_error + string) \<times> 'st" where
  "upload_bytes sha256 sv s key data ctype st =
     (let checksum = sha256 data
      in case sv_put_object sv (s3_bucket_name s) key
                \<lparr>ob_body = data, ob_content_type = ctype, ob_encryption = ''AES256'',
                 ob_metadata = [(''sha256'', checksum)]\<rparr> st of
           (Some e, st1) \<Rightarrow> (Inl e, st1)
         | (None, st1) \<Rightarrow> (Inr checksum, st1))"

definition download_bytes :: "'st s3_service \<Rightarrow> settings \<Rightarrow> string \<Rightarrow> 'st \<Rightarrow> s3_error + string" where
  "download_bytes sv s key st = sv_get_object sv (s3_bucket_name s) key st"

definition delete_object :: "'st s3_service \<Rightarrow> settings \<Rightarrow> string \<Rightarrow> 'st \<Rightarrow> s3_error option \<times> 'st" where
  "delete_object sv s key st = sv_delete_object sv (s3_bucket_name s) key st"

definition object_exists :: "'st s3_service \<Rightarrow> settings \<Rightarrow> string \<Rightarrow> 'st \<Rightarrow> s3_error + bool" where
  "object_exists sv s key st =
     (case sv_head_object sv (s3_bucket_name s) key st of
        None \<Rightarrow> Inr True
      | Some (ClientError _) \<Rightarrow> Inr False
      | Some (OtherError m) \<Rightarrow> Inl (OtherError m))"

text \<open>
  What S3 documents (\<open>objects\<close> are the objects of a bucket): a put that returns stores
  the object under its key and touches no other key, a delete that returns removes the key; a read
  that succeeds returns the stored body, a HEAD that succeeds finds an object, and for a missing key
  both answer with an error response if they answer at all. Any call may fail instead.
\<close>

definition s3_documented :: "'st s3_service \<Rightarrow> ('st \<Rightarrow> string \<Rightarrow> (string \<rightharpoonup> s3_object)) \<Rightarrow> bool" where
  "s3_documented sv objects \<longleftrightarrow>
     (\<forall>b k o' st st'. sv_put_object sv b k o' st = (None, st') \<longrightarrow> objects st' b = (objects st b)(k \<mapsto> o')) \<and>
     (\<forall>b k st st'. sv_delete_object sv b k st = (None, st') \<longrightarrow> objects st' b = (objects st b)(k := None)) \<and>
     (\<forall>b k st d. sv_get_object sv b k st = Inr d \<longrightarrow> (\<exists>x. objects st b k = Some x \<and> ob_body x = d)) \<and>
     (\<forall>b k st. sv_head_object sv b k st = None \<longrightarrow> objects st b k \<noteq> None)"

subsection \<open>The storage service over the client\<close>

text \<open>
  \<open>upload_export_data\<close> and \<open>delete_dataset_files\<close> of \<open>storage_service.py\<close> with
  their calls of the client spelled out; the other theories use them on a plain map from keys to
  content type and bytes, which is what \<open>store_view\<close> shows of the store.
\<close>

definition upload_export_objects :: "(string \<Rightarrow> string) \<Rightarrow> 'st s3_service \<Rightarrow> settings \<Rightarrow> uuid \<Rightarrow> uuid
    \<Rightarrow> string \<Rightarrow> string \<Rightarrow> 'st \<Rightarrow> (s3_error + string) \<times> 'st" where
  "upload_export_objects sha256 sv s org rid data fmt st =
     upload_bytes sha256 sv s (generate_export_key org rid fmt) data (export_content_type fmt) st"

definition delete_dataset_objects :: "'st s3_service \<Rightarrow> settings \<Rightarrow> uuid \<Rightarrow> uuid \<Rightarrow> 'st
    \<Rightarrow> s3_error option \<times> 'st" where
  "delete_dataset_objects sv s org did st =
     (let key = generate_dataset_key org did
      in case object_exists sv s key st of
           Inl e \<Rightarrow> (Some e, st)
         | Inr found \<Rightarrow> if found then delete_object sv s key st else (None, st))"

definition store_view :: "('st \<Rightarrow> string \<Rightarrow> (string \<rightharpoonup> s3_object)) \<Rightarrow> settings \<Rightarrow> 'st
    \<Rightarrow> (string \<rightharpoonup> string \<times> string)" where
  "store_view objects s st =
     (\<lambda>k. map_option (\<lambda>x. (ob_content_type x, ob_body x)) (objects st (s3_bucket_name s) k))"

text \<open>A download as the services see it: an exception or the bytes.\<close>

definition downloaded :: "'st s3_service \<Rightarrow> settings \<Rightarrow> 'st \<Rightarrow> string \<Rightarrow> exn + string" where
  "downloaded sv s st key = (case download_bytes sv s key st of Inl e \<Rightarrow> Inl (s3_exn e) | Inr d \<Rightarrow> Inr d)"

lemma documented:
  assumes "s3_documented sv objects"
  shows "sv_put_object sv b k x st = (None, st') \<Longrightarrow> objects st' b = (objects st b)(k \<mapsto> x)"
    and "sv_delete_object sv b k st = (None, st') \<Longrightarrow> objects st' b = (objects st b)(k := None)"
    and "sv_get_object sv b k st = Inr d \<Longrightarrow> \<exists>x. objects st b k = Some x \<and> ob_body x = d"
    and "sv_head_object sv b k st = None \<Longrightarrow> objects st b k \<noteq> None"
  using assms unfolding s3_documented_def by blast+

lemma upload_stores:
  assumes "s3_documented sv objects" "upload_bytes sha256 sv s key data ctype st = (Inr c, st')"
  shows "c = sha256 data"
    and "store_view objects s st' = (store_view objects s st)(key \<mapsto> (ctype, data))"
proof -
  from assms(2) show "c = sha256 data"
    by (auto simp: upload_bytes_def Let_def split: prod.splits option.splits)
  from assms(2) obtain x where "sv_put_object sv (s3_bucket_name s) key x st = (None, st')"
    "ob_body x = data" "ob_content_type x = ctype"
    by (auto simp: upload_bytes_def Let_def split: prod.splits option.splits)
  with documented(1) [OF assms(1)]
  show "store_view objects s st' = (store_view objects s st)(key \<mapsto> (ctype, data))"
    by (auto simp: store_view_def fun_eq_iff)
qed

lemma download_reads:
  "s3_documented sv objects \<Longrightarrow> download_bytes sv s key st = Inr d \<Longrightarrow>
   \<exists>ct. store_view objects s st key = Some (ct, d)"
  by (auto simp: download_bytes_def store_view_def dest: documented(3))

text \<open>
  C8: An upload that returns refines the abstract upload the other components use: the view of the
  store changes in the one key, and the checksum is the hash. Whatever is downloaded from that key
  afterwards, if the download succeeds, is exactly what was uploaded; so the integrity check of
  the dataset service passes when the download succeeds, and fails, instead of raising, when not.
\<close>

theorem upload_refines_map:
  assumes "s3_documented sv objects"
    and "upload_export_objects sha256 sv s org rid data fmt st = (Inr c, st')"
  shows "(c, store_view objects s st') = upload_export_data sha256 org rid data fmt (store_view objects s st)
    \<and> downloaded sv s st' (generate_export_key org rid fmt) \<in> range Inl \<union> {Inr data}
    \<and> verify_dataset_integrity (downloaded sv s st') sha256 (generate_export_key org rid fmt) c
        = is_ok (downloaded sv s st' (generate_export_key org rid fmt))"
proof -
  let ?k = "generate_export_key org rid fmt"
  note up = upload_stores [OF assms(1) assms(2) [unfolded upload_export_objects_def]]
  have "downloaded sv s st' ?k \<in> range Inl \<union> {Inr data}"
  proof (cases "download_bytes sv s ?k st'")
    case (Inr d)
    with download_reads [OF assms(1) Inr] show ?thesis by (auto simp: downloaded_def up(2))
  qed (simp add: downloaded_def)
  then show ?thesis
    by (auto simp: up upload_export_data_def verify_dataset_integrity_def)
qed

text \<open>
  C9: Deleting the files of a dataset refines the abstract deletion whenever it returns, with one
  exception: when the HEAD request for a stored object is answered with an error, for instance
  access denied or throttling, the client takes the object for missing, and the deletion returns as
  if it had worked while the object stays.
\<close>

theorem delete_refines_map:
  assumes "s3_documented sv objects" and "delete_dataset_objects sv s org did st = (None, st')"
  shows "store_view objects s st' = delete_dataset_files org did (store_view objects s st)
    \<or> (st' = st \<and> store_view objects s st (generate_dataset_key org did) \<noteq> None
       \<and> sv_head_object sv (s3_bucket_name s) (generate_dataset_key org did) st \<in> Some ` range ClientError)"
proof -
  let ?k = "generate_dataset_key org did"
  show ?thesis
  proof (cases "sv_head_object sv (s3_bucket_name s) ?k st")
    case None
    with assms(2) have "sv_delete_object sv (s3_bucket_name s) ?k st = (None, st')"
      by (simp add: delete_dataset_objects_def object_exists_def delete_object_def Let_def)
    with documented(2,4) [OF assms(1)] None show ?thesis
      by (auto simp: store_view_def delete_dataset_files_def Let_def fun_eq_iff)
  next
    case (Some e)
    with assms(2) show ?thesis
      by (cases e) (auto simp: delete_dataset_objects_def object_exists_def delete_dataset_files_def Let_def)
  qed
qed

subsection \<open>Witnesses\<close>

text \<open>A store that is always up, and one in which HEAD is throttled.\<close>

definition map_service :: "bool \<Rightarrow> (string \<Rightarrow> (string \<rightharpoonup> s3_object)) s3_service" where
  "map_service throttled = \<lparr>
     sv_head_bucket = (\<lambda>b st. None), sv_create_bucket = (\<lambda>b st. (None, st)),
     sv_put_object = (\<lambda>b k x st. (None, st(b := (st b)(k \<mapsto> x)))),
     sv_get_object = (\<lambda>b k st. case st b k of None \<Rightarrow> Inl (ClientError ''NoSuchKey'') | Some x \<Rightarrow> Inr (ob_body x)),
     sv_delete_object = (\<lambda>b k st. (None, st(b := (st b)(k := None)))),
     sv_head_object = (\<lambda>b k st. if throttled then Some (ClientError ''503'')
        else if st b k = None then Some (ClientError ''404'') else None),
     sv_presign = pr_key\<rparr>"

lemma map_service_documented: "s3_documented (map_service throttled) (\<lambda>st. st)"
  by (auto simp: s3_documented_def map_service_def split: option.splits if_splits)

theorem upload_refines_map_witness:
  "downloaded (map_service False) settings_defaults
     (snd (upload_export_objects (\<lambda>d. d) (map_service False) settings_defaults 3 2 ''x'' ''csv'' (\<lambda>b. Map.empty)))
     (generate_export_key 3 2 ''csv'') \<in> range Inl \<union> {Inr ''x''}"
proof -
  have "\<exists>st'. upload_export_objects (\<lambda>d. d) (map_service False) settings_defaults 3 2 ''x'' ''csv'' (\<lambda>b. Map.empty)
      = (Inr ''x'', st')"
    by (simp add: upload_export_objects_def upload_bytes_def map_service_def Let_def)
  then obtain st' where st': "upload_export_objects (\<lambda>d. d) (map_service False) settings_defaults 3 2 ''x'' ''csv''
      (\<lambda>b. Map.empty) = (Inr ''x'', st')" ..
  show ?thesis using upload_refines_map [OF map_service_documented st'] by (simp add: st')
qed

definition stored_dataset :: "string \<Rightarrow> (string \<rightharpoonup> s3_object)" where
  "stored_dataset b = [generate_dataset_key 3 2 \<mapsto>
     \<lparr>ob_body = ''[]'', ob_content_type = [], ob_encryption = ''AES256'', ob_metadata = []\<rparr>]"

theorem delete_refines_map_witness:
  "store_view (\<lambda>st. st) settings_defaults (snd (delete_dataset_objects (map_service False) settings_defaults 3 2 stored_dataset))
     = delete_dataset_files 3 2 (store_view (\<lambda>st. st) settings_defaults stored_dataset)"
proof -
  have hd: "sv_head_object (map_service False) (s3_bucket_name settings_defaults) (generate_dataset_key 3 2) stored_dataset = None"
    by (simp add: map_service_def stored_dataset_def)
  then have "fst (delete_dataset_objects (map_service False) settings_defaults 3 2 stored_dataset) = None"
    by (simp add: delete_dataset_objects_def object_exists_def delete_object_def Let_def) (simp add: map_service_def)
  then have "delete_dataset_objects (map_service False) settings_defaults 3 2 stored_dataset
      = (None, snd (delete_dataset_objects (map_service False) settings_defaults 3 2 stored_dataset))"
    by (metis prod.collapse)
  from delete_refines_map [OF map_service_documented this] hd show ?thesis by auto
qed

end
