(* ===== verification/Startup.thy ===== *)
theory Startup
  imports Telemetry ObjectStore MetricService
begin

section \<open>The process: engine, sessions, Redis, start and shutdown (\<open>database.py\<close>, \<open>redis_client.py\<close>, \<open>main.py\<close>)\<close>

text \<open>
  The module globals of a process are a record: engine, session factory, Redis pool, tracing. The
  lifespan of the application creates and closes them, prepares the object store and seeds the
  metrics of theory MetricService. What lies outside, whether SQLAlchemy accepts the engine
  arguments, whether Redis answers, the object store, the reachability of the database and
  OpenTelemetry, are parameters.
\<close>

subsection \<open>Engine and session factory\<close>

record engine =
  en_serial :: nat
  en_url :: string
  en_pool_size :: int
  en_max_overflow :: int
  en_pool_timeout :: int
  en_pool_recycle :: int
  en_pool_pre_ping :: bool
  en_echo :: bool
  en_statement_cache :: nat
  en_query_metrics :: bool

record session_maker =
  sf_bind :: engine
  sf_expire_on_commit :: bool
  sf_autoflush :: bool

record redis_pool =
  rp_serial :: nat
  rp_url :: string
  rp_max_connections :: int
  rp_connect_timeout :: nat
  rp_health_check_interval :: nat

record process =
  pc_next :: nat
  pc_engine :: "engine option"
  pc_factory :: "session_maker option"
  pc_redis :: "redis_pool option"
  pc_tracing :: tracing_state

definition new_engine :: "settings \<Rightarrow> nat \<Rightarrow> engine" where
  "new_engine s n = \<lparr>en_serial = n, en_url = database_url s, en_pool_size = database_pool_size s,
     en_max_overflow = database_max_overflow s, en_pool_timeout = database_pool_timeout s,
     en_pool_recycle = 1800, en_pool_pre_ping = True, en_echo = database_echo s,
     en_statement_cache = 256, en_query_metrics = True\<rparr>"

text \<open>\<open>create\<close> is what \<open>create_async_engine\<close> raises for the settings, if anything.\<close>

definition make_engine :: "(settings \<Rightarrow> exn option) \<Rightarrow> settings \<Rightarrow> process \<Rightarrow> (process, engine) outcome" where
  "make_engine create s p =
     (case create s of Some e \<Rightarrow> (Inl e, p)
      | None \<Rightarrow> let en = new_engine s (pc_next p)
                in (Inr en, p\<lparr>pc_engine := Some en, pc_next := pc_next p + 1\<rparr>))"

definition get_engine :: "(settings \<Rightarrow> exn option) \<Rightarrow> settings \<Rightarrow> process \<Rightarrow> (process, engine) outcome" where
  "get_engine create s = get_global pc_engine (make_engine create s)"

definition make_factory :: "(settings \<Rightarrow> exn option) \<Rightarrow> settings \<Rightarrow> process \<Rightarrow> (process, session_maker) outcome" where
  "make_factory create s p =
     (case get_engine create s p of
        (Inl e, p1) \<Rightarrow> (Inl e, p1)
      | (Inr en, p1) \<Rightarrow>
          let f = \<lparr>sf_bind = en, sf_expire_on_commit = False, sf_autoflush = False\<rparr>
          in (Inr f, p1\<lparr>pc_factory := Some f\<rparr>))"

definition get_session_factory :: "(settings \<Rightarrow> exn option) \<Rightarrow> settings \<Rightarrow> process
    \<Rightarrow> (process, session_maker) outcome" where
  "get_session_factory create s = get_global pc_factory (make_factory create s)"

definition init_engine :: "(settings \<Rightarrow> exn option) \<Rightarrow> settings \<Rightarrow> process \<Rightarrow> (process, unit) outcome" where
  "init_engine create s p =
     (case get_engine create s p of
        (Inl e, p1) \<Rightarrow> (Inl e, p1)
      | (Inr _, p1) \<Rightarrow>
          (case get_session_factory create s p1 of
             (Inl e, p2) \<Rightarrow> (Inl e, p2)
           | (Inr _, p2) \<Rightarrow> (Inr (), p2)))"

definition dispose_engine :: "(engine \<Rightarrow> exn option) \<Rightarrow> process \<Rightarrow> (process, unit) outcome" where
  "dispose_engine dispose p =
     (case pc_engine p of None \<Rightarrow> (Inr (), p)
      | Some en \<Rightarrow>
          (case dispose en of Some e \<Rightarrow> (Inl e, p)
           | None \<Rightarrow> (Inr (), p\<lparr>pc_engine := None, pc_factory := None\<rparr>)))"

subsection \<open>Redis\<close>

definition new_redis :: "settings \<Rightarrow> nat \<Rightarrow> redis_pool" where
  "new_redis s n = \<lparr>rp_serial = n, rp_url = redis_url s, rp_max_connections = redis_max_connections s,
     rp_connect_timeout = 5, rp_health_check_interval = 30\<rparr>"

definition make_redis :: "(settings \<Rightarrow> exn option) \<Rightarrow> settings \<Rightarrow> process \<Rightarrow> (process, redis_pool) outcome" where
  "make_redis from_url s p =
     (case from_url s of Some e \<Rightarrow> (Inl e, p)
      | None \<Rightarrow> let r = new_redis s (pc_next p)
                in (Inr r, p\<lparr>pc_redis := Some r, pc_next := pc_next p + 1\<rparr>))"

definition get_redis :: "(settings \<Rightarrow> exn option) \<Rightarrow> settings \<Rightarrow> process \<Rightarrow> (process, redis_pool) outcome" where
  "get_redis from_url s = get_global pc_redis (make_redis from_url s)"

definition close_redis :: "(redis_pool \<Rightarrow> exn option) \<Rightarrow> process \<Rightarrow> (process, unit) outcome" where
  "close_redis aclose p =
     (case pc_redis p of None \<Rightarrow> (Inr (), p)
      | Some r \<Rightarrow> (case aclose r of Some e \<Rightarrow> (Inl e, p) | None \<Rightarrow> (Inr (), p\<lparr>pc_redis := None\<rparr>)))"

definition redis_health_check :: "(settings \<Rightarrow> exn option) \<Rightarrow> (redis_pool \<Rightarrow> exn + bool) \<Rightarrow> settings \<Rightarrow> process
    \<Rightarrow> bool \<times> process" where
  "redis_health_check from_url ping s p =
     (case get_redis from_url s p of
        (Inl _, p1) \<Rightarrow> (False, p1)
      | (Inr r, p1) \<Rightarrow> (case ping r of Inl _ \<Rightarrow> (False, p1) | Inr b \<Rightarrow> (b, p1)))"

subsection \<open>The globals are created once\<close>

interpretation en: lazy_global "get_engine create s" pc_engine for create s
  by unfold_locales
    (auto simp: get_engine_def get_global_cases make_engine_def Let_def split: option.splits)

lemma engine_keeps_factory:
  "get_engine create s p = (r, p') \<Longrightarrow> pc_factory p' = pc_factory p \<and> pc_redis p' = pc_redis p
     \<and> pc_tracing p' = pc_tracing p \<and> pc_next p \<le> pc_next p'"
  by (auto simp: get_engine_def get_global_cases make_engine_def Let_def split: option.splits)

interpretation sf: lazy_global "get_session_factory create s" pc_factory for create s
proof
  fix p :: process and x assume "pc_factory p = Some x"
  then show "get_session_factory create s p = (Inr x, p)" by (simp add: get_session_factory_def get_global_def)
next
  fix p x p' assume "get_session_factory create s p = (Inr x, p')"
  then show "pc_factory p' = Some x"
    by (auto simp: get_session_factory_def get_global_cases make_factory_def Let_def split: prod.splits sum.splits)
next
  fix p e p' assume "get_session_factory create s p = (Inl e, p')"
  then show "pc_factory p' = None"
    by (auto simp: get_session_factory_def get_global_cases make_factory_def Let_def
        dest: engine_keeps_factory split: prod.splits sum.splits)
qed

interpretation rd: lazy_global "get_redis from_url s" pc_redis for from_url s
  by unfold_locales
    (auto simp: get_redis_def get_global_cases make_redis_def Let_def split: option.splits)

subsection \<open>A factory is bound to the current engine\<close>

text \<open>What may happen to the globals of a process, in any order and with any outcome outside.\<close>

inductive process_step :: "process \<Rightarrow> process \<Rightarrow> bool" where
  step_engine: "get_engine create s p = (r, p') \<Longrightarrow> process_step p p'"
| step_factory: "get_session_factory create s p = (r, p') \<Longrightarrow> process_step p p'"
| step_init: "init_engine create s p = (r, p') \<Longrightarrow> process_step p p'"
| step_dispose: "dispose_engine dispose p = (r, p') \<Longrightarrow> process_step p p'"
| step_redis: "get_redis from_url s p = (r, p') \<Longrightarrow> process_step p p'"
| step_close: "close_redis aclose p = (r, p') \<Longrightarrow> process_step p p'"
| step_ping: "redis_health_check from_url ping s p = (b, p') \<Longrightarrow> process_step p p'"
| step_tracing: "process_step p (p\<lparr>pc_tracing := t\<rparr>)"

definition new_process :: process where
  "new_process = \<lparr>pc_next = 0, pc_engine = None, pc_factory = None, pc_redis = None,
     pc_tracing = fresh_tracing\<rparr>"

inductive process_reached :: "process \<Rightarrow> bool" where
  reached_new: "process_reached new_process"
| reached_step: "process_reached p \<Longrightarrow> process_step p p' \<Longrightarrow> process_reached p'"

definition globals_consistent :: "process \<Rightarrow> bool" where
  "globals_consistent p \<longleftrightarrow>
     (\<forall>f. pc_factory p = Some f \<longrightarrow> pc_engine p = Some (sf_bind f) \<and> \<not> sf_autoflush f \<and> \<not> sf_expire_on_commit f) \<and>
     (\<forall>en. pc_engine p = Some en \<longrightarrow> en_serial en < pc_next p \<and> en_query_metrics en)"

lemma get_engine_consistent:
  "get_engine create s p = (r, p') \<Longrightarrow> globals_consistent p \<Longrightarrow> globals_consistent p'"
  by (auto simp: globals_consistent_def get_engine_def get_global_cases make_engine_def new_engine_def Let_def
      split: option.splits)

lemma get_session_factory_consistent:
  assumes "get_session_factory create s p = (r, p')" "globals_consistent p"
  shows "globals_consistent p'"
proof (cases "pc_factory p")
  case None
  with assms(1) obtain r1 p1 where e: "get_engine create s p = (r1, p1)"
    and r1: "r1 = Inl x \<Longrightarrow> p' = p1"
      "r1 = Inr en \<Longrightarrow> p' = p1\<lparr>pc_factory := Some \<lparr>sf_bind = en, sf_expire_on_commit = False, sf_autoflush = False\<rparr>\<rparr>"
    for x en
    by (cases "get_engine create s p")
      (auto simp: get_session_factory_def get_global_def make_factory_def Let_def split: sum.splits)
  from get_engine_consistent [OF e assms(2)] have c: "globals_consistent p1" .
  show ?thesis
  proof (cases r1)
    case (Inr en)
    with en.created [of create s p en p1] e have "pc_engine p1 = Some en" by simp
    with c r1(2) [OF Inr] show ?thesis by (auto simp: globals_consistent_def)
  qed (use r1(1) c in simp)
qed (use assms in \<open>auto simp: get_session_factory_def get_global_def\<close>)

lemma process_step_consistent: "process_step p p' \<Longrightarrow> globals_consistent p \<Longrightarrow> globals_consistent p'"
proof (induction rule: process_step.induct)
  case (step_init create s p r p')
  then show ?case
    by (auto simp: init_engine_def split: prod.splits sum.splits
        dest: get_engine_consistent get_session_factory_consistent)
next
  case (step_dispose dispose p r p')
  then show ?case by (auto simp: dispose_engine_def globals_consistent_def split: option.splits)
next
  case (step_redis from_url s p r p')
  then show ?case
    by (auto simp: get_redis_def get_global_cases make_redis_def globals_consistent_def Let_def less_Suc_eq
        split: option.splits)
next
  case (step_close aclose p r p')
  then show ?case by (auto simp: close_redis_def globals_consistent_def split: option.splits)
next
  case (step_ping from_url ping s p b p')
  then have "p' = snd (get_redis from_url s p)"
    by (auto simp: redis_health_check_def split: prod.splits sum.splits)
  with step_ping.prems show ?case
    by (auto simp: get_redis_def get_global_def make_redis_def globals_consistent_def Let_def less_Suc_eq
        split: option.splits)
qed (auto simp: globals_consistent_def dest: get_engine_consistent get_session_factory_consistent)

text \<open>
  C27: In every process that started empty, whatever was created, failed or disposed of since, a session
  factory is bound to the engine that is current, with query metrics attached and without
  autoflush or expiry on commit; and asking again for the engine, the factory or the Redis pool
  returns the same object and changes nothing.
\<close>

theorem process_globals_consistent:
  assumes "process_reached p"
  shows "globals_consistent p
    \<and> (get_engine create s p = (Inr en, p1) \<longrightarrow> get_engine create s' p1 = (Inr en, p1))
    \<and> (get_session_factory create s p = (Inr f, p2) \<longrightarrow>
         get_session_factory create s' p2 = (Inr f, p2) \<and> get_engine create s' p2 = (Inr (sf_bind f), p2))
    \<and> (get_redis from_url s p = (Inr r, p3) \<longrightarrow> get_redis from_url s' p3 = (Inr r, p3))"
proof -
  have c: "globals_consistent p"
    using assms by induction (auto simp: new_process_def globals_consistent_def dest: process_step_consistent)
  have engine: "get_engine create s' p1 = (Inr en, p1)" if "get_engine create s p = (Inr en, p1)"
    by (rule en.stored) (rule en.created [OF that])
  have factory: "get_session_factory create s' p2 = (Inr f, p2)" "get_engine create s' p2 = (Inr (sf_bind f), p2)"
    if f: "get_session_factory create s p = (Inr f, p2)"
  proof -
    show "get_session_factory create s' p2 = (Inr f, p2)" by (rule sf.stored) (rule sf.created [OF f])
    have "pc_engine p2 = Some (sf_bind f)"
      using get_session_factory_consistent [OF f c] sf.created [OF f] unfolding globals_consistent_def by blast
    then show "get_engine create s' p2 = (Inr (sf_bind f), p2)" by (rule en.stored)
  qed
  have redis: "get_redis from_url s' p3 = (Inr r, p3)" if "get_redis from_url s p = (Inr r, p3)"
    by (rule rd.stored) (rule rd.created [OF that])
  show ?thesis by (intro conjI impI c engine factory redis)
qed

theorem process_globals_consistent_witness:
  "globals_consistent (snd (get_session_factory (\<lambda>_. None) settings_defaults new_process))"
proof -
  have "process_reached (snd (get_session_factory (\<lambda>_. None) settings_defaults new_process))"
    by (rule reached_step [OF reached_new], rule step_factory, rule prod.collapse [symmetric])
  from process_globals_consistent [OF this] show ?thesis by blast
qed

end
