(* ===== verification/Lifespan.thy ===== *)
theory Lifespan
  imports Startup
begin

section \<open>Application factory and lifespan (\<open>main.py\<close>), query metrics (\<open>database.py\<close>)\<close>

text \<open>
  What happens when the application starts and stops, over the process globals of theory Startup,
  the object store and the database; what the factory configures; and the listeners that measure
  database statements.
\<close>

subsection \<open>The lifespan\<close>

datatype app_event = Starting | Database_initialized | Redis_connected | Redis_unavailable
  | S3_bucket_ready | S3_unavailable | Metrics_seeded nat | Metric_seeding_failed | Started
  | Shutting_down | Shutdown_complete

record 'st app_world =
  wl_process :: process
  wl_client :: "s3_client option"
  wl_store :: 'st
  wl_db :: db
  wl_log :: "app_event list"

record 'st outside =
  ou_otel :: otel
  ou_create :: "settings \<Rightarrow> exn option"
  ou_from_url :: "settings \<Rightarrow> exn option"
  ou_ping :: "redis_pool \<Rightarrow> exn + bool"
  ou_boto :: "s3_client \<Rightarrow> exn option"
  ou_s3 :: "'st s3_service"
  ou_connect :: "exn option"
  ou_env :: env
  ou_ids :: "string \<Rightarrow> uuid"
  ou_dispose :: "engine \<Rightarrow> exn option"
  ou_aclose :: "redis_pool \<Rightarrow> exn option"

definition log_app :: "app_event \<Rightarrow> 'st app_world \<Rightarrow> 'st app_world" where
  "log_app e w = w\<lparr>wl_log := wl_log w @ [e]\<rparr>"

definition start_tracing :: "'st outside \<Rightarrow> settings \<Rightarrow> 'st app_world \<Rightarrow> 'st app_world" where
  "start_tracing x s w = w\<lparr>wl_process := (wl_process w)\<lparr>pc_tracing :=
     init_tracing (ou_otel x) (otel_service_name s) (otel_exporter s) (otel_endpoint s) (otel_sample_rate s)
       (otel_enabled s) (pc_tracing (wl_process w))\<rparr>\<rparr>"

definition start_redis :: "'st outside \<Rightarrow> settings \<Rightarrow> 'st app_world \<Rightarrow> 'st app_world" where
  "start_redis x s w =
     (case redis_health_check (ou_from_url x) (ou_ping x) s (wl_process w) of (ok, p) \<Rightarrow>
        log_app (if ok then Redis_connected else Redis_unavailable) (w\<lparr>wl_process := p\<rparr>))"

definition start_s3 :: "'st outside \<Rightarrow> settings \<Rightarrow> 'st app_world \<Rightarrow> 'st app_world" where
  "start_s3 x s w =
     (case get_s3_client (ou_boto x) s (wl_client w) of
        (Inl _, c) \<Rightarrow> log_app S3_unavailable (w\<lparr>wl_client := c\<rparr>)
      | (Inr _, c) \<Rightarrow>
          (case ensure_bucket_exists (ou_s3 x) s (wl_store w) of
             (None, st) \<Rightarrow> log_app S3_bucket_ready (w\<lparr>wl_client := c, wl_store := st\<rparr>)
           | (Some _, st) \<Rightarrow> log_app S3_unavailable (w\<lparr>wl_client := c, wl_store := st\<rparr>)))"

text \<open>A session needs the factory and, at its first statement, a connection.\<close>

definition start_seeding :: "'st outside \<Rightarrow> settings \<Rightarrow> 'st app_world \<Rightarrow> 'st app_world" where
  "start_seeding x s w =
     (case get_session_factory (ou_create x) s (wl_process w) of
        (Inl _, p) \<Rightarrow> log_app Metric_seeding_failed (w\<lparr>wl_process := p\<rparr>)
      | (Inr _, p) \<Rightarrow>
          (case ou_connect x of
             Some _ \<Rightarrow> log_app Metric_seeding_failed (w\<lparr>wl_process := p\<rparr>)
           | None \<Rightarrow>
               (case in_session (seed_builtin_metrics (ou_env x) (ou_ids x)) (wl_db w) of
                  (Inl _, d) \<Rightarrow> log_app Metric_seeding_failed (w\<lparr>wl_process := p, wl_db := d\<rparr>)
                | (Inr n, d) \<Rightarrow>
                    let w1 = w\<lparr>wl_process := p, wl_db := d\<rparr>
                    in if n \<noteq> 0 then log_app (Metrics_seeded n) w1 else w1)))"

definition lifespan_startup :: "'st outside \<Rightarrow> settings \<Rightarrow> 'st app_world \<Rightarrow> ('st app_world, unit) outcome" where
  "lifespan_startup x s w =
     (let w1 = start_tracing x s (log_app Starting w)
      in case init_engine (ou_create x) s (wl_process w1) of
           (Inl e, p) \<Rightarrow> (Inl e, w1\<lparr>wl_process := p\<rparr>)
         | (Inr _, p) \<Rightarrow>
             let w2 = log_app Database_initialized (w1\<lparr>wl_process := p\<rparr>);
                 w3 = start_seeding x s (start_s3 x s (start_redis x s w2))
             in (Inr (), log_app Started w3))"

definition lifespan_shutdown :: "'st outside \<Rightarrow> 'st app_world \<Rightarrow> ('st app_world, unit) outcome" where
  "lifespan_shutdown x w =
     (let w1 = log_app Shutting_down w
      in case dispose_engine (ou_dispose x) (wl_process w1) of
           (Inl e, p) \<Rightarrow> (Inl e, w1\<lparr>wl_process := p\<rparr>)
         | (Inr _, p) \<Rightarrow>
             (case close_redis (ou_aclose x) p of
                (Inl e, p1) \<Rightarrow> (Inl e, w1\<lparr>wl_process := p1\<rparr>)
              | (Inr _, p1) \<Rightarrow>
                  (Inr (), log_app Shutdown_complete
                     (w1\<lparr>wl_process := p1\<lparr>pc_tracing := shutdown_tracing (pc_tracing p1)\<rparr>\<rparr>))))"

subsection \<open>The factory\<close>

record app_config =
  ac_docs_url :: "string option"
  ac_redoc_url :: "string option"
  ac_openapi_url :: "string option"
  ac_version :: string
  ac_cors_origins :: "string list"
  ac_cors_credentials :: bool
  ac_expose_headers :: "string list"
  ac_sentry :: "(string \<times> string \<times> string \<times> rat) option"

text \<open>\<open>configure_sentry\<close>: address, environment, release and sample rate.\<close>

definition configure_sentry :: "settings \<Rightarrow> (string \<times> string \<times> string \<times> rat) option" where
  "configure_sentry s =
     (if sentry_dsn s \<noteq> [] then
        Some (sentry_dsn s, environment_value (app_env s), ''eval-engine@'' @ app_version s, 1/10)
      else None)"

definition configure_app :: "settings \<Rightarrow> app_config" where
  "configure_app s = \<lparr>
     ac_docs_url = (if is_development s then Some ''/docs'' else None),
     ac_redoc_url = (if is_development s then Some ''/redoc'' else None),
     ac_openapi_url = (if is_development s then Some ''/openapi.json'' else None),
     ac_version = app_version s,
     ac_cors_origins = cors_origins s, ac_cors_credentials = True,
     ac_expose_headers = [''X-Request-ID'', ''X-RateLimit-Limit'', ''X-RateLimit-Remaining'', ''X-RateLimit-Reset''],
     ac_sentry = configure_sentry s\<rparr>"

text \<open>\<open>/metrics\<close>: the collection over processes, or that of this process when it raises.\<close>

definition prometheus_metrics :: "(exn + string) \<Rightarrow> string \<Rightarrow> string \<times> string" where
  "prometheus_metrics multiprocess single =
     (''text/plain; charset=utf-8'', case multiprocess of Inl _ \<Rightarrow> single | Inr d \<Rightarrow> d)"

subsection \<open>Query metrics\<close>

definition classify_query :: "string \<Rightarrow> string" where
  "classify_query statement =
     (let stmt = str_upper (str_strip statement)
      in case filter (\<lambda>p. starts_with p stmt) [''SELECT'', ''INSERT'', ''UPDATE'', ''DELETE''] of
           [] \<Rightarrow> ''OTHER'' | p # _ \<Rightarrow> p)"

record query_clock =
  qc_start :: "rat option"
  qc_observed :: "(string \<times> rat) list"

definition before_execute :: "rat \<Rightarrow> query_clock \<Rightarrow> query_clock" where
  "before_execute t c = c\<lparr>qc_start := Some t\<rparr>"

text \<open>\<open>labels_ok\<close>: the registry can be reached; the listener fails open.\<close>

definition after_execute :: "bool \<Rightarrow> string \<Rightarrow> rat \<Rightarrow> query_clock \<Rightarrow> query_clock" where
  "after_execute labels_ok statement t c =
     (case qc_start c of None \<Rightarrow> c
      | Some t0 \<Rightarrow>
          (let c1 = c\<lparr>qc_start := None\<rparr>
           in if labels_ok then c1\<lparr>qc_observed := qc_observed c1 @ [(classify_query statement, t - t0)]\<rparr> else c1))"

text \<open>A statement on a connection: the second event is not fired when the cursor raises.\<close>

record statement_run =
  sr_sql :: string
  sr_begin :: rat
  sr_end :: rat
  sr_ok :: bool

definition run_statement :: "bool \<Rightarrow> statement_run \<Rightarrow> query_clock \<Rightarrow> query_clock" where
  "run_statement labels_ok r c =
     (let c1 = before_execute (sr_begin r) c
      in if sr_ok r then after_execute labels_ok (sr_sql r) (sr_end r) c1 else c1)"

subsection \<open>Starting and stopping\<close>

definition redis_event :: "'st outside \<Rightarrow> settings \<Rightarrow> nat \<Rightarrow> app_event" where
  "redis_event x s n = (if ou_from_url x s = None \<and> ou_ping x (new_redis s n) = Inr True
     then Redis_connected else Redis_unavailable)"

definition s3_event :: "'st outside \<Rightarrow> settings \<Rightarrow> 'st \<Rightarrow> app_event" where
  "s3_event x s st = (if ou_boto x (boto_client s) = None \<and> fst (ensure_bucket_exists (ou_s3 x) s st) = None
     then S3_bucket_ready else S3_unavailable)"

definition seeding_events :: "'st outside \<Rightarrow> db \<Rightarrow> app_event list" where
  "seeding_events x d =
     (if ou_connect x \<noteq> None then [Metric_seeding_failed]
      else case fst (seed_builtin_metrics (ou_env x) (ou_ids x) d) of
             Inl _ \<Rightarrow> [Metric_seeding_failed]
           | Inr n \<Rightarrow> if n = 0 then [] else [Metrics_seeded n])"

definition seeded_db :: "'st outside \<Rightarrow> db \<Rightarrow> db" where
  "seeded_db x d =
     (if ou_connect x \<noteq> None then d else snd (in_session (seed_builtin_metrics (ou_env x) (ou_ids x)) d))"

lemma init_engine_ok:
  assumes "ou_create x s = None" "pc_engine p = None" "pc_factory p = None"
  shows "\<exists>p'. init_engine (ou_create x) s p = (Inr (), p') \<and> pc_engine p' = Some (new_engine s (pc_next p))
    \<and> pc_factory p' = Some \<lparr>sf_bind = new_engine s (pc_next p), sf_expire_on_commit = False, sf_autoflush = False\<rparr>
    \<and> pc_redis p' = pc_redis p \<and> pc_tracing p' = pc_tracing p \<and> pc_next p' = pc_next p + 1"
  using assms
  by (simp add: init_engine_def get_engine_def get_session_factory_def get_global_def make_engine_def
      make_factory_def Let_def)

lemma start_redis_step:
  assumes "pc_redis (wl_process w) = None"
  shows "wl_log (start_redis x s w) = wl_log w @ [redis_event x s (pc_next (wl_process w))]"
    and "pc_engine (wl_process (start_redis x s w)) = pc_engine (wl_process w)"
    and "pc_factory (wl_process (start_redis x s w)) = pc_factory (wl_process w)"
    and "wl_db (start_redis x s w) = wl_db w" "wl_store (start_redis x s w) = wl_store w"
    and "wl_client (start_redis x s w) = wl_client w"
  using assms
  by (auto simp: start_redis_def redis_health_check_def get_redis_def get_global_def make_redis_def Let_def
      redis_event_def log_app_def split: option.split sum.split)

lemma start_s3_step:
  assumes "wl_client w = None"
  shows "wl_log (start_s3 x s w) = wl_log w @ [s3_event x s (wl_store w)]"
    and "wl_process (start_s3 x s w) = wl_process w" "wl_db (start_s3 x s w) = wl_db w"
  using assms
  by (auto simp: start_s3_def get_s3_client_def get_global_def make_s3_client_def s3_event_def log_app_def
      split: option.split prod.split)

lemma start_seeding_step:
  assumes "pc_factory (wl_process w) = Some f"
  shows "wl_log (start_seeding x s w) = wl_log w @ seeding_events x (wl_db w)"
    and "wl_process (start_seeding x s w) = wl_process w"
    and "wl_db (start_seeding x s w) = seeded_db x (wl_db w)"
proof -
  note f = sf.stored [OF assms]
  show "wl_log (start_seeding x s w) = wl_log w @ seeding_events x (wl_db w)"
    "wl_process (start_seeding x s w) = wl_process w"
    "wl_db (start_seeding x s w) = seeded_db x (wl_db w)"
    by (auto simp: start_seeding_def f seeding_events_def seeded_db_def in_session_def log_app_def Let_def
        split: option.split sum.split prod.split)
qed

text \<open>A world whose process has just begun: no engine, factory, pool or client yet.\<close>

definition just_begun :: "'st app_world \<Rightarrow> bool" where
  "just_begun w \<longleftrightarrow> pc_engine (wl_process w) = None \<and> pc_factory (wl_process w) = None
     \<and> pc_redis (wl_process w) = None \<and> wl_client w = None"

lemma startup_begun:
  assumes "just_begun w" "ou_create x s = None"
  shows "\<exists>w'. lifespan_startup x s w = (Inr (), w')
    \<and> wl_log w' = wl_log w @ [Starting, Database_initialized,
        redis_event x s (pc_next (wl_process w) + 1), s3_event x s (wl_store w)]
        @ seeding_events x (wl_db w) @ [Started]
    \<and> pc_engine (wl_process w') = Some (new_engine s (pc_next (wl_process w)))
    \<and> wl_db w' = seeded_db x (wl_db w)"
proof -
  let ?w1 = "start_tracing x s (log_app Starting w)"
  let ?en = "new_engine s (pc_next (wl_process w))"
  have w1: "pc_engine (wl_process ?w1) = None" "pc_factory (wl_process ?w1) = None"
    "pc_redis (wl_process ?w1) = None" "wl_client ?w1 = None" "wl_log ?w1 = wl_log w @ [Starting]"
    "wl_db ?w1 = wl_db w" "wl_store ?w1 = wl_store w" "pc_next (wl_process ?w1) = pc_next (wl_process w)"
    using assms(1) by (simp_all add: just_begun_def start_tracing_def log_app_def)
  from init_engine_ok [OF assms(2) w1(1,2)] w1 obtain p where p:
    "init_engine (ou_create x) s (wl_process ?w1) = (Inr (), p)" "pc_engine p = Some ?en"
    "\<exists>f. pc_factory p = Some f" "pc_redis p = None" "pc_next p = pc_next (wl_process w) + 1"
    by auto
  let ?w2 = "log_app Database_initialized (?w1\<lparr>wl_process := p\<rparr>)"
  let ?w3 = "start_redis x s ?w2" and ?w4 = "start_s3 x s (start_redis x s ?w2)"
  have w2: "wl_process ?w2 = p" "wl_client ?w2 = None" "wl_db ?w2 = wl_db w" "wl_store ?w2 = wl_store w"
    "wl_log ?w2 = wl_log w @ [Starting, Database_initialized]"
    using w1 by (simp_all add: log_app_def)
  have r: "pc_redis (wl_process ?w2) = None" using p w2 by simp
  note w3 = start_redis_step [OF r, of x s]
  have c: "wl_client ?w3 = None" using w3 w2 by simp
  note w4 = start_s3_step [OF c, of x s]
  obtain f where f: "pc_factory (wl_process ?w4) = Some f" using w4 w3 w2 p by auto
  note w5 = start_seeding_step [OF f, of x s]
  have "lifespan_startup x s w = (Inr (), log_app Started (start_seeding x s ?w4))"
    by (simp add: lifespan_startup_def Let_def p(1))
  moreover have "wl_log (log_app Started (start_seeding x s ?w4)) =
      wl_log w @ [Starting, Database_initialized,
        redis_event x s (pc_next (wl_process w) + 1), s3_event x s (wl_store w)]
        @ seeding_events x (wl_db w) @ [Started]"
    unfolding log_app_def [of Started] using w5 w4 w3 w2 p(5) by simp
  moreover have "pc_engine (wl_process (log_app Started (start_seeding x s ?w4))) = Some ?en"
    "wl_db (log_app Started (start_seeding x s ?w4)) = seeded_db x (wl_db w)"
    unfolding log_app_def [of Started] using w5 w4 w3 w2 p by simp_all
  ultimately show ?thesis by blast
qed

text \<open>
  C28: With settings that SQLAlchemy accepts the application starts whatever else is down: Redis, the
  object store and the database each only show in the log, which records exactly what worked. When
  the engine cannot be created the start stops before Redis, the store and the data are touched.
\<close>

theorem startup_survives_outages:
  assumes "just_begun w"
  shows "(ou_create x s = None \<longrightarrow> (\<exists>w'. lifespan_startup x s w = (Inr (), w')
      \<and> wl_log w' = wl_log w @ [Starting, Database_initialized,
          redis_event x s (pc_next (wl_process w) + 1), s3_event x s (wl_store w)]
          @ seeding_events x (wl_db w) @ [Started]
      \<and> pc_engine (wl_process w') = Some (new_engine s (pc_next (wl_process w)))))
    \<and> (ou_create x s \<noteq> None \<longrightarrow> (\<exists>e w'. lifespan_startup x s w = (Inl e, w')
      \<and> wl_log w' = wl_log w @ [Starting] \<and> wl_db w' = wl_db w \<and> wl_store w' = wl_store w))"
proof (intro conjI impI)
  assume "ou_create x s \<noteq> None"
  moreover have "pc_engine (wl_process (start_tracing x s (log_app Starting w))) = None"
    using assms by (simp add: just_begun_def start_tracing_def log_app_def)
  ultimately show "\<exists>e w'. lifespan_startup x s w = (Inl e, w')
      \<and> wl_log w' = wl_log w @ [Starting] \<and> wl_db w' = wl_db w \<and> wl_store w' = wl_store w"
    by (auto simp: lifespan_startup_def init_engine_def get_engine_def get_global_def make_engine_def
        Let_def start_tracing_def log_app_def)
qed (use startup_begun [OF assms] in blast)

text \<open>
  A start on a reachable database leaves every built-in metric in place exactly once, and any later
  start of a process, with other clocks and ids, changes nothing any more in the database.
\<close>

theorem restart_seeds_nothing:
  assumes "just_begun w" "just_begun w2" "ou_create x s = None" "ou_create x2 s2 = None" "ou_connect x = None"
    and "builtin_unique (metrics (wl_db w))"
    and "lifespan_startup x s w = (Inr (), w1)" and "wl_db w2 = wl_db w1"
    and "lifespan_startup x2 s2 w2 = (Inr (), w3)"
  shows "(\<forall>m \<in> set BUILTIN_METRICS. \<exists>y. filter (is_seeded (def_name m)) (metrics (wl_db w1)) = [y])
    \<and> wl_db w3 = wl_db w1"
proof -
  let ?t = "metrics (wl_db w)"
  have db1: "wl_db w1 = seeded_db x (wl_db w)"
    using startup_begun [OF assms(1,3)] assms(7) by auto
  have db3: "wl_db w3 = seeded_db x2 (wl_db w1)"
    using startup_begun [OF assms(2,4)] assms(8,9) by auto
  have m1: "metrics (wl_db w1) = ?t @ seed_rows (ou_env x) (ou_ids x) ?t"
    using assms(5) by (simp add: db1 seeded_db_def in_session_def seed_result [OF assms(6)])
  have u: "builtin_unique (metrics (wl_db w1))" unfolding m1 by (rule seeded_unique [OF assms(6)])
  have none: "missing (metrics (wl_db w1)) = []" unfolding m1 by (rule seeded_not_missing)
  then have "seed_rows (ou_env x2) (ou_ids x2) (metrics (wl_db w1)) = []" by (simp add: seed_rows_def)
  then have "wl_db w3 = wl_db w1"
    using seed_result [OF u, of "ou_env x2" "ou_ids x2"] none by (simp add: db3 seeded_db_def in_session_def)
  moreover have "\<exists>y. filter (is_seeded (def_name m)) (metrics (wl_db w1)) = [y]" if m: "m \<in> set BUILTIN_METRICS" for m
  proof -
    from seeded_complete [OF m] obtain y where "y \<in> set (metrics (wl_db w1))" "is_seeded (def_name m) y"
      unfolding m1 by blast
    with seeded_once [OF u] show ?thesis by blast
  qed
  ultimately show ?thesis by blast
qed

text \<open>
  A shutdown in which nothing fails leaves no engine, factory, pool or tracer provider; the first
  failure ends it, so when the engine cannot be disposed of, the Redis pool stays open and the
  traces are not flushed.
\<close>

theorem shutdown_stops_at_first_failure:
  "((\<forall>en. ou_dispose x en = None) \<and> (\<forall>r. ou_aclose x r = None) \<longrightarrow>
      (\<exists>w'. lifespan_shutdown x w = (Inr (), w') \<and> pc_engine (wl_process w') = None
        \<and> (pc_engine (wl_process w) \<noteq> None \<or> pc_factory (wl_process w) = None \<longrightarrow> pc_factory (wl_process w') = None)
        \<and> pc_redis (wl_process w') = None \<and> tr_provider (pc_tracing (wl_process w')) = None
        \<and> wl_log w' = wl_log w @ [Shutting_down, Shutdown_complete]))
   \<and> (pc_engine (wl_process w) = Some en \<and> ou_dispose x en = Some e \<longrightarrow>
        lifespan_shutdown x w = (Inl e, log_app Shutting_down w))"
proof (intro conjI impI)
  assume ok: "(\<forall>en. ou_dispose x en = None) \<and> (\<forall>r. ou_aclose x r = None)"
  obtain p1 where p1: "dispose_engine (ou_dispose x) (wl_process w) = (Inr (), p1)" "pc_engine p1 = None"
    "pc_engine (wl_process w) \<noteq> None \<or> pc_factory (wl_process w) = None \<longrightarrow> pc_factory p1 = None"
    using ok by (cases "pc_engine (wl_process w)") (auto simp: dispose_engine_def)
  obtain p2 where p2: "close_redis (ou_aclose x) p1 = (Inr (), p2)" "pc_redis p2 = None"
    "pc_engine p2 = pc_engine p1" "pc_factory p2 = pc_factory p1"
    using ok by (cases "pc_redis p1") (auto simp: close_redis_def)
  have tr: "tr_provider (shutdown_tracing t) = None" for t
    by (cases "tr_provider t") (simp_all add: shutdown_tracing_def log_trace_def)
  let ?w = "log_app Shutdown_complete
    ((log_app Shutting_down w)\<lparr>wl_process := p2\<lparr>pc_tracing := shutdown_tracing (pc_tracing p2)\<rparr>\<rparr>)"
  have "lifespan_shutdown x w = (Inr (), ?w)"
    using p1(1) p2(1) by (simp add: lifespan_shutdown_def Let_def log_app_def)
  then show "\<exists>w'. lifespan_shutdown x w = (Inr (), w') \<and> pc_engine (wl_process w') = None
        \<and> (pc_engine (wl_process w) \<noteq> None \<or> pc_factory (wl_process w) = None \<longrightarrow> pc_factory (wl_process w') = None)
        \<and> pc_redis (wl_process w') = None \<and> tr_provider (pc_tracing (wl_process w')) = None
        \<and> wl_log w' = wl_log w @ [Shutting_down, Shutdown_complete]"
    using p1 p2 tr by (auto simp: log_app_def)
next
  assume "pc_engine (wl_process w) = Some en \<and> ou_dispose x en = Some e"
  then show "lifespan_shutdown x w = (Inl e, log_app Shutting_down w)"
    by (simp add: lifespan_shutdown_def dispose_engine_def Let_def log_app_def)
qed

subsection \<open>Configuration and metrics\<close>

text \<open>
  C29: An application whose settings could be loaded for production shows no documentation or schema,
  reports errors under its release, does not debug and does not sign with the default secret.
\<close>

theorem production_app_is_closed:
  assumes "get_settings load None = (Inr s, c)" "is_production s"
  shows "ac_docs_url (configure_app s) = None \<and> ac_redoc_url (configure_app s) = None
    \<and> ac_openapi_url (configure_app s) = None
    \<and> ac_sentry (configure_app s) = Some (sentry_dsn s, ''production'', ''eval-engine@'' @ app_version s, 1/10)
    \<and> \<not> app_debug s \<and> secret_key s \<noteq> default_secret_key"
proof -
  from assms(1) have "settings_init load = Inr s"
    by (auto simp: get_settings_def get_global_def make_settings_def split: sum.splits)
  with assms(2) have "\<not> app_debug s" "sentry_dsn s \<noteq> []" "secret_key s \<noteq> default_secret_key"
    by (auto simp: settings_init_def validate_production_settings_def is_production_def
        split: sum.splits if_splits)
  with assms(2) show ?thesis
    by (simp add: configure_app_def configure_sentry_def is_development_def is_production_def)
qed

lemma first_match: "(case filter P xs of [] \<Rightarrow> d | x # _ \<Rightarrow> x) \<in> insert d (set xs)"
  by (induction xs) auto

lemma classify_query_label: "classify_query q \<in> {''SELECT'', ''INSERT'', ''UPDATE'', ''DELETE'', ''OTHER''}"
  using first_match [where P = "\<lambda>p. starts_with p (str_upper (str_strip q))"
      and xs = "[''SELECT'', ''INSERT'', ''UPDATE'', ''DELETE'']" and d = "''OTHER''"]
  unfolding classify_query_def Let_def list.set by blast

lemma run_statement_start: "qc_observed (run_statement True r c) =
    qc_observed c @ (if sr_ok r then [(classify_query (sr_sql r), sr_end r - sr_begin r)] else [])"
  by (simp add: run_statement_def before_execute_def after_execute_def Let_def)

text \<open>On a connection every statement that succeeds is measured exactly once, with its own duration
  and one of five labels; one that raises is not measured and does not disturb the next.\<close>

theorem query_metrics_exact:
  "qc_observed (fold (run_statement True) rs c) =
     qc_observed c @ map (\<lambda>r. (classify_query (sr_sql r), sr_end r - sr_begin r)) (filter sr_ok rs)
   \<and> classify_query q \<in> {''SELECT'', ''INSERT'', ''UPDATE'', ''DELETE'', ''OTHER''}"
proof (intro conjI)
  show "qc_observed (fold (run_statement True) rs c) =
     qc_observed c @ map (\<lambda>r. (classify_query (sr_sql r), sr_end r - sr_begin r)) (filter sr_ok rs)"
    by (induction rs arbitrary: c) (simp_all add: run_statement_start)
qed (rule classify_query_label)

subsection \<open>Witnesses\<close>

definition sample_outside :: "exn option \<Rightarrow> (string \<Rightarrow> (string \<rightharpoonup> s3_object)) outside" where
  "sample_outside create = \<lparr>ou_otel = sample_otel, ou_create = (\<lambda>_. create), ou_from_url = (\<lambda>_. None),
     ou_ping = (\<lambda>_. Inl DBAPIError), ou_boto = (\<lambda>_. None), ou_s3 = map_service False, ou_connect = None,
     ou_env = sample_env, ou_ids = length, ou_dispose = (\<lambda>_. None), ou_aclose = (\<lambda>_. None)\<rparr>"

definition sample_app_world :: "(string \<Rightarrow> (string \<rightharpoonup> s3_object)) app_world" where
  "sample_app_world = \<lparr>wl_process = new_process, wl_client = None, wl_store = (\<lambda>_. Map.empty),
     wl_db = empty_db, wl_log = []\<rparr>"

lemma sample_begun: "just_begun sample_app_world"
  by (simp add: just_begun_def sample_app_world_def new_process_def)

theorem startup_survives_outages_witness:
  "\<exists>w'. lifespan_startup (sample_outside None) settings_defaults sample_app_world = (Inr (), w')
     \<and> take 3 (wl_log w') = [Starting, Database_initialized, Redis_unavailable]"
proof -
  have "ou_create (sample_outside None) settings_defaults = None" by (simp add: sample_outside_def)
  with startup_survives_outages [OF sample_begun, of "sample_outside None" settings_defaults]
  obtain w' where "lifespan_startup (sample_outside None) settings_defaults sample_app_world = (Inr (), w')"
    "wl_log w' = wl_log sample_app_world @ [Starting, Database_initialized,
          redis_event (sample_outside None) settings_defaults (pc_next (wl_process sample_app_world) + 1),
          s3_event (sample_outside None) settings_defaults (wl_store sample_app_world)]
          @ seeding_events (sample_outside None) (wl_db sample_app_world) @ [Started]"
    by auto
  moreover have "redis_event (sample_outside None) settings_defaults n = Redis_unavailable" for n
    by (simp add: redis_event_def sample_outside_def)
  ultimately show ?thesis by (intro exI [of _ w']) (simp add: sample_app_world_def)
qed

lemma sample_seed_start: "\<exists>w'. lifespan_startup (sample_outside None) settings_defaults w = (Inr (), w')"
  if "just_begun w"
proof -
  have "ou_create (sample_outside None) settings_defaults = None" by (simp add: sample_outside_def)
  from startup_begun [OF that this] show ?thesis by blast
qed

theorem restart_seeds_nothing_witness:
  "\<exists>w1 w3. lifespan_startup (sample_outside None) settings_defaults sample_app_world = (Inr (), w1)
     \<and> lifespan_startup (sample_outside None) settings_defaults (sample_app_world\<lparr>wl_db := wl_db w1\<rparr>) = (Inr (), w3)
     \<and> wl_db w3 = wl_db w1"
proof -
  from sample_seed_start [OF sample_begun] obtain w1 where
    w1: "lifespan_startup (sample_outside None) settings_defaults sample_app_world = (Inr (), w1)" ..
  let ?w2 = "sample_app_world\<lparr>wl_db := wl_db w1\<rparr>"
  have b: "just_begun ?w2" using sample_begun by (simp add: just_begun_def)
  from sample_seed_start [OF b] obtain w3 where
    w3: "lifespan_startup (sample_outside None) settings_defaults ?w2 = (Inr (), w3)" ..
  have o: "ou_create (sample_outside None) settings_defaults = None" "ou_connect (sample_outside None) = None"
    by (simp_all add: sample_outside_def)
  have u: "builtin_unique (metrics (wl_db sample_app_world))"
    by (simp add: builtin_unique_def sample_app_world_def empty_db_def)
  have "wl_db w3 = wl_db w1"
    using restart_seeds_nothing [OF sample_begun b o(1) o(1) o(2) u w1 _ w3] by simp
  with w1 w3 show ?thesis by blast
qed

theorem shutdown_stops_at_first_failure_witness:
  "lifespan_shutdown ((sample_outside None)\<lparr>ou_dispose := \<lambda>_. Some DBAPIError\<rparr>)
     (sample_app_world\<lparr>wl_process := new_process\<lparr>pc_engine := Some (new_engine settings_defaults 0)\<rparr>\<rparr>) =
   (Inl DBAPIError, log_app Shutting_down
     (sample_app_world\<lparr>wl_process := new_process\<lparr>pc_engine := Some (new_engine settings_defaults 0)\<rparr>\<rparr>))"
  using shutdown_stops_at_first_failure [of "(sample_outside None)\<lparr>ou_dispose := \<lambda>_. Some DBAPIError\<rparr>"
      "sample_app_world\<lparr>wl_process := new_process\<lparr>pc_engine := Some (new_engine settings_defaults 0)\<rparr>\<rparr>"
      "new_engine settings_defaults 0" DBAPIError] by simp

definition production_settings :: settings where
  "production_settings = settings_defaults\<lparr>app_env := PRODUCTION, sentry_dsn := ''https://sentry'',
     secret_key := ''k''\<rparr>"

theorem production_app_is_closed_witness:
  "ac_docs_url (configure_app production_settings) = None \<and> ac_sentry (configure_app production_settings) \<noteq> None"
proof -
  have "get_settings (\<lambda>_. Inr production_settings) None = (Inr production_settings, Some production_settings)"
    by (simp add: get_settings_def get_global_def make_settings_def settings_init_def validate_secret_key_def
        validate_production_settings_def production_settings_def settings_defaults_def default_secret_key_def)
  from production_app_is_closed [OF this] show ?thesis by (simp add: is_production_def production_settings_def)
qed

end
