(* ===== verification/Health.thy ===== *)
theory Health
  imports Lifespan PyNum
begin

section \<open>Health checks (\<open>api/v1/health.py\<close>)\<close>

text \<open>
  The probes over the process globals of theory Startup. A check may create the engine, the Redis
  pool or the S3 client. Parameters: \<open>probe_pg\<close> (opening a connection of the engine and
  \<open>SELECT 1\<close>), the ping of Redis, the object store and what the Celery inspection answers;
  the clock readings around a check are given.
\<close>

record 'st health_env =
  he_create :: "settings \<Rightarrow> exn option"
  he_probe_pg :: "engine \<Rightarrow> exn option"
  he_from_url :: "settings \<Rightarrow> exn option"
  he_ping :: "redis_pool \<Rightarrow> exn + bool"
  he_boto :: "s3_client \<Rightarrow> exn option"
  he_s3 :: "'st s3_service"
  he_inspect :: "exn + string list option"

record 'st health_state =
  hs_process :: process
  hs_client :: "s3_client option"
  hs_store :: 'st

subsection \<open>The checks\<close>

definition check_postgres :: "'st health_env \<Rightarrow> settings \<Rightarrow> 'st health_state \<Rightarrow> bool \<times> 'st health_state" where
  "check_postgres x s h =
     (case get_engine (he_create x) s (hs_process h) of
        (Inl _, p) \<Rightarrow> (False, h\<lparr>hs_process := p\<rparr>)
      | (Inr en, p) \<Rightarrow> (he_probe_pg x en = None, h\<lparr>hs_process := p\<rparr>))"

definition check_redis :: "'st health_env \<Rightarrow> settings \<Rightarrow> 'st health_state \<Rightarrow> bool \<times> 'st health_state" where
  "check_redis x s h =
     (case redis_health_check (he_from_url x) (he_ping x) s (hs_process h) of (b, p) \<Rightarrow> (b, h\<lparr>hs_process := p\<rparr>))"

definition check_s3 :: "'st health_env \<Rightarrow> settings \<Rightarrow> 'st health_state \<Rightarrow> bool \<times> 'st health_state" where
  "check_s3 x s h =
     (case get_s3_client (he_boto x) s (hs_client h) of
        (Inl _, c) \<Rightarrow> (False, h\<lparr>hs_client := c\<rparr>)
      | (Inr _, c) \<Rightarrow> (sv_head_bucket (he_s3 x) (s3_bucket_name s) (hs_store h) = None, h\<lparr>hs_client := c\<rparr>))"

definition check_celery :: "'st health_env \<Rightarrow> settings \<Rightarrow> 'st health_state \<Rightarrow> bool \<times> 'st health_state" where
  "check_celery x s h =
     ((case he_inspect x of Inl _ \<Rightarrow> False | Inr None \<Rightarrow> False | Inr (Some ws) \<Rightarrow> ws \<noteq> []), h)"

subsection \<open>The endpoints\<close>

definition liveness :: "settings \<Rightarrow> (string \<times> string) list" where
  "liveness s = [(''status'', ''ok''), (''version'', app_version s),
     (''environment'', environment_value (app_env s))]"

definition legacy_health :: "settings \<Rightarrow> (string \<times> string) list" where
  "legacy_health s = liveness s"

record readiness_response =
  rr_code :: nat
  rr_status :: string
  rr_version :: string
  rr_checks :: "(string \<times> bool) list"

definition readiness :: "'st health_env \<Rightarrow> settings \<Rightarrow> 'st health_state \<Rightarrow> readiness_response \<times> 'st health_state" where
  "readiness x s h =
     (let (pg, h1) = check_postgres x s h;
          (rds, h2) = check_redis x s h1;
          (s3, h3) = check_s3 x s h2;
          checks = [(''postgresql'', pg), (''redis'', rds), (''s3'', s3)];
          all_healthy = list_all snd checks
      in (\<lparr>rr_code = (if all_healthy then 200 else 503),
           rr_status = (if all_healthy then ''ok'' else ''degraded''),
           rr_version = app_version s, rr_checks = checks\<rparr>, h3))"

record dependency =
  dp_status :: string
  dp_latency :: rat
  dp_error :: "string option"

text \<open>\<open>_timed_check\<close>: the check may raise; \<open>t0\<close> and \<open>t1\<close> are the clock
  before it and when it returned or raised.\<close>

definition timed_check :: "(exn \<Rightarrow> string) \<Rightarrow> rat \<times> rat \<Rightarrow> exn + bool \<Rightarrow> dependency" where
  "timed_check str_exn t r =
     (let latency = py_round 2 ((snd t - fst t) * 1000)
      in case r of
           Inr healthy \<Rightarrow> \<lparr>dp_status = (if healthy then ''ok'' else ''down''), dp_latency = latency, dp_error = None\<rparr>
         | Inl e \<Rightarrow> \<lparr>dp_status = ''down'', dp_latency = latency, dp_error = Some (str_exn e)\<rparr>)"

definition overall_status :: "string list \<Rightarrow> string" where
  "overall_status statuses =
     (if list_all (\<lambda>x. x = ''ok'') statuses then ''ok''
      else if list_ex (\<lambda>x. x = ''down'') statuses then ''degraded''
      else ''degraded'')"

record deps_response =
  dr_code :: nat
  dr_status :: string
  dr_uptime :: rat
  dr_dependencies :: "(string \<times> dependency) list"

definition dependency_health :: "(exn \<Rightarrow> string) \<Rightarrow> (string \<Rightarrow> rat \<times> rat) \<Rightarrow> rat \<Rightarrow> rat \<Rightarrow> 'st health_env
    \<Rightarrow> settings \<Rightarrow> 'st health_state \<Rightarrow> deps_response \<times> 'st health_state" where
  "dependency_health str_exn clock boot time x s h =
     (let timed = (\<lambda>n b. timed_check str_exn (clock n) (Inr b));
          (pg, h1) = check_postgres x s h;
          (rds, h2) = check_redis x s h1;
          (s3, h3) = check_s3 x s h2;
          (cel, h4) = check_celery x s h3;
          deps = [(''postgresql'', timed ''postgresql'' pg), (''redis'', timed ''redis'' rds),
                  (''s3'', timed ''s3'' s3), (''celery'', timed ''celery'' cel)];
          overall = overall_status (map (\<lambda>(_, d). dp_status d) deps)
      in (\<lparr>dr_code = (if overall = ''ok'' then 200 else 503), dr_status = overall,
           dr_uptime = py_round 1 (time - boot), dr_dependencies = deps\<rparr>, h4))"

subsection \<open>What the probes tell\<close>

definition pg_reachable :: "'st health_env \<Rightarrow> settings \<Rightarrow> process \<Rightarrow> bool" where
  "pg_reachable x s p \<longleftrightarrow>
     (case pc_engine p of Some en \<Rightarrow> he_probe_pg x en = None
      | None \<Rightarrow> he_create x s = None \<and> he_probe_pg x (new_engine s (pc_next p)) = None)"

lemma check_postgres_tells: "fst (check_postgres x s h) = pg_reachable x s (hs_process h)"
  by (auto simp: check_postgres_def pg_reachable_def get_engine_def get_global_def make_engine_def Let_def
      split: option.split)

lemma check_consistent:
  "globals_consistent (hs_process h) \<Longrightarrow> globals_consistent (hs_process (snd (check_postgres x s h)))"
  "globals_consistent (hs_process h) \<Longrightarrow> globals_consistent (hs_process (snd (check_redis x s h)))"
  "hs_process (snd (check_s3 x s h)) = hs_process h"
proof -
  assume c: "globals_consistent (hs_process h)"
  show "globals_consistent (hs_process (snd (check_postgres x s h)))"
    using c by (auto simp: check_postgres_def dest: get_engine_consistent split: prod.split sum.split)
  show "globals_consistent (hs_process (snd (check_redis x s h)))"
    using c by (auto simp: check_redis_def split: prod.split intro: process_step_consistent [OF step_ping])
qed (simp add: check_s3_def split: prod.split sum.split)

text \<open>
  Readiness answers 200 exactly when all three checks of its body are true and 503 otherwise, and
  the dashboard answers 200 exactly when readiness does and a Celery worker responds. The dashboard
  knows only ''ok'' and ''degraded'' as a whole, only ''ok'' and ''down'' of a dependency, and never
  reports an error text, because no check lets its exception out. A probe keeps the process
  consistent and leaves the store alone.
\<close>

theorem probes_agree:
  assumes "globals_consistent (hs_process h)"
  shows "(rr_code (fst (readiness x s h)) = 200) = list_all snd (rr_checks (fst (readiness x s h)))
    \<and> rr_code (fst (readiness x s h)) \<in> {200, 503}
    \<and> (dr_code (fst (dependency_health str_exn clock boot time x s h)) = 200) =
        (rr_code (fst (readiness x s h)) = 200 \<and> fst (check_celery x s h))
    \<and> dr_status (fst (dependency_health str_exn clock boot time x s h)) \<in> {''ok'', ''degraded''}
    \<and> list_all (\<lambda>(n, d). dp_status d \<in> {''ok'', ''down''} \<and> dp_error d = None)
        (dr_dependencies (fst (dependency_health str_exn clock boot time x s h)))
    \<and> globals_consistent (hs_process (snd (readiness x s h)))
    \<and> hs_store (snd (readiness x s h)) = hs_store h"
proof -
  obtain pg h1 where 1: "check_postgres x s h = (pg, h1)" by (cases "check_postgres x s h")
  obtain rds h2 where 2: "check_redis x s h1 = (rds, h2)" by (cases "check_redis x s h1")
  obtain s3 h3 where 3: "check_s3 x s h2 = (s3, h3)" by (cases "check_s3 x s h2")
  obtain cel h4 where 4: "check_celery x s h3 = (cel, h4)" by (cases "check_celery x s h3")
  have cel: "fst (check_celery x s h) = cel" using 4 by (simp add: check_celery_def)
  have r: "readiness x s h = (\<lparr>rr_code = (if pg \<and> rds \<and> s3 then 200 else 503),
      rr_status = (if pg \<and> rds \<and> s3 then ''ok'' else ''degraded''), rr_version = app_version s,
      rr_checks = [(''postgresql'', pg), (''redis'', rds), (''s3'', s3)]\<rparr>, h3)"
    by (simp add: readiness_def 1 2 3 Let_def)
  have d: "fst (dependency_health str_exn clock boot time x s h) =
      \<lparr>dr_code = (if pg \<and> rds \<and> s3 \<and> cel then 200 else 503),
       dr_status = (if pg \<and> rds \<and> s3 \<and> cel then ''ok'' else ''degraded''),
       dr_uptime = py_round 1 (time - boot),
       dr_dependencies = [(''postgresql'', timed_check str_exn (clock ''postgresql'') (Inr pg)),
         (''redis'', timed_check str_exn (clock ''redis'') (Inr rds)),
         (''s3'', timed_check str_exn (clock ''s3'') (Inr s3)),
         (''celery'', timed_check str_exn (clock ''celery'') (Inr cel))]\<rparr>"
    by (simp add: dependency_health_def 1 2 3 4 timed_check_def overall_status_def Let_def)
  have "globals_consistent (hs_process h3)"
    using check_consistent(1) [of h x s] check_consistent(2) [of h1 x s] check_consistent(3) [of x s h2] assms
    by (simp add: 1 2 3)
  moreover have "hs_store h3 = hs_store h"
    using 1 2 3 by (auto simp: check_postgres_def check_redis_def check_s3_def split: prod.splits sum.splits)
  ultimately show ?thesis unfolding r d cel by (simp add: timed_check_def Let_def)
qed

text \<open>After a start with the same outside, the database check tells whether the engine of the start can
  reach the database.\<close>

theorem started_process_probes_its_engine:
  assumes "just_begun w" "ou_create x s = None" "lifespan_startup x s w = (Inr (), w')"
    and "hs_process h = wl_process w'"
  shows "fst (check_postgres y s' h) = (he_probe_pg y (new_engine s (pc_next (wl_process w))) = None)"
  using startup_begun [OF assms(1,2)] assms(3,4) by (auto simp: check_postgres_tells pg_reachable_def)

subsection \<open>Witnesses\<close>

definition sample_health :: "(string \<Rightarrow> (string \<rightharpoonup> s3_object)) health_env" where
  "sample_health = \<lparr>he_create = (\<lambda>_. None), he_probe_pg = (\<lambda>_. None), he_from_url = (\<lambda>_. None),
     he_ping = (\<lambda>_. Inr True), he_boto = (\<lambda>_. None), he_s3 = map_service False, he_inspect = Inr None\<rparr>"

definition fresh_health :: "(string \<Rightarrow> (string \<rightharpoonup> s3_object)) health_state" where
  "fresh_health = \<lparr>hs_process = new_process, hs_client = None, hs_store = (\<lambda>_. Map.empty)\<rparr>"

theorem probes_agree_witness:
  "dr_code (fst (dependency_health (\<lambda>_. []) (\<lambda>_. (0, 1)) 0 1 sample_health settings_defaults fresh_health)) \<noteq> 200"
proof -
  have "globals_consistent (hs_process fresh_health)"
    by (simp add: fresh_health_def new_process_def globals_consistent_def)
  moreover have "\<not> fst (check_celery sample_health settings_defaults fresh_health)"
    by (simp add: check_celery_def sample_health_def)
  ultimately show ?thesis
    using probes_agree [of fresh_health sample_health settings_defaults "\<lambda>_. []" "\<lambda>_. (0, 1)" 0 1] by blast
qed

end
