(* ===== verification/QueryAnalysis.thy ===== *)
theory QueryAnalysis
  imports Pipeline Migrations
begin

section \<open>The analyzed queries (\<open>repositories/query_analysis.py\<close>)\<close>

text \<open>
  The three SQL queries that the module documents, as functions of the database, each against the
  code it names as its equivalent; the statements that seed test data, against the schema of theory
  Schema; and the indexes it lists. NULL is \<open>None\<close>; a descending order of PostgreSQL puts
  NULL first unless it is told otherwise.
\<close>

subsection \<open>Query 1: a run with its relations\<close>

text \<open>\<open>get_with_all_relations\<close> of the run repository: \<open>selectinload\<close> reads the rows of a
  relation by the foreign key alone.\<close>

type_synonym loaded_run = "evaluation_run \<times> worker_result list \<times> claim list \<times> contradiction list \<times> score list"

definition get_with_all_relations :: "uuid \<Rightarrow> uuid \<Rightarrow> db \<Rightarrow> exn + loaded_run option" where
  "get_with_all_relations rid org d =
     (case scalar_one_or_none (select_where (\<lambda>r. ident r = rid \<and> organization_id r = org \<and> active r) (runs d)) of
        Inl e \<Rightarrow> Inl e
      | Inr None \<Rightarrow> Inr None
      | Inr (Some r) \<Rightarrow> Inr (Some (r,
          select_where (\<lambda>w. wr_run_id w = ident r) (worker_results d),
          select_where (\<lambda>c. claim_run_id c = ident r) (claims d),
          select_where (\<lambda>c. con_run_id c = ident r) (contradictions d),
          select_where (\<lambda>s. score_run_id s = ident r) (scores d))))"

definition query_1 :: "uuid \<Rightarrow> uuid \<Rightarrow> db
    \<Rightarrow> evaluation_run list \<times> worker_result list \<times> claim list \<times> contradiction list \<times> score list" where
  "query_1 rid org d =
     (select_where (\<lambda>r. ident r = rid \<and> organization_id r = org \<and> active r) (runs d),
      select_where (\<lambda>w. wr_run_id w = rid \<and> active w) (worker_results d),
      select_where (\<lambda>c. claim_run_id c = rid \<and> active c) (claims d),
      select_where (\<lambda>c. con_run_id c = rid \<and> active c) (contradictions d),
      select_where (\<lambda>s. score_run_id s = rid \<and> active s) (scores d))"

subsection \<open>Query 2: the leaderboard\<close>

record leaderboard_row =
  lb_submission :: uuid
  lb_startup_name :: string
  lb_status :: submission_status
  lb_created_at :: timestamp
  lb_overall_score :: "rat option"
  lb_last_evaluated_at :: "timestamp option"
  lb_run_id :: "uuid option"

text \<open>The lateral subquery: \<open>ORDER BY completed_at DESC LIMIT 1\<close>.\<close>

definition latest_run :: "uuid \<Rightarrow> db \<Rightarrow> evaluation_run option" where
  "latest_run sid d =
     (let rows = select_where (\<lambda>r. submission_id r = sid \<and> run_status r = COMPLETED \<and> active r) (runs d)
      in case filter (\<lambda>r. completed_at r = None) rows
              @ order_by_desc (\<lambda>r. case completed_at r of None \<Rightarrow> 0 | Some t \<Rightarrow> t)
                  (filter (\<lambda>r. completed_at r \<noteq> None) rows) of
           [] \<Rightarrow> None
         | r # _ \<Rightarrow> Some r)"

definition leaderboard_entry :: "db \<Rightarrow> submission \<Rightarrow> leaderboard_row" where
  "leaderboard_entry d s =
     (let lr = latest_run (ident s) d
      in \<lparr>lb_submission = ident s, lb_startup_name = startup_name s, lb_status = sub_status s,
          lb_created_at = created_at s,
          lb_overall_score = (case lr of None \<Rightarrow> None | Some r \<Rightarrow> overall_score r),
          lb_last_evaluated_at = (case lr of None \<Rightarrow> None | Some r \<Rightarrow> completed_at r),
          lb_run_id = map_option ident lr\<rparr>)"

text \<open>\<open>ORDER BY overall_score DESC NULLS LAST LIMIT 20 OFFSET 0\<close>.\<close>

definition score_key :: "leaderboard_row \<Rightarrow> rat" where
  "score_key x = (case lb_overall_score x of None \<Rightarrow> 0 | Some q \<Rightarrow> - q)"

definition query_2 :: "uuid \<Rightarrow> db \<Rightarrow> leaderboard_row list" where
  "query_2 org d =
     (let rows = map (leaderboard_entry d) (select_where (\<lambda>s. organization_id s = org \<and> active s) (submissions d))
      in take 20 (sort_key score_key (filter (\<lambda>x. lb_overall_score x \<noteq> None) rows)
                  @ filter (\<lambda>x. lb_overall_score x = None) rows))"

subsection \<open>Query 3: the final score\<close>

record score_summary =
  qs_weighted_avg :: "rat option"
  qs_dimension_count :: nat
  qs_total_contradictions :: nat
  qs_critical_count :: nat
  qs_avg_severity :: "rat option"
  qs_final_score :: rat

text \<open>\<open>GREATEST\<close> of PostgreSQL ignores NULL arguments.\<close>

definition greatest :: "rat \<Rightarrow> rat option \<Rightarrow> rat" where
  "greatest a b = (case b of None \<Rightarrow> a | Some x \<Rightarrow> max a x)"

definition query_3 :: "uuid \<Rightarrow> uuid \<Rightarrow> db \<Rightarrow> score_summary" where
  "query_3 rid org d =
     (let ss = select_where (run_rows rid org) (scores d);
          cs = select_where (con_rows rid org) (contradictions d);
          total_weight = sum_list (map weight ss);
          avg = (if ss = [] \<or> total_weight = 0 then None
                 else Some (sum_list (map (\<lambda>s. score_value s * weight s) ss) / total_weight));
          total = length cs;
          critical = length (filter (\<lambda>c. 8/10 < severity c) cs)
      in \<lparr>qs_weighted_avg = avg, qs_dimension_count = length ss, qs_total_contradictions = total,
          qs_critical_count = critical,
          qs_avg_severity = (if cs = [] then None else Some (sum_list (map severity cs) / of_nat total)),
          qs_final_score = greatest 0
            (map_option (\<lambda>a. a - of_nat critical * (5/100) - of_nat (total - critical) * (2/100)) avg)\<rparr>)"

subsection \<open>The seed statements and the listed indexes\<close>

text \<open>An INSERT: the table and the columns it names. It is accepted when the columns exist and every
  column that may not be NULL is named or has a default of the server.\<close>

definition seed_inserts :: "(string \<times> string list) list" where
  "seed_inserts = [
     (''organizations'', [''id'', ''name'', ''slug'', ''plan_tier'']),
     (''users'', [''id'', ''email'', ''hashed_password'', ''full_name'', ''role'', ''organization_id'']),
     (''submissions'', [''id'', ''organization_id'', ''submitted_by_id'', ''startup_name'', ''status'']),
     (''evaluation_runs'', [''id'', ''submission_id'', ''organization_id'', ''triggered_by_id'', ''status'',
        ''overall_score'']),
     (''claims'', [''id'', ''evaluation_run_id'', ''submission_id'', ''organization_id'', ''claim_text'',
        ''category'', ''confidence_score'']),
     (''scores'', [''id'', ''evaluation_run_id'', ''organization_id'', ''dimension'', ''value'', ''weight''])]"

definition insert_fits :: "string list \<Rightarrow> table_def \<Rightarrow> bool" where
  "insert_fits cols t \<longleftrightarrow>
     list_all (\<lambda>n. list_ex (\<lambda>c. col_name c = n) (tb_columns t)) cols \<and>
     list_all (\<lambda>c. nullable c \<or> server_default c \<noteq> None \<or> col_name c \<in> set cols) (tb_columns t)"

definition insert_accepted :: "table_def list \<Rightarrow> string \<times> string list \<Rightarrow> bool" where
  "insert_accepted ts i = (case find (\<lambda>t. tb_name t = fst i) ts of None \<Rightarrow> False | Some t \<Rightarrow> insert_fits (snd i) t)"

text \<open>How many rows the statements insert, from the one before, and what the documentation announces.\<close>

definition seed_counts :: "(string \<times> nat) list" where
  "seed_counts =
     (let subs = 5000; rns = subs * 3
      in [(''organizations'', 1), (''users'', 1), (''submissions'', subs), (''evaluation_runs'', rns),
          (''claims'', rns * 10), (''scores'', rns * 6)])"

definition announced_counts :: "(string \<times> nat) list" where
  "announced_counts = [(''organizations'', 1), (''users'', 10), (''submissions'', 5000),
     (''evaluation_runs'', 15000), (''claims'', 150000), (''contradictions'', 7500), (''scores'', 90000)]"

text \<open>The index summary: name, where it is used, and its kind, partial or unique, if it is not the key.\<close>

definition index_summary :: "(string \<times> string \<times> bool \<times> bool) list" where
  "index_summary = [
     (''ix_worker_results_run_active'', ''Q1 (step 2)'', True, False),
     (''ix_claims_run_active'', ''Q1 (step 3)'', True, False),
     (''ix_contradictions_run_active'', ''Q1 (step 4), Q3'', True, False),
     (''ix_scores_run_active'', ''Q1 (step 5), Q3'', True, False),
     (''ix_submissions_org_active'', ''Q2'', True, False),
     (''ix_evaluation_runs_submission_active'', ''Q2 (lateral)'', True, False),
     (''ix_evaluation_runs_org_status_active'', ''Dashboard'', True, False),
     (''ix_claims_run_category_active'', ''Category filter'', True, False),
     (''uq_scores_run_dimension_active'', ''Upsert guard'', True, True),
     (''ix_audit_logs_org_timestamp'', ''Audit queries'', False, False)]"

definition index_listed :: "index_def list \<Rightarrow> string \<times> string \<times> bool \<times> bool \<Rightarrow> bool" where
  "index_listed ixs = (\<lambda>(n, _, partial, uniq).
     list_ex (\<lambda>i. ix_name i = n \<and> (ix_where i = active_only) = partial \<and> ix_unique i = uniq) ixs)"

subsection \<open>The queries against the code\<close>

text \<open>
  Query 1 and the repository method it stands for read the same run of the organization, but
  not the same relations: the method loads every row that belongs to the run, the query only those
  that are not soft deleted.
\<close>

theorem query_1_filters_relations:
  assumes "get_with_all_relations rid org d = Inr (Some (r, ws, cs, ks, ss))"
  shows "query_1 rid org d = ([r], filter active ws, filter active cs, filter active ks, filter active ss)
    \<and> ident r = rid \<and> organization_id r = org \<and> active r"
proof -
  have r: "select_where (\<lambda>r. ident r = rid \<and> organization_id r = org \<and> active r) (runs d) = [r]"
    and rest: "ws = select_where (\<lambda>w. wr_run_id w = ident r) (worker_results d)"
      "cs = select_where (\<lambda>c. claim_run_id c = ident r) (claims d)"
      "ks = select_where (\<lambda>c. con_run_id c = ident r) (contradictions d)"
      "ss = select_where (\<lambda>s. score_run_id s = ident r) (scores d)"
    using assms by (auto simp: get_with_all_relations_def split: sum.splits option.splits)
  have "r \<in> set (select_where (\<lambda>r. ident r = rid \<and> organization_id r = org \<and> active r) (runs d))"
    unfolding r by simp
  then have i: "ident r = rid" "organization_id r = org" "active r" by (simp_all add: select_where_def)
  show ?thesis unfolding query_1_def r unfolding rest select_where_def
    using i by (simp add: conj_commute)
qed

lemma latest_run_scoped:
  assumes "\<And>r. r \<in> set (runs d) \<Longrightarrow> submission_id r = sid \<Longrightarrow> organization_id r = org"
  shows "latest_run sid d = get_latest_completed_run sid org d"
proof -
  have "select_where (\<lambda>r. submission_id r = sid \<and> run_status r = COMPLETED \<and> active r) (runs d)
      = select_where (\<lambda>r. submission_id r = sid \<and> organization_id r = org \<and> run_status r = COMPLETED \<and> active r) (runs d)"
    using assms by (auto simp: select_where_def intro: filter_cong)
  then show ?thesis by (simp add: latest_run_def get_latest_completed_run_def Let_def)
qed

definition ranks_before :: "leaderboard_row \<Rightarrow> leaderboard_row \<Rightarrow> bool" where
  "ranks_before x y \<longleftrightarrow>
     (case lb_overall_score y of None \<Rightarrow> True
      | Some q \<Rightarrow> (case lb_overall_score x of None \<Rightarrow> False | Some p \<Rightarrow> q \<le> p))"

lemma ranked:
  assumes "\<And>x. x \<in> set xs \<Longrightarrow> lb_overall_score x \<noteq> None" "\<And>y. y \<in> set ys \<Longrightarrow> lb_overall_score y = None"
  shows "sorted_wrt ranks_before (sort_key score_key xs @ ys)"
proof -
  have "sorted_wrt (\<lambda>x y. score_key x \<le> score_key y) (sort_key score_key xs)"
    by (metis sorted_map sorted_sort_key)
  then have "sorted_wrt ranks_before (sort_key score_key xs)"
    by (rule sorted_wrt_mono_rel [rotated])
      (use assms(1) in \<open>fastforce simp: ranks_before_def score_key_def split: option.splits\<close>)
  moreover have "sorted_wrt ranks_before ys"
    using assms(2) by (induction ys) (auto simp: ranks_before_def)
  ultimately show ?thesis using assms(2) by (auto simp: sorted_wrt_append ranks_before_def)
qed


lemma severity_critical: "(severity_bucket c = ''critical'') = (8/10 < severity c)"
  by (simp add: severity_bucket_def)

lemma query_3_average:
  "compute_weighted_average rid org (scores d) = map_option (py_round 4) (qs_weighted_avg (query_3 rid org d))"
  by (simp add: compute_weighted_average_def query_3_def Let_def)

lemma query_3_critical:
  "qs_critical_count (query_3 rid org d) =
     count_of (count_by_severity_bucket rid org (contradictions d)) ''critical''"
  by (simp add: query_3_def count_by_severity_bucket_def row_count_def severity_critical Let_def)

lemma py_round_twice: "py_round n (py_round n x) = py_round n x"
proof -
  have "py_round n x * 10 ^ n = of_int (round_half_even (x * 10 ^ n))" by (simp add: py_round_def)
  then show ?thesis
    by (metis (no_types, lifting) py_round_def round_half_even_of_int)
qed

text \<open>
  Query 3 and the two repository methods agree on the average, which the method rounds, and on the
  number of critical contradictions. The final score it derives is not the one the finalizer stores:
  without scores it is 0 where the finalizer starts from one half, and each contradiction below
  critical costs 0.02 where the finalizer takes 0.03, 0.01 or nothing. Only for a run with scores
  and without contradictions do the two agree, up to the rounding.
\<close>

theorem query_3_against_finalizer:
  assumes "\<forall>s \<in> set (scores d). ck_scores_range s"
    and "b = count_by_severity_bucket rid org (contradictions d)"
  shows "compute_weighted_average rid org (scores d) = map_option (py_round 4) (qs_weighted_avg (query_3 rid org d))
    \<and> qs_critical_count (query_3 rid org d) = count_of b ''critical''
    \<and> (qs_weighted_avg (query_3 rid org d) = None \<longrightarrow> qs_final_score (query_3 rid org d) = 0
        \<and> (qs_total_contradictions (query_3 rid org d) = 0 \<longrightarrow>
             final_score_of (compute_weighted_average rid org (scores d)) b = 1/2))
    \<and> (\<forall>a. qs_weighted_avg (query_3 rid org d) = Some a \<longrightarrow>
        qs_final_score (query_3 rid org d) = max 0 (a - of_nat (count_of b ''critical'') * (5/100)
            - of_nat (qs_total_contradictions (query_3 rid org d) - count_of b ''critical'') * (2/100))
        \<and> (qs_total_contradictions (query_3 rid org d) = 0 \<longrightarrow>
             final_score_of (compute_weighted_average rid org (scores d)) b =
               py_round 4 (qs_final_score (query_3 rid org d))))"
proof -
  let ?q = "query_3 rid org d" and ?avg = "qs_weighted_avg (query_3 rid org d)"
  have crit: "qs_critical_count ?q = count_of b ''critical''" using assms(2) query_3_critical by simp
  have final: "qs_final_score ?q = greatest 0 (map_option (\<lambda>a. a - of_nat (qs_critical_count ?q) * (5/100)
      - of_nat (qs_total_contradictions ?q - qs_critical_count ?q) * (2/100)) ?avg)"
    by (simp add: query_3_def Let_def)
  have none: "count_of b k = 0" if "qs_total_contradictions ?q = 0" for k
    using that by (simp add: assms(2) query_3_def count_by_severity_bucket_def row_count_def Let_def)
  have final_of: "final_score_of w b = clamp01 (py_round 4 (base_score_of w))"
    if "qs_total_contradictions ?q = 0" for w
    by (simp add: final_score_of_def contradiction_penalty_def none [OF that])
  have half: "clamp01 (py_round 4 (1/2)) = 1/2"
  proof -
    have "py_round 4 (1/2) = of_int (round_half_even (of_int 5000)) / 10 ^ 4" by (simp add: py_round_def)
    also have "\<dots> = 1/2" unfolding round_half_even_of_int by simp
    finally show ?thesis by (simp add: clamp01_def)
  qed
  have some: "final_score_of (compute_weighted_average rid org (scores d)) b = py_round 4 (qs_final_score ?q)"
    if a: "?avg = Some a" and t: "qs_total_contradictions ?q = 0" for a
  proof -
    have w: "compute_weighted_average rid org (scores d) = Some (py_round 4 a)" by (simp add: query_3_average a)
    note range = weighted_average_range [OF assms(1) w]
    have "qs_final_score ?q = max 0 a" using t by (simp add: final greatest_def a crit none)
    moreover have "py_round 4 (max 0 a) = max (py_round 4 0) (py_round 4 a)"
      by (rule max_of_mono [symmetric]) (simp add: mono_def py_round_mono)
    ultimately show ?thesis
      using range by (simp add: w final_of [OF t] base_score_of_def py_round_twice clamp01_id)
  qed
  have "final_score_of (compute_weighted_average rid org (scores d)) b = 1/2"
    if "?avg = None" "qs_total_contradictions ?q = 0"
    using half by (simp add: final_of [OF that(2)] query_3_average that(1) base_score_of_def)
  moreover have "qs_final_score ?q = 0" if "?avg = None" using that by (simp add: final greatest_def)
  moreover have "qs_final_score ?q = max 0 (a - of_nat (count_of b ''critical'') * (5/100)
      - of_nat (qs_total_contradictions ?q - count_of b ''critical'') * (2/100))" if "?avg = Some a" for a
    using that by (simp add: final greatest_def crit)
  ultimately show ?thesis using crit some query_3_average by blast
qed

text \<open>
  The statements that seed test data fit the tables of revision 001, for which they are written, and
  no longer those of the current revision, which took server defaults away: those for organizations,
  users, runs and claims are refused for a missing column, and only submissions and scores fit. All indexes of the
  summary exist in revision 001 with the kind it gives. The statements insert as many rows as announced, except
  for users and contradictions; and the index that shall serve the leaderboard's
  latest run does not contain the time it sorts by.
\<close>

theorem seed_fits_first_revision:
  "list_all (insert_accepted (ct_tables (installed empty_catalog))) seed_inserts
   \<and> (\<exists>c. run_ddl upgrade_head empty_catalog = Inr c
        \<and> map fst (filter (\<lambda>i. \<not> insert_accepted (ct_tables c) i) seed_inserts) =
            [''organizations'', ''users'', ''evaluation_runs'', ''claims''])
   \<and> list_all (index_listed (ct_indexes (installed empty_catalog))) index_summary
   \<and> map ix_columns (filter (\<lambda>i. ix_name i = ''ix_evaluation_runs_submission_active'')
        (ct_indexes (installed empty_catalog))) = [[''submission_id'']]
   \<and> map fst (filter (\<lambda>(t, n). map_of seed_counts t \<noteq> Some n) announced_counts) = [''users'', ''contradictions'']"
proof -
  have t: "ct_tables (installed empty_catalog) = map fst initial_tables"
    "ct_indexes (installed empty_catalog) = concat (map snd initial_tables)"
    by (simp_all add: installed_sel empty_catalog_def)
  obtain c where c: "run_ddl upgrade_head empty_catalog = Inr c"
    "ct_tables c = fold edit_tables upgrade_3db (map fst initial_tables)"
    using head_catalog by blast
  have "list_all (insert_accepted (map fst initial_tables)) seed_inserts" by code_simp
  moreover have "map fst (filter (\<lambda>i. \<not> insert_accepted (fold edit_tables upgrade_3db (map fst initial_tables)) i)
      seed_inserts) = [''organizations'', ''users'', ''evaluation_runs'', ''claims'']" by code_simp
  moreover have "list_all (index_listed (concat (map snd initial_tables))) index_summary" by code_simp
  moreover have "map ix_columns (filter (\<lambda>i. ix_name i = ''ix_evaluation_runs_submission_active'')
      (concat (map snd initial_tables))) = [[''submission_id'']]" by code_simp
  moreover have "map fst (filter (\<lambda>(t, n). map_of seed_counts t \<noteq> Some n) announced_counts)
      = [''users'', ''contradictions'']"
    by (simp add: seed_counts_def announced_counts_def Let_def)
  ultimately show ?thesis unfolding t using c by metis
qed

subsection \<open>Witnesses\<close>

definition query_db :: db where
  "query_db = (sample_db EVALUATED COMPLETED)\<lparr>scores :=
     [(sample_score ''team'' 1 1)\<lparr>organization_id := 1, score_run_id := 4\<rparr>,
      (sample_score ''team'' 0 1)\<lparr>organization_id := 1, score_run_id := 4, deleted_at := Some 9\<rparr>]\<rparr>"

lemma query_db_facts:
  "runs query_db = [sample_run COMPLETED]" "submissions query_db = [sample_submission EVALUATED]"
  "contradictions query_db = []"
  by (simp_all add: query_db_def sample_db_def empty_db_def)

theorem query_1_filters_relations_witness:
  "\<exists>r ws cs ks ss. get_with_all_relations 4 1 query_db = Inr (Some (r, ws, cs, ks, ss)) \<and> length ss = 2
     \<and> query_1 4 1 query_db = ([r], filter active ws, filter active cs, filter active ks, filter active ss)"
proof -
  have "\<exists>ws cs ks ss. get_with_all_relations 4 1 query_db = Inr (Some (sample_run COMPLETED, ws, cs, ks, ss))
      \<and> length ss = 2"
    by (simp add: get_with_all_relations_def query_db_def sample_db_def sample_run_def sample_score_def
        select_where_def)
  then obtain ws cs ks ss where
    g: "get_with_all_relations 4 1 query_db = Inr (Some (sample_run COMPLETED, ws, cs, ks, ss))" "length ss = 2" by blast
  from query_1_filters_relations [OF g(1)] g show ?thesis by blast
qed


theorem query_3_against_finalizer_witness:
  "compute_weighted_average 4 1 (scores query_db) = map_option (py_round 4) (qs_weighted_avg (query_3 4 1 query_db))
   \<and> qs_critical_count (query_3 4 1 query_db) = count_of (count_by_severity_bucket 4 1 (contradictions query_db)) ''critical''"
proof -
  have "\<forall>s \<in> set (scores query_db). ck_scores_range s"
    by (simp add: query_db_def sample_score_def ck_scores_range_def)
  from query_3_against_finalizer [OF this refl, of 4 1] show ?thesis by blast
qed

end
