(* ===== verification/Crypto.thy ===== *)
theory Crypto
  imports Config "HOL-Library.Word"
begin

section \<open>Encryption of fields (\<open>utils/crypto.py\<close>)\<close>

text \<open>
  The key of the symmetric encryption is the URL-safe base64 text of the SHA-256 digest of the
  secret. SHA-256 (\<open>digest\<close>: a text to bytes) and Fernet are parameters; base64 is the
  library's, with its decoder and their round trip.
\<close>

type_synonym byte = "8 word"

subsection \<open>URL-safe base64\<close>

definition b64_alphabet :: string where
  "b64_alphabet = ''ABCDEFGHIJKLMNOPQRSTUVWXYZabcdefghijklmnopqrstuvwxyz0123456789-_''"

definition b64_char :: "nat \<Rightarrow> char" where
  "b64_char i = b64_alphabet ! i"

fun index_in :: "'a list \<Rightarrow> 'a \<Rightarrow> nat option" where
  "index_in [] x = None"
| "index_in (y # ys) x = (if y = x then Some 0 else map_option Suc (index_in ys x))"

definition b64_index :: "char \<Rightarrow> nat option" where
  "b64_index c = index_in b64_alphabet c"

definition group_of :: "byte \<Rightarrow> byte \<Rightarrow> byte \<Rightarrow> nat" where
  "group_of a b c = unat a * 65536 + unat b * 256 + unat c"

definition sextets :: "nat \<Rightarrow> nat list" where
  "sextets n = [n div 262144, n div 4096 mod 64, n div 64 mod 64, n mod 64]"

fun urlsafe_b64encode :: "byte list \<Rightarrow> string" where
  "urlsafe_b64encode [] = []"
| "urlsafe_b64encode [a] = map b64_char (take 2 (sextets (group_of a 0 0))) @ ''==''"
| "urlsafe_b64encode [a, b] = map b64_char (take 3 (sextets (group_of a b 0))) @ ''=''"
| "urlsafe_b64encode (a # b # c # r) = map b64_char (sextets (group_of a b c)) @ urlsafe_b64encode r"

definition bytes_of :: "nat \<Rightarrow> byte list" where
  "bytes_of n = [of_nat (n div 65536), of_nat (n div 256 mod 256), of_nat (n mod 256)]"

definition ungroup :: "nat \<Rightarrow> nat \<Rightarrow> nat \<Rightarrow> nat \<Rightarrow> nat" where
  "ungroup w x y z = w * 262144 + x * 4096 + y * 64 + z"

text \<open>The decoder on padded texts: \<open>None\<close> where the library raises.\<close>

fun urlsafe_b64decode :: "string \<Rightarrow> byte list option" where
  "urlsafe_b64decode [] = Some []"
| "urlsafe_b64decode (w # x # y # z # r) =
     (case (b64_index w, b64_index x, b64_index y, b64_index z) of
        (Some i, Some j, Some k, Some l) \<Rightarrow> map_option ((@) (bytes_of (ungroup i j k l))) (urlsafe_b64decode r)
      | (Some i, Some j, Some k, None) \<Rightarrow>
          if z = CHR ''='' \<and> r = [] then Some (take 2 (bytes_of (ungroup i j k 0))) else None
      | (Some i, Some j, None, None) \<Rightarrow>
          if y = CHR ''='' \<and> z = CHR ''='' \<and> r = [] then Some (take 1 (bytes_of (ungroup i j 0 0))) else None
      | _ \<Rightarrow> None)"
| "urlsafe_b64decode _ = None"

lemma b64_index_char: "i < 64 \<Longrightarrow> b64_index (b64_char i) = Some i"
proof -
  have "list_all (\<lambda>i. b64_index (b64_char i) = Some i) [0..<64]" by code_simp
  then show "i < 64 \<Longrightarrow> b64_index (b64_char i) = Some i" by (simp add: list_all_iff)
qed

lemma b64_index_pad: "b64_index (CHR ''='') = None"
  by code_simp

lemma group_bound: "group_of a b c < 16777216"
proof -
  have "unat a < 256" "unat b < 256" "unat c < 256"
    using unsigned_less [of a] unsigned_less [of b] unsigned_less [of c] by simp_all
  then show ?thesis by (simp add: group_of_def)
qed

lemma sextets_bound: "n < 16777216 \<Longrightarrow> n div 262144 < 64" for n :: nat
  by (rule less_mult_imp_div_less) simp

lemma low_digit: "c < 256 \<Longrightarrow> (x * 256 + c) div 256 = x \<and> (x * 256 + c) mod 256 = c" for x c :: nat
  by simp

lemma ungroup_sextets: "ungroup (n div 262144) (n div 4096 mod 64) (n div 64 mod 64) (n mod 64) = n"
proof -
  have "n div 4096 = n div 4096 div 64 * 64 + n div 4096 mod 64" "n div 64 = n div 64 div 64 * 64 + n div 64 mod 64"
    "n = n div 64 * 64 + n mod 64" by simp_all
  moreover have "n div 4096 div 64 = n div 262144" "n div 64 div 64 = n div 4096"
    by (simp_all add: div_mult2_eq [symmetric])
  ultimately show ?thesis unfolding ungroup_def by linarith
qed

lemma bytes_group: "bytes_of (group_of a b c) = [a, b, c]"
proof -
  have l: "unat a < 256" "unat b < 256" "unat c < 256"
    using unsigned_less [of a] unsigned_less [of b] unsigned_less [of c] by simp_all
  have "group_of a b c div 65536 = unat a" "group_of a b c div 256 mod 256 = unat b" "group_of a b c mod 256 = unat c"
  proof -
    have g: "group_of a b c = (unat a * 256 + unat b) * 256 + unat c" by (simp add: group_of_def)
    note low = low_digit [OF l(3), of "unat a * 256 + unat b", folded g] and mid = low_digit [OF l(2), of "unat a"]
    show "group_of a b c mod 256 = unat c" using low by blast
    show "group_of a b c div 256 mod 256 = unat b" using low mid by metis
    have "group_of a b c div 65536 = group_of a b c div 256 div 256" by (simp add: div_mult2_eq [symmetric])
    then show "group_of a b c div 65536 = unat a" using low mid by metis
  qed
  then show ?thesis by (simp add: bytes_of_def)
qed

lemma b64_roundtrip: "urlsafe_b64decode (urlsafe_b64encode bs) = Some bs"
proof (induction bs rule: urlsafe_b64encode.induct)
  case (2 a)
  let ?n = "group_of a 0 0"
  have "?n = unat a * 1024 * 64" "?n = unat a * 16 * 4096" by (simp_all add: group_of_def)
  then have "?n mod 64 = 0" "?n div 64 mod 64 = 0"
    by (metis mod_mult_self2_is_0) (simp add: group_of_def div_mult_swap [symmetric])
  then have "ungroup (?n div 262144) (?n div 4096 mod 64) 0 0 = ?n"
    using ungroup_sextets [of ?n] by simp
  then show ?case
    using sextets_bound [OF group_bound [of a 0 0]]
    by (simp add: sextets_def b64_index_char b64_index_pad bytes_group)
next
  case (3 a b)
  let ?n = "group_of a b 0"
  have "?n = (unat a * 1024 + unat b * 4) * 64" by (simp add: group_of_def)
  then have "?n mod 64 = 0" by (metis mod_mult_self2_is_0)
  then have "ungroup (?n div 262144) (?n div 4096 mod 64) (?n div 64 mod 64) 0 = ?n"
    using ungroup_sextets [of ?n] by simp
  then show ?case
    using sextets_bound [OF group_bound [of a b 0]]
    by (simp add: sextets_def b64_index_char b64_index_pad bytes_group)
next
  case (4 a b c r)
  then show ?case
    using sextets_bound [OF group_bound [of a b c]]
    by (simp add: sextets_def b64_index_char ungroup_sextets bytes_group)
qed simp

lemma b64_length: "length (urlsafe_b64encode bs) = 4 * ((length bs + 2) div 3)"
proof (induction bs rule: urlsafe_b64encode.induct)
  case (4 a b c r)
  have "(length (a # b # c # r) + 2) div 3 = Suc ((length r + 2) div 3)" by simp
  with 4 show ?case by (simp add: sextets_def)
qed (simp_all add: sextets_def)

subsection \<open>The module\<close>

text \<open>Fernet with a key: building it fails for a key that does not decode to 32 bytes, encrypting gives
  a token, decrypting the text or \<open>InvalidToken\<close>. \<open>fernet_documented\<close> is what the library
  promises of tokens it made.\<close>

record fernet =
  fe_encrypt :: "byte list \<Rightarrow> string \<Rightarrow> string"
  fe_decrypt :: "byte list \<Rightarrow> string \<Rightarrow> exn + string"

definition fernet_key :: "string \<Rightarrow> exn + byte list" where
  "fernet_key key =
     (case urlsafe_b64decode key of
        None \<Rightarrow> Inl (ValueError ''Fernet key must be 32 url-safe base64-encoded bytes.'')
      | Some bs \<Rightarrow> if length bs = 32 then Inr bs
          else Inl (ValueError ''Fernet key must be 32 url-safe base64-encoded bytes.''))"

definition fernet_documented :: "fernet \<Rightarrow> bool" where
  "fernet_documented f \<longleftrightarrow> (\<forall>k t. length k = 32 \<longrightarrow> fe_decrypt f k (fe_encrypt f k t) = Inr t)"

definition derive_fernet_key :: "(string \<Rightarrow> byte list) \<Rightarrow> settings \<Rightarrow> string" where
  "derive_fernet_key digest s = urlsafe_b64encode (digest (secret_key s))"

definition encrypt_value :: "(string \<Rightarrow> byte list) \<Rightarrow> fernet \<Rightarrow> settings \<Rightarrow> string \<Rightarrow> exn + string" where
  "encrypt_value digest f s plaintext =
     (case fernet_key (derive_fernet_key digest s) of
        Inl e \<Rightarrow> Inl e | Inr k \<Rightarrow> Inr (fe_encrypt f k plaintext))"

definition decrypt_value :: "(string \<Rightarrow> byte list) \<Rightarrow> fernet \<Rightarrow> settings \<Rightarrow> string \<Rightarrow> exn + string" where
  "decrypt_value digest f s ciphertext =
     (case fernet_key (derive_fernet_key digest s) of
        Inl e \<Rightarrow> Inl e | Inr k \<Rightarrow> fe_decrypt f k ciphertext)"

text \<open>
  Encryption round trip. With a digest of 32 bytes the derived key is 44 characters that decode to
  exactly the digest, so the cipher always accepts it; encrypting never fails, and what was
  encrypted is decrypted again by every process with the same secret, whatever its other settings.
\<close>

theorem encryption_roundtrip:
  assumes "\<And>x. length (digest x) = 32" and "fernet_documented f" and "secret_key s' = secret_key s"
  shows "length (derive_fernet_key digest s) = 44
    \<and> fernet_key (derive_fernet_key digest s) = Inr (digest (secret_key s))
    \<and> (\<exists>token. encrypt_value digest f s text = Inr token \<and> decrypt_value digest f s' token = Inr text)"
proof -
  have k: "fernet_key (derive_fernet_key digest x) = Inr (digest (secret_key x))" for x
    using assms(1) by (simp add: fernet_key_def derive_fernet_key_def b64_roundtrip)
  have "length (derive_fernet_key digest s) = 44"
    using assms(1) by (simp add: derive_fernet_key_def b64_length)
  moreover have "encrypt_value digest f s text = Inr (fe_encrypt f (digest (secret_key s)) text)"
    by (simp add: encrypt_value_def k)
  moreover have "decrypt_value digest f s' (fe_encrypt f (digest (secret_key s)) text) = Inr text"
    using assms by (simp add: decrypt_value_def k fernet_documented_def)
  ultimately show ?thesis using k by blast
qed

theorem encryption_roundtrip_witness:
  "\<exists>token. encrypt_value (\<lambda>_. replicate 32 7) \<lparr>fe_encrypt = \<lambda>k t. rev t, fe_decrypt = \<lambda>k t. Inr (rev t)\<rparr>
     settings_defaults ''abc'' = Inr token"
  using encryption_roundtrip [of "\<lambda>_. replicate 32 7"
      "\<lparr>fe_encrypt = \<lambda>k t. rev t, fe_decrypt = \<lambda>k t. Inr (rev t)\<rparr>" settings_defaults settings_defaults "''abc''"]
  by (auto simp: fernet_documented_def)

end
