(* ===== verification/DemoData.thy ===== *)
theory DemoData
  imports RowRules
begin

section \<open>Demonstration data (\<open>seed_demo_data.py\<close>)\<close>

text \<open>
  The script that fills a database for a demonstration: its literal data, the rows it makes of them
  and the transaction. Parameters: \<open>hash\<close> (password hashing), the ids of the new rows, the clock
  at each reading and the random numbers, whose documented ranges are the hypothesis
  \<open>demo_random_ok\<close>. Constructing the first row configures the mappers of theory RowRules.
\<close>

subsection \<open>The data\<close>

record demo_startup =
  dm_name :: string
  dm_description :: string
  dm_url :: string
  dm_status :: submission_status
  dm_metadata :: json

record demo_config =
  dc_name :: string
  dc_description :: string
  dc_steps :: "string list"
  dc_weights :: "(string \<times> rat) list"
  dc_model :: string
  dc_max_retries :: nat
  dc_version :: int

record demo_run =
  dn_sub :: nat
  dn_cfg :: nat
  dn_run_status :: run_status
  dn_score :: "rat option"
  dn_workers :: int
  dn_completed :: int
  dn_failed :: int
  dn_days_ago :: int
  dn_error :: "string option"

definition demo_startups :: "demo_startup list" where
  "demo_startups = map (\<lambda>(nm, desc, url, st, sec, stage, team, mrr).
     \<lparr>dm_name = nm, dm_description = desc, dm_url = url, dm_status = st, dm_metadata = JObj
       [(''sector'', JStr sec), (''funding_stage'', JStr stage), (''team_size'', JNum team), (''mrr'', JNum mrr)]\<rparr>)
    [(''NeuraScan AI'',
      ''AI-powered medical imaging diagnostics that detects early-stage cancers with 97% accuracy using proprietary transformer models.'',
      ''https://neurascan.ai'', EVALUATED, ''HealthTech'', ''Series A'', 24, 180000),
     (''QuantumLedger'',
      ''Post-quantum cryptographic protocols for enterprise blockchain. First in the market to achieve NIST PQC certification.'',
      ''https://quantumledger.io'', EVALUATED, ''Web3 + Security'', ''Series B'', 42, 520000),
     (''GreenGrid Energy'',
      ''AI-optimized smart grid management reducing energy waste by 35% for municipal utilities using real-time demand prediction.'',
      ''https://greengrid.energy'', EVALUATED, ''CleanTech'', ''Seed'', 11, 45000),
     (''DeepForge Robotics'',
      ''Autonomous warehouse robots with advanced SLAM navigation. Deployed in 120+ fulfillment centers across North America.'',
      ''https://deepforge.bot'', UNDER_REVIEW, ''Robotics'', ''Series A'', 35, 290000),
     (''VoiceOS'',
      ''Enterprise voice AI platform enabling natural language workflows across CRM, ERP, and custom business applications.'',
      ''https://voiceos.dev'', SUBMITTED, ''Enterprise SaaS'', ''Pre-Seed'', 6, 12000),
     (''BioSynth Labs'',
      ''Computational protein design platform leveraging generative AI for rapid drug discovery. 3 compounds in Phase I trials.'',
      ''https://biosynth.labs'', EVALUATED, ''BioTech'', ''Series C'', 78, 0),
     (''Orbitas Space'',
      ''Low-cost satellite constellation for global IoT connectivity. 40 satellites launched, targeting 200 by 2027.'',
      ''https://orbitas.space'', EVALUATED, ''SpaceTech'', ''Series B'', 55, 340000),
     (''EduVerse AI'',
      ''Personalized AI tutoring platform adapting to individual student learning patterns. Used by 2M+ students across 15 countries.'',
      ''https://eduverse.ai'', SUBMITTED, ''EdTech'', ''Series A'', 28, 95000)]"

definition demo_configs :: "demo_config list" where
  "demo_configs = map (\<lambda>(nm, desc, steps, weights, model, retries, ver).
     \<lparr>dc_name = nm, dc_description = desc, dc_steps = steps, dc_weights = weights, dc_model = model,
      dc_max_retries = retries, dc_version = ver\<rparr>)
    [(''Full Due Diligence Pipeline'',
      ''Comprehensive 7-stage evaluation: GitHub analysis, pitch deck review, web verification, cross-referencing, fabrication detection, LLM judging, and final scoring.'',
      [''github_analysis'', ''pitch_deck'', ''web_verification'', ''video_analysis'', ''cross_check'', ''fabrication_detection'', ''llm_judge''],
      [(''github'', 15/100), (''pitch_deck'', 20/100), (''web'', 10/100), (''video'', 10/100), (''cross_check'', 15/100), (''fabrication'', 15/100), (''llm_judge'', 15/100)],
      ''gemini-2.5-pro'', 3, 3),
     (''Quick Screening'',
      ''Fast 3-stage screening: web verification, pitch analysis, and AI judgment. Completes in under 2 minutes.'',
      [''web_verification'', ''pitch_deck'', ''llm_judge''],
      [(''web'', 30/100), (''pitch_deck'', 35/100), (''llm_judge'', 35/100)],
      ''gemini-2.5-flash'', 2, 2),
     (''Technical Deep Dive'',
      ''Engineering-focused evaluation: GitHub repository analysis, code quality assessment, and architecture review.'',
      [''github_analysis'', ''cross_check'', ''llm_judge''],
      [(''github'', 45/100), (''cross_check'', 25/100), (''llm_judge'', 30/100)],
      ''gemini-2.5-pro'', 3, 1)]"

definition demo_runs :: "demo_run list" where
  "demo_runs = map (\<lambda>(sub, cfg, st, sc, workers, cmp, failed, days, err).
     \<lparr>dn_sub = sub, dn_cfg = cfg, dn_run_status = st, dn_score = sc, dn_workers = workers, dn_completed = cmp,
      dn_failed = failed, dn_days_ago = days, dn_error = err\<rparr>)
    [(0, 0, COMPLETED, Some (87/100), 7, 7, 0, 1, None),
     (1, 0, COMPLETED, Some (92/100), 7, 7, 0, 2, None),
     (2, 1, COMPLETED, Some (74/100), 3, 3, 0, 3, None),
     (5, 0, COMPLETED, Some (95/100), 7, 7, 0, 1, None),
     (6, 2, COMPLETED, Some (81/100), 3, 3, 0, 4, None),
     (0, 1, COMPLETED, Some (89/100), 3, 3, 0, 5, None),
     (1, 2, COMPLETED, Some (91/100), 3, 3, 0, 6, None),
     (2, 0, COMPLETED, Some (72/100), 7, 7, 0, 7, None),
     (3, 0, RUNNING, None, 7, 4, 0, 0, None),
     (4, 1, PENDING, None, 3, 0, 0, 0, None),
     (6, 0, FAILED, None, 7, 5, 2, 3, Some ''Worker timeout on video_analysis (exceeded 300s limit)''),
     (5, 1, COMPLETED, Some (96/100), 3, 3, 0, 2, None)]"

subsection \<open>The rows\<close>

record demo_random =
  rd_days :: "nat \<Rightarrow> int"
  rd_hours :: "nat \<Rightarrow> int"
  rd_run_hours :: "nat \<Rightarrow> int"
  rd_seconds :: "nat \<Rightarrow> int"
  rd_minutes :: "nat \<Rightarrow> int"

text \<open>\<open>random.randint(a, b)\<close> lies between its bounds.\<close>

definition demo_random_ok :: "demo_random \<Rightarrow> bool" where
  "demo_random_ok x \<longleftrightarrow> (\<forall>i. 1 \<le> rd_days x i \<and> rd_days x i \<le> 14 \<and> 0 \<le> rd_hours x i \<and> rd_hours x i \<le> 23
     \<and> 0 \<le> rd_run_hours x i \<and> rd_run_hours x i \<le> 12 \<and> 1 \<le> rd_seconds x i \<and> rd_seconds x i \<le> 10
     \<and> 1 \<le> rd_minutes x i \<and> rd_minutes x i \<le> 8)"

record demo_env =
  de_hash :: "string \<Rightarrow> string"
  de_stamp :: timestamp
  de_clock :: "nat \<Rightarrow> timestamp"
  de_run_clock :: "nat \<Rightarrow> timestamp"
  de_random :: demo_random
  de_org_id :: uuid
  de_user_id :: uuid
  de_sub_id :: "nat \<Rightarrow> uuid"
  de_cfg_id :: "nat \<Rightarrow> uuid"
  de_run_id :: "nat \<Rightarrow> uuid"

definition hours_us :: "int \<Rightarrow> int" where
  "hours_us h = h * 3600 * 1000000"

definition demo_organization :: "demo_env \<Rightarrow> organization" where
  "demo_organization x = \<lparr>ident = de_org_id x, created_at = de_stamp x, updated_at = de_stamp x, deleted_at = None,
     org_name = ''TechVenture Capital'', slug = ''techventure-capital'', plan_tier = FREE,
     rate_limit_per_minute = 100, max_concurrent_evaluations = 10, org_settings = empty_obj\<rparr>"

definition demo_user :: "demo_env \<Rightarrow> user" where
  "demo_user x = \<lparr>ident = de_user_id x, created_at = de_stamp x, updated_at = de_stamp x, deleted_at = None,
     organization_id = de_org_id x, email = ''admin@techventure.ai'', hashed_password = de_hash x ''demo1234'',
     full_name = ''Demo Admin'', user_role = UR_ADMIN, is_active = True, last_login_at = None,
     failed_login_attempts = 0\<rparr>"

definition demo_submission :: "demo_env \<Rightarrow> nat \<Rightarrow> demo_startup \<Rightarrow> submission" where
  "demo_submission x i s = \<lparr>ident = de_sub_id x i,
     created_at = de_clock x i - hours_us (24 * rd_days (de_random x) i + rd_hours (de_random x) i),
     updated_at = de_stamp x, deleted_at = None, organization_id = de_org_id x,
     submitted_by_id = Some (de_user_id x), startup_name = dm_name s, sub_description = Some (dm_description s),
     website_url = Some (dm_url s), pitch_deck_url = None, sub_status = dm_status s,
     sub_metadata = dm_metadata s, raw_content = empty_obj\<rparr>"

definition demo_pipeline :: "demo_config \<Rightarrow> json" where
  "demo_pipeline c = JObj [(''steps'', JArr (map JStr (dc_steps c))),
     (''weights'', JObj (map (\<lambda>(k, v). (k, JNum v)) (dc_weights c))), (''model'', JStr (dc_model c)),
     (''max_retries'', JNum (of_nat (dc_max_retries c)))]"

definition demo_evaluation_config :: "demo_env \<Rightarrow> nat \<Rightarrow> demo_config \<Rightarrow> evaluation_config" where
  "demo_evaluation_config x i c = \<lparr>ident = de_cfg_id x i, created_at = de_stamp x, updated_at = de_stamp x,
     deleted_at = None, organization_id = de_org_id x, config_version = dc_version c, config_name = dc_name c,
     config_description = Some (dc_description c), config_created_by_id = Some (de_user_id x),
     pipeline_config = demo_pipeline c, config_webhook_url = None, is_template = True\<rparr>"

text \<open>The progress that the script computes for a run goes nowhere and is left out.\<close>

definition demo_evaluation_run :: "demo_env \<Rightarrow> nat \<Rightarrow> demo_run \<Rightarrow> evaluation_run" where
  "demo_evaluation_run x i r =
     (let rnd = de_random x;
          created = de_run_clock x i - hours_us (24 * dn_days_ago r + rd_run_hours rnd i);
          started = (if dn_run_status r \<noteq> PENDING then Some (created + rd_seconds rnd i * 1000000) else None);
          completed = (if dn_run_status r = COMPLETED
                       then map_option (\<lambda>t. t + rd_minutes rnd i * 60 * 1000000) started else None)
      in \<lparr>ident = de_run_id x i, created_at = created, updated_at = de_stamp x, deleted_at = None,
          organization_id = de_org_id x, version = 1, submission_id = de_sub_id x (dn_sub r),
          config_id = Some (de_cfg_id x (dn_cfg r)), triggered_by_id = Some (de_user_id x),
          run_status = dn_run_status r, started_at = started, completed_at = completed,
          total_workers = dn_workers r, completed_workers = dn_completed r, failed_workers = dn_failed r,
          overall_score = dn_score r, run_error_message = dn_error r, run_celery_task_id = None,
          config_snapshot = demo_pipeline (demo_configs ! dn_cfg r),
          run_metadata = JObj [(''source'', JStr ''demo_seed''), (''version'', JStr ''1.0'')]\<rparr>)"

definition numbered :: "(nat \<Rightarrow> 'a \<Rightarrow> 'b) \<Rightarrow> 'a list \<Rightarrow> 'b list" where
  "numbered f xs = map (\<lambda>(i, y). f i y) (zip [0..<length xs] xs)"

text \<open>The body of the \<open>try\<close>: the unique indexes refuse a second organization or user.\<close>

definition demo_body :: "demo_env \<Rightarrow> db \<Rightarrow> (db, unit) outcome" where
  "demo_body x d =
     (if list_ex (\<lambda>y. active y \<and> slug y = slug (demo_organization x)) (organizations d)
      then (Inl (IntegrityError ''ix_organizations_slug_active''), d)
      else
        let d1 = d\<lparr>organizations := insert_row (demo_organization x) (organizations d)\<rparr>
        in if list_ex (\<lambda>u. active u \<and> email u = email (demo_user x)) (users d1)
           then (Inl (IntegrityError ''ix_users_email_active''), d1)
           else (Inr (), d1\<lparr>users := insert_row (demo_user x) (users d1),
                  submissions := submissions d1 @ numbered (demo_submission x) demo_startups,
                  configs := configs d1 @ numbered (demo_evaluation_config x) demo_configs,
                  runs := runs d1 @ numbered (demo_evaluation_run x) demo_runs\<rparr>))"

definition demo_seed :: "string list \<Rightarrow> demo_env \<Rightarrow> db \<Rightarrow> (db, unit) outcome" where
  "demo_seed classes x d =
     in_session (\<lambda>d. case configure_mappers classes of Inl e \<Rightarrow> (Inl e, d) | Inr _ \<Rightarrow> demo_body x d) d"

subsection \<open>Properties\<close>

lemma mappers: "configure_mappers api_classes = Inr ()" "\<exists>e. configure_mappers registered_classes = Inl e"
proof -
  have "unresolved api_classes = []" "unresolved registered_classes \<noteq> []" by code_simp+
  then show "configure_mappers api_classes = Inr ()" "\<exists>e. configure_mappers registered_classes = Inl e"
    by (simp_all add: configure_mappers_def refuse_def)
qed

text \<open>
  The script as it is started never inserts anything: it only imports the classes of the model
  package, with which the mappers cannot be configured. In a process that has imported all classes
  it fills a database that has neither its organization nor its user, all or nothing, and running
  it again is refused by the unique slug and changes nothing.
\<close>

theorem demo_seed_once:
  assumes "\<not> list_ex (\<lambda>y. active y \<and> slug y = ''techventure-capital'') (organizations d)"
    and "\<not> list_ex (\<lambda>u. active u \<and> email u = ''admin@techventure.ai'') (users d)"
  shows "(\<exists>e. demo_seed registered_classes x d = (Inl e, d))
    \<and> (\<exists>d1. demo_seed api_classes x d = (Inr (), d1)
        \<and> length (submissions d1) = length (submissions d) + 8 \<and> length (runs d1) = length (runs d) + 12
        \<and> demo_seed api_classes x' d1 = (Inl (IntegrityError ''ix_organizations_slug_active''), d1))"
proof (intro conjI)
  from mappers(2) show "\<exists>e. demo_seed registered_classes x d = (Inl e, d)"
    by (auto simp: demo_seed_def in_session_def)
  have s: "slug (demo_organization y) = ''techventure-capital''" "email (demo_user y) = ''admin@techventure.ai''"
    "active (demo_organization y)" for y
    by (simp_all add: demo_organization_def demo_user_def)
  have l: "length (numbered f xs) = length xs" for f :: "nat \<Rightarrow> 'a \<Rightarrow> 'b" and xs by (simp add: numbered_def)
  have n: "length demo_startups = 8" "length demo_runs = 12" by (simp_all add: demo_startups_def demo_runs_def)
  obtain d1 where d1: "demo_body x d = (Inr (), d1)"
      "organizations d1 = organizations d @ [demo_organization x]"
      "length (submissions d1) = length (submissions d) + 8" "length (runs d1) = length (runs d) + 12"
    using assms by (simp add: demo_body_def s Let_def insert_row_def l n)
  have "list_ex (\<lambda>y. active y \<and> slug y = ''techventure-capital'') (organizations d1)"
    unfolding d1(2) using s by (simp add: list_ex_iff)
  then have "demo_body x' d1 = (Inl (IntegrityError ''ix_organizations_slug_active''), d1)"
    by (simp add: demo_body_def s)
  with d1 show "\<exists>d1. demo_seed api_classes x d = (Inr (), d1)
        \<and> length (submissions d1) = length (submissions d) + 8 \<and> length (runs d1) = length (runs d) + 12
        \<and> demo_seed api_classes x' d1 = (Inl (IntegrityError ''ix_organizations_slug_active''), d1)"
    by (intro exI [of _ d1]) (simp add: demo_seed_def in_session_def mappers)
qed

definition run_plausible :: "demo_run \<Rightarrow> bool" where
  "run_plausible r \<longleftrightarrow> 0 \<le> dn_completed r \<and> 0 \<le> dn_failed r \<and> dn_completed r + dn_failed r \<le> dn_workers r
     \<and> dn_workers r = int (length (dc_steps (demo_configs ! dn_cfg r)))
     \<and> (dn_score r \<noteq> None) = (dn_run_status r = COMPLETED)
     \<and> (case dn_score r of None \<Rightarrow> True | Some q \<Rightarrow> 0 \<le> q \<and> q \<le> 1)"

definition times_ordered :: "evaluation_run \<Rightarrow> bool" where
  "times_ordered r \<longleftrightarrow>
     (case started_at r of None \<Rightarrow> run_status r = PENDING \<and> completed_at r = None
      | Some t \<Rightarrow> created_at r < t \<and> (case completed_at r of None \<Rightarrow> run_status r \<noteq> COMPLETED | Some u \<Rightarrow> t < u))"

lemma demo_times:
  assumes "demo_random_ok (de_random x)"
  shows "times_ordered (demo_evaluation_run x i r)"
proof -
  have "0 < rd_seconds (de_random x) i" "0 < rd_minutes (de_random x) i"
    using assms unfolding demo_random_ok_def by (metis int_one_le_iff_zero_less)+
  then show ?thesis by (simp add: times_ordered_def demo_evaluation_run_def Let_def)
qed

text \<open>
  The demonstration data is consistent: every run counts as many workers as its configuration has
  steps and no more finished than there are, has a score between 0 and 1 exactly when it is
  completed, and its times are in order; the weights of each configuration sum to 1; and exactly the
  startups shown as evaluated have a completed run.
\<close>

theorem demo_data_consistent:
  assumes "demo_random_ok (de_random x)"
  shows "list_all run_plausible demo_runs
    \<and> list_all times_ordered (numbered (demo_evaluation_run x) demo_runs)
    \<and> map (\<lambda>c. sum_list (map snd (dc_weights c))) demo_configs = [1, 1, 1]
    \<and> filter (\<lambda>i. dm_status (demo_startups ! i) = EVALUATED) [0..<8] =
        filter (\<lambda>i. list_ex (\<lambda>r. dn_sub r = i \<and> dn_run_status r = COMPLETED) demo_runs) [0..<8]"
proof (intro conjI)
  show "list_all run_plausible demo_runs" by code_simp
  show "list_all times_ordered (numbered (demo_evaluation_run x) demo_runs)"
    using demo_times [OF assms] by (auto simp: list_all_iff numbered_def)
  show "map (\<lambda>c. sum_list (map snd (dc_weights c))) demo_configs = [1, 1, 1]" by code_simp
  show "filter (\<lambda>i. dm_status (demo_startups ! i) = EVALUATED) [0..<8] =
        filter (\<lambda>i. list_ex (\<lambda>r. dn_sub r = i \<and> dn_run_status r = COMPLETED) demo_runs) [0..<8]" by code_simp
qed

subsection \<open>Witnesses\<close>

definition sample_demo_env :: demo_env where
  "sample_demo_env = \<lparr>de_hash = rev, de_stamp = 0, de_clock = (\<lambda>_. 0), de_run_clock = (\<lambda>_. 0),
     de_random = \<lparr>rd_days = (\<lambda>_. 1), rd_hours = (\<lambda>_. 0), rd_run_hours = (\<lambda>_. 0), rd_seconds = (\<lambda>_. 1),
                  rd_minutes = (\<lambda>_. 1)\<rparr>,
     de_org_id = 1, de_user_id = 2, de_sub_id = (\<lambda>i. 10 + i), de_cfg_id = (\<lambda>i. 20 + i), de_run_id = (\<lambda>i. 30 + i)\<rparr>"

theorem demo_seed_once_witness:
  "\<exists>d1. demo_seed api_classes sample_demo_env empty_db = (Inr (), d1) \<and> length (runs d1) = 12"
proof -
  have e: "organizations empty_db = []" "users empty_db = []" "runs empty_db = []"
    by (simp_all add: empty_db_def)
  show ?thesis using demo_seed_once [of empty_db sample_demo_env sample_demo_env] by (auto simp: e)
qed

theorem demo_data_consistent_witness:
  "list_all times_ordered (numbered (demo_evaluation_run sample_demo_env) demo_runs)"
  using demo_data_consistent [of sample_demo_env] by (simp add: demo_random_ok_def sample_demo_env_def)

end
