(* ===== verification/Dashboard.thy ===== *)
theory Dashboard
  imports Migrations
begin

section \<open>The dashboard of an organization (\<open>alembic/versions/002_materialized_views.py\<close>, \<open>finalize.py\<close>)\<close>

text \<open>
  The query of the materialized view, written as the joins and aggregates of the SQL text, and the
  task that refreshes it after an evaluation. The catalog is that of theory Schema: refreshing needs the
  view, its unique index and the function of the second migration.
\<close>

subsection \<open>The query\<close>

text \<open>A left join leaves one row of nulls for an organization without rows on the right.\<close>

definition left_rows :: "'a list \<Rightarrow> 'a option list" where
  "left_rows xs = (if xs = [] then [None] else map Some xs)"

definition joined :: "'a list \<Rightarrow> 'b list \<Rightarrow> ('a option \<times> 'b option) list" where
  "joined ss rs = concat (map (\<lambda>s. map (Pair s) (left_rows rs)) (left_rows ss))"

text \<open>Aggregates skip nulls; over no value at all they are null, except counts.\<close>

definition count_distinct :: "'k option list \<Rightarrow> nat" where
  "count_distinct xs = length (remdups (List.map_filter id xs))"

definition sql_avg :: "rat option list \<Rightarrow> rat option" where
  "sql_avg xs = (let ys = List.map_filter id xs in if ys = [] then None else Some (sum_list ys / of_nat (length ys)))"

definition sql_max :: "'k::linorder option list \<Rightarrow> 'k option" where
  "sql_max xs = (let ys = List.map_filter id xs in if ys = [] then None else Some (Max (set ys)))"

record dash_row =
  dr_organization_id :: uuid
  dr_organization_name :: string
  dr_submissions :: nat
  dr_evaluations :: nat
  dr_average :: rat
  dr_last :: "timestamp option"

definition in_org :: "uuid \<Rightarrow> 'a org_model_scheme \<Rightarrow> bool" where
  "in_org oid x \<longleftrightarrow> organization_id x = oid \<and> active x"

definition dashboard_row :: "db \<Rightarrow> organization \<Rightarrow> dash_row" where
  "dashboard_row d y =
     (let ps = joined (filter (in_org (ident y)) (submissions d)) (filter (in_org (ident y)) (runs d))
      in \<lparr>dr_organization_id = ident y, dr_organization_name = org_name y,
          dr_submissions = count_distinct (map (\<lambda>(s, r). map_option ident s) ps),
          dr_evaluations = count_distinct (map (\<lambda>(s, r). map_option ident r) ps),
          dr_average = (case sql_avg (map (\<lambda>(s, r). Option.bind r overall_score) ps) of None \<Rightarrow> 0 | Some a \<Rightarrow> a),
          dr_last = sql_max (map (\<lambda>(s, r). map_option updated_at r) ps)\<rparr>)"

definition dashboard_rows :: "db \<Rightarrow> dash_row list" where
  "dashboard_rows d = map (dashboard_row d) (filter active (organizations d))"

subsection \<open>The refresh\<close>

definition refreshable :: "catalog \<Rightarrow> bool" where
  "refreshable c \<longleftrightarrow> ''refresh_org_dashboard_stats'' \<in> set (ct_functions c)
     \<and> list_ex (\<lambda>v. vw_name v = ''org_dashboard_stats'') (ct_views c)
     \<and> list_ex (\<lambda>i. ix_table i = ''org_dashboard_stats'' \<and> ix_unique i) (ct_indexes c)"

text \<open>The content of the view, and how many refreshes wait on a running event loop.\<close>

record dash_state =
  ds_view :: "dash_row list"
  ds_scheduled :: nat

text \<open>A session outside requests: the same rule as for requests.\<close>

definition get_standalone_session :: "('s \<Rightarrow> ('s, 'a) outcome) \<Rightarrow> 's \<Rightarrow> ('s, 'a) outcome" where
  "get_standalone_session h s =
     (case h s of (Inr x, s') \<Rightarrow> (Inr x, s') | (Inl e, s') \<Rightarrow> (Inl e, s))"

definition do_refresh :: "catalog \<Rightarrow> db \<Rightarrow> dash_state \<Rightarrow> (dash_state, unit) outcome" where
  "do_refresh c d =
     get_standalone_session (\<lambda>s. if refreshable c then (Inr (), s\<lparr>ds_view := dashboard_rows d\<rparr>)
                                 else (Inl DBAPIError, s))"

text \<open>
  What \<open>asyncio\<close> finds in the worker: no loop for the thread and a closed loop raise
  \<open>RuntimeError\<close>, after which a new loop runs the refresh; on a running loop it is only scheduled.
\<close>

datatype event_loop = Loop_missing | Loop_closed | Loop_idle | Loop_running

definition refresh_org_stats_task :: "event_loop \<Rightarrow> catalog \<Rightarrow> db \<Rightarrow> dash_state \<Rightarrow> (dash_state, string) outcome" where
  "refresh_org_stats_task lp c d s =
     (case lp of
        Loop_running \<Rightarrow> (Inr ''success'', s\<lparr>ds_scheduled := ds_scheduled s + 1\<rparr>)
      | Loop_idle \<Rightarrow> (case do_refresh c d s of (Inl e, s') \<Rightarrow> (Inl e, s') | (Inr _, s') \<Rightarrow> (Inr ''success'', s'))
      | Loop_missing \<Rightarrow> (case do_refresh c d s of (Inl e, s') \<Rightarrow> (Inl e, s') | (Inr _, s') \<Rightarrow> (Inr ''success'', s'))
      | Loop_closed \<Rightarrow> (case do_refresh c d s of (Inl e, s') \<Rightarrow> (Inl e, s') | (Inr _, s') \<Rightarrow> (Inr ''success'', s')))"

text \<open>The loop reaches a scheduled refresh; its error is kept in a future that nobody awaits.\<close>

definition run_scheduled :: "catalog \<Rightarrow> db \<Rightarrow> dash_state \<Rightarrow> dash_state" where
  "run_scheduled c d s =
     (if ds_scheduled s = 0 then s else (snd (do_refresh c d s))\<lparr>ds_scheduled := ds_scheduled s - 1\<rparr>)"

subsection \<open>The join multiplies nothing that is counted\<close>

lemma map_filter_id_Some: "List.map_filter id (map (\<lambda>x. Some (f x)) xs) = map f xs"
  by (induction xs) (auto simp: map_filter_def)

lemma left_rows_set: "set (left_rows xs) = (if xs = [] then {None} else Some ` set xs)"
  by (simp add: left_rows_def)

lemma left_rows_not_Nil: "left_rows xs \<noteq> []"
  by (simp add: left_rows_def)

lemma joined_set: "set (joined ss rs) = set (left_rows ss) \<times> set (left_rows rs)"
  by (auto simp: joined_def)

lemma set_map_filter_id: "set (List.map_filter id xs) = {x. Some x \<in> set xs}"
  by (force simp: map_filter_def)

lemma count_distinct_ids:
  assumes "distinct (map k xs)" and "{x. Some x \<in> set ys} = k ` set xs"
  shows "count_distinct ys = length xs"
proof -
  have "count_distinct ys = card (k ` set xs)"
    unfolding count_distinct_def length_remdups_card_conv set_map_filter_id assms(2) ..
  then show ?thesis using assms(1) by (metis distinct_card length_map set_map)
qed

lemma project_times: "B \<noteq> {} \<Longrightarrow> (\<lambda>(s, r). f s) ` (A \<times> B) = f ` A" "A \<noteq> {} \<Longrightarrow> (\<lambda>(s, r). g r) ` (A \<times> B) = g ` B"
  by (force simp: image_iff)+

lemma values_of_left_rows: "{x. Some x \<in> map_option k ` set (left_rows xs)} = k ` set xs"
  by (auto simp: left_rows_set image_image)

lemma joined_firsts: "{x. Some x \<in> set (map (\<lambda>(s, r). map_option k s) (joined ss rs))} = k ` set ss"
  unfolding set_map joined_set by (subst project_times) (simp_all add: values_of_left_rows left_rows_not_Nil)

lemma joined_seconds: "{x. Some x \<in> set (map (\<lambda>(s, r). map_option k r) (joined ss rs))} = k ` set rs"
  unfolding set_map joined_set by (subst project_times) (simp_all add: values_of_left_rows left_rows_not_Nil)

lemma joined_values:
  "List.map_filter id (map (\<lambda>(s, r). Option.bind r v) (joined ss rs)) =
     concat (replicate (length (left_rows ss)) (List.map_filter v rs))"
proof -
  have some: "List.map_filter id (map (\<lambda>(s, r). Option.bind r v) (map (Pair s) (map Some rs))) = List.map_filter v rs" for s
    by (induction rs) (simp_all add: map_filter_simps split: option.split)
  have one: "List.map_filter id (map (\<lambda>(s, r). Option.bind r v) (map (Pair s) (left_rows rs))) = List.map_filter v rs" for s
    using some by (cases "rs = []") (simp_all only: left_rows_def if_True if_False, simp add: map_filter_simps)
  have app: "List.map_filter id (map f (xs @ ys)) = List.map_filter id (map f xs) @ List.map_filter id (map f ys)" for f xs ys
    by (simp add: map_filter_def)
  have "List.map_filter id (map (\<lambda>(s, r). Option.bind r v) (concat (map (\<lambda>s. map (Pair s) (left_rows rs)) ls))) =
      concat (replicate (length ls) (List.map_filter v rs))" for ls
    by (induction ls) (simp_all only: list.map concat.simps app one replicate_Suc list.size add_Suc_right add_0_right, simp_all add: map_filter_def)
  then show ?thesis by (simp add: joined_def)
qed

lemma repeated_average:
  assumes "n \<noteq> 0"
  shows "sum_list (concat (replicate n xs)) / of_nat (length (concat (replicate n xs))) = sum_list xs / (of_nat (length xs) :: rat)"
proof -
  have "sum_list (concat (replicate n xs)) = of_nat n * sum_list xs" by (induction n) (simp_all add: algebra_simps)
  moreover have "length (concat (replicate n xs)) = n * length xs" by (induction n) simp_all
  ultimately show ?thesis using assms by simp
qed

text \<open>Each aggregate of the join is the aggregate of the table itself.\<close>

definition org_stats :: "db \<Rightarrow> organization \<Rightarrow> dash_row" where
  "org_stats d y =
     (let ss = filter (in_org (ident y)) (submissions d); rs = filter (in_org (ident y)) (runs d);
          vs = List.map_filter overall_score rs
      in \<lparr>dr_organization_id = ident y, dr_organization_name = org_name y, dr_submissions = length ss,
          dr_evaluations = length rs, dr_average = (if vs = [] then 0 else sum_list vs / of_nat (length vs)),
          dr_last = (if rs = [] then None else Some (Max (updated_at ` set rs)))\<rparr>)"

lemma unique_filter: "unique_ids t \<Longrightarrow> distinct (map ident (filter P t))"
  by (simp add: unique_ids_def distinct_map_filter)

lemma dashboard_row_correct:
  assumes "unique_ids (submissions d)" "unique_ids (runs d)"
  shows "dashboard_row d y = org_stats d y"
proof -
  let ?ss = "filter (in_org (ident y)) (submissions d)" and ?rs = "filter (in_org (ident y)) (runs d)"
  have n: "length (left_rows ?ss) \<noteq> 0" using left_rows_not_Nil by blast
  have avg: "sql_avg (map (\<lambda>(s, r). Option.bind r overall_score) (joined ?ss ?rs)) =
      (let vs = List.map_filter overall_score ?rs in if vs = [] then None else Some (sum_list vs / of_nat (length vs)))"
    unfolding sql_avg_def Let_def joined_values repeated_average [OF n] using n by auto
  have "List.map_filter id (map (\<lambda>(s, r). map_option updated_at r) (joined ?ss ?rs)) = [] \<longleftrightarrow> ?rs = []"
    "set (List.map_filter id (map (\<lambda>(s, r). map_option updated_at r) (joined ?ss ?rs))) = updated_at ` set ?rs"
    unfolding set_empty [symmetric] set_map_filter_id joined_seconds by simp_all
  then have mx: "sql_max (map (\<lambda>(s, r). map_option updated_at r) (joined ?ss ?rs)) =
      (if ?rs = [] then None else Some (Max (updated_at ` set ?rs)))"
    by (simp add: sql_max_def)
  show ?thesis
    unfolding dashboard_row_def org_stats_def Let_def avg mx
      count_distinct_ids [OF unique_filter [OF assms(1)] joined_firsts]
      count_distinct_ids [OF unique_filter [OF assms(2)] joined_seconds]
    by simp
qed

subsection \<open>Properties\<close>

lemma refreshable_after_upgrade: "refreshable (with_dashboard c)"
  by (simp add: refreshable_def with_dashboard_def dashboard_view_def dashboard_index_def)

lemma not_refreshable_before: "no_dashboard c \<Longrightarrow> \<not> refreshable c"
  by (auto simp: refreshable_def no_dashboard_def list_all_iff)

lemma do_refresh_result:
  "do_refresh c d s = (if refreshable c then (Inr (), s\<lparr>ds_view := dashboard_rows d\<rparr>) else (Inl DBAPIError, s))"
  by (simp add: do_refresh_def get_standalone_session_def)

text \<open>
  C7: The dashboard shows the truth after a refresh. Although the query joins every submission of an
  organization with every run of it, its counts, average and latest date are those of the tables
  themselves, and the second migration makes the refresh possible. Unless the event loop of the
  worker is running, the task succeeds exactly with the refresh done; on a running loop it
  reports success at once and leaves the refresh to the loop, also where it will fail.
\<close>

theorem dashboard_refresh_correct:
  assumes "no_dashboard c" "run_ddl upgrade_002 c = Inr c'"
    and "unique_ids (submissions d)" "unique_ids (runs d)" and "lp \<noteq> Loop_running"
  shows "refresh_org_stats_task lp c' d s =
      (Inr ''success'', s\<lparr>ds_view := map (org_stats d) (filter active (organizations d))\<rparr>)
    \<and> refresh_org_stats_task lp c d s = (Inl DBAPIError, s)
    \<and> refresh_org_stats_task Loop_running c0 d s = (Inr ''success'', s\<lparr>ds_scheduled := ds_scheduled s + 1\<rparr>)
    \<and> ds_view (run_scheduled c' d (snd (refresh_org_stats_task Loop_running c' d s))) =
        map (org_stats d) (filter active (organizations d))"
proof -
  have c': "refreshable c'" "\<not> refreshable c"
    using assms(1,2) run_upgrade_002 [OF assms(1)] refreshable_after_upgrade not_refreshable_before by auto
  have rows: "dashboard_rows d = map (org_stats d) (filter active (organizations d))"
    using dashboard_row_correct [OF assms(3,4)] by (simp add: dashboard_rows_def)
  show ?thesis using c' assms(5)
    by (cases lp) (simp_all add: refresh_org_stats_task_def do_refresh_result run_scheduled_def rows)
qed

theorem dashboard_refresh_correct_witness:
  "refresh_org_stats_task Loop_idle (with_dashboard (installed empty_catalog)) (sample_db DRAFT COMPLETED)
     \<lparr>ds_view = [], ds_scheduled = 0\<rparr> =
   (Inr ''success'', \<lparr>ds_view = [org_stats (sample_db DRAFT COMPLETED) (sample_org 2)], ds_scheduled = 0\<rparr>)"
proof -
  have "unique_ids (submissions (sample_db DRAFT COMPLETED))" "unique_ids (runs (sample_db DRAFT COMPLETED))"
    by (simp_all add: unique_ids_def)
  from dashboard_refresh_correct [OF no_dashboard_installed run_upgrade_002 [OF no_dashboard_installed] this,
      of Loop_idle "\<lparr>ds_view = [], ds_scheduled = 0\<rparr>"]
  show ?thesis by (simp add: sample_org_def)
qed

end
