(* ===== verification/Routing.thy ===== *)
theory Routing
  imports HttpStack Security
begin

section \<open>Routes (\<open>api/v1/router.py\<close> and the endpoint decorators)\<close>

text \<open>
  The route table as the modules of \<open>api/v1\<close> declare it, in the order \<open>router.py\<close> and
  \<open>main.py\<close> include it: method, path template, handler, success status and who may call it. Which
  route a request takes is Starlette's: \<open>disp\<close> is a parameter and \<open>router_documented\<close> what it
  promises, the first route whose method and template match, where a parameter matches one
  non-empty segment.
\<close>

subsection \<open>Templates\<close>

datatype seg = Lit string | Par string

definition seg_of :: "string \<Rightarrow> seg" where
  "seg_of s = (case s of [] \<Rightarrow> Lit [] | c # t \<Rightarrow> if c = CHR ''{'' then Par (butlast t) else Lit s)"

definition template :: "string \<Rightarrow> seg list" where
  "template p = map seg_of (split_on (CHR ''/'') p)"

fun seg_matches :: "seg \<Rightarrow> string \<Rightarrow> bool" where
  "seg_matches (Lit l) s \<longleftrightarrow> s = l"
| "seg_matches (Par n) s \<longleftrightarrow> s \<noteq> []"

definition template_matches :: "seg list \<Rightarrow> string \<Rightarrow> bool" where
  "template_matches t p \<longleftrightarrow> list_all2 seg_matches t (split_on (CHR ''/'') p)"

fun bindings :: "seg list \<Rightarrow> string list \<Rightarrow> (string \<times> string) list" where
  "bindings (Par n # t) (s # ss) = (n, s) # bindings t ss"
| "bindings (Lit l # t) (s # ss) = bindings t ss"
| "bindings _ _ = []"

subsection \<open>The table\<close>

datatype access = Open | Signed_in | Needs role

record route =
  rt_methods :: "string list"
  rt_path :: string
  rt_name :: string
  rt_status :: nat
  rt_access :: access

definition rt :: "string \<Rightarrow> string \<Rightarrow> string \<Rightarrow> nat \<Rightarrow> access \<Rightarrow> route" where
  "rt m p nm st a = \<lparr>rt_methods = [m], rt_path = p, rt_name = nm, rt_status = st, rt_access = a\<rparr>"

definition include_router :: "string \<Rightarrow> route list \<Rightarrow> route list" where
  "include_router prefix rs = map (\<lambda>r. r\<lparr>rt_path := prefix @ rt_path r\<rparr>) rs"

definition health_router :: "route list" where
  "health_router =
     [rt ''GET'' ''/health/live'' ''liveness'' 200 Open,
      rt ''GET'' ''/health/ready'' ''readiness'' 200 Open,
      rt ''GET'' ''/health/deps'' ''dependency_health'' 200 Open,
      rt ''GET'' ''/health'' ''legacy_health'' 200 Open]"

definition auth_router :: "route list" where
  "auth_router = include_router ''/auth''
     [rt ''POST'' ''/register'' ''register'' 201 Open,
      rt ''POST'' ''/login'' ''login'' 200 Open,
      rt ''POST'' ''/refresh'' ''refresh_token'' 200 Open,
      rt ''GET'' ''/me'' ''get_me'' 200 Signed_in,
      rt ''POST'' ''/api-keys'' ''create_api_key'' 201 Signed_in,
      rt ''DELETE'' ''/api-keys/{key_id}'' ''revoke_api_key'' 200 (Needs ADMIN)]"

definition submissions_router :: "route list" where
  "submissions_router = include_router ''/submissions''
     [rt ''POST'' '''' ''create_submission'' 201 (Needs MEMBER),
      rt ''GET'' '''' ''list_submissions'' 200 Signed_in,
      rt ''GET'' ''/{submission_id}'' ''get_submission'' 200 Signed_in,
      rt ''PATCH'' ''/{submission_id}'' ''update_submission'' 200 (Needs MEMBER),
      rt ''DELETE'' ''/{submission_id}'' ''delete_submission'' 200 (Needs MEMBER),
      rt ''POST'' ''/{submission_id}/evaluate'' ''trigger_evaluation'' 202 (Needs MEMBER)]"

definition evaluations_router :: "route list" where
  "evaluations_router = include_router ''/evaluations''
     [rt ''POST'' ''/configs'' ''create_config'' 201 (Needs MEMBER),
      rt ''GET'' ''/configs'' ''list_configs'' 200 Signed_in,
      rt ''GET'' ''/configs/{config_id}'' ''get_config'' 200 Signed_in,
      rt ''PUT'' ''/configs/{config_id}'' ''update_config'' 200 (Needs MEMBER),
      rt ''DELETE'' ''/configs/{config_id}'' ''delete_config'' 200 (Needs ADMIN),
      rt ''GET'' ''/runs'' ''list_runs'' 200 Signed_in,
      rt ''GET'' ''/runs/{run_id}'' ''get_run'' 200 Signed_in,
      rt ''POST'' ''/runs/{run_id}/cancel'' ''cancel_run'' 200 (Needs MEMBER)]"

definition datasets_router :: "route list" where
  "datasets_router = include_router ''/datasets''
     [rt ''POST'' '''' ''create_dataset'' 201 (Needs MEMBER),
      rt ''POST'' ''/{dataset_id}/confirm'' ''confirm_upload'' 200 (Needs MEMBER),
      rt ''GET'' '''' ''list_datasets'' 200 Signed_in,
      rt ''GET'' ''/{dataset_id}'' ''get_dataset'' 200 Signed_in,
      rt ''DELETE'' ''/{dataset_id}'' ''delete_dataset'' 200 (Needs MEMBER)]"

definition metrics_router :: "route list" where
  "metrics_router = include_router ''/metrics''
     [rt ''GET'' '''' ''list_metrics'' 200 Signed_in,
      rt ''GET'' ''/{metric_id}'' ''get_metric'' 200 Signed_in,
      rt ''POST'' '''' ''create_metric'' 201 (Needs MEMBER)]"

definition results_router :: "route list" where
  "results_router = include_router ''/results''
     [rt ''GET'' ''/run/{run_id}/workers'' ''list_worker_results'' 200 Signed_in,
      rt ''GET'' ''/run/{run_id}/claims'' ''list_claims'' 200 Signed_in,
      rt ''GET'' ''/run/{run_id}/contradictions'' ''list_contradictions'' 200 Signed_in,
      rt ''GET'' ''/run/{run_id}/scores'' ''list_scores'' 200 Signed_in,
      rt ''GET'' ''/run/{run_id}/summary'' ''get_summary'' 200 Signed_in,
      rt ''POST'' ''/run/{run_id}/export'' ''export_results'' 202 Signed_in]"

text \<open>The stream of \<open>ws_runs.py\<close> is a WebSocket route, which only WebSocket connections take.\<close>

definition ws_router :: "route list" where
  "ws_router = [rt ''WEBSOCKET'' ''/runs/{run_id}/stream'' ''stream_run_progress'' 101 Open]"

definition v1_router :: "route list" where
  "v1_router = include_router ''/api/v1''
     (health_router @ auth_router @ submissions_router @ evaluations_router @ datasets_router
      @ metrics_router @ results_router @ ws_router)"

text \<open>FastAPI's own pages come first, in development only.\<close>

definition docs_routes :: "bool \<Rightarrow> route list" where
  "docs_routes development =
     (if development
      then map (\<lambda>(p, n). \<lparr>rt_methods = [''GET'', ''HEAD''], rt_path = p, rt_name = n, rt_status = 200, rt_access = Open\<rparr>)
        [(''/openapi.json'', ''openapi''), (''/docs'', ''swagger_ui_html''),
         (''/docs/oauth2-redirect'', ''swagger_ui_redirect''), (''/redoc'', ''redoc_html'')]
      else [])"

definition app_routes :: "bool \<Rightarrow> route list" where
  "app_routes development = docs_routes development @ v1_router
     @ [rt ''GET'' ''/metrics'' ''prometheus_metrics'' 200 Open]"

subsection \<open>Dispatch\<close>

definition full_match :: "string \<Rightarrow> string \<Rightarrow> route \<Rightarrow> bool" where
  "full_match m p r \<longleftrightarrow> m \<in> set (rt_methods r) \<and> template_matches (template (rt_path r)) p"

type_synonym dispatcher = "route list \<Rightarrow> string \<Rightarrow> string \<Rightarrow> (string \<times> (string \<times> string) list) option"

definition router_documented :: "dispatcher \<Rightarrow> bool" where
  "router_documented disp \<longleftrightarrow>
     (\<forall>rs m p. disp rs m p = (case find (full_match m p) rs of None \<Rightarrow> None
        | Some r \<Rightarrow> Some (rt_name r, bindings (template (rt_path r)) (split_on (CHR ''/'') p))))"

text \<open>The path of a route with values for its parameters.\<close>

fun fill :: "seg list \<Rightarrow> string list \<Rightarrow> string list" where
  "fill [] vs = []"
| "fill (Lit l # t) vs = l # fill t vs"
| "fill (Par n # t) (v # vs) = v # fill t vs"
| "fill (Par n # t) [] = [] # fill t []"

fun params :: "seg list \<Rightarrow> string list" where
  "params [] = []"
| "params (Lit l # t) = params t"
| "params (Par n # t) = n # params t"

definition url :: "route \<Rightarrow> string list \<Rightarrow> string" where
  "url r vs = join_with ''/'' (fill (template (rt_path r)) vs)"

subsection \<open>Disjoint templates\<close>

fun seg_overlap :: "seg \<Rightarrow> seg \<Rightarrow> bool" where
  "seg_overlap (Lit a) (Lit b) \<longleftrightarrow> a = b"
| "seg_overlap _ _ \<longleftrightarrow> True"

definition overlap :: "string list \<times> seg list \<Rightarrow> string list \<times> seg list \<Rightarrow> bool" where
  "overlap x y \<longleftrightarrow> list_ex (\<lambda>m. m \<in> set (fst y)) (fst x) \<and> list_all2 seg_overlap (snd x) (snd y)"

fun pairwise_disjoint :: "(string list \<times> seg list) list \<Rightarrow> bool" where
  "pairwise_disjoint [] \<longleftrightarrow> True"
| "pairwise_disjoint (x # xs) \<longleftrightarrow> list_all (\<lambda>y. \<not> overlap x y) xs \<and> pairwise_disjoint xs"

definition compiled :: "route \<Rightarrow> string list \<times> seg list" where
  "compiled r = (rt_methods r, template (rt_path r))"

lemma seg_overlap_sound: "seg_matches a s \<Longrightarrow> seg_matches b s \<Longrightarrow> seg_overlap a b"
  by (cases a; cases b) auto

lemma matches_overlap:
  assumes "full_match m p r" "full_match m p r'"
  shows "overlap (compiled r) (compiled r')"
proof -
  have "list_all2 seg_overlap t t'" if "list_all2 seg_matches t ss" "list_all2 seg_matches t' ss" for t t' ss
    using that by (auto simp: list_all2_conv_all_nth seg_overlap_sound)
  with assms show ?thesis
    by (auto simp: overlap_def compiled_def full_match_def template_matches_def list_ex_iff)
qed

lemma disjoint_unique_match:
  assumes "pairwise_disjoint (map compiled rs)"
    and "r \<in> set rs" "r' \<in> set rs" "full_match m p r" "full_match m p r'"
  shows "r = r'"
  using assms
proof (induction rs)
  case (Cons x xs)
  from Cons.prems show ?case
    using matches_overlap [OF Cons.prems(4,5)] matches_overlap [OF Cons.prems(5,4)] Cons.IH
    by (auto simp: list_all_iff)
qed simp

lemma routes_disjoint: "pairwise_disjoint (map compiled (app_routes dev))"
  by (cases dev; simp only:) code_simp+

subsection \<open>Paths built from a template\<close>

lemma split_on_append: "d \<notin> set w \<Longrightarrow> split_on d (w @ d # s) = w # split_on d s"
  by (induction w) auto

lemma split_join: "ws \<noteq> [] \<Longrightarrow> \<forall>w \<in> set ws. d \<notin> set w \<Longrightarrow> split_on d (join_with [d] ws) = ws"
  by (induction "[d]" ws rule: join_with.induct) (auto simp: split_on_no_sep split_on_append)

lemma fill_matches: "length vs = length (params t) \<Longrightarrow> \<forall>v \<in> set vs. v \<noteq> [] \<Longrightarrow> list_all2 seg_matches t (fill t vs)"
  by (induction t vs rule: fill.induct) auto

lemma fill_bindings: "length vs = length (params t) \<Longrightarrow> bindings t (fill t vs) = zip (params t) vs"
  by (induction t vs rule: fill.induct) auto

lemma fill_free: "\<forall>l. Lit l \<in> set t \<longrightarrow> d \<notin> set l \<Longrightarrow> \<forall>v \<in> set vs. d \<notin> set v \<Longrightarrow> w \<in> set (fill t vs) \<Longrightarrow> d \<notin> set w"
  by (induction t vs rule: fill.induct) auto

lemma fill_length: "length (fill t vs) = length t"
  by (induction t vs rule: fill.induct) auto

lemma template_free: "Lit l \<in> set (template p) \<Longrightarrow> CHR ''/'' \<notin> set l"
proof -
  assume "Lit l \<in> set (template p)"
  then obtain s where "s \<in> set (split_on (CHR ''/'') p)" "seg_of s = Lit l" by (auto simp: template_def)
  then show ?thesis using split_on_free [of s "CHR ''/''" p]
    by (auto simp: seg_of_def split: list.splits if_splits)
qed

lemma url_segments:
  assumes "\<forall>v \<in> set vs. CHR ''/'' \<notin> set v"
  shows "split_on (CHR ''/'') (url r vs) = fill (template (rt_path r)) vs"
  unfolding url_def
proof (rule split_join)
  show "fill (template (rt_path r)) vs \<noteq> []"
    using fill_length [of "template (rt_path r)" vs] by (auto simp: template_def)
  show "\<forall>w \<in> set (fill (template (rt_path r)) vs). CHR ''/'' \<notin> set w"
    using fill_free [OF _ assms] template_free by blast
qed

lemma url_matches:
  assumes "length vs = length (params (template (rt_path r)))" "\<forall>v \<in> set vs. v \<noteq> [] \<and> CHR ''/'' \<notin> set v"
    and "m \<in> set (rt_methods r)"
  shows "full_match m (url r vs) r"
  using assms fill_matches [of vs "template (rt_path r)"] url_segments [of vs r]
  by (simp add: full_match_def template_matches_def)

lemma find_unique:
  assumes "r \<in> set rs" "P r" "\<And>r'. r' \<in> set rs \<Longrightarrow> P r' \<Longrightarrow> r' = r"
  shows "find P rs = Some r"
  using assms
proof (induction rs)
  case (Cons x xs)
  show ?case
  proof (cases "P x")
    case True
    then have "r = x" using Cons.prems(3) [of x] by (metis list.set_intros(1))
    with True show ?thesis by (metis find.simps(2))
  next
    case False
    with Cons.prems(1,2) have "r \<in> set xs" by auto
    from Cons.IH [OF this Cons.prems(2)] have "find P xs = Some r"
      using Cons.prems(3) by (metis list.set_intros(2))
    with False show ?thesis by (metis find.simps(2))
  qed
qed simp

lemma find_same_set:
  assumes "set rs = set rs'" "\<And>r r'. r \<in> set rs' \<Longrightarrow> r' \<in> set rs' \<Longrightarrow> P r \<Longrightarrow> P r' \<Longrightarrow> r = r'"
  shows "find P rs = find P rs'"
proof (cases "\<exists>r \<in> set rs'. P r")
  case True
  then obtain r where r: "r \<in> set rs'" "P r" by blast
  have "find P rs' = Some r" by (rule find_unique) (use r assms(2) in blast)+
  moreover have "find P rs = Some r"
    by (rule find_unique) (use r assms in blast)+
  ultimately show ?thesis by simp
next
  case False
  then have "find P rs' = None" "find P rs = None"
    using assms(1) by (metis find_None_iff)+
  then show ?thesis by simp
qed

subsection \<open>Properties\<close>

text \<open>
  C26: Every route can be reached and gets its arguments. The path built from a route of the application
  and non-empty values without slashes is dispatched to exactly that handler, with each value
  bound to its parameter, and the order in which the routers are included does not matter:
  any list of the same routes dispatches every request alike.
\<close>

theorem routes_reach_their_handlers:
  assumes "router_documented disp" and "r \<in> set (app_routes dev)" and "m \<in> set (rt_methods r)"
    and "length vs = length (params (template (rt_path r)))" "\<forall>v \<in> set vs. v \<noteq> [] \<and> CHR ''/'' \<notin> set v"
    and "set rs = set (app_routes dev)"
  shows "disp (app_routes dev) m (url r vs) = Some (rt_name r, zip (params (template (rt_path r))) vs)
    \<and> disp rs m' p = disp (app_routes dev) m' p"
proof
  have uniq: "r = r'" if "r \<in> set (app_routes dev)" "r' \<in> set (app_routes dev)" "full_match m p r" "full_match m p r'" for r r' m p
    using disjoint_unique_match [OF routes_disjoint that] .
  have disp: "disp rs m p = (case find (full_match m p) rs of None \<Rightarrow> None
      | Some r \<Rightarrow> Some (rt_name r, bindings (template (rt_path r)) (split_on (CHR ''/'') p)))" for rs m p
    using assms(1) unfolding router_documented_def by blast
  have segs: "split_on (CHR ''/'') (url r vs) = fill (template (rt_path r)) vs"
    using url_segments assms(5) by blast
  have full: "full_match m (url r vs) r" by (rule url_matches [OF assms(4,5,3)])
  then have "find (full_match m (url r vs)) (app_routes dev) = Some r"
    by (rule find_unique [OF assms(2)]) (rule uniq [OF _ assms(2) _ full])
  then show "disp (app_routes dev) m (url r vs) = Some (rt_name r, zip (params (template (rt_path r))) vs)"
    by (simp only: disp option.case segs fill_bindings [OF assms(4)])
  have "find (full_match m' p) rs = find (full_match m' p) (app_routes dev)"
    by (rule find_same_set [OF assms(6)]) (rule uniq)
  then show "disp rs m' p = disp (app_routes dev) m' p" by (simp only: disp)
qed

definition mutating :: "route \<Rightarrow> bool" where
  "mutating r \<longleftrightarrow> list_ex (\<lambda>m. m \<in> set [''POST'', ''PUT'', ''PATCH'', ''DELETE'']) (rt_methods r)"

text \<open>
  What can be called without authentication in production is exactly the health checks,
  registration, login, token refresh, the progress stream and the metrics. Of the routes that
  change something, only creating an API key and exporting results ask for no role. Every
  exempt path of the rate limiter is one of the open routes, while the prefix of the health checks
  that the request metrics exclude is the prefix of no route.
\<close>

theorem open_routes:
  "map rt_name (filter (\<lambda>r. rt_access r = Open) (app_routes False)) =
     [''liveness'', ''readiness'', ''dependency_health'', ''legacy_health'', ''register'', ''login'',
      ''refresh_token'', ''stream_run_progress'', ''prometheus_metrics'']
   \<and> map rt_name (filter (\<lambda>r. mutating r \<and> rt_access r = Signed_in) (app_routes False)) =
     [''create_api_key'', ''export_results'']
   \<and> list_all (\<lambda>p. list_ex (\<lambda>r. full_match ''GET'' p r \<and> rt_access r = Open) (app_routes False)) EXEMPT_PATHS
   \<and> \<not> list_ex (\<lambda>r. starts_with ''/health'' (rt_path r)) (app_routes False)"
proof (intro conjI)
  show "map rt_name (filter (\<lambda>r. rt_access r = Open) (app_routes False)) =
     [''liveness'', ''readiness'', ''dependency_health'', ''legacy_health'', ''register'', ''login'',
      ''refresh_token'', ''stream_run_progress'', ''prometheus_metrics'']" by code_simp
  show "map rt_name (filter (\<lambda>r. mutating r \<and> rt_access r = Signed_in) (app_routes False)) =
     [''create_api_key'', ''export_results'']" by code_simp
  show "list_all (\<lambda>p. list_ex (\<lambda>r. full_match ''GET'' p r \<and> rt_access r = Open) (app_routes False)) EXEMPT_PATHS"
    by code_simp
  show "\<not> list_ex (\<lambda>r. starts_with ''/health'' (rt_path r)) (app_routes False)" by code_simp
qed

subsection \<open>Witnesses\<close>

definition first_route :: dispatcher where
  "first_route rs m p = (case find (full_match m p) rs of None \<Rightarrow> None
     | Some r \<Rightarrow> Some (rt_name r, bindings (template (rt_path r)) (split_on (CHR ''/'') p)))"

theorem routes_reach_their_handlers_witness:
  "first_route (app_routes False) ''DELETE'' ''/api/v1/evaluations/configs/42'' = Some (''delete_config'', [(''config_id'', ''42'')])"
proof -
  let ?r = "rt ''DELETE'' ''/api/v1/evaluations/configs/{config_id}'' ''delete_config'' 200 (Needs ADMIN)"
  have d: "router_documented first_route" by (simp add: router_documented_def first_route_def)
  have m: "?r \<in> set (app_routes False)" by code_simp
  have t: "template (rt_path ?r) = [Lit [], Lit ''api'', Lit ''v1'', Lit ''evaluations'', Lit ''configs'', Par ''config_id'']"
    by code_simp
  have "url ?r [''42''] = ''/api/v1/evaluations/configs/42''" unfolding url_def t by simp
  with routes_reach_their_handlers [OF d m, of "''DELETE''" "[''42'']" "app_routes False"] t
  show ?thesis by (simp add: rt_def)
qed

end
