(* ===== verification/Spec2Isabelle.thy ===== *)
theory Spec2Isabelle
  imports AuthApi Progress HttpStack CeleryTasks LogSetup RoleOrder Bodies RowRules Repositories
    Exports Health QueryAnalysis Crypto DemoData Dashboard Deployment
begin

text \<open>
  A verification library for the evaluation engine under \<open>src/src\<close>: a FastAPI service
  in which organizations hand in startup submissions, and a Celery pipeline that evaluates
  them. The theories follow the layers of the program.

  How the program works. A request passes the middlewares (\<open>middleware/\<close>), is
  authenticated and runs in one database session (\<open>database.py\<close>), commits
  on success and rolls back when the handler raises; services
  (\<open>services/\<close>) read and write the tables of \<open>models/\<close>, partly through repositories
  (\<open>repositories/\<close>), and append to the audit log. \<open>trigger_evaluation\<close> inserts a
  run; the orchestrator (\<open>workers/tasks/orchestrator.py\<close>) takes it to RUNNING and
  sends four analyses and then the chain cross-check, fabrication, LLM judge, finalize. Tasks
  report progress to Redis; caches and rate limits live there as well. The results are listed,
  summarised and exported to S3.

  Theories and what they model.

  Foundations:
  \<^item> \<open>Prelude\<close>: exceptions as values (\<open>exn\<close>), outcomes, the session
    (\<open>in_session\<close>), tables as lists of rows with the query operations the code uses.
    \<open>PyString\<close> and \<open>PyNum\<close> hold Python's string operations, rounding, grouping and
    averages with their lemmas; \<open>Csv\<close> the CSV writer with a reader and their round trip.
  \<^item> \<open>Models\<close>: one record per ORM class, the JSON values, the record \<open>db\<close> of all
    tables. \<open>Repository\<close>: \<open>repositories/base_repository.py\<close>. \<open>AuditTrail\<close>: the
    audit log. \<open>Samples\<close>: rows at which the witnesses are evaluated.
  \<^item> \<open>Repositories\<close>: the user, organization and submission repositories and the cache of
    submission listings, none of which a service uses. \<open>PyRegex\<close>: a matcher for the patterns of
    \<open>utils/validators.py\<close>, which \<open>Validators\<close> models. \<open>Crypto\<close>: \<open>utils/crypto.py\<close>
    with the URL-safe base64 text on bytes of eight bits.

  Services and requests:
  \<^item> \<open>ScopedResource\<close>: the locales \<open>scoped_lookup\<close> and \<open>scoped_resource\<close>, the
    contract of rows fetched by id and organization and of soft deletion; interpreted in
    \<open>SubmissionService\<close>, \<open>EvaluationService\<close>, \<open>DatasetService\<close> and \<open>Results\<close>
    (the modules of \<open>services/\<close> with these names). \<open>MetricService\<close>: built-in and custom
    metrics. \<open>DatasetService\<close> also holds \<open>storage_service.py\<close> and the dataset endpoints.
  \<^item> \<open>Security\<close>: \<open>security.py\<close> and \<open>api/deps.py\<close>. \<open>RoleOrder\<close>: the two role
    hierarchies as instances of \<open>linorder\<close>, compared with the permission check. \<open>AuthService\<close>:
    \<open>services/auth_service.py\<close> with registration, login and profile. \<open>AuthApi\<close>: the bodies of
    \<open>schemas/auth.py\<close>, every endpoint of \<open>api/v1/auth.py\<close> and sequences of requests to them.
  \<^item> \<open>Paging\<close>: \<open>utils/pagination.py\<close> with the locale \<open>paged_listing\<close> (walking
    through the pages of a listing), interpreted on lists in memory and on the endpoints.
    \<open>Results\<close>: \<open>services/result_service.py\<close> and \<open>api/v1/results.py\<close>. \<open>Api\<close>: the
    endpoints of submissions, configurations, runs and metrics with their schemas. \<open>Routing\<close>: the
    route table of \<open>api/v1/router.py\<close> and of the endpoint decorators with the role each asks for.
    \<open>Exports\<close>: \<open>workers/tasks/export.py\<close> and \<open>workers/export_worker.py\<close>.
  \<^item> \<open>HttpStack\<close>: the exception handlers and the four middlewares of \<open>middleware/\<close>,
    stacked as \<open>main.py\<close> does, with the locale \<open>layer\<close> (what a middleware must keep),
    interpreted on all but the audit middleware. \<open>RateLimit\<close>: \<open>rate_limit.py\<close> and
    \<open>middleware/rate_limiter.py\<close> with the locale \<open>sliding_log\<close>, interpreted on both.
    \<open>LogMasking\<close>: the log processors of \<open>observability/logging.py\<close>; \<open>LogSetup\<close>: its
    \<open>configure_logging\<close> with the chain of processors.
  \<^item> \<open>Cache\<close>: \<open>cache.py\<close> and \<open>services/cache_service.py\<close> with the locale
    \<open>fail_open_cache\<close>, interpreted on both.

  Runs and the pipeline:
  \<^item> \<open>Runs\<close>: \<open>repositories/evaluation_run_repository.py\<close> and the locale
    \<open>versioned_row\<close> (compare and swap on a version), interpreted on the repository.
    \<open>RunLifecycle\<close>: concurrent writers of a run as a step relation with its invariant.
  \<^item> \<open>BaseTask\<close>: \<open>workers/tasks/base_task.py\<close>. \<open>Analyses\<close> and \<open>GithubAnalysis\<close>:
    the four analysis tasks, with the locale \<open>analysis\<close> (what the cross-check relies on),
    interpreted on each. \<open>TextAnalysis\<close>: the text
    heuristics of the cross-check and of the fabrication step. \<open>Scoring\<close>: the score,
    contradiction, claim and worker result repositories. \<open>CrossCheck\<close>,
    \<open>Fabrication\<close>, \<open>LlmJudge\<close>: the tasks of these names. \<open>Webhook\<close>:
    \<open>services/webhook_service.py\<close>. \<open>Pipeline\<close>: the orchestrator, the finalizer and
    the chain, with the locale \<open>analysis_step\<close> (a step that leaves runs and submissions
    alone), interpreted on the three steps before the finalizer.
  \<^item> \<open>Delivery\<close>: the wrapper of the base task phase by phase, which is shown equal to
    \<open>base_run\<close>, and a step relation that delivers tasks any number of times, interleaves their
    phases and loses workers. \<open>DeliveryOnce\<close>: its invariants, for the four analyses.
    \<open>CeleryTasks\<close>: the settings of the Celery application and the options of its tasks, how long a
    run can take under them, and the entry of an analysis as Celery installs it.
  \<^item> \<open>Progress\<close>: \<open>workers/progress.py\<close> and the stream of \<open>api/v1/ws_runs.py\<close>.
    \<open>Maintenance\<close>: \<open>workers/cleanup_worker.py\<close> and the queues, schedule and signal
    handlers of \<open>workers/celery_app.py\<close>.

  The database:
  \<^item> \<open>Schema\<close>: the catalog of a PostgreSQL database, the statements of the three
    migrations under \<open>alembic/versions\<close> with their downgrades, the tables, indexes and relations
    the classes of \<open>models/\<close> declare. \<open>Migrations\<close>: the round trips of the migrations, and
    the tables at their head compared with the models.
  \<^item> \<open>RowRules\<close>: the triggers in three-valued logic, the row policies and
    \<open>set_org_context\<close>, the labels sent for enumerated types, what a refused statement does to
    the transaction of a session, and which processes can configure the mappers. The theories
    above take the database as one in which statements are not refused for these reasons.

  \<^item> \<open>Bodies\<close>: what the fields of the request bodies in \<open>schemas/\<close> accept, compared with what
    their columns hold by a decision procedure that is sound and complete for the rules that occur.
  \<^item> \<open>Dashboard\<close>: the query of the materialized view as joins and aggregates, and the task of
    \<open>workers/tasks/finalize.py\<close> that refreshes it. \<open>QueryAnalysis\<close>: the queries of
    \<open>repositories/query_analysis.py\<close> and its seed, compared with the repositories, the finalizer and
    the migrations. \<open>DemoData\<close>: \<open>seed_demo_data.py\<close>. \<open>Deployment\<close>: \<open>alembic/env.py\<close>,
    \<open>flowerconfig.py\<close>, \<open>health_check.py\<close> and the load test.

  The process:
  \<^item> \<open>Config\<close>: \<open>config.py\<close> with its validators, and the locale \<open>lazy_global\<close>: a module
    variable that is filled on first use and then kept. It is interpreted on the settings there, on
    the S3 client in \<open>ObjectStore\<close>, and on the engine, the session factory and the Redis pool in
    \<open>Startup\<close>.
  \<^item> \<open>ObjectStore\<close>: \<open>s3_client.py\<close> on a service with documented behaviour, and its refinement
    to the map of objects the services are modelled with. \<open>Telemetry\<close>:
    \<open>observability/metrics.py\<close> and \<open>observability/tracing.py\<close>. \<open>Startup\<close>: the lazily
    created objects of \<open>database.py\<close> and \<open>redis_client.py\<close> as a step relation on a process
    with its invariant. \<open>Lifespan\<close>: start-up, shutdown and configuration of the application
    (\<open>main.py\<close>) and the query metrics. \<open>Health\<close>: \<open>api/v1/health.py\<close>.

  What the lemmas show. For the services: what each lookup returns, isolation between
  organizations, what every operation leaves unchanged, and that refused operations change
  nothing. For runs: the version counts writes, terminal runs are final among the users of the
  lock, and where the code escapes the lock. For authentication: what a login grants, and the
  operations that can never commit. For the endpoints: who may change what, complete listings,
  round trips through the API and through an export. For the middlewares: what every request
  leaves balanced, how errors become responses, and what the order of the stack hides. For
  tasks: idempotency, failure records, progress, which steps may be repeated, and that repeated
  deliveries of the analyses count once unless they overlap and recover from every loss. For scores:
  ranges, the aggregate formula, immutability. For the pipeline: the chain completes a run
  exactly once, and the orchestrator as written never dispatches it. For the database: the
  migrations can be undone and agree with the models, what the triggers, policies and types
  really enforce, and that the dashboard query counts nothing twice. For the process: which objects
  are shared, what survives an outage at start-up, and what the probes report. For the routes:
  every handler is reached with its arguments, and which routes are open.

  Conventions. Ids are natural numbers given to the operations that create rows; times are
  integers (microseconds), given by the environment record \<open>env\<close>; floats are exact
  rationals, so IEEE rounding is not modelled while \<open>round(x, n)\<close> is. Text is Latin-1; a
  longer dash in a message is written as a hyphen. Third-party behaviour is a parameter: password
  hashing, SHA-256, the JWT codec (\<open>jwt_codec\<close> states what it promises), the Celery chord
  (\<open>checks_arguments\<close>), which \<open>run\<close> method its decorator installs, how Starlette stacks middlewares (\<open>starlette_build\<close>) and the CORS
  middleware (\<open>cors_adds_headers\<close>), HTTP outcomes, the S3 service (\<open>s3_documented\<close>), Fernet
  (\<open>fernet_documented\<close>), OpenTelemetry and prometheus_client, the processors of structlog, the engine of SQLAlchemy, the rule by
  which Starlette takes a route (\<open>router_documented\<close>), orjson, the collation of the
  database, the LLM call, random numbers. Query results without an ORDER BY come in insertion
  order. An UPDATE through the ORM or a statement stamps \<open>updated_at\<close>. The loops of the
  model are structural recursion, except those over the rest of a text (\<open>find_numbers\<close>,
  \<open>sub_uuid\<close>, \<open>sub_numeric\<close>, \<open>sub_pattern\<close>, \<open>remove_all\<close>, \<open>text_words\<close>,
  \<open>match_rests\<close>, \<open>like_match\<close>, \<open>replace_all\<close>, \<open>drop_references\<close>, \<open>interpolate\<close>), which have their termination proofs. One definition takes fuel:
  \<open>exec_module\<close>, the import of modules that import each other, whose depth is bounded by the number
  of modules, and which is run with enough for both of them.

  Not modelled: the logging hooks of the base task, which only log; what Celery and its broker do
  beyond the deliveries of \<open>Delivery\<close> (visibility timeouts, the result backend); redirects and 405
  answers of the router; the tests.
\<close>

end
